(* ===== verification/Prelude.thy ===== *)
theory Prelude
  imports Complex_Main "HOL-Library.Signed_Division" "HOL-Library.Sublist" "HOL-Library.Multiset"
begin

text \<open>
  The shared vocabulary of the development.
  \<^item> \<open>api_error\<close> and \<open>'a result\<close>: the exceptions the services throw, as values. A
    request handler runs inside one database transaction, so a handler that ends in \<open>Inl\<close>
    has no new state: the transaction is rolled back.
  \<^item> Row operations: a table is a list of rows in insertion order. \<open>find_row\<close> is a lookup by
    a unique column, \<open>update_rows\<close> an \<open>updateMany\<close>, \<open>sum_rows\<close> a reduce over a \<open>findMany\<close>.
  \<^item> The locale \<open>row_table\<close>: what a table of the database promises (a read after a write),
    with the lookup lemmas every component uses; each table of the schema interprets it.
  \<^item> Strings and numbers as JavaScript treats them, as far as the sources use them:
    \<open>toLowerCase\<close>, \<open>includes\<close>, \<open>trim\<close>, \<open>Math.round\<close>, and the truncating bigint division,
    which is \<open>sdiv\<close> of the library.
\<close>

section \<open>Results\<close>

datatype api_error =
    BadRequest string
  | Unauthorized string
  | Forbidden string
  | NotFound string
  | Conflict string
  | Gone string
  | Unprocessable string
  | LockedOut int
  | InternalError string

type_synonym 'a result = "api_error + 'a"

definition r_bind :: "'e + 'a \<Rightarrow> ('a \<Rightarrow> 'e + 'b) \<Rightarrow> 'e + 'b" where
  "r_bind r f = (case r of Inl e \<Rightarrow> Inl e | Inr a \<Rightarrow> f a)"

named_theorems result_simps

lemma r_bind_Inl [simp]: "r_bind (Inl e) f = Inl e"
  by (simp add: r_bind_def)

lemma r_bind_Inr [simp]: "r_bind (Inr a) f = f a"
  by (simp add: r_bind_def)

lemma r_bind_eq_Inr [result_simps]: "r_bind r f = Inr b \<longleftrightarrow> (\<exists>a. r = Inr a \<and> f a = Inr b)"
  by (cases r) auto

lemma r_bind_eq_Inl [result_simps]:
  "r_bind r f = Inl e \<longleftrightarrow> r = Inl e \<or> (\<exists>a. r = Inr a \<and> f a = Inl e)"
  by (cases r) auto

lemma r_bind_cong [fundef_cong]:
  "r = r' \<Longrightarrow> (\<And>a. r' = Inr a \<Longrightarrow> f a = g a) \<Longrightarrow> r_bind r f = r_bind r' g"
  by (cases r') auto

text \<open>The source's \<open>for (const x of xs) { ... }\<close> over a state, left early by a throw.\<close>

fun r_fold :: "('x \<Rightarrow> 's \<Rightarrow> 'e + 's) \<Rightarrow> 'x list \<Rightarrow> 's \<Rightarrow> 'e + 's" where
  "r_fold f [] s = Inr s"
| "r_fold f (x # xs) s = r_bind (f x s) (r_fold f xs)"

lemma r_fold_append: "r_fold f (xs @ ys) s = r_bind (r_fold f xs s) (r_fold f ys)"
  by (induction xs arbitrary: s) (auto simp: r_bind_def split: sum.splits)

lemma r_fold_invariant:
  assumes "r_fold f xs s = Inr t" and "P s"
    and "\<And>x s s'. x \<in> set xs \<Longrightarrow> f x s = Inr s' \<Longrightarrow> P s \<Longrightarrow> P s'"
  shows "P t"
  using assms
proof (induction xs arbitrary: s)
  case Nil
  then show ?case by simp
next
  case (Cons x xs)
  then obtain s1 where s1: "f x s = Inr s1" "r_fold f xs s1 = Inr t"
    by (auto simp: result_simps)
  have "P s1" using Cons.prems(2,3) s1(1) by auto
  with s1(2) show ?case using Cons.IH [of s1] Cons.prems(3) by auto
qed

text \<open>\<open>a ?? b\<close> on a nullable value.\<close>

abbreviation nullish :: "'a option \<Rightarrow> 'a \<Rightarrow> 'a" where
  "nullish a b \<equiv> (case a of None \<Rightarrow> b | Some x \<Rightarrow> x)"

section \<open>Rows\<close>

type_synonym uuid = nat
type_synonym date = int

definition find_row :: "('r \<Rightarrow> 'k) \<Rightarrow> 'k \<Rightarrow> 'r list \<Rightarrow> 'r option" where
  "find_row key k rows = find (\<lambda>r. key r = k) rows"

definition update_rows :: "('r \<Rightarrow> bool) \<Rightarrow> ('r \<Rightarrow> 'r) \<Rightarrow> 'r list \<Rightarrow> 'r list" where
  "update_rows p f rows = map (\<lambda>r. if p r then f r else r) rows"

definition count_rows :: "('r \<Rightarrow> bool) \<Rightarrow> 'r list \<Rightarrow> nat" where
  "count_rows p rows = length (filter p rows)"

definition sum_rows :: "('r \<Rightarrow> int) \<Rightarrow> 'r list \<Rightarrow> int" where
  "sum_rows f rows = sum_list (map f rows)"

lemma sum_rows_Nil [simp]: "sum_rows f [] = 0"
  by (simp add: sum_rows_def)

lemma sum_rows_Cons [simp]: "sum_rows f (r # rs) = f r + sum_rows f rs"
  by (simp add: sum_rows_def)

lemma sum_rows_append [simp]: "sum_rows f (rs @ qs) = sum_rows f rs + sum_rows f qs"
  by (simp add: sum_rows_def)

lemma sum_rows_nonneg: "(\<And>r. r \<in> set rs \<Longrightarrow> 0 \<le> f r) \<Longrightarrow> 0 \<le> sum_rows f rs"
  by (induction rs) (auto intro!: add_nonneg_nonneg)

lemma sum_rows_filter_split:
  "sum_rows f rs = sum_rows f (filter p rs) + sum_rows f (filter (\<lambda>r. \<not> p r) rs)"
  by (induction rs) auto

text \<open>A JavaScript \<open>reduce((sum, x) => sum + f(x), 0n)\<close> is the list sum.\<close>

lemma foldl_sum_rows: "foldl (\<lambda>acc r. acc + f r) a rs = a + sum_rows f rs"
  by (induction rs arbitrary: a) auto

lemma find_row_Nil [simp]: "find_row key k [] = None"
  by (simp add: find_row_def)

lemma find_row_Cons: "find_row key k (r # rs) = (if key r = k then Some r else find_row key k rs)"
  by (simp add: find_row_def)

lemma find_SomeD: "find P xs = Some x \<Longrightarrow> x \<in> set xs \<and> P x"
  by (metis find_Some_iff nth_mem)

lemma find_row_Some: "find_row key k rows = Some r \<Longrightarrow> r \<in> set rows \<and> key r = k"
  by (auto simp: find_row_def find_Some_iff)

lemma find_row_None: "find_row key k rows = None \<longleftrightarrow> (\<forall>r \<in> set rows. key r \<noteq> k)"
  by (auto simp: find_row_def find_None_iff)

lemma find_row_append:
  "find_row key k (rs @ qs) = (case find_row key k rs of Some r \<Rightarrow> Some r | None \<Rightarrow> find_row key k qs)"
  by (induction rs) (auto simp: find_row_def)

lemma find_row_distinct:
  "distinct (map key rows) \<Longrightarrow> r \<in> set rows \<Longrightarrow> find_row key (key r) rows = Some r"
  by (induction rows) (auto simp: find_row_Cons)

lemma find_row_update:
  assumes "\<And>r. key (f r) = key r"
  shows "find_row key k (update_rows p f rows) =
    map_option (\<lambda>r. if p r then f r else r) (find_row key k rows)"
  by (induction rows) (auto simp: update_rows_def find_row_Cons assms)

lemma map_key_update_rows [simp]:
  "(\<And>r. key (f r) = key r) \<Longrightarrow> map key (update_rows p f rows) = map key rows"
  by (simp add: update_rows_def)

lemma set_update_rows: "set (update_rows p f rows) = (\<lambda>r. if p r then f r else r) ` set rows"
  by (simp add: update_rows_def)

lemma filter_update_rows_other:
  "(\<And>r. p r \<Longrightarrow> q (f r) = q r \<and> \<not> q r) \<Longrightarrow> filter q (update_rows p f rows) = filter q rows"
  by (induction rows) (auto simp: update_rows_def)

lemma update_rows_none: "(\<And>r. r \<in> set rows \<Longrightarrow> \<not> p r) \<Longrightarrow> update_rows p f rows = rows"
  by (induction rows) (auto simp: update_rows_def)

lemma count_rows_zero: "count_rows p rows = 0 \<longleftrightarrow> (\<forall>r \<in> set rows. \<not> p r)"
  by (simp add: count_rows_def filter_empty_conv)

subsection \<open>What a table of the database promises\<close>

text \<open>
  A table is a component \<open>rows\<close> of the state with an update \<open>upd\<close>; \<open>key\<close> is its primary
  key. The single law is that a read returns what the last write put there. Every lookup fact
  about inserts and updates follows from it once, here.
\<close>

locale row_table =
  fixes rows :: "'d \<Rightarrow> 'r list"
    and upd :: "('r list \<Rightarrow> 'r list) \<Rightarrow> 'd \<Rightarrow> 'd"
    and key :: "'r \<Rightarrow> uuid"
  assumes rows_upd: "rows (upd f d) = f (rows d)"
begin

lemma lookup_insert_fresh:
  assumes "\<And>r. r \<in> set (rows d) \<Longrightarrow> key r \<noteq> key x"
  shows "find_row key (key x) (rows (upd (\<lambda>rs. rs @ [x]) d)) = Some x"
proof -
  have "find_row key (key x) (rows d) = None"
    using assms by (auto simp: find_row_None)
  then show ?thesis
    by (simp add: rows_upd find_row_append find_row_Cons)
qed

lemma lookup_insert_other:
  "find_row key k (rows d) = Some r \<Longrightarrow>
   find_row key k (rows (upd (\<lambda>rs. rs @ [x]) d)) = Some r"
  by (simp add: rows_upd find_row_append)

lemma lookup_update:
  assumes "\<And>r. key (f r) = key r"
  shows "find_row key k (rows (upd (update_rows p f) d)) =
    map_option (\<lambda>r. if p r then f r else r) (find_row key k (rows d))"
  by (simp add: rows_upd find_row_update assms)

lemma lookup_update_same:
  assumes "\<And>r. key (f r) = key r" and "find_row key k (rows d) = Some r"
  shows "find_row key k (rows (upd (update_rows (\<lambda>r. key r = k) f) d)) = Some (f r)"
  using assms find_row_Some [OF assms(2)] by (simp add: lookup_update)

lemma lookup_update_other:
  assumes "\<And>r. key (f r) = key r" and "k \<noteq> j"
  shows "find_row key k (rows (upd (update_rows (\<lambda>r. key r = j) f) d)) = find_row key k (rows d)"
proof (cases "find_row key k (rows d)")
  case None
  then show ?thesis using assms by (simp add: lookup_update)
next
  case (Some r)
  then have "key r \<noteq> j" using find_row_Some [OF Some] assms(2) by auto
  with Some show ?thesis by (simp add: lookup_update assms(1))
qed

lemma keys_update:
  "(\<And>r. key (f r) = key r) \<Longrightarrow> map key (rows (upd (update_rows p f) d)) = map key (rows d)"
  by (simp add: rows_upd)

end

section \<open>Invariants of step relations\<close>

text \<open>A predicate kept by every step holds in every state reached; each state machine interprets it.\<close>

locale step_invariant =
  fixes step :: "'s \<Rightarrow> 's \<Rightarrow> bool"
    and inv :: "'s \<Rightarrow> bool"
  assumes step_keeps: "inv s \<Longrightarrow> step s s' \<Longrightarrow> inv s'"
begin

lemma reachable_keeps: "step\<^sup>*\<^sup>* s s' \<Longrightarrow> inv s \<Longrightarrow> inv s'"
  by (induction rule: rtranclp_induct) (auto intro: step_keeps)

end

section \<open>Grouping and picking\<close>

text \<open>
  A \<open>Map\<close> from a key to a growing array, in order of first insertion, as the sources build it with
  \<open>get\<close>, \<open>push\<close> and \<open>set\<close>.
\<close>

fun group_insert :: "'k \<Rightarrow> 'a \<Rightarrow> ('k \<times> 'a list) list \<Rightarrow> ('k \<times> 'a list) list" where
  "group_insert k a [] = [(k, [a])]"
| "group_insert k a ((j, as) # gs) = (if j = k then (j, as @ [a]) # gs else (j, as) # group_insert k a gs)"

definition group_by :: "('a \<Rightarrow> 'k) \<Rightarrow> 'a list \<Rightarrow> ('k \<times> 'a list) list" where
  "group_by key xs = foldl (\<lambda>gs x. group_insert (key x) x gs) [] xs"

lemma group_by_Nil [simp]: "group_by key [] = []"
  by (simp add: group_by_def)

lemma group_by_snoc: "group_by key (xs @ [x]) = group_insert (key x) x (group_by key xs)"
  by (simp add: group_by_def)

lemma group_insert_members:
  "mset (concat (map snd (group_insert k a gs))) = mset (concat (map snd gs)) + {#a#}"
  by (induction k a gs rule: group_insert.induct) auto

lemma group_by_members: "mset (concat (map snd (group_by key xs))) = mset xs"
  by (induction xs rule: rev_induct) (simp_all add: group_by_snoc group_insert_members)

lemma group_insert_keys: "set (map fst (group_insert k a gs)) = insert k (set (map fst gs))"
  by (induction k a gs rule: group_insert.induct) auto

lemma group_insert_distinct: "distinct (map fst gs) \<Longrightarrow> distinct (map fst (group_insert k a gs))"
proof (induction k a gs rule: group_insert.induct)
  case (2 k a j as gs)
  with group_insert_keys [of k a gs] show ?case by auto
qed simp

lemma group_by_keys: "distinct (map fst (group_by key xs))" "set (map fst (group_by key xs)) = key ` set xs"
  by (induction xs rule: rev_induct) (simp_all add: group_by_snoc group_insert_keys group_insert_distinct del: set_map)

lemma group_insert_uniform:
  "\<forall>(j, as) \<in> set gs. \<forall>b \<in> set as. key b = j \<Longrightarrow>
   \<forall>(j, as) \<in> set (group_insert (key a) a gs). \<forall>b \<in> set as. key b = j"
  by (induction "key a" a gs rule: group_insert.induct) auto

lemma group_by_uniform: "(j, as) \<in> set (group_by key xs) \<Longrightarrow> b \<in> set as \<Longrightarrow> key b = j"
proof -
  have "\<forall>(j, as) \<in> set (group_by key xs). \<forall>b \<in> set as. key b = j"
    by (induction xs rule: rev_induct) (simp_all add: group_by_snoc group_insert_uniform)
  then show "(j, as) \<in> set (group_by key xs) \<Longrightarrow> b \<in> set as \<Longrightarrow> key b = j" by auto
qed

text \<open>\<open>findFirst\<close> with \<open>orderBy ... desc\<close>: a row with the greatest value, the last inserted on a tie.\<close>

fun latest_by :: "('r \<Rightarrow> int) \<Rightarrow> 'r list \<Rightarrow> 'r option" where
  "latest_by f [] = None"
| "latest_by f (r # rs) =
    (case latest_by f rs of None \<Rightarrow> Some r | Some x \<Rightarrow> if f r \<le> f x then Some x else Some r)"

lemma latest_by_Some: "latest_by f rs = Some r \<Longrightarrow> r \<in> set rs \<and> (\<forall>x \<in> set rs. f x \<le> f r)"
proof (induction rs arbitrary: r)
  case Nil
  then show ?case by simp
next
  case (Cons a rs)
  then show ?case
  proof (cases "latest_by f rs")
    case None
    then have "rs = []" by (cases rs) (auto split: option.splits if_splits)
    with Cons.prems show ?thesis by simp
  next
    case (Some x)
    with Cons.IH [OF Some] Cons.prems show ?thesis by (auto split: if_splits)
  qed
qed

lemma latest_by_None [simp]: "latest_by f rs = None \<longleftrightarrow> rs = []"
  by (cases rs) (auto split: option.splits)

section \<open>JavaScript strings and numbers\<close>

definition to_lower_char :: "char \<Rightarrow> char" where
  "to_lower_char c =
     (let n = (of_char c :: nat) in if 65 \<le> n \<and> n \<le> 90 then char_of (n + 32) else c)"

definition to_lower :: "string \<Rightarrow> string" where
  "to_lower s = map to_lower_char s"

fun str_includes :: "string \<Rightarrow> string \<Rightarrow> bool" where
  "str_includes [] pat = (pat = [])"
| "str_includes (c # s) pat = (take (length pat) (c # s) = pat \<or> str_includes s pat)"

lemma str_includes_sublist: "str_includes s pat \<longleftrightarrow> sublist pat s"
proof (induction s)
  case Nil
  then show ?case by auto
next
  case (Cons c s)
  have "take (length pat) (c # s) = pat \<longleftrightarrow> prefix pat (c # s)"
    by (metis append_eq_conv_conj prefix_def take_is_prefix)
  with Cons show ?case by (auto simp: sublist_Cons_right)
qed

definition is_space :: "char \<Rightarrow> bool" where
  "is_space c = (let n = (of_char c :: nat) in n = 32 \<or> (9 \<le> n \<and> n \<le> 13))"

definition str_trim :: "string \<Rightarrow> string" where
  "str_trim s = rev (dropWhile is_space (rev (dropWhile is_space s)))"

lemma str_trim_idem: "str_trim (str_trim s) = str_trim s"
proof -
  have "dropWhile is_space (str_trim s) = str_trim s"
  proof (cases "str_trim s")
    case Nil
    then show ?thesis by simp
  next
    case (Cons c cs)
    let ?d = "dropWhile is_space s"
    have "suffix (dropWhile is_space (rev ?d)) (rev ?d)" by (rule suffix_dropWhile)
    then have "prefix (str_trim s) ?d"
      by (simp add: str_trim_def suffix_to_prefix)
    with Cons obtain ds where "?d = c # ds"
      by (auto simp: prefix_def)
    then have "\<not> is_space c"
      by (metis hd_dropWhile list.sel(1) list.simps(3))
    with Cons show ?thesis by simp
  qed
  then have "str_trim (str_trim s) = rev (dropWhile is_space (rev (str_trim s)))"
    by (simp add: str_trim_def)
  also have "\<dots> = str_trim s"
    by (simp add: str_trim_def)
  finally show ?thesis .
qed

text \<open>Identifiers and numbers inside a text, as a template literal prints them.\<close>

fun show_digits :: "nat \<Rightarrow> string" where
  "show_digits n = (if n < 10 then [char_of (48 + n)] else show_digits (n div 10) @ [char_of (48 + n mod 10)])"

declare show_digits.simps [simp del]

definition show_int :: "int \<Rightarrow> string" where
  "show_int i = (if i < 0 then ''-'' @ show_digits (nat (- i)) else show_digits (nat i))"

definition starts_with :: "string \<Rightarrow> string \<Rightarrow> bool" where
  "starts_with s p = (take (length p) s = p)"

definition ends_with :: "string \<Rightarrow> string \<Rightarrow> bool" where
  "ends_with s p = (length p \<le> length s \<and> drop (length s - length p) s = p)"

text \<open>\<open>Math.round\<close> of a rational: halves round towards plus infinity.\<close>

definition math_round :: "rat \<Rightarrow> int" where
  "math_round x = \<lfloor>x + 1 / 2\<rfloor>"

lemma math_round_of_int [simp]: "math_round (of_int n) = n"
  unfolding math_round_def by linarith

lemma math_round_error: "\<bar>of_int (math_round x) - x\<bar> \<le> 1 / 2"
  unfolding math_round_def by linarith

lemma sdiv_pos: "0 \<le> a \<Longrightarrow> 0 < b \<Longrightarrow> a sdiv b = a div (b :: int)"
  by (cases "a = 0") (simp_all add: signed_divide_int_def)

lemma smod_pos: "0 \<le> a \<Longrightarrow> 0 < b \<Longrightarrow> a smod b = a mod (b :: int)"
  by (cases "a = 0") (simp_all add: signed_modulo_int_def)

lemma sdiv_mult_self: "(b :: int) \<noteq> 0 \<Longrightarrow> (b * a) sdiv b = a"
  by (cases "a = 0") (auto simp: signed_divide_int_def abs_mult sgn_if zero_less_mult_iff)

end
