(* ===== verification/Tax.thy ===== *)
theory Tax
  imports Prelude
begin

text \<open>
  The tax engine \<^verbatim>\<open>src/src/pos/bills/tax.ts\<close> and the place-of-supply lookup
  \<^verbatim>\<open>src/src/pos/bills/gst-place-of-supply.ts\<close>. Amounts are bigints in minor units, so \<open>int\<close>;
  bigint division truncates and is \<open>sdiv\<close>. A configured rate is a \<open>NUMERIC(5,2)\<close> read as a
  number: it is a rational here, and \<open>ratePercent\<close> of a breakdown line is the exact quotient.

  The locale \<open>rounding\<close> is what the engine needs of a rounding function: symmetry and an error
  of at most half a unit. Both rounding functions of the source interpret it.
\<close>

section \<open>Data\<close>

datatype tax_country = IN | AU

datatype gst_split_rounding = exact_total | equal_half_up | equal_half_even

record compute_tax_params =
  p_country :: tax_country
  p_taxProfile :: string
  p_compositionScheme :: bool
  p_gstRegistered :: bool
  p_subtotalMinor :: int
  p_gstRatePercent :: "rat option"
  p_gstSplitRounding :: "gst_split_rounding option"

record tax_breakdown_line =
  bl_label :: string
  bl_ratePercent :: rat
  bl_amountMinor :: int

record tax_result =
  tr_taxMinor :: int
  tr_pricesIncludeTax :: bool
  tr_breakdown :: "tax_breakdown_line list"
  tr_notes :: "string list"
  tr_gstSplitRounding :: "gst_split_rounding option"

definition COMPOSITION_NOTE :: string where
  "COMPOSITION_NOTE = ''Composition taxable person, not eligible to collect tax on supplies''"

section \<open>Rounding\<close>

function roundHalfUp :: "int \<Rightarrow> int \<Rightarrow> int" where
  "roundHalfUp numerator denominator =
     (if numerator < 0 then - roundHalfUp (- numerator) denominator
      else (2 * numerator + denominator) sdiv (2 * denominator))"
  by pat_completeness auto
termination
  by (relation "measure (\<lambda>(n, d). if n < 0 then 1 else 0)") auto

function roundHalfEven :: "int \<Rightarrow> int \<Rightarrow> int" where
  "roundHalfEven numerator denominator =
     (if numerator < 0 then - roundHalfEven (- numerator) denominator
      else let quotient = numerator sdiv denominator;
               twiceRemainder = 2 * (numerator smod denominator)
           in if twiceRemainder > denominator \<or> (twiceRemainder = denominator \<and> quotient smod 2 = 1)
              then quotient + 1 else quotient)"
  by pat_completeness auto
termination
  by (relation "measure (\<lambda>(n, d). if n < 0 then 1 else 0)") auto

declare roundHalfUp.simps [simp del] roundHalfEven.simps [simp del]

section \<open>The engine\<close>

definition isIgstProfile :: "string \<Rightarrow> bool" where
  "isIgstProfile taxProfile = str_includes (to_lower taxProfile) ''igst''"

definition rateBasisPoints :: "rat option \<Rightarrow> rat \<Rightarrow> int" where
  "rateBasisPoints gstRatePercent defaultPercent =
     math_round (nullish gstRatePercent defaultPercent * 100)"

definition computeTax :: "compute_tax_params \<Rightarrow> tax_result" where
  "computeTax params =
     (let subtotalMinor = p_subtotalMinor params;
          splitRounding = nullish (p_gstSplitRounding params) exact_total
      in if p_country params = IN then
           (if p_compositionScheme params
            then \<lparr>tr_taxMinor = 0, tr_pricesIncludeTax = False, tr_breakdown = [],
                  tr_notes = [COMPOSITION_NOTE], tr_gstSplitRounding = None\<rparr>
            else let rateBasis = rateBasisPoints (p_gstRatePercent params) 5
            in if isIgstProfile (p_taxProfile params)
            then let amount = roundHalfUp (subtotalMinor * rateBasis) 10000
                 in \<lparr>tr_taxMinor = amount, tr_pricesIncludeTax = False,
                     tr_breakdown = [\<lparr>bl_label = ''IGST'', bl_ratePercent = of_int rateBasis / 100, bl_amountMinor = amount\<rparr>],
                     tr_notes = [], tr_gstSplitRounding = None\<rparr>
            else let (cgstMinor, sgstMinor) =
                   (if splitRounding = exact_total
                    then let totalMinor = roundHalfUp (subtotalMinor * rateBasis) 10000;
                             cgst = totalMinor sdiv 2
                         in (cgst, totalMinor - cgst)
                    else let round = (if splitRounding = equal_half_even then roundHalfEven else roundHalfUp);
                             cgst = round (subtotalMinor * rateBasis) 20000
                         in (cgst, cgst))
                 in \<lparr>tr_taxMinor = cgstMinor + sgstMinor, tr_pricesIncludeTax = False,
                     tr_breakdown = [\<lparr>bl_label = ''CGST'', bl_ratePercent = of_int rateBasis / 200, bl_amountMinor = cgstMinor\<rparr>,
                                  \<lparr>bl_label = ''SGST'', bl_ratePercent = of_int rateBasis / 200, bl_amountMinor = sgstMinor\<rparr>],
                     tr_notes = [], tr_gstSplitRounding = Some splitRounding\<rparr>)
         else if \<not> p_gstRegistered params
         then \<lparr>tr_taxMinor = 0, tr_pricesIncludeTax = False, tr_breakdown = [],
               tr_notes = [''Not registered for GST - this is a receipt, not a tax invoice''],
               tr_gstSplitRounding = None\<rparr>
         else let rateBasis = rateBasisPoints (p_gstRatePercent params) 10;
                  tax = subtotalMinor - roundHalfUp (subtotalMinor * 10000) (10000 + rateBasis)
              in \<lparr>tr_taxMinor = tax, tr_pricesIncludeTax = True,
                  tr_breakdown = [\<lparr>bl_label = ''GST'', bl_ratePercent = of_int rateBasis / 100, bl_amountMinor = tax\<rparr>],
                  tr_notes = [], tr_gstSplitRounding = None\<rparr>)"

section \<open>Place of supply\<close>

definition GST_STATES :: "(string \<times> string) list" where
  "GST_STATES =
    [(''01'', ''Jammu and Kashmir''), (''02'', ''Himachal Pradesh''), (''03'', ''Punjab''), (''04'', ''Chandigarh''),
     (''05'', ''Uttarakhand''), (''06'', ''Haryana''), (''07'', ''Delhi''), (''08'', ''Rajasthan''),
     (''09'', ''Uttar Pradesh''), (''10'', ''Bihar''), (''11'', ''Sikkim''), (''12'', ''Arunachal Pradesh''),
     (''13'', ''Nagaland''), (''14'', ''Manipur''), (''15'', ''Mizoram''), (''16'', ''Tripura''),
     (''17'', ''Meghalaya''), (''18'', ''Assam''), (''19'', ''West Bengal''), (''20'', ''Jharkhand''),
     (''21'', ''Odisha''), (''22'', ''Chhattisgarh''), (''23'', ''Madhya Pradesh''), (''24'', ''Gujarat''),
     (''26'', ''Dadra and Nagar Haveli and Daman and Diu''), (''27'', ''Maharashtra''), (''29'', ''Karnataka''),
     (''30'', ''Goa''), (''31'', ''Lakshadweep''), (''32'', ''Kerala''), (''33'', ''Tamil Nadu''),
     (''34'', ''Puducherry''), (''35'', ''Andaman and Nicobar Islands''), (''36'', ''Telangana''),
     (''37'', ''Andhra Pradesh''), (''38'', ''Ladakh'')]"

definition placeOfSupplyFromGstin :: "string option \<Rightarrow> string option" where
  "placeOfSupplyFromGstin gstin =
     (let code = (case gstin of None \<Rightarrow> [] | Some g \<Rightarrow> take 2 (str_trim g))
      in case map_of GST_STATES code of None \<Rightarrow> None
         | Some state \<Rightarrow> Some (state @ '' ('' @ code @ '')''))"

definition RESTAURANT_SAC :: string where
  "RESTAURANT_SAC = ''996331''"

section \<open>What a rounding function promises\<close>

text \<open>
  \<open>round n d\<close> is within half a unit of \<open>n / d\<close>, written without division, and symmetric
  around zero. From that alone: it keeps zero, exact multiples and signs, and a rounded
  fraction of an amount never leaves the range from zero to the amount.
\<close>

locale rounding =
  fixes round :: "int \<Rightarrow> int \<Rightarrow> int"
  assumes odd_sym: "0 < d \<Longrightarrow> round (- n) d = - round n d"
    and half_unit: "0 < d \<Longrightarrow> \<bar>2 * (d * round n d) - 2 * n\<bar> \<le> d"
begin

lemma round_exact: "0 < d \<Longrightarrow> round (d * q) d = q"
proof -
  assume d: "0 < d"
  have "\<bar>2 * (d * (round (d * q) d - q))\<bar> \<le> d"
    using half_unit [OF d, of "d * q"] by (simp add: algebra_simps)
  then have "2 * (d * \<bar>round (d * q) d - q\<bar>) \<le> d"
    using d by (simp add: abs_mult)
  moreover have "d * 1 \<le> d * \<bar>round (d * q) d - q\<bar>" if "round (d * q) d \<noteq> q"
    using d that by (intro mult_left_mono) auto
  ultimately show ?thesis using d by fastforce
qed

lemma round_zero [simp]: "0 < d \<Longrightarrow> round 0 d = 0"
  using round_exact [of d 0] by simp

lemma round_nonneg: "0 < d \<Longrightarrow> 0 \<le> n \<Longrightarrow> 0 \<le> round n d"
proof (rule ccontr)
  assume d: "0 < d" and n: "0 \<le> n" and "\<not> 0 \<le> round n d"
  then have "d * round n d \<le> d * (- 1)"
    by (intro mult_left_mono) auto
  with half_unit [OF d, of n] d n show False by linarith
qed

lemma round_le: "0 < d \<Longrightarrow> n \<le> d * m \<Longrightarrow> round n d \<le> m"
proof (rule ccontr)
  assume d: "0 < d" and n: "n \<le> d * m" and "\<not> round n d \<le> m"
  then have "d * (m + 1) \<le> d * round n d"
    by (intro mult_left_mono) auto
  then have "d * m + d \<le> d * round n d" by (simp add: algebra_simps)
  with half_unit [OF d, of n] d n show False by linarith
qed

lemma round_mono_gap: "0 < d \<Longrightarrow> n + d \<le> n' \<Longrightarrow> round n d \<le> round n' d"
proof (rule ccontr)
  assume d: "0 < d" and n: "n + d \<le> n'" and "\<not> round n d \<le> round n' d"
  then have "d * (round n' d + 1) \<le> d * round n d"
    by (intro mult_left_mono) auto
  then have "d * round n' d + d \<le> d * round n d" by (simp add: algebra_simps)
  with half_unit [OF d, of n] half_unit [OF d, of n'] d n show False by linarith
qed

end

lemma roundHalfUp_pos: "0 \<le> n \<Longrightarrow> 0 < d \<Longrightarrow> roundHalfUp n d = (2 * n + d) div (2 * d)"
  by (simp add: roundHalfUp.simps [of n] sdiv_pos)

lemma roundHalfUp_zero: "0 < d \<Longrightarrow> roundHalfUp 0 d = 0"
  by (simp add: roundHalfUp_pos)

lemma roundHalfUp_neg: "0 < d \<Longrightarrow> roundHalfUp (- n) d = - roundHalfUp n d"
  by (cases n "0::int" rule: linorder_cases)
    (simp_all add: roundHalfUp_zero roundHalfUp.simps [of n] roundHalfUp.simps [of "- n"])

lemma roundHalfEven_pos:
  assumes "0 \<le> n" and "0 < d"
  shows "roundHalfEven n d =
     (if 2 * (n mod d) > d \<or> (2 * (n mod d) = d \<and> n div d mod 2 = 1) then n div d + 1 else n div d)"
proof -
  have "0 \<le> n div d" using assms by (simp add: pos_imp_zdiv_nonneg_iff)
  then have "n div d smod 2 = n div d mod 2" by (rule smod_pos) simp
  with assms show ?thesis
    by (simp add: roundHalfEven.simps [of n] sdiv_pos smod_pos Let_def)
qed

lemma roundHalfEven_neg: "0 < d \<Longrightarrow> roundHalfEven (- n) d = - roundHalfEven n d"
  by (cases n "0::int" rule: linorder_cases)
    (simp_all add: roundHalfEven.simps [of n] roundHalfEven.simps [of "- n"] roundHalfEven_pos)

text \<open>A bound proved for non-negative numerators carries over by symmetry.\<close>

lemma half_unit_by_symmetry:
  fixes round :: "int \<Rightarrow> int \<Rightarrow> int"
  assumes "\<And>n. round (- n) d = - round n d"
    and "\<And>n. 0 \<le> n \<Longrightarrow> \<bar>2 * (d * round n d) - 2 * n\<bar> \<le> d"
  shows "\<bar>2 * (d * round n d) - 2 * n\<bar> \<le> d"
proof (cases "0 \<le> n")
  case True
  then show ?thesis by (rule assms(2))
next
  case False
  then have "\<bar>2 * (d * round (- n) d) - 2 * (- n)\<bar> \<le> d"
    by (intro assms(2)) simp
  then show ?thesis by (simp add: assms(1) abs_le_iff)
qed

lemma nearest_quotient:
  fixes d q r m x :: int
  assumes "d * q + r = m" and "0 \<le> r" and "r < d"
    and "x = q \<and> 2 * r \<le> d \<or> x = q + 1 \<and> d \<le> 2 * r"
  shows "\<bar>2 * (d * x) - 2 * m\<bar> \<le> d"
  using assms by (auto simp: distrib_left)

lemma two_halves_near_whole:
  fixes t c n :: int
  assumes "\<bar>2 * (10000 * t) - 2 * n\<bar> \<le> 10000" and "\<bar>2 * (20000 * c) - 2 * n\<bar> \<le> 20000"
  shows "\<bar>2 * c - t\<bar> \<le> 1"
  using assms by linarith

interpretation half_up: rounding roundHalfUp
proof
  fix n d :: int
  assume d: "0 < d"
  show "roundHalfUp (- n) d = - roundHalfUp n d" using d by (rule roundHalfUp_neg)
  show "\<bar>2 * (d * roundHalfUp n d) - 2 * n\<bar> \<le> d"
  proof (rule half_unit_by_symmetry)
    fix m :: int
    assume m: "0 \<le> m"
    let ?r = "(2 * m + d) mod (2 * d)"
    have "2 * d * roundHalfUp m d + ?r = 2 * m + d"
      using m d by (simp only: roundHalfUp_pos mult_div_mod_eq)
    moreover have "0 \<le> ?r" "?r < 2 * d" using d by simp_all
    ultimately show "\<bar>2 * (d * roundHalfUp m d) - 2 * m\<bar> \<le> d"
      unfolding mult.assoc by linarith
  qed (simp add: roundHalfUp_neg d)
qed

interpretation half_even: rounding roundHalfEven
proof
  fix n d :: int
  assume d: "0 < d"
  show "roundHalfEven (- n) d = - roundHalfEven n d" using d by (rule roundHalfEven_neg)
  show "\<bar>2 * (d * roundHalfEven n d) - 2 * n\<bar> \<le> d"
  proof (rule half_unit_by_symmetry)
    fix m :: int
    assume m: "0 \<le> m"
    have "roundHalfEven m d = m div d \<and> 2 * (m mod d) \<le> d \<or>
        roundHalfEven m d = m div d + 1 \<and> d \<le> 2 * (m mod d)"
      using m d by (auto simp: roundHalfEven_pos)
    then show "\<bar>2 * (d * roundHalfEven m d) - 2 * m\<bar> \<le> d"
      using d by (intro nearest_quotient [of d "m div d" "m mod d" m]) simp_all
  qed (simp add: roundHalfEven_neg d)
qed

section \<open>The engine's results\<close>

text \<open>The amounts of a breakdown, in order.\<close>

abbreviation breakdown_amounts :: "tax_result \<Rightarrow> int list" where
  "breakdown_amounts r \<equiv> map bl_amountMinor (tr_breakdown r)"

lemma rateBasisPoints_cents: "rateBasisPoints (Some (of_int k / 100)) d = k"
  by (simp add: rateBasisPoints_def)

lemma rateBasisPoints_nonneg:
  assumes "\<And>r. rate = Some r \<Longrightarrow> 0 \<le> r" and "0 \<le> d"
  shows "0 \<le> rateBasisPoints rate d"
proof -
  have "0 \<le> nullish rate d * 100" using assms by (cases rate) auto
  then show ?thesis unfolding rateBasisPoints_def math_round_def by linarith
qed

text \<open>
  The lines of a tax breakdown always add up to the tax the bill charges, for every
  country, profile, rate and CGST/SGST rounding rule.
\<close>

theorem computeTax_breakdown_sums: "sum_list (breakdown_amounts (computeTax p)) = tr_taxMinor (computeTax p)"
  by (auto simp: computeTax_def Let_def split: prod.splits if_splits)

text \<open>
  C5: Under the default \<open>exact_total\<close> rule an Indian CGST/SGST split charges exactly the
  once-rounded GST that an IGST bill of the same value charges, and the two halves differ by
  at most one minor unit.
\<close>

theorem computeTax_exact_total:
  assumes "p_country p = IN" and "\<not> p_compositionScheme p" and "\<not> isIgstProfile (p_taxProfile p)"
    and "p_gstSplitRounding p = None \<or> p_gstSplitRounding p = Some exact_total"
  shows "\<exists>c s. breakdown_amounts (computeTax p) = [c, s] \<and> \<bar>s - c\<bar> \<le> 1 \<and>
    tr_taxMinor (computeTax p) = c + s \<and>
    c + s = tr_taxMinor (computeTax (p\<lparr>p_taxProfile := ''IGST''\<rparr>))"
proof -
  let ?t = "roundHalfUp (p_subtotalMinor p * rateBasisPoints (p_gstRatePercent p) 5) 10000"
  have igst: "isIgstProfile ''IGST''"
    by code_simp
  have "\<bar>?t - ?t sdiv 2 - ?t sdiv 2\<bar> \<le> 1"
    by (simp add: signed_divide_int_def sgn_if) presburger
  moreover have "nullish (p_gstSplitRounding p) exact_total = exact_total"
    using assms(4) by auto
  ultimately show ?thesis using assms igst
    by (simp add: computeTax_def Let_def)
qed

theorem computeTax_exact_total_witness:
  "\<exists>c s. breakdown_amounts (computeTax \<lparr>p_country = IN, p_taxProfile = ''gst'', p_compositionScheme = False,
      p_gstRegistered = True, p_subtotalMinor = 28900, p_gstRatePercent = None, p_gstSplitRounding = None\<rparr>) = [c, s] \<and>
      \<bar>s - c\<bar> \<le> 1"
proof -
  let ?p = "\<lparr>p_country = IN, p_taxProfile = ''gst'', p_compositionScheme = False,
      p_gstRegistered = True, p_subtotalMinor = 28900, p_gstRatePercent = None, p_gstSplitRounding = None\<rparr>"
  have "\<not> isIgstProfile ''gst''" by code_simp
  then show ?thesis using computeTax_exact_total [of ?p] by auto
qed

text \<open>
  The two equal-halves rules charge at most one minor unit more or less than the
  default rule on the same bill.
\<close>

theorem computeTax_equal_halves_close:
  assumes "p_country p = IN" and "\<not> p_compositionScheme p" and "\<not> isIgstProfile (p_taxProfile p)"
  shows "\<bar>tr_taxMinor (computeTax (p\<lparr>p_gstSplitRounding := Some rule\<rparr>)) -
          tr_taxMinor (computeTax (p\<lparr>p_gstSplitRounding := Some exact_total\<rparr>))\<bar> \<le> 1"
proof -
  let ?n = "p_subtotalMinor p * rateBasisPoints (p_gstRatePercent p) 5"
  have whole: "\<bar>2 * (10000 * roundHalfUp ?n 10000) - 2 * ?n\<bar> \<le> 10000"
    by (rule half_up.half_unit) simp
  have "\<bar>2 * roundHalfUp ?n 20000 - roundHalfUp ?n 10000\<bar> \<le> 1"
    by (rule two_halves_near_whole [OF whole half_up.half_unit]) simp
  moreover have "\<bar>2 * roundHalfEven ?n 20000 - roundHalfUp ?n 10000\<bar> \<le> 1"
    by (rule two_halves_near_whole [OF whole half_even.half_unit]) simp
  ultimately show ?thesis using assms
    by (cases rule) (simp_all add: computeTax_def Let_def)
qed

theorem computeTax_equal_halves_close_witness:
  "let p = \<lparr>p_country = IN, p_taxProfile = ''gst'', p_compositionScheme = False, p_gstRegistered = True,
      p_subtotalMinor = 28900, p_gstRatePercent = None, p_gstSplitRounding = None\<rparr>
   in \<bar>tr_taxMinor (computeTax (p\<lparr>p_gstSplitRounding := Some equal_half_even\<rparr>)) -
       tr_taxMinor (computeTax (p\<lparr>p_gstSplitRounding := Some exact_total\<rparr>))\<bar> \<le> 1"
proof -
  have "\<not> isIgstProfile ''gst''" by code_simp
  then show ?thesis
    using computeTax_equal_halves_close [of "\<lparr>p_country = IN, p_taxProfile = ''gst'', p_compositionScheme = False,
      p_gstRegistered = True, p_subtotalMinor = 28900, p_gstRatePercent = None, p_gstSplitRounding = None\<rparr>" equal_half_even]
    by (simp add: Let_def)
qed

text \<open>
  For a registered Australian tenant the GST is backed out of the tax-inclusive price:
  it lies between zero and the price, and price times rate over one plus rate is met to
  within half a minor unit (both sides multiplied by ten thousand plus the rate in basis points).
\<close>

theorem computeTax_au_inclusive:
  assumes "p_country p = AU" and "p_gstRegistered p" and "0 \<le> p_subtotalMinor p"
    and "\<And>r. p_gstRatePercent p = Some r \<Longrightarrow> 0 \<le> r"
  shows "tr_pricesIncludeTax (computeTax p) \<and>
    0 \<le> tr_taxMinor (computeTax p) \<and> tr_taxMinor (computeTax p) \<le> p_subtotalMinor p \<and>
    \<bar>2 * ((10000 + rateBasisPoints (p_gstRatePercent p) 10) * tr_taxMinor (computeTax p)) -
      2 * (p_subtotalMinor p * rateBasisPoints (p_gstRatePercent p) 10)\<bar>
      \<le> 10000 + rateBasisPoints (p_gstRatePercent p) 10"
proof -
  let ?r = "rateBasisPoints (p_gstRatePercent p) 10" and ?s = "p_subtotalMinor p"
  let ?net = "roundHalfUp (?s * 10000) (10000 + ?r)"
  have r: "0 \<le> ?r" using assms(4) by (rule rateBasisPoints_nonneg) auto
  then have d: "0 < 10000 + ?r" by simp
  have tax: "tr_taxMinor (computeTax p) = ?s - ?net" "tr_pricesIncludeTax (computeTax p)"
    using assms(1,2) by (simp_all add: computeTax_def Let_def)
  have "0 \<le> ?net" using assms(3) by (intro half_up.round_nonneg [OF d]) simp
  moreover have "?s * 10000 \<le> (10000 + ?r) * ?s"
    using r assms(3) by (simp add: algebra_simps)
  then have "?net \<le> ?s" by (rule half_up.round_le [OF d])
  moreover have "(10000 + ?r) * (?s - ?net) = 10000 * ?s + ?s * ?r - (10000 + ?r) * ?net"
    by (simp add: algebra_simps)
  ultimately show ?thesis
    using half_up.half_unit [OF d, of "?s * 10000"] tax(2) unfolding tax(1) by linarith
qed

theorem computeTax_au_inclusive_witness:
  "tr_taxMinor (computeTax \<lparr>p_country = AU, p_taxProfile = [], p_compositionScheme = False, p_gstRegistered = True,
     p_subtotalMinor = 1100, p_gstRatePercent = None, p_gstSplitRounding = None\<rparr>) \<le> 1100"
  using computeTax_au_inclusive [of "\<lparr>p_country = AU, p_taxProfile = [], p_compositionScheme = False,
     p_gstRegistered = True, p_subtotalMinor = 1100, p_gstRatePercent = None, p_gstSplitRounding = None\<rparr>"]
  by simp

text \<open>A tax on nothing is nothing, and a tax on a non-negative amount is never negative.\<close>

lemma computeTax_nonneg:
  assumes "0 \<le> p_subtotalMinor p" and "\<And>r. p_gstRatePercent p = Some r \<Longrightarrow> 0 \<le> r"
  shows "0 \<le> tr_taxMinor (computeTax p)"
proof (cases "p_country p")
  case IN
  have "0 \<le> rateBasisPoints (p_gstRatePercent p) 5"
    using assms(2) by (rule rateBasisPoints_nonneg) auto
  then have n: "0 \<le> p_subtotalMinor p * rateBasisPoints (p_gstRatePercent p) 5"
    using assms(1) by simp
  show ?thesis using IN half_up.round_nonneg [OF _ n] half_even.round_nonneg [OF _ n]
    by (simp add: computeTax_def Let_def)
next
  case AU
  show ?thesis
  proof (cases "p_gstRegistered p")
    case True
    have r: "0 \<le> rateBasisPoints (p_gstRatePercent p) 10"
      using assms(2) by (rule rateBasisPoints_nonneg) auto
    have "roundHalfUp (p_subtotalMinor p * 10000) (10000 + rateBasisPoints (p_gstRatePercent p) 10)
        \<le> p_subtotalMinor p"
      using r assms(1) by (intro half_up.round_le) (simp_all add: algebra_simps)
    then show ?thesis using AU True by (simp add: computeTax_def Let_def)
  qed (simp add: AU computeTax_def Let_def)
qed

lemma computeTax_zero:
  assumes "p_subtotalMinor p = 0" and "\<And>r. p_gstRatePercent p = Some r \<Longrightarrow> 0 \<le> r"
  shows "tr_taxMinor (computeTax p) = 0"
proof -
  have "0 \<le> rateBasisPoints (p_gstRatePercent p) 10"
    using assms(2) by (rule rateBasisPoints_nonneg) auto
  then have "roundHalfUp 0 (10000 + rateBasisPoints (p_gstRatePercent p) 10) = 0"
    by (intro half_up.round_zero) simp
  with assms(1) show ?thesis
    by (simp add: computeTax_def Let_def)
qed

end
