(* ===== verification/Schema.thy ===== *)
theory Schema
  imports Tax
begin

text \<open>
  The state: the tables of \<^verbatim>\<open>src/prisma/schema.prisma\<close> that the modelled services read and write,
  as records of the columns they use. A table is a list of rows in insertion order, which is
  also the order of \<open>createdAt\<close>; \<open>orderBy: createdAt asc\<close> therefore reads a table as it is.
  Rows that exist only as children of one row and are always read with it are embedded
  in it (order-line modifiers, credit-note lines).

  Identifiers are drawn from \<open>nextId\<close>. \<^verbatim>\<open>uuidv7()\<close> and \<^verbatim>\<open>@default(uuid(7))\<close> yield identifiers that
  do not repeat and grow with time; the supply keeps exactly that. A time stamp is a number
  of milliseconds.

  The request environment \<open>env\<close> carries what a handler reads from outside the database: the
  clock, the process environment, and the third-party functions it calls (argon2's \<open>verify\<close>,
  \<open>Intl.DateTimeFormat\<close>), which are parameters of every theorem.
\<close>

section \<open>Enumerations\<close>

datatype tenant_status = provisioning | t_active | t_inactive
datatype order_status = o_open | o_sent | o_closed
datatype order_source = src_pos | src_qr | src_kiosk
datatype bill_status = b_open | b_finalized
datatype tender_method = cash | upi_manual | upi_intent | upi_qr | card_online | card_terminal | external
datatype payment_provider = simulated | razorpay
datatype intent_status = i_created | i_pending | i_succeeded | i_failed | i_expired | i_cancelled
datatype share_status = outstanding | paid
datatype cash_movement_type = paid_out | bank_drop
datatype ticket_status = queued | bumped
datatype ticket_event_type = e_bumped | e_recalled | e_refired | e_add_on_fired
datatype session_status = s_open | s_settled | s_closed
datatype price_channel = dine_in | takeaway | delivery | qr | aggregator
datatype device_type = d_pos | d_kds | d_kiosk | d_cds | d_printer | d_terminal
datatype device_status = d_active | d_revoked
datatype device_role = dr_terminal | dr_hub
datatype veg_marker = vm_veg | vm_non_veg
datatype table_shape = ts_circle | ts_square | ts_rectangle
datatype render_mode = rm_text | rm_bitmap
datatype clock_event_type = clock_in | clock_out

datatype json = JNull | JBool bool | JNum rat | JStr string | JArr "json list" | JObj "(string \<times> json) list"

section \<open>Rows\<close>

record tenant =
  tn_id :: uuid
  tn_name :: string
  tn_country :: tax_country
  tn_status :: tenant_status
  tn_deletedAt :: "date option"
  tn_liveSince :: "date option"
  tn_brandingTokens :: json
  tn_contactPhone :: string
  tn_contactEmail :: string

record tenant_tax_registration =
  tx_tenantId :: uuid
  tx_taxProfile :: string
  tx_compositionScheme :: bool
  tx_gstRegistered :: bool
  tx_gstRatePercent :: "rat option"
  tx_gstSplitRounding :: gst_split_rounding
  tx_legalEntityName :: string
  tx_registrationNumber :: string
  tx_fssaiLicense :: "string option"

record brand =
  br_id :: uuid
  br_name :: string

record outlet =
  ou_id :: uuid
  ou_tenantId :: uuid
  ou_name :: string
  ou_address :: string
  ou_brandId :: uuid
  ou_timezone :: string
  ou_deletedAt :: "date option"

record role =
  ro_id :: uuid
  ro_tenantId :: uuid
  ro_name :: string
  ro_isSystem :: bool
  ro_isManager :: bool

record staff_user =
  su_id :: uuid
  su_tenantId :: uuid
  su_name :: string
  su_email :: "string option"
  su_roleId :: uuid
  su_pinHash :: "string option"
  su_pinIssuedAt :: "date option"
  su_pinRevokedAt :: "date option"
  su_outletIds :: "uuid list"
  su_sessionVersion :: int
  su_createdAt :: date

record dining_table =
  dt_id :: uuid
  dt_tenantId :: uuid
  dt_floorId :: uuid
  dt_outletId :: uuid
  dt_floorName :: string
  dt_label :: string
  dt_x :: int
  dt_y :: int
  dt_width :: int
  dt_height :: int
  dt_shape :: table_shape
  dt_seatCapacity :: int

record floor =
  fp_id :: uuid
  fp_tenantId :: uuid
  fp_outletId :: uuid
  fp_name :: string
  fp_sortOrder :: int
  fp_deletedAt :: "date option"

record device =
  dv_id :: uuid
  dv_tenantId :: uuid
  dv_outletId :: "uuid option"
  dv_label :: string
  dv_type :: device_type
  dv_role :: device_role
  dv_status :: device_status
  dv_hardwareKeyFingerprint :: string
  dv_secretHash :: "string option"
  dv_enrolledAt :: date
  dv_revokedAt :: "date option"
  dv_pairedPosId :: "uuid option"
  dv_lastContactAt :: "date option"
  dv_outboxDepth :: "int option"
  dv_appVersion :: "string option"
  dv_clockSkewSeconds :: "int option"
  dv_recentRejectionCount :: "int option"

record enrolment_code =
  ec_id :: uuid
  ec_tenantId :: uuid
  ec_outletId :: uuid
  ec_codeHash :: string
  ec_deviceType :: device_type
  ec_expiresAt :: date
  ec_usedAt :: "date option"

record station =
  st_id :: uuid
  st_tenantId :: uuid
  st_outletId :: uuid
  st_name :: string
  st_ageingThresholdMinutes :: int
  st_primaryPrinterId :: "uuid option"
  st_fallbackPrinterId :: "uuid option"
  st_deletedAt :: "date option"

record printer =
  pn_id :: uuid
  pn_tenantId :: uuid
  pn_outletId :: uuid
  pn_name :: string
  pn_renderMode :: render_mode
  pn_deletedAt :: "date option"

record clock_event =
  ce_id :: uuid
  ce_tenantId :: uuid
  ce_staffId :: uuid
  ce_outletId :: uuid
  ce_type :: clock_event_type
  ce_occurredAt :: date

record revoked_pos_token =
  rv_jti :: string
  rv_tenantId :: uuid
  rv_expiresAt :: date

record modifier =
  mo_id :: uuid
  mo_tenantId :: uuid
  mo_name :: string
  mo_priceMinor :: int

record modifier_group =
  mg_id :: uuid
  mg_tenantId :: uuid
  mg_name :: string
  mg_minSelections :: int
  mg_maxSelections :: int
  mg_modifiers :: "uuid list"

record item_variant =
  iv_id :: uuid
  iv_tenantId :: uuid
  iv_name :: string
  iv_sortOrder :: int

record allergen =
  al_id :: uuid
  al_tenantId :: uuid
  al_name :: string

record menu_item =
  mi_id :: uuid
  mi_tenantId :: uuid
  mi_categoryId :: uuid
  mi_name :: string
  mi_shortName :: string
  mi_photoUrl :: "string option"
  mi_nameHindi :: "string option"
  mi_vegMarker :: "veg_marker option"
  mi_available :: bool
  mi_archivedAt :: "date option"
  mi_stationId :: "uuid option"
  mi_variants :: "item_variant list"
  mi_modifierGroups :: "modifier_group list"
  mi_allergens :: "allergen list"

record item_outlet_override =
  io_tenantId :: uuid
  io_itemId :: uuid
  io_outletId :: uuid
  io_available :: bool

record item_price =
  ip_id :: uuid
  ip_tenantId :: uuid
  ip_itemId :: uuid
  ip_variantId :: "uuid option"
  ip_outletId :: "uuid option"
  ip_channel :: "price_channel option"
  ip_priceMinor :: int
  ip_currency :: string
  ip_effectiveAt :: date
  ip_createdAt :: date

record combo_slot_option =
  co_id :: uuid
  co_itemId :: uuid
  co_variantId :: "uuid option"
  co_upchargeMinor :: int

record combo_slot =
  cs_id :: uuid
  cs_name :: string
  cs_pickCount :: int
  cs_options :: "combo_slot_option list"

record combo =
  cb_id :: uuid
  cb_tenantId :: uuid
  cb_categoryId :: "uuid option"
  cb_name :: string
  cb_photoUrl :: "string option"
  cb_priceMinor :: int
  cb_currency :: string
  cb_available :: bool
  cb_archivedAt :: "date option"
  cb_slots :: "combo_slot list"

record order =
  o_id :: uuid
  o_tenantId :: uuid
  o_outletId :: uuid
  o_tableId :: "uuid option"
  o_ownerId :: "uuid option"
  o_status :: order_status
  o_tokenNumber :: "int option"
  o_source :: order_source
  o_sessionId :: "uuid option"
  o_createdAt :: date

record order_line_modifier =
  om_id :: uuid
  om_modifierId :: uuid
  om_priceMinor :: int

record order_line =
  ol_id :: uuid
  ol_tenantId :: uuid
  ol_orderId :: uuid
  ol_itemId :: "uuid option"
  ol_variantId :: "uuid option"
  ol_comboId :: "uuid option"
  ol_parentLineId :: "uuid option"
  ol_quantity :: int
  ol_unitPriceMinor :: int
  ol_seatNumber :: "int option"
  ol_addedByStaffId :: "uuid option"
  ol_guestId :: "uuid option"
  ol_guestName :: "string option"
  ol_note :: "string option"
  ol_voidedAt :: "date option"
  ol_voidReason :: "string option"
  ol_createdAt :: date
  ol_modifiers :: "order_line_modifier list"

record stored_tax_breakdown =
  sb_lines :: "tax_breakdown_line list"
  sb_notes :: "string list"
  sb_gstSplitRounding :: "gst_split_rounding option"

record bill =
  b_id :: uuid
  b_tenantId :: uuid
  b_outletId :: uuid
  b_orderId :: uuid
  b_billNumber :: "int option"
  b_subtotalMinor :: int
  b_taxMinor :: int
  b_taxBreakdown :: "stored_tax_breakdown option"
  b_pricesIncludeTax :: bool
  b_discountMinor :: "int option"
  b_discountReason :: "string option"
  b_roundOffMinor :: "int option"
  b_status :: bill_status
  b_createdByStaffId :: "uuid option"
  b_createdAt :: date
  b_finalizedByStaffId :: "uuid option"
  b_finalizedAt :: "date option"

record tender =
  td_id :: uuid
  td_tenantId :: uuid
  td_billId :: uuid
  td_method :: tender_method
  td_amountMinor :: int
  td_paymentIntentId :: "uuid option"
  td_riskAcknowledged :: bool
  td_reference :: "string option"
  td_tenderedMinor :: "int option"
  td_createdAt :: date

record bill_number_counter =
  bc_tenantId :: uuid
  bc_outletId :: uuid
  bc_lastNumber :: int

record token_number_counter =
  tc_tenantId :: uuid
  tc_outletId :: uuid
  tc_lastNumber :: int

record bill_share =
  bs_id :: uuid
  bs_tenantId :: uuid
  bs_billId :: uuid
  bs_guestId :: uuid
  bs_guestName :: string
  bs_amountMinor :: int
  bs_status :: share_status
  bs_payerPhone :: "string option"
  bs_tenderId :: "uuid option"
  bs_paidAt :: "date option"

record payment_intent =
  pi_id :: uuid
  pi_tenantId :: uuid
  pi_outletId :: uuid
  pi_billId :: uuid
  pi_shareId :: "uuid option"
  pi_rail :: tender_method
  pi_provider :: payment_provider
  pi_amountMinor :: int
  pi_currency :: string
  pi_status :: intent_status
  pi_clientKey :: string
  pi_providerRef :: "string option"
  pi_clientPayload :: json
  pi_failureReason :: "string option"
  pi_expiresAt :: date
  pi_succeededAt :: "date option"
  pi_createdByStaffId :: "uuid option"
  pi_createdAt :: date
  pi_targetDeviceId :: "uuid option"

record credit_note_line =
  cl_id :: uuid
  cl_orderLineId :: uuid
  cl_quantity :: int
  cl_unitPriceMinor :: int
  cl_amountMinor :: int

record credit_note =
  cn_id :: uuid
  cn_tenantId :: uuid
  cn_originalBillId :: uuid
  cn_reason :: string
  cn_approvedByStaffId :: uuid
  cn_createdByStaffId :: uuid
  cn_subtotalMinor :: int
  cn_taxMinor :: int
  cn_method :: "tender_method option"
  cn_createdAt :: date
  cn_lines :: "credit_note_line list"

record shift =
  sh_id :: uuid
  sh_tenantId :: uuid
  sh_outletId :: uuid
  sh_openedByStaffId :: uuid
  sh_floatMinor :: int
  sh_openedAt :: date
  sh_closedByStaffId :: "uuid option"
  sh_closedAt :: "date option"
  sh_countedMinor :: "int option"
  sh_expectedMinor :: "int option"
  sh_overShortMinor :: "int option"

record cash_movement =
  cm_id :: uuid
  cm_tenantId :: uuid
  cm_shiftId :: uuid
  cm_type :: cash_movement_type
  cm_amountMinor :: int
  cm_reason :: string
  cm_createdByStaffId :: uuid
  cm_createdAt :: date

record ticket =
  tk_id :: uuid
  tk_tenantId :: uuid
  tk_outletId :: uuid
  tk_orderId :: uuid
  tk_stationId :: "uuid option"
  tk_status :: ticket_status
  tk_recallCount :: int
  tk_firedAt :: date
  tk_bumpedAt :: "date option"
  tk_recalledAt :: "date option"

record ticket_line =
  tl_id :: uuid
  tl_tenantId :: uuid
  tl_ticketId :: uuid
  tl_orderLineId :: uuid
  tl_quantity :: int
  tl_addOnBatch :: int
  tl_voided :: bool

record ticket_event =
  te_tenantId :: uuid
  te_ticketId :: uuid
  te_type :: ticket_event_type
  te_occurredAt :: date

record table_session =
  ts_id :: uuid
  ts_tenantId :: uuid
  ts_outletId :: uuid
  ts_tableId :: "uuid option"
  ts_status :: session_status
  ts_sessionPin :: string
  ts_startedByGuestName :: string
  ts_startedByGuestPhone :: string
  ts_createdAt :: date
  ts_closedAt :: "date option"
  ts_expiresAt :: date

record guest =
  gu_id :: uuid
  gu_tenantId :: uuid
  gu_sessionId :: uuid
  gu_name :: string
  gu_phone :: "string option"
  gu_joinedAt :: date

record cart_line =
  ca_id :: uuid
  ca_tenantId :: uuid
  ca_sessionId :: uuid
  ca_guestId :: uuid
  ca_guestName :: string
  ca_itemId :: "uuid option"
  ca_variantId :: "uuid option"
  ca_comboId :: "uuid option"
  ca_parentLineId :: "uuid option"
  ca_comboOptionId :: "uuid option"
  ca_quantity :: int
  ca_note :: "string option"
  ca_createdAt :: date
  ca_modifierIds :: "uuid list"

record outlet_capability =
  oc_outletId :: uuid
  oc_key :: string
  oc_enabled :: bool

record audit_event =
  ae_tenantId :: uuid
  ae_actorId :: "uuid option"
  ae_actorEmail :: string
  ae_approverId :: "uuid option"
  ae_approverName :: "string option"
  ae_action :: string
  ae_reason :: string
  ae_occurredAt :: date

end
