(* ===== verification/Database.thy ===== *)
theory Database
  imports Schema
begin

text \<open>
  The database as one record of tables, the views the invoice endpoints return (they are stored
  in print jobs), the request environment, and the interpretations of \<open>row_table\<close> for the
  tables the services look rows up in by primary key.

  A handler runs in one transaction: it is a function from the database to a result that carries
  the new database. Row-level security is not part of the model: every row is visible, so an
  isolation theorem rests on the checks the code itself makes.
\<close>

section \<open>Stored views\<close>

record tender_view =
  tv_id :: uuid
  tv_method :: tender_method
  tv_amountMinor :: int
  tv_paymentIntentId :: "uuid option"
  tv_riskAcknowledged :: bool
  tv_reference :: "string option"
  tv_tenderedMinor :: "int option"
  tv_changeMinor :: "int option"
  tv_createdAt :: date

record invoice_component =
  ic_perCombo :: rat
  ic_itemName :: string
  ic_extras :: "string list"

record invoice_line_view =
  il_name :: string
  il_quantity :: int
  il_unitPriceMinor :: int
  il_lineTotalMinor :: int
  il_components :: "invoice_component list"

record invoice_seller_view =
  is_legalEntityName :: string
  is_phone :: string
  is_email :: string
  is_registrationLabel :: string
  is_registrationNumber :: string
  is_fssaiLicense :: "string option"
  is_outletName :: string
  is_outletAddress :: string

record invoice_credit_note_view =
  icn_id :: uuid
  icn_amountMinor :: int
  icn_method :: "tender_method option"
  icn_reason :: string
  icn_createdAt :: date

record invoice_view =
  in_status :: bill_status
  in_invoiceNumber :: "int option"
  in_testMode :: bool
  in_title :: string
  in_issuedAt :: "date option"
  in_currency :: string
  in_seller :: invoice_seller_view
  in_footerMessage :: "string option"
  in_lines :: "invoice_line_view list"
  in_sacCode :: "string option"
  in_placeOfSupply :: "string option"
  in_tokenNumber :: "int option"
  in_subtotalMinor :: int
  in_discountMinor :: "int option"
  in_discountReason :: "string option"
  in_taxBreakdown :: "tax_breakdown_line list"
  in_taxMinor :: int
  in_totalMinor :: int
  in_roundOffMinor :: "int option"
  in_pricesIncludeTax :: bool
  in_tenders :: "tender_view list"
  in_creditNotes :: "invoice_credit_note_view list"
  in_notes :: "string list"

record print_job =
  pj_id :: uuid
  pj_tenantId :: uuid
  pj_outletId :: uuid
  pj_billId :: uuid
  pj_payload :: invoice_view
  pj_createdAt :: date
  pj_printedAt :: "date option"
  pj_targetDeviceId :: "uuid option"

section \<open>The database\<close>

record db =
  nextId :: uuid
  tenants :: "tenant list"
  taxRegistrations :: "tenant_tax_registration list"
  brands :: "brand list"
  outlets :: "outlet list"
  roles :: "role list"
  staffUsers :: "staff_user list"
  diningTables :: "dining_table list"
  devices :: "device list"
  stations :: "station list"
  modifiers :: "modifier list"
  menuItems :: "menu_item list"
  itemOverrides :: "item_outlet_override list"
  itemPrices :: "item_price list"
  combos :: "combo list"
  orders :: "order list"
  orderLines :: "order_line list"
  bills :: "bill list"
  tenders :: "tender list"
  billCounters :: "bill_number_counter list"
  tokenCounters :: "token_number_counter list"
  billShares :: "bill_share list"
  intents :: "payment_intent list"
  creditNotes :: "credit_note list"
  shifts :: "shift list"
  cashMovements :: "cash_movement list"
  tickets :: "ticket list"
  ticketLines :: "ticket_line list"
  ticketEvents :: "ticket_event list"
  tableSessions :: "table_session list"
  guests :: "guest list"
  cartLines :: "cart_line list"
  capabilities :: "outlet_capability list"
  printJobs :: "print_job list"
  auditEvents :: "audit_event list"
  floors :: "floor list"
  printers :: "printer list"
  clockEvents :: "clock_event list"
  revokedTokens :: "revoked_pos_token list"
  enrolmentCodes :: "enrolment_code list"
  modifierGroups :: "modifier_group list"
  allergens :: "allergen list"

definition empty_db :: db where
  "empty_db = \<lparr>nextId = 0, tenants = [], taxRegistrations = [], brands = [], outlets = [], roles = [], staffUsers = [],
     diningTables = [], devices = [], stations = [], modifiers = [], menuItems = [], itemOverrides = [],
     itemPrices = [], combos = [], orders = [], orderLines = [], bills = [], tenders = [], billCounters = [],
     tokenCounters = [], billShares = [], intents = [], creditNotes = [], shifts = [], cashMovements = [],
     tickets = [], ticketLines = [], ticketEvents = [], tableSessions = [], guests = [], cartLines = [], capabilities = [],
     printJobs = [], auditEvents = [], floors = [], printers = [], clockEvents = [], revokedTokens = [],
     enrolmentCodes = [], modifierGroups = [], allergens = []\<rparr>"

definition take_id :: "db \<Rightarrow> uuid \<times> db" where
  "take_id d = (nextId d, d\<lparr>nextId := Suc (nextId d)\<rparr>)"

record env =
  now :: date
  payments_simulator :: "string option"
  argon2_verify :: "string \<Rightarrow> string \<Rightarrow> bool"
  date_key :: "date \<Rightarrow> string \<Rightarrow> string"

text \<open>The signed-in staff member, as the POS guard hands it to every handler.\<close>

record pos_principal =
  pp_id :: uuid
  pp_name :: string
  pp_role :: string
  pp_tenantId :: uuid
  pp_outletId :: uuid

section \<open>The tables keep their promise\<close>

interpretation bills_t: row_table bills bills_update b_id
  by unfold_locales simp

interpretation orders_t: row_table orders orders_update o_id
  by unfold_locales simp

interpretation order_lines_t: row_table orderLines orderLines_update ol_id
  by unfold_locales simp

interpretation intents_t: row_table intents intents_update pi_id
  by unfold_locales simp

interpretation tickets_t: row_table tickets tickets_update tk_id
  by unfold_locales simp

interpretation shifts_t: row_table shifts shifts_update sh_id
  by unfold_locales simp

section \<open>Identifiers in use lie below the supply\<close>

text \<open>
  \<open>ids_ok\<close>: the primary keys of the tables that handlers insert into are distinct and were drawn
  from the supply.
\<close>

definition keys_ok :: "uuid \<Rightarrow> uuid list \<Rightarrow> bool" where
  "keys_ok n ks \<longleftrightarrow> distinct ks \<and> (\<forall>k \<in> set ks. k < n)"

lemma keys_ok_append: "keys_ok n ks \<Longrightarrow> keys_ok (Suc n) (ks @ [n])"
  by (auto simp: keys_ok_def)

lemma keys_ok_mono: "keys_ok n ks \<Longrightarrow> n \<le> m \<Longrightarrow> keys_ok m ks"
  by (auto simp: keys_ok_def)

lemma keys_ok_filter: "keys_ok n (map f rs) \<Longrightarrow> keys_ok n (map f (filter p rs))"
  by (auto simp: keys_ok_def distinct_map_filter)

lemma keys_ok_find: "keys_ok n (map key rs) \<Longrightarrow> r \<in> set rs \<Longrightarrow> find_row key (key r) rs = Some r"
  by (simp add: keys_ok_def find_row_distinct)

lemma keys_ok_fresh: "keys_ok n (map key rs) \<Longrightarrow> r \<in> set rs \<Longrightarrow> key r \<noteq> n"
  by (auto simp: keys_ok_def)

definition ids_ok :: "db \<Rightarrow> bool" where
  "ids_ok d \<longleftrightarrow> keys_ok (nextId d) (map o_id (orders d)) \<and> keys_ok (nextId d) (map ol_id (orderLines d)) \<and>
     keys_ok (nextId d) (map b_id (bills d)) \<and> keys_ok (nextId d) (map td_id (tenders d)) \<and>
     keys_ok (nextId d) (map pi_id (intents d)) \<and> keys_ok (nextId d) (map tk_id (tickets d)) \<and>
     keys_ok (nextId d) (map sh_id (shifts d))"

section \<open>Tenant-scoped loaders\<close>

text \<open>
  Every service loads the row a request names through a loader that checks the tenant. What such
  a loader promises: it returns exactly the row of that tenant under that key, and whatever else it
  finds it reports as \<open>not_found\<close>. Inside the locale: the answer depends on the tenant's
  own rows only, so nothing about another tenant's rows can be learnt from it.
\<close>

locale scoped_loader =
  fixes load :: "db \<Rightarrow> uuid \<Rightarrow> uuid \<Rightarrow> 'r result"
    and rows :: "db \<Rightarrow> 'r list"
    and key :: "'r \<Rightarrow> uuid"
    and tenant :: "'r \<Rightarrow> uuid"
  assumes load_sound: "load d t k = Inr r \<Longrightarrow> find_row key k (rows d) = Some r \<and> tenant r = t"
    and load_complete: "find_row key k (rows d) = Some r \<Longrightarrow> tenant r = t \<Longrightarrow> load d t k = Inr r"
    and load_refuses: "load d t k = Inl x \<Longrightarrow> x = NotFound ''not_found''"
begin

lemma load_member:
  assumes "load d t k = Inr r"
  shows "r \<in> set (rows d) \<and> key r = k \<and> tenant r = t"
  using load_sound [OF assms] by (auto dest: find_row_Some)

lemma load_absent:
  assumes "\<And>r. r \<in> set (rows d) \<Longrightarrow> tenant r = t \<Longrightarrow> key r \<noteq> k"
  shows "load d t k = Inl (NotFound ''not_found'')"
proof (cases "load d t k")
  case (Inl x)
  then show ?thesis using load_refuses by simp
next
  case (Inr r)
  from load_member [OF this] assms [of r] show ?thesis by simp
qed

lemma load_own:
  assumes "distinct (map key (rows d))" and "r \<in> set (rows d)" and "tenant r = t"
  shows "load d t (key r) = Inr r"
  using assms by (intro load_complete find_row_distinct)

lemma load_noninterference:
  assumes "distinct (map key (rows d))" and "distinct (map key (rows d'))"
    and "filter (\<lambda>r. tenant r = t) (rows d) = filter (\<lambda>r. tenant r = t) (rows d')"
  shows "load d t k = load d' t k"
proof (cases "\<exists>r \<in> set (rows d). tenant r = t \<and> key r = k")
  case True
  then obtain r where r: "r \<in> set (rows d)" "tenant r = t" "key r = k" by blast
  then have "r \<in> set (filter (\<lambda>r. tenant r = t) (rows d))" by simp
  then have "r \<in> set (rows d')" unfolding assms(3) by simp
  with r assms(1,2) show ?thesis using load_own by metis
next
  case False
  have sub: "set (filter (\<lambda>r. tenant r = t) (rows d')) = set (filter (\<lambda>r. tenant r = t) (rows d))"
    by (simp add: assms(3))
  have "load d t k = Inl (NotFound ''not_found'')"
    using False by (intro load_absent) blast
  moreover have "load d' t k = Inl (NotFound ''not_found'')"
    using False sub by (intro load_absent) auto
  ultimately show ?thesis by simp
qed

end

end
