(* ===== verification/Samples.thy ===== *)
theory Samples
  imports Database
begin

text \<open>
  A small concrete restaurant, used by the theorems that evaluate an operation at one input: an
  Indian tenant in Live mode registered for GST at 5 per cent, one outlet, an owner and a cashier,
  two tables, one station, three menu items and a combo. The third-party parameters
  are instantiated by concrete functions: \<open>verify\<close> compares the stored text with the PIN, and the
  date key is the day number.
\<close>

definition s_env :: env where
  "s_env = \<lparr>now = 1000000000, payments_simulator = None, argon2_verify = (\<lambda>h p. h = p),
     date_key = (\<lambda>t z. show_int (t div 86400000))\<rparr>"

definition s_cashier :: pos_principal where
  "s_cashier = \<lparr>pp_id = 21, pp_name = ''Asha'', pp_role = ''Cashier'', pp_tenantId = 1, pp_outletId = 2\<rparr>"

definition s_tenant :: tenant where
  "s_tenant = \<lparr>tn_id = 1, tn_name = ''Bay Leaf'', tn_country = IN, tn_status = t_active, tn_deletedAt = None,
     tn_liveSince = Some 0, tn_brandingTokens = JObj [], tn_contactPhone = ''91'', tn_contactEmail = ''a@b.c''\<rparr>"

definition s_registration :: tenant_tax_registration where
  "s_registration = \<lparr>tx_tenantId = 1, tx_taxProfile = ''gst_cgst_sgst'', tx_compositionScheme = False, tx_gstRegistered = True,
     tx_gstRatePercent = Some 5, tx_gstSplitRounding = exact_total, tx_legalEntityName = ''Bay Leaf Pvt Ltd'',
     tx_registrationNumber = ''27ABCDE1234F1Z5'', tx_fssaiLicense = None\<rparr>"

definition s_outlet :: outlet where
  "s_outlet = \<lparr>ou_id = 2, ou_tenantId = 1, ou_name = ''Fort'', ou_address = ''1 Main Rd'', ou_brandId = 4,
     ou_timezone = ''Asia/Kolkata'', ou_deletedAt = None\<rparr>"

definition s_roles :: "role list" where
  "s_roles = [\<lparr>ro_id = 10, ro_tenantId = 1, ro_name = ''Owner'', ro_isSystem = True, ro_isManager = True\<rparr>,
              \<lparr>ro_id = 11, ro_tenantId = 1, ro_name = ''Cashier'', ro_isSystem = True, ro_isManager = False\<rparr>]"

definition s_staff :: "staff_user list" where
  "s_staff =
    [\<lparr>su_id = 20, su_tenantId = 1, su_name = ''Omar'', su_email = None, su_roleId = 10, su_pinHash = Some ''4321'',
      su_pinIssuedAt = None, su_pinRevokedAt = None, su_outletIds = [], su_sessionVersion = 0, su_createdAt = 0\<rparr>,
     \<lparr>su_id = 21, su_tenantId = 1, su_name = ''Asha'', su_email = None, su_roleId = 11, su_pinHash = Some ''1111'',
      su_pinIssuedAt = None, su_pinRevokedAt = None, su_outletIds = [2], su_sessionVersion = 0, su_createdAt = 0\<rparr>]"

definition s_tables :: "dining_table list" where
  "s_tables =
    [\<lparr>dt_id = 30, dt_tenantId = 1, dt_floorId = 3, dt_outletId = 2, dt_floorName = ''Ground'', dt_label = ''T1'',
       dt_x = 0, dt_y = 0, dt_width = 2, dt_height = 2, dt_shape = ts_square, dt_seatCapacity = 4\<rparr>,
     \<lparr>dt_id = 31, dt_tenantId = 1, dt_floorId = 3, dt_outletId = 2, dt_floorName = ''Ground'', dt_label = ''T2'',
       dt_x = 2, dt_y = 0, dt_width = 1, dt_height = 1, dt_shape = ts_circle, dt_seatCapacity = 2\<rparr>]"

definition s_station :: station where
  "s_station = \<lparr>st_id = 40, st_tenantId = 1, st_outletId = 2, st_name = ''Grill'', st_ageingThresholdMinutes = 10,
     st_primaryPrinterId = None, st_fallbackPrinterId = None, st_deletedAt = None\<rparr>"

definition s_item :: "uuid \<Rightarrow> string \<Rightarrow> uuid option \<Rightarrow> menu_item" where
  "s_item i n s = \<lparr>mi_id = i, mi_tenantId = 1, mi_categoryId = 5, mi_name = n, mi_shortName = n, mi_photoUrl = None,
     mi_nameHindi = None, mi_vegMarker = None, mi_available = True, mi_archivedAt = None,
     mi_stationId = s, mi_variants = [], mi_modifierGroups = [], mi_allergens = []\<rparr>"

definition s_price :: "uuid \<Rightarrow> uuid \<Rightarrow> int \<Rightarrow> item_price" where
  "s_price i item p = \<lparr>ip_id = i, ip_tenantId = 1, ip_itemId = item, ip_variantId = None, ip_outletId = None,
     ip_channel = None, ip_priceMinor = p, ip_currency = ''INR'', ip_effectiveAt = 0, ip_createdAt = 0\<rparr>"

definition s_combo :: combo where
  "s_combo = \<lparr>cb_id = 60, cb_tenantId = 1, cb_categoryId = None, cb_name = ''Thali'', cb_photoUrl = None,
     cb_priceMinor = 25000, cb_currency = ''INR'', cb_available = True, cb_archivedAt = None,
     cb_slots = [\<lparr>cs_id = 61, cs_name = ''Main'', cs_pickCount = 1, cs_options =
                   [\<lparr>co_id = 62, co_itemId = 50, co_variantId = None, co_upchargeMinor = 0\<rparr>,
                    \<lparr>co_id = 63, co_itemId = 51, co_variantId = None, co_upchargeMinor = 2000\<rparr>]\<rparr>,
                 \<lparr>cs_id = 64, cs_name = ''Drink'', cs_pickCount = 1, cs_options =
                   [\<lparr>co_id = 65, co_itemId = 52, co_variantId = None, co_upchargeMinor = 0\<rparr>]\<rparr>]\<rparr>"

definition s_db :: db where
  "s_db = empty_db\<lparr>nextId := 100, tenants := [s_tenant], taxRegistrations := [s_registration], brands := [\<lparr>br_id = 4, br_name = ''Bay Leaf''\<rparr>], outlets := [s_outlet],
     roles := s_roles, staffUsers := s_staff, diningTables := s_tables, stations := [s_station],
     menuItems := [s_item 50 ''Dal'' (Some 40), s_item 51 ''Paneer'' (Some 40), s_item 52 ''Lassi'' None],
     itemPrices := [s_price 70 50 20000, s_price 71 51 30000, s_price 72 52 9990],
     combos := [s_combo]\<rparr>"

definition s_order :: order where
  "s_order = \<lparr>o_id = 80, o_tenantId = 1, o_outletId = 2, o_tableId = Some 30, o_ownerId = Some 21, o_status = o_sent,
     o_tokenNumber = None, o_source = src_pos, o_sessionId = None, o_createdAt = 999999000\<rparr>"

definition s_line :: "uuid \<Rightarrow> uuid \<Rightarrow> int \<Rightarrow> int \<Rightarrow> order_line" where
  "s_line i item q p = \<lparr>ol_id = i, ol_tenantId = 1, ol_orderId = 80, ol_itemId = Some item, ol_variantId = None,
     ol_comboId = None, ol_parentLineId = None, ol_quantity = q, ol_unitPriceMinor = p, ol_seatNumber = None,
     ol_addedByStaffId = Some 21, ol_guestId = None, ol_guestName = None, ol_note = None, ol_voidedAt = None,
     ol_voidReason = None, ol_createdAt = 999999500, ol_modifiers = []\<rparr>"

text \<open>The restaurant with one sent order of two lines on table 30.\<close>

definition s_db_order :: db where
  "s_db_order = s_db\<lparr>orders := [s_order], orderLines := [s_line 81 50 2 20000, s_line 82 51 1 30000]\<rparr>"

lemmas sample_defs = s_env_def s_cashier_def s_tenant_def s_registration_def s_outlet_def s_roles_def s_staff_def
  s_tables_def s_station_def s_item_def s_price_def s_combo_def s_db_def s_order_def s_line_def s_db_order_def
  empty_db_def

end
