(* ===== verification/Platform.thy ===== *)
theory Platform
  imports Samples
begin

text \<open>
  The platform services the realms share (\<^verbatim>\<open>src/src/platform\<close> and \<^verbatim>\<open>src/src/pos/device-routing.ts\<close>):
  the permission catalogue, tenant modes and the payment simulator switch, the live window with
  \<open>detachStaleTableOrder\<close>, token numbers, the attempt limiter, the manager-PIN gate and
  peripheral routing.

  The limiter's counters live in their own table and are written outside the caller's
  transaction, so they survive a rollback: they are a separate state \<open>attempts\<close>.
\<close>

section \<open>Permissions\<close>

datatype permission =
    take_orders | fire_kitchen | settle_bills | discounts | void_after_fire | refunds | z_report
  | manage_menu | manage_staff

definition PERMISSIONS :: "permission list" where
  "PERMISSIONS = [take_orders, fire_kitchen, settle_bills, discounts, void_after_fire, refunds, z_report,
     manage_menu, manage_staff]"

definition ROLE_PERMISSIONS :: "(string \<times> permission list) list" where
  "ROLE_PERMISSIONS =
    [(''Owner'', PERMISSIONS),
     (''Manager'', PERMISSIONS),
     (''Cashier'', [take_orders, fire_kitchen, settle_bills, discounts]),
     (''Waiter'', [take_orders, fire_kitchen]),
     (''Kitchen'', [fire_kitchen]),
     (''Accountant'', [settle_bills, z_report])]"

definition permissionsFor :: "string \<Rightarrow> permission list" where
  "permissionsFor r = (case map_of ROLE_PERMISSIONS r of Some ps \<Rightarrow> ps | None \<Rightarrow> [])"

definition roleHasPermission :: "string \<Rightarrow> permission \<Rightarrow> bool" where
  "roleHasPermission r p = (p \<in> set (permissionsFor r))"

lemma refunds_only_owner_manager:
  "roleHasPermission r refunds \<longleftrightarrow> r = ''Owner'' \<or> r = ''Manager''"
  by (auto simp: roleHasPermission_def permissionsFor_def ROLE_PERMISSIONS_def PERMISSIONS_def
      map_of_Cons_code split: if_splits)

section \<open>Tenant mode and the payment simulator\<close>

definition isTestMode :: "date option \<Rightarrow> bool" where
  "isTestMode liveSince = (liveSince = None)"

definition isTestSale :: "date option \<Rightarrow> date option \<Rightarrow> bool" where
  "isTestSale liveSince finalizedAt =
     (case liveSince of None \<Rightarrow> True
      | Some ls \<Rightarrow> (case finalizedAt of None \<Rightarrow> False | Some f \<Rightarrow> f < ls))"

definition tenantInTestMode :: "db \<Rightarrow> uuid \<Rightarrow> bool" where
  "tenantInTestMode d tenantId =
     (case find_row tn_id tenantId (tenants d) of None \<Rightarrow> False | Some t \<Rightarrow> isTestMode (tn_liveSince t))"

definition paymentsSimulatorEnabled :: "env \<Rightarrow> bool" where
  "paymentsSimulatorEnabled e = (payments_simulator e = Some ''on'')"

definition paymentsSimulatorFor :: "env \<Rightarrow> db \<Rightarrow> uuid \<Rightarrow> bool" where
  "paymentsSimulatorFor e d tenantId = (paymentsSimulatorEnabled e \<or> tenantInTestMode d tenantId)"

definition isTenantBlocked :: "db \<Rightarrow> uuid \<Rightarrow> bool" where
  "isTenantBlocked d tenantId =
     (case find_row tn_id tenantId (tenants d) of
        None \<Rightarrow> True
      | Some t \<Rightarrow> tn_status t = t_inactive \<or> tn_deletedAt t \<noteq> None)"

section \<open>Outlet time zones\<close>

text \<open>Whether a zone is real is \<open>Intl\<close>'s answer, a parameter.\<close>

definition timezoneFitsCountry :: "(string \<Rightarrow> bool) \<Rightarrow> string \<Rightarrow> tax_country \<Rightarrow> bool" where
  "timezoneFitsCountry isRealTimezone timezone country =
     (if \<not> isRealTimezone timezone then False
      else case country of
        IN \<Rightarrow> timezone = ''Asia/Kolkata'' \<or> timezone = ''Asia/Calcutta''
      | AU \<Rightarrow> starts_with timezone ''Australia/'')"

definition assertTimezonesFitCountry :: "(string \<Rightarrow> bool) \<Rightarrow> string list \<Rightarrow> tax_country \<Rightarrow> unit result" where
  "assertTimezonesFitCountry isRealTimezone timezones country =
     (case find (\<lambda>t. \<not> timezoneFitsCountry isRealTimezone t country) timezones of
        None \<Rightarrow> Inr () | Some _ \<Rightarrow> Inl (BadRequest ''validation_failed''))"

section \<open>The live window\<close>

definition LIVE_WINDOW_MS :: int where
  "LIVE_WINDOW_MS = 12 * 60 * 60 * 1000"

definition liveSince :: "env \<Rightarrow> date" where
  "liveSince e = now e - LIVE_WINDOW_MS"

definition detachStaleTableOrder ::
  "env \<Rightarrow> uuid \<Rightarrow> uuid \<Rightarrow> uuid option \<Rightarrow> string \<Rightarrow> db \<Rightarrow> db" where
  "detachStaleTableOrder e tenantId tableId actorId actorEmail d =
    (case find (\<lambda>x. o_tenantId x = tenantId \<and> o_tableId x = Some tableId \<and> o_status x \<noteq> o_closed \<and>
                   o_createdAt x < liveSince e) (orders d) of
       None \<Rightarrow> d
     | Some stale \<Rightarrow>
         d\<lparr>orders := update_rows (\<lambda>x. o_id x = o_id stale) (\<lambda>x. x\<lparr>o_tableId := None\<rparr>) (orders d),
           auditEvents := auditEvents d @
             [\<lparr>ae_tenantId = tenantId, ae_actorId = actorId, ae_actorEmail = actorEmail,
               ae_approverId = None, ae_approverName = None, ae_action = ''order.detached_stale_table'',
               ae_reason = ''Order '' @ show_digits (o_id stale) @ '' open over 12 hours moved off table ''
                 @ show_digits tableId,
               ae_occurredAt = now e\<rparr>]\<rparr>)"

section \<open>Token numbers\<close>

definition max_token :: "uuid \<Rightarrow> db \<Rightarrow> int" where
  "max_token outletId d =
     foldl max 0 (List.map_filter o_tokenNumber (filter (\<lambda>x. o_outletId x = outletId) (orders d)))"

definition reserveTokenNumber :: "uuid \<Rightarrow> uuid \<Rightarrow> db \<Rightarrow> int \<times> db" where
  "reserveTokenNumber tenantId outletId d =
    (case find_row tc_outletId outletId (tokenCounters d) of
       None \<Rightarrow>
         (let n = 1 + max_token outletId d
          in (n, d\<lparr>tokenCounters := tokenCounters d @
                  [\<lparr>tc_tenantId = tenantId, tc_outletId = outletId, tc_lastNumber = n\<rparr>]\<rparr>))
     | Some c \<Rightarrow>
         (let n = max (tc_lastNumber c) (max_token outletId d) + 1
          in (n, d\<lparr>tokenCounters :=
                  update_rows (\<lambda>c. tc_outletId c = outletId) (\<lambda>c. c\<lparr>tc_lastNumber := n\<rparr>) (tokenCounters d)\<rparr>)))"

section \<open>Peripheral routing\<close>

definition linkedPeripheral :: "db \<Rightarrow> uuid \<Rightarrow> uuid option \<Rightarrow> device_type \<Rightarrow> uuid option" where
  "linkedPeripheral d tenantId sourcePosId type =
     (case sourcePosId of None \<Rightarrow> None
      | Some pos \<Rightarrow>
          map_option dv_id (find (\<lambda>v. dv_tenantId v = tenantId \<and> dv_type v = type \<and> dv_status v = d_active \<and>
            dv_pairedPosId v = Some pos \<and>
            (case find_row dv_id pos (devices d) of None \<Rightarrow> False
             | Some p \<Rightarrow> dv_status p = d_active \<and> dv_type p = d_pos)) (devices d)))"

definition queueFor :: "db \<Rightarrow> uuid \<Rightarrow> uuid option \<Rightarrow> device_type \<Rightarrow> uuid option" where
  "queueFor d tenantId deviceId type =
     (case deviceId of None \<Rightarrow> None
      | Some i \<Rightarrow>
          map_option dv_id (find (\<lambda>v. dv_id v = i \<and> dv_tenantId v = tenantId \<and> dv_type v = type \<and>
            dv_status v = d_active \<and> dv_pairedPosId v \<noteq> None) (devices d)))"

section \<open>The attempt limiter\<close>

text \<open>The limiter's keys: \<^verbatim>\<open>manager-pin:<tenant>:<requester>\<close> and so on, one constructor per template.\<close>

datatype attempt_key =
    ManagerPinKey uuid uuid
  | GuestJoinIpKey uuid uuid string
  | GuestJoinTableKey uuid uuid
  | PosPinDeviceKey uuid uuid
  | PosPinIpKey uuid string
  | PosPinUntrustedKey uuid
  | DeviceEnrollIpKey string

record attempt_rule =
  ar_key :: attempt_key
  ar_max :: int
  ar_windowSeconds :: int

record attempt_row =
  at_attempts :: int
  at_windowStartedAt :: date

type_synonym attempts = "attempt_key \<rightharpoonup> attempt_row"

definition count_attempt :: "date \<Rightarrow> attempt_rule \<Rightarrow> attempts \<Rightarrow> attempt_row" where
  "count_attempt t rule a =
     (case a (ar_key rule) of
        None \<Rightarrow> \<lparr>at_attempts = 1, at_windowStartedAt = t\<rparr>
      | Some row \<Rightarrow>
          if at_windowStartedAt row \<le> t - ar_windowSeconds rule * 1000
          then \<lparr>at_attempts = 1, at_windowStartedAt = t\<rparr>
          else \<lparr>at_attempts = at_attempts row + 1, at_windowStartedAt = at_windowStartedAt row\<rparr>)"

definition retry_after :: "date \<Rightarrow> attempt_rule \<Rightarrow> attempt_row \<Rightarrow> int" where
  "retry_after t rule row =
     max 1 (- ((- (at_windowStartedAt row + ar_windowSeconds rule * 1000 - t)) div 1000))"

fun consume :: "date \<Rightarrow> attempt_rule list \<Rightarrow> attempts \<Rightarrow> unit result \<times> attempts" where
  "consume t [] a = (Inr (), a)"
| "consume t (rule # rules) a =
    (let row = count_attempt t rule a; a' = a(ar_key rule \<mapsto> row)
     in if at_attempts row > ar_max rule then (Inl (LockedOut (retry_after t rule row)), a')
        else consume t rules a')"

definition PURGE_AFTER_MS :: int where
  "PURGE_AFTER_MS = 24 * 60 * 60 * 1000"

definition refund_attempts :: "date \<Rightarrow> attempt_rule list \<Rightarrow> attempts \<Rightarrow> attempts" where
  "refund_attempts t rules a = (\<lambda>k.
     (case a k of None \<Rightarrow> None
      | Some row \<Rightarrow>
          let row' = (if k \<in> ar_key ` set rules then row\<lparr>at_attempts := max (at_attempts row - 1) 0\<rparr> else row)
          in if at_windowStartedAt row' < t - PURGE_AFTER_MS then None else Some row'))"

section \<open>Manager authorisation\<close>

datatype manager_gated_action =
  a_void_after_fire | a_comp | a_discount_above_threshold | a_price_override | a_refund | a_no_sale_drawer_open

definition action_name :: "manager_gated_action \<Rightarrow> string" where
  "action_name a = (case a of
     a_void_after_fire \<Rightarrow> ''void_after_fire''
   | a_comp \<Rightarrow> ''comp''
   | a_discount_above_threshold \<Rightarrow> ''discount_above_threshold''
   | a_price_override \<Rightarrow> ''price_override''
   | a_refund \<Rightarrow> ''refund''
   | a_no_sale_drawer_open \<Rightarrow> ''no_sale_drawer_open'')"

record manager_approval =
  ma_approverId :: uuid
  ma_approverName :: string
  ma_roleId :: uuid
  ma_roleName :: string
  ma_tenantId :: uuid
  ma_actionType :: manager_gated_action
  ma_reason :: string

definition manager_pin_rules :: "uuid \<Rightarrow> uuid \<Rightarrow> attempt_rule list" where
  "manager_pin_rules tenantId requesterId =
     [\<lparr>ar_key = ManagerPinKey tenantId requesterId, ar_max = 5, ar_windowSeconds = 15 * 60\<rparr>]"

definition approval_candidates ::
  "db \<Rightarrow> manager_gated_action \<Rightarrow> uuid \<Rightarrow> uuid \<Rightarrow> (staff_user \<times> role) list" where
  "approval_candidates d actionType tenantId outletId =
    (let candidates = List.map_filter (\<lambda>u. map_option (Pair u) (find_row ro_id (su_roleId u) (roles d)))
           (filter (\<lambda>u. su_tenantId u = tenantId \<and> su_pinHash u \<noteq> None \<and> su_pinRevokedAt u = None) (staffUsers d))
     in if actionType = a_refund
        then filter (\<lambda>(u, r). roleHasPermission (ro_name r) refunds \<and>
               (su_outletIds u = [] \<or> outletId \<in> set (su_outletIds u))) candidates
        else filter (\<lambda>(u, r). ro_isManager r) candidates)"

definition authorize ::
  "env \<Rightarrow> db \<Rightarrow> manager_gated_action \<Rightarrow> uuid \<Rightarrow> uuid \<Rightarrow> string \<Rightarrow> string \<Rightarrow> uuid \<Rightarrow> attempts
    \<Rightarrow> manager_approval result \<times> attempts" where
  "authorize e d actionType tenantId outletId enteredPin reason requesterId a =
    (if str_trim reason = [] then (Inl (BadRequest ''validation_failed''), a)
     else let rules = manager_pin_rules tenantId requesterId in
       case consume (now e) rules a of
         (Inl err, a1) \<Rightarrow> (Inl err, a1)
       | (Inr _, a1) \<Rightarrow>
          (case find (\<lambda>(u, r). argon2_verify e (nullish (su_pinHash u) []) enteredPin)
                  (approval_candidates d actionType tenantId outletId) of
             None \<Rightarrow> (Inl (Unauthorized ''invalid_credentials''), a1)
           | Some (u, r) \<Rightarrow>
               (Inr \<lparr>ma_approverId = su_id u, ma_approverName = su_name u, ma_roleId = ro_id r, ma_roleName = ro_name r,
                     ma_tenantId = tenantId, ma_actionType = actionType, ma_reason = reason\<rparr>,
                refund_attempts (now e) rules a1)))"

definition recordApproval :: "manager_approval \<Rightarrow> uuid option \<Rightarrow> string \<Rightarrow> date \<Rightarrow> db \<Rightarrow> db" where
  "recordApproval approval actorId actorEmail occurredAt d =
     d\<lparr>auditEvents := auditEvents d @
       [\<lparr>ae_tenantId = ma_tenantId approval, ae_actorId = actorId, ae_actorEmail = actorEmail,
         ae_approverId = Some (ma_approverId approval), ae_approverName = Some (ma_approverName approval),
         ae_action = action_name (ma_actionType approval), ae_reason = ma_reason approval,
         ae_occurredAt = occurredAt\<rparr>]\<rparr>"

section \<open>Number series\<close>

text \<open>
  What the sequential numbers of an outlet promise: a number just taken lies above the last one
  and is the new last one. Bill numbers (\<^verbatim>\<open>bill-core.ts\<close>) and token numbers are such series; bill
  numbers are gapless as well.
\<close>

locale number_series =
  fixes take_number :: "'d \<Rightarrow> int \<times> 'd"
    and last_number :: "'d \<Rightarrow> int"
  assumes take_above: "last_number d < fst (take_number d)"
    and take_records: "last_number (snd (take_number d)) = fst (take_number d)"
begin

fun take_many :: "nat \<Rightarrow> 'd \<Rightarrow> int list \<times> 'd" where
  "take_many 0 d = ([], d)"
| "take_many (Suc k) d =
    (let (n, d1) = take_number d; (ns, d2) = take_many k d1 in (n # ns, d2))"

lemma take_many_above: "n \<in> set (fst (take_many k d)) \<Longrightarrow> last_number d < n"
proof (induction k arbitrary: d)
  case 0
  then show ?case by simp
next
  case (Suc k)
  obtain m d1 where m: "take_number d = (m, d1)" by fastforce
  have "last_number d < m" "last_number d1 = m"
    using take_above [of d] take_records [of d] m by simp_all
  with Suc.IH [of d1] Suc.prems m show ?case by (auto split: prod.splits)
qed

lemma take_many_increasing: "sorted_wrt (<) (fst (take_many k d))"
proof (induction k arbitrary: d)
  case 0
  then show ?case by simp
next
  case (Suc k)
  obtain m d1 where m: "take_number d = (m, d1)" by fastforce
  have "last_number d1 = m" using take_records [of d] m by simp
  with take_many_above [of _ k d1] Suc [of d1] m show ?case
    by (auto split: prod.splits)
qed

end

locale gapless_series = number_series +
  assumes take_next: "fst (take_number d) = last_number d + 1"
begin

lemma take_many_gapless: "fst (take_many k d) = map (\<lambda>i. last_number d + 1 + int i) [0..<k]"
proof (induction k arbitrary: d)
  case 0
  then show ?case by simp
next
  case (Suc k)
  obtain m d1 where m: "take_number d = (m, d1)" by fastforce
  have l: "m = last_number d + 1" "last_number d1 = m"
    using take_next [of d] take_records [of d] m by simp_all
  have "fst (take_many (Suc k) d) = m # fst (take_many k d1)"
    using m by (simp split: prod.splits)
  also have "\<dots> = m # map (\<lambda>i. m + 1 + int i) [0..<k]"
    using Suc [of d1] l by simp
  also have "\<dots> = map (\<lambda>i. last_number d + 1 + int i) [0..<Suc k]"
    using l by (simp add: upt_rec [of 0] map_Suc_upt [symmetric] o_def del: upt_Suc)
  finally show ?case .
qed

end

lemma foldl_max_ge: "(a :: int) \<le> foldl max a xs \<and> (\<forall>x \<in> set xs. x \<le> foldl max a xs)"
proof (induction xs arbitrary: a)
  case Nil
  then show ?case by simp
next
  case (Cons x xs)
  from Cons [of "max a x"] show ?case by auto
qed

lemma max_token_ge:
  "x \<in> set (orders d) \<Longrightarrow> o_outletId x = out \<Longrightarrow> o_tokenNumber x = Some k \<Longrightarrow> k \<le> max_token out d"
  unfolding max_token_def using conjunct2 [OF foldl_max_ge [of 0]]
  by (rule bspec) (force simp: List.map_filter_def)

lemma max_token_nonneg: "0 \<le> max_token out d"
  unfolding max_token_def using foldl_max_ge [of 0] by blast

definition last_token :: "uuid \<Rightarrow> db \<Rightarrow> int" where
  "last_token outletId d =
     (case find_row tc_outletId outletId (tokenCounters d) of None \<Rightarrow> 0 | Some c \<Rightarrow> tc_lastNumber c)"

lemma find_row_update_key:
  assumes "find_row key k rows = Some r" and "\<And>r. key (f r) = key r"
  shows "find_row key k (update_rows (\<lambda>r. key r = k) f rows) = Some (f r)"
  using assms find_row_Some [OF assms(1)] by (simp add: find_row_update)

interpretation tokens: number_series "reserveTokenNumber t out" "last_token out"
proof unfold_locales
  fix d :: db
  show "last_token out d < fst (reserveTokenNumber t out d)"
    using max_token_nonneg [of out d]
    by (auto simp: reserveTokenNumber_def last_token_def Let_def split: option.splits)
  show "last_token out (snd (reserveTokenNumber t out d)) = fst (reserveTokenNumber t out d)"
    by (auto simp: reserveTokenNumber_def last_token_def Let_def find_row_append find_row_Cons
        find_row_update_key split: option.splits)
qed

section \<open>The limiter\<close>












section \<open>Manager approval\<close>

lemma approval_candidates_member:
  assumes "(u, r) \<in> set (approval_candidates d act t out)"
  shows "u \<in> set (staffUsers d)" "r \<in> set (roles d)" "su_roleId u = ro_id r" "su_tenantId u = t"
    "su_pinRevokedAt u = None" "\<exists>h. su_pinHash u = Some h"
    "act \<noteq> a_refund \<Longrightarrow> ro_isManager r"
    "act = a_refund \<Longrightarrow> roleHasPermission (ro_name r) refunds \<and> (su_outletIds u = [] \<or> out \<in> set (su_outletIds u))"
  using assms find_row_Some
  by (fastforce simp: approval_candidates_def List.map_filter_def Let_def split: if_splits)+

lemma authorize_approved:
  assumes "authorize e d act t out pin reason req a = (Inr ap, a')"
  obtains u r where "(u, r) \<in> set (approval_candidates d act t out)"
    "argon2_verify e (nullish (su_pinHash u) []) pin" "str_trim reason \<noteq> []"
    "ap = \<lparr>ma_approverId = su_id u, ma_approverName = su_name u, ma_roleId = ro_id r, ma_roleName = ro_name r,
       ma_tenantId = t, ma_actionType = act, ma_reason = reason\<rparr>"
proof -
  let ?f = "find (\<lambda>(u, r). argon2_verify e (nullish (su_pinHash u) []) pin) (approval_candidates d act t out)"
  obtain u r where f: "?f = Some (u, r)" and ne: "str_trim reason \<noteq> []"
    and ap: "ap = \<lparr>ma_approverId = su_id u, ma_approverName = su_name u, ma_roleId = ro_id r, ma_roleName = ro_name r,
       ma_tenantId = t, ma_actionType = act, ma_reason = reason\<rparr>"
    using assms by (auto simp: authorize_def Let_def split: if_splits prod.splits sum.splits option.splits)
  from f have "(u, r) \<in> set (approval_candidates d act t out)" "argon2_verify e (nullish (su_pinHash u) []) pin"
    by (auto dest: find_SomeD)
  with ne ap that show ?thesis by blast
qed

text \<open>Manager approval is sound. An approval is only given to the PIN of a staff member of the
  tenant whose PIN is set and not revoked: for a refund one whose role carries the Refunds
  permission (Owner or Manager) and who may work at the outlet, for any other gated action one
  whose role is manager-capable; and only with a reason that is not blank. The approval names
  that staff member.\<close>

theorem authorize_sound:
  assumes "authorize e d act t out pin reason req a = (Inr ap, a')"
  shows "\<exists>u \<in> set (staffUsers d). \<exists>r \<in> set (roles d). ma_approverId ap = su_id u \<and> su_roleId u = ro_id r \<and>
    su_tenantId u = t \<and> su_pinRevokedAt u = None \<and>
    (\<exists>h. su_pinHash u = Some h \<and> argon2_verify e h pin) \<and> str_trim reason \<noteq> [] \<and>
    (if act = a_refund
     then (ro_name r = ''Owner'' \<or> ro_name r = ''Manager'') \<and> (su_outletIds u = [] \<or> out \<in> set (su_outletIds u))
     else ro_isManager r)"
proof -
  obtain u r where ur: "(u, r) \<in> set (approval_candidates d act t out)"
    "argon2_verify e (nullish (su_pinHash u) []) pin" "str_trim reason \<noteq> []" "ma_approverId ap = su_id u"
    using assms by (rule authorize_approved) simp
  note m = approval_candidates_member [OF ur(1)]
  obtain h where "su_pinHash u = Some h" using m(6) by blast
  with m ur show ?thesis
    by (intro bexI [of _ u] bexI [of _ r]) (auto simp: refunds_only_owner_manager)
qed

lemma authorize_sample:
  "fst (authorize s_env s_db a_refund 1 2 ''4321'' ''cold food'' 21 Map.empty) =
   Inr \<lparr>ma_approverId = 20, ma_approverName = ''Omar'', ma_roleId = 10, ma_roleName = ''Owner'',
     ma_tenantId = 1, ma_actionType = a_refund, ma_reason = ''cold food''\<rparr>"
  by (simp add: authorize_def manager_pin_rules_def count_attempt_def Let_def approval_candidates_def List.map_filter_def
      sample_defs find_row_def roleHasPermission_def permissionsFor_def ROLE_PERMISSIONS_def PERMISSIONS_def
      str_trim_def is_space_def)

theorem authorize_sound_witness:
  "\<exists>u \<in> set (staffUsers s_db). \<exists>r \<in> set (roles s_db). 20 = su_id u \<and> su_roleId u = ro_id r \<and>
    su_tenantId u = 1 \<and> (ro_name r = ''Owner'' \<or> ro_name r = ''Manager'')"
proof -
  obtain a' where "authorize s_env s_db a_refund 1 2 ''4321'' ''cold food'' 21 Map.empty =
    (Inr \<lparr>ma_approverId = 20, ma_approverName = ''Omar'', ma_roleId = 10, ma_roleName = ''Owner'',
       ma_tenantId = 1, ma_actionType = a_refund, ma_reason = ''cold food''\<rparr>, a')"
    using authorize_sample by (metis prod.collapse)
  from authorize_sound [OF this] show ?thesis by auto
qed

text \<open>A wrong PIN, or none that matches, costs an attempt; a right one is given back.\<close>

lemma authorize_denied_counts:
  assumes "authorize e d act t out pin reason req a = (Inl err, a')" and "str_trim reason \<noteq> []"
  shows "a' (ManagerPinKey t req) = Some (count_attempt (now e) (hd (manager_pin_rules t req)) a)"
  using assms
  by (auto simp: authorize_def Let_def manager_pin_rules_def split: if_splits sum.splits option.splits)

section \<open>Stale orders leave their table\<close>

lemma detachStaleTableOrder_frame:
  "detachStaleTableOrder e t tab aid mail d =
     d\<lparr>orders := orders (detachStaleTableOrder e t tab aid mail d),
       auditEvents := auditEvents (detachStaleTableOrder e t tab aid mail d)\<rparr>"
  by (simp add: detachStaleTableOrder_def split: option.splits)

text \<open>Only the table of an order changes, and only to none.\<close>

lemma detachStaleTableOrder_orders:
  "\<exists>p. orders (detachStaleTableOrder e t tab aid mail d) =
     update_rows p (\<lambda>x. x\<lparr>o_tableId := None\<rparr>) (orders d)"
proof (cases "find (\<lambda>x. o_tenantId x = t \<and> o_tableId x = Some tab \<and> o_status x \<noteq> o_closed \<and>
                   o_createdAt x < liveSince e) (orders d)")
  case None
  then have "orders (detachStaleTableOrder e t tab aid mail d) = update_rows (\<lambda>_. False) (\<lambda>x. x\<lparr>o_tableId := None\<rparr>) (orders d)"
    by (simp add: detachStaleTableOrder_def update_rows_none)
  then show ?thesis by blast
next
  case (Some x)
  then show ?thesis by (auto simp: detachStaleTableOrder_def)
qed

end
