(* ===== verification/Kitchen.thy ===== *)
theory Kitchen
  imports Platform
begin

text \<open>
  The kitchen display, \<^verbatim>\<open>src/src/kitchen/tickets.service.ts\<close>: firing the lines of an order to station
  tickets (inside the caller's transaction), the ticket actions bump, recall and refire, and the
  board reads. A ticket moves between \<open>queued\<close> and \<open>bumped\<close>; its history is the append-only event log.
\<close>

section \<open>Loading and routing\<close>

definition loadOutlet :: "db \<Rightarrow> uuid \<Rightarrow> uuid \<Rightarrow> outlet result" where
  "loadOutlet d tenantId outletId =
    (case find_row ou_id outletId (outlets d) of
       None \<Rightarrow> Inl (NotFound ''not_found'')
     | Some o' \<Rightarrow> if ou_tenantId o' \<noteq> tenantId then Inl (NotFound ''not_found'') else Inr o')"

definition loadTicket :: "db \<Rightarrow> uuid \<Rightarrow> uuid \<Rightarrow> ticket result" where
  "loadTicket d tenantId ticketId =
    (case find_row tk_id ticketId (tickets d) of
       None \<Rightarrow> Inl (NotFound ''not_found'')
     | Some t \<Rightarrow> if tk_tenantId t \<noteq> tenantId then Inl (NotFound ''not_found'') else Inr t)"

definition resolveDefaultStationId :: "db \<Rightarrow> uuid \<Rightarrow> uuid \<Rightarrow> uuid option" where
  "resolveDefaultStationId d tenantId outletId =
     map_option st_id (find (\<lambda>s. st_tenantId s = tenantId \<and> st_outletId s = outletId \<and> st_deletedAt s = None) (stations d))"

definition routeStationId :: "db \<Rightarrow> uuid \<Rightarrow> uuid option \<Rightarrow> uuid option \<Rightarrow> uuid option" where
  "routeStationId d outletId itemStationId defaultStationId =
    (case itemStationId of
       None \<Rightarrow> defaultStationId
     | Some sid \<Rightarrow>
       (case find_row st_id sid (stations d) of
          None \<Rightarrow> defaultStationId
        | Some s \<Rightarrow>
            if st_outletId s = outletId \<and> st_deletedAt s = None then Some (st_id s)
            else (case find (\<lambda>x. st_tenantId x = st_tenantId s \<and> st_outletId x = outletId \<and> st_name x = st_name s \<and>
                             st_deletedAt x = None) (stations d) of
                    None \<Rightarrow> defaultStationId
                  | Some x \<Rightarrow> Some (st_id x))))"

text \<open>The path segment of a station: a station id or the literal \<open>unrouted\<close>.\<close>

datatype station_param = Unrouted | StationParam uuid

definition resolveStationParam :: "db \<Rightarrow> uuid \<Rightarrow> uuid \<Rightarrow> station_param \<Rightarrow> uuid option result" where
  "resolveStationParam d tenantId outletId p =
    (case p of
       Unrouted \<Rightarrow> Inr None
     | StationParam sid \<Rightarrow>
       (case find_row st_id sid (stations d) of
          None \<Rightarrow> Inl (NotFound ''not_found'')
        | Some s \<Rightarrow> if st_tenantId s \<noteq> tenantId \<or> st_outletId s \<noteq> outletId then Inl (NotFound ''not_found'')
                    else Inr (Some (st_id s))))"

definition BUMPED_WINDOW_MS :: int where
  "BUMPED_WINDOW_MS = LIVE_WINDOW_MS"

definition BUMPED_MAX :: nat where
  "BUMPED_MAX = 200"

section \<open>Views\<close>

record ticket_line_view =
  kl_id :: uuid
  kl_orderLineId :: uuid
  kl_itemId :: "uuid option"
  kl_itemName :: string
  kl_variantName :: "string option"
  kl_comboName :: "string option"
  kl_quantity :: int
  kl_seatNumber :: "int option"
  kl_guestName :: "string option"
  kl_modifiers :: "(uuid \<times> string) list"
  kl_addOnBatch :: int
  kl_voided :: bool
  kl_note :: "string option"

record ticket_view =
  tw_id :: uuid
  tw_orderId :: uuid
  tw_stationId :: "uuid option"
  tw_stationName :: "string option"
  tw_tableLabel :: "string option"
  tw_tokenNumber :: "int option"
  tw_status :: ticket_status
  tw_firedAt :: date
  tw_bumpedAt :: "date option"
  tw_recallCount :: int
  tw_recalled :: bool
  tw_lines :: "ticket_line_view list"

text \<open>The joins of \<open>TICKET_LINE_INCLUDE\<close>: the order line, its item, variant, modifiers and parent combo.\<close>

definition line_item :: "db \<Rightarrow> order_line \<Rightarrow> menu_item option" where
  "line_item d l = (case ol_itemId l of None \<Rightarrow> None | Some i \<Rightarrow> find_row mi_id i (menuItems d))"

definition line_variant :: "db \<Rightarrow> order_line \<Rightarrow> item_variant option" where
  "line_variant d l = (case (line_item d l, ol_variantId l) of
     (Some i, Some v) \<Rightarrow> find_row iv_id v (mi_variants i) | _ \<Rightarrow> None)"

definition line_combo :: "db \<Rightarrow> order_line \<Rightarrow> combo option" where
  "line_combo d l = (case ol_comboId l of None \<Rightarrow> None | Some c \<Rightarrow> find_row cb_id c (combos d))"

definition modifier_name :: "db \<Rightarrow> uuid \<Rightarrow> string" where
  "modifier_name d m = (case find_row mo_id m (modifiers d) of None \<Rightarrow> [] | Some x \<Rightarrow> mo_name x)"

definition toTicketLineView :: "db \<Rightarrow> ticket_line \<Rightarrow> order_line \<Rightarrow> ticket_line_view" where
  "toTicketLineView d line l =
    \<lparr>kl_id = tl_id line, kl_orderLineId = tl_orderLineId line, kl_itemId = ol_itemId l,
     kl_itemName = (case line_item d l of None \<Rightarrow> [] | Some i \<Rightarrow> mi_shortName i),
     kl_variantName = map_option iv_name (line_variant d l),
     kl_comboName = (case ol_parentLineId l of None \<Rightarrow> None
        | Some pl \<Rightarrow> (case find_row ol_id pl (orderLines d) of None \<Rightarrow> None
           | Some parent \<Rightarrow> map_option cb_name (line_combo d parent))),
     kl_quantity = tl_quantity line, kl_seatNumber = ol_seatNumber l, kl_guestName = ol_guestName l,
     kl_modifiers = map (\<lambda>m. (om_id m, modifier_name d (om_modifierId m))) (ol_modifiers l),
     kl_addOnBatch = tl_addOnBatch line, kl_voided = tl_voided line, kl_note = ol_note l\<rparr>"

definition ticket_line_views :: "db \<Rightarrow> ticket_line list \<Rightarrow> ticket_line_view list" where
  "ticket_line_views d ls = List.map_filter
     (\<lambda>line. map_option (toTicketLineView d line) (find_row ol_id (tl_orderLineId line) (orderLines d))) ls"

definition buildTicketView :: "db \<Rightarrow> ticket \<Rightarrow> ticket_view" where
  "buildTicketView d t =
    (let ls = filter (\<lambda>l. tl_ticketId l = tk_id t) (ticketLines d);
         st = (case tk_stationId t of None \<Rightarrow> None | Some s \<Rightarrow> find_row st_id s (stations d));
         ord = find_row o_id (tk_orderId t) (orders d);
         tab = (case ord of None \<Rightarrow> None | Some x \<Rightarrow>
           (case o_tableId x of None \<Rightarrow> None | Some tb \<Rightarrow> find_row dt_id tb (diningTables d)))
     in \<lparr>tw_id = tk_id t, tw_orderId = tk_orderId t, tw_stationId = tk_stationId t,
         tw_stationName = map_option st_name st, tw_tableLabel = map_option dt_label tab,
         tw_tokenNumber = (case ord of None \<Rightarrow> None | Some x \<Rightarrow> o_tokenNumber x),
         tw_status = tk_status t, tw_firedAt = tk_firedAt t, tw_bumpedAt = tk_bumpedAt t,
         tw_recallCount = tk_recallCount t,
         tw_recalled = (tk_status t = queued \<and> tk_recallCount t > 0),
         tw_lines = ticket_line_views d ls\<rparr>)"

section \<open>Firing\<close>

text \<open>Lines of the order that are not voided, have no ticket line yet and carry an item.\<close>

definition fireable_lines :: "db \<Rightarrow> uuid \<Rightarrow> (order_line \<times> menu_item) list" where
  "fireable_lines d orderId = List.map_filter (\<lambda>l. map_option (Pair l) (line_item d l))
     (filter (\<lambda>l. ol_orderId l = orderId \<and> ol_voidedAt l = None \<and>
        \<not> list_ex (\<lambda>k. tl_orderLineId k = ol_id l) (ticketLines d)) (orderLines d))"

definition add_ticket_line :: "uuid \<Rightarrow> uuid \<Rightarrow> int \<Rightarrow> order_line \<Rightarrow> db \<Rightarrow> db" where
  "add_ticket_line tenantId ticketId batch l d =
    (let (i, d1) = take_id d
     in d1\<lparr>ticketLines := ticketLines d1 @
          [\<lparr>tl_id = i, tl_tenantId = tenantId, tl_ticketId = ticketId, tl_orderLineId = ol_id l,
            tl_quantity = ol_quantity l, tl_addOnBatch = batch, tl_voided = False\<rparr>]\<rparr>)"

definition max_batch :: "db \<Rightarrow> uuid \<Rightarrow> int" where
  "max_batch d ticketId = (case filter (\<lambda>l. tl_ticketId l = ticketId) (ticketLines d) of
     [] \<Rightarrow> 0 | l # ls \<Rightarrow> foldl max (tl_addOnBatch l) (map tl_addOnBatch ls))"

definition fire_group ::
  "env \<Rightarrow> uuid \<Rightarrow> uuid \<Rightarrow> uuid \<Rightarrow> uuid option \<times> (order_line \<times> menu_item) list \<Rightarrow> db \<Rightarrow> db" where
  "fire_group e orderId tenantId outletId g d =
    (let stationId = fst g;
         existing = latest_by tk_firedAt (filter (\<lambda>t. tk_orderId t = orderId \<and> tk_stationId t = stationId) (tickets d));
         reuse = (case existing of None \<Rightarrow> None | Some t \<Rightarrow> if tk_status t = queued then Some t else None);
         (ticketId, batch, d1) =
           (case reuse of
              Some t \<Rightarrow> (tk_id t, max_batch d (tk_id t) + 1,
                d\<lparr>ticketEvents := ticketEvents d @
                   [\<lparr>te_tenantId = tenantId, te_ticketId = tk_id t, te_type = e_add_on_fired, te_occurredAt = now e\<rparr>]\<rparr>)
            | None \<Rightarrow> (let (i, d0) = take_id d in (i, 0,
                d0\<lparr>tickets := tickets d0 @
                   [\<lparr>tk_id = i, tk_tenantId = tenantId, tk_outletId = outletId, tk_orderId = orderId,
                     tk_stationId = stationId, tk_status = queued, tk_recallCount = 0, tk_firedAt = now e,
                     tk_bumpedAt = None, tk_recalledAt = None\<rparr>]\<rparr>)))
     in fold (\<lambda>(l, _). add_ticket_line tenantId ticketId batch l) (snd g) d1)"

definition fireOnSend :: "env \<Rightarrow> uuid \<Rightarrow> uuid \<Rightarrow> uuid \<Rightarrow> db \<Rightarrow> int \<times> db" where
  "fireOnSend e orderId tenantId outletId d =
    (let lines = fireable_lines d orderId in
     if lines = [] then (0, d)
     else let defaultStationId = resolveDefaultStationId d tenantId outletId;
              groups = group_by (\<lambda>(l, item). routeStationId d outletId (mi_stationId item) defaultStationId) lines
          in (int (length lines), fold (fire_group e orderId tenantId outletId) groups d))"

section \<open>Actions\<close>

definition add_ticket_event :: "env \<Rightarrow> uuid \<Rightarrow> uuid \<Rightarrow> ticket_event_type \<Rightarrow> db \<Rightarrow> db" where
  "add_ticket_event e tenantId ticketId ty d =
     d\<lparr>ticketEvents := ticketEvents d @
        [\<lparr>te_tenantId = tenantId, te_ticketId = ticketId, te_type = ty, te_occurredAt = now e\<rparr>]\<rparr>"

definition bump :: "env \<Rightarrow> pos_principal \<Rightarrow> uuid \<Rightarrow> db \<Rightarrow> (ticket_view \<times> db) result" where
  "bump e staff ticketId d =
    r_bind (loadTicket d (pp_tenantId staff) ticketId) (\<lambda>t.
      if tk_status t = bumped then Inl (Conflict ''conflict'')
      else let t' = t\<lparr>tk_status := bumped, tk_bumpedAt := Some (now e)\<rparr>;
               d1 = d\<lparr>tickets := update_rows (\<lambda>x. tk_id x = ticketId)
                       (\<lambda>x. x\<lparr>tk_status := bumped, tk_bumpedAt := Some (now e)\<rparr>) (tickets d)\<rparr>;
               d2 = add_ticket_event e (pp_tenantId staff) ticketId e_bumped d1
           in Inr (buildTicketView d2 t', d2))"

definition recall :: "env \<Rightarrow> pos_principal \<Rightarrow> uuid \<Rightarrow> db \<Rightarrow> (ticket_view \<times> db) result" where
  "recall e staff ticketId d =
    r_bind (loadTicket d (pp_tenantId staff) ticketId) (\<lambda>t.
      if tk_status t \<noteq> bumped then Inl (Conflict ''conflict'')
      else if (case tk_bumpedAt t of None \<Rightarrow> False | Some b \<Rightarrow> now e - b > BUMPED_WINDOW_MS) then Inl (Conflict ''conflict'')
      else let f = (\<lambda>x. x\<lparr>tk_status := queued, tk_recallCount := tk_recallCount x + 1, tk_recalledAt := Some (now e)\<rparr>);
               d1 = d\<lparr>tickets := update_rows (\<lambda>x. tk_id x = ticketId) f (tickets d)\<rparr>;
               d2 = add_ticket_event e (pp_tenantId staff) ticketId e_recalled d1
           in Inr (buildTicketView d2 (f t), d2))"

definition refire :: "env \<Rightarrow> pos_principal \<Rightarrow> uuid \<Rightarrow> db \<Rightarrow> (ticket_view \<times> db) result" where
  "refire e staff ticketId d =
    r_bind (loadTicket d (pp_tenantId staff) ticketId) (\<lambda>t.
      let f = (\<lambda>x. x\<lparr>tk_status := queued, tk_bumpedAt := None\<rparr>);
          d1 = d\<lparr>tickets := update_rows (\<lambda>x. tk_id x = ticketId) f (tickets d)\<rparr>;
          d2 = add_ticket_event e (pp_tenantId staff) ticketId e_refired d1
      in Inr (buildTicketView d2 (f t), d2))"

section \<open>Reads\<close>

record station_view =
  sw_id :: uuid
  sw_name :: string
  sw_ageingThresholdMinutes :: int

definition toStationView :: "station \<Rightarrow> station_view" where
  "toStationView s = \<lparr>sw_id = st_id s, sw_name = st_name s, sw_ageingThresholdMinutes = st_ageingThresholdMinutes s\<rparr>"

definition listStations :: "pos_principal \<Rightarrow> uuid \<Rightarrow> db \<Rightarrow> station_view list result" where
  "listStations staff outletId d =
    r_bind (loadOutlet d (pp_tenantId staff) outletId) (\<lambda>_.
      Inr (map toStationView (filter (\<lambda>s. st_tenantId s = pp_tenantId staff \<and> st_outletId s = outletId \<and>
        st_deletedAt s = None) (stations d))))"

definition stationQueue :: "env \<Rightarrow> pos_principal \<Rightarrow> uuid \<Rightarrow> station_param \<Rightarrow> db \<Rightarrow> ticket_view list result" where
  "stationQueue e staff outletId sp d =
    r_bind (loadOutlet d (pp_tenantId staff) outletId) (\<lambda>_.
    r_bind (resolveStationParam d (pp_tenantId staff) outletId sp) (\<lambda>stationId.
      Inr (map (buildTicketView d) (sort_key tk_firedAt (filter (\<lambda>t. tk_tenantId t = pp_tenantId staff \<and>
        tk_outletId t = outletId \<and> tk_stationId t = stationId \<and> tk_status t = queued \<and> tk_firedAt t \<ge> liveSince e)
        (tickets d))))))"

record expo_station_entry =
  ex_stationId :: "uuid option"
  ex_stationName :: "string option"
  ex_ready :: bool
  ex_tickets :: "ticket_view list"

record expo_order_view =
  eo_orderId :: uuid
  eo_tableLabel :: "string option"
  eo_tokenNumber :: "int option"
  eo_stations :: "expo_station_entry list"
  eo_waitingOn :: "ticket_line_view list"

definition order_tickets :: "db \<Rightarrow> uuid \<Rightarrow> ticket list" where
  "order_tickets d orderId = filter (\<lambda>t. tk_orderId t = orderId) (tickets d)"

definition expo_order :: "env \<Rightarrow> pos_principal \<Rightarrow> uuid \<Rightarrow> db \<Rightarrow> order \<Rightarrow> bool" where
  "expo_order e staff outletId d x \<longleftrightarrow>
     (let ts = order_tickets d (o_id x) in
      o_tenantId x = pp_tenantId staff \<and> o_outletId x = outletId \<and>
      list_ex (\<lambda>t. tk_firedAt t \<ge> liveSince e) ts \<and>
      (o_status x = o_sent \<or>
       list_ex (\<lambda>t. tk_status t = queued) ts \<or>
       (list_ex (\<lambda>b. b_orderId b = o_id x \<and> b_status b = b_finalized \<and>
            \<not> list_ex (\<lambda>c. cn_originalBillId c = b_id b) (creditNotes d)) (bills d) \<and>
        ts \<noteq> [] \<and>
        list_all (\<lambda>t. tk_status t = bumped \<and>
          (case tk_bumpedAt t of None \<Rightarrow> False | Some b \<Rightarrow> b \<ge> now e - BUMPED_WINDOW_MS)) ts)))"

definition expo_view :: "db \<Rightarrow> order \<Rightarrow> expo_order_view" where
  "expo_view d x =
    (let views = map (buildTicketView d) (sort_key tk_firedAt (order_tickets d (o_id x)));
         byStation = group_by tw_stationId views
     in \<lparr>eo_orderId = o_id x,
         eo_tableLabel = (case o_tableId x of None \<Rightarrow> None | Some tb \<Rightarrow> map_option dt_label (find_row dt_id tb (diningTables d))),
         eo_tokenNumber = o_tokenNumber x,
         eo_stations = map (\<lambda>(k, vs). \<lparr>ex_stationId = k, ex_stationName = tw_stationName (hd vs),
            ex_ready = list_all (\<lambda>v. tw_status v = bumped) vs, ex_tickets = vs\<rparr>) byStation,
         eo_waitingOn = concat (map (\<lambda>v. filter (\<lambda>l. \<not> kl_voided l) (tw_lines v)) (filter (\<lambda>v. tw_status v = queued) views))\<rparr>)"

definition expo :: "env \<Rightarrow> pos_principal \<Rightarrow> uuid \<Rightarrow> db \<Rightarrow> expo_order_view list result" where
  "expo e staff outletId d =
    r_bind (loadOutlet d (pp_tenantId staff) outletId) (\<lambda>_.
      Inr (map (expo_view d) (filter (\<lambda>x. order_tickets d (o_id x) \<noteq> [])
        (filter (expo_order e staff outletId d) (orders d)))))"

definition bumped_board :: "env \<Rightarrow> pos_principal \<Rightarrow> uuid \<Rightarrow> db \<Rightarrow> (ticket_view \<times> date list) list result" where
  "bumped_board e staff outletId d =
    r_bind (loadOutlet d (pp_tenantId staff) outletId) (\<lambda>_.
      let ts = take BUMPED_MAX (sort_key (\<lambda>t. - nullish (tk_bumpedAt t) 0) (filter (\<lambda>t. tk_tenantId t = pp_tenantId staff \<and>
            tk_outletId t = outletId \<and> tk_status t = bumped \<and>
            (case tk_bumpedAt t of None \<Rightarrow> False | Some b \<Rightarrow> b \<ge> now e - BUMPED_WINDOW_MS)) (tickets d)))
      in Inr (map (\<lambda>t. (buildTicketView d t, map te_occurredAt (filter (\<lambda>v. te_ticketId v = tk_id t \<and> te_type v = e_recalled)
            (ticketEvents d)))) ts))"

record all_day_entry =
  ad_itemId :: uuid
  ad_itemName :: string
  ad_quantity :: int

text \<open>The final sort of the summary is by \<open>localeCompare\<close>, whose order is a parameter.\<close>

fun insert_by :: "('a \<Rightarrow> 'a \<Rightarrow> bool) \<Rightarrow> 'a \<Rightarrow> 'a list \<Rightarrow> 'a list" where
  "insert_by le x [] = [x]"
| "insert_by le x (y # ys) = (if le x y then x # y # ys else y # insert_by le x ys)"

definition live_queue_lines :: "env \<Rightarrow> pos_principal \<Rightarrow> uuid \<Rightarrow> db \<Rightarrow> ticket_line list" where
  "live_queue_lines e staff outletId d = filter (\<lambda>l. tl_tenantId l = pp_tenantId staff \<and> \<not> tl_voided l \<and>
     (case find_row tk_id (tl_ticketId l) (tickets d) of None \<Rightarrow> False
      | Some t \<Rightarrow> tk_outletId t = outletId \<and> tk_status t = queued \<and> tk_firedAt t \<ge> liveSince e)) (ticketLines d)"

definition ticket_line_item :: "db \<Rightarrow> ticket_line \<Rightarrow> menu_item option" where
  "ticket_line_item d l = (case find_row ol_id (tl_orderLineId l) (orderLines d) of None \<Rightarrow> None | Some ol \<Rightarrow> line_item d ol)"

definition allDaySummary ::
  "(string \<Rightarrow> string \<Rightarrow> bool) \<Rightarrow> env \<Rightarrow> pos_principal \<Rightarrow> uuid \<Rightarrow> db \<Rightarrow> all_day_entry list result" where
  "allDaySummary name_le e staff outletId d =
    r_bind (loadOutlet d (pp_tenantId staff) outletId) (\<lambda>_.
      let lines = List.map_filter (\<lambda>l. map_option (\<lambda>item. (item, tl_quantity l)) (ticket_line_item d l))
                    (live_queue_lines e staff outletId d);
          totals = map (\<lambda>(k, ls). \<lparr>ad_itemId = k, ad_itemName = mi_shortName (fst (hd ls)), ad_quantity = sum_rows snd ls\<rparr>)
                    (group_by (\<lambda>(item, q). mi_id item) lines)
      in Inr (foldr (insert_by (\<lambda>a b. name_le (ad_itemName a) (ad_itemName b))) totals []))"

section \<open>Loaders\<close>

interpretation outlet_loader: scoped_loader loadOutlet outlets ou_id ou_tenantId
  by unfold_locales (auto simp: loadOutlet_def split: option.splits if_splits)

interpretation ticket_loader: scoped_loader loadTicket tickets tk_id tk_tenantId
  by unfold_locales (auto simp: loadTicket_def split: option.splits if_splits)

section \<open>Firing reaches every line once\<close>

text \<open>The part of the database that firing leaves alone.\<close>

definition non_kitchen :: "db \<Rightarrow> db" where
  "non_kitchen d = d\<lparr>nextId := 0, tickets := [], ticketLines := [], ticketEvents := []\<rparr>"

lemma non_kitchen_fields:
  "orders (non_kitchen d) = orders d" "orderLines (non_kitchen d) = orderLines d"
  "bills (non_kitchen d) = bills d" "tenders (non_kitchen d) = tenders d" "intents (non_kitchen d) = intents d"
  "tenants (non_kitchen d) = tenants d" "billCounters (non_kitchen d) = billCounters d"
  "menuItems (non_kitchen d) = menuItems d" "stations (non_kitchen d) = stations d"
  "billShares (non_kitchen d) = billShares d" "creditNotes (non_kitchen d) = creditNotes d"
  "shifts (non_kitchen d) = shifts d" "cashMovements (non_kitchen d) = cashMovements d"
  "auditEvents (non_kitchen d) = auditEvents d" "tableSessions (non_kitchen d) = tableSessions d"
  "outlets (non_kitchen d) = outlets d" "taxRegistrations (non_kitchen d) = taxRegistrations d"
  "tokenCounters (non_kitchen d) = tokenCounters d" "diningTables (non_kitchen d) = diningTables d"
  "guests (non_kitchen d) = guests d" "cartLines (non_kitchen d) = cartLines d"
  "printJobs (non_kitchen d) = printJobs d"
  by (simp_all add: non_kitchen_def)

lemma non_kitchenD:
  assumes "non_kitchen a = non_kitchen b"
  shows "orders a = orders b" "orderLines a = orderLines b" "bills a = bills b" "tenders a = tenders b"
    "intents a = intents b" "tenants a = tenants b" "billCounters a = billCounters b"
    "menuItems a = menuItems b" "stations a = stations b" "billShares a = billShares b"
    "creditNotes a = creditNotes b" "shifts a = shifts b" "cashMovements a = cashMovements b"
    "auditEvents a = auditEvents b" "tableSessions a = tableSessions b" "outlets a = outlets b"
    "taxRegistrations a = taxRegistrations b" "tokenCounters a = tokenCounters b"
    "diningTables a = diningTables b" "guests a = guests b" "cartLines a = cartLines b"
    "printJobs a = printJobs b"
  by (simp_all only: non_kitchen_fields [of a, symmetric] non_kitchen_fields [of b, symmetric] assms)

lemma add_ticket_line_effect:
  "non_kitchen (add_ticket_line t k b l d) = non_kitchen d"
  "tickets (add_ticket_line t k b l d) = tickets d"
  "ticketLines (add_ticket_line t k b l d) = ticketLines d @
     [\<lparr>tl_id = nextId d, tl_tenantId = t, tl_ticketId = k, tl_orderLineId = ol_id l,
       tl_quantity = ol_quantity l, tl_addOnBatch = b, tl_voided = False\<rparr>]"
  by (simp_all add: add_ticket_line_def take_id_def non_kitchen_def)

lemma add_ticket_lines_effect:
  "non_kitchen (fold (\<lambda>(l, _). add_ticket_line t k b l) ls d) = non_kitchen d \<and>
   tickets (fold (\<lambda>(l, _). add_ticket_line t k b l) ls d) = tickets d \<and>
   (\<exists>new. ticketLines (fold (\<lambda>(l, _). add_ticket_line t k b l) ls d) = ticketLines d @ new \<and>
      map tl_orderLineId new = map (\<lambda>(l, _). ol_id l) ls \<and>
      (\<forall>x \<in> set new. tl_ticketId x = k \<and> \<not> tl_voided x))"
proof (induction ls rule: rev_induct)
  case Nil
  then show ?case by simp
next
  case (snoc p ls)
  then show ?case by (cases p) (auto simp: add_ticket_line_effect)
qed

text \<open>What firing a list of groups adds, group by group.\<close>

definition fired :: "uuid \<Rightarrow> (uuid option \<times> (order_line \<times> menu_item) list) list \<Rightarrow> db \<Rightarrow> db \<Rightarrow> bool" where
  "fired orderId gs d d' \<longleftrightarrow> non_kitchen d' = non_kitchen d \<and> (\<exists>ts. tickets d' = tickets d @ ts) \<and>
    (\<exists>new. ticketLines d' = ticketLines d @ new \<and>
       map tl_orderLineId new = concat (map (\<lambda>g. map (\<lambda>(l, _). ol_id l) (snd g)) gs) \<and>
       (\<forall>x \<in> set new. \<not> tl_voided x \<and> (\<exists>t \<in> set (tickets d'). \<exists>g \<in> set gs. tk_id t = tl_ticketId x \<and>
          tk_orderId t = orderId \<and> tk_stationId t = fst g \<and> tl_orderLineId x \<in> (\<lambda>(l, _). ol_id l) ` set (snd g))))"

text \<open>A group goes onto the queued ticket of its station, or onto a new one.\<close>

definition open_ticket :: "env \<Rightarrow> uuid \<Rightarrow> uuid \<Rightarrow> uuid \<Rightarrow> uuid option \<Rightarrow> db \<Rightarrow> db" where
  "open_ticket e orderId t out station d = d\<lparr>nextId := Suc (nextId d), tickets := tickets d @
      [\<lparr>tk_id = nextId d, tk_tenantId = t, tk_outletId = out, tk_orderId = orderId, tk_stationId = station,
        tk_status = queued, tk_recallCount = 0, tk_firedAt = now e, tk_bumpedAt = None, tk_recalledAt = None\<rparr>]\<rparr>"

lemma fire_group_cases:
  obtains (add_on) x where "x \<in> set (tickets d)" "tk_orderId x = orderId" "tk_stationId x = fst g"
      "fire_group e orderId t out g d = fold (\<lambda>(l, _). add_ticket_line t (tk_id x) (max_batch d (tk_id x) + 1) l) (snd g)
         (add_ticket_event e t (tk_id x) e_add_on_fired d)"
    | (fresh) "fire_group e orderId t out g d = fold (\<lambda>(l, _). add_ticket_line t (nextId d) 0 l) (snd g)
         (open_ticket e orderId t out (fst g) d)"
proof (cases "latest_by tk_firedAt (filter (\<lambda>t. tk_orderId t = orderId \<and> tk_stationId t = fst g) (tickets d))")
  case None
  then show thesis
    by (intro fresh) (simp add: fire_group_def Let_def take_id_def open_ticket_def del: latest_by_None)
next
  case (Some x)
  then have x: "x \<in> set (tickets d)" "tk_orderId x = orderId" "tk_stationId x = fst g"
    using latest_by_Some [OF Some] by auto
  show thesis
  proof (cases "tk_status x = queued")
    case True
    with Some x show thesis
      by (intro add_on [of x]) (simp_all add: fire_group_def Let_def add_ticket_event_def)
  next
    case False
    with Some show thesis
      by (intro fresh) (simp add: fire_group_def Let_def take_id_def open_ticket_def)
  qed
qed

lemma fire_group_fired: "fired orderId [g] d (fire_group e orderId t out g d)"
proof -
  obtain k b d1 where fg: "fire_group e orderId t out g d = fold (\<lambda>(l, _). add_ticket_line t k b l) (snd g) d1"
    and d1: "non_kitchen d1 = non_kitchen d" "\<exists>ts. tickets d1 = tickets d @ ts" "ticketLines d1 = ticketLines d"
      "\<exists>x \<in> set (tickets d1). tk_id x = k \<and> tk_orderId x = orderId \<and> tk_stationId x = fst g"
  proof (cases rule: fire_group_cases [of d orderId g e t out])
    case (add_on x)
    then show thesis by (intro that [OF add_on(4)]) (auto simp: add_ticket_event_def non_kitchen_def)
  next
    case fresh
    then show thesis by (intro that [OF fresh]) (auto simp: open_ticket_def non_kitchen_def)
  qed
  obtain new where new: "ticketLines (fold (\<lambda>(l, _). add_ticket_line t k b l) (snd g) d1) = ticketLines d @ new"
    "map tl_orderLineId new = map (\<lambda>(l, _). ol_id l) (snd g)" "\<forall>x \<in> set new. tl_ticketId x = k \<and> \<not> tl_voided x"
    using add_ticket_lines_effect [of t k b "snd g" d1] d1(3) by auto
  have "tl_orderLineId x \<in> (\<lambda>(l, _). ol_id l) ` set (snd g)" if "x \<in> set new" for x
    using arg_cong [OF new(2), of set] that by auto
  with new d1 add_ticket_lines_effect [of t k b "snd g" d1] show ?thesis
    unfolding fg fired_def by auto
qed

lemma fired_trans:
  assumes "fired orderId gs d d1" and "fired orderId hs d1 d2"
  shows "fired orderId (gs @ hs) d d2"
proof -
  obtain ts us new old where a: "tickets d1 = tickets d @ ts" "tickets d2 = tickets d1 @ us"
    "ticketLines d1 = ticketLines d @ old" "ticketLines d2 = ticketLines d1 @ new"
    "map tl_orderLineId old = concat (map (\<lambda>g. map (\<lambda>(l, _). ol_id l) (snd g)) gs)"
    "map tl_orderLineId new = concat (map (\<lambda>g. map (\<lambda>(l, _). ol_id l) (snd g)) hs)"
    "\<forall>x \<in> set old. \<not> tl_voided x \<and> (\<exists>t \<in> set (tickets d1). \<exists>g \<in> set gs. tk_id t = tl_ticketId x \<and>
          tk_orderId t = orderId \<and> tk_stationId t = fst g \<and> tl_orderLineId x \<in> (\<lambda>(l, _). ol_id l) ` set (snd g))"
    "\<forall>x \<in> set new. \<not> tl_voided x \<and> (\<exists>t \<in> set (tickets d2). \<exists>g \<in> set hs. tk_id t = tl_ticketId x \<and>
          tk_orderId t = orderId \<and> tk_stationId t = fst g \<and> tl_orderLineId x \<in> (\<lambda>(l, _). ol_id l) ` set (snd g))"
    using assms unfolding fired_def by blast
  show ?thesis unfolding fired_def
  proof (intro conjI exI [of _ "ts @ us"] exI [of _ "old @ new"] ballI)
    fix x assume "x \<in> set (old @ new)"
    then show "\<not> tl_voided x" using a(7,8) by auto
    show "\<exists>t \<in> set (tickets d2). \<exists>g \<in> set (gs @ hs). tk_id t = tl_ticketId x \<and> tk_orderId t = orderId \<and>
        tk_stationId t = fst g \<and> tl_orderLineId x \<in> (\<lambda>(l, _). ol_id l) ` set (snd g)"
      using \<open>x \<in> set (old @ new)\<close> a(2,7,8) by (metis Un_iff set_append)
  qed (use assms a in \<open>auto simp: fired_def\<close>)
qed

lemma fold_fire_group_fired: "fired orderId gs d (fold (fire_group e orderId t out) gs d)"
proof (induction gs rule: rev_induct)
  case Nil
  then show ?case by (simp add: fired_def)
next
  case (snoc g gs)
  then show ?case using fired_trans fire_group_fired by fastforce
qed

definition routed_groups :: "db \<Rightarrow> uuid \<Rightarrow> uuid \<Rightarrow> uuid \<Rightarrow> (uuid option \<times> (order_line \<times> menu_item) list) list" where
  "routed_groups d orderId t out =
     group_by (\<lambda>(l, item). routeStationId d out (mi_stationId item) (resolveDefaultStationId d t out)) (fireable_lines d orderId)"

lemma fireOnSend_fired:
  assumes "fireOnSend e orderId t out d = (n, d')"
  shows "n = int (length (fireable_lines d orderId))" "fired orderId (routed_groups d orderId t out) d d'"
proof -
  show "n = int (length (fireable_lines d orderId))"
    using assms by (auto simp: fireOnSend_def Let_def split: if_splits)
  show "fired orderId (routed_groups d orderId t out) d d'"
  proof (cases "fireable_lines d orderId = []")
    case True
    then show ?thesis using assms by (simp add: fireOnSend_def routed_groups_def fired_def)
  next
    case False
    then have "d' = fold (fire_group e orderId t out) (routed_groups d orderId t out) d"
      using assms by (simp add: fireOnSend_def routed_groups_def Let_def)
    then show ?thesis using fold_fire_group_fired by simp
  qed
qed

lemma fireOnSend_frame: "fireOnSend e orderId t out d = (n, d') \<Longrightarrow> non_kitchen d' = non_kitchen d"
  using fireOnSend_fired(2) by (simp add: fired_def)

lemma fireOnSend_fire_only:
  assumes "fireOnSend e orderId t out d = (n, d')"
  shows "d' = d\<lparr>nextId := nextId d', tickets := tickets d', ticketLines := ticketLines d', ticketEvents := ticketEvents d'\<rparr>"
proof -
  have "\<And>a. a = (non_kitchen a)\<lparr>nextId := nextId a, tickets := tickets a, ticketLines := ticketLines a, ticketEvents := ticketEvents a\<rparr>"
    by (simp add: non_kitchen_def)
  then have "d' = (non_kitchen d)\<lparr>nextId := nextId d', tickets := tickets d', ticketLines := ticketLines d', ticketEvents := ticketEvents d'\<rparr>"
    using fireOnSend_frame [OF assms] by metis
  then show ?thesis by (simp add: non_kitchen_def)
qed

definition is_fireable :: "db \<Rightarrow> uuid \<Rightarrow> order_line \<Rightarrow> bool" where
  "is_fireable d orderId l \<longleftrightarrow> ol_orderId l = orderId \<and> ol_voidedAt l = None \<and> line_item d l \<noteq> None \<and>
     count_rows (\<lambda>k. tl_orderLineId k = ol_id l) (ticketLines d) = 0"

lemma map_fst_map_filter_Pair:
  "map fst (List.map_filter (\<lambda>x. map_option (Pair x) (f x)) xs) = filter (\<lambda>x. f x \<noteq> None) xs"
  by (induction xs) (auto simp: List.map_filter_def)

lemma fireable_lines_fst: "map fst (fireable_lines d orderId) = filter (is_fireable d orderId) (orderLines d)"
  by (auto simp: fireable_lines_def map_fst_map_filter_Pair is_fireable_def count_rows_zero list_ex_iff intro!: filter_cong)

lemma fired_line_ids:
  assumes "fireOnSend e orderId t out d = (n, d')"
  shows "mset (map tl_orderLineId (ticketLines d')) =
    mset (map tl_orderLineId (ticketLines d)) + mset (map ol_id (filter (is_fireable d orderId) (orderLines d)))"
proof -
  let ?gs = "routed_groups d orderId t out"
  obtain new where new: "ticketLines d' = ticketLines d @ new"
    "map tl_orderLineId new = concat (map (\<lambda>g. map (\<lambda>(l, _). ol_id l) (snd g)) ?gs)"
    using fireOnSend_fired(2) [OF assms] by (auto simp: fired_def)
  have "concat (map (\<lambda>g. map (\<lambda>(l, _). ol_id l) (snd g)) ?gs) = map (\<lambda>(l, _). ol_id l) (concat (map snd ?gs))"
    by (simp add: map_concat o_def)
  then have "mset (map tl_orderLineId new) = image_mset (\<lambda>(l, _). ol_id l) (mset (fireable_lines d orderId))"
    using new(2) by (simp only: mset_map routed_groups_def group_by_members)
  also have "\<dots> = mset (map ol_id (map fst (fireable_lines d orderId)))"
    by (simp add: split_def o_def)
  finally show ?thesis using new(1) by (simp only: fireable_lines_fst map_append mset_append)
qed

lemma count_rows_mset: "count_rows (\<lambda>k. f k = i) ls = count (mset (map f ls)) i"
  by (induction ls) (auto simp: count_rows_def)

text \<open>C7: Firing. After the kitchen hook ran for an order, a line of that order that is neither voided nor a
  combo header and had no ticket line has exactly one; every other line (already fired, voided,
  of another order) has as many as before. The returned number counts the lines fired.\<close>

theorem fireOnSend_fires_each_line_once:
  assumes "fireOnSend e orderId t out d = (n, d')" and "distinct (map ol_id (orderLines d))"
  shows "n = int (count_rows (is_fireable d orderId) (orderLines d)) \<and>
    (\<forall>l \<in> set (orderLines d). count_rows (\<lambda>k. tl_orderLineId k = ol_id l) (ticketLines d') =
       (if is_fireable d orderId l then 1 else count_rows (\<lambda>k. tl_orderLineId k = ol_id l) (ticketLines d)))"
proof (intro conjI ballI)
  show "n = int (count_rows (is_fireable d orderId) (orderLines d))"
    using fireOnSend_fired(1) [OF assms(1)] arg_cong [OF fireable_lines_fst, of length d orderId]
    by (simp add: count_rows_def)
  fix l assume l: "l \<in> set (orderLines d)"
  let ?F = "filter (is_fireable d orderId) (orderLines d)"
  have "distinct (map ol_id ?F)" using assms(2) by (simp add: distinct_map_filter)
  then have c: "count (mset (map ol_id ?F)) (ol_id l) = (if ol_id l \<in> set (map ol_id ?F) then 1 else 0)"
    by (simp only: distinct_count_atmost_1)
  have "ol_id l \<in> set (map ol_id ?F) \<longleftrightarrow> is_fireable d orderId l"
    using l assms(2) by (auto simp: distinct_map dest: inj_onD)
  with c have "count_rows (\<lambda>k. tl_orderLineId k = ol_id l) (ticketLines d') =
      count_rows (\<lambda>k. tl_orderLineId k = ol_id l) (ticketLines d) + (if is_fireable d orderId l then 1 else 0)"
    by (simp only: count_rows_mset fired_line_ids [OF assms(1)] count_union)
  then show "count_rows (\<lambda>k. tl_orderLineId k = ol_id l) (ticketLines d') =
       (if is_fireable d orderId l then 1 else count_rows (\<lambda>k. tl_orderLineId k = ol_id l) (ticketLines d))"
    by (auto simp: is_fireable_def)
qed

lemma fire_sample:
  "case fireOnSend s_env 80 1 2 s_db_order of (n, d') \<Rightarrow>
     n = 2 \<and> map tl_orderLineId (ticketLines d') = [81, 82] \<and> map tk_stationId (tickets d') = [Some 40]"
  by (simp add: fireOnSend_def fireable_lines_def List.map_filter_def line_item_def resolveDefaultStationId_def routeStationId_def
      group_by_def fire_group_def add_ticket_line_def take_id_def Let_def find_row_def sample_defs)

theorem fireOnSend_fires_each_line_once_witness:
  "case fireOnSend s_env 80 1 2 s_db_order of (n, d') \<Rightarrow>
     n = int (count_rows (is_fireable s_db_order 80) (orderLines s_db_order)) \<and> n = 2"
proof -
  obtain n d' where r: "fireOnSend s_env 80 1 2 s_db_order = (n, d')" by fastforce
  have "distinct (map ol_id (orderLines s_db_order))" by (simp add: sample_defs)
  from fireOnSend_fires_each_line_once [OF r this] r fire_sample show ?thesis by simp
qed

lemma fireOnSend_exhausts: "fireable_lines (snd (fireOnSend e orderId t out d)) orderId = []"
proof -
  obtain n d' where r: "fireOnSend e orderId t out d = (n, d')" by fastforce
  note frame = non_kitchenD [OF fireOnSend_frame [OF r]]
  have item: "line_item d' l = line_item d l" for l unfolding line_item_def frame(8) ..
  have "\<not> is_fireable d' orderId l" if l: "l \<in> set (orderLines d)" for l
  proof
    assume f: "is_fireable d' orderId l"
    have sub: "set (map tl_orderLineId (ticketLines d')) = set (map tl_orderLineId (ticketLines d)) \<union>
        set (map ol_id (filter (is_fireable d orderId) (orderLines d)))"
      using arg_cong [OF fired_line_ids [OF r], of set_mset] by (simp only: set_mset_mset set_mset_union)
    have none: "ol_id l \<notin> set (map tl_orderLineId (ticketLines d'))"
      using f by (auto simp: is_fireable_def count_rows_zero)
    then have "ol_id l \<notin> set (map tl_orderLineId (ticketLines d))" using sub by blast
    then have "is_fireable d orderId l"
      using f item by (simp add: is_fireable_def count_rows_zero) (metis imageI)
    then have "ol_id l \<in> set (map tl_orderLineId (ticketLines d'))" using sub l by auto
    with none show False by contradiction
  qed
  then have "map fst (fireable_lines d' orderId) = []"
    using frame by (simp only: fireable_lines_fst) (simp add: filter_empty_conv)
  then show ?thesis using r by simp
qed

text \<open>Firing again fires nothing: right after the hook no line of the order is left to fire, so a second
  call (a repeated send, or settling an order already sent) returns zero and changes nothing.\<close>

theorem fireOnSend_idempotent:
  "fireOnSend e' orderId t' out' (snd (fireOnSend e orderId t out d)) = (0, snd (fireOnSend e orderId t out d))"
  by (simp add: fireOnSend_def [of e'] fireOnSend_exhausts)

lemma fireOnSend_nextId: "nextId d \<le> nextId (snd (fireOnSend e orderId t out d))"
proof -
  have one: "nextId d \<le> nextId (add_ticket_line t k b l d)" for l k b d
    by (simp add: add_ticket_line_def take_id_def)
  have lines: "nextId d \<le> nextId (fold (\<lambda>(l, _). add_ticket_line t k b l) ls d)" for ls k b d
  proof (induction ls arbitrary: d)
    case (Cons p ls)
    have "nextId d \<le> nextId (add_ticket_line t k b (fst p) d)" by (rule one)
    also note Cons.IH [of "add_ticket_line t k b (fst p) d"]
    finally show ?case by (simp add: split_def)
  qed simp
  have group: "nextId d \<le> nextId (fire_group e orderId t out g d)" for g d
  proof (cases rule: fire_group_cases [of d orderId g e t out])
    case (add_on x)
    then show ?thesis using lines [of "add_ticket_event e t (tk_id x) e_add_on_fired d"] by (simp add: add_ticket_event_def)
  next
    case fresh
    then show ?thesis using lines [of "open_ticket e orderId t out (fst g) d" "nextId d" 0 "snd g"] by (simp add: open_ticket_def)
  qed
  have "nextId d \<le> nextId (fold (fire_group e orderId t out) gs d)" for gs
  proof (induction gs arbitrary: d)
    case (Cons g gs)
    have "nextId d \<le> nextId (fire_group e orderId t out g d)" by (rule group)
    also note Cons.IH [of "fire_group e orderId t out g d"]
    finally show ?case by simp
  qed simp
  then show ?thesis by (simp add: fireOnSend_def Let_def)
qed

section \<open>Routing stays in the outlet\<close>

definition station_of_outlet :: "db \<Rightarrow> uuid \<Rightarrow> uuid \<Rightarrow> bool" where
  "station_of_outlet d out s \<longleftrightarrow> list_ex (\<lambda>x. st_id x = s \<and> st_outletId x = out \<and> st_deletedAt x = None) (stations d)"

lemma routeStationId_in_outlet:
  "routeStationId d out item (resolveDefaultStationId d t out) = Some s \<Longrightarrow> station_of_outlet d out s"
  by (auto simp: routeStationId_def resolveDefaultStationId_def station_of_outlet_def list_ex_iff
      split: option.splits if_splits dest: find_SomeD find_row_Some)

text \<open>A fired line never reaches another outlet's screen. Each new ticket line sits on a ticket of the
  order that is either unrouted or at a station of the order's own outlet that is not deleted.\<close>

theorem fireOnSend_stays_in_outlet:
  assumes "fireOnSend e orderId t out d = (n, d')"
  shows "\<exists>new. ticketLines d' = ticketLines d @ new \<and>
    (\<forall>x \<in> set new. \<exists>k \<in> set (tickets d'). tk_id k = tl_ticketId x \<and> tk_orderId k = orderId \<and>
       (\<forall>s. tk_stationId k = Some s \<longrightarrow> station_of_outlet d out s))"
proof -
  obtain new where new: "ticketLines d' = ticketLines d @ new"
    "\<forall>x \<in> set new. \<exists>k \<in> set (tickets d'). \<exists>g \<in> set (routed_groups d orderId t out). tk_id k = tl_ticketId x \<and>
       tk_orderId k = orderId \<and> tk_stationId k = fst g"
    using fireOnSend_fired(2) [OF assms] unfolding fired_def by blast
  have "station_of_outlet d out s" if "g \<in> set (routed_groups d orderId t out)" "fst g = Some s" for g s
  proof -
    have "Some s \<in> set (map fst (routed_groups d orderId t out))" using that by force
    then have "Some s \<in> (\<lambda>(l, item). routeStationId d out (mi_stationId item) (resolveDefaultStationId d t out)) `
        set (fireable_lines d orderId)"
      by (simp only: routed_groups_def group_by_keys)
    then obtain p :: "order_line \<times> menu_item" where "Some s = (case p of (l, item) \<Rightarrow> routeStationId d out (mi_stationId item) (resolveDefaultStationId d t out))"
      by (elim imageE)
    then have "routeStationId d out (mi_stationId (snd p)) (resolveDefaultStationId d t out) = Some s"
      by (simp add: split_def)
    then show ?thesis by (rule routeStationId_in_outlet)
  qed
  then have "\<exists>k \<in> set (tickets d'). tk_id k = tl_ticketId x \<and> tk_orderId k = orderId \<and>
       (\<forall>s. tk_stationId k = Some s \<longrightarrow> station_of_outlet d out s)" if "x \<in> set new" for x
    using new(2) that by fastforce
  with new(1) show ?thesis by blast
qed

theorem fireOnSend_stays_in_outlet_witness:
  "\<exists>new. ticketLines (snd (fireOnSend s_env 80 1 2 s_db_order)) = ticketLines s_db_order @ new \<and> length new = 2 \<and>
    (\<forall>x \<in> set new. \<exists>k \<in> set (tickets (snd (fireOnSend s_env 80 1 2 s_db_order))). tk_id k = tl_ticketId x \<and>
       (\<forall>s. tk_stationId k = Some s \<longrightarrow> station_of_outlet s_db_order 2 s))"
proof -
  obtain n d' where r: "fireOnSend s_env 80 1 2 s_db_order = (n, d')" by fastforce
  have "length (map tl_orderLineId (ticketLines d')) = 2"
    using fire_sample unfolding r by simp
  then have "length (ticketLines d') = 2" by simp
  moreover have "ticketLines s_db_order = []" by (simp add: sample_defs)
  ultimately show ?thesis using fireOnSend_stays_in_outlet [OF r] r by (metis append_Nil snd_conv)
qed

section \<open>The ticket state machine\<close>

inductive kitchen_step :: "db \<Rightarrow> db \<Rightarrow> bool" where
  step_fire: "fireOnSend e orderId t out d = (n, d') \<Longrightarrow> kitchen_step d d'"
| step_bump: "bump e staff ticketId d = Inr (v, d') \<Longrightarrow> kitchen_step d d'"
| step_recall: "recall e staff ticketId d = Inr (v, d') \<Longrightarrow> kitchen_step d d'"
| step_refire: "refire e staff ticketId d = Inr (v, d') \<Longrightarrow> kitchen_step d d'"

definition recalls :: "db \<Rightarrow> uuid \<Rightarrow> int" where
  "recalls d k = int (count_rows (\<lambda>v. te_ticketId v = k \<and> te_type v = e_recalled) (ticketEvents d))"

definition kitchen_inv :: "db \<Rightarrow> bool" where
  "kitchen_inv d \<longleftrightarrow>
     (\<forall>t \<in> set (tickets d). tk_id t < nextId d \<and> tk_recallCount t = recalls d (tk_id t) \<and>
        (tk_status t = bumped \<longrightarrow> tk_bumpedAt t \<noteq> None)) \<and>
     (\<forall>v \<in> set (ticketEvents d). te_ticketId v < nextId d)"

lemma add_ticket_event_fields [simp]:
  "tickets (add_ticket_event e t k ty d) = tickets d" "nextId (add_ticket_event e t k ty d) = nextId d"
  "ticketEvents (add_ticket_event e t k ty d) = ticketEvents d @
     [\<lparr>te_tenantId = t, te_ticketId = k, te_type = ty, te_occurredAt = now e\<rparr>]"
  by (simp_all add: add_ticket_event_def)

lemma recalls_tickets [simp]: "recalls (d\<lparr>tickets := ts\<rparr>) j = recalls d j"
  by (simp add: recalls_def)

lemma recalls_add_event:
  "recalls (add_ticket_event e t k ty d) j = recalls d j + (if j = k \<and> ty = e_recalled then 1 else 0)"
  by (simp add: recalls_def add_ticket_event_def count_rows_def)

lemma add_ticket_lines_inv: "kitchen_inv d \<Longrightarrow> kitchen_inv (fold (\<lambda>(l, _). add_ticket_line t k b l) ls d)"
proof (induction ls arbitrary: d)
  case Nil
  then show ?case by simp
next
  case (Cons p ls)
  have "kitchen_inv (add_ticket_line t k b (fst p) d)"
    using Cons.prems by (auto simp: kitchen_inv_def add_ticket_line_def take_id_def recalls_def)
  with Cons.IH show ?case by (simp add: split_def)
qed

lemma fire_group_inv:
  assumes "kitchen_inv d"
  shows "kitchen_inv (fire_group e orderId t out g d)"
proof -
  have none: "recalls d (nextId d) = 0"
    using assms by (auto simp: kitchen_inv_def recalls_def count_rows_zero)
  show ?thesis
  proof (cases rule: fire_group_cases [of d orderId g e t out])
    case (add_on x)
    have "kitchen_inv (add_ticket_event e t (tk_id x) e_add_on_fired d)"
      using assms add_on(1) by (auto simp: kitchen_inv_def recalls_add_event)
    with add_on(4) show ?thesis by (simp add: add_ticket_lines_inv)
  next
    case fresh
    have "kitchen_inv (open_ticket e orderId t out (fst g) d)"
      using assms none by (auto simp: kitchen_inv_def recalls_def open_ticket_def)
    with fresh show ?thesis by (simp add: add_ticket_lines_inv)
  qed
qed

lemma fireOnSend_inv: "kitchen_inv d \<Longrightarrow> fireOnSend e orderId t out d = (n, d') \<Longrightarrow> kitchen_inv d'"
proof -
  have "kitchen_inv d \<Longrightarrow> kitchen_inv (fold (fire_group e orderId t out) gs d)" for gs
    by (induction gs arbitrary: d) (auto simp: fire_group_inv)
  then show "kitchen_inv d \<Longrightarrow> fireOnSend e orderId t out d = (n, d') \<Longrightarrow> kitchen_inv d'"
    by (auto simp: fireOnSend_def Let_def split: if_splits)
qed

lemma ticket_update_inv:
  assumes "kitchen_inv d" and "loadTicket d t k = Inr x"
    and "\<And>x. tk_id (f x) = tk_id x"
    and "\<And>x. tk_recallCount (f x) = tk_recallCount x + (if ty = e_recalled then 1 else 0)"
    and "\<And>x. tk_status (f x) = bumped \<Longrightarrow> tk_bumpedAt (f x) \<noteq> None"
  shows "kitchen_inv (add_ticket_event e t k ty (d\<lparr>tickets := update_rows (\<lambda>x. tk_id x = k) f (tickets d)\<rparr>))"
proof -
  have "k < nextId d" using assms(1) ticket_loader.load_member [OF assms(2)] by (auto simp: kitchen_inv_def)
  with assms(1,3-5) show ?thesis
    by (auto simp: kitchen_inv_def recalls_add_event set_update_rows split: if_splits)
qed

interpretation kitchen_machine: step_invariant kitchen_step kitchen_inv
proof
  fix s s' assume inv: "kitchen_inv s" and st: "kitchen_step s s'"
  from st show "kitchen_inv s'"
  proof cases
    case step_fire
    with inv show ?thesis by (rule fireOnSend_inv)
  next
    case (step_bump e staff ticketId v)
    with inv show ?thesis by (auto simp: bump_def Let_def result_simps split: if_splits intro!: ticket_update_inv)
  next
    case (step_recall e staff ticketId v)
    with inv show ?thesis by (auto simp: recall_def Let_def result_simps split: if_splits intro!: ticket_update_inv)
  next
    case (step_refire e staff ticketId v)
    with inv show ?thesis by (auto simp: refire_def Let_def result_simps intro!: ticket_update_inv)
  qed
qed

text \<open>C8: The recall counter is the log's. However tickets are fired, bumped, recalled and refired, in every
  state reached the stored recall count of a ticket is the number of \<open>recalled\<close> events in the
  append-only log, and a bumped ticket has its bump time.\<close>

theorem recall_count_is_log_count:
  assumes "kitchen_step\<^sup>*\<^sup>* d d'" and "kitchen_inv d" and "t \<in> set (tickets d')"
  shows "tk_recallCount t = recalls d' (tk_id t) \<and> (tk_status t = bumped \<longrightarrow> tk_bumpedAt t \<noteq> None)"
  using kitchen_machine.reachable_keeps [OF assms(1,2)] assms(3) by (auto simp: kitchen_inv_def)

lemmas action_eval = bump_def recall_def refire_def loadTicket_def find_row_def Let_def add_ticket_event_def
  update_rows_def BUMPED_WINDOW_MS_def LIVE_WINDOW_MS_def sample_defs

definition s_ticket :: ticket where
  "s_ticket = \<lparr>tk_id = 90, tk_tenantId = 1, tk_outletId = 2, tk_orderId = 80, tk_stationId = None, tk_status = queued,
     tk_recallCount = 0, tk_firedAt = 999999999, tk_bumpedAt = None, tk_recalledAt = None\<rparr>"

definition s_db_ticket :: db where
  "s_db_ticket = s_db_order\<lparr>tickets := [s_ticket]\<rparr>"

definition after :: "(ticket_view \<times> db) result \<Rightarrow> db" where
  "after r = (case r of Inl _ \<Rightarrow> empty_db | Inr (_, d) \<Rightarrow> d)"

lemma bump_recall_sample:
  "\<exists>v d1 w d2. bump s_env s_cashier 90 s_db_ticket = Inr (v, d1) \<and> recall s_env s_cashier 90 d1 = Inr (w, d2) \<and>
     tickets d2 = [s_ticket\<lparr>tk_recallCount := 1, tk_bumpedAt := Some 1000000000, tk_recalledAt := Some 1000000000\<rparr>]"
  by (simp add: action_eval s_db_ticket_def s_ticket_def)

theorem recall_count_is_log_count_witness:
  "\<exists>d' t. kitchen_step\<^sup>*\<^sup>* s_db_ticket d' \<and> t \<in> set (tickets d') \<and> tk_recallCount t = 1 \<and> recalls d' (tk_id t) = 1"
proof -
  obtain v d1 w d2 where r: "bump s_env s_cashier 90 s_db_ticket = Inr (v, d1)" "recall s_env s_cashier 90 d1 = Inr (w, d2)"
    and t: "tickets d2 = [s_ticket\<lparr>tk_recallCount := 1, tk_bumpedAt := Some 1000000000, tk_recalledAt := Some 1000000000\<rparr>]"
    using bump_recall_sample by blast
  have st: "kitchen_step\<^sup>*\<^sup>* s_db_ticket d2"
    using step_bump [OF r(1)] step_recall [OF r(2)] by simp
  have "kitchen_inv s_db_ticket"
    by (simp add: kitchen_inv_def recalls_def count_rows_def s_db_ticket_def s_ticket_def sample_defs)
  from recall_count_is_log_count [OF st this, of "hd (tickets d2)"] t st show ?thesis
    by (intro exI [of _ d2] exI [of _ "hd (tickets d2)"]) simp
qed

text \<open>A recall is granted exactly for a bumped ticket of the tenant that was bumped within the last twelve
  hours; it puts the ticket back into the queue, keeps its fire time, and adds one to its count.\<close>

theorem recall_granted:
  assumes "recall e staff k d = Inr (v, d')"
  shows "\<exists>t. find_row tk_id k (tickets d) = Some t \<and> tk_tenantId t = pp_tenantId staff \<and> tk_status t = bumped \<and>
    (\<forall>b. tk_bumpedAt t = Some b \<longrightarrow> now e - b \<le> 12 * 60 * 60 * 1000) \<and>
    find_row tk_id k (tickets d') = Some (t\<lparr>tk_status := queued, tk_recallCount := tk_recallCount t + 1, tk_recalledAt := Some (now e)\<rparr>) \<and>
    tw_recalled v = (tk_recallCount t + 1 > 0)"
proof -
  obtain t where t: "loadTicket d (pp_tenantId staff) k = Inr t" "tk_status t = bumped"
    "\<not> (case tk_bumpedAt t of None \<Rightarrow> False | Some b \<Rightarrow> now e - b > BUMPED_WINDOW_MS)"
    and d': "tickets d' = update_rows (\<lambda>x. tk_id x = k)
       (\<lambda>x. x\<lparr>tk_status := queued, tk_recallCount := tk_recallCount x + 1, tk_recalledAt := Some (now e)\<rparr>) (tickets d)"
    and v: "tw_recalled v = (tk_recallCount t + 1 > 0)"
    using assms by (auto simp: recall_def result_simps Let_def buildTicketView_def split: if_splits)
  have f: "find_row tk_id k (tickets d) = Some t" "tk_tenantId t = pp_tenantId staff"
    using ticket_loader.load_sound [OF t(1)] by simp_all
  have "\<forall>b. tk_bumpedAt t = Some b \<longrightarrow> now e - b \<le> 12 * 60 * 60 * 1000"
    using t(3) by (auto simp: BUMPED_WINDOW_MS_def LIVE_WINDOW_MS_def)
  with f t v show ?thesis by (simp add: d' find_row_update_key)
qed

theorem recall_granted_witness:
  "\<exists>v d'. recall s_env s_cashier 90 (after (bump s_env s_cashier 90 s_db_ticket)) = Inr (v, d') \<and>
     (\<exists>t. find_row tk_id 90 (tickets d') = Some t \<and> tk_status t = queued)"
proof -
  obtain v d1 w d2 where r: "bump s_env s_cashier 90 s_db_ticket = Inr (v, d1)" "recall s_env s_cashier 90 d1 = Inr (w, d2)"
    using bump_recall_sample by blast
  from recall_granted [OF r(2)] r show ?thesis by (fastforce simp: after_def)
qed

text \<open>
  The marker \<open>recalled\<close> means "queued and recalled before", not "queued because of a recall": a
  ticket that was recalled, bumped again and then refired is shown as recalled, although
  refiring is meant to leave no such marker.
\<close>

lemma refire_shows_recalled:
  "\<exists>v d'. refire s_env s_cashier 90
      (after (bump s_env s_cashier 90 (after (recall s_env s_cashier 90 (after (bump s_env s_cashier 90 s_db_ticket))))))
    = Inr (v, d') \<and> tw_recalled v"
  by (simp add: action_eval s_db_ticket_def s_ticket_def after_def buildTicketView_def)

end
