(* ===== verification/BillCore.thy ===== *)
theory BillCore
  imports Kitchen
begin

text \<open>
  The money path shared by the till and the guest checkout, \<^verbatim>\<open>src/src/pos/bills/bill-core.ts\<close>: the
  tenant's tax profile, the totals of an open bill, the creation of a bill, the insertion of a
  tender, the commit of a finalisation (tender check, cash round-off, gapless number, kitchen
  backstop, order closed) and the invoice view.

  A bill with its tenders is a pair. \<open>commitFinalize\<close> receives the bill its caller read earlier, so
  its compare-and-swap on the status stays in the model. The unique index on the bill number and
  the CHECK constraints on tenders are modelled as errors of the insert or update.
\<close>

section \<open>Tax profile\<close>

record tenant_tax_profile =
  tp_country :: tax_country
  tp_taxProfile :: string
  tp_compositionScheme :: bool
  tp_gstRegistered :: bool
  tp_gstRatePercent :: "rat option"
  tp_gstSplitRounding :: gst_split_rounding
  tp_legalEntityName :: "string option"
  tp_registrationNumber :: "string option"
  tp_fssaiLicense :: "string option"
  tp_brandingTokens :: json
  tp_contactPhone :: string
  tp_contactEmail :: string

definition readReceiptFooter :: "json \<Rightarrow> string option" where
  "readReceiptFooter brandingTokens =
    (case brandingTokens of
       JObj kvs \<Rightarrow> (case map_of kvs ''receiptFooter'' of Some (JStr s) \<Rightarrow> Some s | _ \<Rightarrow> None)
     | _ \<Rightarrow> None)"

definition loadTenantTaxProfile :: "db \<Rightarrow> uuid \<Rightarrow> tenant_tax_profile result" where
  "loadTenantTaxProfile d tenantId =
    (case find_row tn_id tenantId (tenants d) of
       None \<Rightarrow> Inl (InternalError ''P2025'')
     | Some t \<Rightarrow>
       (let reg = find_row tx_tenantId tenantId (taxRegistrations d)
        in Inr \<lparr>tp_country = tn_country t,
             tp_taxProfile = nullish (map_option tx_taxProfile reg) [],
             tp_compositionScheme = nullish (map_option tx_compositionScheme reg) False,
             tp_gstRegistered = nullish (map_option tx_gstRegistered reg) True,
             tp_gstRatePercent = (case reg of None \<Rightarrow> None | Some r \<Rightarrow> tx_gstRatePercent r),
             tp_gstSplitRounding = nullish (map_option tx_gstSplitRounding reg) exact_total,
             tp_legalEntityName = Some (nullish (map_option tx_legalEntityName reg) (tn_name t)),
             tp_registrationNumber = map_option tx_registrationNumber reg,
             tp_fssaiLicense = (case reg of None \<Rightarrow> None | Some r \<Rightarrow> tx_fssaiLicense r),
             tp_brandingTokens = tn_brandingTokens t,
             tp_contactPhone = tn_contactPhone t,
             tp_contactEmail = tn_contactEmail t\<rparr>))"

definition toStoredTaxBreakdown :: "tax_result \<Rightarrow> stored_tax_breakdown" where
  "toStoredTaxBreakdown tax =
     \<lparr>sb_lines = tr_breakdown tax, sb_notes = tr_notes tax, sb_gstSplitRounding = tr_gstSplitRounding tax\<rparr>"

definition readStoredTaxBreakdown :: "stored_tax_breakdown option \<Rightarrow> stored_tax_breakdown" where
  "readStoredTaxBreakdown tb = nullish tb \<lparr>sb_lines = [], sb_notes = [], sb_gstSplitRounding = None\<rparr>"

definition computeTotalMinor :: "int \<Rightarrow> int \<Rightarrow> int \<Rightarrow> bool \<Rightarrow> int" where
  "computeTotalMinor subtotalMinor taxMinor discountMinor pricesIncludeTax =
     (if pricesIncludeTax then subtotalMinor - discountMinor else subtotalMinor + taxMinor - discountMinor)"

section \<open>Views\<close>

type_synonym bill_with_tenders = "bill \<times> tender list"

record bill_view =
  bw_id :: uuid
  bw_tenantId :: uuid
  bw_outletId :: uuid
  bw_orderId :: uuid
  bw_billNumber :: "int option"
  bw_subtotalMinor :: int
  bw_taxMinor :: int
  bw_taxBreakdown :: "tax_breakdown_line list"
  bw_gstSplitRounding :: "gst_split_rounding option"
  bw_pricesIncludeTax :: bool
  bw_discountMinor :: "int option"
  bw_discountReason :: "string option"
  bw_totalMinor :: int
  bw_roundOffMinor :: "int option"
  bw_status :: bill_status
  bw_createdByStaffId :: "uuid option"
  bw_createdAt :: date
  bw_finalizedByStaffId :: "uuid option"
  bw_finalizedAt :: "date option"
  bw_tenders :: "tender_view list"

definition toTenderView :: "tender \<Rightarrow> tender_view" where
  "toTenderView t =
    \<lparr>tv_id = td_id t, tv_method = td_method t, tv_amountMinor = td_amountMinor t,
     tv_paymentIntentId = td_paymentIntentId t, tv_riskAcknowledged = td_riskAcknowledged t,
     tv_reference = td_reference t, tv_tenderedMinor = td_tenderedMinor t,
     tv_changeMinor = map_option (\<lambda>m. m - td_amountMinor t) (td_tenderedMinor t),
     tv_createdAt = td_createdAt t\<rparr>"

definition bill_total :: "bill \<Rightarrow> int" where
  "bill_total b = computeTotalMinor (b_subtotalMinor b) (b_taxMinor b) (nullish (b_discountMinor b) 0) (b_pricesIncludeTax b)"

definition toBillView :: "bill_with_tenders \<Rightarrow> bill_view" where
  "toBillView bt = (case bt of (b, ts) \<Rightarrow>
    \<lparr>bw_id = b_id b, bw_tenantId = b_tenantId b, bw_outletId = b_outletId b, bw_orderId = b_orderId b,
     bw_billNumber = b_billNumber b, bw_subtotalMinor = b_subtotalMinor b, bw_taxMinor = b_taxMinor b,
     bw_taxBreakdown = sb_lines (readStoredTaxBreakdown (b_taxBreakdown b)),
     bw_gstSplitRounding = sb_gstSplitRounding (readStoredTaxBreakdown (b_taxBreakdown b)),
     bw_pricesIncludeTax = b_pricesIncludeTax b, bw_discountMinor = b_discountMinor b,
     bw_discountReason = b_discountReason b, bw_totalMinor = bill_total b, bw_roundOffMinor = b_roundOffMinor b,
     bw_status = b_status b, bw_createdByStaffId = b_createdByStaffId b, bw_createdAt = b_createdAt b,
     bw_finalizedByStaffId = b_finalizedByStaffId b, bw_finalizedAt = b_finalizedAt b,
     bw_tenders = map toTenderView ts\<rparr>)"

section \<open>Loading and totals\<close>

definition bill_tenders :: "db \<Rightarrow> uuid \<Rightarrow> tender list" where
  "bill_tenders d billId = filter (\<lambda>t. td_billId t = billId) (tenders d)"

definition loadBillRow :: "db \<Rightarrow> uuid \<Rightarrow> uuid \<Rightarrow> bill result" where
  "loadBillRow d tenantId billId =
    (case find_row b_id billId (bills d) of
       None \<Rightarrow> Inl (NotFound ''not_found'')
     | Some b \<Rightarrow> if b_tenantId b \<noteq> tenantId then Inl (NotFound ''not_found'') else Inr b)"

definition loadBill :: "db \<Rightarrow> uuid \<Rightarrow> uuid \<Rightarrow> bill_with_tenders result" where
  "loadBill d tenantId billId =
     r_bind (loadBillRow d tenantId billId) (\<lambda>b. Inr (b, bill_tenders d (b_id b)))"

definition line_unit :: "order_line \<Rightarrow> int" where
  "line_unit l = ol_unitPriceMinor l + sum_rows om_priceMinor (ol_modifiers l)"

definition live_lines :: "db \<Rightarrow> uuid \<Rightarrow> order_line list" where
  "live_lines d orderId = filter (\<lambda>l. ol_orderId l = orderId \<and> ol_voidedAt l = None) (orderLines d)"

definition computeSubtotal :: "db \<Rightarrow> uuid \<Rightarrow> int" where
  "computeSubtotal d orderId = foldl (\<lambda>subtotal l. subtotal + ol_quantity l * line_unit l) 0 (live_lines d orderId)"

definition computeTaxOn :: "db \<Rightarrow> uuid \<Rightarrow> int \<Rightarrow> tax_result result" where
  "computeTaxOn d tenantId taxableMinor =
    r_bind (loadTenantTaxProfile d tenantId) (\<lambda>c. Inr (computeTax
      \<lparr>p_country = tp_country c, p_taxProfile = tp_taxProfile c, p_compositionScheme = tp_compositionScheme c,
       p_gstRegistered = tp_gstRegistered c, p_subtotalMinor = taxableMinor, p_gstRatePercent = tp_gstRatePercent c,
       p_gstSplitRounding = Some (tp_gstSplitRounding c)\<rparr>))"

definition computeBillTotals :: "db \<Rightarrow> uuid \<Rightarrow> uuid \<Rightarrow> (int \<times> tax_result) result" where
  "computeBillTotals d tenantId orderId =
    (let subtotalMinor = computeSubtotal d orderId
     in r_bind (computeTaxOn d tenantId subtotalMinor) (\<lambda>tax. Inr (subtotalMinor, tax)))"

definition set_totals :: "int \<Rightarrow> tax_result \<Rightarrow> bill \<Rightarrow> bill" where
  "set_totals subtotalMinor tax b =
     b\<lparr>b_subtotalMinor := subtotalMinor, b_taxMinor := tr_taxMinor tax,
       b_taxBreakdown := Some (toStoredTaxBreakdown tax), b_pricesIncludeTax := tr_pricesIncludeTax tax\<rparr>"

definition refreshOpenBillTotals :: "bill_with_tenders \<Rightarrow> db \<Rightarrow> (bill_with_tenders \<times> db) result" where
  "refreshOpenBillTotals bt d = (case bt of (b, ts) \<Rightarrow>
    if b_status b \<noteq> b_open then Inr ((b, ts), d)
    else r_bind (computeBillTotals d (b_tenantId b) (b_orderId b)) (\<lambda>(subtotalMinor, tax).
      if subtotalMinor = b_subtotalMinor b \<and> tr_taxMinor tax = b_taxMinor b \<and>
         tr_gstSplitRounding tax = sb_gstSplitRounding (readStoredTaxBreakdown (b_taxBreakdown b))
      then Inr ((b, ts), d)
      else let d1 = d\<lparr>bills := update_rows (\<lambda>x. b_id x = b_id b) (set_totals subtotalMinor tax) (bills d)\<rparr>
           in (case find_row b_id (b_id b) (bills d1) of
                 None \<Rightarrow> Inl (InternalError ''P2025'')
               | Some b1 \<Rightarrow> Inr ((b1, bill_tenders d1 (b_id b)), d1))))"

section \<open>Creating a bill\<close>

record create_bill_params =
  cp_tenantId :: uuid
  cp_outletId :: uuid
  cp_orderId :: uuid
  cp_createdByStaffId :: "uuid option"
  cp_orderClosed :: bool

text \<open>
  The insert cannot meet the unique index on the order: the lookup that precedes it ran in the
  same transaction and transactions are serial here, so the raced branch of the
  source has no counterpart.
\<close>

definition createOrGetBillRecord :: "env \<Rightarrow> create_bill_params \<Rightarrow> db \<Rightarrow> ((bill_with_tenders \<times> bool) \<times> db) result" where
  "createOrGetBillRecord e params d =
    (case find_row b_orderId (cp_orderId params) (bills d) of
       Some existing \<Rightarrow>
         r_bind (refreshOpenBillTotals (existing, bill_tenders d (b_id existing)) d) (\<lambda>(bt, d1). Inr ((bt, False), d1))
     | None \<Rightarrow>
         if cp_orderClosed params then Inl (Conflict ''conflict'')
         else r_bind (computeBillTotals d (cp_tenantId params) (cp_orderId params)) (\<lambda>(subtotalMinor, tax).
           let (i, d1) = take_id d;
               b = \<lparr>b_id = i, b_tenantId = cp_tenantId params, b_outletId = cp_outletId params,
                    b_orderId = cp_orderId params, b_billNumber = None, b_subtotalMinor = subtotalMinor,
                    b_taxMinor = tr_taxMinor tax, b_taxBreakdown = Some (toStoredTaxBreakdown tax),
                    b_pricesIncludeTax = tr_pricesIncludeTax tax, b_discountMinor = None, b_discountReason = None,
                    b_roundOffMinor = None, b_status = b_open, b_createdByStaffId = cp_createdByStaffId params,
                    b_createdAt = now e, b_finalizedByStaffId = None, b_finalizedAt = None\<rparr>
           in Inr (((b, []), True), d1\<lparr>bills := bills d1 @ [b]\<rparr>)))"

section \<open>Tenders\<close>

record tender_params =
  tq_tenantId :: uuid
  tq_billId :: uuid
  tq_method :: tender_method
  tq_amountMinor :: int
  tq_paymentIntentId :: "uuid option"
  tq_riskAcknowledged :: bool
  tq_reference :: "string option"
  tq_tenderedMinor :: "int option"

text \<open>The CHECK constraints of the tenders table.\<close>

definition tender_checks :: "tender \<Rightarrow> bool" where
  "tender_checks t \<longleftrightarrow>
     (td_method t \<in> {cash, upi_manual, external}) = (td_paymentIntentId t = None) \<and>
     (td_method t = external) = (td_reference t \<noteq> None) \<and>
     (case td_tenderedMinor t of None \<Rightarrow> True | Some m \<Rightarrow> td_method t = cash \<and> m \<ge> td_amountMinor t)"

definition createTenderRecord :: "env \<Rightarrow> tender_params \<Rightarrow> db \<Rightarrow> (tender \<times> db) result" where
  "createTenderRecord e q d =
    (let (i, d1) = take_id d;
         t = \<lparr>td_id = i, td_tenantId = tq_tenantId q, td_billId = tq_billId q, td_method = tq_method q,
              td_amountMinor = tq_amountMinor q, td_paymentIntentId = tq_paymentIntentId q,
              td_riskAcknowledged = tq_riskAcknowledged q, td_reference = tq_reference q,
              td_tenderedMinor = tq_tenderedMinor q, td_createdAt = now e\<rparr>
     in if \<not> tender_checks t then Inl (InternalError ''23514'')
        else if td_paymentIntentId t \<noteq> None \<and> list_ex (\<lambda>x. td_paymentIntentId x = td_paymentIntentId t) (tenders d1)
        then Inl (InternalError ''P2002'')
        else Inr (t, d1\<lparr>tenders := tenders d1 @ [t]\<rparr>))"

section \<open>Finalising\<close>

definition currencyForCountry :: "tax_country \<Rightarrow> string" where
  "currencyForCountry c = (if c = IN then ''INR'' else ''AUD'')"

definition cashRoundOffMinor :: "int \<Rightarrow> tax_country \<Rightarrow> int" where
  "cashRoundOffMinor dueMinor country =
    (if dueMinor \<le> 0 then 0
     else let unit = (if country = IN then 100 else 5)
          in ((dueMinor * 2 + unit) sdiv (2 * unit)) * unit - dueMinor)"

record commit_finalize_params =
  cf_tenantId :: uuid
  cf_bill :: bill
  cf_discountMinor :: "int option"
  cf_discountReason :: "string option"
  cf_finalizedByStaffId :: "uuid option"

definition pending_intents :: "env \<Rightarrow> db \<Rightarrow> uuid \<Rightarrow> nat" where
  "pending_intents e d billId = count_rows (\<lambda>i. pi_billId i = billId \<and>
     (pi_status i = i_created \<or> pi_status i = i_pending) \<and> pi_expiresAt i > now e) (intents d)"

definition simulated_tenders :: "db \<Rightarrow> uuid \<Rightarrow> nat" where
  "simulated_tenders d billId = count_rows (\<lambda>t. td_billId t = billId \<and>
     (case td_paymentIntentId t of None \<Rightarrow> False
      | Some i \<Rightarrow> (case find_row pi_id i (intents d) of None \<Rightarrow> False | Some x \<Rightarrow> pi_provider x = simulated))) (tenders d)"

text \<open>The tender check: \<open>None\<close> is an exact match, \<open>Some r\<close> a match with the cash part rounded by \<open>r\<close>.\<close>

definition settle_tenders :: "db \<Rightarrow> uuid \<Rightarrow> uuid \<Rightarrow> int \<Rightarrow> int option result" where
  "settle_tenders d tenantId billId totalMinor =
    (let ts = bill_tenders d billId;
         tenderTotal = foldl (\<lambda>s t. s + td_amountMinor t) 0 ts;
         cashMinor = foldl (\<lambda>s t. if td_method t = cash then s + td_amountMinor t else s) 0 ts
     in if tenderTotal = totalMinor then Inr None
        else r_bind
          (if cashMinor > 0
           then (case find_row tn_id tenantId (tenants d) of None \<Rightarrow> Inl (InternalError ''P2025'')
                 | Some t \<Rightarrow> Inr (cashRoundOffMinor (totalMinor - (tenderTotal - cashMinor)) (tn_country t)))
           else Inr 0)
          (\<lambda>cashRoundOff.
             if cashRoundOff = 0 \<or> tenderTotal \<noteq> totalMinor + cashRoundOff then Inl (BadRequest ''tender_mismatch'')
             else Inr (Some cashRoundOff)))"

definition take_bill_number :: "uuid \<Rightarrow> uuid \<Rightarrow> db \<Rightarrow> int \<times> db" where
  "take_bill_number tenantId outletId d =
    (case find_row bc_outletId outletId (billCounters d) of
       None \<Rightarrow> (1, d\<lparr>billCounters := billCounters d @ [\<lparr>bc_tenantId = tenantId, bc_outletId = outletId, bc_lastNumber = 1\<rparr>]\<rparr>)
     | Some c \<Rightarrow> (bc_lastNumber c + 1,
         d\<lparr>billCounters := update_rows (\<lambda>c. bc_outletId c = outletId) (\<lambda>c. c\<lparr>bc_lastNumber := bc_lastNumber c + 1\<rparr>) (billCounters d)\<rparr>))"

definition go_live :: "env \<Rightarrow> uuid \<Rightarrow> db \<Rightarrow> db" where
  "go_live e tenantId d =
    (if list_ex (\<lambda>t. tn_id t = tenantId \<and> tn_status t = provisioning) (tenants d)
     then d\<lparr>tenants := update_rows (\<lambda>t. tn_id t = tenantId \<and> tn_status t = provisioning) (\<lambda>t. t\<lparr>tn_status := t_active\<rparr>) (tenants d),
            auditEvents := auditEvents d @
              [\<lparr>ae_tenantId = tenantId, ae_actorId = None, ae_actorEmail = ''system:first-sale'', ae_approverId = None,
                ae_approverName = None, ae_action = ''tenant.went_live'', ae_reason = ''First sale'', ae_occurredAt = now e\<rparr>]\<rparr>
     else d)"

definition finalize_row ::
  "env \<Rightarrow> commit_finalize_params \<Rightarrow> int \<Rightarrow> int option \<Rightarrow> tax_result option \<Rightarrow> bill \<Rightarrow> bill" where
  "finalize_row e params number roundOff tax b =
    (let b1 = b\<lparr>b_billNumber := Some number, b_discountMinor := cf_discountMinor params,
               b_discountReason := cf_discountReason params, b_roundOffMinor := roundOff\<rparr>;
         b2 = (case tax of None \<Rightarrow> b1
               | Some tx \<Rightarrow> b1\<lparr>b_taxMinor := tr_taxMinor tx, b_taxBreakdown := Some (toStoredTaxBreakdown tx)\<rparr>)
     in b2\<lparr>b_status := b_finalized, b_finalizedByStaffId := cf_finalizedByStaffId params, b_finalizedAt := Some (now e)\<rparr>)"

definition commitFinalize :: "env \<Rightarrow> commit_finalize_params \<Rightarrow> db \<Rightarrow> (bill_with_tenders \<times> db) result" where
  "commitFinalize e params d =
    (let b = cf_bill params in
     if b_status b = b_finalized then Inl (Conflict ''already_finalized'')
     else if pending_intents e d (b_id b) > 0 then Inl (Conflict ''payment_pending'')
     else if \<not> paymentsSimulatorFor e d (b_tenantId b) \<and> simulated_tenders d (b_id b) > 0 then Inl (Conflict ''simulated_tender'')
     else let discountMinor = nullish (cf_discountMinor params) 0 in
       if discountMinor > b_subtotalMinor b then Inl (BadRequest ''validation_failed'')
       else r_bind (if discountMinor > 0
                    then r_bind (computeTaxOn d (cf_tenantId params) (b_subtotalMinor b - discountMinor)) (\<lambda>tx. Inr (Some tx))
                    else Inr None) (\<lambda>tax.
         let taxMinor = (case tax of None \<Rightarrow> b_taxMinor b | Some tx \<Rightarrow> tr_taxMinor tx);
             totalMinor = computeTotalMinor (b_subtotalMinor b) taxMinor discountMinor (b_pricesIncludeTax b)
         in r_bind (settle_tenders d (cf_tenantId params) (b_id b) totalMinor) (\<lambda>roundOff.
           let (number, d1) = take_bill_number (cf_tenantId params) (b_outletId b) d;
               open_bill = (\<lambda>x. b_id x = b_id b \<and> b_status x = b_open)
           in if \<not> list_ex open_bill (bills d1) then Inl (Conflict ''already_finalized'')
              else if list_ex (\<lambda>x. b_tenantId x = b_tenantId b \<and> b_outletId x = b_outletId b \<and> b_billNumber x = Some number) (bills d1)
              then Inl (InternalError ''P2002'')
              else let d2 = d1\<lparr>bills := update_rows open_bill (finalize_row e params number roundOff tax) (bills d1)\<rparr>;
                       d3 = snd (fireOnSend e (b_orderId b) (b_tenantId b) (b_outletId b) d2);
                       d4 = d3\<lparr>orders := update_rows (\<lambda>x. o_id x = b_orderId b) (\<lambda>x. x\<lparr>o_status := o_closed\<rparr>) (orders d3)\<rparr>;
                       d5 = go_live e (cf_tenantId params) d4
                   in r_bind (loadBill d5 (cf_tenantId params) (b_id b)) (\<lambda>bt. Inr (bt, d5)))))"

section \<open>The invoice\<close>

definition invoice_line :: "db \<Rightarrow> order_line list \<Rightarrow> order_line \<Rightarrow> invoice_line_view result" where
  "invoice_line d orderLs l =
    (let children = filter (\<lambda>c. ol_parentLineId c = Some (ol_id l)) orderLs;
         lineTotal = foldl (\<lambda>s c. s + line_unit c * ol_quantity c) (line_unit l * ol_quantity l) children;
         components = map (\<lambda>c. \<lparr>ic_perCombo = of_int (ol_quantity c) / of_int (ol_quantity l),
             ic_itemName = (case line_item d c of None \<Rightarrow> [] | Some i \<Rightarrow> mi_name i),
             ic_extras = filter (\<lambda>s. s \<noteq> []) ((case line_variant d c of None \<Rightarrow> [] | Some v \<Rightarrow> [iv_name v]) @
                 map (\<lambda>m. modifier_name d (om_modifierId m)) (ol_modifiers c))\<rparr>) children
     in if ol_quantity l = 0 then Inl (InternalError ''RangeError'')
        else Inr \<lparr>il_name = (case line_combo d l of
                 Some c \<Rightarrow> cb_name c
               | None \<Rightarrow> (case line_item d l of None \<Rightarrow> [] | Some i \<Rightarrow> mi_name i) @
                         (case line_variant d l of None \<Rightarrow> [] | Some v \<Rightarrow> '' ('' @ iv_name v @ '')'')),
             il_quantity = ol_quantity l, il_unitPriceMinor = lineTotal sdiv ol_quantity l,
             il_lineTotalMinor = lineTotal, il_components = components\<rparr>)"

fun invoice_lines :: "db \<Rightarrow> order_line list \<Rightarrow> order_line list \<Rightarrow> invoice_line_view list result" where
  "invoice_lines d orderLs [] = Inr []"
| "invoice_lines d orderLs (l # ls) =
    r_bind (invoice_line d orderLs l) (\<lambda>v. r_bind (invoice_lines d orderLs ls) (\<lambda>vs. Inr (v # vs)))"

definition note_amount :: "bill \<Rightarrow> credit_note \<Rightarrow> int" where
  "note_amount b n = (if b_pricesIncludeTax b then cn_subtotalMinor n else cn_subtotalMinor n + cn_taxMinor n)"

definition invoice_of ::
  "tenant_tax_profile \<Rightarrow> outlet \<Rightarrow> order \<Rightarrow> tenant \<Rightarrow> credit_note list \<Rightarrow> invoice_line_view list \<Rightarrow> bill_with_tenders \<Rightarrow> invoice_view" where
  "invoice_of c out ord mode creditNs ls bt = (case bt of (b, ts) \<Rightarrow>
    let isFinalized = (b_status b = b_finalized);
        stored = readStoredTaxBreakdown (b_taxBreakdown b);
        isIndia = (tp_country c = IN);
        finalTitle = (if isIndia then (if tp_compositionScheme c then ''Bill of Supply'' else ''Tax Invoice'')
                      else if tp_gstRegistered c then ''Tax Invoice'' else ''Receipt'');
        chargesGst = (isIndia \<and> \<not> tp_compositionScheme c)
    in \<lparr>in_status = b_status b, in_invoiceNumber = (if isFinalized then b_billNumber b else None),
        in_testMode = isTestSale (tn_liveSince mode) (b_finalizedAt b),
        in_title = (if isFinalized then finalTitle else ''Bill''),
        in_issuedAt = (if isFinalized then b_finalizedAt b else None),
        in_currency = currencyForCountry (tp_country c),
        in_seller = \<lparr>is_legalEntityName = nullish (tp_legalEntityName c) [], is_phone = tp_contactPhone c,
           is_email = tp_contactEmail c, is_registrationLabel = (if tp_country c = AU then ''ABN'' else ''GSTIN''),
           is_registrationNumber = nullish (tp_registrationNumber c) [], is_fssaiLicense = tp_fssaiLicense c,
           is_outletName = ou_name out, is_outletAddress = ou_address out\<rparr>,
        in_footerMessage = readReceiptFooter (tp_brandingTokens c),
        in_lines = ls,
        in_sacCode = (if chargesGst then Some RESTAURANT_SAC else None),
        in_placeOfSupply = (if chargesGst then placeOfSupplyFromGstin (tp_registrationNumber c) else None),
        in_tokenNumber = o_tokenNumber ord,
        in_subtotalMinor = b_subtotalMinor b, in_discountMinor = b_discountMinor b, in_discountReason = b_discountReason b,
        in_taxBreakdown = sb_lines stored, in_taxMinor = b_taxMinor b, in_totalMinor = bill_total b,
        in_roundOffMinor = b_roundOffMinor b, in_pricesIncludeTax = b_pricesIncludeTax b,
        in_tenders = (if isFinalized then map toTenderView ts else []),
        in_creditNotes = map (\<lambda>n. \<lparr>icn_id = cn_id n, icn_amountMinor = note_amount b n, icn_method = cn_method n,
           icn_reason = cn_reason n, icn_createdAt = cn_createdAt n\<rparr>) creditNs,
        in_notes = sb_notes stored\<rparr>)"

definition buildInvoiceView :: "uuid \<Rightarrow> uuid \<Rightarrow> db \<Rightarrow> (invoice_view \<times> db) result" where
  "buildInvoiceView tenantId billId d =
    r_bind (loadBill d tenantId billId) (\<lambda>bt0.
    r_bind (refreshOpenBillTotals bt0 d) (\<lambda>(bt, d1).
      let b = fst bt; orderLs = live_lines d1 (b_orderId b) in
      (case (find_row ou_id (b_outletId b) (outlets d1), find_row o_id (b_orderId b) (orders d1), find_row tn_id tenantId (tenants d1)) of
         (Some out, Some ord, Some mode) \<Rightarrow>
           r_bind (loadTenantTaxProfile d1 tenantId) (\<lambda>c.
           r_bind (invoice_lines d1 orderLs (filter (\<lambda>l. ol_parentLineId l = None) orderLs)) (\<lambda>ls.
             Inr (invoice_of c out ord mode (filter (\<lambda>n. cn_originalBillId n = b_id b) (creditNotes d1)) ls bt, d1)))
       | _ \<Rightarrow> Inl (InternalError ''P2025''))))"

section \<open>Elementary facts\<close>

interpretation bill_loader: scoped_loader loadBillRow bills b_id b_tenantId
  by unfold_locales (auto simp: loadBillRow_def split: option.splits if_splits)

lemma loadBill_Inr:
  "loadBill d t k = Inr (b, ts) \<longleftrightarrow> loadBillRow d t k = Inr b \<and> ts = bill_tenders d (b_id b)"
  by (auto simp: loadBill_def result_simps)

lemma loadBill_found:
  "loadBill d t k = Inr (b, ts) \<Longrightarrow>
    find_row b_id k (bills d) = Some b \<and> b \<in> set (bills d) \<and> b_id b = k \<and> b_tenantId b = t \<and> ts = bill_tenders d k"
  using bill_loader.load_member [of d t k b] bill_loader.load_sound [of d t k b] by (auto simp: loadBill_Inr)

lemma computeSubtotal_sum: "computeSubtotal d orderId = sum_rows (\<lambda>l. ol_quantity l * line_unit l) (live_lines d orderId)"
  by (simp add: computeSubtotal_def foldl_sum_rows)

definition tender_sum :: "db \<Rightarrow> uuid \<Rightarrow> int" where
  "tender_sum d billId = sum_rows td_amountMinor (bill_tenders d billId)"

definition cash_sum :: "db \<Rightarrow> uuid \<Rightarrow> int" where
  "cash_sum d billId = sum_rows td_amountMinor (filter (\<lambda>t. td_method t = cash) (bill_tenders d billId))"

lemma foldl_cash_sum:
  "foldl (\<lambda>s t. if td_method t = cash then s + td_amountMinor t else s) a ts =
     a + sum_rows td_amountMinor (filter (\<lambda>t. td_method t = cash) ts)"
  by (induction ts arbitrary: a) auto

text \<open>Cash rounding. For an amount due the round-off moves it to a whole rupee or a five-cent step,
  by at most half a step, halves upwards; nothing due, nothing rounded.\<close>

theorem cashRoundOffMinor_nearest:
  "(if due \<le> 0 then cashRoundOffMinor due c = 0
    else let unit = (if c = IN then 100 else 5); r = cashRoundOffMinor due c
         in (due + r) mod unit = 0 \<and> - unit < 2 * r \<and> 2 * r \<le> unit)"
proof (cases "due \<le> 0")
  case True
  then show ?thesis by (simp add: cashRoundOffMinor_def)
next
  case False
  define u :: int where "u = (if c = IN then 100 else 5)"
  have u: "0 < u" by (simp add: u_def)
  define q where "q = (due * 2 + u) div (2 * u)"
  have "cashRoundOffMinor due c = q * u - due"
    using False u by (simp add: cashRoundOffMinor_def Let_def u_def [symmetric] q_def sdiv_pos)
  moreover have "q * (2 * u) \<le> due * 2 + u" "due * 2 + u < q * (2 * u) + 2 * u"
    using u div_mult_mod_eq [of "due * 2 + u" "2 * u"] pos_mod_sign [of "2 * u" "due * 2 + u"]
      pos_mod_bound [of "2 * u" "due * 2 + u"] unfolding q_def by linarith+
  moreover have "q * (2 * u) = 2 * (q * u)" by simp
  ultimately show ?thesis using False
    by (simp add: Let_def u_def [symmetric])
qed

definition last_bill_number :: "uuid \<Rightarrow> db \<Rightarrow> int" where
  "last_bill_number outletId d =
     (case find_row bc_outletId outletId (billCounters d) of None \<Rightarrow> 0 | Some c \<Rightarrow> bc_lastNumber c)"

interpretation bill_numbers: gapless_series "take_bill_number t out" "last_bill_number out"
proof unfold_locales
  fix d :: db
  show "last_bill_number out d < fst (take_bill_number t out d)"
    by (auto simp: take_bill_number_def last_bill_number_def split: option.splits)
  show "last_bill_number out (snd (take_bill_number t out d)) = fst (take_bill_number t out d)"
    by (auto simp: take_bill_number_def last_bill_number_def find_row_append find_row_Cons find_row_update_key split: option.splits)
  show "fst (take_bill_number t out d) = last_bill_number out d + 1"
    by (auto simp: take_bill_number_def last_bill_number_def split: option.splits)
qed

lemma find_row_update_ne:
  "k \<noteq> j \<Longrightarrow> (\<And>r. key (f r) = key r) \<Longrightarrow> find_row key k (update_rows (\<lambda>r. key r = j) f rows) = find_row key k rows"
  by (induction rows) (auto simp: update_rows_def find_row_Cons)

lemma last_bill_number_other:
  "out' \<noteq> out \<Longrightarrow> last_bill_number out' (snd (take_bill_number t out d)) = last_bill_number out' d"
  by (cases "find_row bc_outletId out (billCounters d)")
    (simp_all add: take_bill_number_def last_bill_number_def find_row_append find_row_Cons find_row_update_ne split: option.split)

lemma take_bill_number_frame:
  "snd (take_bill_number t out d) = d\<lparr>billCounters := billCounters (snd (take_bill_number t out d))\<rparr>"
  by (simp add: take_bill_number_def split: option.splits)

section \<open>The books\<close>

text \<open>
  What the money tables satisfy in every reachable state. A finalised bill carries a number of its
  outlet's series and its tenders add up to its total plus the stored round-off; an open one has no
  number, discount or round-off; there is one bill per order; and the finalised bills of an
  outlet are as many as the outlet's counter says, with distinct numbers.
\<close>

definition bill_ok :: "db \<Rightarrow> bill \<Rightarrow> bool" where
  "bill_ok d b \<longleftrightarrow>
    (if b_status b = b_finalized
     then (\<exists>n. b_billNumber b = Some n \<and> 1 \<le> n \<and> n \<le> last_bill_number (b_outletId b) d) \<and> b_finalizedAt b \<noteq> None \<and>
          tender_sum d (b_id b) = bill_total b + nullish (b_roundOffMinor b) 0
     else b_billNumber b = None \<and> b_discountMinor b = None \<and> b_roundOffMinor b = None)"

definition finalized_at :: "uuid \<Rightarrow> bill \<Rightarrow> bool" where
  "finalized_at out b \<longleftrightarrow> b_outletId b = out \<and> b_status b = b_finalized"

definition numbers_at :: "uuid \<Rightarrow> db \<Rightarrow> int option list" where
  "numbers_at out d = map b_billNumber (filter (finalized_at out) (bills d))"

definition books_ok :: "db \<Rightarrow> bool" where
  "books_ok d \<longleftrightarrow> keys_ok (nextId d) (map b_id (bills d)) \<and> distinct (map b_orderId (bills d)) \<and>
     (\<forall>b \<in> set (bills d). bill_ok d b) \<and>
     (\<forall>out. int (length (numbers_at out d)) = last_bill_number out d \<and> distinct (numbers_at out d))"

lemma books_ok_empty: "books_ok empty_db"
  by (simp add: books_ok_def empty_db_def keys_ok_def numbers_at_def last_bill_number_def)

lemma books_okD:
  assumes "books_ok d" and "b \<in> set (bills d)"
  shows "bill_ok d b" "find_row b_id (b_id b) (bills d) = Some b" "b_id b < nextId d"
  using assms by (auto simp: books_ok_def keys_ok_def find_row_distinct)

lemma bill_ok_cong:
  assumes "tenders d' = tenders d" and "\<And>out. last_bill_number out d \<le> last_bill_number out d'"
  shows "bill_ok d b \<Longrightarrow> bill_ok d' b"
  using assms by (auto simp: bill_ok_def tender_sum_def bill_tenders_def intro: order_trans split: if_splits)

lemma books_ok_frame:
  assumes "books_ok d" and "bills d' = bills d" and "tenders d' = tenders d" and "billCounters d' = billCounters d"
    and "nextId d \<le> nextId d'"
  shows "books_ok d'"
proof -
  have l: "last_bill_number out d' = last_bill_number out d" for out by (simp add: last_bill_number_def assms(4))
  have "bill_ok d' b" if "b \<in> set (bills d)" for b
    using books_okD(1) [OF assms(1) that] by (rule bill_ok_cong [rotated 2]) (simp_all add: assms(3) l)
  then show ?thesis using assms(1,2,5) l
    by (auto simp: books_ok_def numbers_at_def intro: keys_ok_mono)
qed

text \<open>Rewriting open bills without touching their keys, status or number.\<close>

lemma books_ok_update_open:
  assumes "books_ok d"
    and "\<And>b. b_id (f b) = b_id b \<and> b_orderId (f b) = b_orderId b \<and> b_outletId (f b) = b_outletId b \<and> b_status (f b) = b_status b \<and>
      b_billNumber (f b) = b_billNumber b \<and> b_discountMinor (f b) = b_discountMinor b \<and> b_roundOffMinor (f b) = b_roundOffMinor b"
    and "\<And>b. b \<in> set (bills d) \<Longrightarrow> p b \<Longrightarrow> b_status b = b_open"
  shows "books_ok (d\<lparr>bills := update_rows p f (bills d)\<rparr>)"
proof -
  let ?d = "d\<lparr>bills := update_rows p f (bills d)\<rparr>"
  have l: "last_bill_number out ?d = last_bill_number out d" for out by (simp add: last_bill_number_def)
  have "map b_billNumber (filter (finalized_at out) (update_rows p f bs)) = map b_billNumber (filter (finalized_at out) bs)"
    for out bs using assms(2) by (induction bs) (auto simp: finalized_at_def update_rows_def)
  then have n: "numbers_at out ?d = numbers_at out d" for out by (simp add: numbers_at_def)
  have ok: "bill_ok ?d b" if "bill_ok d b" for b
    using that by (rule bill_ok_cong [rotated 2]) (simp_all add: l)
  have "bill_ok ?d b" if b: "b \<in> set (bills ?d)" for b
  proof -
    obtain c where c: "c \<in> set (bills d)" "b = (if p c then f c else c)"
      using b by (auto simp: set_update_rows)
    show ?thesis
    proof (cases "p c")
      case True
      then have "b_status c = b_open" using assms(3) c by blast
      moreover have "bill_ok d c" using assms(1) c(1) by (rule books_okD)
      ultimately show ?thesis using True c(2) assms(2) [of c] by (simp add: bill_ok_def)
    next
      case False
      with c ok [OF books_okD(1) [OF assms(1) c(1)]] show ?thesis by simp
    qed
  qed
  moreover have "map b_id (bills ?d) = map b_id (bills d)" "map b_orderId (bills ?d) = map b_orderId (bills d)"
    using assms(2) by simp_all
  ultimately show ?thesis using assms(1) l n unfolding books_ok_def by simp
qed

lemma books_ok_new_bill:
  assumes "books_ok d" and "b_status b = b_open" "b_billNumber b = None" "b_discountMinor b = None" "b_roundOffMinor b = None"
    and "b_id b = nextId d" and "b_orderId b \<notin> b_orderId ` set (bills d)"
  shows "books_ok (d\<lparr>nextId := Suc (nextId d), bills := bills d @ [b]\<rparr>)"
proof -
  let ?d = "d\<lparr>nextId := Suc (nextId d), bills := bills d @ [b]\<rparr>"
  have l: "last_bill_number out ?d = last_bill_number out d" for out by (simp add: last_bill_number_def)
  have n: "numbers_at out ?d = numbers_at out d" for out using assms(2) by (simp add: numbers_at_def finalized_at_def)
  have ok: "bill_ok ?d c" if "bill_ok d c" for c
    using that by (rule bill_ok_cong [rotated 2]) (simp_all add: l)
  have "keys_ok (nextId ?d) (map b_id (bills ?d))"
    using assms(1,6) keys_ok_append [of "nextId d" "map b_id (bills d)"] by (simp add: books_ok_def)
  then show ?thesis
    using assms ok l n unfolding books_ok_def by (auto simp: bill_ok_def)
qed

lemma tender_sum_append:
  "tender_sum (d\<lparr>nextId := m, tenders := tenders d @ [t]\<rparr>) k = tender_sum d k + (if td_billId t = k then td_amountMinor t else 0)"
  by (simp add: tender_sum_def bill_tenders_def)

lemma books_ok_tender:
  assumes "books_ok d" and "\<And>b. b \<in> set (bills d) \<Longrightarrow> b_id b = td_billId t \<Longrightarrow> b_status b = b_open" and "nextId d \<le> m"
  shows "books_ok (d\<lparr>nextId := m, tenders := tenders d @ [t]\<rparr>)"
proof -
  let ?d = "d\<lparr>nextId := m, tenders := tenders d @ [t]\<rparr>"
  have l: "last_bill_number out ?d = last_bill_number out d" for out by (simp add: last_bill_number_def)
  have n: "numbers_at out ?d = numbers_at out d" for out by (simp add: numbers_at_def)
  have "bill_ok ?d b" if b: "b \<in> set (bills d)" for b
  proof (cases "b_id b = td_billId t")
    case True
    then have "b_status b = b_open" using assms(2) b by blast
    with books_okD(1) [OF assms(1) b] show ?thesis by (simp add: bill_ok_def)
  next
    case False
    then have "tender_sum ?d (b_id b) = tender_sum d (b_id b)" by (simp only: tender_sum_append) simp
    with books_okD(1) [OF assms(1) b] l show ?thesis unfolding bill_ok_def by simp
  qed
  with assms(1,3) l n show ?thesis by (auto simp: books_ok_def intro: keys_ok_mono)
qed

lemma createTenderRecord_Inr:
  assumes "createTenderRecord e q d = Inr (t, d')"
  shows "d' = d\<lparr>nextId := Suc (nextId d), tenders := tenders d @ [t]\<rparr>" "td_billId t = tq_billId q" "td_method t = tq_method q"
    "td_amountMinor t = tq_amountMinor q" "td_paymentIntentId t = tq_paymentIntentId q" "tender_checks t" "td_id t = nextId d"
    "td_tenantId t = tq_tenantId q"
  using assms by (auto simp: createTenderRecord_def take_id_def Let_def split: if_splits)

lemma refreshOpenBillTotals_cases:
  assumes "refreshOpenBillTotals (b, ts) d = Inr (bt, d')"
  obtains (same) "bt = (b, ts)" "d' = d"
  | (refreshed) subtotal tax b1 where "b_status b = b_open" "computeBillTotals d (b_tenantId b) (b_orderId b) = Inr (subtotal, tax)"
      "d' = d\<lparr>bills := update_rows (\<lambda>x. b_id x = b_id b) (set_totals subtotal tax) (bills d)\<rparr>"
      "find_row b_id (b_id b) (bills d') = Some b1" "bt = (b1, bill_tenders d (b_id b))"
proof (cases "b_status b = b_open")
  case False
  with assms show thesis by (intro same) (simp_all add: refreshOpenBillTotals_def)
next
  case True
  then obtain subtotal tax where c: "computeBillTotals d (b_tenantId b) (b_orderId b) = Inr (subtotal, tax)"
    using assms by (auto simp: refreshOpenBillTotals_def r_bind_eq_Inr)
  let ?d = "d\<lparr>bills := update_rows (\<lambda>x. b_id x = b_id b) (set_totals subtotal tax) (bills d)\<rparr>"
  show thesis
  proof (cases "subtotal = b_subtotalMinor b \<and> tr_taxMinor tax = b_taxMinor b \<and>
      tr_gstSplitRounding tax = sb_gstSplitRounding (readStoredTaxBreakdown (b_taxBreakdown b))")
    case eq: True
    with assms True c show thesis by (intro same) (simp_all add: refreshOpenBillTotals_def)
  next
    case False
    then have "refreshOpenBillTotals (b, ts) d = (case find_row b_id (b_id b) (bills ?d) of
        None \<Rightarrow> Inl (InternalError ''P2025'') | Some b1 \<Rightarrow> Inr ((b1, bill_tenders ?d (b_id b)), ?d))"
      using True c by (auto simp: refreshOpenBillTotals_def Let_def)
    then obtain b1 where "find_row b_id (b_id b) (bills ?d) = Some b1" "bt = (b1, bill_tenders ?d (b_id b))" "d' = ?d"
      using assms by (auto split: option.splits)
    with True c show thesis by (intro refreshed) (simp_all add: bill_tenders_def)
  qed
qed

lemma set_totals_fields [simp]:
  "b_id (set_totals s tx b) = b_id b" "b_orderId (set_totals s tx b) = b_orderId b" "b_outletId (set_totals s tx b) = b_outletId b"
  "b_status (set_totals s tx b) = b_status b" "b_billNumber (set_totals s tx b) = b_billNumber b"
  "b_discountMinor (set_totals s tx b) = b_discountMinor b" "b_roundOffMinor (set_totals s tx b) = b_roundOffMinor b"
  "b_tenantId (set_totals s tx b) = b_tenantId b" "b_subtotalMinor (set_totals s tx b) = s"
  "b_taxMinor (set_totals s tx b) = tr_taxMinor tx" "b_pricesIncludeTax (set_totals s tx b) = tr_pricesIncludeTax tx"
  by (simp_all add: set_totals_def)

text \<open>What an operation may do to the ledger: open bills may be rewritten or settled, bills, tenders and credit
  notes may be added, counters may grow; finalised bills, tenders and credit notes are never changed.\<close>

definition ledger_grows :: "db \<Rightarrow> db \<Rightarrow> bool" where
  "ledger_grows d d' \<longleftrightarrow> (\<forall>b \<in> set (bills d). b_status b = b_finalized \<longrightarrow> b \<in> set (bills d')) \<and>
     prefix (tenders d) (tenders d') \<and> prefix (creditNotes d) (creditNotes d') \<and>
     (\<forall>b \<in> set (bills d). b_status b = b_finalized \<longrightarrow> bill_tenders d' (b_id b) = bill_tenders d (b_id b))"

lemma ledger_grows_refl: "ledger_grows d d"
  by (simp add: ledger_grows_def)

lemma ledger_grows_trans: "ledger_grows a b \<Longrightarrow> ledger_grows b c \<Longrightarrow> ledger_grows a c"
  by (auto simp: ledger_grows_def intro: prefix_order.trans)

lemma ledger_grows_frame:
  "bills d' = bills d \<Longrightarrow> tenders d' = tenders d \<Longrightarrow> creditNotes d' = creditNotes d \<Longrightarrow> ledger_grows d d'"
  by (simp add: ledger_grows_def bill_tenders_def)

lemma ledger_grows_update_open:
  assumes "\<And>b. b \<in> set (bills d) \<Longrightarrow> p b \<Longrightarrow> b_status b = b_open"
    and "bills d' = update_rows p f (bills d)" "tenders d' = tenders d" "creditNotes d' = creditNotes d"
  shows "ledger_grows d d'"
proof -
  have "b \<in> set (update_rows p f (bills d))" if "b \<in> set (bills d)" "b_status b = b_finalized" for b
    using assms(1) that by (force simp: set_update_rows)
  then show ?thesis by (simp add: ledger_grows_def assms(2-4) bill_tenders_def)
qed

lemma ledger_grows_tender:
  assumes "\<And>b. b \<in> set (bills d) \<Longrightarrow> b_id b = td_billId t \<Longrightarrow> b_status b = b_open"
  shows "ledger_grows d (d\<lparr>nextId := m, tenders := tenders d @ [t]\<rparr>)"
  using assms by (force simp: ledger_grows_def bill_tenders_def)

lemma open_bill_unique:
  assumes "books_ok d" and "b \<in> set (bills d)" and "b_status b = b_open" and "c \<in> set (bills d)" and "b_id c = b_id b"
  shows "b_status c = b_open"
  using assms books_okD(2) [OF assms(1)] by (metis option.inject)

lemma refreshOpenBillTotals_keeps:
  assumes "refreshOpenBillTotals (b, ts) d = Inr (bt, d')" and "books_ok d" and "b \<in> set (bills d)"
  shows "books_ok d'" "ledger_grows d d'"
proof -
  from assms(1) have "books_ok d' \<and> ledger_grows d d'"
  proof (cases rule: refreshOpenBillTotals_cases)
    case same
    then show ?thesis using assms(2) ledger_grows_refl by simp
  next
    case (refreshed subtotal tax b1)
    note op = open_bill_unique [OF assms(2,3) refreshed(1)]
    have "books_ok d'" unfolding refreshed(3) by (rule books_ok_update_open [OF assms(2)]) (use op in auto)
    moreover have "ledger_grows d d'"
      by (rule ledger_grows_update_open [of d "\<lambda>x. b_id x = b_id b"]) (use op refreshed(3) in auto)
    ultimately show ?thesis by blast
  qed
  then show "books_ok d'" "ledger_grows d d'" by auto
qed

lemma createOrGetBillRecord_keeps:
  assumes "createOrGetBillRecord e params d = Inr ((bt, created), d')" and "books_ok d"
  shows "books_ok d'" "ledger_grows d d'"
proof -
  have "books_ok d' \<and> ledger_grows d d'"
  proof (cases "find_row b_orderId (cp_orderId params) (bills d)")
    case (Some b)
    then obtain bt1 where r: "refreshOpenBillTotals (b, bill_tenders d (b_id b)) d = Inr (bt1, d')"
      using assms(1) by (auto simp: createOrGetBillRecord_def result_simps)
    have "b \<in> set (bills d)" using find_row_Some [OF Some] by simp
    with refreshOpenBillTotals_keeps [OF r assms(2)] show ?thesis by blast
  next
    case None
    then obtain b where b: "d' = d\<lparr>nextId := Suc (nextId d), bills := bills d @ [b]\<rparr>"
      "b_status b = b_open" "b_billNumber b = None" "b_discountMinor b = None" "b_roundOffMinor b = None"
      "b_id b = nextId d" "b_orderId b = cp_orderId params"
      using assms(1) by (auto simp: createOrGetBillRecord_def result_simps take_id_def Let_def split: if_splits)
    have "b_orderId b \<notin> b_orderId ` set (bills d)" using None b(7) by (auto simp: find_row_None)
    then have "books_ok d'" unfolding b(1) by (intro books_ok_new_bill [OF assms(2) b(2-6)])
    then show ?thesis by (simp add: b(1) ledger_grows_def bill_tenders_def)
  qed
  then show "books_ok d'" "ledger_grows d d'" by auto
qed

text \<open>Creating a bill is idempotent per order: a second request for the same order answers with the same
  bill and creates nothing, whatever happened to its lines in between.\<close>

theorem createOrGetBillRecord_idempotent:
  assumes "createOrGetBillRecord e params d = Inr (((b, ts), created), d')" and "books_ok d"
    and "createOrGetBillRecord e' params' d' = Inr (((b', ts'), created'), d'')" and "cp_orderId params' = cp_orderId params"
  shows "\<not> created' \<and> b_id b' = b_id b \<and> map b_id (bills d'') = map b_id (bills d')"
proof -
  have r: "find_row b_orderId (cp_orderId params) (bills d') = Some b"
  proof (cases "find_row b_orderId (cp_orderId params) (bills d)")
    case None
    then show ?thesis using assms(1)
      by (auto simp: createOrGetBillRecord_def result_simps take_id_def Let_def find_row_append find_row_Cons split: if_splits)
  next
    case (Some c)
    then have c: "refreshOpenBillTotals (c, bill_tenders d (b_id c)) d = Inr ((b, ts), d')" "c \<in> set (bills d)"
      using assms(1) find_row_Some [OF Some] by (auto simp: createOrGetBillRecord_def result_simps)
    from c(1) show ?thesis
    proof (cases rule: refreshOpenBillTotals_cases)
      case same
      with Some show ?thesis by simp
    next
      case (refreshed subtotal tax b1)
      have "b = set_totals subtotal tax c"
        using refreshed(3-5) books_okD(2) [OF assms(2) c(2)] by (simp add: find_row_update_key)
      moreover have "find_row b_orderId (cp_orderId params) (bills d') = Some (set_totals subtotal tax c)"
        using Some refreshed(3) by (simp add: find_row_update)
      ultimately show ?thesis by simp
    qed
  qed
  then have "refreshOpenBillTotals (b, bill_tenders d' (b_id b)) d' = Inr ((b', ts'), d'')" "\<not> created'"
    using assms(3,4) by (auto simp: createOrGetBillRecord_def result_simps)
  then show ?thesis
    by (cases rule: refreshOpenBillTotals_cases) (auto dest: find_row_Some)
qed

section \<open>Settling\<close>

lemma settle_tenders_sums:
  "settle_tenders d t k due =
    (if tender_sum d k = due then Inr None
     else r_bind
       (if cash_sum d k > 0
        then (case find_row tn_id t (tenants d) of None \<Rightarrow> Inl (InternalError ''P2025'')
              | Some ten \<Rightarrow> Inr (cashRoundOffMinor (due - (tender_sum d k - cash_sum d k)) (tn_country ten)))
        else Inr 0)
       (\<lambda>r. if r = 0 \<or> tender_sum d k \<noteq> due + r then Inl (BadRequest ''tender_mismatch'') else Inr (Some r)))"
  unfolding settle_tenders_def Let_def foldl_sum_rows foldl_cash_sum tender_sum_def cash_sum_def add_0_left ..

lemma settle_tenders_Inr:
  assumes "settle_tenders d t k due = Inr ro"
  shows "tender_sum d k = due + nullish ro 0"
    "ro = Some r \<Longrightarrow> r \<noteq> 0 \<and> 0 < cash_sum d k \<and> (\<exists>ten. find_row tn_id t (tenants d) = Some ten \<and>
       r = cashRoundOffMinor (due - (tender_sum d k - cash_sum d k)) (tn_country ten))"
proof -
  show "tender_sum d k = due + nullish ro 0"
    using assms by (auto simp: settle_tenders_sums result_simps split: if_splits option.splits)
  assume ro: "ro = Some r"
  then have ne: "tender_sum d k \<noteq> due" using assms by (auto simp: settle_tenders_sums)
  then have r: "(if cash_sum d k > 0
        then (case find_row tn_id t (tenants d) of None \<Rightarrow> Inl (InternalError ''P2025'')
              | Some ten \<Rightarrow> Inr (cashRoundOffMinor (due - (tender_sum d k - cash_sum d k)) (tn_country ten)))
        else Inr 0) = Inr r" "r \<noteq> 0"
    using assms ro unfolding settle_tenders_sums by (auto simp only: r_bind_eq_Inr if_False split: if_splits)
  then show "r \<noteq> 0 \<and> 0 < cash_sum d k \<and> (\<exists>ten. find_row tn_id t (tenants d) = Some ten \<and>
       r = cashRoundOffMinor (due - (tender_sum d k - cash_sum d k)) (tn_country ten))"
    by (cases "find_row tn_id t (tenants d)") (auto split: if_splits)
qed

lemma finalize_row_fields [simp]:
  "b_id (finalize_row e p n ro tx b) = b_id b" "b_orderId (finalize_row e p n ro tx b) = b_orderId b"
  "b_outletId (finalize_row e p n ro tx b) = b_outletId b" "b_tenantId (finalize_row e p n ro tx b) = b_tenantId b"
  "b_status (finalize_row e p n ro tx b) = b_finalized" "b_billNumber (finalize_row e p n ro tx b) = Some n"
  "b_roundOffMinor (finalize_row e p n ro tx b) = ro" "b_discountMinor (finalize_row e p n ro tx b) = cf_discountMinor p"
  "b_subtotalMinor (finalize_row e p n ro tx b) = b_subtotalMinor b"
  "b_pricesIncludeTax (finalize_row e p n ro tx b) = b_pricesIncludeTax b"
  "b_taxMinor (finalize_row e p n ro tx b) = (case tx of None \<Rightarrow> b_taxMinor b | Some x \<Rightarrow> tr_taxMinor x)"
  "b_finalizedAt (finalize_row e p n ro tx b) = Some (now e)"
  by (simp_all add: finalize_row_def Let_def split: option.splits)

text \<open>The branch structure of a successful commit.\<close>

lemma commitFinalize_Inr:
  assumes "commitFinalize e params d = Inr (bt, d')"
  obtains tax ro number d1 d2 d3 where "b_status (cf_bill params) = b_open"
    "pending_intents e d (b_id (cf_bill params)) = 0"
    "paymentsSimulatorFor e d (b_tenantId (cf_bill params)) \<or> simulated_tenders d (b_id (cf_bill params)) = 0"
    "nullish (cf_discountMinor params) 0 \<le> b_subtotalMinor (cf_bill params)"
    "(if nullish (cf_discountMinor params) 0 > 0
      then \<exists>x. computeTaxOn d (cf_tenantId params) (b_subtotalMinor (cf_bill params) - nullish (cf_discountMinor params) 0) = Inr x \<and> tax = Some x
      else tax = None)"
    "settle_tenders d (cf_tenantId params) (b_id (cf_bill params))
       (computeTotalMinor (b_subtotalMinor (cf_bill params)) (case tax of None \<Rightarrow> b_taxMinor (cf_bill params) | Some x \<Rightarrow> tr_taxMinor x)
         (nullish (cf_discountMinor params) 0) (b_pricesIncludeTax (cf_bill params))) = Inr ro"
    "take_bill_number (cf_tenantId params) (b_outletId (cf_bill params)) d = (number, d1)"
    "list_ex (\<lambda>x. b_id x = b_id (cf_bill params) \<and> b_status x = b_open) (bills d1)"
    "d2 = d1\<lparr>bills := update_rows (\<lambda>x. b_id x = b_id (cf_bill params) \<and> b_status x = b_open) (finalize_row e params number ro tax) (bills d1)\<rparr>"
    "d3 = snd (fireOnSend e (b_orderId (cf_bill params)) (b_tenantId (cf_bill params)) (b_outletId (cf_bill params)) d2)"
    "d' = go_live e (cf_tenantId params)
       (d3\<lparr>orders := update_rows (\<lambda>x. o_id x = b_orderId (cf_bill params)) (\<lambda>x. x\<lparr>o_status := o_closed\<rparr>) (orders d3)\<rparr>)"
    "loadBill d' (cf_tenantId params) (b_id (cf_bill params)) = Inr bt"
proof -
  let ?b = "cf_bill params"
  have st: "b_status ?b = b_open" using assms by (cases "b_status ?b") (auto simp: commitFinalize_def)
  have pre: "pending_intents e d (b_id ?b) = 0"
    "paymentsSimulatorFor e d (b_tenantId ?b) \<or> simulated_tenders d (b_id ?b) = 0"
    "nullish (cf_discountMinor params) 0 \<le> b_subtotalMinor ?b"
    using assms st by (auto simp: commitFinalize_def Let_def simp del: not_gr_zero split: if_splits)
  let ?disc = "nullish (cf_discountMinor params) 0"
  obtain tax where tax: "if ?disc > 0 then \<exists>x. computeTaxOn d (cf_tenantId params) (b_subtotalMinor ?b - ?disc) = Inr x \<and> tax = Some x
      else tax = None"
    using assms st pre by (cases "?disc > 0") (auto simp: commitFinalize_def Let_def r_bind_eq_Inr)
  then have tx: "(if ?disc > 0 then r_bind (computeTaxOn d (cf_tenantId params) (b_subtotalMinor ?b - ?disc)) (\<lambda>tx. Inr (Some tx))
      else Inr None) = Inr tax" by (auto split: if_splits)
  let ?tot = "computeTotalMinor (b_subtotalMinor ?b) (case tax of None \<Rightarrow> b_taxMinor ?b | Some x \<Rightarrow> tr_taxMinor x) ?disc (b_pricesIncludeTax ?b)"
  obtain ro where ro: "settle_tenders d (cf_tenantId params) (b_id ?b) ?tot = Inr ro"
    using assms st pre tx by (auto simp: commitFinalize_def Let_def r_bind_eq_Inr)
  obtain number d1 where nd: "take_bill_number (cf_tenantId params) (b_outletId ?b) d = (number, d1)" by fastforce
  let ?d2 = "d1\<lparr>bills := update_rows (\<lambda>x. b_id x = b_id ?b \<and> b_status x = b_open) (finalize_row e params number ro tax) (bills d1)\<rparr>"
  let ?d3 = "snd (fireOnSend e (b_orderId ?b) (b_tenantId ?b) (b_outletId ?b) ?d2)"
  let ?d5 = "go_live e (cf_tenantId params)
       (?d3\<lparr>orders := update_rows (\<lambda>x. o_id x = b_orderId ?b) (\<lambda>x. x\<lparr>o_status := o_closed\<rparr>) (orders ?d3)\<rparr>)"
  have "list_ex (\<lambda>x. b_id x = b_id ?b \<and> b_status x = b_open) (bills d1) \<and>
      loadBill ?d5 (cf_tenantId params) (b_id ?b) = Inr bt \<and> d' = ?d5"
    using assms st pre unfolding commitFinalize_def Let_def tx ro nd r_bind_Inr prod.case r_bind_eq_Inr
    by (auto simp: Let_def r_bind_eq_Inr tx ro nd split: if_splits)
  then show thesis by (intro that [OF st pre tax ro nd _ refl refl]) auto
qed

lemma numbers_finalize:
  assumes "books_ok d" and "b \<in> set (bills d)" and "b_status b = b_open"
    and "bills d' = update_rows (\<lambda>x. b_id x = b_id b \<and> b_status x = b_open) F (bills d)"
    and "b_outletId (F b) = b_outletId b" "b_status (F b) = b_finalized" "b_billNumber (F b) = Some n"
  shows "mset (numbers_at out d') = mset (numbers_at out d) + (if out = b_outletId b then {#Some n#} else {#})"
proof -
  obtain xs ys where bs: "bills d = xs @ b # ys" using assms(2) by (auto dest: split_list)
  have "distinct (map b_id (bills d))" using assms(1) by (simp add: books_ok_def keys_ok_def)
  then have "b_id b \<notin> b_id ` set xs" "b_id b \<notin> b_id ` set ys" unfolding bs by auto
  then have "b_id x \<noteq> b_id b" if "x \<in> set xs \<union> set ys" for x
    using that by (metis Un_iff imageI)
  then have "update_rows (\<lambda>x. b_id x = b_id b \<and> b_status x = b_open) F xs = xs"
    "update_rows (\<lambda>x. b_id x = b_id b \<and> b_status x = b_open) F ys = ys"
    by (intro update_rows_none; blast)+
  then have "bills d' = xs @ F b # ys"
    using assms(3) unfolding assms(4) bs by (simp add: update_rows_def)
  then show ?thesis using assms(3,5-7) by (simp add: numbers_at_def bs finalized_at_def)
qed

lemma numbers_below:
  assumes "books_ok d" and "m \<in> set (numbers_at out d)"
  shows "\<exists>n. m = Some n \<and> 1 \<le> n \<and> n \<le> last_bill_number out d"
proof -
  obtain b where b: "b \<in> set (bills d)" "b_outletId b = out" "b_status b = b_finalized" "m = b_billNumber b"
    using assms(2) by (auto simp: numbers_at_def finalized_at_def)
  with books_okD(1) [OF assms(1) b(1)] show ?thesis by (simp add: bill_ok_def)
qed

lemma books_ok_finalize:
  assumes "books_ok d" and "b \<in> set (bills d)" and "b_status b = b_open"
    and bills: "bills d' = update_rows (\<lambda>x. b_id x = b_id b \<and> b_status x = b_open) (finalize_row e params n ro tax) (bills d)"
    and "tenders d' = tenders d" and "nextId d \<le> nextId d'"
    and n: "n = last_bill_number (b_outletId b) d + 1"
    and last: "\<And>out. last_bill_number out d' = (if out = b_outletId b then n else last_bill_number out d)"
    and settled: "tender_sum d (b_id b) = bill_total (finalize_row e params n ro tax b) + nullish ro 0"
  shows "books_ok d'"
proof -
  let ?F = "finalize_row e params n ro tax"
  let ?p = "\<lambda>x. b_id x = b_id b \<and> b_status x = b_open"
  have nums: "mset (numbers_at out d') = mset (numbers_at out d) + (if out = b_outletId b then {#Some n#} else {#})" for out
    using numbers_finalize [OF assms(1-3) bills] by simp
  have only: "x = b" if "x \<in> set (bills d)" "?p x" for x
  proof -
    have "find_row b_id (b_id x) (bills d) = Some x" "find_row b_id (b_id b) (bills d) = Some b"
      using books_okD(2) [OF assms(1)] that(1) assms(2) by blast+
    moreover have "b_id x = b_id b" using that(2) by blast
    ultimately show ?thesis by (metis option.inject)
  qed
  have "bill_ok d' c" if mem: "c \<in> set (bills d')" for c
  proof -
    obtain x where x: "x \<in> set (bills d)" "c = (if ?p x then ?F x else x)"
      using mem unfolding bills by (auto simp: set_update_rows)
    show ?thesis
    proof (cases "?p x")
      case True
      then have "x = b" using only [OF x(1)] by blast
      then have c: "c = ?F b" using x(2) True by simp
      have "0 \<le> last_bill_number (b_outletId b) d"
        using assms(1) by (metis books_ok_def of_nat_0_le_iff)
      moreover have "tender_sum d' (b_id b) = tender_sum d (b_id b)"
        by (simp add: tender_sum_def bill_tenders_def assms(5))
      ultimately show ?thesis using settled n last by (simp add: bill_ok_def c)
    next
      case False
      have "last_bill_number out d \<le> last_bill_number out d'" for out using last n by simp
      with bill_ok_cong [OF assms(5)] books_okD(1) [OF assms(1) x(1)] have "bill_ok d' x" by blast
      with False x(2) show ?thesis by auto
    qed
  qed
  moreover have "int (length (numbers_at out d')) = last_bill_number out d' \<and> distinct (numbers_at out d')" for out
  proof -
    have d: "int (length (numbers_at out d)) = last_bill_number out d" "distinct (numbers_at out d)"
      using assms(1) by (simp_all add: books_ok_def)
    have fresh: "Some n \<notin> set (numbers_at (b_outletId b) d)"
      using numbers_below [OF assms(1)] n by fastforce
    have "length (numbers_at out d') = length (numbers_at out d) + (if out = b_outletId b then 1 else 0)"
      using arg_cong [OF nums [of out], of size] by (simp split: if_splits)
    moreover have "distinct (numbers_at out d')"
    proof (cases "out = b_outletId b")
      case True
      then have "mset (numbers_at out d') = mset (Some n # numbers_at out d)" using nums [of out] by simp
      then show ?thesis using d(2) fresh True mset_eq_imp_distinct_iff by (metis distinct.simps(2))
    next
      case False
      then have "mset (numbers_at out d') = mset (numbers_at out d)" using nums [of out] by simp
      then show ?thesis using d(2) mset_eq_imp_distinct_iff by metis
    qed
    ultimately show ?thesis using d last n by simp
  qed
  moreover have "map b_id (bills d') = map b_id (bills d)" "map b_orderId (bills d') = map b_orderId (bills d)"
    by (simp_all add: bills)
  ultimately show ?thesis using assms(1,6) unfolding books_ok_def by (auto intro: keys_ok_mono)
qed

lemma go_live_fields [simp]:
  "bills (go_live e t d) = bills d" "tenders (go_live e t d) = tenders d" "creditNotes (go_live e t d) = creditNotes d"
  "billCounters (go_live e t d) = billCounters d" "nextId (go_live e t d) = nextId d" "orders (go_live e t d) = orders d"
  "orderLines (go_live e t d) = orderLines d" "intents (go_live e t d) = intents d" "ticketLines (go_live e t d) = ticketLines d"
  "shifts (go_live e t d) = shifts d" "billShares (go_live e t d) = billShares d" "cashMovements (go_live e t d) = cashMovements d"
  "tableSessions (go_live e t d) = tableSessions d" "menuItems (go_live e t d) = menuItems d" "tickets (go_live e t d) = tickets d"
  "outlets (go_live e t d) = outlets d" "guests (go_live e t d) = guests d" "cartLines (go_live e t d) = cartLines d"
  by (simp_all add: go_live_def)

lemma take_bill_number_fields:
  assumes "take_bill_number t out d = (n, d1)"
  shows "bills d1 = bills d" "tenders d1 = tenders d" "creditNotes d1 = creditNotes d" "nextId d1 = nextId d" "orders d1 = orders d"
    "orderLines d1 = orderLines d" "intents d1 = intents d" "ticketLines d1 = ticketLines d" "shifts d1 = shifts d"
    "billShares d1 = billShares d" "cashMovements d1 = cashMovements d" "tableSessions d1 = tableSessions d" "menuItems d1 = menuItems d"
    "n = last_bill_number out d + 1"
    "last_bill_number out' d1 = (if out' = out then n else last_bill_number out' d)"
proof -
  have d1: "d1 = snd (take_bill_number t out d)" "n = fst (take_bill_number t out d)" using assms by simp_all
  show "n = last_bill_number out d + 1" unfolding d1 by (rule bill_numbers.take_next)
  show "last_bill_number out' d1 = (if out' = out then n else last_bill_number out' d)"
    unfolding d1 using bill_numbers.take_records [of out t d] last_bill_number_other by simp
qed (use assms in \<open>auto simp: take_bill_number_def split: option.splits\<close>)

lemma fireable_lines_cong:
  assumes "orderLines d = orderLines d'" and "ticketLines d = ticketLines d'" and "menuItems d = menuItems d'"
  shows "fireable_lines d k = fireable_lines d' k"
  unfolding fireable_lines_def line_item_def assms ..

text \<open>The effect of a commit on every table it may touch.\<close>

lemma commitFinalize_effect:
  fixes d params
  defines "b \<equiv> cf_bill params"
  assumes "commitFinalize e params d = Inr (bt, d')"
  obtains tax ro where
    "b_status b = b_open"
    "bills d' = update_rows (\<lambda>x. b_id x = b_id b \<and> b_status x = b_open)
       (finalize_row e params (last_bill_number (b_outletId b) d + 1) ro tax) (bills d)"
    "tenders d' = tenders d" "creditNotes d' = creditNotes d" "nextId d \<le> nextId d'"
    "\<And>out. last_bill_number out d' = (if out = b_outletId b then last_bill_number (b_outletId b) d + 1 else last_bill_number out d)"
    "orders d' = update_rows (\<lambda>x. o_id x = b_orderId b) (\<lambda>x. x\<lparr>o_status := o_closed\<rparr>) (orders d)"
    "orderLines d' = orderLines d" "intents d' = intents d" "shifts d' = shifts d" "cashMovements d' = cashMovements d"
    "billShares d' = billShares d" "tableSessions d' = tableSessions d" "menuItems d' = menuItems d"
    "settle_tenders d (cf_tenantId params) (b_id b)
       (bill_total (finalize_row e params (last_bill_number (b_outletId b) d + 1) ro tax b)) = Inr ro"
    "nullish (cf_discountMinor params) 0 \<le> b_subtotalMinor b"
    "pending_intents e d (b_id b) = 0"
    "paymentsSimulatorFor e d (b_tenantId b) \<or> simulated_tenders d (b_id b) = 0"
    "loadBill d' (cf_tenantId params) (b_id b) = Inr bt"
    "fireable_lines d' (b_orderId b) = []"
proof -
  obtain tax ro number d1 d2 d3 where c: "b_status b = b_open" "pending_intents e d (b_id b) = 0"
    "paymentsSimulatorFor e d (b_tenantId b) \<or> simulated_tenders d (b_id b) = 0"
    "nullish (cf_discountMinor params) 0 \<le> b_subtotalMinor b"
    "settle_tenders d (cf_tenantId params) (b_id b)
       (computeTotalMinor (b_subtotalMinor b) (case tax of None \<Rightarrow> b_taxMinor b | Some x \<Rightarrow> tr_taxMinor x)
         (nullish (cf_discountMinor params) 0) (b_pricesIncludeTax b)) = Inr ro"
    "take_bill_number (cf_tenantId params) (b_outletId b) d = (number, d1)"
    "d2 = d1\<lparr>bills := update_rows (\<lambda>x. b_id x = b_id b \<and> b_status x = b_open) (finalize_row e params number ro tax) (bills d1)\<rparr>"
    "d3 = snd (fireOnSend e (b_orderId b) (b_tenantId b) (b_outletId b) d2)"
    "d' = go_live e (cf_tenantId params)
       (d3\<lparr>orders := update_rows (\<lambda>x. o_id x = b_orderId b) (\<lambda>x. x\<lparr>o_status := o_closed\<rparr>) (orders d3)\<rparr>)"
    "loadBill d' (cf_tenantId params) (b_id b) = Inr bt"
    using assms(2) unfolding b_def by (rule commitFinalize_Inr)
  note n = take_bill_number_fields [OF c(6)]
  obtain k where k: "fireOnSend e (b_orderId b) (b_tenantId b) (b_outletId b) d2 = (k, d3)"
    using c(8) by (metis prod.collapse)
  note f = non_kitchenD [OF fireOnSend_frame [OF k]]
  have "bill_total (finalize_row e params number ro tax b) = computeTotalMinor (b_subtotalMinor b)
      (case tax of None \<Rightarrow> b_taxMinor b | Some x \<Rightarrow> tr_taxMinor x) (nullish (cf_discountMinor params) 0) (b_pricesIncludeTax b)"
    by (simp add: bill_total_def)
  with c(5) have st: "settle_tenders d (cf_tenantId params) (b_id b)
       (bill_total (finalize_row e params (last_bill_number (b_outletId b) d + 1) ro tax b)) = Inr ro"
    using n(14) by simp
  have "nextId d2 \<le> nextId d3" using fireOnSend_nextId [of d2] k by (metis snd_conv)
  then have nx: "nextId d \<le> nextId d'" using n(4) c(7,9) by simp
  have "fireable_lines d3 (b_orderId b) = []" using fireOnSend_exhausts c(8) by simp
  then have fl: "fireable_lines d' (b_orderId b) = []"
    by (subst fireable_lines_cong [of d' d3]) (simp_all add: c(9))
  have ln: "last_bill_number out d' = (if out = b_outletId b then last_bill_number (b_outletId b) d + 1 else last_bill_number out d)" for out
  proof -
    have "last_bill_number out d' = last_bill_number out d1"
      by (simp add: last_bill_number_def c(9) f(7)) (simp add: c(7))
    then show ?thesis using n(14,15) by simp
  qed
  show thesis
    by (rule that [of ro tax]) (use c n f st nx fl ln in \<open>simp_all\<close>)
qed

lemma commitFinalize_keeps:
  assumes "commitFinalize e params d = Inr (bt, d')" and "books_ok d" and "cf_bill params \<in> set (bills d)"
  shows "books_ok d'" "ledger_grows d d'"
proof -
  let ?b = "cf_bill params"
  obtain tax ro where c: "b_status ?b = b_open"
    "bills d' = update_rows (\<lambda>x. b_id x = b_id ?b \<and> b_status x = b_open)
       (finalize_row e params (last_bill_number (b_outletId ?b) d + 1) ro tax) (bills d)"
    "tenders d' = tenders d" "creditNotes d' = creditNotes d" "nextId d \<le> nextId d'"
    "\<And>out. last_bill_number out d' = (if out = b_outletId ?b then last_bill_number (b_outletId ?b) d + 1 else last_bill_number out d)"
    "settle_tenders d (cf_tenantId params) (b_id ?b)
       (bill_total (finalize_row e params (last_bill_number (b_outletId ?b) d + 1) ro tax ?b)) = Inr ro"
    using assms(1) by (rule commitFinalize_effect) (rule that)
  show "books_ok d'"
    by (rule books_ok_finalize [OF assms(2,3) c(1,2,3,5) refl c(6)]) (rule settle_tenders_Inr(1) [OF c(7)])
  show "ledger_grows d d'"
    by (rule ledger_grows_update_open [OF _ c(2,3,4)]) simp
qed

text \<open>C3: Settlement. When a bill is finalised, the stored bill is finalised under the next number of its outlet
  (the previous last number plus one), the tenders on it add up to its total plus the stored cash
  round-off, a round-off is stored only for a part paid in cash and is the market's rounding of
  that part, the discount does not exceed the subtotal, the order is closed, and no line of
  the order is left unsent to the kitchen.\<close>

theorem commitFinalize_settles:
  assumes "commitFinalize e params d = Inr ((b', ts), d')" and "books_ok d" and "cf_bill params \<in> set (bills d)"
  shows "find_row b_id (b_id (cf_bill params)) (bills d') = Some b' \<and> b_status b' = b_finalized \<and>
    b_billNumber b' = Some (last_bill_number (b_outletId b') d + 1) \<and>
    sum_rows td_amountMinor ts = bill_total b' + nullish (b_roundOffMinor b') 0 \<and>
    (\<forall>r. b_roundOffMinor b' = Some r \<longrightarrow> 0 < cash_sum d' (b_id b') \<and>
       (\<exists>c. r = cashRoundOffMinor (bill_total b' - (tender_sum d' (b_id b') - cash_sum d' (b_id b'))) c)) \<and>
    nullish (b_discountMinor b') 0 \<le> b_subtotalMinor b' \<and>
    (\<forall>x \<in> set (orders d'). o_id x = b_orderId b' \<longrightarrow> o_status x = o_closed) \<and>
    fireable_lines d' (b_orderId b') = []"
proof -
  let ?b = "cf_bill params"
  obtain tax ro where c: "b_status ?b = b_open"
    "bills d' = update_rows (\<lambda>x. b_id x = b_id ?b \<and> b_status x = b_open)
       (finalize_row e params (last_bill_number (b_outletId ?b) d + 1) ro tax) (bills d)"
    "tenders d' = tenders d"
    "orders d' = update_rows (\<lambda>x. o_id x = b_orderId ?b) (\<lambda>x. x\<lparr>o_status := o_closed\<rparr>) (orders d)"
    "settle_tenders d (cf_tenantId params) (b_id ?b)
       (bill_total (finalize_row e params (last_bill_number (b_outletId ?b) d + 1) ro tax ?b)) = Inr ro"
    "nullish (cf_discountMinor params) 0 \<le> b_subtotalMinor ?b"
    "loadBill d' (cf_tenantId params) (b_id ?b) = Inr (b', ts)"
    "fireable_lines d' (b_orderId ?b) = []"
    using assms(1) by (rule commitFinalize_effect) (rule that)
  let ?F = "finalize_row e params (last_bill_number (b_outletId ?b) d + 1) ro tax"
  have "find_row b_id (b_id ?b) (bills d') = Some (?F ?b)"
    using books_okD(2) [OF assms(2,3)] c(1) unfolding c(2) by (simp add: find_row_update)
  then have b': "b' = ?F ?b" "find_row b_id (b_id ?b) (bills d') = Some b'" "ts = bill_tenders d (b_id ?b)"
    using loadBill_found [OF c(7)] c(3) by (simp_all add: bill_tenders_def)
  have sums: "tender_sum d' k = tender_sum d k" "cash_sum d' k = cash_sum d k" for k
    using c(3) by (simp_all add: tender_sum_def cash_sum_def bill_tenders_def)
  note st = settle_tenders_Inr [OF c(5)]
  have "sum_rows td_amountMinor ts = bill_total b' + nullish (b_roundOffMinor b') 0"
    using st(1) b' by (simp add: tender_sum_def)
  moreover have "\<forall>r. b_roundOffMinor b' = Some r \<longrightarrow> 0 < cash_sum d' (b_id b') \<and>
       (\<exists>c. r = cashRoundOffMinor (bill_total b' - (tender_sum d' (b_id b') - cash_sum d' (b_id b'))) c)"
    using st(2) b'(1) sums by fastforce
  moreover have "\<forall>x \<in> set (orders d'). o_id x = b_orderId b' \<longrightarrow> o_status x = o_closed"
    using c(4) b'(1) by (auto simp: set_update_rows)
  ultimately show ?thesis using b' c(6,8) by simp
qed

definition s_bill :: bill where
  "s_bill = \<lparr>b_id = 90, b_tenantId = 1, b_outletId = 2, b_orderId = 80, b_billNumber = None, b_subtotalMinor = 9990, b_taxMinor = 500,
     b_taxBreakdown = None, b_pricesIncludeTax = False, b_discountMinor = None, b_discountReason = None, b_roundOffMinor = None,
     b_status = b_open, b_createdByStaffId = Some 21, b_createdAt = 999999600, b_finalizedByStaffId = None, b_finalizedAt = None\<rparr>"

definition s_cash :: "int \<Rightarrow> tender" where
  "s_cash amount = \<lparr>td_id = 91, td_tenantId = 1, td_billId = 90, td_method = cash, td_amountMinor = amount, td_paymentIntentId = None,
     td_riskAcknowledged = False, td_reference = None, td_tenderedMinor = None, td_createdAt = 999999700\<rparr>"

text \<open>A lassi for 104.90 with tax, paid with 105 in cash.\<close>

definition s_db_bill :: db where
  "s_db_bill = s_db\<lparr>orders := [s_order], orderLines := [s_line 83 52 1 9990], bills := [s_bill], tenders := [s_cash 10500]\<rparr>"

definition s_commit :: commit_finalize_params where
  "s_commit = \<lparr>cf_tenantId = 1, cf_bill = s_bill, cf_discountMinor = None, cf_discountReason = None, cf_finalizedByStaffId = Some 21\<rparr>"

lemmas commit_eval = commitFinalize_def pending_intents_def simulated_tenders_def paymentsSimulatorFor_def paymentsSimulatorEnabled_def
  tenantInTestMode_def isTestMode_def settle_tenders_def cashRoundOffMinor_def computeTotalMinor_def take_bill_number_def finalize_row_def
  go_live_def loadBill_def loadBillRow_def bill_tenders_def count_rows_def find_row_def update_rows_def Let_def sdiv_pos
  s_bill_def s_cash_def s_db_bill_def s_commit_def

lemmas fire_eval = fireOnSend_def fireable_lines_def List.map_filter_def line_item_def resolveDefaultStationId_def
  routeStationId_def group_by_def fire_group_def add_ticket_line_def take_id_def

lemma s_db_bill_books: "books_ok s_db_bill"
  by (simp add: books_ok_def keys_ok_def bill_ok_def numbers_at_def finalized_at_def last_bill_number_def commit_eval sample_defs)

lemma commit_sample:
  "\<exists>b ts d. commitFinalize s_env s_commit s_db_bill = Inr ((b, ts), d) \<and> b_billNumber b = Some 1 \<and> b_roundOffMinor b = Some 10"
  by (simp add: commit_eval fire_eval sample_defs)

theorem commitFinalize_settles_witness:
  "\<exists>b ts d. commitFinalize s_env s_commit s_db_bill = Inr ((b, ts), d) \<and> b_status b = b_finalized \<and> b_billNumber b = Some 1 \<and>
     sum_rows td_amountMinor ts = bill_total b + 10"
proof -
  obtain b ts d where r: "commitFinalize s_env s_commit s_db_bill = Inr ((b, ts), d)" "b_billNumber b = Some 1" "b_roundOffMinor b = Some 10"
    using commit_sample by blast
  have "cf_bill s_commit \<in> set (bills s_db_bill)" by (simp add: s_commit_def s_db_bill_def)
  from commitFinalize_settles [OF r(1) s_db_bill_books this] r show ?thesis by auto
qed

lemma numbers_gapless:
  assumes "books_ok d"
  shows "set (numbers_at out d) = Some ` {1..last_bill_number out d}"
proof (rule card_subset_eq)
  show "finite (Some ` {1..last_bill_number out d})" by simp
  show "set (numbers_at out d) \<subseteq> Some ` {1..last_bill_number out d}"
    using numbers_below [OF assms] by fastforce
  have "distinct (numbers_at out d)" "int (length (numbers_at out d)) = last_bill_number out d"
    using assms by (simp_all add: books_ok_def)
  then show "card (set (numbers_at out d)) = card (Some ` {1..last_bill_number out d})"
    by (simp add: distinct_card card_image)
qed

text \<open>C4: No second settlement. A bill that is stored as finalised is refused, whether the caller read it before or
  after that: the check on the row the caller holds or the compare-and-swap on the stored row
  stops it, and nothing changes.\<close>

theorem commitFinalize_no_double:
  assumes "find_row b_id (b_id (cf_bill params)) (bills d) = Some stored" and "b_status stored = b_finalized"
    and "distinct (map b_id (bills d))"
  shows "\<exists>err. commitFinalize e params d = Inl err"
proof (cases "commitFinalize e params d")
  case (Inl err)
  then show ?thesis by simp
next
  case (Inr r)
  then obtain bt d' where r: "commitFinalize e params d = Inr (bt, d')" by (cases r) auto
  obtain number d1 where c: "take_bill_number (cf_tenantId params) (b_outletId (cf_bill params)) d = (number, d1)"
    "list_ex (\<lambda>x. b_id x = b_id (cf_bill params) \<and> b_status x = b_open) (bills d1)"
    using r by (rule commitFinalize_Inr) (rule that)
  then obtain x where x: "x \<in> set (bills d)" "b_id x = b_id (cf_bill params)" "b_status x = b_open"
    using take_bill_number_fields(1) [OF c(1)] by (auto simp: list_ex_iff)
  have "find_row b_id (b_id x) (bills d) = Some x" using assms(3) x(1) by (rule find_row_distinct)
  with assms x show ?thesis by simp
qed

lemma no_double_sample:
  "\<exists>b ts d. commitFinalize s_env s_commit s_db_bill = Inr ((b, ts), d) \<and> bills d = [b] \<and> b_id b = 90 \<and> b_status b = b_finalized"
  by (simp add: commit_eval fire_eval sample_defs)

theorem commitFinalize_no_double_witness:
  "\<exists>bt d err. commitFinalize s_env s_commit s_db_bill = Inr (bt, d) \<and> commitFinalize s_env s_commit d = Inl err"
proof -
  obtain b ts d where r: "commitFinalize s_env s_commit s_db_bill = Inr ((b, ts), d)" "bills d = [b]" "b_id b = 90" "b_status b = b_finalized"
    using no_double_sample by blast
  have "\<exists>err. commitFinalize s_env s_commit d = Inl err"
    by (rule commitFinalize_no_double [of _ _ b]) (simp_all add: r s_commit_def s_bill_def find_row_def)
  with r(1) show ?thesis by blast
qed

text \<open>A composition dealer's order of two lines, billed twice.\<close>

definition s_db_comp :: db where
  "s_db_comp = s_db_order\<lparr>taxRegistrations := [s_registration\<lparr>tx_compositionScheme := True\<rparr>]\<rparr>"

definition s_create :: create_bill_params where
  "s_create = \<lparr>cp_tenantId = 1, cp_outletId = 2, cp_orderId = 80, cp_createdByStaffId = Some 21, cp_orderClosed = False\<rparr>"

lemmas create_eval = createOrGetBillRecord_def refreshOpenBillTotals_def computeBillTotals_def computeSubtotal_def live_lines_def line_unit_def
  computeTaxOn_def loadTenantTaxProfile_def computeTax_def toStoredTaxBreakdown_def readStoredTaxBreakdown_def bill_tenders_def
  take_id_def find_row_def Let_def s_db_comp_def s_create_def

lemma create_sample:
  "\<exists>b ts d b' ts' d'. createOrGetBillRecord s_env s_create s_db_comp = Inr (((b, ts), True), d) \<and>
     createOrGetBillRecord s_env s_create d = Inr (((b', ts'), False), d') \<and> b_subtotalMinor b = 70000"
  by (simp add: create_eval sample_defs)

theorem createOrGetBillRecord_idempotent_witness:
  "\<exists>b ts d b' ts' d'. createOrGetBillRecord s_env s_create s_db_comp = Inr (((b, ts), True), d) \<and>
     createOrGetBillRecord s_env s_create d = Inr (((b', ts'), False), d') \<and> b_id b' = b_id b \<and> b_subtotalMinor b = 70000"
proof -
  obtain b ts d b' ts' d' where r: "createOrGetBillRecord s_env s_create s_db_comp = Inr (((b, ts), True), d)"
     "createOrGetBillRecord s_env s_create d = Inr (((b', ts'), False), d')" "b_subtotalMinor b = 70000"
    using create_sample by blast
  have "books_ok s_db_comp"
    by (simp add: books_ok_def keys_ok_def numbers_at_def last_bill_number_def s_db_comp_def sample_defs)
  from createOrGetBillRecord_idempotent [OF r(1) this r(2) refl] r show ?thesis by blast
qed

end
