(* ===== verification/Orders.thy ===== *)
theory Orders
  imports BillCore
begin

text \<open>
  Tables and orders, \<^verbatim>\<open>src/src/pos/orders/orders.service.ts\<close>: opening an order on a table or at the
  counter, ownership and its transfer, sending to the kitchen, discarding an empty order, and the
  reads. The partial unique index \<open>orders_one_active_per_table\<close> is modelled at the insert; since the
  lookup before it runs in the same serial transaction the insert does not meet it there.
\<close>

section \<open>Loading and ownership\<close>

definition loadTableInOutlet :: "db \<Rightarrow> uuid \<Rightarrow> uuid \<Rightarrow> uuid \<Rightarrow> dining_table result" where
  "loadTableInOutlet d tenantId outletId tableId =
    (case find_row dt_id tableId (diningTables d) of
       None \<Rightarrow> Inl (NotFound ''not_found'')
     | Some t \<Rightarrow> if dt_tenantId t \<noteq> tenantId \<or> dt_outletId t \<noteq> outletId then Inl (NotFound ''not_found'') else Inr t)"

definition loadOrder :: "db \<Rightarrow> uuid \<Rightarrow> uuid \<Rightarrow> order result" where
  "loadOrder d tenantId orderId =
    (case find_row o_id orderId (orders d) of
       None \<Rightarrow> Inl (NotFound ''not_found'')
     | Some x \<Rightarrow> if o_tenantId x \<noteq> tenantId then Inl (NotFound ''not_found'') else Inr x)"

definition assertOwner :: "order \<Rightarrow> pos_principal \<Rightarrow> unit result" where
  "assertOwner x staff =
    (if o_ownerId x = None \<or> o_ownerId x = Some (pp_id staff) then Inr () else Inl (Forbidden ''not_owner''))"

section \<open>Views\<close>

record order_line_view =
  lw_id :: uuid
  lw_orderId :: uuid
  lw_itemId :: "uuid option"
  lw_variantId :: "uuid option"
  lw_comboId :: "uuid option"
  lw_comboName :: "string option"
  lw_parentLineId :: "uuid option"
  lw_quantity :: int
  lw_unitPriceMinor :: int
  lw_seatNumber :: "int option"
  lw_addedByStaffId :: "uuid option"
  lw_addedByStaffName :: "string option"
  lw_note :: "string option"
  lw_sentToKitchen :: bool
  lw_guestId :: "uuid option"
  lw_guestName :: "string option"
  lw_createdAt :: date
  lw_modifiers :: "(uuid \<times> uuid \<times> string \<times> int) list"

record order_view =
  ow_id :: uuid
  ow_tenantId :: uuid
  ow_outletId :: uuid
  ow_tableId :: "uuid option"
  ow_tableLabel :: "string option"
  ow_ownerId :: "uuid option"
  ow_ownerName :: "string option"
  ow_status :: order_status
  ow_tokenNumber :: "int option"
  ow_source :: order_source
  ow_sessionId :: "uuid option"
  ow_createdAt :: date
  ow_lines :: "order_line_view list"

definition staff_name :: "db \<Rightarrow> uuid option \<Rightarrow> string option" where
  "staff_name d sid = (case sid of None \<Rightarrow> None | Some s \<Rightarrow> map_option su_name (find_row su_id s (staffUsers d)))"

definition toOrderLineView :: "db \<Rightarrow> order_line \<Rightarrow> bool \<Rightarrow> order_line_view" where
  "toOrderLineView d l sentToKitchen =
    \<lparr>lw_id = ol_id l, lw_orderId = ol_orderId l, lw_itemId = ol_itemId l, lw_variantId = ol_variantId l,
     lw_comboId = ol_comboId l, lw_comboName = map_option cb_name (line_combo d l), lw_parentLineId = ol_parentLineId l,
     lw_quantity = ol_quantity l, lw_unitPriceMinor = ol_unitPriceMinor l, lw_seatNumber = ol_seatNumber l,
     lw_addedByStaffId = ol_addedByStaffId l, lw_addedByStaffName = staff_name d (ol_addedByStaffId l), lw_note = ol_note l,
     lw_sentToKitchen = sentToKitchen, lw_guestId = ol_guestId l, lw_guestName = ol_guestName l, lw_createdAt = ol_createdAt l,
     lw_modifiers = map (\<lambda>m. (om_id m, om_modifierId m, modifier_name d (om_modifierId m), om_priceMinor m)) (ol_modifiers l)\<rparr>"

definition ticketed :: "db \<Rightarrow> order_line \<Rightarrow> bool" where
  "ticketed d l = list_ex (\<lambda>k. tl_orderLineId k = ol_id l) (ticketLines d)"

definition buildOrderView :: "db \<Rightarrow> order \<Rightarrow> order_view" where
  "buildOrderView d x =
    (let ls = live_lines d (o_id x);
         firedParents = List.map_filter ol_parentLineId (filter (ticketed d) ls)
     in \<lparr>ow_id = o_id x, ow_tenantId = o_tenantId x, ow_outletId = o_outletId x, ow_tableId = o_tableId x,
         ow_tableLabel = (case o_tableId x of None \<Rightarrow> None | Some t \<Rightarrow> map_option dt_label (find_row dt_id t (diningTables d))),
         ow_ownerId = o_ownerId x, ow_ownerName = staff_name d (o_ownerId x), ow_status = o_status x,
         ow_tokenNumber = o_tokenNumber x, ow_source = o_source x, ow_sessionId = o_sessionId x, ow_createdAt = o_createdAt x,
         ow_lines = map (\<lambda>l. toOrderLineView d l (ticketed d l \<or> ol_id l \<in> set firedParents)) ls\<rparr>)"

definition FORWARD_TRANSITIONS :: "order_status \<Rightarrow> order_status list" where
  "FORWARD_TRANSITIONS s = (case s of o_open \<Rightarrow> [o_sent] | o_sent \<Rightarrow> [] | o_closed \<Rightarrow> [])"

section \<open>Reads\<close>

record table_map_entry =
  tm_tableId :: uuid
  tm_floorId :: uuid
  tm_floorName :: string
  tm_label :: string
  tm_seatCapacity :: int
  tm_occupied :: bool
  tm_orderId :: "uuid option"
  tm_ownerId :: "uuid option"
  tm_ownerName :: "string option"
  tm_guestSessionOpen :: bool

definition getTableMap :: "env \<Rightarrow> pos_principal \<Rightarrow> uuid \<Rightarrow> db \<Rightarrow> table_map_entry list result" where
  "getTableMap e staff outletId d =
    r_bind (loadOutlet d (pp_tenantId staff) outletId) (\<lambda>_.
      let tabs = filter (\<lambda>t. dt_tenantId t = pp_tenantId staff \<and> dt_outletId t = outletId) (diningTables d);
          activeOrders = filter (\<lambda>x. o_tenantId x = pp_tenantId staff \<and> o_outletId x = outletId \<and> o_status x \<noteq> o_closed \<and>
             o_tableId x \<noteq> None \<and> o_createdAt x \<ge> liveSince e) (orders d);
          byTable = map_of (rev (map (\<lambda>x. (o_tableId x, x)) activeOrders));
          sessionTables = map ts_tableId (filter (\<lambda>s. ts_tenantId s = pp_tenantId staff \<and> ts_status s = s_open) (tableSessions d))
      in Inr (map (\<lambda>t. let ord = byTable (Some (dt_id t)) in
           \<lparr>tm_tableId = dt_id t, tm_floorId = dt_floorId t, tm_floorName = dt_floorName t, tm_label = dt_label t,
            tm_seatCapacity = dt_seatCapacity t, tm_occupied = (ord \<noteq> None), tm_orderId = map_option o_id ord,
            tm_ownerId = (case ord of None \<Rightarrow> None | Some x \<Rightarrow> o_ownerId x),
            tm_ownerName = (case ord of None \<Rightarrow> None | Some x \<Rightarrow> staff_name d (o_ownerId x)),
            tm_guestSessionOpen = (Some (dt_id t) \<in> set sessionTables)\<rparr>) tabs))"

definition listOpenOrders :: "pos_principal \<Rightarrow> uuid \<Rightarrow> db \<Rightarrow> order_view list result" where
  "listOpenOrders staff outletId d =
    r_bind (loadOutlet d (pp_tenantId staff) outletId) (\<lambda>_.
      Inr (map (buildOrderView d) (filter (\<lambda>x. o_tenantId x = pp_tenantId staff \<and> o_outletId x = outletId \<and>
        o_status x \<noteq> o_closed) (orders d))))"

definition getOrder :: "pos_principal \<Rightarrow> uuid \<Rightarrow> db \<Rightarrow> order_view result" where
  "getOrder staff orderId d =
    r_bind (loadOrder d (pp_tenantId staff) orderId) (\<lambda>x. Inr (buildOrderView d x))"

section \<open>Opening orders\<close>

definition insert_order :: "order \<Rightarrow> db \<Rightarrow> db result" where
  "insert_order x d =
    (if o_tableId x \<noteq> None \<and> o_status x \<noteq> o_closed \<and> list_ex (\<lambda>y. o_tableId y = o_tableId x \<and> o_status y \<noteq> o_closed) (orders d)
     then Inl (InternalError ''P2002'')
     else if o_tokenNumber x \<noteq> None \<and> list_ex (\<lambda>y. o_tenantId y = o_tenantId x \<and> o_outletId y = o_outletId x \<and>
            o_tokenNumber y = o_tokenNumber x) (orders d)
     then Inl (InternalError ''P2002'')
     else Inr (d\<lparr>orders := orders d @ [x]\<rparr>))"

definition openOrClaimTable :: "env \<Rightarrow> pos_principal \<Rightarrow> uuid \<Rightarrow> uuid \<Rightarrow> db \<Rightarrow> (order_view \<times> db) result" where
  "openOrClaimTable e staff outletId tableId d =
    r_bind (loadTableInOutlet d (pp_tenantId staff) outletId tableId) (\<lambda>_.
      let d1 = detachStaleTableOrder e (pp_tenantId staff) tableId (Some (pp_id staff)) (pp_name staff) d;
          onTable = (\<lambda>x. o_tenantId x = pp_tenantId staff \<and> o_tableId x = Some tableId \<and> o_status x \<noteq> o_closed)
      in (case find onTable (orders d1) of
            Some existing \<Rightarrow> Inr (buildOrderView d1 existing, d1)
          | None \<Rightarrow>
             (let (i, d2) = take_id d1;
                  x = \<lparr>o_id = i, o_tenantId = pp_tenantId staff, o_outletId = outletId, o_tableId = Some tableId,
                       o_ownerId = Some (pp_id staff), o_status = o_open, o_tokenNumber = None, o_source = src_pos,
                       o_sessionId = None, o_createdAt = now e\<rparr>
              in (case insert_order x d2 of
                    Inr d3 \<Rightarrow> Inr (buildOrderView d3 x, d3)
                  | Inl err \<Rightarrow> (case find onTable (orders d2) of
                       Some raced \<Rightarrow> Inr (buildOrderView d2 raced, d2)
                     | None \<Rightarrow> Inl err)))))"

definition createCounterOrder :: "env \<Rightarrow> pos_principal \<Rightarrow> uuid \<Rightarrow> db \<Rightarrow> (order_view \<times> db) result" where
  "createCounterOrder e staff outletId d =
    r_bind (loadOutlet d (pp_tenantId staff) outletId) (\<lambda>_.
      let (tokenNumber, d1) = reserveTokenNumber (pp_tenantId staff) outletId d;
          (i, d2) = take_id d1;
          x = \<lparr>o_id = i, o_tenantId = pp_tenantId staff, o_outletId = outletId, o_tableId = None,
               o_ownerId = Some (pp_id staff), o_status = o_open, o_tokenNumber = Some tokenNumber, o_source = src_pos,
               o_sessionId = None, o_createdAt = now e\<rparr>
      in r_bind (insert_order x d2) (\<lambda>d3. Inr (buildOrderView d3 x, d3)))"

section \<open>Changing orders\<close>

definition set_order :: "uuid \<Rightarrow> (order \<Rightarrow> order) \<Rightarrow> db \<Rightarrow> db" where
  "set_order k f d = d\<lparr>orders := update_rows (\<lambda>x. o_id x = k) f (orders d)\<rparr>"

definition updateStatus :: "env \<Rightarrow> pos_principal \<Rightarrow> uuid \<Rightarrow> order_status \<Rightarrow> db \<Rightarrow> (order_view \<times> db) result" where
  "updateStatus e staff orderId status d =
    r_bind (loadOrder d (pp_tenantId staff) orderId) (\<lambda>x.
    r_bind (assertOwner x staff) (\<lambda>_.
      if o_status x = o_sent \<and> status = o_sent
      then let (n, d1) = fireOnSend e (o_id x) (o_tenantId x) (o_outletId x) d
           in if n = 0 then Inl (Conflict ''invalid_transition'') else Inr (buildOrderView d1 x, d1)
      else if status \<notin> set (FORWARD_TRANSITIONS (o_status x)) then Inl (Conflict ''invalid_transition'')
      else let updated = x\<lparr>o_status := status\<rparr>;
               d1 = set_order orderId (\<lambda>y. y\<lparr>o_status := status\<rparr>) d;
               d2 = (if status = o_sent then snd (fireOnSend e (o_id updated) (o_tenantId updated) (o_outletId updated) d1) else d1)
           in Inr (buildOrderView d2 updated, d2)))"

definition add_audit :: "env \<Rightarrow> pos_principal \<Rightarrow> string \<Rightarrow> string \<Rightarrow> db \<Rightarrow> db" where
  "add_audit e staff action reason d = d\<lparr>auditEvents := auditEvents d @
     [\<lparr>ae_tenantId = pp_tenantId staff, ae_actorId = Some (pp_id staff), ae_actorEmail = pp_name staff, ae_approverId = None,
       ae_approverName = None, ae_action = action, ae_reason = reason, ae_occurredAt = now e\<rparr>]\<rparr>"

definition discard :: "env \<Rightarrow> pos_principal \<Rightarrow> uuid \<Rightarrow> db \<Rightarrow> (unit \<times> db) result" where
  "discard e staff orderId d =
    r_bind (loadOrder d (pp_tenantId staff) orderId) (\<lambda>x.
    r_bind (assertOwner x staff) (\<lambda>_.
      if o_status x = o_closed then Inl (Conflict ''conflict'')
      else let ls = filter (\<lambda>l. ol_orderId l = orderId) (orderLines d);
               bill = find_row b_orderId orderId (bills d)
      in if list_ex (\<lambda>l. ol_voidedAt l = None) ls then Inl (Conflict ''order_not_empty'')
         else if (case bill of None \<Rightarrow> False
                  | Some b \<Rightarrow> b_status b \<noteq> b_open \<or>
                      count_rows (\<lambda>t. td_billId t = b_id b) (tenders d) + count_rows (\<lambda>i. pi_billId i = b_id b) (intents d) +
                      count_rows (\<lambda>s. bs_billId s = b_id b) (billShares d) > 0)
         then Inl (Conflict ''has_payments'')
         else let d1 = (case bill of None \<Rightarrow> d
                        | Some b \<Rightarrow> d\<lparr>bills := filter (\<lambda>y. b_id y \<noteq> b_id b) (bills d),
                                      printJobs := filter (\<lambda>j. pj_billId j \<noteq> b_id b) (printJobs d)\<rparr>);
                  d2 = (if ls = [] then d1\<lparr>orders := filter (\<lambda>y. o_id y \<noteq> orderId) (orders d1)\<rparr>
                        else set_order orderId (\<lambda>y. y\<lparr>o_status := o_closed\<rparr>) d1);
                  what = (case o_tokenNumber x of Some n \<Rightarrow> ''token '' @ show_int n
                          | None \<Rightarrow> if o_tableId x \<noteq> None then ''table order'' else ''order'')
              in Inr ((), add_audit e staff ''order.discarded'' (''Discarded empty '' @ what @ '' '' @ show_digits orderId) d2)))"

definition transfer :: "env \<Rightarrow> pos_principal \<Rightarrow> uuid \<Rightarrow> uuid \<Rightarrow> string option \<Rightarrow> db \<Rightarrow> (order_view \<times> db) result" where
  "transfer e staff orderId newOwnerStaffId reason d =
    r_bind (loadOrder d (pp_tenantId staff) orderId) (\<lambda>x.
      if o_status x = o_closed then Inl (Conflict ''conflict'')
      else (case find_row su_id newOwnerStaffId (staffUsers d) of
              None \<Rightarrow> Inl (BadRequest ''validation_failed'')
            | Some u \<Rightarrow>
                if su_tenantId u \<noteq> pp_tenantId staff then Inl (BadRequest ''validation_failed'')
                else let updated = x\<lparr>o_ownerId := Some newOwnerStaffId\<rparr>;
                         d1 = set_order orderId (\<lambda>y. y\<lparr>o_ownerId := Some newOwnerStaffId\<rparr>) d;
                         d2 = add_audit e staff ''order.ownership_transferred''
                           (nullish reason (''Ownership handed from staff '' @
                              (case o_ownerId x of None \<Rightarrow> ''null'' | Some s \<Rightarrow> show_digits s) @ '' to staff '' @ show_digits newOwnerStaffId)) d1
                     in Inr (buildOrderView d2 updated, d2)))"

section \<open>The floor\<close>

interpretation order_loader: scoped_loader loadOrder orders o_id o_tenantId
  by unfold_locales (auto simp: loadOrder_def split: option.splits if_splits)

text \<open>An order holds its table while it is not closed. No table is held twice.\<close>

definition holds_table :: "order \<Rightarrow> bool" where
  "holds_table x \<longleftrightarrow> o_status x \<noteq> o_closed \<and> o_tableId x \<noteq> None"

definition held_tables :: "order list \<Rightarrow> uuid option list" where
  "held_tables os = map o_tableId (filter holds_table os)"

definition floor_ok :: "db \<Rightarrow> bool" where
  "floor_ok d \<longleftrightarrow> keys_ok (nextId d) (map o_id (orders d)) \<and> distinct (held_tables (orders d))"

fun status_rank :: "order_status \<Rightarrow> nat" where
  "status_rank o_open = 0"
| "status_rank o_sent = 1"
| "status_rank o_closed = 2"

text \<open>Orders only move forward, keep their tenant and outlet, and are deleted only while nothing was ordered on them.\<close>

definition orders_forward :: "db \<Rightarrow> db \<Rightarrow> bool" where
  "orders_forward d d' \<longleftrightarrow>
     (\<forall>x \<in> set (orders d). \<forall>y \<in> set (orders d'). o_id y = o_id x \<longrightarrow>
        status_rank (o_status x) \<le> status_rank (o_status y) \<and> o_tenantId y = o_tenantId x \<and> o_outletId y = o_outletId x \<and>
        o_tokenNumber y = o_tokenNumber x) \<and>
     (\<forall>x \<in> set (orders d). o_id x \<notin> o_id ` set (orders d') \<longrightarrow> (\<forall>l \<in> set (orderLines d). ol_orderId l \<noteq> o_id x))"

lemma held_tables_update:
  assumes "\<And>x. x \<in> set os \<Longrightarrow> p x \<Longrightarrow> holds_table (f x) \<Longrightarrow> holds_table x \<and> o_tableId (f x) = o_tableId x"
  shows "set (held_tables (update_rows p f os)) \<subseteq> set (held_tables os) \<and>
    (distinct (held_tables os) \<longrightarrow> distinct (held_tables (update_rows p f os)))"
  using assms by (induction os) (auto simp: held_tables_def update_rows_def subset_iff)

lemma floor_ok_update:
  assumes "floor_ok d" and "orders d' = update_rows p f (orders d)" and "nextId d \<le> nextId d'"
    and "\<And>x. o_id (f x) = o_id x"
    and "\<And>x. x \<in> set (orders d) \<Longrightarrow> p x \<Longrightarrow> holds_table (f x) \<Longrightarrow> holds_table x \<and> o_tableId (f x) = o_tableId x"
  shows "floor_ok d'"
  using assms(1,2,3,4) held_tables_update [of "orders d" p f] assms(5) by (auto simp: floor_ok_def intro: keys_ok_mono)

lemma floor_ok_frame: "floor_ok d \<Longrightarrow> orders d' = orders d \<Longrightarrow> nextId d \<le> nextId d' \<Longrightarrow> floor_ok d'"
  by (auto simp: floor_ok_def intro: keys_ok_mono)

lemma floor_ok_unique:
  assumes "floor_ok d" and "x \<in> set (orders d)" and "y \<in> set (orders d)" and "o_id x = o_id y"
  shows "x = y"
  using assms by (auto simp: floor_ok_def keys_ok_def distinct_map dest: inj_onD)

lemma orders_forward_refl: "floor_ok d \<Longrightarrow> orders d' = orders d \<Longrightarrow> orders_forward d d'"
  using floor_ok_unique by (fastforce simp: orders_forward_def)

lemma orders_forward_change:
  assumes "floor_ok d" and "orders d' = update_rows p f (orders d) @ new" and "\<And>x. o_id (f x) = o_id x"
    and "\<And>x. x \<in> set (orders d) \<Longrightarrow> p x \<Longrightarrow> status_rank (o_status x) \<le> status_rank (o_status (f x)) \<and> o_tenantId (f x) = o_tenantId x \<and>
      o_outletId (f x) = o_outletId x \<and> o_tokenNumber (f x) = o_tokenNumber x"
    and "\<And>y. y \<in> set new \<Longrightarrow> o_id y \<notin> o_id ` set (orders d)"
  shows "orders_forward d d'"
proof -
  have "status_rank (o_status x) \<le> status_rank (o_status y) \<and> o_tenantId y = o_tenantId x \<and> o_outletId y = o_outletId x \<and>
      o_tokenNumber y = o_tokenNumber x"
    if x: "x \<in> set (orders d)" and y: "y \<in> set (orders d')" and xy: "o_id y = o_id x" for x y
  proof -
    have "y \<notin> set new" using assms(5) x xy by (metis imageI)
    then obtain z where z: "z \<in> set (orders d)" "y = (if p z then f z else z)"
      using y unfolding assms(2) by (auto simp: set_update_rows)
    then have "o_id z = o_id x" using assms(3) xy by (cases "p z") simp_all
    then have "z = x" using floor_ok_unique [OF assms(1) z(1) x] by simp
    with z assms(4) show ?thesis by auto
  qed
  moreover have "o_id x \<in> o_id ` set (orders d')" if "x \<in> set (orders d)" for x
  proof -
    have "map o_id (orders d') = map o_id (orders d) @ map o_id new" using assms(2,3) by simp
    then have "set (map o_id (orders d')) = set (map o_id (orders d)) \<union> set (map o_id new)" by simp
    with that show ?thesis by auto
  qed
  ultimately show ?thesis by (auto simp: orders_forward_def)
qed

lemmas orders_forward_update = orders_forward_change [where new = "[]", simplified]

lemma insert_order_Inr:
  "insert_order x d = Inr d' \<longleftrightarrow> d' = d\<lparr>orders := orders d @ [x]\<rparr> \<and>
     (holds_table x \<longrightarrow> o_tableId x \<notin> set (held_tables (orders d))) \<and>
     (o_tokenNumber x = None \<or> \<not> list_ex (\<lambda>y. o_tenantId y = o_tenantId x \<and> o_outletId y = o_outletId x \<and>
        o_tokenNumber y = o_tokenNumber x) (orders d))"
  by (auto simp: insert_order_def held_tables_def holds_table_def list_ex_iff image_iff)

lemma insert_order_keeps:
  assumes "insert_order x (d\<lparr>nextId := Suc (nextId d)\<rparr>) = Inr d'" and "floor_ok d" and "o_id x = nextId d"
  shows "floor_ok d'"
proof -
  have d': "d' = d\<lparr>nextId := Suc (nextId d), orders := orders d @ [x]\<rparr>"
    "holds_table x \<longrightarrow> o_tableId x \<notin> set (held_tables (orders d))"
    using assms(1) by (auto simp: insert_order_Inr)
  have "keys_ok (Suc (nextId d)) (map o_id (orders d) @ [nextId d])"
    using assms(2) keys_ok_append by (simp add: floor_ok_def)
  with d' assms(2,3) show "floor_ok d'" by (auto simp: floor_ok_def held_tables_def)
qed

lemma fresh_order_id: "floor_ok d \<Longrightarrow> nextId d \<notin> o_id ` set (orders d)"
  by (auto simp: floor_ok_def keys_ok_def)

lemma detach_keeps:
  assumes "floor_ok d"
  shows "floor_ok (detachStaleTableOrder e t tab aid mail d)" "orders_forward d (detachStaleTableOrder e t tab aid mail d)"
    "nextId (detachStaleTableOrder e t tab aid mail d) = nextId d"
proof -
  obtain p where p: "orders (detachStaleTableOrder e t tab aid mail d) = update_rows p (\<lambda>x. x\<lparr>o_tableId := None\<rparr>) (orders d)"
    using detachStaleTableOrder_orders by blast
  show n: "nextId (detachStaleTableOrder e t tab aid mail d) = nextId d"
    by (simp add: detachStaleTableOrder_def split: option.splits)
  show "floor_ok (detachStaleTableOrder e t tab aid mail d)"
    by (rule floor_ok_update [OF assms p]) (simp_all add: n holds_table_def)
  show "orders_forward d (detachStaleTableOrder e t tab aid mail d)"
    by (rule orders_forward_update [OF assms p]) simp_all
qed

lemma openOrClaimTable_cases:
  fixes d staff tab
  defines "d1 e \<equiv> detachStaleTableOrder e (pp_tenantId staff) tab (Some (pp_id staff)) (pp_name staff) d"
  assumes "openOrClaimTable e staff out tab d = Inr (v, d')"
  obtains (viewed) x where "x \<in> set (orders (d1 e))" "o_tenantId x = pp_tenantId staff" "o_tableId x = Some tab" "o_status x \<noteq> o_closed"
      "v = buildOrderView (d1 e) x" "d' = d1 e"
  | (opened) x where "o_id x = nextId d" "o_tableId x = Some tab" "o_status x = o_open" "o_ownerId x = Some (pp_id staff)"
      "o_tenantId x = pp_tenantId staff" "insert_order x ((d1 e)\<lparr>nextId := Suc (nextId d)\<rparr>) = Inr d'" "v = buildOrderView d' x"
proof -
  let ?on = "\<lambda>x. o_tenantId x = pp_tenantId staff \<and> o_tableId x = Some tab \<and> o_status x \<noteq> o_closed"
  let ?x = "\<lparr>o_id = nextId (d1 e), o_tenantId = pp_tenantId staff, o_outletId = out, o_tableId = Some tab,
       o_ownerId = Some (pp_id staff), o_status = o_open, o_tokenNumber = None, o_source = src_pos,
       o_sessionId = None, o_createdAt = now e\<rparr>"
  have nx: "nextId (d1 e) = nextId d" unfolding d1_def by (simp add: detachStaleTableOrder_def split: option.splits)
  obtain tb where tb: "loadTableInOutlet d (pp_tenantId staff) out tab = Inr tb"
    using assms(2) by (auto simp: openOrClaimTable_def r_bind_eq_Inr)
  show thesis
  proof (cases "find ?on (orders (d1 e))")
    case (Some x)
    then have "v = buildOrderView (d1 e) x" "d' = d1 e"
      using assms(2) tb unfolding d1_def by (auto simp: openOrClaimTable_def Let_def)
    with find_SomeD [OF Some] show thesis by (intro viewed [of x]) auto
  next
    case None
    then have "insert_order ?x ((d1 e)\<lparr>nextId := Suc (nextId (d1 e))\<rparr>) = Inr d' \<and> v = buildOrderView d' ?x"
      using assms(2) tb unfolding d1_def
      by (auto simp: openOrClaimTable_def Let_def take_id_def split: sum.splits)
    then show thesis using nx by (intro opened [of ?x]) simp_all
  qed
qed

lemma openOrClaimTable_keeps:
  assumes "openOrClaimTable e staff out tab d = Inr (v, d')" and "floor_ok d"
  shows "floor_ok d'" "orders_forward d d'"
proof -
  let ?d1 = "detachStaleTableOrder e (pp_tenantId staff) tab (Some (pp_id staff)) (pp_name staff) d"
  note k = detach_keeps [OF assms(2), of e "pp_tenantId staff" tab "Some (pp_id staff)" "pp_name staff"]
  from assms(1) have "floor_ok d' \<and> orders_forward d d'"
  proof (cases rule: openOrClaimTable_cases)
    case (viewed x)
    with k show ?thesis by simp
  next
    case (opened x)
    obtain p where p: "orders ?d1 = update_rows p (\<lambda>x. x\<lparr>o_tableId := None\<rparr>) (orders d)"
      using detachStaleTableOrder_orders by blast
    have "floor_ok d'" using insert_order_keeps [OF _ k(1), of x] opened(1,6) k(3) by simp
    moreover have "orders d' = update_rows p (\<lambda>x. x\<lparr>o_tableId := None\<rparr>) (orders d) @ [x]"
      using opened(6) p by (simp add: insert_order_Inr)
    then have "orders_forward d d'"
      by (rule orders_forward_change [OF assms(2)]) (use opened(1) fresh_order_id [OF assms(2)] in auto)
    ultimately show ?thesis by blast
  qed
  then show "floor_ok d'" "orders_forward d d'" by auto
qed

lemma createCounterOrder_Inr:
  assumes "createCounterOrder e staff out d = Inr (v, d')"
  obtains n d1 x where "reserveTokenNumber (pp_tenantId staff) out d = (n, d1)" "o_id x = nextId d" "o_tokenNumber x = Some n"
    "o_tableId x = None" "o_status x = o_open" "o_tenantId x = pp_tenantId staff" "o_outletId x = out"
    "d' = d1\<lparr>nextId := Suc (nextId d), orders := orders d @ [x]\<rparr>" "v = buildOrderView d' x"
proof -
  obtain n d1 where r: "reserveTokenNumber (pp_tenantId staff) out d = (n, d1)" by fastforce
  have d1: "nextId d1 = nextId d" "orders d1 = orders d"
    using r by (auto simp: reserveTokenNumber_def Let_def split: option.splits)
  show thesis
    using assms r d1 by (intro that [OF r]) (auto simp: createCounterOrder_def take_id_def Let_def result_simps insert_order_Inr)
qed

lemma reserveTokenNumber_fields:
  assumes "reserveTokenNumber t out d = (n, d1)"
  shows "nextId d1 = nextId d" "orders d1 = orders d" "bills d1 = bills d" "tenders d1 = tenders d" "billCounters d1 = billCounters d"
    "creditNotes d1 = creditNotes d" "orderLines d1 = orderLines d"
    "max_token out d < n" "last_token out d < n" "last_token out d1 = n"
proof -
  show "last_token out d1 = n" using tokens.take_records [of out t d] assms by simp
  show "last_token out d < n" using tokens.take_above [of out d t] assms by simp
qed (use assms in \<open>auto simp: reserveTokenNumber_def Let_def split: option.splits\<close>)

lemma createCounterOrder_keeps:
  assumes "createCounterOrder e staff out d = Inr (v, d')" and "floor_ok d"
  shows "floor_ok d'" "orders_forward d d'"
proof -
  obtain n d1 x where c: "reserveTokenNumber (pp_tenantId staff) out d = (n, d1)" "o_id x = nextId d" "o_tableId x = None"
    "d' = d1\<lparr>nextId := Suc (nextId d), orders := orders d @ [x]\<rparr>"
    using assms(1) by (rule createCounterOrder_Inr) (rule that)
  have "keys_ok (Suc (nextId d)) (map o_id (orders d) @ [nextId d])"
    using assms(2) keys_ok_append by (simp add: floor_ok_def)
  with c assms(2) show "floor_ok d'" by (simp add: floor_ok_def held_tables_def holds_table_def)
  have "orders d' = update_rows (\<lambda>_. False) id (orders d) @ [x]" using c(4) by (simp add: update_rows_none)
  then show "orders_forward d d'"
    by (rule orders_forward_change [OF assms(2)]) (use c(2) fresh_order_id [OF assms(2)] in auto)
qed

text \<open>Token numbers. A counter order gets a number above every number in use at its outlet and above the
  outlet's counter, so no two orders of an outlet ever share one; the call cannot fail on the unique
  index.\<close>

theorem createCounterOrder_fresh_token:
  assumes "loadOutlet d (pp_tenantId staff) out = Inr o'"
  shows "\<exists>v d' n. createCounterOrder e staff out d = Inr (v, d') \<and> ow_tokenNumber v = Some n \<and> last_token out d < n \<and>
    last_token out d' = n \<and>
    (\<forall>x \<in> set (orders d). o_outletId x = out \<longrightarrow> (\<forall>k. o_tokenNumber x = Some k \<longrightarrow> k < n))"
proof -
  obtain n d1 where r: "reserveTokenNumber (pp_tenantId staff) out d = (n, d1)" by fastforce
  note f = reserveTokenNumber_fields [OF r]
  have below: "\<forall>x \<in> set (orders d). o_outletId x = out \<longrightarrow> (\<forall>k. o_tokenNumber x = Some k \<longrightarrow> k < n)"
    using max_token_ge f(8) by fastforce
  then have "\<not> list_ex (\<lambda>y. o_tenantId y = pp_tenantId staff \<and> o_outletId y = out \<and> o_tokenNumber y = Some n) (orders d1)"
    using f(2) by (auto simp: list_ex_iff)
  then obtain v d' where v: "createCounterOrder e staff out d = Inr (v, d')"
    using assms r by (auto simp: createCounterOrder_def take_id_def Let_def insert_order_def)
  obtain n' d2 x where c: "reserveTokenNumber (pp_tenantId staff) out d = (n', d2)" "o_tokenNumber x = Some n'"
    "d' = d2\<lparr>nextId := Suc (nextId d), orders := orders d @ [x]\<rparr>" "v = buildOrderView d' x"
    using v by (rule createCounterOrder_Inr) (rule that)
  have "ow_tokenNumber v = Some n" using c r by (simp add: buildOrderView_def Let_def)
  moreover have "last_token out d' = n" using c(1,3) r f(10) by (simp add: last_token_def)
  ultimately show ?thesis using v f(9) below by blast
qed

lemmas counter_eval = loadOutlet_def find_row_def sample_defs

theorem createCounterOrder_fresh_token_witness:
  "\<exists>v d' n. createCounterOrder s_env s_cashier 2 s_db_order = Inr (v, d') \<and> ow_tokenNumber v = Some n \<and> 0 < n"
proof -
  have "loadOutlet s_db_order (pp_tenantId s_cashier) 2 = Inr s_outlet" by (simp add: counter_eval)
  from createCounterOrder_fresh_token [OF this, of s_env] show ?thesis
    by (auto simp: last_token_def sample_defs)
qed

lemma updateStatus_cases:
  assumes "updateStatus e staff k st d = Inr (v, d')"
  obtains (again) x n where "loadOrder d (pp_tenantId staff) k = Inr x" "assertOwner x staff = Inr ()" "o_status x = o_sent" "st = o_sent"
      "fireOnSend e (o_id x) (o_tenantId x) (o_outletId x) d = (n, d')" "n \<noteq> 0"
  | (sent) x n where "loadOrder d (pp_tenantId staff) k = Inr x" "assertOwner x staff = Inr ()" "o_status x = o_open" "st = o_sent"
      "fireOnSend e (o_id x) (o_tenantId x) (o_outletId x) (set_order k (\<lambda>y. y\<lparr>o_status := o_sent\<rparr>) d) = (n, d')"
proof -
  obtain x where x: "loadOrder d (pp_tenantId staff) k = Inr x" "assertOwner x staff = Inr ()"
    using assms by (auto simp: updateStatus_def r_bind_eq_Inr)
  show thesis
  proof (cases "o_status x = o_sent \<and> st = o_sent")
    case True
    with assms x show thesis
      by (intro again [OF x, of "fst (fireOnSend e (o_id x) (o_tenantId x) (o_outletId x) d)"])
        (auto simp: updateStatus_def Let_def split: prod.splits if_splits)
  next
    case False
    have "\<not> (o_status x = o_sent \<and> st = o_sent)" "st \<in> set (FORWARD_TRANSITIONS (o_status x))"
      using False assms x by (auto simp: updateStatus_def split: if_splits)
    then have st: "st = o_sent" "o_status x = o_open"
      by (cases "o_status x"; simp add: FORWARD_TRANSITIONS_def)+
    then have "snd (fireOnSend e (o_id x) (o_tenantId x) (o_outletId x) (set_order k (\<lambda>y. y\<lparr>o_status := o_sent\<rparr>) d)) = d'"
      using assms x by (simp add: updateStatus_def Let_def FORWARD_TRANSITIONS_def)
    then show thesis using x st by (intro sent [of x "fst (fireOnSend e (o_id x) (o_tenantId x) (o_outletId x) (set_order k (\<lambda>y. y\<lparr>o_status := o_sent\<rparr>) d))"]) auto
  qed
qed

lemma updateStatus_keeps:
  assumes "updateStatus e staff k st d = Inr (v, d')" and "floor_ok d"
  shows "floor_ok d'" "orders_forward d d'"
proof -
  from assms(1) have "floor_ok d' \<and> orders_forward d d'"
  proof (cases rule: updateStatus_cases)
    case (again x n)
    have "orders d' = orders d" "nextId d \<le> nextId d'"
      using non_kitchenD(1) [OF fireOnSend_frame [OF again(5)]] fireOnSend_nextId [of d] again(5) by (auto, metis snd_conv)
    with assms(2) show ?thesis by (auto intro: floor_ok_frame orders_forward_refl)
  next
    case (sent x n)
    let ?d1 = "set_order k (\<lambda>y. y\<lparr>o_status := o_sent\<rparr>) d"
    have o: "orders d' = update_rows (\<lambda>y. o_id y = k) (\<lambda>y. y\<lparr>o_status := o_sent\<rparr>) (orders d)"
      using non_kitchenD(1) [OF fireOnSend_frame [OF sent(5)]] by (simp add: set_order_def)
    have nx: "nextId d \<le> nextId d'"
      using fireOnSend_nextId [where d = ?d1 and e = e and orderId = "o_id x" and t = "o_tenantId x" and out = "o_outletId x"] sent(5) by (simp add: set_order_def)
    have op: "o_status y = o_open" if "y \<in> set (orders d)" "o_id y = k" for y
      using order_loader.load_member [OF sent(1)] floor_ok_unique [OF assms(2) that(1)] that(2) sent(3) by metis
    have "floor_ok d'"
      by (rule floor_ok_update [OF assms(2) o nx]) (use op in \<open>auto simp: holds_table_def\<close>)
    moreover have "orders_forward d d'"
      by (rule orders_forward_update [OF assms(2) o]) (use op in auto)
    ultimately show ?thesis by blast
  qed
  then show "floor_ok d'" "orders_forward d d'" by auto
qed

lemma discard_Inr:
  assumes "discard e staff k d = Inr (u, d')"
  obtains x where "loadOrder d (pp_tenantId staff) k = Inr x" "assertOwner x staff = Inr ()" "o_status x \<noteq> o_closed"
    "\<And>l. l \<in> set (orderLines d) \<Longrightarrow> ol_orderId l = k \<Longrightarrow> ol_voidedAt l \<noteq> None"
    "\<And>b. find_row b_orderId k (bills d) = Some b \<Longrightarrow> b_status b = b_open \<and> tender_sum d (b_id b) = 0 \<and> bill_tenders d (b_id b) = []"
    "bills d' = (case find_row b_orderId k (bills d) of None \<Rightarrow> bills d | Some b \<Rightarrow> filter (\<lambda>y. b_id y \<noteq> b_id b) (bills d))"
    "orders d' = (if filter (\<lambda>l. ol_orderId l = k) (orderLines d) = [] then filter (\<lambda>y. o_id y \<noteq> k) (orders d)
       else update_rows (\<lambda>y. o_id y = k) (\<lambda>y. y\<lparr>o_status := o_closed\<rparr>) (orders d))"
    "tenders d' = tenders d" "creditNotes d' = creditNotes d" "billCounters d' = billCounters d" "nextId d' = nextId d" "orderLines d' = orderLines d"
proof -
  obtain x where x: "loadOrder d (pp_tenantId staff) k = Inr x" "assertOwner x staff = Inr ()" "o_status x \<noteq> o_closed"
    using assms by (auto simp: discard_def r_bind_eq_Inr split: if_splits)
  have v: "\<not> list_ex (\<lambda>l. ol_voidedAt l = None) (filter (\<lambda>l. ol_orderId l = k) (orderLines d))"
    using assms x by (auto simp: discard_def Let_def split: if_splits)
  have nopay: "b_status b = b_open \<and> count_rows (\<lambda>t. td_billId t = b_id b) (tenders d) = 0"
    if "find_row b_orderId k (bills d) = Some b" for b
    using assms x v that by (auto simp: discard_def Let_def split: if_splits)
  then have pay: "b_status b = b_open \<and> tender_sum d (b_id b) = 0 \<and> bill_tenders d (b_id b) = []"
    if "find_row b_orderId k (bills d) = Some b" for b
    using that by (auto simp: tender_sum_def bill_tenders_def count_rows_def)
  show thesis
    by (rule that [OF x _ pay])
      (use assms x v in \<open>auto simp: discard_def Let_def add_audit_def set_order_def list_ex_iff split: if_splits option.splits\<close>)
qed

lemma books_ok_delete_open:
  assumes "books_ok d" and "bills d' = filter (\<lambda>y. b_id y \<noteq> k) (bills d)" and "tenders d' = tenders d"
    and "billCounters d' = billCounters d" and "nextId d' = nextId d"
    and "\<And>b. b \<in> set (bills d) \<Longrightarrow> b_id b = k \<Longrightarrow> b_status b = b_open"
  shows "books_ok d'"
proof -
  have l: "last_bill_number out d' = last_bill_number out d" for out by (simp add: last_bill_number_def assms(4))
  have n: "numbers_at out d' = numbers_at out d" for out
    unfolding numbers_at_def assms(2) filter_filter
    by (intro arg_cong [where f = "map b_billNumber"] filter_cong) (auto simp: finalized_at_def dest: assms(6))
  have "bill_ok d' b" if "b \<in> set (bills d)" for b
    using books_okD(1) [OF assms(1) that] by (rule bill_ok_cong [rotated 2]) (simp_all add: assms(3) l)
  then show ?thesis using assms(1) l n
    by (auto simp: books_ok_def assms(2,5) keys_ok_filter distinct_map_filter)
qed

lemma discard_keeps:
  assumes "discard e staff k d = Inr (u, d')" and "floor_ok d" and "books_ok d"
  shows "floor_ok d'" "orders_forward d d'" "books_ok d'" "ledger_grows d d'"
proof -
  obtain x where "loadOrder d (pp_tenantId staff) k = Inr x" and c: "o_status x \<noteq> o_closed"
    "\<And>b. find_row b_orderId k (bills d) = Some b \<Longrightarrow> b_status b = b_open \<and> tender_sum d (b_id b) = 0 \<and> bill_tenders d (b_id b) = []"
    "bills d' = (case find_row b_orderId k (bills d) of None \<Rightarrow> bills d | Some b \<Rightarrow> filter (\<lambda>y. b_id y \<noteq> b_id b) (bills d))"
    "orders d' = (if filter (\<lambda>l. ol_orderId l = k) (orderLines d) = [] then filter (\<lambda>y. o_id y \<noteq> k) (orders d)
       else update_rows (\<lambda>y. o_id y = k) (\<lambda>y. y\<lparr>o_status := o_closed\<rparr>) (orders d))"
    "tenders d' = tenders d" "creditNotes d' = creditNotes d" "billCounters d' = billCounters d" "nextId d' = nextId d"
    using assms(1) by (rule discard_Inr) (rule that)
  show "books_ok d'" "ledger_grows d d'"
  proof -
    have "books_ok d' \<and> ledger_grows d d'"
    proof (cases "find_row b_orderId k (bills d)")
      case None
      with c assms(3) show ?thesis by (auto intro: books_ok_frame ledger_grows_frame)
    next
      case (Some b)
      have op: "b_status y = b_open" if "y \<in> set (bills d)" "b_id y = b_id b" for y
        using c(2) [OF Some] open_bill_unique [OF assms(3) _ _ that] find_row_Some [OF Some] by blast
      have b': "bills d' = filter (\<lambda>y. b_id y \<noteq> b_id b) (bills d)" using c(3) Some by simp
      have "books_ok d'" by (rule books_ok_delete_open [OF assms(3) b' c(5,7,8)]) (use op in auto)
      moreover have "ledger_grows d d'"
        using op b' c(5,6) by (auto simp: ledger_grows_def bill_tenders_def)
      ultimately show ?thesis by blast
    qed
    then show "books_ok d'" "ledger_grows d d'" by auto
  qed
  show "floor_ok d'" "orders_forward d d'"
  proof -
    have "floor_ok d' \<and> orders_forward d d'"
    proof (cases "filter (\<lambda>l. ol_orderId l = k) (orderLines d) = []")
      case True
      then have o: "orders d' = filter (\<lambda>y. o_id y \<noteq> k) (orders d)" using c(4) by simp
      have "held_tables (orders d') = map o_tableId (filter (\<lambda>y. o_id y \<noteq> k) (filter holds_table (orders d)))"
        unfolding o held_tables_def filter_filter by (auto intro!: arg_cong [where f = "map o_tableId"] filter_cong)
      moreover have "distinct (map o_tableId (filter holds_table (orders d)))"
        using assms(2) by (simp add: floor_ok_def held_tables_def)
      ultimately have "distinct (held_tables (orders d'))" by (simp only: distinct_map_filter)
      then have "floor_ok d'" using assms(2) c(8) o by (simp add: floor_ok_def keys_ok_filter)
      moreover have "orders_forward d d'"
        using floor_ok_unique [OF assms(2)] True by (fastforce simp: orders_forward_def o filter_empty_conv)
      ultimately show ?thesis by blast
    next
      case False
      then have o: "orders d' = update_rows (\<lambda>y. o_id y = k) (\<lambda>y. y\<lparr>o_status := o_closed\<rparr>) (orders d)" using c(4) by simp
      have "status_rank s \<le> 2" for s by (cases s) auto
      then have "orders_forward d d'" by (intro orders_forward_update [OF assms(2) o]) auto
      moreover have "floor_ok d'"
        by (rule floor_ok_update [OF assms(2) o]) (use c(8) in \<open>auto simp: holds_table_def\<close>)
      ultimately show ?thesis by blast
    qed
    then show "floor_ok d'" "orders_forward d d'" by auto
  qed
qed

lemma transfer_Inr:
  assumes "transfer e staff k new reason d = Inr (v, d')"
  obtains x where "loadOrder d (pp_tenantId staff) k = Inr x" "o_status x \<noteq> o_closed"
    "orders d' = update_rows (\<lambda>y. o_id y = k) (\<lambda>y. y\<lparr>o_ownerId := Some new\<rparr>) (orders d)" "nextId d' = nextId d"
    "bills d' = bills d" "tenders d' = tenders d" "creditNotes d' = creditNotes d" "billCounters d' = billCounters d"
  using assms
  by (auto simp: transfer_def r_bind_eq_Inr Let_def add_audit_def set_order_def split: if_splits option.splits)

lemma transfer_keeps:
  assumes "transfer e staff k new reason d = Inr (v, d')" and "floor_ok d"
  shows "floor_ok d'" "orders_forward d d'"
proof -
  obtain x where c: "orders d' = update_rows (\<lambda>y. o_id y = k) (\<lambda>y. y\<lparr>o_ownerId := Some new\<rparr>) (orders d)" "nextId d' = nextId d"
    using assms(1) by (rule transfer_Inr) (rule that)
  show "floor_ok d'" by (rule floor_ok_update [OF assms(2) c(1)]) (use c(2) in \<open>auto simp: holds_table_def\<close>)
  show "orders_forward d d'" by (rule orders_forward_update [OF assms(2) c(1)]) auto
qed

text \<open>C6: Tapping a table. The answer is an unclosed order on that table and it is the only one there. If it
  existed before, viewing it is not a takeover: its owner is unchanged; otherwise it is a new open
  order owned by the caller.\<close>

theorem openOrClaimTable_one_order:
  assumes "openOrClaimTable e staff out tab d = Inr (v, d')" and "floor_ok d"
  shows "\<exists>x. filter (\<lambda>y. o_tableId y = Some tab \<and> o_status y \<noteq> o_closed) (orders d') = [x] \<and> v = buildOrderView d' x \<and>
    (if o_id x < nextId d then \<exists>y \<in> set (orders d). o_id y = o_id x \<and> o_ownerId y = o_ownerId x
     else o_ownerId x = Some (pp_id staff) \<and> o_status x = o_open)"
proof -
  let ?d1 = "detachStaleTableOrder e (pp_tenantId staff) tab (Some (pp_id staff)) (pp_name staff) d"
  let ?on = "\<lambda>y. o_tableId y = Some tab \<and> o_status y \<noteq> o_closed"
  have fo: "floor_ok d'" using openOrClaimTable_keeps [OF assms] by simp
  have single: "filter ?on (orders d') = [x]" if "x \<in> set (orders d')" "?on x" for x
  proof -
    have "filter ?on (orders d') = filter (\<lambda>y. o_tableId y = Some tab) (filter holds_table (orders d'))"
      unfolding filter_filter holds_table_def by (rule filter_cong) auto
    moreover have "distinct (map o_tableId (filter holds_table (orders d')))" using fo by (simp add: floor_ok_def held_tables_def)
    moreover have "length (filter (\<lambda>y. f y = a) xs) \<le> 1" if "distinct (map f xs)" for f :: "order \<Rightarrow> uuid option" and a xs
      using that by (induction xs) (auto simp: filter_empty_conv image_iff)
    ultimately have "length (filter ?on (orders d')) \<le> 1" by metis
    moreover have "x \<in> set (filter ?on (orders d'))" using that by simp
    ultimately show ?thesis by (cases "filter ?on (orders d')") auto
  qed
  from assms(1) show ?thesis
  proof (cases rule: openOrClaimTable_cases)
    case (viewed x)
    obtain p where p: "orders ?d1 = update_rows p (\<lambda>x. x\<lparr>o_tableId := None\<rparr>) (orders d)"
      using detachStaleTableOrder_orders by blast
    have "x \<in> set (update_rows p (\<lambda>x. x\<lparr>o_tableId := None\<rparr>) (orders d))" using viewed(1) p by simp
    then have old: "\<exists>y \<in> set (orders d). o_id y = o_id x \<and> o_ownerId y = o_ownerId x"
      by (force simp: set_update_rows)
    then have "o_id x < nextId d" using assms(2) by (force simp: floor_ok_def keys_ok_def)
    with old viewed single [of x] show ?thesis by auto
  next
    case (opened x)
    have "x \<in> set (orders d')" using opened(6) by (auto simp: insert_order_Inr)
    with opened single [of x] show ?thesis by auto
  qed
qed

lemmas table_eval = openOrClaimTable_def loadTableInOutlet_def detachStaleTableOrder_def liveSince_def LIVE_WINDOW_MS_def
  insert_order_def take_id_def find_row_def Let_def sample_defs

theorem openOrClaimTable_one_order_witness:
  "\<exists>v d' x. openOrClaimTable s_env s_cashier 2 31 s_db_order = Inr (v, d') \<and>
     filter (\<lambda>y. o_tableId y = Some 31 \<and> o_status y \<noteq> o_closed) (orders d') = [x] \<and> v = buildOrderView d' x"
proof -
  obtain v d' where r: "openOrClaimTable s_env s_cashier 2 31 s_db_order = Inr (v, d')"
    by (simp add: table_eval)
  have "floor_ok s_db_order"
    by (simp add: floor_ok_def keys_ok_def held_tables_def holds_table_def sample_defs)
  from openOrClaimTable_one_order [OF r this] r show ?thesis by blast
qed

text \<open>Handing an order over is final: afterwards every other staff member of the tenant is refused both a
  status change and a discard, and the new owner is the only owner.\<close>

theorem transfer_locks_out_others:
  assumes "transfer e staff k new reason d = Inr (v, d')" and "pp_tenantId other = pp_tenantId staff" and "pp_id other \<noteq> new"
  shows "updateStatus e' other k st d' = Inl (Forbidden ''not_owner'') \<and> discard e' other k d' = Inl (Forbidden ''not_owner'')"
proof -
  obtain x where c: "loadOrder d (pp_tenantId staff) k = Inr x"
    "orders d' = update_rows (\<lambda>y. o_id y = k) (\<lambda>y. y\<lparr>o_ownerId := Some new\<rparr>) (orders d)"
    using assms(1) by (rule transfer_Inr) (rule that)
  have "find_row o_id k (orders d') = Some (x\<lparr>o_ownerId := Some new\<rparr>)" "o_tenantId x = pp_tenantId staff"
    using order_loader.load_sound [OF c(1)] unfolding c(2) by (simp_all add: find_row_update_key)
  then have "loadOrder d' (pp_tenantId other) k = Inr (x\<lparr>o_ownerId := Some new\<rparr>)"
    using assms(2) by (intro order_loader.load_complete) simp_all
  with assms(3) show ?thesis by (simp add: updateStatus_def discard_def assertOwner_def)
qed

theorem transfer_locks_out_others_witness:
  "\<exists>v d'. transfer s_env s_cashier 80 20 None s_db_order = Inr (v, d') \<and>
     updateStatus s_env s_cashier 80 o_sent d' = Inl (Forbidden ''not_owner'')"
proof -
  obtain v d' where r: "transfer s_env s_cashier 80 20 None s_db_order = Inr (v, d')"
    by (simp add: transfer_def loadOrder_def add_audit_def set_order_def table_eval)
  have "pp_id s_cashier \<noteq> 20" by (simp add: s_cashier_def)
  from transfer_locks_out_others [OF r refl this] r show ?thesis by blast
qed

end
