(* ===== verification/Bills.thy ===== *)
theory Bills
  imports Orders
begin

text \<open>
  The till's bill endpoints, \<^verbatim>\<open>src/src/pos/bills/bills.service.ts\<close>: creating and reading bills, the
  payment list of the day, the printer spool and finalising with discount approval. Refunds have a
  theory of their own.

  \<open>finalize\<close> asks the manager gate, whose counters survive a rollback; it returns the
  result together with the new counters. Request bodies arrive validated (class-validator
  decorators), so the fields have the types below.
\<close>

definition DISCOUNT_THRESHOLD_PERCENT :: int where
  "DISCOUNT_THRESHOLD_PERCENT = 20"

section \<open>Creating and reading\<close>

definition createBill :: "env \<Rightarrow> pos_principal \<Rightarrow> uuid \<Rightarrow> db \<Rightarrow> ((bill_view \<times> bool) \<times> db) result" where
  "createBill e staff orderId d =
    r_bind (loadOrder d (pp_tenantId staff) orderId) (\<lambda>x.
    r_bind (if roleHasPermission (pp_role staff) settle_bills then Inr () else assertOwner x staff) (\<lambda>_.
    r_bind (createOrGetBillRecord e \<lparr>cp_tenantId = pp_tenantId staff, cp_outletId = o_outletId x, cp_orderId = orderId,
              cp_createdByStaffId = Some (pp_id staff), cp_orderClosed = (o_status x = o_closed)\<rparr> d) (\<lambda>((bt, created), d1).
      Inr ((toBillView bt, created), d1))))"

definition getBill :: "pos_principal \<Rightarrow> uuid \<Rightarrow> db \<Rightarrow> (bill_view \<times> db) result" where
  "getBill staff billId d =
    r_bind (loadBill d (pp_tenantId staff) billId) (\<lambda>bt0.
    r_bind (refreshOpenBillTotals bt0 d) (\<lambda>(bt, d1). Inr (toBillView bt, d1)))"

definition getInvoice :: "pos_principal \<Rightarrow> uuid \<Rightarrow> db \<Rightarrow> (invoice_view \<times> db) result" where
  "getInvoice staff billId d = buildInvoiceView (pp_tenantId staff) billId d"

record payment_history_entry =
  pe_id :: uuid
  pe_billId :: uuid
  pe_billNumber :: "int option"
  pe_orderId :: uuid
  pe_tableLabel :: "string option"
  pe_tokenNumber :: "int option"
  pe_method :: tender_method
  pe_amountMinor :: int
  pe_reference :: "string option"
  pe_takenBy :: "(uuid \<times> string) option"
  pe_createdAt :: date

record payment_history_view =
  ph_outletId :: uuid
  ph_date :: string
  ph_asOf :: date
  ph_currency :: string
  ph_totalMinor :: int
  ph_count :: nat
  ph_byMethod :: "(tender_method \<times> nat \<times> int) list"
  ph_payments :: "payment_history_entry list"

definition payment_entry :: "db \<Rightarrow> bill \<Rightarrow> tender \<Rightarrow> payment_history_entry" where
  "payment_entry d b t =
    (let ord = find_row o_id (b_orderId b) (orders d) in
     \<lparr>pe_id = td_id t, pe_billId = b_id b, pe_billNumber = b_billNumber b, pe_orderId = b_orderId b,
      pe_tableLabel = (case ord of None \<Rightarrow> None | Some x \<Rightarrow> (case o_tableId x of None \<Rightarrow> None
         | Some tb \<Rightarrow> map_option dt_label (find_row dt_id tb (diningTables d)))),
      pe_tokenNumber = (case ord of None \<Rightarrow> None | Some x \<Rightarrow> o_tokenNumber x),
      pe_method = td_method t, pe_amountMinor = td_amountMinor t, pe_reference = td_reference t,
      pe_takenBy = (case b_finalizedByStaffId b of None \<Rightarrow> None
         | Some s \<Rightarrow> map_option (\<lambda>u. (su_id u, su_name u)) (find_row su_id s (staffUsers d))),
      pe_createdAt = td_createdAt t\<rparr>)"

definition listPaymentsToday :: "env \<Rightarrow> pos_principal \<Rightarrow> uuid \<Rightarrow> db \<Rightarrow> payment_history_view result" where
  "listPaymentsToday e staff outletId d =
    r_bind (loadOutlet d (pp_tenantId staff) outletId) (\<lambda>out.
      let todayKey = date_key e (now e) (ou_timezone out);
          since = now e - 48 * 60 * 60 * 1000;
          paid = (\<lambda>t. case find_row b_id (td_billId t) (bills d) of None \<Rightarrow> None
                   | Some b \<Rightarrow> if b_outletId b = outletId \<and> b_status b = b_finalized then Some (b, t) else None);
          rows = sort_key (\<lambda>p. - td_createdAt (snd p)) (List.map_filter paid
                   (filter (\<lambda>t. td_tenantId t = pp_tenantId staff \<and> td_createdAt t \<ge> since) (tenders d)));
          payments = map (\<lambda>(b, t). payment_entry d b t)
                   (filter (\<lambda>(b, t). date_key e (td_createdAt t) (ou_timezone out) = todayKey) rows);
          byMethod = sort_key (\<lambda>(m, n, s). - s) (map (\<lambda>(m, ps). (m, length ps, sum_rows pe_amountMinor ps)) (group_by pe_method payments))
      in r_bind (loadTenantTaxProfile d (pp_tenantId staff)) (\<lambda>c.
        Inr \<lparr>ph_outletId = outletId, ph_date = todayKey, ph_asOf = now e, ph_currency = currencyForCountry (tp_country c),
             ph_totalMinor = sum_rows pe_amountMinor payments, ph_count = length payments, ph_byMethod = byMethod, ph_payments = payments\<rparr>))"

section \<open>The printer spool\<close>

record print_job_view =
  jw_id :: uuid
  jw_billId :: uuid
  jw_payload :: invoice_view
  jw_createdAt :: date
  jw_printedAt :: "date option"

definition toPrintJobView :: "print_job \<Rightarrow> print_job_view" where
  "toPrintJobView j = \<lparr>jw_id = pj_id j, jw_billId = pj_billId j, jw_payload = pj_payload j, jw_createdAt = pj_createdAt j, jw_printedAt = pj_printedAt j\<rparr>"

definition printBill :: "env \<Rightarrow> pos_principal \<Rightarrow> uuid \<Rightarrow> uuid option \<Rightarrow> db \<Rightarrow> ((print_job_view \<times> bool) \<times> db) result" where
  "printBill e staff billId sourceDeviceId d =
    r_bind (loadBill d (pp_tenantId staff) billId) (\<lambda>(b, _).
    r_bind (buildInvoiceView (pp_tenantId staff) billId d) (\<lambda>(payload, d1).
      let targetDeviceId = linkedPeripheral d1 (pp_tenantId staff) sourceDeviceId d_printer;
          (i, d2) = take_id d1;
          job = \<lparr>pj_id = i, pj_tenantId = pp_tenantId staff, pj_outletId = b_outletId b, pj_billId = billId, pj_payload = payload,
                 pj_createdAt = now e, pj_printedAt = None, pj_targetDeviceId = targetDeviceId\<rparr>;
          printerAvailable = (targetDeviceId \<noteq> None \<or> count_rows (\<lambda>v. dv_tenantId v = pp_tenantId staff \<and>
             dv_outletId v = Some (b_outletId b) \<and> dv_type v = d_printer \<and> dv_status v = d_active \<and> dv_pairedPosId v = None) (devices d2) > 0)
      in Inr ((toPrintJobView job, printerAvailable), d2\<lparr>printJobs := printJobs d2 @ [job]\<rparr>)))"

definition listPendingPrintJobs :: "pos_principal \<Rightarrow> uuid \<Rightarrow> uuid option \<Rightarrow> db \<Rightarrow> print_job_view list result" where
  "listPendingPrintJobs staff outletId deviceId d =
    (if outletId \<noteq> pp_outletId staff then Inl (Forbidden ''outlet_mismatch'')
     else let targetDeviceId = queueFor d (pp_tenantId staff) deviceId d_printer
          in Inr (map toPrintJobView (filter (\<lambda>j. pj_tenantId j = pp_tenantId staff \<and> pj_outletId j = outletId \<and> pj_printedAt j = None \<and>
               pj_targetDeviceId j = targetDeviceId) (printJobs d))))"

definition markPrinted :: "env \<Rightarrow> pos_principal \<Rightarrow> uuid \<Rightarrow> db \<Rightarrow> (print_job_view \<times> db) result" where
  "markPrinted e staff jobId d =
    (let d1 = d\<lparr>printJobs := update_rows (\<lambda>j. pj_id j = jobId \<and> pj_tenantId j = pp_tenantId staff \<and> pj_printedAt j = None)
               (\<lambda>j. j\<lparr>pj_printedAt := Some (now e)\<rparr>) (printJobs d)\<rparr>
     in (case find (\<lambda>j. pj_id j = jobId \<and> pj_tenantId j = pp_tenantId staff) (printJobs d1) of
           None \<Rightarrow> Inl (NotFound ''not_found'')
         | Some j \<Rightarrow> Inr (toPrintJobView j, d1)))"

section \<open>Finalising\<close>

record tender_dto =
  tt_method :: tender_method
  tt_amountMinor :: int
  tt_riskAcknowledged :: "bool option"
  tt_reference :: "string option"
  tt_tenderedMinor :: "int option"

record finalize_dto =
  fd_discountMinor :: "int option"
  fd_discountReason :: "string option"
  fd_managerPin :: "string option"
  fd_tenders :: "tender_dto list"

definition add_tender :: "env \<Rightarrow> pos_principal \<Rightarrow> uuid \<Rightarrow> tender_dto \<Rightarrow> db \<Rightarrow> db result" where
  "add_tender e staff billId t d =
    (if (case tt_tenderedMinor t of None \<Rightarrow> False | Some m \<Rightarrow> tt_method t \<noteq> cash \<or> m < tt_amountMinor t)
     then Inl (BadRequest ''validation_failed'')
     else r_bind (createTenderRecord e \<lparr>tq_tenantId = pp_tenantId staff, tq_billId = billId, tq_method = tt_method t,
            tq_amountMinor = tt_amountMinor t, tq_paymentIntentId = None, tq_riskAcknowledged = nullish (tt_riskAcknowledged t) False,
            tq_reference = (if tt_method t = external then map_option str_trim (tt_reference t) else None),
            tq_tenderedMinor = tt_tenderedMinor t\<rparr> d) (\<lambda>(_, d1). Inr d1))"

definition discount_needs_pin :: "bill \<Rightarrow> int option \<Rightarrow> bool" where
  "discount_needs_pin b discountMinor =
    (case discountMinor of None \<Rightarrow> False
     | Some m \<Rightarrow> m > (b_subtotalMinor b * DISCOUNT_THRESHOLD_PERCENT) sdiv 100)"

definition finalize_rest ::
  "env \<Rightarrow> pos_principal \<Rightarrow> uuid \<Rightarrow> finalize_dto \<Rightarrow> bill \<Rightarrow> manager_approval option \<Rightarrow> db \<Rightarrow> (bill_view \<times> db) result" where
  "finalize_rest e staff billId dto b approval d =
    (if list_ex (\<lambda>t. tt_method t = cash) (fd_tenders dto) \<and>
        \<not> list_ex (\<lambda>s. sh_outletId s = b_outletId b \<and> sh_closedAt s = None) (shifts d)
     then Inl (Conflict ''shift_not_open'')
     else r_bind (r_fold (add_tender e staff billId) (fd_tenders dto) d) (\<lambda>d1.
       r_bind (commitFinalize e \<lparr>cf_tenantId = pp_tenantId staff, cf_bill = b, cf_discountMinor = fd_discountMinor dto,
                cf_discountReason = fd_discountReason dto, cf_finalizedByStaffId = Some (pp_id staff)\<rparr> d1) (\<lambda>(final, d2).
         let d3 = (case approval of None \<Rightarrow> d2
                   | Some ap \<Rightarrow> recordApproval ap (Some (pp_id staff)) (pp_name staff) (now e) d2)
         in Inr (toBillView final, d3))))"

definition finalize ::
  "env \<Rightarrow> pos_principal \<Rightarrow> uuid \<Rightarrow> finalize_dto \<Rightarrow> db \<Rightarrow> attempts \<Rightarrow> (bill_view \<times> db) result \<times> attempts" where
  "finalize e staff billId dto d a =
    (if (fd_discountMinor dto = None) \<noteq> (fd_discountReason dto = None) then (Inl (BadRequest ''validation_failed''), a)
     else case r_bind (loadBill d (pp_tenantId staff) billId) (\<lambda>bt0. refreshOpenBillTotals bt0 d) of
       Inl err \<Rightarrow> (Inl err, a)
     | Inr ((b, _), d1) \<Rightarrow>
         if b_status b = b_finalized then (Inl (Conflict ''already_finalized''), a)
         else if discount_needs_pin b (fd_discountMinor dto)
         then (if nullish (fd_managerPin dto) [] = [] then (Inl (BadRequest ''manager_pin_required''), a)
               else (case authorize e d1 a_discount_above_threshold (pp_tenantId staff) (b_outletId b) (nullish (fd_managerPin dto) [])
                           (nullish (fd_discountReason dto) []) (pp_id staff) a of
                       (Inl err, a1) \<Rightarrow> (Inl err, a1)
                     | (Inr ap, a1) \<Rightarrow> (finalize_rest e staff billId dto b (Some ap) d1, a1)))
         else (finalize_rest e staff billId dto b None d1, a))"

section \<open>What the handlers keep\<close>

text \<open>Reading a bill for a request: the row found, its totals brought up to date when it is still open.\<close>

lemma fresh_bill:
  assumes "r_bind (loadBill d t k) (\<lambda>bt0. refreshOpenBillTotals bt0 d) = Inr ((b, ts), d1)" and "books_ok d"
  shows "b \<in> set (bills d1)" "b_id b = k" "b_tenantId b = t" "books_ok d1" "ledger_grows d d1"
    "d1 = d\<lparr>bills := bills d1\<rparr>" "ts = bill_tenders d k"
    "b_status b = b_finalized \<Longrightarrow> d1 = d \<and> b \<in> set (bills d)"
proof -
  obtain b0 ts0 where l: "loadBill d t k = Inr (b0, ts0)" and r: "refreshOpenBillTotals (b0, ts0) d = Inr ((b, ts), d1)"
    using assms(1) by (auto simp: r_bind_eq_Inr)
  note f = loadBill_found [OF l]
  have m: "b0 \<in> set (bills d)" using f by blast
  show "books_ok d1" "ledger_grows d d1" using refreshOpenBillTotals_keeps [OF r assms(2) m] by auto
  from r have "b \<in> set (bills d1) \<and> b_id b = k \<and> b_tenantId b = t \<and> d1 = d\<lparr>bills := bills d1\<rparr> \<and> ts = bill_tenders d k \<and>
      (b_status b = b_finalized \<longrightarrow> d1 = d \<and> b \<in> set (bills d))"
  proof (cases rule: refreshOpenBillTotals_cases)
    case same
    with f m show ?thesis by simp
  next
    case (refreshed subtotal tax b1)
    have "b1 = set_totals subtotal tax b0"
      using refreshed(3,4) f books_okD(2) [OF assms(2) m] by (simp add: find_row_update)
    with refreshed f find_row_Some [OF refreshed(4)] show ?thesis by simp
  qed
  then show "b \<in> set (bills d1)" "b_id b = k" "b_tenantId b = t" "d1 = d\<lparr>bills := bills d1\<rparr>" "ts = bill_tenders d k"
    "b_status b = b_finalized \<Longrightarrow> d1 = d \<and> b \<in> set (bills d)" by auto
qed

lemma getBill_keeps:
  assumes "getBill staff k d = Inr (v, d')" and "books_ok d"
  shows "books_ok d'" "ledger_grows d d'" "d' = d\<lparr>bills := bills d'\<rparr>"
proof -
  obtain b ts where "r_bind (loadBill d (pp_tenantId staff) k) (\<lambda>bt0. refreshOpenBillTotals bt0 d) = Inr ((b, ts), d')"
    using assms(1) by (auto simp: getBill_def result_simps)
  from fresh_bill(4,5,6) [OF this assms(2)] show "books_ok d'" "ledger_grows d d'" "d' = d\<lparr>bills := bills d'\<rparr>" by auto
qed

lemma createBill_keeps:
  assumes "createBill e staff k d = Inr (v, d')" and "books_ok d"
  shows "books_ok d'" "ledger_grows d d'"
proof -
  obtain params bt created where "createOrGetBillRecord e params d = Inr ((bt, created), d')"
    using assms(1) by (auto simp: createBill_def result_simps)
  from createOrGetBillRecord_keeps [OF this assms(2)] show "books_ok d'" "ledger_grows d d'" by auto
qed

lemma add_tender_keeps:
  assumes "add_tender e staff k t d = Inr d'" and "books_ok d" and "b \<in> set (bills d)" and "b_id b = k" and "b_status b = b_open"
  shows "books_ok d'" "ledger_grows d d'" "bills d' = bills d" "orders d' = orders d" "orderLines d' = orderLines d"
    "creditNotes d' = creditNotes d" "auditEvents d' = auditEvents d" "tenants d' = tenants d" "intents d' = intents d" "shifts d' = shifts d"
proof -
  obtain q x where q: "createTenderRecord e q d = Inr (x, d')" "tq_billId q = k"
    using assms(1) by (auto simp: add_tender_def result_simps split: if_splits)
  have d': "d' = d\<lparr>nextId := Suc (nextId d), tenders := tenders d @ [x]\<rparr>" "td_billId x = k"
    using createTenderRecord_Inr [OF q(1)] q(2) by simp_all
  have op: "b_status c = b_open" if "c \<in> set (bills d)" "b_id c = td_billId x" for c
    using open_bill_unique [OF assms(2,3,5) that(1)] that(2) d'(2) assms(4) by simp
  show "books_ok d'" unfolding d'(1) by (rule books_ok_tender [OF assms(2)]) (simp_all add: op)
  show "ledger_grows d d'" unfolding d'(1) by (rule ledger_grows_tender) (simp add: op)
qed (use assms(1) in \<open>auto simp: add_tender_def createTenderRecord_def take_id_def Let_def result_simps split: if_splits\<close>)

lemma recordApproval_fields [simp]:
  "bills (recordApproval ap i m t d) = bills d" "tenders (recordApproval ap i m t d) = tenders d"
  "creditNotes (recordApproval ap i m t d) = creditNotes d" "billCounters (recordApproval ap i m t d) = billCounters d"
  "nextId (recordApproval ap i m t d) = nextId d" "orders (recordApproval ap i m t d) = orders d"
  "orderLines (recordApproval ap i m t d) = orderLines d" "shifts (recordApproval ap i m t d) = shifts d"
  "intents (recordApproval ap i m t d) = intents d" "billShares (recordApproval ap i m t d) = billShares d"
  by (simp_all add: recordApproval_def)

lemma finalize_cases:
  assumes "finalize e staff k dto d a = (Inr (v, d'), a')"
  obtains b ts d1 ap where "r_bind (loadBill d (pp_tenantId staff) k) (\<lambda>bt0. refreshOpenBillTotals bt0 d) = Inr ((b, ts), d1)"
    "b_status b = b_open" "finalize_rest e staff k dto b ap d1 = Inr (v, d')"
    "if discount_needs_pin b (fd_discountMinor dto)
     then \<exists>p. ap = Some p \<and> authorize e d1 a_discount_above_threshold (pp_tenantId staff) (b_outletId b) (nullish (fd_managerPin dto) [])
                           (nullish (fd_discountReason dto) []) (pp_id staff) a = (Inr p, a')
     else ap = None"
proof -
  let ?load = "r_bind (loadBill d (pp_tenantId staff) k) (\<lambda>bt0. refreshOpenBillTotals bt0 d)"
  have dr: "(fd_discountMinor dto = None) = (fd_discountReason dto = None)"
    using assms by (auto simp: finalize_def split: if_splits)
  obtain b ts d1 where l: "?load = Inr ((b, ts), d1)"
    using assms dr by (cases ?load) (auto simp: finalize_def)
  have st: "b_status b = b_open"
    using assms dr l by (cases "b_status b") (simp_all add: finalize_def)
  show thesis
  proof (cases "discount_needs_pin b (fd_discountMinor dto)")
    case True
    let ?auth = "authorize e d1 a_discount_above_threshold (pp_tenantId staff) (b_outletId b) (nullish (fd_managerPin dto) [])
                           (nullish (fd_discountReason dto) []) (pp_id staff) a"
    have "nullish (fd_managerPin dto) [] \<noteq> []" using assms dr l st True by (auto simp: finalize_def)
    then obtain p a1 where "?auth = (Inr p, a1)" "(finalize_rest e staff k dto b (Some p) d1, a1) = (Inr (v, d'), a')"
      using assms dr l st True by (auto simp: finalize_def split: prod.splits sum.splits)
    with l st True that [of b ts d1 "Some p"] show thesis by simp
  next
    case False
    with assms dr l st that [of b ts d1 None] show thesis by (simp add: finalize_def)
  qed
qed

lemma finalize_rest_Inr:
  assumes "finalize_rest e staff k dto b ap d = Inr (v, d')"
  obtains d1 bt d2 where "r_fold (add_tender e staff k) (fd_tenders dto) d = Inr d1"
    "commitFinalize e \<lparr>cf_tenantId = pp_tenantId staff, cf_bill = b, cf_discountMinor = fd_discountMinor dto,
       cf_discountReason = fd_discountReason dto, cf_finalizedByStaffId = Some (pp_id staff)\<rparr> d1 = Inr (bt, d2)"
    "v = toBillView bt" "d' = (case ap of None \<Rightarrow> d2 | Some p \<Rightarrow> recordApproval p (Some (pp_id staff)) (pp_name staff) (now e) d2)"
    "list_ex (\<lambda>t. tt_method t = cash) (fd_tenders dto) \<longrightarrow> (\<exists>s \<in> set (shifts d). sh_outletId s = b_outletId b \<and> sh_closedAt s = None)"
proof -
  have sh: "list_ex (\<lambda>t. tt_method t = cash) (fd_tenders dto) \<longrightarrow> (\<exists>s \<in> set (shifts d). sh_outletId s = b_outletId b \<and> sh_closedAt s = None)"
    using assms by (auto simp: finalize_rest_def list_ex_iff split: if_splits)
  have "\<exists>d1 bt d2. r_fold (add_tender e staff k) (fd_tenders dto) d = Inr d1 \<and>
    commitFinalize e \<lparr>cf_tenantId = pp_tenantId staff, cf_bill = b, cf_discountMinor = fd_discountMinor dto,
       cf_discountReason = fd_discountReason dto, cf_finalizedByStaffId = Some (pp_id staff)\<rparr> d1 = Inr (bt, d2) \<and>
    v = toBillView bt \<and> d' = (case ap of None \<Rightarrow> d2 | Some p \<Rightarrow> recordApproval p (Some (pp_id staff)) (pp_name staff) (now e) d2)"
    using assms by (auto simp: finalize_rest_def result_simps Let_def split: if_splits)
  then show thesis using that sh by metis
qed

lemma add_tenders_keep:
  assumes "r_fold (add_tender e staff k) ts d = Inr d'" and "books_ok d" and "b \<in> set (bills d)" and "b_id b = k" and "b_status b = b_open"
  shows "books_ok d'" "ledger_grows d d'" "bills d' = bills d" "orders d' = orders d" "orderLines d' = orderLines d"
    "creditNotes d' = creditNotes d" "intents d' = intents d" "shifts d' = shifts d"
proof -
  let ?P = "\<lambda>s. books_ok s \<and> ledger_grows d s \<and> bills s = bills d \<and> orders s = orders d \<and> orderLines s = orderLines d \<and>
    creditNotes s = creditNotes d \<and> intents s = intents d \<and> shifts s = shifts d"
  have "?P d'"
  proof (rule r_fold_invariant [OF assms(1), where P = ?P])
    show "?P d" using assms(2) ledger_grows_refl by simp
    show "?P s'" if "add_tender e staff k x s = Inr s'" "?P s" for x s s'
      using add_tender_keeps [OF that(1) _ _ assms(4,5)] that(2) assms(3) ledger_grows_trans [of d s s'] by simp
  qed
  then show "books_ok d'" "ledger_grows d d'" "bills d' = bills d" "orders d' = orders d" "orderLines d' = orderLines d"
    "creditNotes d' = creditNotes d" "intents d' = intents d" "shifts d' = shifts d" by auto
qed

lemma committed_fields:
  assumes "commitFinalize e params d = Inr (bt, d')" and "books_ok d" and "cf_bill params \<in> set (bills d)"
  shows "bw_subtotalMinor (toBillView bt) = b_subtotalMinor (cf_bill params)" "bw_outletId (toBillView bt) = b_outletId (cf_bill params)"
    "bw_status (toBillView bt) = b_finalized" "bw_id (toBillView bt) = b_id (cf_bill params)"
proof -
  obtain tax ro where c: "b_status (cf_bill params) = b_open"
    "bills d' = update_rows (\<lambda>x. b_id x = b_id (cf_bill params) \<and> b_status x = b_open)
       (finalize_row e params (last_bill_number (b_outletId (cf_bill params)) d + 1) ro tax) (bills d)"
    "loadBill d' (cf_tenantId params) (b_id (cf_bill params)) = Inr bt"
    using assms(1) by (rule commitFinalize_effect) (rule that)
  obtain b ts where bt: "bt = (b, ts)" by fastforce
  have "find_row b_id (b_id (cf_bill params)) (bills d') = Some (finalize_row e params (last_bill_number (b_outletId (cf_bill params)) d + 1) ro tax (cf_bill params))"
    using books_okD(2) [OF assms(2,3)] c(1) unfolding c(2) by (simp add: find_row_update)
  then have "b = finalize_row e params (last_bill_number (b_outletId (cf_bill params)) d + 1) ro tax (cf_bill params)"
    using loadBill_found [of d' "cf_tenantId params" "b_id (cf_bill params)" b ts] c(3) bt by simp
  with bt show "bw_subtotalMinor (toBillView bt) = b_subtotalMinor (cf_bill params)" "bw_outletId (toBillView bt) = b_outletId (cf_bill params)"
    "bw_status (toBillView bt) = b_finalized" "bw_id (toBillView bt) = b_id (cf_bill params)"
    by (simp_all add: toBillView_def)
qed

lemma finalize_keeps:
  assumes "finalize e staff k dto d a = (Inr (v, d'), a')" and "books_ok d"
  shows "books_ok d'" "ledger_grows d d'"
proof -
  obtain b ts d1 ap where c: "r_bind (loadBill d (pp_tenantId staff) k) (\<lambda>bt0. refreshOpenBillTotals bt0 d) = Inr ((b, ts), d1)"
    "b_status b = b_open" "finalize_rest e staff k dto b ap d1 = Inr (v, d')"
    using assms(1) by (rule finalize_cases) (rule that)
  note f = fresh_bill [OF c(1) assms(2)]
  obtain d2 bt d3 where r: "r_fold (add_tender e staff k) (fd_tenders dto) d1 = Inr d2"
    "commitFinalize e \<lparr>cf_tenantId = pp_tenantId staff, cf_bill = b, cf_discountMinor = fd_discountMinor dto,
       cf_discountReason = fd_discountReason dto, cf_finalizedByStaffId = Some (pp_id staff)\<rparr> d2 = Inr (bt, d3)"
    "v = toBillView bt" "d' = (case ap of None \<Rightarrow> d3 | Some p \<Rightarrow> recordApproval p (Some (pp_id staff)) (pp_name staff) (now e) d3)"
    using c(3) by (rule finalize_rest_Inr) (rule that)
  note t = add_tenders_keep [OF r(1) f(4,1,2) c(2)]
  have "b \<in> set (bills d2)" using f(1) t(3) by simp
  with commitFinalize_keeps [OF r(2) t(1)] have k: "books_ok d3" "ledger_grows d2 d3" by simp_all
  have same: "bills d' = bills d3" "tenders d' = tenders d3" "creditNotes d' = creditNotes d3" "billCounters d' = billCounters d3"
    "nextId d' = nextId d3"
    using r(4) by (auto split: option.splits)
  show "books_ok d'" by (rule books_ok_frame [OF k(1) same(1,2,4)]) (simp add: same)
  show "ledger_grows d d'"
    using ledger_grows_frame [OF same(1-3)] k(2) t(2) f(5) by (blast intro: ledger_grows_trans)
qed

text \<open>Discounts. A bill is finalised with a discount of more than a fifth of its subtotal only on the PIN of
  a manager of the tenant whose PIN is not revoked; the approval is in the audit log under the
  discount action, naming the manager and the member of staff who asked. A cash tender is only
  taken while a shift is open at the outlet.\<close>

theorem finalize_discount_approved:
  assumes "finalize e staff k dto d a = (Inr (v, d'), a')" and "books_ok d"
  shows "(\<forall>m. fd_discountMinor dto = Some m \<longrightarrow> 5 * m > bw_subtotalMinor v \<and> 0 \<le> bw_subtotalMinor v \<longrightarrow>
      (\<exists>u \<in> set (staffUsers d). \<exists>r \<in> set (roles d). su_tenantId u = pp_tenantId staff \<and> su_pinRevokedAt u = None \<and>
        su_roleId u = ro_id r \<and> ro_isManager r \<and>
        (\<exists>ev \<in> set (auditEvents d'). ae_action ev = ''discount_above_threshold'' \<and> ae_approverId ev = Some (su_id u) \<and>
           ae_actorId ev = Some (pp_id staff)))) \<and>
    (list_ex (\<lambda>t. tt_method t = cash) (fd_tenders dto) \<longrightarrow>
      (\<exists>s \<in> set (shifts d). sh_outletId s = bw_outletId v \<and> sh_closedAt s = None))"
proof -
  let ?params = "\<lambda>b. \<lparr>cf_tenantId = pp_tenantId staff, cf_bill = b, cf_discountMinor = fd_discountMinor dto,
       cf_discountReason = fd_discountReason dto, cf_finalizedByStaffId = Some (pp_id staff)\<rparr>"
  obtain b ts d1 ap where c: "r_bind (loadBill d (pp_tenantId staff) k) (\<lambda>bt0. refreshOpenBillTotals bt0 d) = Inr ((b, ts), d1)"
    "b_status b = b_open" "finalize_rest e staff k dto b ap d1 = Inr (v, d')"
    "if discount_needs_pin b (fd_discountMinor dto)
     then \<exists>p. ap = Some p \<and> authorize e d1 a_discount_above_threshold (pp_tenantId staff) (b_outletId b) (nullish (fd_managerPin dto) [])
                           (nullish (fd_discountReason dto) []) (pp_id staff) a = (Inr p, a')
     else ap = None"
    using assms(1) by (rule finalize_cases)
  note f = fresh_bill [OF c(1) assms(2)]
  obtain d2 bt d3 where r: "r_fold (add_tender e staff k) (fd_tenders dto) d1 = Inr d2" "commitFinalize e (?params b) d2 = Inr (bt, d3)"
    "v = toBillView bt" "d' = (case ap of None \<Rightarrow> d3 | Some p \<Rightarrow> recordApproval p (Some (pp_id staff)) (pp_name staff) (now e) d3)"
    and sh: "list_ex (\<lambda>t. tt_method t = cash) (fd_tenders dto) \<longrightarrow> (\<exists>s \<in> set (shifts d1). sh_outletId s = b_outletId b \<and> sh_closedAt s = None)"
    using c(3) by (rule finalize_rest_Inr)
  have v: "bw_subtotalMinor v = b_subtotalMinor b" "bw_outletId v = b_outletId b"
    using committed_fields [OF r(2)] add_tenders_keep(1,3) [OF r(1) f(4,1,2) c(2)] f(1) r(3) by simp_all
  have "\<exists>u \<in> set (staffUsers d). \<exists>r \<in> set (roles d). su_tenantId u = pp_tenantId staff \<and> su_pinRevokedAt u = None \<and>
        su_roleId u = ro_id r \<and> ro_isManager r \<and>
        (\<exists>ev \<in> set (auditEvents d'). ae_action ev = ''discount_above_threshold'' \<and> ae_approverId ev = Some (su_id u) \<and>
           ae_actorId ev = Some (pp_id staff))"
    if m: "fd_discountMinor dto = Some m" "5 * m > b_subtotalMinor b" "0 \<le> b_subtotalMinor b" for m
  proof -
    have "discount_needs_pin b (fd_discountMinor dto)"
      using m by (simp add: discount_needs_pin_def DISCOUNT_THRESHOLD_PERCENT_def sdiv_pos)
    then obtain p where p: "ap = Some p" "authorize e d1 a_discount_above_threshold (pp_tenantId staff) (b_outletId b)
        (nullish (fd_managerPin dto) []) (nullish (fd_discountReason dto) []) (pp_id staff) a = (Inr p, a')"
      using c(4) by auto
    obtain u ro where u: "(u, ro) \<in> set (approval_candidates d1 a_discount_above_threshold (pp_tenantId staff) (b_outletId b))"
      "p = \<lparr>ma_approverId = su_id u, ma_approverName = su_name u, ma_roleId = ro_id ro, ma_roleName = ro_name ro,
       ma_tenantId = pp_tenantId staff, ma_actionType = a_discount_above_threshold, ma_reason = nullish (fd_discountReason dto) []\<rparr>"
      using p(2) by (rule authorize_approved)
    note q = approval_candidates_member [OF u(1)]
    have "staffUsers d1 = staffUsers d" "roles d1 = roles d" using arg_cong [OF f(6), of staffUsers] arg_cong [OF f(6), of roles] by simp_all
    moreover have "\<exists>ev \<in> set (auditEvents d'). ae_action ev = ''discount_above_threshold'' \<and> ae_approverId ev = Some (su_id u) \<and>
        ae_actorId ev = Some (pp_id staff)"
      using r(4) p(1) u(2) by (simp add: recordApproval_def action_name_def)
    ultimately show ?thesis using q by auto
  qed
  moreover have "shifts d1 = shifts d" using arg_cong [OF f(6), of shifts] by simp
  ultimately show ?thesis using sh v by simp
qed

text \<open>A composition dealer's lassi for 99.90 with 30 rupees off, approved by the owner, the rest paid by UPI.\<close>

definition s_db_settle :: db where
  "s_db_settle = s_db_bill\<lparr>taxRegistrations := [s_registration\<lparr>tx_compositionScheme := True\<rparr>], tenders := []\<rparr>"

definition s_finalize :: finalize_dto where
  "s_finalize = \<lparr>fd_discountMinor = Some 3000, fd_discountReason = Some ''Regular'', fd_managerPin = Some ''4321'',
     fd_tenders = [\<lparr>tt_method = upi_manual, tt_amountMinor = 6990, tt_riskAcknowledged = None, tt_reference = None, tt_tenderedMinor = None\<rparr>]\<rparr>"

lemmas finalize_eval = finalize_def finalize_rest_def discount_needs_pin_def DISCOUNT_THRESHOLD_PERCENT_def authorize_def manager_pin_rules_def
  approval_candidates_def List.map_filter_def count_attempt_def add_tender_def createTenderRecord_def tender_checks_def take_id_def
  consume.simps refund_attempts_def s_db_settle_def s_finalize_def toBillView_def recordApproval_def

lemma finalize_sample:
  "\<exists>v d a. finalize s_env s_cashier 90 s_finalize s_db_settle (\<lambda>_. None) = (Inr (v, d), a) \<and> bw_subtotalMinor v = 9990"
  by (simp add: finalize_eval commit_eval fire_eval create_eval str_trim_def is_space_def sample_defs)

lemma s_db_settle_books: "books_ok s_db_settle"
  by (simp add: books_ok_def keys_ok_def bill_ok_def numbers_at_def finalized_at_def last_bill_number_def s_db_settle_def commit_eval sample_defs)

theorem finalize_discount_approved_witness:
  "\<exists>v d a. finalize s_env s_cashier 90 s_finalize s_db_settle (\<lambda>_. None) = (Inr (v, d), a) \<and> 5 * 3000 > bw_subtotalMinor v \<and>
     (\<exists>u \<in> set s_staff. \<exists>ev \<in> set (auditEvents d). ae_action ev = ''discount_above_threshold'' \<and> ae_approverId ev = Some (su_id u))"
proof -
  obtain v d a where r: "finalize s_env s_cashier 90 s_finalize s_db_settle (\<lambda>_. None) = (Inr (v, d), a)" "bw_subtotalMinor v = 9990"
    using finalize_sample by blast
  have "fd_discountMinor s_finalize = Some 3000" "staffUsers s_db_settle = s_staff"
    by (simp_all add: s_finalize_def s_db_settle_def s_db_bill_def s_db_def)
  with finalize_discount_approved [OF r(1) s_db_settle_books] r show ?thesis by fastforce
qed

end
