(* ===== verification/Refunds.thy ===== *)
theory Refunds
  imports Bills
begin

text \<open>
  Refunds, the method \<open>refund\<close> of \<^verbatim>\<open>src/src/pos/bills/bills.service.ts\<close>: a credit note against a finalised
  bill, behind the manager gate, whose counters survive a rollback. Quantities of a combo's parts
  come out of a number division and are rationals until they are converted to a bigint, which
  rejects a fraction.
\<close>

section \<open>Refunding\<close>

record refund_dto =
  rd_lines :: "(uuid \<times> int) list option"
  rd_reason :: string
  rd_managerPin :: "string option"
  rd_method :: "tender_method option"

record credit_note_view =
  nv_id :: uuid
  nv_tenantId :: uuid
  nv_originalBillId :: uuid
  nv_reason :: string
  nv_approvedByStaffId :: uuid
  nv_createdByStaffId :: uuid
  nv_subtotalMinor :: int
  nv_taxMinor :: int
  nv_totalMinor :: int
  nv_method :: "tender_method option"
  nv_createdAt :: date
  nv_lines :: "credit_note_line list"

definition toCreditNoteView :: "credit_note \<Rightarrow> bool \<Rightarrow> credit_note_view" where
  "toCreditNoteView n pricesIncludeTax =
    \<lparr>nv_id = cn_id n, nv_tenantId = cn_tenantId n, nv_originalBillId = cn_originalBillId n, nv_reason = cn_reason n,
     nv_approvedByStaffId = cn_approvedByStaffId n, nv_createdByStaffId = cn_createdByStaffId n,
     nv_subtotalMinor = cn_subtotalMinor n, nv_taxMinor = cn_taxMinor n,
     nv_totalMinor = (if pricesIncludeTax then cn_subtotalMinor n else cn_subtotalMinor n + cn_taxMinor n),
     nv_method = cn_method n, nv_createdAt = cn_createdAt n, nv_lines = cn_lines n\<rparr>"

record refund_line =
  rl_orderLineId :: uuid
  rl_quantity :: int
  rl_unitPriceMinor :: int
  rl_amountMinor :: int

definition bill_notes :: "db \<Rightarrow> uuid \<Rightarrow> credit_note list" where
  "bill_notes d billId = filter (\<lambda>n. cn_originalBillId n = billId) (creditNotes d)"

definition prior_lines :: "db \<Rightarrow> uuid \<Rightarrow> credit_note_line list" where
  "prior_lines d billId = concat (map cn_lines (bill_notes d billId))"

text \<open>\<open>refundedSoFar\<close>: the quantity already refunded of a line, zero when there is no entry.\<close>

definition refunded_so_far :: "credit_note_line list \<Rightarrow> uuid \<Rightarrow> int" where
  "refunded_so_far ls k = sum_rows cl_quantity (filter (\<lambda>l. cl_orderLineId l = k) ls)"

definition default_targets :: "order_line list \<Rightarrow> (uuid \<Rightarrow> int) \<Rightarrow> (uuid \<times> rat) list" where
  "default_targets ls sofar =
     filter (\<lambda>t. snd t > 0) (map (\<lambda>l. (ol_id l, of_int (ol_quantity l - sofar (ol_id l)))) ls)"

fun expand_combos :: "order_line list \<Rightarrow> (uuid \<times> int) list \<Rightarrow> (uuid \<times> rat) list result" where
  "expand_combos ls [] = Inr []"
| "expand_combos ls ((k, q) # ts) =
    (case find_row ol_id k ls of
       None \<Rightarrow> expand_combos ls ts
     | Some l \<Rightarrow>
         if ol_parentLineId l \<noteq> None then Inl (BadRequest ''combo_refund_whole'')
         else r_bind (expand_combos ls ts) (\<lambda>rest.
           Inr ((if ol_comboId l \<noteq> None
                 then map (\<lambda>c. (ol_id c, of_int (q * ol_quantity c) / of_int (ol_quantity l)))
                        (filter (\<lambda>c. ol_parentLineId c = Some (ol_id l)) ls)
                 else []) @ rest)))"

fun refund_lines :: "order_line list \<Rightarrow> (uuid \<times> rat) list \<Rightarrow> (uuid \<Rightarrow> int) \<Rightarrow> refund_line list result" where
  "refund_lines ls [] sofar = Inr []"
| "refund_lines ls ((k, q) # ts) sofar =
    (case find_row ol_id k ls of
       None \<Rightarrow> Inl (BadRequest ''validation_failed'')
     | Some l \<Rightarrow>
         if q > of_int (ol_quantity l - sofar k) then Inl (BadRequest ''over_refund'')
         else if q \<noteq> of_int \<lfloor>q\<rfloor> then Inl (InternalError ''RangeError'')
         else r_bind (refund_lines ls ts (sofar(k := sofar k + \<lfloor>q\<rfloor>))) (\<lambda>rest.
           Inr (\<lparr>rl_orderLineId = k, rl_quantity = \<lfloor>q\<rfloor>, rl_unitPriceMinor = line_unit l, rl_amountMinor = line_unit l * \<lfloor>q\<rfloor>\<rparr> # rest)))"

definition prorate :: "int \<Rightarrow> int \<Rightarrow> int \<Rightarrow> int" where
  "prorate billSubtotal cumGross of' = (if billSubtotal = 0 then 0 else (cumGross * of') sdiv billSubtotal)"

definition max_zero :: "int \<Rightarrow> int" where
  "max_zero n = (if n > 0 then n else 0)"

fun allocate_net :: "int \<Rightarrow> int \<Rightarrow> int \<Rightarrow> refund_line list \<Rightarrow> refund_line list" where
  "allocate_net subtotal gross allocated [] = []"
| "allocate_net subtotal gross allocated [l] = [l\<lparr>rl_amountMinor := subtotal - allocated\<rparr>]"
| "allocate_net subtotal gross allocated (l # m # ls) =
    (let share = (if gross = 0 then 0 else (subtotal * rl_amountMinor l) sdiv gross)
     in l\<lparr>rl_amountMinor := share\<rparr> # allocate_net subtotal gross (allocated + share) (m # ls))"

definition main_tender :: "tender list \<Rightarrow> tender option" where
  "main_tender ts = foldl (\<lambda>best t. case best of None \<Rightarrow> Some t
     | Some b \<Rightarrow> if td_amountMinor t > td_amountMinor b then Some t else Some b) None ts"

record refund_plan =
  rp_subtotalMinor :: int
  rp_taxMinor :: int
  rp_method :: "tender_method option"
  rp_lines :: "refund_line list"

definition plan_refund :: "db \<Rightarrow> bill_with_tenders \<Rightarrow> refund_dto \<Rightarrow> refund_plan result" where
  "plan_refund d bt dto = (case bt of (b, ts) \<Rightarrow>
    let ls = live_lines d (b_orderId b);
        prior = prior_lines d (b_id b);
        sofar = refunded_so_far prior;
        priorGross = sum_rows (\<lambda>l. cl_unitPriceMinor l * cl_quantity l) prior;
        targets = (case rd_lines dto of Some ks \<Rightarrow> map (\<lambda>(k, q). (k, of_int q)) ks | None \<Rightarrow> default_targets ls sofar)
    in if targets = [] then Inl (BadRequest ''nothing_to_refund'')
       else r_bind (case rd_lines dto of Some ks \<Rightarrow> expand_combos ls ks | None \<Rightarrow> Inr []) (\<lambda>children.
         r_bind (refund_lines ls (targets @ children) sofar) (\<lambda>lineData.
           let gross = sum_rows rl_amountMinor lineData;
               net = b_subtotalMinor b - nullish (b_discountMinor b) 0;
               cumGross = priorGross + gross;
               subtotal = max_zero (prorate (b_subtotalMinor b) cumGross net - sum_rows cn_subtotalMinor (bill_notes d (b_id b)));
               tax = max_zero (prorate (b_subtotalMinor b) cumGross (b_taxMinor b) - sum_rows cn_taxMinor (bill_notes d (b_id b)))
           in Inr \<lparr>rp_subtotalMinor = subtotal, rp_taxMinor = tax,
                   rp_method = (case rd_method dto of Some m \<Rightarrow> Some m | None \<Rightarrow> map_option td_method (main_tender ts)),
                   rp_lines = allocate_net subtotal gross 0 lineData\<rparr>)))"

definition note_lines :: "refund_line list \<Rightarrow> uuid \<Rightarrow> credit_note_line list" where
  "note_lines ls n = map (\<lambda>(i, l). \<lparr>cl_id = n + i, cl_orderLineId = rl_orderLineId l, cl_quantity = rl_quantity l,
     cl_unitPriceMinor = rl_unitPriceMinor l, cl_amountMinor = rl_amountMinor l\<rparr>) (enumerate 0 ls)"

definition insert_note ::
  "env \<Rightarrow> pos_principal \<Rightarrow> uuid \<Rightarrow> refund_dto \<Rightarrow> manager_approval \<Rightarrow> refund_plan \<Rightarrow> db \<Rightarrow> credit_note \<times> db" where
  "insert_note e staff billId dto ap plan d =
    (let (i, d1) = take_id d;
         note = \<lparr>cn_id = i, cn_tenantId = pp_tenantId staff, cn_originalBillId = billId, cn_reason = rd_reason dto,
                 cn_approvedByStaffId = ma_approverId ap, cn_createdByStaffId = pp_id staff,
                 cn_subtotalMinor = rp_subtotalMinor plan, cn_taxMinor = rp_taxMinor plan, cn_method = rp_method plan,
                 cn_createdAt = now e, cn_lines = note_lines (rp_lines plan) (nextId d1)\<rparr>
     in (note, d1\<lparr>nextId := nextId d1 + length (rp_lines plan), creditNotes := creditNotes d1 @ [note]\<rparr>))"

definition refund ::
  "env \<Rightarrow> pos_principal \<Rightarrow> uuid \<Rightarrow> refund_dto \<Rightarrow> db \<Rightarrow> attempts \<Rightarrow> (credit_note_view \<times> db) result \<times> attempts" where
  "refund e staff billId dto d a =
    (if nullish (rd_managerPin dto) [] = []
     then (if \<not> roleHasPermission (pp_role staff) refunds then (Inl (Forbidden ''forbidden''), a)
           else (Inl (BadRequest ''validation_failed''), a))
     else case r_bind (loadBill d (pp_tenantId staff) billId) (\<lambda>bt0. refreshOpenBillTotals bt0 d) of
       Inl err \<Rightarrow> (Inl err, a)
     | Inr ((b, ts), d1) \<Rightarrow>
         if b_status b \<noteq> b_finalized then (Inl (Conflict ''bill_not_finalized''), a)
         else case plan_refund d1 (b, ts) dto of
           Inl err \<Rightarrow> (Inl err, a)
         | Inr plan \<Rightarrow>
             (case authorize e d1 a_refund (pp_tenantId staff) (b_outletId b) (nullish (rd_managerPin dto) []) (rd_reason dto) (pp_id staff) a of
                (Inl err, a1) \<Rightarrow> (Inl err, a1)
              | (Inr ap, a1) \<Rightarrow>
                  (let (note, d2) = insert_note e staff billId dto ap plan d1;
                       d3 = recordApproval ap (Some (pp_id staff)) (pp_name staff) (now e) d2
                   in (Inr (toCreditNoteView note (b_pricesIncludeTax b), d3), a1))))"

section \<open>The amounts of a note\<close>

lemma refund_lines_Cons:
  assumes "refund_lines ls ((k, q) # ts) sofar = Inr rs"
  obtains l rs' where "find_row ol_id k ls = Some l" "l \<in> set ls" "ol_id l = k" "q \<le> of_int (ol_quantity l - sofar k)" "q = of_int \<lfloor>q\<rfloor>"
    "refund_lines ls ts (sofar(k := sofar k + \<lfloor>q\<rfloor>)) = Inr rs'"
    "rs = \<lparr>rl_orderLineId = k, rl_quantity = \<lfloor>q\<rfloor>, rl_unitPriceMinor = line_unit l, rl_amountMinor = line_unit l * \<lfloor>q\<rfloor>\<rparr> # rs'"
proof -
  obtain l where l: "find_row ol_id k ls = Some l" "q \<le> of_int (ol_quantity l - sofar k)" "q = of_int \<lfloor>q\<rfloor>"
    using assms by (auto split: option.splits if_splits)
  with assms find_row_Some [OF l(1)] that show thesis by (auto simp: result_simps not_less [symmetric])
qed

lemma refund_lines_shape:
  assumes "refund_lines ls ts sofar = Inr rs"
  shows "length rs = length ts \<and> (\<forall>r \<in> set rs. rl_amountMinor r = rl_unitPriceMinor r * rl_quantity r \<and>
      (\<exists>l \<in> set ls. ol_id l = rl_orderLineId r \<and> rl_unitPriceMinor r = line_unit l)) \<and>
    ((\<forall>t \<in> set ts. 0 \<le> snd t) \<longrightarrow> (\<forall>r \<in> set rs. 0 \<le> rl_quantity r))"
  using assms
proof (induction ts arbitrary: sofar rs)
  case Nil
  then show ?case by simp
next
  case (Cons t ts)
  obtain k q where t: "t = (k, q)" by fastforce
  obtain l rs' where c: "l \<in> set ls" "ol_id l = k" "refund_lines ls ts (sofar(k := sofar k + \<lfloor>q\<rfloor>)) = Inr rs'"
    "rs = \<lparr>rl_orderLineId = k, rl_quantity = \<lfloor>q\<rfloor>, rl_unitPriceMinor = line_unit l, rl_amountMinor = line_unit l * \<lfloor>q\<rfloor>\<rparr> # rs'"
    using Cons.prems unfolding t by (rule refund_lines_Cons) (rule that)
  from Cons.IH [OF c(3)] c(1,2,4) show ?case by (auto simp: t)
qed

text \<open>SE-3: counting each target against its line before the next one is checked keeps every line within its quantity.\<close>

lemma refund_lines_within:
  assumes "refund_lines ls ts sofar = Inr rs" and "distinct (map ol_id ls)" and "l \<in> set ls" and "sofar (ol_id l) \<le> ol_quantity l"
  shows "sofar (ol_id l) + sum_rows rl_quantity (filter (\<lambda>r. rl_orderLineId r = ol_id l) rs) \<le> ol_quantity l"
  using assms(1,4)
proof (induction ts arbitrary: sofar rs)
  case Nil
  then show ?case by simp
next
  case (Cons t ts)
  obtain k q where t: "t = (k, q)" by fastforce
  obtain x rs' where x: "find_row ol_id k ls = Some x" "q \<le> of_int (ol_quantity x - sofar k)"
    "refund_lines ls ts (sofar(k := sofar k + \<lfloor>q\<rfloor>)) = Inr rs'"
    "rs = \<lparr>rl_orderLineId = k, rl_quantity = \<lfloor>q\<rfloor>, rl_unitPriceMinor = line_unit x, rl_amountMinor = line_unit x * \<lfloor>q\<rfloor>\<rparr> # rs'"
    using Cons.prems(1) unfolding t by (rule refund_lines_Cons) (rule that)
  have "\<lfloor>q\<rfloor> \<le> ol_quantity x - sofar k" using x(2) by (metis floor_mono floor_of_int)
  moreover have "x = l" if "k = ol_id l"
    using that x(1) find_row_distinct [OF assms(2,3)] by simp
  ultimately have "(sofar(k := sofar k + \<lfloor>q\<rfloor>)) (ol_id l) \<le> ol_quantity l" using Cons.prems(2) by auto
  from Cons.IH [OF x(3) this] x(4) show ?case by auto
qed

lemma allocate_net_shape:
  "map rl_orderLineId (allocate_net s g a ls) = map rl_orderLineId ls"
  "map rl_quantity (allocate_net s g a ls) = map rl_quantity ls"
  "map rl_unitPriceMinor (allocate_net s g a ls) = map rl_unitPriceMinor ls"
  by (induction s g a ls rule: allocate_net.induct) (simp_all add: Let_def)

text \<open>#221: the lines of a note always add up to its subtotal.\<close>

lemma allocate_net_sum: "ls \<noteq> [] \<Longrightarrow> sum_rows rl_amountMinor (allocate_net s g a ls) = s - a"
  by (induction s g a ls rule: allocate_net.induct) (auto simp: Let_def)

lemma note_lines_shape:
  "map cl_orderLineId (note_lines ls n) = map rl_orderLineId ls" "map cl_quantity (note_lines ls n) = map rl_quantity ls"
  "map cl_unitPriceMinor (note_lines ls n) = map rl_unitPriceMinor ls" "map cl_amountMinor (note_lines ls n) = map rl_amountMinor ls"
proof -
  have "map (\<lambda>(i, l). f l) (enumerate 0 ls) = map f ls" for f :: "refund_line \<Rightarrow> 'a"
    by (metis (no_types, lifting) comp_apply map_map map_snd_enumerate case_prod_unfold map_eq_conv)
  then show "map cl_orderLineId (note_lines ls n) = map rl_orderLineId ls" "map cl_quantity (note_lines ls n) = map rl_quantity ls"
    "map cl_unitPriceMinor (note_lines ls n) = map rl_unitPriceMinor ls" "map cl_amountMinor (note_lines ls n) = map rl_amountMinor ls"
    by (simp_all add: note_lines_def comp_def case_prod_unfold)
qed

lemma prorate_zero [simp]: "prorate s 0 x = 0"
  by (simp add: prorate_def)

lemma prorate_div: "0 \<le> s \<Longrightarrow> 0 \<le> g \<Longrightarrow> 0 \<le> x \<Longrightarrow> prorate s g x = (g * x) div s"
  by (auto simp: prorate_def sdiv_pos)

lemma prorate_mono: "0 \<le> s \<Longrightarrow> 0 \<le> g \<Longrightarrow> g \<le> h \<Longrightarrow> 0 \<le> x \<Longrightarrow> prorate s g x \<le> prorate s h x"
  by (cases "s = 0") (simp_all add: prorate_div zdiv_mono1 mult_right_mono)

lemma prorate_whole: "0 < s \<Longrightarrow> 0 \<le> x \<Longrightarrow> prorate s s x = x"
  by (simp add: prorate_div)

lemma prorate_le: "0 \<le> s \<Longrightarrow> 0 \<le> g \<Longrightarrow> g \<le> s \<Longrightarrow> 0 \<le> x \<Longrightarrow> prorate s g x \<le> x"
  using prorate_mono [of s g s x] prorate_whole [of s x] by (cases "s = 0") (auto simp: prorate_def)

text \<open>SE-1: allocated cumulatively, the notes of a bill together are the prorated total of what was refunded so far.\<close>

lemma cumulative_step:
  assumes "0 \<le> s" "0 \<le> g" "0 \<le> h" "0 \<le> x" and "prior = prorate s g x"
  shows "prior + max_zero (prorate s (g + h) x - prior) = prorate s (g + h) x"
  using prorate_mono [of s g "g + h" x] assms by (simp add: max_zero_def)

section \<open>What the notes of a bill promise\<close>

abbreviation refunded :: "db \<Rightarrow> bill \<Rightarrow> order_line \<Rightarrow> int" where
  "refunded d b l \<equiv> refunded_so_far (prior_lines d (b_id b)) (ol_id l)"

definition gross_of :: "credit_note_line list \<Rightarrow> int" where
  "gross_of cs = sum_rows (\<lambda>c. cl_unitPriceMinor c * cl_quantity c) cs"

definition net_minor :: "bill \<Rightarrow> int" where
  "net_minor b = b_subtotalMinor b - nullish (b_discountMinor b) 0"

definition lines_ok :: "db \<Rightarrow> bill \<Rightarrow> bool" where
  "lines_ok d b \<longleftrightarrow> distinct (map ol_id (live_lines d (b_orderId b))) \<and>
     b_subtotalMinor b = computeSubtotal d (b_orderId b) \<and> 0 \<le> net_minor b \<and> 0 \<le> b_taxMinor b \<and>
     (\<forall>l \<in> set (live_lines d (b_orderId b)). 0 \<le> line_unit l \<and> 0 < ol_quantity l)"

definition refunds_ok :: "db \<Rightarrow> bill \<Rightarrow> bool" where
  "refunds_ok d b \<longleftrightarrow>
     (\<forall>c \<in> set (prior_lines d (b_id b)). 0 \<le> cl_quantity c \<and>
        (\<exists>l \<in> set (live_lines d (b_orderId b)). ol_id l = cl_orderLineId c \<and> cl_unitPriceMinor c = line_unit l)) \<and>
     (\<forall>l \<in> set (live_lines d (b_orderId b)). refunded d b l \<le> ol_quantity l) \<and>
     sum_rows cn_subtotalMinor (bill_notes d (b_id b)) = prorate (b_subtotalMinor b) (gross_of (prior_lines d (b_id b))) (net_minor b) \<and>
     sum_rows cn_taxMinor (bill_notes d (b_id b)) = prorate (b_subtotalMinor b) (gross_of (prior_lines d (b_id b))) (b_taxMinor b)"

lemma refunded_so_far_append: "refunded_so_far (cs @ ds) k = refunded_so_far cs k + refunded_so_far ds k"
  by (simp add: refunded_so_far_def)

lemma gross_of_append: "gross_of (cs @ ds) = gross_of cs + gross_of ds"
  by (simp add: gross_of_def)

text \<open>The gross value of note lines, counted per order line.\<close>

lemma gross_by_line:
  assumes "distinct (map ol_id ls)" and "\<forall>c \<in> set cs. \<exists>l \<in> set ls. ol_id l = cl_orderLineId c \<and> cl_unitPriceMinor c = line_unit l"
  shows "gross_of cs = sum_rows (\<lambda>l. refunded_so_far cs (ol_id l) * line_unit l) ls"
  using assms(2)
proof (induction cs)
  case Nil
  then show ?case by (simp add: gross_of_def refunded_so_far_def sum_rows_def)
next
  case (Cons c cs)
  then obtain l where l: "l \<in> set ls" "ol_id l = cl_orderLineId c" "cl_unitPriceMinor c = line_unit l" by auto
  have "sum_rows (\<lambda>x. (if cl_orderLineId c = ol_id x then cl_quantity c else 0) * line_unit x) ls = cl_quantity c * line_unit l"
    using assms(1) l(1) unfolding l(2) [symmetric]
  proof (induction ls)
    case (Cons x xs)
    have "sum_rows (\<lambda>x. (if ol_id l = ol_id x then cl_quantity c else 0) * line_unit x) xs = 0" if "l = x"
      using Cons.prems(1) that by (induction xs) auto
    moreover have "ol_id l \<noteq> ol_id x" if "l \<noteq> x" using Cons.prems that by (force simp: image_iff)
    ultimately show ?case using Cons by (cases "l = x") auto
  qed simp
  moreover have "sum_rows (\<lambda>x. refunded_so_far (c # cs) (ol_id x) * line_unit x) ls =
      sum_rows (\<lambda>x. (if cl_orderLineId c = ol_id x then cl_quantity c else 0) * line_unit x) ls +
      sum_rows (\<lambda>x. refunded_so_far cs (ol_id x) * line_unit x) ls"
    by (induction ls) (auto simp: refunded_so_far_def algebra_simps)
  ultimately show ?case using Cons l by (simp add: gross_of_def)
qed

lemma gross_bounds:
  assumes "lines_ok d b" and "refunds_ok d b"
  shows "0 \<le> gross_of (prior_lines d (b_id b))" "gross_of (prior_lines d (b_id b)) \<le> b_subtotalMinor b"
    "(\<forall>l \<in> set (live_lines d (b_orderId b)). refunded d b l = ol_quantity l) \<Longrightarrow> gross_of (prior_lines d (b_id b)) = b_subtotalMinor b"
proof -
  let ?ls = "live_lines d (b_orderId b)"
  have g: "gross_of (prior_lines d (b_id b)) = sum_rows (\<lambda>l. refunded d b l * line_unit l) ?ls"
    by (rule gross_by_line) (use assms in \<open>auto simp: lines_ok_def refunds_ok_def\<close>)
  have s: "b_subtotalMinor b = sum_rows (\<lambda>l. ol_quantity l * line_unit l) ?ls"
    using assms(1) by (simp add: lines_ok_def computeSubtotal_sum)
  have "0 \<le> refunded d b l" for l
    using assms(2) by (auto simp: refunds_ok_def refunded_so_far_def intro!: sum_rows_nonneg)
  then have "0 \<le> refunded d b l * line_unit l \<and> refunded d b l * line_unit l \<le> ol_quantity l * line_unit l" if "l \<in> set ?ls" for l
    using assms that by (auto simp: lines_ok_def refunds_ok_def mult_right_mono)
  then show "0 \<le> gross_of (prior_lines d (b_id b))" "gross_of (prior_lines d (b_id b)) \<le> b_subtotalMinor b"
    unfolding g s by (auto simp: sum_rows_def intro!: sum_rows_nonneg sum_list_mono sum_list_nonneg)
  show "gross_of (prior_lines d (b_id b)) = b_subtotalMinor b" if "\<forall>l \<in> set ?ls. refunded d b l = ol_quantity l"
    unfolding g s using that by (simp add: sum_rows_def cong: map_cong)
qed

section \<open>The handler\<close>

lemma refund_cases:
  assumes "refund e staff k dto d a = (Inr (v, d'), a')"
  obtains b ts d1 plan ap nt d2 where
    "r_bind (loadBill d (pp_tenantId staff) k) (\<lambda>bt0. refreshOpenBillTotals bt0 d) = Inr ((b, ts), d1)" "b_status b = b_finalized"
    "plan_refund d1 (b, ts) dto = Inr plan" "insert_note e staff k dto ap plan d1 = (nt, d2)"
    "authorize e d1 a_refund (pp_tenantId staff) (b_outletId b) (nullish (rd_managerPin dto) []) (rd_reason dto) (pp_id staff) a = (Inr ap, a')"
    "v = toCreditNoteView nt (b_pricesIncludeTax b)" "d' = recordApproval ap (Some (pp_id staff)) (pp_name staff) (now e) d2"
proof -
  let ?load = "r_bind (loadBill d (pp_tenantId staff) k) (\<lambda>bt0. refreshOpenBillTotals bt0 d)"
  have pin: "nullish (rd_managerPin dto) [] \<noteq> []"
    using assms by (auto simp: refund_def split: if_splits)
  obtain b ts d1 where l: "?load = Inr ((b, ts), d1)"
    using assms pin by (cases ?load) (auto simp: refund_def)
  have st: "b_status b = b_finalized"
    using assms pin l by (cases "b_status b") (simp_all add: refund_def)
  obtain plan where p: "plan_refund d1 (b, ts) dto = Inr plan"
    using assms pin l st by (cases "plan_refund d1 (b, ts) dto") (simp_all add: refund_def)
  obtain r a1 where au: "authorize e d1 a_refund (pp_tenantId staff) (b_outletId b) (nullish (rd_managerPin dto) []) (rd_reason dto) (pp_id staff) a = (r, a1)"
    by fastforce
  obtain ap where ap: "r = Inr ap" using assms pin l st p au by (cases r) (simp_all add: refund_def)
  obtain nt d2 where n: "insert_note e staff k dto ap plan d1 = (nt, d2)" by fastforce
  show thesis
    by (rule that [OF l st p n]) (use assms pin l st p au ap n in \<open>simp_all add: refund_def\<close>)
qed

lemma insert_note_effect:
  assumes "insert_note e staff k dto ap plan d = (nt, d')"
  shows "d' = d\<lparr>nextId := Suc (nextId d) + length (rp_lines plan), creditNotes := creditNotes d @ [nt]\<rparr>"
    "cn_originalBillId nt = k" "cn_subtotalMinor nt = rp_subtotalMinor plan" "cn_taxMinor nt = rp_taxMinor plan"
    "cn_lines nt = note_lines (rp_lines plan) (Suc (nextId d))" "cn_id nt = nextId d" "cn_tenantId nt = pp_tenantId staff"
    "cn_approvedByStaffId nt = ma_approverId ap"
  using assms by (auto simp: insert_note_def take_id_def Let_def)

lemma refund_effect:
  assumes "refund e staff k dto d a = (Inr (v, d'), a')" and "books_ok d"
  obtains b plan ap nt where "b \<in> set (bills d)" "b_id b = k" "b_tenantId b = pp_tenantId staff" "b_status b = b_finalized"
    "plan_refund d (b, bill_tenders d k) dto = Inr plan"
    "authorize e d a_refund (pp_tenantId staff) (b_outletId b) (nullish (rd_managerPin dto) []) (rd_reason dto) (pp_id staff) a = (Inr ap, a')"
    "v = toCreditNoteView nt (b_pricesIncludeTax b)" "creditNotes d' = creditNotes d @ [nt]" "bills d' = bills d" "tenders d' = tenders d"
    "orders d' = orders d" "orderLines d' = orderLines d" "billCounters d' = billCounters d" "nextId d \<le> nextId d'" "intents d' = intents d"
    "shifts d' = shifts d" "billShares d' = billShares d" "cn_originalBillId nt = k" "cn_subtotalMinor nt = rp_subtotalMinor plan"
    "cn_taxMinor nt = rp_taxMinor plan" "\<exists>n. cn_lines nt = note_lines (rp_lines plan) n" "cn_approvedByStaffId nt = ma_approverId ap"
proof -
  obtain b ts d1 plan ap nt d2 where c:
    "r_bind (loadBill d (pp_tenantId staff) k) (\<lambda>bt0. refreshOpenBillTotals bt0 d) = Inr ((b, ts), d1)" "b_status b = b_finalized"
    "plan_refund d1 (b, ts) dto = Inr plan" "insert_note e staff k dto ap plan d1 = (nt, d2)"
    "authorize e d1 a_refund (pp_tenantId staff) (b_outletId b) (nullish (rd_managerPin dto) []) (rd_reason dto) (pp_id staff) a = (Inr ap, a')"
    "v = toCreditNoteView nt (b_pricesIncludeTax b)" "d' = recordApproval ap (Some (pp_id staff)) (pp_name staff) (now e) d2"
    using assms(1) by (rule refund_cases)
  note f = fresh_bill [OF c(1) assms(2)]
  have "d1 = d" using f(8) c(2) by blast
  note n = insert_note_effect [OF c(4)]
  show thesis
    by (rule that [of b plan ap nt]) (use c f n \<open>d1 = d\<close> in \<open>auto\<close>)
qed

lemma refund_keeps:
  assumes "refund e staff k dto d a = (Inr (v, d'), a')" and "books_ok d"
  shows "books_ok d'" "ledger_grows d d'"
proof -
  obtain nt where c: "creditNotes d' = creditNotes d @ [nt]" "bills d' = bills d" "tenders d' = tenders d"
     "billCounters d' = billCounters d" "nextId d \<le> nextId d'"
    using assms by (rule refund_effect) (rule that)
  show "books_ok d'" by (rule books_ok_frame [OF assms(2) c(2-5)])
  show "ledger_grows d d'" using c by (simp add: ledger_grows_def bill_tenders_def)
qed

lemma expand_combos_nonneg:
  assumes "expand_combos ls ks = Inr ts" and "\<And>t. t \<in> set ks \<Longrightarrow> 0 \<le> snd t" and "\<And>l. l \<in> set ls \<Longrightarrow> 0 \<le> ol_quantity l"
  shows "\<forall>t \<in> set ts. 0 \<le> snd t"
  using assms
proof (induction ls ks arbitrary: ts rule: expand_combos.induct)
  case (1 ls)
  then show ?case by simp
next
  case (2 ls k q ks)
  show ?case
  proof (cases "find_row ol_id k ls")
    case None
    with 2 show ?thesis by simp
  next
    case (Some l)
    then obtain rest where "expand_combos ls ks = Inr rest" and
      ts: "ts = (if ol_comboId l \<noteq> None then map (\<lambda>c. (ol_id c, of_int (q * ol_quantity c) / of_int (ol_quantity l)))
                        (filter (\<lambda>c. ol_parentLineId c = Some (ol_id l)) ls) else []) @ rest" and np: "ol_parentLineId l = None"
      using 2(3) by (auto simp: result_simps split: if_splits)
    with 2 Some have "\<forall>t \<in> set rest. 0 \<le> snd t" by auto
    moreover have "0 \<le> ol_quantity l" using 2(5) find_row_Some [OF Some] by blast
    moreover have "0 \<le> q" using 2(4) by force
    ultimately show ?thesis using ts 2(5) by (auto intro!: divide_nonneg_nonneg mult_nonneg_nonneg)
  qed
qed

lemma plan_refund_Inr:
  assumes "plan_refund d (b, ts) dto = Inr plan"
  obtains targets lineData where "refund_lines (live_lines d (b_orderId b)) targets (refunded_so_far (prior_lines d (b_id b))) = Inr lineData"
    "lineData \<noteq> []" "rp_subtotalMinor plan = max_zero (prorate (b_subtotalMinor b)
       (gross_of (prior_lines d (b_id b)) + sum_rows rl_amountMinor lineData) (net_minor b) - sum_rows cn_subtotalMinor (bill_notes d (b_id b)))"
    "rp_taxMinor plan = max_zero (prorate (b_subtotalMinor b)
       (gross_of (prior_lines d (b_id b)) + sum_rows rl_amountMinor lineData) (b_taxMinor b) - sum_rows cn_taxMinor (bill_notes d (b_id b)))"
    "rp_lines plan = allocate_net (rp_subtotalMinor plan) (sum_rows rl_amountMinor lineData) 0 lineData"
    "rd_lines dto = None \<longrightarrow> targets = default_targets (live_lines d (b_orderId b)) (refunded_so_far (prior_lines d (b_id b)))"
    "(\<forall>ks. rd_lines dto = Some ks \<longrightarrow> (\<forall>t \<in> set ks. 0 \<le> snd t)) \<and> (\<forall>l \<in> set (live_lines d (b_orderId b)). 0 \<le> ol_quantity l) \<longrightarrow>
       (\<forall>t \<in> set targets. 0 \<le> snd t)"
proof -
  let ?ls = "live_lines d (b_orderId b)" and ?sofar = "refunded_so_far (prior_lines d (b_id b))"
  define targets where "targets = (case rd_lines dto of Some ks \<Rightarrow> map (\<lambda>(k, q). (k, rat_of_int q)) ks | None \<Rightarrow> default_targets ?ls ?sofar)"
  have ne: "targets \<noteq> []" using assms by (auto simp: plan_refund_def targets_def Let_def split: if_splits)
  obtain children where ch: "(case rd_lines dto of Some ks \<Rightarrow> expand_combos ?ls ks | None \<Rightarrow> Inr []) = Inr children"
    using assms ne by (auto simp: plan_refund_def targets_def Let_def r_bind_eq_Inr split: if_splits)
  obtain lineData where ld: "refund_lines ?ls (targets @ children) ?sofar = Inr lineData"
    using assms ne ch by (auto simp: plan_refund_def targets_def Let_def r_bind_eq_Inr split: if_splits)
  have nl: "lineData \<noteq> []" using refund_lines_shape [OF ld] ne by auto
  show thesis
  proof (rule that [OF ld nl])
    show "rd_lines dto = None \<longrightarrow> targets @ children = default_targets ?ls ?sofar"
      using ch by (auto simp: targets_def)
    show "(\<forall>ks. rd_lines dto = Some ks \<longrightarrow> (\<forall>t \<in> set ks. 0 \<le> snd t)) \<and> (\<forall>l \<in> set ?ls. 0 \<le> ol_quantity l) \<longrightarrow>
       (\<forall>t \<in> set (targets @ children). 0 \<le> snd t)"
    proof (cases "rd_lines dto")
      case None
      with ch show ?thesis by (auto simp: targets_def default_targets_def)
    next
      case (Some ks)
      with ch expand_combos_nonneg [of ?ls ks children] show ?thesis by (force simp: targets_def)
    qed
  qed (use assms ne ch ld in \<open>auto simp: plan_refund_def targets_def Let_def gross_of_def net_minor_def\<close>)
qed

lemma note_lines_sum:
  "sum_rows (\<lambda>c. f (cl_unitPriceMinor c) (cl_quantity c)) (note_lines (allocate_net s g a ls) n) =
   sum_rows (\<lambda>l. f (rl_unitPriceMinor l) (rl_quantity l)) ls"
proof -
  let ?cs = "note_lines (allocate_net s g a ls) n"
  have "map (\<lambda>c. f (cl_unitPriceMinor c) (cl_quantity c)) ?cs = map2 f (map cl_unitPriceMinor ?cs) (map cl_quantity ?cs)"
    by (simp add: map2_map_map)
  also have "\<dots> = map (\<lambda>l. f (rl_unitPriceMinor l) (rl_quantity l)) ls"
    unfolding note_lines_shape allocate_net_shape by (simp add: map2_map_map)
  finally show ?thesis by (simp add: sum_rows_def)
qed

lemma note_line_origin:
  assumes "c \<in> set (note_lines (allocate_net s g a ls) n)"
  shows "\<exists>r \<in> set ls. rl_orderLineId r = cl_orderLineId c \<and> rl_quantity r = cl_quantity c \<and> rl_unitPriceMinor r = cl_unitPriceMinor c"
proof -
  let ?cs = "note_lines (allocate_net s g a ls) n"
  obtain i where i: "i < length ?cs" "c = ?cs ! i" using assms by (auto simp: in_set_conv_nth)
  have m: "map cl_orderLineId ?cs = map rl_orderLineId ls" "map cl_quantity ?cs = map rl_quantity ls"
    "map cl_unitPriceMinor ?cs = map rl_unitPriceMinor ls"
    by (simp_all add: note_lines_shape allocate_net_shape)
  then have "length ?cs = length ls" by (metis length_map)
  then have "rl_orderLineId (ls ! i) = cl_orderLineId c" "rl_quantity (ls ! i) = cl_quantity c" "rl_unitPriceMinor (ls ! i) = cl_unitPriceMinor c"
    using m i by (metis nth_map)+
  with i(1) \<open>length ?cs = length ls\<close> show ?thesis by (metis nth_mem)
qed

lemma note_refunded:
  "refunded_so_far (note_lines (allocate_net s g a ls) n) k = sum_rows rl_quantity (filter (\<lambda>r. rl_orderLineId r = k) ls)"
proof -
  have pairs: "sum_rows q (filter (\<lambda>x. i x = k) xs) = sum_list (map2 (\<lambda>a b. if a = k then b else 0) (map i xs) (map q xs))"
    for i :: "'x \<Rightarrow> uuid" and q :: "'x \<Rightarrow> int" and xs
    by (induction xs) auto
  show ?thesis
    unfolding refunded_so_far_def pairs [of cl_quantity] pairs [of rl_quantity] note_lines_shape allocate_net_shape ..
qed

lemma live_lines_frame: "orderLines d' = orderLines d \<Longrightarrow> live_lines d' k = live_lines d k"
  by (simp add: live_lines_def)

lemma lines_ok_frame: "orderLines d' = orderLines d \<Longrightarrow> lines_ok d' b = lines_ok d b"
  by (simp add: lines_ok_def computeSubtotal_sum live_lines_frame [of d' d])

text \<open>Without named lines the rest of every line is refunded.\<close>

lemma refund_lines_hits:
  assumes "refund_lines ls ts sofar = Inr rs"
  shows "of_int (sum_rows rl_quantity (filter (\<lambda>r. rl_orderLineId r = k) rs)) = sum_list (map snd (filter (\<lambda>t. fst t = k) ts))"
  using assms
proof (induction ts arbitrary: sofar rs)
  case Nil
  then show ?case by simp
next
  case (Cons t ts)
  obtain j q where t: "t = (j, q)" by fastforce
  obtain l rs' where c: "q = of_int \<lfloor>q\<rfloor>" "refund_lines ls ts (sofar(j := sofar j + \<lfloor>q\<rfloor>)) = Inr rs'"
    "rs = \<lparr>rl_orderLineId = j, rl_quantity = \<lfloor>q\<rfloor>, rl_unitPriceMinor = line_unit l, rl_amountMinor = line_unit l * \<lfloor>q\<rfloor>\<rparr> # rs'"
    using Cons.prems unfolding t by (rule refund_lines_Cons) (rule that)
  from Cons.IH [OF c(2)] c(1,3) show ?case by (auto simp: t)
qed

lemma default_targets_rest:
  assumes "refund_lines ls (default_targets ls sofar) sofar = Inr rs" and "distinct (map ol_id ls)" and "l \<in> set ls" and "sofar (ol_id l) \<le> ol_quantity l"
  shows "sum_rows rl_quantity (filter (\<lambda>r. rl_orderLineId r = ol_id l) rs) = ol_quantity l - sofar (ol_id l)"
proof -
  have "sum_list (map snd (filter (\<lambda>t. fst t = ol_id l) (default_targets ls sofar))) = (of_int (ol_quantity l - sofar (ol_id l)) :: rat)"
    using assms(2-4)
  proof (induction ls)
    case (Cons x xs)
    have "filter (\<lambda>t. fst t = ol_id l) (default_targets xs sofar) = []" if "l = x"
      using Cons.prems(1) that by (auto simp: default_targets_def filter_empty_conv image_iff)
    moreover have "ol_id l \<noteq> ol_id x" if "l \<noteq> x" using Cons.prems that by (force simp: image_iff)
    ultimately show ?case using Cons by (cases "l = x") (auto simp: default_targets_def)
  qed simp
  with refund_lines_hits [OF assms(1), of "ol_id l"] show ?thesis by (metis of_int_eq_iff)
qed

text \<open>One more note keeps the promise, for any request whose quantities are not negative.\<close>

lemma refunds_ok_step:
  assumes "plan_refund d (b, ts) dto = Inr plan" and "lines_ok d b" and "refunds_ok d b"
    and "\<forall>ks. rd_lines dto = Some ks \<longrightarrow> (\<forall>t \<in> set ks. 0 \<le> snd t)"
    and "creditNotes d' = creditNotes d @ [nt]" "orderLines d' = orderLines d" "cn_originalBillId nt = b_id b"
      "cn_subtotalMinor nt = rp_subtotalMinor plan" "cn_taxMinor nt = rp_taxMinor plan" "cn_lines nt = note_lines (rp_lines plan) n"
  shows "refunds_ok d' b"
    and "rd_lines dto = None \<Longrightarrow> l \<in> set (live_lines d (b_orderId b)) \<Longrightarrow> refunded d' b l = ol_quantity l"
proof -
  let ?ls = "live_lines d (b_orderId b)" and ?prior = "prior_lines d (b_id b)"
  obtain targets lineData where p: "refund_lines ?ls targets (refunded_so_far ?prior) = Inr lineData"
    "rp_subtotalMinor plan = max_zero (prorate (b_subtotalMinor b)
       (gross_of ?prior + sum_rows rl_amountMinor lineData) (net_minor b) - sum_rows cn_subtotalMinor (bill_notes d (b_id b)))"
    "rp_taxMinor plan = max_zero (prorate (b_subtotalMinor b)
       (gross_of ?prior + sum_rows rl_amountMinor lineData) (b_taxMinor b) - sum_rows cn_taxMinor (bill_notes d (b_id b)))"
    "rp_lines plan = allocate_net (rp_subtotalMinor plan) (sum_rows rl_amountMinor lineData) 0 lineData"
    and dt: "rd_lines dto = None \<longrightarrow> targets = default_targets ?ls (refunded_so_far ?prior)"
    and nn: "(\<forall>ks. rd_lines dto = Some ks \<longrightarrow> (\<forall>t \<in> set ks. 0 \<le> snd t)) \<and> (\<forall>l \<in> set ?ls. 0 \<le> ol_quantity l) \<longrightarrow> (\<forall>t \<in> set targets. 0 \<le> snd t)"
    using assms(1) by (rule plan_refund_Inr) (rule that)
  have q: "0 < ol_quantity l" if "l \<in> set ?ls" for l using assms(2) that by (simp add: lines_ok_def)
  have nonneg: "\<forall>t \<in> set targets. 0 \<le> snd t" using nn assms(4) q less_imp_le by blast
  note sh = refund_lines_shape [OF p(1)]
  let ?cs = "note_lines (rp_lines plan) n"
  have ns: "bill_notes d' (b_id b) = bill_notes d (b_id b) @ [nt]" "prior_lines d' (b_id b) = ?prior @ ?cs"
    using assms(5,7,10) by (simp_all add: bill_notes_def prior_lines_def)
  have live: "live_lines d' (b_orderId b) = ?ls" using assms(6) by (rule live_lines_frame)
  have "gross_of ?cs = sum_rows (\<lambda>l. rl_unitPriceMinor l * rl_quantity l) lineData"
    unfolding gross_of_def p(4) by (rule note_lines_sum [of "(*)"])
  also have "\<dots> = sum_rows rl_amountMinor lineData" using sh by (simp add: sum_rows_def cong: map_cong)
  finally have g: "gross_of ?cs = sum_rows rl_amountMinor lineData" .
  have g0: "0 \<le> sum_rows rl_amountMinor lineData"
    using sh nonneg assms(2) by (intro sum_rows_nonneg) (fastforce simp: lines_ok_def)
  note gb = gross_bounds [OF assms(2,3)]
  have nn: "0 \<le> net_minor b" "0 \<le> b_taxMinor b" "0 \<le> b_subtotalMinor b"
    using assms(2) gb by (auto simp: lines_ok_def)
  have r: "refunded d' b l = refunded d b l + sum_rows rl_quantity (filter (\<lambda>r. rl_orderLineId r = ol_id l) lineData)" for l
    unfolding ns refunded_so_far_append p(4) note_refunded ..
  have dist: "distinct (map ol_id ?ls)" using assms(2) by (simp add: lines_ok_def)
  have within: "refunded d' b l \<le> ol_quantity l" if "l \<in> set ?ls" for l
    unfolding r using refund_lines_within [OF p(1) dist that] assms(3) that by (simp add: refunds_ok_def)
  have cs: "0 \<le> cl_quantity c \<and> (\<exists>l \<in> set ?ls. ol_id l = cl_orderLineId c \<and> cl_unitPriceMinor c = line_unit l)" if "c \<in> set ?cs" for c
    using note_line_origin [OF that [unfolded p(4)]] sh nonneg by fastforce
  show "refunds_ok d' b"
    unfolding refunds_ok_def ns live gross_of_append
  proof (intro conjI)
    show "\<forall>c \<in> set (?prior @ ?cs). 0 \<le> cl_quantity c \<and> (\<exists>l \<in> set ?ls. ol_id l = cl_orderLineId c \<and> cl_unitPriceMinor c = line_unit l)"
      using cs assms(3) by (auto simp: refunds_ok_def)
    show "\<forall>l \<in> set ?ls. refunded_so_far (?prior @ ?cs) (ol_id l) \<le> ol_quantity l" using within ns by simp
    show "sum_rows cn_subtotalMinor (bill_notes d (b_id b) @ [nt]) = prorate (b_subtotalMinor b) (gross_of ?prior + gross_of ?cs) (net_minor b)"
      using cumulative_step [OF nn(3) gb(1) g0 nn(1)] assms(3,8) p(2) g by (simp add: refunds_ok_def)
    show "sum_rows cn_taxMinor (bill_notes d (b_id b) @ [nt]) = prorate (b_subtotalMinor b) (gross_of ?prior + gross_of ?cs) (b_taxMinor b)"
      using cumulative_step [OF nn(3) gb(1) g0 nn(2)] assms(3,9) p(3) g by (simp add: refunds_ok_def)
  qed
  show "refunded d' b l = ol_quantity l" if "rd_lines dto = None" "l \<in> set ?ls"
    unfolding r using default_targets_rest [OF p(1) [unfolded dt [rule_format, OF that(1)]] dist that(2)] assms(3) that(2) by (simp add: refunds_ok_def)
qed

lemma refund_tracks:
  assumes "refund e staff k dto d a = (Inr (v, d'), a')" and "books_ok d" and "find_row b_id k (bills d) = Some b"
    and "lines_ok d b" and "refunds_ok d b" and "\<forall>ks. rd_lines dto = Some ks \<longrightarrow> (\<forall>t \<in> set ks. 0 \<le> snd t)"
  shows "refunds_ok d' b" "lines_ok d' b" "live_lines d' (b_orderId b) = live_lines d (b_orderId b)" "b_id b = k"
    "rd_lines dto = None \<Longrightarrow> \<forall>l \<in> set (live_lines d' (b_orderId b)). refunded d' b l = ol_quantity l"
proof -
  obtain b0 plan nt where c: "b0 \<in> set (bills d)" "b_id b0 = k" "plan_refund d (b0, bill_tenders d k) dto = Inr plan"
    "creditNotes d' = creditNotes d @ [nt]" "orderLines d' = orderLines d" "cn_originalBillId nt = k" "cn_subtotalMinor nt = rp_subtotalMinor plan"
    "cn_taxMinor nt = rp_taxMinor plan" "\<exists>n. cn_lines nt = note_lines (rp_lines plan) n"
    using assms(1,2) by (rule refund_effect) (rule that)
  show k: "b_id b = k" using find_row_Some [OF assms(3)] by simp
  have b0: "b0 = b" using books_okD(2) [OF assms(2) c(1)] c(2) assms(3) by simp
  obtain n where n: "cn_lines nt = note_lines (rp_lines plan) n" using c(9) by blast
  note st = refunds_ok_step [OF c(3) [unfolded b0] assms(4,5,6) c(4,5) c(6) [folded k] c(7,8) n]
  show "refunds_ok d' b" by (rule st(1))
  show live: "live_lines d' (b_orderId b) = live_lines d (b_orderId b)" using c(5) by (rule live_lines_frame)
  show "lines_ok d' b" using assms(4) lines_ok_frame [OF c(5)] by blast
  show "\<forall>l \<in> set (live_lines d' (b_orderId b)). refunded d' b l = ol_quantity l" if "rd_lines dto = None"
    unfolding live using st(2) that by blast
qed

lemma refunds_bounded:
  assumes "lines_ok d b" and "refunds_ok d b"
  shows "sum_rows (note_amount b) (bill_notes d (b_id b)) \<le> bill_total b"
    "0 < b_subtotalMinor b \<Longrightarrow> (\<forall>l \<in> set (live_lines d (b_orderId b)). refunded d b l = ol_quantity l) \<Longrightarrow>
      sum_rows (note_amount b) (bill_notes d (b_id b)) = bill_total b"
proof -
  note g = gross_bounds [OF assms]
  let ?g = "gross_of (prior_lines d (b_id b))"
  have s: "0 \<le> b_subtotalMinor b" "0 \<le> net_minor b" "0 \<le> b_taxMinor b" using g assms(1) by (auto simp: lines_ok_def)
  have "sum_rows (note_amount b) ns = (if b_pricesIncludeTax b then sum_rows cn_subtotalMinor ns else sum_rows cn_subtotalMinor ns + sum_rows cn_taxMinor ns)" for ns
    by (induction ns) (auto simp: note_amount_def)
  then have a: "sum_rows (note_amount b) (bill_notes d (b_id b)) =
      prorate (b_subtotalMinor b) ?g (net_minor b) + (if b_pricesIncludeTax b then 0 else prorate (b_subtotalMinor b) ?g (b_taxMinor b))"
    using assms(2) by (simp add: refunds_ok_def)
  have t: "bill_total b = net_minor b + (if b_pricesIncludeTax b then 0 else b_taxMinor b)"
    by (simp add: bill_total_def computeTotalMinor_def net_minor_def)
  show "sum_rows (note_amount b) (bill_notes d (b_id b)) \<le> bill_total b"
    unfolding a t using prorate_le [OF s(1) g(1,2) s(2)] prorate_le [OF s(1) g(1,2) s(3)] by simp
  show "sum_rows (note_amount b) (bill_notes d (b_id b)) = bill_total b"
    if "0 < b_subtotalMinor b" "\<forall>l \<in> set (live_lines d (b_orderId b)). refunded d b l = ol_quantity l"
    unfolding a t using g(3) [OF that(2)] prorate_whole [OF that(1) s(2)] prorate_whole [OF that(1) s(3)] by simp
qed

text \<open>C12: Refunds never exceed the bill. Take a finalised bill whose credit notes so far are in order (\<open>refunds_ok\<close>: no
  line refunded past its quantity, the notes together are the prorated net and tax of what was
  refunded) and whose stored subtotal is that of its lines. After any further refund the same
  holds, so no line is refunded past its quantity across all notes, and all notes together are
  at most the bill's total.\<close>

theorem refund_never_exceeds_bill:
  assumes "refund e staff k dto d a = (Inr (v, d'), a')" and "books_ok d" and "find_row b_id k (bills d) = Some b"
    and "lines_ok d b" and "refunds_ok d b" and "\<forall>ks. rd_lines dto = Some ks \<longrightarrow> (\<forall>t \<in> set ks. 0 \<le> snd t)"
  shows "refunds_ok d' b \<and> (\<forall>l \<in> set (live_lines d' (b_orderId b)). refunded d' b l \<le> ol_quantity l) \<and>
    sum_rows (note_amount b) (bill_notes d' k) \<le> bill_total b"
proof -
  note t = refund_tracks [OF assms]
  from refunds_bounded(1) [OF t(2,1)] t(1) show ?thesis by (auto simp: t(4) refunds_ok_def)
qed


text \<open>A refund writes one credit note and nothing else of the ledger: bills and tenders stay as they are, the lines of
  the note add up to its subtotal, and the note names an approver whose role carries the refunds
  permission.\<close>

theorem refund_adds_one_note:
  assumes "refund e staff k dto d a = (Inr (v, d'), a')" and "books_ok d"
  shows "\<exists>nt. creditNotes d' = creditNotes d @ [nt] \<and> bills d' = bills d \<and> tenders d' = tenders d \<and> orderLines d' = orderLines d \<and>
    sum_rows cl_amountMinor (cn_lines nt) = cn_subtotalMinor nt \<and> nv_lines v = cn_lines nt \<and> 0 \<le> cn_subtotalMinor nt \<and> 0 \<le> cn_taxMinor nt \<and>
    (\<exists>u \<in> set (staffUsers d). \<exists>r \<in> set (roles d). cn_approvedByStaffId nt = su_id u \<and> su_roleId u = ro_id r \<and> roleHasPermission (ro_name r) refunds)"
proof -
  obtain b plan ap nt where c: "plan_refund d (b, bill_tenders d k) dto = Inr plan"
    "authorize e d a_refund (pp_tenantId staff) (b_outletId b) (nullish (rd_managerPin dto) []) (rd_reason dto) (pp_id staff) a = (Inr ap, a')"
    "v = toCreditNoteView nt (b_pricesIncludeTax b)" "creditNotes d' = creditNotes d @ [nt]" "bills d' = bills d" "tenders d' = tenders d"
    "orderLines d' = orderLines d" "cn_subtotalMinor nt = rp_subtotalMinor plan" "cn_taxMinor nt = rp_taxMinor plan"
    "\<exists>n. cn_lines nt = note_lines (rp_lines plan) n" "cn_approvedByStaffId nt = ma_approverId ap"
    using assms by (rule refund_effect) (rule that)
  obtain lineData ga where p: "lineData \<noteq> []" "rp_lines plan = allocate_net (rp_subtotalMinor plan) ga 0 lineData"
    and z: "0 \<le> rp_subtotalMinor plan" "0 \<le> rp_taxMinor plan"
    using c(1) by (rule plan_refund_Inr) (auto simp: max_zero_def intro: that)
  obtain n where n: "cn_lines nt = note_lines (rp_lines plan) n" using c(10) by blast
  have "sum_rows cl_amountMinor (cn_lines nt) = sum_rows rl_amountMinor (rp_lines plan)"
    unfolding sum_rows_def n note_lines_shape ..
  also have "\<dots> = cn_subtotalMinor nt" unfolding p(2) c(8) by (simp add: allocate_net_sum [OF p(1)])
  finally have su: "sum_rows cl_amountMinor (cn_lines nt) = cn_subtotalMinor nt" .
  obtain u r where u: "(u, r) \<in> set (approval_candidates d a_refund (pp_tenantId staff) (b_outletId b))"
    "ap = \<lparr>ma_approverId = su_id u, ma_approverName = su_name u, ma_roleId = ro_id r, ma_roleName = ro_name r,
       ma_tenantId = pp_tenantId staff, ma_actionType = a_refund, ma_reason = rd_reason dto\<rparr>"
    using c(2) by (rule authorize_approved)
  show ?thesis
    using c su z u(2) approval_candidates_member [OF u(1)] by (intro exI [of _ nt]) (auto simp: toCreditNoteView_def)
qed

text \<open>A settled bill of 700 with 70 off, one of two dals refunded.\<close>

definition s_db_paid :: db where
  "s_db_paid = s_db_order\<lparr>bills := [s_bill\<lparr>b_subtotalMinor := 70000, b_taxMinor := 0, b_discountMinor := Some 7000, b_billNumber := Some 1,
     b_status := b_finalized, b_finalizedAt := Some 0\<rparr>], tenders := [s_cash 63000], billCounters := [\<lparr>bc_tenantId = 1, bc_outletId = 2, bc_lastNumber = 1\<rparr>]\<rparr>"

definition s_refund :: "(uuid \<times> int) list option \<Rightarrow> refund_dto" where
  "s_refund ls = \<lparr>rd_lines = ls, rd_reason = ''Cold'', rd_managerPin = Some ''4321'', rd_method = None\<rparr>"

lemmas refund_eval = refund_def plan_refund_def bill_notes_def prior_lines_def refunded_so_far_def default_targets_def max_zero_def prorate_def
  main_tender_def note_lines_def insert_note_def live_lines_def line_unit_def authorize_def manager_pin_rules_def approval_candidates_def
  List.map_filter_def count_attempt_def consume.simps refund_attempts_def toCreditNoteView_def recordApproval_def roleHasPermission_def
  permissionsFor_def ROLE_PERMISSIONS_def PERMISSIONS_def str_trim_def is_space_def take_id_def find_row_def loadBill_def loadBillRow_def
  refreshOpenBillTotals_def bill_tenders_def s_db_paid_def s_refund_def s_bill_def s_cash_def sdiv_pos enumerate_eq_zip Let_def

lemma refund_sample:
  "\<exists>v d a. refund s_env s_cashier 90 (s_refund (Some [(81, 1)])) s_db_paid (\<lambda>_. None) = (Inr (v, d), a) \<and> nv_subtotalMinor v = 18000"
  by (simp add: refund_eval sample_defs)


lemma s_db_paid_ok:
  shows "books_ok s_db_paid" and "\<exists>b. find_row b_id 90 (bills s_db_paid) = Some b \<and> lines_ok s_db_paid b \<and> refunds_ok s_db_paid b \<and>
    bill_total b = 63000 \<and> 0 < b_subtotalMinor b"
proof -
  show "books_ok s_db_paid"
    by (simp add: books_ok_def keys_ok_def bill_ok_def numbers_at_def finalized_at_def last_bill_number_def tender_sum_def bill_total_def
        computeTotalMinor_def refund_eval sample_defs)
  show "\<exists>b. find_row b_id 90 (bills s_db_paid) = Some b \<and> lines_ok s_db_paid b \<and> refunds_ok s_db_paid b \<and> bill_total b = 63000 \<and> 0 < b_subtotalMinor b"
    by (simp add: lines_ok_def refunds_ok_def net_minor_def gross_of_def computeSubtotal_sum bill_total_def computeTotalMinor_def refund_eval sample_defs)
qed

theorem refund_never_exceeds_bill_witness:
  "\<exists>v d a b. refund s_env s_cashier 90 (s_refund (Some [(81, 1)])) s_db_paid (\<lambda>_. None) = (Inr (v, d), a) \<and> nv_subtotalMinor v = 18000 \<and>
     bill_total b = 63000 \<and> sum_rows (note_amount b) (bill_notes d 90) \<le> bill_total b"
proof -
  obtain v d a where r: "refund s_env s_cashier 90 (s_refund (Some [(81, 1)])) s_db_paid (\<lambda>_. None) = (Inr (v, d), a)" "nv_subtotalMinor v = 18000"
    using refund_sample by blast
  obtain b where b: "find_row b_id 90 (bills s_db_paid) = Some b" "lines_ok s_db_paid b" "refunds_ok s_db_paid b" "bill_total b = 63000"
    using s_db_paid_ok(2) by blast
  have "\<forall>ks. rd_lines (s_refund (Some [(81, 1)])) = Some ks \<longrightarrow> (\<forall>t \<in> set ks. 0 \<le> snd t)" by (simp add: s_refund_def)
  from refund_never_exceeds_bill [OF r(1) s_db_paid_ok(1) b(1-3) this] r b(4) show ?thesis by blast
qed


theorem refund_adds_one_note_witness:
  "\<exists>v d a nt. refund s_env s_cashier 90 (s_refund (Some [(81, 1)])) s_db_paid (\<lambda>_. None) = (Inr (v, d), a) \<and>
     creditNotes d = creditNotes s_db_paid @ [nt] \<and> sum_rows cl_amountMinor (cn_lines nt) = cn_subtotalMinor nt"
proof -
  obtain v d a where r: "refund s_env s_cashier 90 (s_refund (Some [(81, 1)])) s_db_paid (\<lambda>_. None) = (Inr (v, d), a)"
    using refund_sample by blast
  from refund_adds_one_note [OF r s_db_paid_ok(1)] r show ?thesis by blast
qed

end
