(* ===== verification/Payments.thy ===== *)
theory Payments
  imports Refunds
begin

text \<open>
  Payment intents, \<^verbatim>\<open>src/src/pos/payments/intent-core.ts\<close> and \<^verbatim>\<open>intents.service.ts\<close>: asking a card terminal for an
  amount, the terminal's answer, lazy expiry, cancellation, and the one place where an electronic
  tender is written.

  A row with its tender relation is a pair of the intent and the tender's identifier. The two unique indexes
  (one key per tenant, one active intent per bill and share) are checked at the insert.
\<close>

section \<open>The core\<close>

definition LATE_CAPTURE_REFUND_DUE :: string where
  "LATE_CAPTURE_REFUND_DUE = ''late_capture_refund_due''"

definition ACTIVE_INTENT_STATUSES :: "intent_status list" where
  "ACTIVE_INTENT_STATUSES = [i_created, i_pending]"

type_synonym intent_row = "payment_intent \<times> uuid option"

record payment_intent_view =
  iw_id :: uuid
  iw_billId :: uuid
  iw_shareGuestId :: "uuid option"
  iw_rail :: tender_method
  iw_provider :: payment_provider
  iw_amountMinor :: int
  iw_currency :: string
  iw_status :: intent_status
  iw_failureReason :: "string option"
  iw_providerRef :: "string option"
  iw_client :: json
  iw_createdAt :: date
  iw_expiresAt :: date
  iw_succeededAt :: "date option"
  iw_tenderId :: "uuid option"

definition isIntentActive :: "payment_intent \<Rightarrow> bool" where
  "isIntentActive x = (pi_status x \<in> set ACTIVE_INTENT_STATUSES)"

definition intent_tender :: "db \<Rightarrow> uuid \<Rightarrow> uuid option" where
  "intent_tender d i = map_option td_id (find_row td_paymentIntentId (Some i) (tenders d))"

definition read_intent :: "db \<Rightarrow> uuid \<Rightarrow> intent_row result" where
  "read_intent d i =
    (case find_row pi_id i (intents d) of None \<Rightarrow> Inl (InternalError ''P2025'') | Some x \<Rightarrow> Inr (x, intent_tender d i))"

definition toPaymentIntentView :: "intent_row \<Rightarrow> payment_intent_view" where
  "toPaymentIntentView r = (case r of (x, tender) \<Rightarrow>
    \<lparr>iw_id = pi_id x, iw_billId = pi_billId x, iw_shareGuestId = None, iw_rail = pi_rail x, iw_provider = pi_provider x,
     iw_amountMinor = pi_amountMinor x, iw_currency = pi_currency x, iw_status = pi_status x, iw_failureReason = pi_failureReason x,
     iw_providerRef = pi_providerRef x, iw_client = (case pi_clientPayload x of JObj kvs \<Rightarrow> JObj kvs | _ \<Rightarrow> JObj []),
     iw_createdAt = pi_createdAt x, iw_expiresAt = pi_expiresAt x, iw_succeededAt = pi_succeededAt x, iw_tenderId = tender\<rparr>)"

definition update_intents :: "(payment_intent \<Rightarrow> bool) \<Rightarrow> (payment_intent \<Rightarrow> payment_intent) \<Rightarrow> db \<Rightarrow> db" where
  "update_intents p f d = d\<lparr>intents := update_rows p f (intents d)\<rparr>"

definition late_capture :: "env \<Rightarrow> uuid \<Rightarrow> payment_intent \<Rightarrow> db \<Rightarrow> db" where
  "late_capture e tenantId x d =
    (let d1 = update_intents (\<lambda>y. pi_id y = pi_id x) (\<lambda>y. y\<lparr>pi_failureReason := Some LATE_CAPTURE_REFUND_DUE\<rparr>) d
     in d1\<lparr>auditEvents := auditEvents d1 @
       [\<lparr>ae_tenantId = tenantId, ae_actorId = None, ae_actorEmail = ''system:payments'', ae_approverId = None, ae_approverName = None,
         ae_action = ''payment.late_capture_refund_due'',
         ae_reason = ''Payment intent '' @ show_digits (pi_id x) @ '' ('' @ show_int (pi_amountMinor x) @ '' '' @ pi_currency x @
           '') was captured after bill '' @ show_digits (pi_billId x) @ '' was already settled - refund it to the customer'',
         ae_occurredAt = now e\<rparr>]\<rparr>)"

definition confirmIntent :: "env \<Rightarrow> uuid \<Rightarrow> uuid \<Rightarrow> db \<Rightarrow> (intent_row \<times> db) result" where
  "confirmIntent e tenantId intentId d =
    (case find_row pi_id intentId (intents d) of
       None \<Rightarrow> Inl (InternalError ''P2025'')
     | Some target \<Rightarrow>
         if pi_provider target = simulated \<and> \<not> paymentsSimulatorFor e d tenantId then Inl (Conflict ''simulator_disabled'')
         else let open_intent = (\<lambda>x. pi_id x = intentId \<and> pi_status x \<in> {i_created, i_pending, i_expired});
                  count = count_rows open_intent (intents d);
                  d1 = update_intents open_intent (\<lambda>x. x\<lparr>pi_status := i_succeeded, pi_succeededAt := Some (now e), pi_failureReason := None\<rparr>) d
              in r_bind (read_intent d1 intentId) (\<lambda>(x, tender).
                if count = 0 \<or> tender \<noteq> None then Inr ((x, tender), d1)
                else (case find_row b_id (pi_billId x) (bills d1) of
                        None \<Rightarrow> Inl (InternalError ''P2025'')
                      | Some b \<Rightarrow>
                          if b_status b = b_finalized
                          then let d2 = late_capture e tenantId x d1 in r_bind (read_intent d2 intentId) (\<lambda>r. Inr (r, d2))
                          else r_bind (createTenderRecord e \<lparr>tq_tenantId = tenantId, tq_billId = pi_billId x, tq_method = pi_rail x,
                                  tq_amountMinor = pi_amountMinor x, tq_paymentIntentId = Some (pi_id x), tq_riskAcknowledged = False,
                                  tq_reference = None, tq_tenderedMinor = None\<rparr> d1) (\<lambda>(_, d2).
                               r_bind (read_intent d2 intentId) (\<lambda>r. Inr (r, d2))))))"

definition failIntent :: "uuid \<Rightarrow> string \<Rightarrow> db \<Rightarrow> (intent_row \<times> db) result" where
  "failIntent intentId reason d =
    (let d1 = update_intents (\<lambda>x. pi_id x = intentId \<and> isIntentActive x) (\<lambda>x. x\<lparr>pi_status := i_failed, pi_failureReason := Some reason\<rparr>) d
     in r_bind (read_intent d1 intentId) (\<lambda>r. Inr (r, d1)))"

definition expire :: "payment_intent \<Rightarrow> payment_intent" where
  "expire x = x\<lparr>pi_status := i_expired, pi_failureReason := Some ''timed_out''\<rparr>"

definition expireIfDue :: "env \<Rightarrow> intent_row \<Rightarrow> db \<Rightarrow> (intent_row \<times> db) result" where
  "expireIfDue e r d =
    (if \<not> isIntentActive (fst r) \<or> pi_expiresAt (fst r) > now e then Inr (r, d)
     else let d1 = update_intents (\<lambda>x. pi_id x = pi_id (fst r) \<and> isIntentActive x) expire d
          in r_bind (read_intent d1 (pi_id (fst r))) (\<lambda>r1. Inr (r1, d1)))"

section \<open>The service\<close>

definition INTENT_TTL_MS :: int where
  "INTENT_TTL_MS = 5 * 60000"

definition loadIntentRow :: "db \<Rightarrow> uuid \<Rightarrow> uuid \<Rightarrow> payment_intent result" where
  "loadIntentRow d tenantId intentId =
    (case find_row pi_id intentId (intents d) of
       None \<Rightarrow> Inl (NotFound ''not_found'')
     | Some x \<Rightarrow> if pi_tenantId x \<noteq> tenantId then Inl (NotFound ''not_found'') else Inr x)"

definition loadIntent :: "db \<Rightarrow> uuid \<Rightarrow> uuid \<Rightarrow> intent_row result" where
  "loadIntent d tenantId intentId = r_bind (loadIntentRow d tenantId intentId) (\<lambda>x. Inr (x, intent_tender d intentId))"

record create_intent_dto =
  ci_rail :: tender_method
  ci_amountMinor :: int
  ci_clientKey :: string
  ci_deviceId :: "uuid option"

text \<open>The insert, with the two unique indexes of \<^verbatim>\<open>payment_intents\<close>.\<close>

definition insert_intent :: "payment_intent \<Rightarrow> db \<Rightarrow> db result" where
  "insert_intent x d =
    (if list_ex (\<lambda>y. pi_tenantId y = pi_tenantId x \<and> pi_clientKey y = pi_clientKey x) (intents d) \<or>
        (isIntentActive x \<and> list_ex (\<lambda>y. pi_billId y = pi_billId x \<and> pi_shareId y = pi_shareId x \<and> isIntentActive y) (intents d))
     then Inl (InternalError ''P2002'')
     else Inr (d\<lparr>intents := intents d @ [x]\<rparr>))"

definition expire_blocking :: "env \<Rightarrow> uuid \<Rightarrow> db \<Rightarrow> db result" where
  "expire_blocking e billId d =
    (case find (\<lambda>x. pi_billId x = billId \<and> pi_shareId x = None \<and> isIntentActive x) (intents d) of
       None \<Rightarrow> Inr d
     | Some x \<Rightarrow> r_bind (expireIfDue e (x, intent_tender d (pi_id x)) d) (\<lambda>(r, d1).
         if isIntentActive (fst r) then Inl (Conflict ''intent_active'') else Inr d1))"

definition terminal_for :: "pos_principal \<Rightarrow> uuid \<Rightarrow> uuid option \<Rightarrow> db \<Rightarrow> uuid option result" where
  "terminal_for staff outletId deviceId d =
    (let target = linkedPeripheral d (pp_tenantId staff) deviceId d_terminal
     in if target = None \<and> count_rows (\<lambda>v. dv_tenantId v = pp_tenantId staff \<and> dv_outletId v = Some outletId \<and> dv_type v = d_terminal \<and>
            dv_status v = d_active \<and> dv_pairedPosId v = None) (devices d) = 0
        then Inl (Conflict ''no_terminal'') else Inr target)"

definition createIntent :: "env \<Rightarrow> pos_principal \<Rightarrow> uuid \<Rightarrow> create_intent_dto \<Rightarrow> db \<Rightarrow> ((payment_intent_view \<times> bool) \<times> db) result" where
  "createIntent e staff billId dto d =
    (if \<not> paymentsSimulatorFor e d (pp_tenantId staff) then Inl (Conflict ''provider_unavailable'')
     else r_bind (r_bind (loadBill d (pp_tenantId staff) billId) (\<lambda>bt0. refreshOpenBillTotals bt0 d)) (\<lambda>((b, ts), d1).
       if b_status b = b_finalized then Inl (Conflict ''already_finalized'')
       else (case find (\<lambda>x. pi_tenantId x = pp_tenantId staff \<and> pi_clientKey x = ci_clientKey dto) (intents d1) of
         Some existing \<Rightarrow>
           if pi_billId existing \<noteq> billId then Inl (Conflict ''client_key_reused'')
           else r_bind (expireIfDue e (existing, intent_tender d1 (pi_id existing)) d1) (\<lambda>(r, d2). Inr ((toPaymentIntentView r, False), d2))
       | None \<Rightarrow>
           let tenderedMinor = foldl (\<lambda>s t. s + td_amountMinor t) 0 ts;
               remainingMinor = bw_totalMinor (toBillView (b, ts)) - tenderedMinor
           in if ci_amountMinor dto > remainingMinor then Inl (BadRequest ''amount_exceeds_remaining'')
              else r_bind (expire_blocking e billId d1) (\<lambda>d2.
                r_bind (terminal_for staff (b_outletId b) (ci_deviceId dto) d2) (\<lambda>targetDeviceId.
                  (case find_row tn_id (pp_tenantId staff) (tenants d2) of
                     None \<Rightarrow> Inl (InternalError ''P2025'')
                   | Some tenant \<Rightarrow>
                      (let (i, d3) = take_id d2;
                           x = \<lparr>pi_id = i, pi_tenantId = pp_tenantId staff, pi_outletId = b_outletId b, pi_billId = billId, pi_shareId = None,
                                pi_rail = ci_rail dto, pi_provider = simulated, pi_amountMinor = ci_amountMinor dto,
                                pi_currency = (if tn_country tenant = AU then ''AUD'' else ''INR''), pi_status = i_pending,
                                pi_clientKey = ci_clientKey dto, pi_providerRef = None, pi_clientPayload = JObj [(''simulated'', JBool True)],
                                pi_failureReason = None, pi_expiresAt = now e + INTENT_TTL_MS, pi_succeededAt = None,
                                pi_createdByStaffId = Some (pp_id staff), pi_createdAt = now e, pi_targetDeviceId = targetDeviceId\<rparr>
                       in (case insert_intent x d3 of
                             Inl _ \<Rightarrow> Inl (Conflict ''intent_active'')
                           | Inr d4 \<Rightarrow> Inr ((toPaymentIntentView (x, intent_tender d4 i), True), d4)))))))))"

definition getIntent :: "env \<Rightarrow> pos_principal \<Rightarrow> uuid \<Rightarrow> db \<Rightarrow> (payment_intent_view \<times> db) result" where
  "getIntent e staff intentId d =
    r_bind (loadIntent d (pp_tenantId staff) intentId) (\<lambda>r0.
    r_bind (expireIfDue e r0 d) (\<lambda>(r, d1). Inr (toPaymentIntentView r, d1)))"

definition cancelIntent :: "env \<Rightarrow> pos_principal \<Rightarrow> uuid \<Rightarrow> db \<Rightarrow> (payment_intent_view \<times> db) result" where
  "cancelIntent e staff intentId d =
    r_bind (loadIntent d (pp_tenantId staff) intentId) (\<lambda>r0.
    r_bind (expireIfDue e r0 d) (\<lambda>(r, d1).
      if pi_status (fst r) = i_succeeded then Inl (Conflict ''already_succeeded'')
      else if \<not> isIntentActive (fst r) then Inr (toPaymentIntentView r, d1)
      else let d2 = update_intents (\<lambda>x. pi_id x = pi_id (fst r) \<and> isIntentActive x)
                 (\<lambda>x. x\<lparr>pi_status := i_cancelled, pi_failureReason := Some ''cancelled_by_staff''\<rparr>) d1
           in r_bind (read_intent d2 (pi_id (fst r))) (\<lambda>r2. Inr (toPaymentIntentView r2, d2))))"

definition listPendingForOutlet ::
  "env \<Rightarrow> pos_principal \<Rightarrow> uuid \<Rightarrow> uuid option \<Rightarrow> db \<Rightarrow> (payment_intent_view list \<times> db) result" where
  "listPendingForOutlet e staff outletId deviceId d =
    (if outletId \<noteq> pp_outletId staff then Inl (Forbidden ''outlet_mismatch'')
     else let d1 = update_intents (\<lambda>x. pi_tenantId x = pp_tenantId staff \<and> pi_outletId x = outletId \<and> isIntentActive x \<and> pi_expiresAt x \<le> now e)
                     expire d;
              targetDeviceId = queueFor d1 (pp_tenantId staff) deviceId d_terminal;
              rows = filter (\<lambda>x. pi_tenantId x = pp_tenantId staff \<and> pi_outletId x = outletId \<and> isIntentActive x \<and>
                       pi_targetDeviceId x = targetDeviceId) (intents d1)
          in Inr (map (\<lambda>x. toPaymentIntentView (x, intent_tender d1 (pi_id x))) rows, d1))"

datatype simulated_outcome = out_success | out_failure

definition simulate :: "env \<Rightarrow> pos_principal \<Rightarrow> uuid \<Rightarrow> simulated_outcome \<Rightarrow> db \<Rightarrow> (payment_intent_view \<times> db) result" where
  "simulate e staff intentId outcome d =
    r_bind (loadIntent d (pp_tenantId staff) intentId) (\<lambda>r0.
      if pi_provider (fst r0) \<noteq> simulated \<or> \<not> paymentsSimulatorFor e d (pp_tenantId staff) then Inl (NotFound ''not_found'')
      else if outcome = out_success
      then (if pi_status (fst r0) = i_succeeded then Inr (toPaymentIntentView r0, d)
            else if pi_status (fst r0) = i_failed \<or> pi_status (fst r0) = i_cancelled then Inl (Conflict ''already_terminal'')
            else r_bind (confirmIntent e (pp_tenantId staff) (pi_id (fst r0)) d) (\<lambda>(r, d1). Inr (toPaymentIntentView r, d1)))
      else r_bind (expireIfDue e r0 d) (\<lambda>(r, d1).
        if pi_status (fst r) = i_failed then Inr (toPaymentIntentView r, d1)
        else if \<not> isIntentActive (fst r) then Inl (Conflict ''already_terminal'')
        else r_bind (failIntent (pi_id (fst r)) ''declined'' d1) (\<lambda>(r2, d2). Inr (toPaymentIntentView r2, d2))))"

section \<open>The life of an intent\<close>

interpretation intent_loader: scoped_loader loadIntentRow intents pi_id pi_tenantId
  by unfold_locales (auto simp: loadIntentRow_def split: option.splits if_splits)

text \<open>An active intent may end in any way, an expired one may still be captured, and nothing else changes.\<close>

definition may_become :: "intent_status \<Rightarrow> intent_status \<Rightarrow> bool" where
  "may_become s s' \<longleftrightarrow> s = s' \<or> s \<in> {i_created, i_pending} \<or> (s = i_expired \<and> s' = i_succeeded)"

lemma may_become_trans: "may_become a b \<Longrightarrow> may_become b c \<Longrightarrow> may_become a c"
  by (auto simp: may_become_def)

definition intents_forward :: "db \<Rightarrow> db \<Rightarrow> bool" where
  "intents_forward d d' \<longleftrightarrow> (\<forall>x \<in> set (intents d). \<exists>y \<in> set (intents d'). pi_id y = pi_id x \<and> pi_billId y = pi_billId x \<and>
     pi_amountMinor y = pi_amountMinor x \<and> pi_tenantId y = pi_tenantId x \<and> may_become (pi_status x) (pi_status y))"

lemma intents_forward_refl: "intents d' = intents d \<Longrightarrow> intents_forward d d'"
  by (auto simp: intents_forward_def may_become_def)

lemma intents_forward_trans: "intents_forward a b \<Longrightarrow> intents_forward b c \<Longrightarrow> intents_forward a c"
  unfolding intents_forward_def using may_become_trans by (metis (no_types, opaque_lifting))

definition same_charge :: "payment_intent \<Rightarrow> payment_intent \<Rightarrow> bool" where
  "same_charge x y \<longleftrightarrow> pi_id y = pi_id x \<and> pi_billId y = pi_billId x \<and> pi_shareId y = pi_shareId x \<and> pi_amountMinor y = pi_amountMinor x \<and>
     pi_tenantId y = pi_tenantId x"

lemma intents_forward_update:
  assumes "intents d' = update_rows p f (intents d)"
    and "\<And>x. x \<in> set (intents d) \<Longrightarrow> p x \<Longrightarrow> same_charge x (f x) \<and> may_become (pi_status x) (pi_status (f x))"
  shows "intents_forward d d'"
  unfolding intents_forward_def
proof
  fix x assume x: "x \<in> set (intents d)"
  let ?y = "if p x then f x else x"
  have "?y \<in> set (intents d')" unfolding assms(1) set_update_rows using x by (rule imageI)
  moreover have "pi_id ?y = pi_id x \<and> pi_billId ?y = pi_billId x \<and> pi_amountMinor ?y = pi_amountMinor x \<and> pi_tenantId ?y = pi_tenantId x \<and>
      may_become (pi_status x) (pi_status ?y)"
    using assms(2) [OF x] by (auto simp: same_charge_def may_become_def)
  ultimately show "\<exists>y \<in> set (intents d'). pi_id y = pi_id x \<and> pi_billId y = pi_billId x \<and> pi_amountMinor y = pi_amountMinor x \<and>
      pi_tenantId y = pi_tenantId x \<and> may_become (pi_status x) (pi_status y)" by blast
qed

text \<open>
  The invariant: at most one active intent per bill and share; a captured intent has its tender, of its amount and on
  its bill, or is flagged for a refund; and a tender that names an intent belongs to a captured one.
\<close>

definition active_targets :: "db \<Rightarrow> (uuid \<times> uuid option) list" where
  "active_targets d = map (\<lambda>x. (pi_billId x, pi_shareId x)) (filter isIntentActive (intents d))"

definition pays :: "tender \<Rightarrow> payment_intent \<Rightarrow> bool" where
  "pays t x \<longleftrightarrow> td_paymentIntentId t = Some (pi_id x) \<and> td_amountMinor t = pi_amountMinor x \<and> td_billId t = pi_billId x"

definition payments_ok :: "db \<Rightarrow> bool" where
  "payments_ok d \<longleftrightarrow> keys_ok (nextId d) (map pi_id (intents d)) \<and> distinct (active_targets d) \<and>
     (\<forall>x \<in> set (intents d). pi_status x = i_succeeded \<longrightarrow> pi_failureReason x = Some LATE_CAPTURE_REFUND_DUE \<or> (\<exists>t \<in> set (tenders d). pays t x)) \<and>
     (\<forall>t \<in> set (tenders d). td_paymentIntentId t \<noteq> None \<longrightarrow> (\<exists>x \<in> set (intents d). pi_status x = i_succeeded \<and> pays t x)) \<and>
     distinct (List.map_filter td_paymentIntentId (tenders d))"

lemma payments_okD:
  assumes "payments_ok d"
  shows "x \<in> set (intents d) \<Longrightarrow> pi_status x = i_succeeded \<Longrightarrow> pi_failureReason x = Some LATE_CAPTURE_REFUND_DUE \<or> (\<exists>t \<in> set (tenders d). pays t x)"
    and "t \<in> set (tenders d) \<Longrightarrow> td_paymentIntentId t \<noteq> None \<Longrightarrow> \<exists>x \<in> set (intents d). pi_status x = i_succeeded \<and> pays t x"
  using assms by (simp_all add: payments_ok_def)

lemma payments_ok_frame:
  assumes "payments_ok d" and "intents d' = intents d" and "tenders d' = tenders d @ ts" and "\<And>t. t \<in> set ts \<Longrightarrow> td_paymentIntentId t = None"
    and "nextId d \<le> nextId d'"
  shows "payments_ok d'"
proof -
  have "List.map_filter td_paymentIntentId (tenders d') = List.map_filter td_paymentIntentId (tenders d)"
    using assms(3,4) by (auto simp: List.map_filter_def filter_empty_conv)
  with assms show ?thesis by (auto simp: payments_ok_def active_targets_def intro: keys_ok_mono)
qed

lemma payments_ok_unique:
  "payments_ok d \<Longrightarrow> x \<in> set (intents d) \<Longrightarrow> y \<in> set (intents d) \<Longrightarrow> pi_id x = pi_id y \<Longrightarrow> x = y"
  by (auto simp: payments_ok_def keys_ok_def distinct_map dest: inj_onD)

lemma tender_means_captured:
  assumes "payments_ok d" and "x \<in> set (intents d)" and "t \<in> set (tenders d)" and "td_paymentIntentId t = Some (pi_id x)"
  shows "pi_status x = i_succeeded"
proof -
  have "\<forall>t \<in> set (tenders d). td_paymentIntentId t \<noteq> None \<longrightarrow> (\<exists>x \<in> set (intents d). pi_status x = i_succeeded \<and> pays t x)"
    using assms(1) by (simp add: payments_ok_def)
  then obtain y where y: "y \<in> set (intents d)" "pi_status y = i_succeeded" "pays t y"
    using assms(3,4) by blast
  then have "pi_id y = pi_id x" using assms(4) by (simp add: pays_def)
  then have "y = x" by (rule payments_ok_unique [OF assms(1) y(1) assms(2)])
  with y(2) show ?thesis by simp
qed

lemma map_same_charge:
  assumes "\<And>x. x \<in> set xs \<Longrightarrow> p x \<Longrightarrow> same_charge x (f x)"
  shows "map pi_id (update_rows p f xs) = map pi_id xs"
  using assms by (induction xs) (auto simp: update_rows_def same_charge_def)

lemma active_targets_update:
  assumes "\<And>x. x \<in> set xs \<Longrightarrow> p x \<Longrightarrow> same_charge x (f x) \<and> \<not> isIntentActive (f x)"
  shows "map (\<lambda>x. (pi_billId x, pi_shareId x)) (filter isIntentActive (update_rows p f xs)) =
    map (\<lambda>x. (pi_billId x, pi_shareId x)) (filter (\<lambda>x. isIntentActive x \<and> \<not> p x) xs)"
  using assms by (induction xs) (auto simp: update_rows_def)

text \<open>Ending active intents in any way but a capture.\<close>

lemma close_intents_keeps:
  assumes "payments_ok d" and "\<And>x. p x \<Longrightarrow> isIntentActive x"
    and "\<And>x. same_charge x (f x) \<and> pi_status (f x) \<in> {i_failed, i_expired, i_cancelled}"
  shows "payments_ok (update_intents p f d)" "intents_forward d (update_intents p f d)"
proof -
  let ?d = "update_intents p f d"
  have i: "intents ?d = update_rows p f (intents d)" and t: "tenders ?d = tenders d" and n: "nextId ?d = nextId d"
    by (simp_all add: update_intents_def)
  have in_active: "\<not> isIntentActive (f x)" "pi_status (f x) \<noteq> i_succeeded" for x
    using assms(3) [of x] by (auto simp: isIntentActive_def ACTIVE_INTENT_STATUSES_def)
  have keys: "map pi_id (intents ?d) = map pi_id (intents d)" unfolding i by (rule map_same_charge) (use assms(3) in blast)
  have "active_targets ?d = map (\<lambda>x. (pi_billId x, pi_shareId x)) (filter (\<lambda>x. \<not> p x) (filter isIntentActive (intents d)))"
    unfolding active_targets_def i by (subst active_targets_update) (use assms(3) in_active in \<open>auto simp: conj_commute\<close>)
  moreover have "distinct (map (\<lambda>x. (pi_billId x, pi_shareId x)) (filter isIntentActive (intents d)))"
    using assms(1) by (simp add: payments_ok_def active_targets_def)
  ultimately have dist: "distinct (active_targets ?d)" by (simp only: distinct_map_filter)
  have succ: "y \<in> set (intents d) \<and> \<not> p y" if "y \<in> set (intents ?d)" "pi_status y = i_succeeded" for y
    using that in_active assms(2) unfolding i set_update_rows by (auto split: if_splits)
  have kept: "y \<in> set (intents ?d)" if "y \<in> set (intents d)" "pi_status y = i_succeeded" for y
    using that assms(2) [of y] unfolding i set_update_rows by (force simp: isIntentActive_def ACTIVE_INTENT_STATUSES_def)
  show "payments_ok ?d"
    using assms(1) dist succ kept unfolding payments_ok_def keys t n by blast
  show "intents_forward d ?d"
    by (rule intents_forward_update [OF i]) (use assms(2,3) in \<open>auto simp: may_become_def isIntentActive_def ACTIVE_INTENT_STATUSES_def\<close>)
qed

lemma expire_charge: "same_charge x (expire x) \<and> pi_status (expire x) \<in> {i_failed, i_expired, i_cancelled}"
  by (simp add: expire_def same_charge_def)

lemma update_intents_fields [simp]:
  "bills (update_intents p f d) = bills d" "tenders (update_intents p f d) = tenders d" "creditNotes (update_intents p f d) = creditNotes d"
  "billCounters (update_intents p f d) = billCounters d" "nextId (update_intents p f d) = nextId d" "orders (update_intents p f d) = orders d"
  "orderLines (update_intents p f d) = orderLines d" "shifts (update_intents p f d) = shifts d" "billShares (update_intents p f d) = billShares d"
  "tenants (update_intents p f d) = tenants d" "intents (update_intents p f d) = update_rows p f (intents d)"
  "devices (update_intents p f d) = devices d"
  by (simp_all add: update_intents_def)

text \<open>What an operation that only touches intents does to the rest.\<close>

definition ledger_same :: "db \<Rightarrow> db \<Rightarrow> bool" where
  "ledger_same d d' \<longleftrightarrow> bills d' = bills d \<and> tenders d' = tenders d \<and> creditNotes d' = creditNotes d \<and> billCounters d' = billCounters d \<and>
     nextId d \<le> nextId d' \<and> orders d' = orders d \<and> orderLines d' = orderLines d \<and> shifts d' = shifts d \<and> billShares d' = billShares d"

lemma ledger_same_keeps:
  assumes "ledger_same d d'"
  shows "books_ok d \<Longrightarrow> books_ok d'" "ledger_grows d d'" "floor_ok d \<Longrightarrow> floor_ok d'"
  using assms by (auto simp: ledger_same_def intro: books_ok_frame ledger_grows_frame floor_ok_frame)

lemma ledger_same_trans: "ledger_same a b \<Longrightarrow> ledger_same b c \<Longrightarrow> ledger_same a c"
  by (auto simp: ledger_same_def)

lemma expireIfDue_keeps:
  assumes "expireIfDue e r d = Inr (r', d')" and "payments_ok d"
  shows "payments_ok d'" "intents_forward d d'" "ledger_same d d'"
proof -
  let ?u = "update_intents (\<lambda>x. pi_id x = pi_id (fst r) \<and> isIntentActive x) expire d"
  have d': "d' = d \<or> d' = ?u"
    using assms(1) by (auto simp: expireIfDue_def Let_def result_simps split: if_splits)
  note c = close_intents_keeps [OF assms(2) _ expire_charge, where p = "\<lambda>x. pi_id x = pi_id (fst r) \<and> isIntentActive x"]
  show "payments_ok d'" using d' assms(2) c(1) by fast
  show "intents_forward d d'" using d' intents_forward_refl [OF refl] c(2) by fast
  show "ledger_same d d'" using d' by (elim disjE) (simp_all add: ledger_same_def)
qed

section \<open>Capturing\<close>

definition capture :: "env \<Rightarrow> payment_intent \<Rightarrow> payment_intent" where
  "capture e x = x\<lparr>pi_status := i_succeeded, pi_succeededAt := Some (now e), pi_failureReason := None\<rparr>"

lemma capture_fields [simp]:
  "pi_id (capture e x) = pi_id x" "pi_billId (capture e x) = pi_billId x" "pi_amountMinor (capture e x) = pi_amountMinor x"
  "pi_rail (capture e x) = pi_rail x" "pi_status (capture e x) = i_succeeded" "pi_failureReason (capture e x) = None"
  "pi_shareId (capture e x) = pi_shareId x" "pi_tenantId (capture e x) = pi_tenantId x"
  by (simp_all add: capture_def)

lemma update_rows_unique:
  assumes "\<And>y. y \<in> set xs \<Longrightarrow> key y = k \<Longrightarrow> y = x"
  shows "update_rows (\<lambda>y. key y = k \<and> q y) f xs = (if q x then update_rows (\<lambda>y. key y = k) f xs else xs)"
  using assms by (induction xs) (auto simp: update_rows_def)

lemma update_rows_again:
  assumes "\<And>y. key (f y) = key y"
  shows "update_rows (\<lambda>y. key y = k) g (update_rows (\<lambda>y. key y = k) f xs) = update_rows (\<lambda>y. key y = k) (\<lambda>y. g (f y)) xs"
  using assms by (induction xs) (auto simp: update_rows_def)

lemma late_capture_fields [simp]:
  "bills (late_capture e t x d) = bills d" "tenders (late_capture e t x d) = tenders d" "creditNotes (late_capture e t x d) = creditNotes d"
  "billCounters (late_capture e t x d) = billCounters d" "nextId (late_capture e t x d) = nextId d" "orders (late_capture e t x d) = orders d"
  "orderLines (late_capture e t x d) = orderLines d" "shifts (late_capture e t x d) = shifts d" "billShares (late_capture e t x d) = billShares d"
  "intents (late_capture e t x d) = update_rows (\<lambda>y. pi_id y = pi_id x) (\<lambda>y. y\<lparr>pi_failureReason := Some LATE_CAPTURE_REFUND_DUE\<rparr>) (intents d)"
  by (simp_all add: late_capture_def Let_def)

lemma confirmIntent_cases:
  assumes "confirmIntent e t i d = Inr (r, d')" and "payments_ok d"
  obtains (over) x where "find_row pi_id i (intents d) = Some x" "pi_status x \<notin> {i_created, i_pending, i_expired}" "d' = d"
      "r = (x, intent_tender d i)"
  | (late) x b where "find_row pi_id i (intents d) = Some x" "pi_status x \<in> {i_created, i_pending, i_expired}"
      "find_row b_id (pi_billId x) (bills d) = Some b" "b_status b = b_finalized" "ledger_same d d'"
      "intents d' = update_rows (\<lambda>y. pi_id y = i) (\<lambda>y. (capture e y)\<lparr>pi_failureReason := Some LATE_CAPTURE_REFUND_DUE\<rparr>) (intents d)"
      "r = ((capture e x)\<lparr>pi_failureReason := Some LATE_CAPTURE_REFUND_DUE\<rparr>, None)"
  | (captured) x b tn where "find_row pi_id i (intents d) = Some x" "pi_status x \<in> {i_created, i_pending, i_expired}"
      "find_row b_id (pi_billId x) (bills d) = Some b" "b_status b = b_open" "pays tn x" "td_method tn = pi_rail x"
      "d' = d\<lparr>intents := update_rows (\<lambda>y. pi_id y = i) (capture e) (intents d), nextId := Suc (nextId d), tenders := tenders d @ [tn]\<rparr>"
      "r = (capture e x, Some (td_id tn))"
proof -
  let ?p = "\<lambda>x. pi_id x = i \<and> pi_status x \<in> {i_created, i_pending, i_expired}"
  let ?d1 = "update_intents ?p (capture e) d"
  obtain x where x: "find_row pi_id i (intents d) = Some x"
    using assms(1) by (auto simp: confirmIntent_def split: option.splits)
  then have xi: "x \<in> set (intents d)" "pi_id x = i" using find_row_Some [OF x] by auto
  have uniq: "y = x" if "y \<in> set (intents d)" "pi_id y = i" for y
    using payments_ok_unique [OF assms(2) that(1) xi(1)] that(2) xi(2) by simp
  have upd: "intents ?d1 = (if pi_status x \<in> {i_created, i_pending, i_expired} then update_rows (\<lambda>y. pi_id y = i) (capture e) (intents d) else intents d)"
    using update_rows_unique [of "intents d" pi_id i x "\<lambda>x. pi_status x \<in> {i_created, i_pending, i_expired}" "capture e"] uniq by simp
  have cnt: "count_rows ?p (intents d) = 0 \<longleftrightarrow> pi_status x \<notin> {i_created, i_pending, i_expired}"
    unfolding count_rows_zero
  proof
    show "pi_status x \<notin> {i_created, i_pending, i_expired}" if "\<forall>r \<in> set (intents d). \<not> ?p r" using that xi by blast
    show "\<forall>r \<in> set (intents d). \<not> ?p r" if "pi_status x \<notin> {i_created, i_pending, i_expired}" using that uniq by blast
  qed
  have body: "r_bind (read_intent ?d1 i) (\<lambda>(x, tender).
      if count_rows ?p (intents d) = 0 \<or> tender \<noteq> None then Inr ((x, tender), ?d1)
      else (case find_row b_id (pi_billId x) (bills ?d1) of
              None \<Rightarrow> Inl (InternalError ''P2025'')
            | Some b \<Rightarrow>
                if b_status b = b_finalized
                then let d2 = late_capture e t x ?d1 in r_bind (read_intent d2 i) (\<lambda>r. Inr (r, d2))
                else r_bind (createTenderRecord e \<lparr>tq_tenantId = t, tq_billId = pi_billId x, tq_method = pi_rail x,
                        tq_amountMinor = pi_amountMinor x, tq_paymentIntentId = Some (pi_id x), tq_riskAcknowledged = False,
                        tq_reference = None, tq_tenderedMinor = None\<rparr> ?d1) (\<lambda>(_, d2).
                     r_bind (read_intent d2 i) (\<lambda>r. Inr (r, d2))))) = Inr (r, d')"
    using assms(1) x unfolding confirmIntent_def capture_def Let_def by (simp split: if_splits)
  show thesis
  proof (cases "pi_status x \<in> {i_created, i_pending, i_expired}")
    case False
    then have d1: "?d1 = d" using upd by (simp add: update_intents_def)
    have r0: "read_intent ?d1 i = Inr (x, intent_tender d i)" unfolding d1 using x by (simp add: read_intent_def)
    have "r = (x, intent_tender d i)" "d' = ?d1" using body False cnt unfolding r0 by simp_all
    with False x d1 show thesis by (intro over [of x]) simp_all
  next
    case True
    then have i1: "intents ?d1 = update_rows (\<lambda>y. pi_id y = i) (capture e) (intents d)" using upd by simp
    have f1: "find_row pi_id i (intents ?d1) = Some (capture e x)" unfolding i1 using x xi(2) by (simp add: find_row_update)
    have nt: "find_row td_paymentIntentId (Some i) (tenders d) = None"
      using tender_means_captured [OF assms(2) xi(1)] True xi(2) by (auto simp: find_row_None)
    have r1: "read_intent ?d1 i = Inr (capture e x, None)" using f1 nt by (simp add: read_intent_def intent_tender_def)
    obtain b where b: "find_row b_id (pi_billId x) (bills d) = Some b"
      using body True cnt unfolding r1 by (auto split: option.splits)
    show thesis
    proof (cases "b_status b = b_finalized")
      case fin: True
      let ?d2 = "late_capture e t (capture e x) ?d1"
      have i2: "intents ?d2 = update_rows (\<lambda>y. pi_id y = i) (\<lambda>y. (capture e y)\<lparr>pi_failureReason := Some LATE_CAPTURE_REFUND_DUE\<rparr>) (intents d)"
        unfolding late_capture_fields i1 capture_fields xi(2) by (rule update_rows_again) simp
      have "find_row pi_id i (intents ?d2) = Some ((capture e x)\<lparr>pi_failureReason := Some LATE_CAPTURE_REFUND_DUE\<rparr>)"
        unfolding i2 using x xi(2) by (simp add: find_row_update)
      then have r2: "read_intent ?d2 i = Inr ((capture e x)\<lparr>pi_failureReason := Some LATE_CAPTURE_REFUND_DUE\<rparr>, None)"
        using nt by (simp add: read_intent_def intent_tender_def)
      then have "d' = ?d2" "r = ((capture e x)\<lparr>pi_failureReason := Some LATE_CAPTURE_REFUND_DUE\<rparr>, None)"
        using body True cnt b fin unfolding r1 by (simp_all add: Let_def)
      with True x b fin i2 show thesis by (intro late [of x b]) (simp_all add: ledger_same_def)
    next
      case False
      then have op: "b_status b = b_open" by (cases "b_status b") simp_all
      let ?q = "\<lparr>tq_tenantId = t, tq_billId = pi_billId x, tq_method = pi_rail x, tq_amountMinor = pi_amountMinor x, tq_paymentIntentId = Some i,
          tq_riskAcknowledged = False, tq_reference = None, tq_tenderedMinor = None\<rparr>"
      obtain tn d2 where tn: "createTenderRecord e ?q ?d1 = Inr (tn, d2)" "r_bind (read_intent d2 i) (\<lambda>r. Inr (r, d2)) = Inr (r, d')"
        using body True cnt b False xi(2) unfolding r1 by (auto simp: r_bind_eq_Inr)
      note c = createTenderRecord_Inr [OF tn(1)]
      have d2: "d' = d2" "read_intent d2 i = Inr r" using tn(2) by (auto simp: r_bind_eq_Inr)
      have pays: "pays tn x" using c xi(2) by (simp add: pays_def)
      have "r = (capture e x, Some (td_id tn))"
        using d2(2) c(1) f1 nt pays xi(2) by (simp add: read_intent_def intent_tender_def find_row_append find_row_Cons pays_def)
      with True x b op pays c d2 i1 show thesis by (intro captured [of x b tn]) (simp_all add: update_intents_def)
    qed
  qed
qed

lemma distinct_map_filter_snoc:
  assumes "distinct (List.map_filter f xs)" and "\<And>y. y \<in> set xs \<Longrightarrow> f y \<noteq> f z"
  shows "distinct (List.map_filter f (xs @ [z]))"
proof (cases "f z")
  case None
  with assms(1) show ?thesis by (simp add: List.map_filter_def)
next
  case (Some k)
  then have "k \<notin> set (List.map_filter f xs)" using assms(2) by (auto simp: List.map_filter_def)
  with Some assms(1) show ?thesis by (simp add: List.map_filter_def)
qed

text \<open>A capture keeps the invariant, whether it becomes a tender or is flagged.\<close>

lemma capture_keeps:
  assumes "payments_ok d" and "find_row pi_id i (intents d) = Some x" and "pi_status x \<in> {i_created, i_pending, i_expired}"
    and "intents d' = update_rows (\<lambda>y. pi_id y = i) F (intents d)" and "nextId d \<le> nextId d'"
    and "\<And>y. same_charge y (F y) \<and> pi_status (F y) = i_succeeded"
    and "(tenders d' = tenders d \<and> pi_failureReason (F x) = Some LATE_CAPTURE_REFUND_DUE) \<or> (\<exists>tn. tenders d' = tenders d @ [tn] \<and> pays tn x)"
  shows "payments_ok d'" "intents_forward d d'"
proof -
  have xi: "x \<in> set (intents d)" "pi_id x = i" using find_row_Some [OF assms(2)] by auto
  have uniq: "y = x" if "y \<in> set (intents d)" "pi_id y = i" for y
    using payments_ok_unique [OF assms(1) that(1) xi(1)] that(2) xi(2) by simp
  have Fx: "F x \<in> set (intents d')" unfolding assms(4) set_update_rows using xi by force
  have members: "y = F x \<or> (y \<in> set (intents d) \<and> y \<noteq> x)" if y: "y \<in> set (intents d')" for y
  proof -
    obtain z where z: "z \<in> set (intents d)" "y = (if pi_id z = i then F z else z)"
      using y unfolding assms(4) set_update_rows by auto
    then show ?thesis using uniq [of z] xi(2) by (cases "pi_id z = i") auto
  qed
  have others: "y \<in> set (intents d')" if "y \<in> set (intents d)" "y \<noteq> x" for y
    unfolding assms(4) set_update_rows using that uniq [of y] by force
  have keys: "map pi_id (intents d') = map pi_id (intents d)" unfolding assms(4) by (rule map_same_charge) (use assms(6) in blast)
  have "\<not> isIntentActive (F y)" for y using assms(6) by (simp add: isIntentActive_def ACTIVE_INTENT_STATUSES_def)
  then have "active_targets d' = map (\<lambda>x. (pi_billId x, pi_shareId x)) (filter (\<lambda>x. pi_id x \<noteq> i) (filter isIntentActive (intents d)))"
    unfolding active_targets_def assms(4) by (subst active_targets_update) (use assms(6) in \<open>auto simp: conj_commute\<close>)
  moreover have "distinct (map (\<lambda>x. (pi_billId x, pi_shareId x)) (filter isIntentActive (intents d)))"
    using assms(1) by (simp add: payments_ok_def active_targets_def)
  ultimately have dist: "distinct (active_targets d')" by (simp only: distinct_map_filter)
  have paysF: "pays tn (F x) \<longleftrightarrow> pays tn x" for tn using assms(6) [of x] by (simp add: pays_def same_charge_def)
  have sub: "set (tenders d) \<subseteq> set (tenders d')" using assms(7) by auto
  have cap: "pi_failureReason y = Some LATE_CAPTURE_REFUND_DUE \<or> (\<exists>t \<in> set (tenders d'). pays t y)"
    if "y \<in> set (intents d')" "pi_status y = i_succeeded" for y
    using members [OF that(1)]
  proof
    assume "y = F x"
    with assms(7) paysF show ?thesis by auto
  next
    assume "y \<in> set (intents d) \<and> y \<noteq> x"
    with that(2) payments_okD(1) [OF assms(1), of y] sub show ?thesis by blast
  qed
  have conv: "\<exists>y \<in> set (intents d'). pi_status y = i_succeeded \<and> pays t y" if t: "t \<in> set (tenders d')" "td_paymentIntentId t \<noteq> None" for t
  proof (cases "t \<in> set (tenders d)")
    case True
    then obtain y where y: "y \<in> set (intents d)" "pi_status y = i_succeeded" "pays t y"
      using payments_okD(2) [OF assms(1) _ t(2)] by blast
    then have "y \<noteq> x" using assms(3) by auto
    with y others show ?thesis by blast
  next
    case False
    then have "pays t x" using assms(7) t(1) by auto
    then show ?thesis using Fx paysF assms(6) by blast
  qed
  have "td_paymentIntentId y \<noteq> Some i" if "y \<in> set (tenders d)" for y
    using tender_means_captured [OF assms(1) xi(1) that] assms(3) xi(2) by auto
  then have "distinct (List.map_filter td_paymentIntentId (tenders d @ [tn]))" if "pays tn x" for tn
    using assms(1) xi(2) that by (intro distinct_map_filter_snoc) (simp_all add: payments_ok_def pays_def)
  moreover have "distinct (List.map_filter td_paymentIntentId (tenders d))" using assms(1) by (simp add: payments_ok_def)
  ultimately have "distinct (List.map_filter td_paymentIntentId (tenders d'))" using assms(7) by metis
  with assms(1,5) dist cap conv show "payments_ok d'"
    unfolding payments_ok_def keys by (auto intro: keys_ok_mono)
  show "intents_forward d d'"
    by (rule intents_forward_update [OF assms(4)]) (use assms(3,6) uniq in \<open>auto simp: may_become_def\<close>)
qed

lemma confirmIntent_keeps:
  assumes "confirmIntent e t i d = Inr (r, d')" and "payments_ok d" and "books_ok d"
  shows "payments_ok d'" "intents_forward d d'" "books_ok d'" "ledger_grows d d'" "orders d' = orders d" "orderLines d' = orderLines d"
    "nextId d \<le> nextId d'" "bills d' = bills d" "shifts d' = shifts d" "creditNotes d' = creditNotes d"
proof -
  from assms(1,2) have "payments_ok d' \<and> intents_forward d d' \<and> books_ok d' \<and> ledger_grows d d' \<and> orders d' = orders d \<and>
      orderLines d' = orderLines d \<and> nextId d \<le> nextId d' \<and> bills d' = bills d \<and> shifts d' = shifts d \<and> creditNotes d' = creditNotes d"
  proof (cases rule: confirmIntent_cases)
    case (over x)
    with assms intents_forward_refl ledger_grows_refl show ?thesis by simp
  next
    case (late x b)
    have "payments_ok d'" "intents_forward d d'"
      by (rule capture_keeps [OF assms(2) late(1,2,6)]; use late(5) in \<open>simp add: ledger_same_def same_charge_def\<close>)+
    with ledger_same_keeps [OF late(5)] assms(3) late(5) show ?thesis by (auto simp: ledger_same_def)
  next
    case (captured x b tn)
    have "payments_ok d'" "intents_forward d d'"
      by (rule capture_keeps [OF assms(2) captured(1,2), of _ "capture e"]; use captured(5,7) in \<open>auto simp: same_charge_def\<close>)+
    moreover have bk: "books_ok (d\<lparr>intents := update_rows (\<lambda>y. pi_id y = i) (capture e) (intents d)\<rparr>)"
      by (rule books_ok_frame [OF assms(3)]) simp_all
    have "b_status c = b_open" if "c \<in> set (bills d)" "b_id c = td_billId tn" for c
      using that captured(3,4,5) books_okD(2) [OF assms(3) that(1)] by (simp add: pays_def)
    then have "books_ok d'" "ledger_grows d d'"
      unfolding captured(7)
      using books_ok_tender [OF bk, of tn "Suc (nextId d)"] ledger_grows_tender [of "d\<lparr>intents := update_rows (\<lambda>y. pi_id y = i) (capture e) (intents d)\<rparr>" tn "Suc (nextId d)"]
      by (simp_all add: ledger_grows_def bill_tenders_def)
    ultimately show ?thesis using captured(7) by simp
  qed
  then show "payments_ok d'" "intents_forward d d'" "books_ok d'" "ledger_grows d d'" "orders d' = orders d" "orderLines d' = orderLines d"
    "nextId d \<le> nextId d'" "bills d' = bills d" "shifts d' = shifts d" "creditNotes d' = creditNotes d" by auto
qed

section \<open>The service keeps the invariant\<close>

lemma payments_ok_insert:
  assumes "payments_ok d" and "insert_intent x (d\<lparr>nextId := Suc (nextId d)\<rparr>) = Inr d'" and "pi_id x = nextId d" and "pi_status x = i_pending"
  shows "payments_ok d'" "intents_forward d d'" "ledger_same d d'" "d' = d\<lparr>nextId := Suc (nextId d), intents := intents d @ [x]\<rparr>"
proof -
  have ax: "isIntentActive x" using assms(4) by (simp add: isIntentActive_def ACTIVE_INTENT_STATUSES_def)
  show d': "d' = d\<lparr>nextId := Suc (nextId d), intents := intents d @ [x]\<rparr>"
    using assms(2) by (simp add: insert_intent_def split: if_splits)
  have free: "(pi_billId x, pi_shareId x) \<notin> set (active_targets d)"
    using assms(2) ax by (auto simp: insert_intent_def active_targets_def list_ex_iff split: if_splits)
  have "keys_ok (Suc (nextId d)) (map pi_id (intents d) @ [nextId d])" using assms(1) keys_ok_append by (simp add: payments_ok_def)
  moreover have "distinct (active_targets d')" using free assms(1) ax d' by (simp add: active_targets_def payments_ok_def)
  ultimately show "payments_ok d'"
    using payments_okD [OF assms(1)] assms(1,3,4) d' by (auto simp: payments_ok_def)
  show "intents_forward d d'" using d' by (auto simp: intents_forward_def may_become_def)
  show "ledger_same d d'" using d' by (simp add: ledger_same_def)
qed

lemma expire_blocking_keeps:
  assumes "expire_blocking e k d = Inr d'" and "payments_ok d"
  shows "payments_ok d'" "intents_forward d d'" "ledger_same d d'"
proof -
  have "d' = d \<or> (\<exists>r r'. expireIfDue e r d = Inr (r', d'))"
    using assms(1) by (auto simp: expire_blocking_def result_simps split: option.splits if_splits)
  then have "payments_ok d' \<and> intents_forward d d' \<and> ledger_same d d'"
  proof
    assume "d' = d"
    with assms(2) intents_forward_refl [of d d] show ?thesis by (simp add: ledger_same_def)
  next
    assume "\<exists>r r'. expireIfDue e r d = Inr (r', d')"
    with expireIfDue_keeps [OF _ assms(2)] show ?thesis by metis
  qed
  then show "payments_ok d'" "intents_forward d d'" "ledger_same d d'" by auto
qed

lemma createIntent_cases:
  assumes "createIntent e staff k dto d = Inr ((v, created), d')"
  obtains b ts d1 where "r_bind (loadBill d (pp_tenantId staff) k) (\<lambda>bt0. refreshOpenBillTotals bt0 d) = Inr ((b, ts), d1)"
      "b_status b = b_open" "\<not> created" "\<exists>r r'. expireIfDue e r d1 = Inr (r', d')"
  | b ts d1 d2 x where "r_bind (loadBill d (pp_tenantId staff) k) (\<lambda>bt0. refreshOpenBillTotals bt0 d) = Inr ((b, ts), d1)"
      "b_status b = b_open" "created" "expire_blocking e k d1 = Inr d2" "insert_intent x (d2\<lparr>nextId := Suc (nextId d2)\<rparr>) = Inr d'"
      "pi_id x = nextId d2" "pi_status x = i_pending" "pi_billId x = k" "pi_amountMinor x = ci_amountMinor dto" "pi_shareId x = None"
      "ci_amountMinor dto \<le> bill_total b - sum_rows td_amountMinor ts" "iw_id v = pi_id x" "iw_amountMinor v = ci_amountMinor dto"
proof -
  let ?load = "r_bind (loadBill d (pp_tenantId staff) k) (\<lambda>bt0. refreshOpenBillTotals bt0 d)"
  have sim: "paymentsSimulatorFor e d (pp_tenantId staff)" using assms by (auto simp: createIntent_def split: if_splits)
  obtain b ts d1 where l: "?load = Inr ((b, ts), d1)"
    using assms sim by (cases ?load) (auto simp: createIntent_def)
  have st: "b_status b = b_open"
    using assms sim l by (cases "b_status b") (simp_all add: createIntent_def)
  let ?known = "find (\<lambda>x. pi_tenantId x = pp_tenantId staff \<and> pi_clientKey x = ci_clientKey dto) (intents d1)"
  show thesis
  proof (cases ?known)
    case (Some y)
    then have "\<not> created \<and> (\<exists>r r'. expireIfDue e r d1 = Inr (r', d'))"
      using assms sim l st by (auto simp: createIntent_def result_simps split: if_splits)
    with l st that(1) show thesis by blast
  next
    case None
    have am: "ci_amountMinor dto \<le> bill_total b - sum_rows td_amountMinor ts"
      using assms sim l st None by (auto simp: createIntent_def Let_def foldl_sum_rows toBillView_def split: if_splits)
    obtain d2 where d2: "expire_blocking e k d1 = Inr d2"
      using assms sim l st None am by (auto simp: createIntent_def Let_def foldl_sum_rows toBillView_def r_bind_eq_Inr split: if_splits)
    obtain target where tg: "terminal_for staff (b_outletId b) (ci_deviceId dto) d2 = Inr target"
      using assms sim l st None am d2 by (auto simp: createIntent_def Let_def foldl_sum_rows toBillView_def r_bind_eq_Inr split: if_splits)
    obtain tenant where tn: "find_row tn_id (pp_tenantId staff) (tenants d2) = Some tenant"
      using assms sim l st None am d2 tg by (auto simp: createIntent_def Let_def foldl_sum_rows toBillView_def split: if_splits option.splits)
    let ?x = "\<lparr>pi_id = nextId d2, pi_tenantId = pp_tenantId staff, pi_outletId = b_outletId b, pi_billId = k, pi_shareId = None,
                pi_rail = ci_rail dto, pi_provider = simulated, pi_amountMinor = ci_amountMinor dto,
                pi_currency = (if tn_country tenant = AU then ''AUD'' else ''INR''), pi_status = i_pending,
                pi_clientKey = ci_clientKey dto, pi_providerRef = None, pi_clientPayload = JObj [(''simulated'', JBool True)],
                pi_failureReason = None, pi_expiresAt = now e + INTENT_TTL_MS, pi_succeededAt = None,
                pi_createdByStaffId = Some (pp_id staff), pi_createdAt = now e, pi_targetDeviceId = target\<rparr>"
    have ins: "(case insert_intent ?x (d2\<lparr>nextId := Suc (nextId d2)\<rparr>) of
        Inl _ \<Rightarrow> Inl (Conflict ''intent_active'')
      | Inr d4 \<Rightarrow> Inr ((toPaymentIntentView (?x, intent_tender d4 (nextId d2)), True), d4)) = Inr ((v, created), d')"
      using assms sim l st None am d2 tg tn by (simp add: createIntent_def Let_def foldl_sum_rows toBillView_def take_id_def)
    then have "insert_intent ?x (d2\<lparr>nextId := Suc (nextId d2)\<rparr>) = Inr d'" "created" "v = toPaymentIntentView (?x, intent_tender d' (nextId d2))"
      by (auto split: sum.splits)
    with l st d2 am that(2) [of b ts d1 d2 ?x] show thesis by (simp add: toPaymentIntentView_def)
  qed
qed

lemma createIntent_keeps:
  assumes "createIntent e staff k dto d = Inr ((v, created), d')" and "payments_ok d" and "books_ok d"
  shows "payments_ok d'" "intents_forward d d'" "books_ok d'" "ledger_grows d d'" "orders d' = orders d" "orderLines d' = orderLines d"
    "nextId d \<le> nextId d'" "tenders d' = tenders d" "creditNotes d' = creditNotes d" "shifts d' = shifts d"
proof -
  have *: "payments_ok d' \<and> intents_forward d d' \<and> books_ok d' \<and> ledger_grows d d' \<and> orders d' = orders d \<and> orderLines d' = orderLines d \<and>
      nextId d \<le> nextId d' \<and> tenders d' = tenders d \<and> creditNotes d' = creditNotes d \<and> shifts d' = shifts d"
    if l: "r_bind (loadBill d (pp_tenantId staff) k) (\<lambda>bt0. refreshOpenBillTotals bt0 d) = Inr ((b, ts), d1)"
      and s: "payments_ok d1 \<Longrightarrow> payments_ok d' \<and> intents_forward d1 d' \<and> ledger_same d1 d'" for b ts d1
  proof -
    note f = fresh_bill [OF l assms(3)]
    have same: "intents d1 = intents d" "tenders d1 = tenders d" "nextId d1 = nextId d" "orders d1 = orders d" "orderLines d1 = orderLines d"
      "creditNotes d1 = creditNotes d" "shifts d1 = shifts d"
      by (subst f(6), simp)+
    have "payments_ok d1" by (rule payments_ok_frame [OF assms(2) same(1), of "[]"]) (simp_all add: same)
    then have s': "payments_ok d'" "intents_forward d1 d'" "ledger_same d1 d'" using s by auto
    have "ledger_grows d d'" using f(5) ledger_same_keeps(2) [OF s'(3)] by (rule ledger_grows_trans)
    moreover have "intents_forward d d'" using intents_forward_trans [OF intents_forward_refl [OF same(1)] s'(2)] .
    ultimately show ?thesis using s' ledger_same_keeps(1) [OF s'(3) f(4)] same by (auto simp: ledger_same_def)
  qed
  from assms(1) have "payments_ok d' \<and> intents_forward d d' \<and> books_ok d' \<and> ledger_grows d d' \<and> orders d' = orders d \<and> orderLines d' = orderLines d \<and>
      nextId d \<le> nextId d' \<and> tenders d' = tenders d \<and> creditNotes d' = creditNotes d \<and> shifts d' = shifts d"
  proof (cases rule: createIntent_cases)
    case (1 b ts d1)
    show ?thesis by (rule * [OF 1(1)]) (use 1(4) expireIfDue_keeps in metis)
  next
    case (2 b ts d1 d2 x)
    show ?thesis
    proof (rule * [OF 2(1)])
      assume "payments_ok d1"
      note b = expire_blocking_keeps [OF 2(4) this]
      note i = payments_ok_insert(1-3) [OF b(1) 2(5-7)]
      from i intents_forward_trans [OF b(2) i(2)] ledger_same_trans [OF b(3) i(3)]
      show "payments_ok d' \<and> intents_forward d1 d' \<and> ledger_same d1 d'" by blast
    qed
  qed
  then show "payments_ok d'" "intents_forward d d'" "books_ok d'" "ledger_grows d d'" "orders d' = orders d" "orderLines d' = orderLines d"
    "nextId d \<le> nextId d'" "tenders d' = tenders d" "creditNotes d' = creditNotes d" "shifts d' = shifts d" by auto
qed

lemma getIntent_keeps:
  assumes "getIntent e staff i d = Inr (v, d')" and "payments_ok d"
  shows "payments_ok d'" "intents_forward d d'" "ledger_same d d'"
proof -
  obtain r r' where "expireIfDue e r d = Inr (r', d')" using assms(1) by (auto simp: getIntent_def result_simps)
  from expireIfDue_keeps [OF this assms(2)] show "payments_ok d'" "intents_forward d d'" "ledger_same d d'" by auto
qed

lemma listPendingForOutlet_keeps:
  assumes "listPendingForOutlet e staff out dev d = Inr (v, d')" and "payments_ok d"
  shows "payments_ok d'" "intents_forward d d'" "ledger_same d d'"
proof -
  have d': "d' = update_intents (\<lambda>x. pi_tenantId x = pp_tenantId staff \<and> pi_outletId x = out \<and> isIntentActive x \<and> pi_expiresAt x \<le> now e) expire d"
    using assms(1) by (simp add: listPendingForOutlet_def Let_def split: if_splits)
  show "payments_ok d'" "intents_forward d d'" unfolding d' by (rule close_intents_keeps [OF assms(2) _ expire_charge]; simp)+
  show "ledger_same d d'" unfolding d' by (simp add: ledger_same_def)
qed

lemma failIntent_keeps:
  assumes "failIntent i reason d = Inr (r, d')" and "payments_ok d"
  shows "payments_ok d'" "intents_forward d d'" "ledger_same d d'"
proof -
  have d': "d' = update_intents (\<lambda>x. pi_id x = i \<and> isIntentActive x) (\<lambda>x. x\<lparr>pi_status := i_failed, pi_failureReason := Some reason\<rparr>) d"
    using assms(1) by (auto simp: failIntent_def Let_def result_simps)
  show "payments_ok d'" "intents_forward d d'"
    unfolding d' by (rule close_intents_keeps [OF assms(2)]; simp add: same_charge_def)+
  show "ledger_same d d'" unfolding d' by (simp add: ledger_same_def)
qed

lemma cancelIntent_keeps:
  assumes "cancelIntent e staff i d = Inr (v, d')" and "payments_ok d"
  shows "payments_ok d'" "intents_forward d d'" "ledger_same d d'"
proof -
  let ?c = "\<lambda>r. update_intents (\<lambda>x. pi_id x = pi_id (fst r) \<and> isIntentActive x)
     (\<lambda>x. x\<lparr>pi_status := i_cancelled, pi_failureReason := Some ''cancelled_by_staff''\<rparr>)"
  obtain r r' d1 where r: "expireIfDue e r d = Inr (r', d1)" "d' = d1 \<or> d' = ?c r' d1"
    using assms(1) by (auto simp: cancelIntent_def Let_def result_simps split: if_splits)
  note x = expireIfDue_keeps [OF r(1) assms(2)]
  have c: "payments_ok (?c r' d1)" "intents_forward d1 (?c r' d1)"
    by (rule close_intents_keeps [OF x(1)]; simp add: same_charge_def)+
  show "payments_ok d'" using r(2) x(1) c(1) by fast
  show "intents_forward d d'" using r(2) x(2) intents_forward_trans [OF x(2) c(2)] by fast
  show "ledger_same d d'" using r(2) x(3) by (elim disjE) (simp_all add: ledger_same_def)
qed

lemma simulate_keeps:
  assumes "simulate e staff i outcome d = Inr (v, d')" and "payments_ok d" and "books_ok d"
  shows "payments_ok d'" "intents_forward d d'" "books_ok d'" "ledger_grows d d'" "orders d' = orders d" "orderLines d' = orderLines d"
    "nextId d \<le> nextId d'" "bills d' = bills d" "shifts d' = shifts d" "creditNotes d' = creditNotes d"
proof -
  have same: "books_ok x \<and> ledger_grows d x \<and> orders x = orders d \<and> orderLines x = orderLines d \<and> nextId d \<le> nextId x \<and> bills x = bills d \<and>
      shifts x = shifts d \<and> creditNotes x = creditNotes d"
    if "ledger_same d x" for x
    using ledger_same_keeps(1) [OF that assms(3)] ledger_same_keeps(2) [OF that] that by (simp add: ledger_same_def)
  obtain r0 where l: "loadIntent d (pp_tenantId staff) i = Inr r0"
    using assms(1) by (auto simp: simulate_def r_bind_eq_Inr)
  consider "d' = d" | r where "confirmIntent e (pp_tenantId staff) (pi_id (fst r0)) d = Inr (r, d')"
    | r d1 where "expireIfDue e r0 d = Inr (r, d1)" "d' = d1 \<or> (\<exists>r2. failIntent (pi_id (fst r)) ''declined'' d1 = Inr (r2, d'))"
    using assms(1) l by (auto simp: simulate_def result_simps split: if_splits)
  then have "payments_ok d' \<and> intents_forward d d' \<and> books_ok d' \<and> ledger_grows d d' \<and> orders d' = orders d \<and> orderLines d' = orderLines d \<and>
      nextId d \<le> nextId d' \<and> bills d' = bills d \<and> shifts d' = shifts d \<and> creditNotes d' = creditNotes d"
  proof cases
    case 1
    with assms intents_forward_refl [of d d] ledger_grows_refl show ?thesis by simp
  next
    case (2 r)
    from confirmIntent_keeps [OF this assms(2,3)] show ?thesis by blast
  next
    case (3 r d1)
    note x = expireIfDue_keeps [OF 3(1) assms(2)]
    have "payments_ok d' \<and> intents_forward d1 d' \<and> ledger_same d1 d'"
      using 3(2)
    proof
      assume "d' = d1"
      with x(1) intents_forward_refl [of d1 d1] show ?thesis by (simp add: ledger_same_def)
    next
      assume "\<exists>r2. failIntent (pi_id (fst r)) ''declined'' d1 = Inr (r2, d')"
      with failIntent_keeps [OF _ x(1)] show ?thesis by metis
    qed
    then show ?thesis using intents_forward_trans [OF x(2)] same [OF ledger_same_trans [OF x(3)]] by blast
  qed
  then show "payments_ok d'" "intents_forward d d'" "books_ok d'" "ledger_grows d d'" "orders d' = orders d" "orderLines d' = orderLines d"
    "nextId d \<le> nextId d'" "bills d' = bills d" "shifts d' = shifts d" "creditNotes d' = creditNotes d" by auto
qed

text \<open>C14: Money moves once. Confirming an intent that is still open (an expired one included) writes exactly one tender, of
  the intent's amount on its bill; if the bill was finalised meanwhile no tender is written and the
  intent is flagged for a refund; an intent that is already over is left alone. Confirming it
  again, at any later time, changes nothing.\<close>

theorem confirmIntent_captures_once:
  assumes "confirmIntent e t i d = Inr (r, d')" and "payments_ok d" and "books_ok d" and "find_row pi_id i (intents d) = Some x"
    and "find_row b_id (pi_billId x) (bills d) = Some b"
  shows "(if pi_status x \<notin> {i_created, i_pending, i_expired} then d' = d
      else if b_status b = b_finalized then tenders d' = tenders d \<and> pi_failureReason (fst r) = Some LATE_CAPTURE_REFUND_DUE
      else \<exists>tn. tenders d' = tenders d @ [tn] \<and> pays tn x \<and> pi_status (fst r) = i_succeeded) \<and>
    (\<forall>e' r' d''. confirmIntent e' t i d' = Inr (r', d'') \<longrightarrow> d'' = d')"
proof -
  note k = confirmIntent_keeps(1) [OF assms(1-3)]
  have again: "d'' = d'" if "find_row pi_id i (intents d') = Some y" "pi_status y \<notin> {i_created, i_pending, i_expired}"
    and "confirmIntent e' t i d' = Inr (r', d'')" for y e' r' d''
    using that(3) k by (cases rule: confirmIntent_cases) (use that(1,2) in auto)
  from assms(1,2) show ?thesis
  proof (cases rule: confirmIntent_cases)
    case (over y)
    with assms(4) again [of x] show ?thesis by auto
  next
    case (late y c)
    have "find_row pi_id i (intents d') = Some ((capture e x)\<lparr>pi_failureReason := Some LATE_CAPTURE_REFUND_DUE\<rparr>)"
      unfolding late(6) using assms(4) find_row_Some [OF assms(4)] by (simp add: find_row_update)
    from again [OF this] late assms(4,5) show ?thesis by (auto simp: ledger_same_def)
  next
    case (captured y c tn)
    have "find_row pi_id i (intents d') = Some (capture e x)"
      unfolding captured(7) using assms(4) find_row_Some [OF assms(4)] by (simp add: find_row_update)
    from again [OF this] captured assms(4,5) show ?thesis by auto
  qed
qed

text \<open>C15: A terminal is never asked for more than is due. A new intent is the only active one for its bill, and its amount
  plus the tenders already on the bill is at most the bill's current total.\<close>

theorem createIntent_within_due:
  assumes "createIntent e staff k dto d = Inr ((v, True), d')" and "payments_ok d" and "books_ok d"
  shows "\<exists>b x. find_row b_id k (bills d') = Some b \<and> b_status b = b_open \<and>
    iw_amountMinor v + tender_sum d' k \<le> bill_total b \<and> iw_amountMinor v = ci_amountMinor dto \<and>
    filter (\<lambda>y. pi_billId y = k \<and> pi_shareId y = None \<and> isIntentActive y) (intents d') = [x] \<and> pi_id x = iw_id v"
  using assms(1)
proof (cases rule: createIntent_cases)
  case (1 b ts d1)
  then show ?thesis by simp
next
  case (2 b ts d1 d2 x)
  note f = fresh_bill [OF 2(1) assms(3)]
  have d1: "intents d1 = intents d" "tenders d1 = tenders d" "nextId d1 = nextId d" by (subst f(6), simp)+
  have p1: "payments_ok d1" by (rule payments_ok_frame [OF assms(2) d1(1), of "[]"]) (simp_all add: d1)
  note b = expire_blocking_keeps [OF 2(4) p1]
  note i = payments_ok_insert [OF b(1) 2(5-7)]
  have same: "bills d' = bills d1" "tenders d' = tenders d" using i(3) b(3) d1(2) by (simp_all add: ledger_same_def)
  have "find_row b_id k (bills d') = Some b" using books_okD(2) [OF f(4,1)] f(2) same(1) by simp
  moreover have "sum_rows td_amountMinor ts = tender_sum d' k" using f(7) same(2) by (simp add: tender_sum_def bill_tenders_def)
  moreover have "filter (\<lambda>y. pi_billId y = k \<and> pi_shareId y = None \<and> isIntentActive y) (intents d2) = []"
    using 2(5,7,8,10) by (auto simp: insert_intent_def filter_empty_conv list_ex_iff isIntentActive_def ACTIVE_INTENT_STATUSES_def split: if_splits)
  then have "filter (\<lambda>y. pi_billId y = k \<and> pi_shareId y = None \<and> isIntentActive y) (intents d') = [x]"
    using i(4) 2(7,8,10) by (simp add: isIntentActive_def ACTIVE_INTENT_STATUSES_def)
  ultimately show ?thesis using 2 by auto
qed

section \<open>A card payment in the sample restaurant\<close>

definition s_sim_env :: env where
  "s_sim_env = s_env\<lparr>payments_simulator := Some ''on''\<rparr>"

definition s_intent :: payment_intent where
  "s_intent = \<lparr>pi_id = 95, pi_tenantId = 1, pi_outletId = 2, pi_billId = 90, pi_shareId = None, pi_rail = card_terminal, pi_provider = simulated,
     pi_amountMinor = 10490, pi_currency = ''INR'', pi_status = i_expired, pi_clientKey = ''k1'', pi_providerRef = None, pi_clientPayload = JObj [],
     pi_failureReason = Some ''timed_out'', pi_expiresAt = 999999900, pi_succeededAt = None, pi_createdByStaffId = Some 21,
     pi_createdAt = 999699900, pi_targetDeviceId = None\<rparr>"

definition s_db_intent :: db where
  "s_db_intent = s_db_settle\<lparr>intents := [s_intent], devices := [\<lparr>dv_id = 45, dv_tenantId = 1, dv_outletId = Some 2, dv_label = ''Card'',
     dv_type = d_terminal, dv_role = dr_terminal, dv_status = d_active, dv_hardwareKeyFingerprint = ''k'', dv_secretHash = None,
     dv_enrolledAt = 0, dv_revokedAt = None, dv_pairedPosId = None, dv_lastContactAt = None, dv_outboxDepth = None, dv_appVersion = None,
     dv_clockSkewSeconds = None, dv_recentRejectionCount = None\<rparr>]\<rparr>"

lemmas intent_eval = confirmIntent_def read_intent_def intent_tender_def update_intents_def count_rows_def paymentsSimulatorFor_def
  paymentsSimulatorEnabled_def createTenderRecord_def tender_checks_def take_id_def find_row_def update_rows_def Let_def
  s_sim_env_def s_intent_def s_db_intent_def s_db_settle_def s_db_bill_def s_bill_def

lemma s_db_intent_ok: "payments_ok s_db_intent" "books_ok s_db_intent"
  subgoal
    by (simp add: payments_ok_def keys_ok_def active_targets_def isIntentActive_def ACTIVE_INTENT_STATUSES_def List.map_filter_def intent_eval sample_defs)
  subgoal by (rule books_ok_frame [OF s_db_settle_books]) (simp_all add: s_db_intent_def)
  done

lemma confirm_sample:
  "\<exists>r d. confirmIntent s_sim_env 1 95 s_db_intent = Inr (r, d)" "find_row pi_id 95 (intents s_db_intent) = Some s_intent"
  "find_row b_id 90 (bills s_db_intent) = Some s_bill"
  by (simp_all add: intent_eval sample_defs)

theorem confirmIntent_captures_once_witness:
  "\<exists>r d tn. confirmIntent s_sim_env 1 95 s_db_intent = Inr (r, d) \<and> tenders d = [tn] \<and> td_amountMinor tn = 10490 \<and>
     (\<forall>e r' d'. confirmIntent e 1 95 d = Inr (r', d') \<longrightarrow> d' = d)"
proof -
  obtain r d where r: "confirmIntent s_sim_env 1 95 s_db_intent = Inr (r, d)" using confirm_sample(1) by blast
  have "pi_billId s_intent = 90" "pi_status s_intent = i_expired" "b_status s_bill = b_open" "tenders s_db_intent = []" "pi_amountMinor s_intent = 10490"
    by (simp_all add: intent_eval sample_defs)
  with confirmIntent_captures_once [OF r s_db_intent_ok confirm_sample(2), of s_bill] confirm_sample(3) r show ?thesis
    by (auto simp: pays_def)
qed

lemma createIntent_sample:
  "\<exists>v d. createIntent s_sim_env s_cashier 90 \<lparr>ci_rail = card_terminal, ci_amountMinor = 5000, ci_clientKey = ''k2'', ci_deviceId = None\<rparr>
     s_db_intent = Inr ((v, True), d)"
  by (simp add: createIntent_def loadBill_def loadBillRow_def create_eval expire_blocking_def isIntentActive_def ACTIVE_INTENT_STATUSES_def
      terminal_for_def linkedPeripheral_def insert_intent_def toBillView_def bill_total_def computeTotalMinor_def intent_eval sample_defs)

theorem createIntent_within_due_witness:
  "\<exists>v d b. createIntent s_sim_env s_cashier 90 \<lparr>ci_rail = card_terminal, ci_amountMinor = 5000, ci_clientKey = ''k2'', ci_deviceId = None\<rparr>
     s_db_intent = Inr ((v, True), d) \<and> find_row b_id 90 (bills d) = Some b \<and> 5000 + tender_sum d 90 \<le> bill_total b"
proof -
  let ?dto = "\<lparr>ci_rail = card_terminal, ci_amountMinor = 5000, ci_clientKey = ''k2'', ci_deviceId = None\<rparr>"
  obtain v d where r: "createIntent s_sim_env s_cashier 90 ?dto s_db_intent = Inr ((v, True), d)" using createIntent_sample by blast
  from createIntent_within_due [OF r s_db_intent_ok] r show ?thesis by auto
qed

end
