(* ===== verification/Pricing.thy ===== *)
theory Pricing
  imports Samples
begin

text \<open>
  The menu reads that selling rests on: \<^verbatim>\<open>src/src/admin/menu/pricing.ts\<close> (which price row is
  current, which item may be sold) and \<^verbatim>\<open>src/src/admin/menu/combo-menu.ts\<close> (which combos may be
  sold, and what a guest's picks amount to). The central theorems: the picked price is the best
  eligible row of the documented order, and a resolved combo fills every slot exactly.
\<close>

section \<open>Current prices\<close>

record price_target =
  pt_channel :: price_channel
  pt_outletId :: "uuid option"

definition price_eligible :: "price_target \<Rightarrow> date \<Rightarrow> item_price \<Rightarrow> bool" where
  "price_eligible target asOf row \<longleftrightarrow>
     \<not> ip_effectiveAt row > asOf \<and>
     \<not> (ip_outletId row \<noteq> None \<and> ip_outletId row \<noteq> pt_outletId target) \<and>
     \<not> (ip_channel row \<noteq> None \<and> ip_channel row \<noteq> Some (pt_channel target))"

definition price_score :: "item_price \<Rightarrow> int" where
  "price_score row = (if ip_outletId row \<noteq> None then 2 else 0) + (if ip_channel row \<noteq> None then 1 else 0)"

fun pick_step :: "price_target \<Rightarrow> date \<Rightarrow> item_price option \<times> int \<Rightarrow> item_price \<Rightarrow> item_price option \<times> int" where
  "pick_step target asOf (best, bestScore) row =
    (if \<not> price_eligible target asOf row then (best, bestScore)
     else let score = price_score row in
       if score > bestScore \<or>
          (score = bestScore \<and>
           (case best of None \<Rightarrow> False
            | Some b \<Rightarrow> ip_effectiveAt row > ip_effectiveAt b \<or>
                (ip_effectiveAt row = ip_effectiveAt b \<and> ip_createdAt row > ip_createdAt b)))
       then (Some row, score) else (best, bestScore))"

definition pickCurrentPrice :: "item_price list \<Rightarrow> price_target \<Rightarrow> date \<Rightarrow> item_price option" where
  "pickCurrentPrice candidates target asOf = fst (foldl (pick_step target asOf) (None, -1) candidates)"

definition resolveCurrentPrice ::
  "env \<Rightarrow> db \<Rightarrow> uuid \<Rightarrow> uuid \<Rightarrow> uuid option \<Rightarrow> price_channel \<Rightarrow> uuid option \<Rightarrow> item_price option" where
  "resolveCurrentPrice e d tenantId itemId variantId channel outletId =
     pickCurrentPrice
       (filter (\<lambda>p. ip_tenantId p = tenantId \<and> ip_itemId p = itemId \<and> ip_variantId p = variantId \<and>
                    ip_effectiveAt p \<le> now e) (itemPrices d))
       \<lparr>pt_channel = channel, pt_outletId = outletId\<rparr> (now e)"

section \<open>Availability\<close>

definition item_override :: "db \<Rightarrow> uuid \<Rightarrow> uuid \<Rightarrow> item_outlet_override option" where
  "item_override d itemId outletId = find (\<lambda>o'. io_itemId o' = itemId \<and> io_outletId o' = outletId) (itemOverrides d)"

definition assertItemAvailable :: "db \<Rightarrow> uuid \<Rightarrow> menu_item \<Rightarrow> unit result" where
  "assertItemAvailable d outletId item =
    (if \<not> mi_available item then Inl (BadRequest ''item_unavailable'')
     else case item_override d (mi_id item) outletId of
       None \<Rightarrow> Inr ()
     | Some ov \<Rightarrow> if \<not> io_available ov then Inl (BadRequest ''item_unavailable'') else Inr ())"

text \<open>\<open>new Map(entries)\<close> keeps the last entry of a key.\<close>

definition itemAvailability :: "db \<Rightarrow> uuid \<Rightarrow> uuid option \<Rightarrow> menu_item \<Rightarrow> bool" where
  "itemAvailability d tenantId outletId item =
    (let overrides = (case outletId of None \<Rightarrow> []
           | Some out \<Rightarrow> filter (\<lambda>o'. io_tenantId o' = tenantId \<and> io_outletId o' = out) (itemOverrides d));
         byItem = map_of (rev (map (\<lambda>o'. (io_itemId o', io_available o')) overrides))
     in nullish (byItem (mi_id item)) (mi_available item))"

section \<open>Combos\<close>

record combo_option_view =
  ov_id :: uuid
  ov_itemId :: uuid
  ov_itemName :: string
  ov_variantId :: "uuid option"
  ov_variantName :: "string option"
  ov_upchargeMinor :: int
  ov_available :: bool

record combo_slot_view =
  sv_id :: uuid
  sv_name :: string
  sv_pickCount :: int
  sv_options :: "combo_option_view list"

record combo_menu_view =
  cv_id :: uuid
  cv_categoryId :: "uuid option"
  cv_name :: string
  cv_photoUrl :: "string option"
  cv_priceMinor :: int
  cv_currency :: string
  cv_available :: bool
  cv_slots :: "combo_slot_view list"

text \<open>
  The include of an option joins its item and variant. The foreign keys make the item present; an
  option without one would be reported as unavailable with an empty name.
\<close>

definition to_option_view :: "db \<Rightarrow> (menu_item \<Rightarrow> bool) \<Rightarrow> combo_slot_option \<Rightarrow> combo_option_view" where
  "to_option_view d isAvailable opt =
    (let item = find_row mi_id (co_itemId opt) (menuItems d)
     in \<lparr>ov_id = co_id opt, ov_itemId = co_itemId opt,
         ov_itemName = (case item of None \<Rightarrow> [] | Some i \<Rightarrow> mi_name i),
         ov_variantId = co_variantId opt,
         ov_variantName = (case (item, co_variantId opt) of
            (Some i, Some v) \<Rightarrow> map_option iv_name (find_row iv_id v (mi_variants i)) | _ \<Rightarrow> None),
         ov_upchargeMinor = co_upchargeMinor opt,
         ov_available = (case item of None \<Rightarrow> False | Some i \<Rightarrow> isAvailable i)\<rparr>)"

definition toComboMenuView :: "db \<Rightarrow> (menu_item \<Rightarrow> bool) \<Rightarrow> combo \<Rightarrow> combo_menu_view" where
  "toComboMenuView d isAvailable combo =
    (let slots = map (\<lambda>slot. \<lparr>sv_id = cs_id slot, sv_name = cs_name slot, sv_pickCount = cs_pickCount slot,
                   sv_options = map (to_option_view d isAvailable) (cs_options slot)\<rparr>) (cb_slots combo)
     in \<lparr>cv_id = cb_id combo, cv_categoryId = cb_categoryId combo, cv_name = cb_name combo,
         cv_photoUrl = cb_photoUrl combo, cv_priceMinor = cb_priceMinor combo, cv_currency = cb_currency combo,
         cv_available = (cb_available combo \<and> slots \<noteq> [] \<and> list_all (\<lambda>s. list_ex ov_available (sv_options s)) slots),
         cv_slots = slots\<rparr>)"

record combo_selection_input =
  ci_optionId :: uuid
  ci_quantity :: "int option"
  ci_modifierIds :: "uuid list option"

record resolved_combo_child =
  rc_optionId :: uuid
  rc_itemId :: uuid
  rc_itemName :: string
  rc_variantId :: "uuid option"
  rc_stationId :: "uuid option"
  rc_quantity :: int
  rc_upchargeMinor :: int
  rc_modifierIds :: "uuid list"

record combo_pick =
  pk_slot :: combo_slot
  pk_option :: combo_slot_option
  pk_quantity :: int
  pk_modifierIds :: "uuid list"

fun check_groups :: "uuid list \<Rightarrow> modifier_group list \<Rightarrow> unit result" where
  "check_groups modifierIds [] = Inr ()"
| "check_groups modifierIds (g # gs) =
    (let n = int (length (filter (\<lambda>m. m \<in> set modifierIds) (mg_modifiers g)))
     in if n < mg_minSelections g \<or> n > mg_maxSelections g then Inl (BadRequest ''modifier_selection_invalid'')
        else check_groups modifierIds gs)"

definition assertComboModifiersValid :: "menu_item \<Rightarrow> uuid list \<Rightarrow> unit result" where
  "assertComboModifiersValid item modifierIds =
    (let valid = concat (map mg_modifiers (mi_modifierGroups item))
     in if list_ex (\<lambda>m. m \<notin> set valid) modifierIds then Inl (BadRequest ''validation_failed'')
        else check_groups modifierIds (mi_modifierGroups item))"

definition combo_options :: "combo \<Rightarrow> (uuid \<times> (combo_slot \<times> combo_slot_option)) list" where
  "combo_options combo = concat (map (\<lambda>slot. map (\<lambda>opt. (co_id opt, (slot, opt))) (cs_options slot)) (cb_slots combo))"

fun resolve_picks :: "(uuid \<rightharpoonup> combo_slot \<times> combo_slot_option) \<Rightarrow> combo_selection_input list \<Rightarrow> combo_pick list result" where
  "resolve_picks optionById [] = Inr []"
| "resolve_picks optionById (s # ss) =
    (case optionById (ci_optionId s) of
       None \<Rightarrow> Inl (BadRequest ''validation_failed'')
     | Some (slot, opt) \<Rightarrow> r_bind (resolve_picks optionById ss) (\<lambda>ps. Inr
         (\<lparr>pk_slot = slot, pk_option = opt, pk_quantity = nullish (ci_quantity s) 1,
           pk_modifierIds = nullish (ci_modifierIds s) []\<rparr> # ps)))"

fun fill_slots :: "combo_slot list \<Rightarrow> combo_pick list \<Rightarrow> combo_pick list result" where
  "fill_slots [] picks = Inr picks"
| "fill_slots (slot # slots) picks =
    (let picks1 =
          (if length (cs_options slot) = 1 \<and> \<not> list_ex (\<lambda>p. cs_id (pk_slot p) = cs_id slot) picks
           then picks @ [\<lparr>pk_slot = slot, pk_option = hd (cs_options slot), pk_quantity = cs_pickCount slot, pk_modifierIds = []\<rparr>]
           else picks);
         count = sum_rows pk_quantity (filter (\<lambda>p. cs_id (pk_slot p) = cs_id slot) picks1)
     in if count \<noteq> cs_pickCount slot then Inl (BadRequest ''combo_selection_invalid'')
        else fill_slots slots picks1)"

definition resolve_child :: "db \<Rightarrow> (menu_item \<Rightarrow> bool) \<Rightarrow> combo_pick \<Rightarrow> resolved_combo_child result" where
  "resolve_child d isAvailable pick =
    (case find_row mi_id (co_itemId (pk_option pick)) (menuItems d) of
       None \<Rightarrow> Inl (InternalError ''P2025'')
     | Some item \<Rightarrow>
         if \<not> isAvailable item then Inl (BadRequest ''item_unavailable'')
         else r_bind (assertComboModifiersValid item (pk_modifierIds pick)) (\<lambda>_. Inr
           \<lparr>rc_optionId = co_id (pk_option pick), rc_itemId = co_itemId (pk_option pick), rc_itemName = mi_name item,
            rc_variantId = co_variantId (pk_option pick), rc_stationId = mi_stationId item,
            rc_quantity = pk_quantity pick, rc_upchargeMinor = co_upchargeMinor (pk_option pick),
            rc_modifierIds = pk_modifierIds pick\<rparr>))"

fun resolve_children :: "db \<Rightarrow> (menu_item \<Rightarrow> bool) \<Rightarrow> combo_pick list \<Rightarrow> resolved_combo_child list result" where
  "resolve_children d isAvailable [] = Inr []"
| "resolve_children d isAvailable (p # ps) =
    r_bind (resolve_child d isAvailable p) (\<lambda>c. r_bind (resolve_children d isAvailable ps) (\<lambda>cs. Inr (c # cs)))"

definition resolveComboSelection ::
  "db \<Rightarrow> uuid \<Rightarrow> uuid \<Rightarrow> uuid \<Rightarrow> combo_selection_input list \<Rightarrow> (combo \<times> resolved_combo_child list) result" where
  "resolveComboSelection d tenantId outletId comboId selections =
    (case find_row cb_id comboId (combos d) of
       None \<Rightarrow> Inl (BadRequest ''validation_failed'')
     | Some combo \<Rightarrow>
         if cb_tenantId combo \<noteq> tenantId \<or> cb_archivedAt combo \<noteq> None then Inl (BadRequest ''validation_failed'')
         else let isAvailable = itemAvailability d tenantId (Some outletId) in
           if \<not> cv_available (toComboMenuView d isAvailable combo) then Inl (BadRequest ''item_unavailable'')
           else r_bind (resolve_picks (map_of (rev (combo_options combo))) selections) (\<lambda>picks0.
             r_bind (fill_slots (cb_slots combo) picks0) (\<lambda>picks.
             r_bind (resolve_children d isAvailable picks) (\<lambda>children. Inr (combo, children)))))"

section \<open>The picked price is the best one\<close>

text \<open>The documented order: specificity first, then the later effective time, then the later creation.\<close>

definition price_le :: "item_price \<Rightarrow> item_price \<Rightarrow> bool" where
  "price_le a b \<longleftrightarrow> price_score a < price_score b \<or>
     (price_score a = price_score b \<and>
      (ip_effectiveAt a < ip_effectiveAt b \<or> (ip_effectiveAt a = ip_effectiveAt b \<and> ip_createdAt a \<le> ip_createdAt b)))"

lemma price_le_refl: "price_le a a"
  by (simp add: price_le_def)

lemma price_le_trans: "price_le a b \<Longrightarrow> price_le b c \<Longrightarrow> price_le a c"
  by (auto simp: price_le_def)

lemma price_score_range: "0 \<le> price_score a" "price_score a \<le> 3"
  by (simp_all add: price_score_def)

definition pick_inv :: "price_target \<Rightarrow> date \<Rightarrow> item_price list \<Rightarrow> item_price option \<times> int \<Rightarrow> bool" where
  "pick_inv target asOf rows s \<longleftrightarrow> (case fst s of
     None \<Rightarrow> snd s = -1 \<and> (\<forall>c \<in> set rows. \<not> price_eligible target asOf c)
   | Some b \<Rightarrow> snd s = price_score b \<and> b \<in> set rows \<and> price_eligible target asOf b \<and>
       (\<forall>c \<in> set rows. price_eligible target asOf c \<longrightarrow> price_le c b))"

lemma pick_step_inv:
  assumes "pick_inv target asOf rows (best, sc)"
  shows "pick_inv target asOf (rows @ [row]) (pick_step target asOf (best, sc) row)"
proof (cases "price_eligible target asOf row")
  case False
  with assms show ?thesis by (auto simp: pick_inv_def split: option.splits)
next
  case True
  show ?thesis
  proof (cases best)
    case None
    then have "price_score row > sc" using assms price_score_range [of row] by (simp add: pick_inv_def)
    with None True assms show ?thesis by (simp add: pick_inv_def price_le_refl)
  next
    case (Some b)
    show ?thesis
    proof (cases "price_le row b")
      case le: True
      then have "pick_step target asOf (best, sc) row = (best, sc)"
        using assms Some True by (auto simp: pick_inv_def price_le_def Let_def)
      with assms Some le show ?thesis by (auto simp: pick_inv_def)
    next
      case gt: False
      then have st: "pick_step target asOf (best, sc) row = (Some row, price_score row)"
        using assms Some True by (auto simp: pick_inv_def price_le_def Let_def)
      have "price_le b row" using gt by (auto simp: price_le_def)
      with assms Some True st show ?thesis
        by (auto simp: pick_inv_def price_le_refl intro: price_le_trans)
    qed
  qed
qed

lemma pick_loop_inv: "pick_inv target asOf rows (foldl (pick_step target asOf) (None, -1) rows)"
proof (induction rows rule: rev_induct)
  case Nil
  then show ?case by (simp add: pick_inv_def)
next
  case (snoc row rows)
  then show ?case using pick_step_inv by (metis foldl_Cons foldl_Nil foldl_append prod.collapse)
qed


text \<open>A price row scheduled in the future is never sold at.\<close>

lemma resolveCurrentPrice_current:
  assumes "resolveCurrentPrice e d t i v ch out = Some p"
  shows "p \<in> set (itemPrices d) \<and> ip_tenantId p = t \<and> ip_itemId p = i \<and> ip_variantId p = v \<and> ip_effectiveAt p \<le> now e"
  using assms pick_loop_inv
    [of "\<lparr>pt_channel = ch, pt_outletId = out\<rparr>" "now e" "filter (\<lambda>p. ip_tenantId p = t \<and> ip_itemId p = i \<and>
       ip_variantId p = v \<and> ip_effectiveAt p \<le> now e) (itemPrices d)"]
  by (auto simp: resolveCurrentPrice_def pickCurrentPrice_def pick_inv_def)

section \<open>A resolved combo fills its slots\<close>

lemma fill_slots_extends:
  assumes "fill_slots slots picks = Inr picks'"
  shows "\<exists>extra. picks' = picks @ extra \<and> (\<forall>p \<in> set extra. pk_slot p \<in> set slots \<and> pk_option p \<in> set (cs_options (pk_slot p)))"
  using assms
proof (induction slots arbitrary: picks)
  case Nil
  then show ?case by simp
next
  case (Cons slot slots)
  show ?case
  proof (cases "length (cs_options slot) = 1 \<and> \<not> list_ex (\<lambda>p. cs_id (pk_slot p) = cs_id slot) picks")
    case True
    let ?p = "\<lparr>pk_slot = slot, pk_option = hd (cs_options slot), pk_quantity = cs_pickCount slot, pk_modifierIds = []\<rparr>"
    have "fill_slots slots (picks @ [?p]) = Inr picks'"
      using Cons.prems True by (simp add: Let_def split: if_splits)
    from Cons.IH [OF this] True show ?thesis by (auto simp: length_Suc_conv)
  next
    case False
    then have "fill_slots slots picks = Inr picks'"
      using Cons.prems by (auto simp: Let_def split: if_splits)
    from Cons.IH [OF this] show ?thesis by auto
  qed
qed

lemma fill_slots_counts:
  assumes "fill_slots slots picks = Inr picks'" and "distinct (map cs_id slots)" and "slot \<in> set slots"
  shows "sum_rows pk_quantity (filter (\<lambda>p. cs_id (pk_slot p) = cs_id slot) picks') = cs_pickCount slot"
  using assms
proof (induction slots arbitrary: picks)
  case Nil
  then show ?case by simp
next
  case (Cons s slots)
  obtain picks1 where p1: "fill_slots slots picks1 = Inr picks'"
      "sum_rows pk_quantity (filter (\<lambda>p. cs_id (pk_slot p) = cs_id s) picks1) = cs_pickCount s"
    using Cons.prems(1) by (auto simp: Let_def split: if_splits)
  show ?case
  proof (cases "slot = s")
    case False
    then show ?thesis using Cons.IH [OF p1(1)] Cons.prems by simp
  next
    case True
    obtain extra where ex: "picks' = picks1 @ extra" "\<forall>p \<in> set extra. pk_slot p \<in> set slots"
      using fill_slots_extends [OF p1(1)] by auto
    have "filter (\<lambda>p. cs_id (pk_slot p) = cs_id s) extra = []"
      using ex(2) Cons.prems(2) by (simp add: filter_empty_conv) (metis imageI)
    then show ?thesis using True ex p1(2) by simp
  qed
qed

lemma combo_options_mem:
  "map_of (rev (combo_options c)) k = Some (slot, opt) \<Longrightarrow> slot \<in> set (cb_slots c) \<and> opt \<in> set (cs_options slot) \<and> co_id opt = k"
  by (drule map_of_SomeD) (auto simp: combo_options_def)

lemma resolve_picks_mem:
  assumes "resolve_picks (map_of (rev (combo_options c))) ss = Inr picks" and "p \<in> set picks"
  shows "pk_slot p \<in> set (cb_slots c) \<and> pk_option p \<in> set (cs_options (pk_slot p))"
  using assms
proof (induction ss arbitrary: picks)
  case Nil
  then show ?case by simp
next
  case (Cons s ss)
  then show ?case by (fastforce simp: result_simps dest: combo_options_mem split: option.splits)
qed

definition child_of_pick :: "combo_pick \<Rightarrow> resolved_combo_child \<Rightarrow> bool" where
  "child_of_pick p c \<longleftrightarrow> rc_optionId c = co_id (pk_option p) \<and> rc_itemId c = co_itemId (pk_option p) \<and>
     rc_quantity c = pk_quantity p \<and> rc_upchargeMinor c = co_upchargeMinor (pk_option p)"

lemma resolve_children_rel:
  "resolve_children d av ps = Inr cs \<Longrightarrow> list_all2 child_of_pick ps cs"
proof (induction ps arbitrary: cs)
  case Nil
  then show ?case by simp
next
  case (Cons p ps)
  then show ?case
    by (auto simp: result_simps resolve_child_def child_of_pick_def split: option.splits if_splits)
qed

lemma resolve_children_available:
  assumes "resolve_children d av ps = Inr cs" and "c \<in> set cs"
  shows "\<exists>item. find_row mi_id (rc_itemId c) (menuItems d) = Some item \<and> av item"
  using assms
proof (induction ps arbitrary: cs)
  case Nil
  then show ?case by simp
next
  case (Cons p ps)
  then show ?case
    by (auto simp: result_simps resolve_child_def split: option.splits if_splits)
qed

lemma children_quantity:
  assumes "list_all2 child_of_pick ps cs" and "\<And>p. p \<in> set ps \<Longrightarrow> P (co_id (pk_option p)) = Q p"
  shows "sum_rows rc_quantity (filter (\<lambda>c. P (rc_optionId c)) cs) = sum_rows pk_quantity (filter Q ps)"
  using assms
proof (induction rule: list_all2_induct)
  case Nil
  then show ?case by simp
next
  case (Cons p ps c cs)
  then show ?case by (auto simp: child_of_pick_def)
qed

lemma combo_options_memI:
  assumes "s \<in> set (cb_slots c)" and "x \<in> set (cs_options s)"
  shows "(co_id x, (s, x)) \<in> set (combo_options c)"
proof -
  have "(co_id x, (s, x)) \<in> set (map (\<lambda>opt. (co_id opt, (s, opt))) (cs_options s))"
    using assms(2) by simp
  with assms(1) show ?thesis unfolding combo_options_def by fastforce
qed

lemma option_slot_unique:
  assumes "distinct (map fst (combo_options c))" and "s \<in> set (cb_slots c)" and "t \<in> set (cb_slots c)"
    and "x \<in> set (cs_options s)" and "y \<in> set (cs_options t)" and "co_id x = co_id y"
  shows "s = t"
proof -
  have "(co_id x, (s, x)) \<in> set (combo_options c)" "(co_id x, (t, y)) \<in> set (combo_options c)"
    using combo_options_memI [OF assms(2,4)] combo_options_memI [OF assms(3,5)] assms(6) by simp_all
  with assms(1) have "(s, x) = (t, y)" by (rule eq_key_imp_eq_value)
  then show ?thesis by simp
qed

lemma resolveComboSelection_parts:
  assumes "resolveComboSelection d t out cid sel = Inr (c, children)"
  obtains picks0 picks where "find_row cb_id cid (combos d) = Some c" "cb_tenantId c = t" "cb_archivedAt c = None"
    "cv_available (toComboMenuView d (itemAvailability d t (Some out)) c)"
    "resolve_picks (map_of (rev (combo_options c))) sel = Inr picks0"
    "fill_slots (cb_slots c) picks0 = Inr picks"
    "resolve_children d (itemAvailability d t (Some out)) picks = Inr children"
  using assms by (auto simp: resolveComboSelection_def result_simps Let_def split: option.splits if_splits)

text \<open>C10: Combo resolution. When a selection is accepted the combo is a live combo of the tenant and for
  every slot the chosen (or filled-in) options add up to exactly the slot's pick count; every
  child line's item is available at the outlet. (Slot and option identifiers are primary
  keys, hence distinct.)\<close>

theorem resolveComboSelection_fills_slots:
  assumes "resolveComboSelection d t out cid sel = Inr (c, children)"
    and "distinct (map cs_id (cb_slots c))" and "distinct (map fst (combo_options c))"
  shows "cb_tenantId c = t \<and> cb_archivedAt c = None \<and>
    (\<forall>slot \<in> set (cb_slots c). sum_rows rc_quantity
      (filter (\<lambda>ch. rc_optionId ch \<in> co_id ` set (cs_options slot)) children) = cs_pickCount slot) \<and>
    (\<forall>ch \<in> set children. \<exists>item. find_row mi_id (rc_itemId ch) (menuItems d) = Some item \<and>
      itemAvailability d t (Some out) item)"
proof -
  obtain picks0 picks where p: "cb_tenantId c = t" "cb_archivedAt c = None"
    "resolve_picks (map_of (rev (combo_options c))) sel = Inr picks0"
    "fill_slots (cb_slots c) picks0 = Inr picks"
    "resolve_children d (itemAvailability d t (Some out)) picks = Inr children"
    using assms(1) by (rule resolveComboSelection_parts)
  have mem: "pk_slot q \<in> set (cb_slots c) \<and> pk_option q \<in> set (cs_options (pk_slot q))" if "q \<in> set picks" for q
    using fill_slots_extends [OF p(4)] resolve_picks_mem [OF p(3)] that by auto
  have "sum_rows rc_quantity (filter (\<lambda>ch. rc_optionId ch \<in> co_id ` set (cs_options slot)) children) = cs_pickCount slot"
    if slot: "slot \<in> set (cb_slots c)" for slot
  proof -
    have "(co_id (pk_option q) \<in> co_id ` set (cs_options slot)) = (cs_id (pk_slot q) = cs_id slot)"
      if q: "q \<in> set picks" for q
    proof
      assume "co_id (pk_option q) \<in> co_id ` set (cs_options slot)"
      then show "cs_id (pk_slot q) = cs_id slot"
        using option_slot_unique [OF assms(3) _ slot] mem [OF q] by auto
    next
      assume "cs_id (pk_slot q) = cs_id slot"
      then have "pk_slot q = slot"
        using assms(2) slot mem [OF q] by (auto simp: distinct_map dest: inj_onD)
      then show "co_id (pk_option q) \<in> co_id ` set (cs_options slot)" using mem [OF q] by auto
    qed
    then have "sum_rows rc_quantity (filter (\<lambda>ch. rc_optionId ch \<in> co_id ` set (cs_options slot)) children)
        = sum_rows pk_quantity (filter (\<lambda>q. cs_id (pk_slot q) = cs_id slot) picks)"
      by (intro children_quantity [OF resolve_children_rel [OF p(5)], of "\<lambda>k. k \<in> co_id ` set (cs_options slot)"])
    with fill_slots_counts [OF p(4) assms(2) slot] show ?thesis by simp
  qed
  with p(1,2) resolve_children_available [OF p(5)] show ?thesis by blast
qed

lemmas combo_eval = resolveComboSelection_def toComboMenuView_def to_option_view_def itemAvailability_def
  resolve_child_def assertComboModifiersValid_def combo_options_def find_row_def sample_defs Let_def

theorem resolveComboSelection_fills_slots_witness:
  "\<exists>children. resolveComboSelection s_db 1 2 60 [\<lparr>ci_optionId = 63, ci_quantity = None, ci_modifierIds = None\<rparr>]
       = Inr (s_combo, children) \<and> map rc_itemId children = [51, 52] \<and>
     (\<forall>slot \<in> set (cb_slots s_combo). sum_rows rc_quantity
      (filter (\<lambda>ch. rc_optionId ch \<in> co_id ` set (cs_options slot)) children) = cs_pickCount slot)"
proof -
  obtain children where r: "resolveComboSelection s_db 1 2 60 [\<lparr>ci_optionId = 63, ci_quantity = None, ci_modifierIds = None\<rparr>]
       = Inr (s_combo, children)" "map rc_itemId children = [51, 52]"
    by (simp add: combo_eval)
  have "distinct (map cs_id (cb_slots s_combo))" "distinct (map fst (combo_options s_combo))"
    by (simp_all add: combo_eval)
  with resolveComboSelection_fills_slots [OF r(1)] r show ?thesis by (intro exI [of _ children]) simp
qed

text \<open>
  The two availability rules differ. For a plain item both switches must be on; for a combo's
  item the outlet override replaces the tenant-wide switch, so an item that is off tenant-wide
  and on at the outlet cannot be sold alone but is sold inside a combo.
\<close>

lemma availability_rules_differ:
  "\<exists>d item. assertItemAvailable d 2 item = Inl (BadRequest ''item_unavailable'') \<and> itemAvailability d 1 (Some 2) item"
proof (intro exI conjI)
  let ?i = "(s_item 50 ''Dal'' None)\<lparr>mi_available := False\<rparr>"
  let ?d = "s_db\<lparr>itemOverrides := [\<lparr>io_tenantId = 1, io_itemId = 50, io_outletId = 2, io_available = True\<rparr>]\<rparr>"
  show "assertItemAvailable ?d 2 ?i = Inl (BadRequest ''item_unavailable'')"
    by (simp add: assertItemAvailable_def)
  show "itemAvailability ?d 1 (Some 2) ?i"
    by (simp add: itemAvailability_def s_item_def)
qed

end
