(* ===== verification/OrderLines.thy ===== *)
theory OrderLines
  imports Payments Pricing
begin

text \<open>
  The lines of an order, \<^verbatim>\<open>src/src/pos/orders/order-lines.service.ts\<close>: adding items and combos, changing and removing
  lines the kitchen does not have yet, and voiding lines it has, behind the manager gate. A line may only shrink
  while nothing was paid on the order's bill.
\<close>

section \<open>Checks\<close>

definition orderPriceChannels :: "order \<Rightarrow> price_channel list" where
  "orderPriceChannels x = (if o_tableId x = None then [takeaway, dine_in] else [dine_in])"

definition loadItemForOrderLine :: "db \<Rightarrow> uuid \<Rightarrow> uuid \<Rightarrow> menu_item result" where
  "loadItemForOrderLine d tenantId itemId =
    (case find_row mi_id itemId (menuItems d) of
       None \<Rightarrow> Inl (BadRequest ''validation_failed'')
     | Some item \<Rightarrow> if mi_tenantId item \<noteq> tenantId \<or> mi_archivedAt item \<noteq> None then Inl (BadRequest ''validation_failed'') else Inr item)"

definition assertVariantBelongsToItem :: "menu_item \<Rightarrow> uuid option \<Rightarrow> unit result" where
  "assertVariantBelongsToItem item variantId =
    (case variantId of None \<Rightarrow> Inr ()
     | Some v \<Rightarrow> if \<not> list_ex (\<lambda>x. iv_id x = v) (mi_variants item) then Inl (BadRequest ''validation_failed'') else Inr ())"

fun check_selection_counts :: "modifier_group list \<Rightarrow> uuid list \<Rightarrow> unit result" where
  "check_selection_counts [] modifierIds = Inr ()"
| "check_selection_counts (g # gs) modifierIds =
    (let selectedCount = int (length (filter (\<lambda>m. m \<in> set modifierIds) (mg_modifiers g)))
     in if selectedCount < mg_minSelections g \<or> selectedCount > mg_maxSelections g then Inl (BadRequest ''modifier_selection_invalid'')
        else check_selection_counts gs modifierIds)"

definition assertModifierSelectionValid :: "menu_item \<Rightarrow> uuid list \<Rightarrow> unit result" where
  "assertModifierSelectionValid item modifierIds =
    (let validModifierIds = concat (map mg_modifiers (mi_modifierGroups item))
     in if list_ex (\<lambda>i. i \<notin> set validModifierIds) modifierIds then Inl (BadRequest ''validation_failed'')
        else check_selection_counts (mi_modifierGroups item) modifierIds)"

definition resolveModifierPrices :: "db \<Rightarrow> uuid \<Rightarrow> uuid list \<Rightarrow> uuid \<rightharpoonup> int" where
  "resolveModifierPrices d tenantId modifierIds i =
    (if i \<in> set modifierIds then map_option mo_priceMinor (find (\<lambda>m. mo_id m = i \<and> mo_tenantId m = tenantId) (modifiers d)) else None)"

definition assertOrderNotClosed :: "order \<Rightarrow> unit result" where
  "assertOrderNotClosed x = (if o_status x = o_closed then Inl (Conflict ''conflict'') else Inr ())"

definition lineAndChildIds :: "db \<Rightarrow> order_line \<Rightarrow> uuid list" where
  "lineAndChildIds d l = ol_id l # map ol_id (filter (\<lambda>c. ol_parentLineId c = Some (ol_id l)) (orderLines d))"

definition isSentToKitchen :: "db \<Rightarrow> uuid list \<Rightarrow> bool" where
  "isSentToKitchen d lineIds = (count_rows (\<lambda>k. tl_orderLineId k \<in> set lineIds) (ticketLines d) > 0)"

definition assertLineNotSent :: "db \<Rightarrow> order_line \<Rightarrow> unit result" where
  "assertLineNotSent d l = (if isSentToKitchen d (lineAndChildIds d l) then Inl (Conflict ''line_sent'') else Inr ())"

definition loadOrderLine :: "db \<Rightarrow> uuid \<Rightarrow> uuid \<Rightarrow> uuid \<Rightarrow> order_line result" where
  "loadOrderLine d tenantId orderId lineId =
    (case find_row ol_id lineId (orderLines d) of
       None \<Rightarrow> Inl (NotFound ''not_found'')
     | Some l \<Rightarrow> if ol_tenantId l \<noteq> tenantId \<or> ol_orderId l \<noteq> orderId \<or> ol_voidedAt l \<noteq> None then Inl (NotFound ''not_found'') else Inr l)"

datatype line_action = la_change | la_remove

definition assertNotComboLine :: "order_line \<Rightarrow> line_action \<Rightarrow> unit result" where
  "assertNotComboLine l action =
    (if ol_comboId l \<noteq> None \<and> action = la_change then Inl (Conflict ''combo_locked'')
     else if ol_parentLineId l \<noteq> None then Inl (Conflict ''combo_locked'') else Inr ())"

definition bill_payments :: "db \<Rightarrow> uuid \<Rightarrow> nat" where
  "bill_payments d billId = count_rows (\<lambda>t. td_billId t = billId) (tenders d) +
     count_rows (\<lambda>i. pi_billId i = billId \<and> isIntentActive i) (intents d) +
     count_rows (\<lambda>s. bs_billId s = billId \<and> (bs_status s = paid \<or> bs_paidAt s \<noteq> None)) (billShares d)"

definition assertBillHasNoPayments :: "db \<Rightarrow> uuid \<Rightarrow> unit result" where
  "assertBillHasNoPayments d orderId =
    (case find_row b_orderId orderId (bills d) of
       None \<Rightarrow> Inr ()
     | Some b \<Rightarrow> if bill_payments d (b_id b) > 0 then Inl (Conflict ''bill_has_payments'') else Inr ())"

section \<open>Writing lines\<close>

definition new_modifiers :: "uuid \<Rightarrow> (uuid \<rightharpoonup> int) \<Rightarrow> uuid list \<Rightarrow> order_line_modifier list" where
  "new_modifiers n prices ids =
     map (\<lambda>(i, m). \<lparr>om_id = n + i, om_modifierId = m, om_priceMinor = nullish (prices m) 0\<rparr>) (enumerate 0 ids)"

text \<open>One \<open>orderLine.create\<close> followed by its \<open>orderLineModifier.create\<close> calls; the line arrives without identifiers.\<close>

definition insert_line :: "order_line \<Rightarrow> (uuid \<rightharpoonup> int) \<Rightarrow> uuid list \<Rightarrow> db \<Rightarrow> uuid \<times> db" where
  "insert_line l prices modifierIds d =
    (let (i, d1) = take_id d
     in (i, d1\<lparr>nextId := nextId d1 + length modifierIds,
              orderLines := orderLines d1 @ [l\<lparr>ol_id := i, ol_modifiers := new_modifiers (nextId d1) prices modifierIds\<rparr>]\<rparr>))"

definition line_of :: "env \<Rightarrow> uuid \<Rightarrow> uuid \<Rightarrow> uuid option \<Rightarrow> int option \<Rightarrow> int \<Rightarrow> int \<Rightarrow> order_line" where
  "line_of e tenantId orderId staffId seat quantity unit =
    \<lparr>ol_id = 0, ol_tenantId = tenantId, ol_orderId = orderId, ol_itemId = None, ol_variantId = None, ol_comboId = None,
     ol_parentLineId = None, ol_quantity = quantity, ol_unitPriceMinor = unit, ol_seatNumber = seat, ol_addedByStaffId = staffId,
     ol_guestId = None, ol_guestName = None, ol_note = None, ol_voidedAt = None, ol_voidReason = None, ol_createdAt = now e, ol_modifiers = []\<rparr>"

record add_line_dto =
  al_itemId :: uuid
  al_variantId :: "uuid option"
  al_quantity :: int
  al_modifierIds :: "uuid list option"
  al_seatNumber :: "int option"
  al_note :: "string option"

fun first_price :: "(price_channel \<Rightarrow> item_price option) \<Rightarrow> price_channel list \<Rightarrow> item_price option" where
  "first_price resolve [] = None"
| "first_price resolve (c # cs) = (case resolve c of Some p \<Rightarrow> Some p | None \<Rightarrow> first_price resolve cs)"

text \<open>\<open>dto.note?.trim() || null\<close>\<close>

definition trimmed_note :: "string option \<Rightarrow> string option" where
  "trimmed_note n = (case n of None \<Rightarrow> None | Some s \<Rightarrow> if str_trim s = [] then None else Some (str_trim s))"

definition addLine :: "env \<Rightarrow> pos_principal \<Rightarrow> uuid \<Rightarrow> add_line_dto \<Rightarrow> db \<Rightarrow> (order_view \<times> db) result" where
  "addLine e staff orderId dto d =
    r_bind (loadOrder d (pp_tenantId staff) orderId) (\<lambda>x.
    r_bind (assertOwner x staff) (\<lambda>_.
    r_bind (assertOrderNotClosed x) (\<lambda>_.
    r_bind (loadItemForOrderLine d (pp_tenantId staff) (al_itemId dto)) (\<lambda>item.
    r_bind (assertItemAvailable d (o_outletId x) item) (\<lambda>_.
    r_bind (assertVariantBelongsToItem item (al_variantId dto)) (\<lambda>_.
    let modifierIds = nullish (al_modifierIds dto) [] in
    r_bind (assertModifierSelectionValid item modifierIds) (\<lambda>_.
    (case first_price (\<lambda>c. resolveCurrentPrice e d (pp_tenantId staff) (al_itemId dto) (al_variantId dto) c (Some (o_outletId x)))
            (orderPriceChannels x) of
       None \<Rightarrow> Inl (BadRequest ''no_price'')
     | Some price \<Rightarrow>
         let l = (line_of e (pp_tenantId staff) orderId (Some (pp_id staff)) (al_seatNumber dto) (al_quantity dto) (ip_priceMinor price))
                   \<lparr>ol_itemId := Some (al_itemId dto), ol_variantId := al_variantId dto, ol_note := trimmed_note (al_note dto)\<rparr>;
             (_, d1) = insert_line l (resolveModifierPrices d (pp_tenantId staff) modifierIds) modifierIds d
         in Inr (buildOrderView d1 x, d1)))))))))"

record add_combo_dto =
  ac_comboId :: uuid
  ac_quantity :: int
  ac_selections :: "combo_selection_input list"
  ac_seatNumber :: "int option"

definition add_combo_child ::
  "env \<Rightarrow> pos_principal \<Rightarrow> uuid \<Rightarrow> add_combo_dto \<Rightarrow> uuid \<Rightarrow> resolved_combo_child \<Rightarrow> db \<Rightarrow> db" where
  "add_combo_child e staff orderId dto parent child d =
     snd (insert_line ((line_of e (pp_tenantId staff) orderId (Some (pp_id staff)) (ac_seatNumber dto) (rc_quantity child * ac_quantity dto)
             (rc_upchargeMinor child))\<lparr>ol_itemId := Some (rc_itemId child), ol_variantId := rc_variantId child, ol_parentLineId := Some parent\<rparr>)
           (resolveModifierPrices d (pp_tenantId staff) (rc_modifierIds child)) (rc_modifierIds child) d)"

definition addCombo :: "env \<Rightarrow> pos_principal \<Rightarrow> uuid \<Rightarrow> add_combo_dto \<Rightarrow> db \<Rightarrow> (order_view \<times> db) result" where
  "addCombo e staff orderId dto d =
    r_bind (loadOrder d (pp_tenantId staff) orderId) (\<lambda>x.
    r_bind (assertOwner x staff) (\<lambda>_.
    r_bind (assertOrderNotClosed x) (\<lambda>_.
    r_bind (resolveComboSelection d (pp_tenantId staff) (o_outletId x) (ac_comboId dto) (ac_selections dto)) (\<lambda>(combo, children).
      let (parent, d1) = insert_line ((line_of e (pp_tenantId staff) orderId (Some (pp_id staff)) (ac_seatNumber dto) (ac_quantity dto)
                            (cb_priceMinor combo))\<lparr>ol_comboId := Some (cb_id combo)\<rparr>) (\<lambda>_. None) [] d;
          d2 = foldl (\<lambda>s child. add_combo_child e staff orderId dto parent child s) d1 children
      in Inr (buildOrderView d2 x, d2)))))"

section \<open>Changing lines\<close>

definition set_line :: "uuid \<Rightarrow> (order_line \<Rightarrow> order_line) \<Rightarrow> db \<Rightarrow> db" where
  "set_line k f d = d\<lparr>orderLines := update_rows (\<lambda>l. ol_id l = k) f (orderLines d)\<rparr>"

record update_line_dto =
  ul_quantity :: "int option"
  ul_modifierIds :: "uuid list option"
  ul_seatNumber :: "int option"

definition change_modifiers :: "pos_principal \<Rightarrow> uuid \<Rightarrow> order_line \<Rightarrow> uuid list \<Rightarrow> db \<Rightarrow> db result" where
  "change_modifiers staff orderId l ids d =
    (case ol_itemId l of
       None \<Rightarrow> Inl (InternalError ''PrismaClientValidationError'')
     | Some itemId \<Rightarrow>
         r_bind (loadItemForOrderLine d (pp_tenantId staff) itemId) (\<lambda>item.
         r_bind (assertModifierSelectionValid item ids) (\<lambda>_.
           let prices = resolveModifierPrices d (pp_tenantId staff) ids;
               oldPrice = sum_rows om_priceMinor (ol_modifiers l);
               newPrice = sum_rows (\<lambda>i. nullish (prices i) 0) ids
           in r_bind (if newPrice < oldPrice then assertBillHasNoPayments d orderId else Inr ()) (\<lambda>_.
             Inr ((set_line (ol_id l) (\<lambda>y. y\<lparr>ol_modifiers := new_modifiers (nextId d) prices ids\<rparr>) d)\<lparr>nextId := nextId d + length ids\<rparr>)))))"

definition updateLine :: "pos_principal \<Rightarrow> uuid \<Rightarrow> uuid \<Rightarrow> update_line_dto \<Rightarrow> db \<Rightarrow> (order_view \<times> db) result" where
  "updateLine staff orderId lineId dto d =
    r_bind (loadOrder d (pp_tenantId staff) orderId) (\<lambda>x.
    r_bind (assertOwner x staff) (\<lambda>_.
    r_bind (assertOrderNotClosed x) (\<lambda>_.
    r_bind (loadOrderLine d (pp_tenantId staff) orderId lineId) (\<lambda>l.
    r_bind (assertNotComboLine l la_change) (\<lambda>_.
    r_bind (assertLineNotSent d l) (\<lambda>_.
    r_bind (case ul_quantity dto of None \<Rightarrow> Inr () | Some q \<Rightarrow> if q < ol_quantity l then assertBillHasNoPayments d orderId else Inr ()) (\<lambda>_.
      let d1 = (case ul_quantity dto of None \<Rightarrow> d | Some q \<Rightarrow> set_line lineId (\<lambda>y. y\<lparr>ol_quantity := q\<rparr>) d);
          d2 = (case ul_seatNumber dto of None \<Rightarrow> d1 | Some s \<Rightarrow> set_line lineId (\<lambda>y. y\<lparr>ol_seatNumber := Some s\<rparr>) d1)
      in r_bind (case ul_modifierIds dto of None \<Rightarrow> Inr d2 | Some ids \<Rightarrow> change_modifiers staff orderId l ids d2) (\<lambda>d3.
        Inr (buildOrderView d3 x, d3)))))))))"

definition removeLine :: "pos_principal \<Rightarrow> uuid \<Rightarrow> uuid \<Rightarrow> db \<Rightarrow> (order_view \<times> db) result" where
  "removeLine staff orderId lineId d =
    r_bind (loadOrder d (pp_tenantId staff) orderId) (\<lambda>x.
    r_bind (assertOwner x staff) (\<lambda>_.
    r_bind (assertOrderNotClosed x) (\<lambda>_.
    r_bind (loadOrderLine d (pp_tenantId staff) orderId lineId) (\<lambda>l.
    r_bind (assertNotComboLine l la_remove) (\<lambda>_.
    r_bind (assertLineNotSent d l) (\<lambda>_.
    r_bind (assertBillHasNoPayments d orderId) (\<lambda>_.
      let d1 = d\<lparr>orderLines := filter (\<lambda>y. ol_id y \<noteq> lineId \<and> ol_parentLineId y \<noteq> Some lineId) (orderLines d)\<rparr>
      in Inr (buildOrderView d1 x, d1))))))))"

definition void_lines :: "env \<Rightarrow> uuid list \<Rightarrow> string \<Rightarrow> db \<Rightarrow> db" where
  "void_lines e ids reason d =
    d\<lparr>orderLines := update_rows (\<lambda>l. ol_id l \<in> set ids) (\<lambda>l. l\<lparr>ol_voidedAt := Some (now e), ol_voidReason := Some reason\<rparr>) (orderLines d),
      ticketLines := update_rows (\<lambda>k. tl_orderLineId k \<in> set ids) (\<lambda>k. k\<lparr>tl_voided := True\<rparr>) (ticketLines d)\<rparr>"

definition void_checks :: "pos_principal \<Rightarrow> uuid \<Rightarrow> uuid \<Rightarrow> db \<Rightarrow> (order \<times> uuid list) result" where
  "void_checks staff orderId lineId d =
    r_bind (loadOrder d (pp_tenantId staff) orderId) (\<lambda>x.
    r_bind (assertOwner x staff) (\<lambda>_.
    r_bind (assertOrderNotClosed x) (\<lambda>_.
    r_bind (loadOrderLine d (pp_tenantId staff) orderId lineId) (\<lambda>l.
      if ol_parentLineId l \<noteq> None then Inl (Conflict ''combo_locked'')
      else let ids = lineAndChildIds d l in
        if \<not> isSentToKitchen d ids then Inl (Conflict ''line_not_sent'')
        else r_bind (assertBillHasNoPayments d orderId) (\<lambda>_. Inr (x, ids))))))"

definition voidLine ::
  "env \<Rightarrow> pos_principal \<Rightarrow> uuid \<Rightarrow> uuid \<Rightarrow> string \<Rightarrow> string \<Rightarrow> db \<Rightarrow> attempts \<Rightarrow> (order_view \<times> db) result \<times> attempts" where
  "voidLine e staff orderId lineId managerPin reason d a =
    (case void_checks staff orderId lineId d of
       Inl err \<Rightarrow> (Inl err, a)
     | Inr (x, ids) \<Rightarrow>
         (case authorize e d a_void_after_fire (pp_tenantId staff) (o_outletId x) managerPin (str_trim reason) (pp_id staff) a of
            (Inl err, a1) \<Rightarrow> (Inl err, a1)
          | (Inr ap, a1) \<Rightarrow>
              (let d1 = recordApproval ap (Some (pp_id staff)) (pp_name staff) (now e) (void_lines e ids (str_trim reason) d)
               in (Inr (buildOrderView d1 x, d1), a1))))"

section \<open>What editing an order's lines may change\<close>

definition line_wf :: "order_line \<Rightarrow> bool" where
  "line_wf l \<longleftrightarrow> 0 < ol_quantity l \<and> 0 \<le> ol_unitPriceMinor l \<and> (\<forall>m \<in> set (ol_modifiers l). 0 \<le> om_priceMinor m)"

definition lines_wf :: "db \<Rightarrow> bool" where
  "lines_wf d \<longleftrightarrow> keys_ok (nextId d) (map ol_id (orderLines d)) \<and> (\<forall>l \<in> set (orderLines d). line_wf l) \<and>
     (\<forall>c \<in> set (orderLines d). \<forall>k. ol_parentLineId c = Some k \<longrightarrow> k < nextId d) \<and>
     (\<forall>c \<in> set (orderLines d). \<forall>p \<in> set (orderLines d). ol_parentLineId c = Some (ol_id p) \<longrightarrow> ol_orderId c = ol_orderId p)"

definition menu_ok :: "db \<Rightarrow> bool" where
  "menu_ok d \<longleftrightarrow> (\<forall>p \<in> set (itemPrices d). 0 \<le> ip_priceMinor p) \<and> (\<forall>m \<in> set (modifiers d). 0 \<le> mo_priceMinor m) \<and>
     (\<forall>c \<in> set (combos d). 0 \<le> cb_priceMinor c \<and>
        (\<forall>s \<in> set (cb_slots c). 0 < cs_pickCount s \<and> (\<forall>x \<in> set (cs_options s). 0 \<le> co_upchargeMinor x)))"

text \<open>Only lines of one order change, and that order is not closed.\<close>

definition edits_lines :: "uuid \<Rightarrow> db \<Rightarrow> db \<Rightarrow> bool" where
  "edits_lines k d d' \<longleftrightarrow> orders d' = orders d \<and> bills d' = bills d \<and> tenders d' = tenders d \<and> intents d' = intents d \<and>
     creditNotes d' = creditNotes d \<and> billCounters d' = billCounters d \<and> shifts d' = shifts d \<and> billShares d' = billShares d \<and>
     itemPrices d' = itemPrices d \<and> modifiers d' = modifiers d \<and> combos d' = combos d \<and> tableSessions d' = tableSessions d \<and>
     cartLines d' = cartLines d \<and> nextId d \<le> nextId d' \<and>
     filter (\<lambda>l. ol_orderId l \<noteq> k) (orderLines d') = filter (\<lambda>l. ol_orderId l \<noteq> k) (orderLines d)"

lemma edits_lines_keeps:
  assumes "edits_lines k d d'"
  shows "books_ok d \<Longrightarrow> books_ok d'" "ledger_grows d d'" "floor_ok d \<Longrightarrow> floor_ok d'" "payments_ok d \<Longrightarrow> payments_ok d'"
    "menu_ok d \<Longrightarrow> menu_ok d'" "j \<noteq> k \<Longrightarrow> live_lines d' j = live_lines d j"
proof -
  show "books_ok d \<Longrightarrow> books_ok d'" "ledger_grows d d'" "floor_ok d \<Longrightarrow> floor_ok d'" "menu_ok d \<Longrightarrow> menu_ok d'"
    using assms by (auto simp: edits_lines_def menu_ok_def intro: books_ok_frame ledger_grows_frame floor_ok_frame)
  show "payments_ok d'" if "payments_ok d"
    by (rule payments_ok_frame [OF that, of _ "[]"]) (use assms in \<open>simp_all add: edits_lines_def\<close>)
  show "live_lines d' j = live_lines d j" if "j \<noteq> k"
  proof -
    have "live_lines e j = filter (\<lambda>l. ol_orderId l = j \<and> ol_voidedAt l = None) (filter (\<lambda>l. ol_orderId l \<noteq> k) (orderLines e))" for e
      unfolding live_lines_def filter_filter using that by (intro filter_cong) auto
    moreover have "filter (\<lambda>l. ol_orderId l \<noteq> k) (orderLines d') = filter (\<lambda>l. ol_orderId l \<noteq> k) (orderLines d)"
      using assms by (simp add: edits_lines_def)
    ultimately show ?thesis by (simp only:)
  qed
qed

lemma edits_lines_refl: "edits_lines k d d"
  by (simp add: edits_lines_def)

lemma edits_lines_trans: "edits_lines k a b \<Longrightarrow> edits_lines k b c \<Longrightarrow> edits_lines k a c"
  by (simp add: edits_lines_def)

lemma new_modifiers_prices: "m \<in> set (new_modifiers n prices ids) \<Longrightarrow> \<exists>i \<in> set ids. om_priceMinor m = nullish (prices i) 0"
  by (auto simp: new_modifiers_def in_set_enumerate_eq)

lemma new_modifiers_sum: "sum_rows om_priceMinor (new_modifiers n prices ids) = sum_rows (\<lambda>i. nullish (prices i) 0) ids"
proof -
  have "map (\<lambda>(i, m). f m) (enumerate 0 ids) = map f ids" for f :: "uuid \<Rightarrow> int"
    by (metis (no_types, lifting) comp_apply map_map map_snd_enumerate case_prod_unfold map_eq_conv)
  from this [of "\<lambda>i. nullish (prices i) 0"] show ?thesis
    by (simp add: new_modifiers_def sum_rows_def comp_def case_prod_unfold)
qed

lemma modifier_prices_nonneg: "menu_ok d \<Longrightarrow> 0 \<le> nullish (resolveModifierPrices d t ids i) 0"
  by (auto simp: resolveModifierPrices_def menu_ok_def split: option.splits dest!: find_SomeD)

lemma insert_line_effect:
  assumes "insert_line l prices ids d = (i, d')"
  obtains l' where "d' = d\<lparr>nextId := Suc (nextId d) + length ids, orderLines := orderLines d @ [l']\<rparr>" "i = nextId d"
    "l' = l\<lparr>ol_id := nextId d, ol_modifiers := new_modifiers (Suc (nextId d)) prices ids\<rparr>"
proof -
  let ?l = "l\<lparr>ol_id := nextId d, ol_modifiers := new_modifiers (Suc (nextId d)) prices ids\<rparr>"
  have "d' = d\<lparr>nextId := Suc (nextId d) + length ids, orderLines := orderLines d @ [?l]\<rparr>" "i = nextId d"
    using assms by (auto simp: insert_line_def take_id_def)
  then show thesis using that [of ?l] by simp
qed

lemma insert_line_keeps:
  assumes "insert_line l prices ids d = (i, d')" and "lines_wf d" and "0 < ol_quantity l" "0 \<le> ol_unitPriceMinor l"
    and "\<And>j. 0 \<le> nullish (prices j) 0" and "ol_orderId l = k"
    and "\<And>p. ol_parentLineId l = Some p \<Longrightarrow> \<exists>x \<in> set (orderLines d). ol_id x = p \<and> ol_orderId x = k"
  shows "lines_wf d'" "edits_lines k d d'" "\<exists>x \<in> set (orderLines d'). ol_id x = i \<and> ol_orderId x = k" "orderLines d' \<noteq> []"
    "set (orderLines d) \<subseteq> set (orderLines d')" "ticketLines d' = ticketLines d"
proof -
  obtain l' where e: "d' = d\<lparr>nextId := Suc (nextId d) + length ids, orderLines := orderLines d @ [l']\<rparr>" "i = nextId d"
    "l' = l\<lparr>ol_id := nextId d, ol_modifiers := new_modifiers (Suc (nextId d)) prices ids\<rparr>"
    using assms(1) by (rule insert_line_effect)
  have wf: "keys_ok (nextId d) (map ol_id (orderLines d))" "\<And>l. l \<in> set (orderLines d) \<Longrightarrow> line_wf l"
    "\<And>c p. c \<in> set (orderLines d) \<Longrightarrow> ol_parentLineId c = Some p \<Longrightarrow> p < nextId d"
    "\<And>c p. c \<in> set (orderLines d) \<Longrightarrow> p \<in> set (orderLines d) \<Longrightarrow> ol_parentLineId c = Some (ol_id p) \<Longrightarrow> ol_orderId c = ol_orderId p"
    using assms(2) by (auto simp: lines_wf_def)
  have keys: "keys_ok (nextId d') (map ol_id (orderLines d'))"
    using keys_ok_mono [OF keys_ok_append [OF wf(1)], of "nextId d'"] by (simp add: e)
  have lw: "line_wf l'" using assms(3,4,5) e(3) new_modifiers_prices by (auto simp: line_wf_def) metis
  have old: "ol_id p < nextId d" if "p \<in> set (orderLines d)" for p using wf(1) that by (auto simp: keys_ok_def)
  have par: "p < nextId d" if "ol_parentLineId l' = Some p" for p
    using assms(7) [of p] that e(3) old by auto
  have ord: "ol_orderId c = ol_orderId p"
    if c: "c \<in> set (orderLines d')" and pp: "p \<in> set (orderLines d')" and cp: "ol_parentLineId c = Some (ol_id p)" for c p
  proof (cases "p = l'")
    case True
    then have "ol_parentLineId c = Some (nextId d)" using cp e(3) by simp
    then show ?thesis using c wf(3) [of c "nextId d"] par [of "nextId d"] e(1) by auto
  next
    case False
    then have p: "p \<in> set (orderLines d)" using pp e(1) by auto
    show ?thesis
    proof (cases "c = l'")
      case True
      then obtain x where "x \<in> set (orderLines d)" "ol_id x = ol_id p" "ol_orderId x = k"
        using assms(7) [of "ol_id p"] cp e(3) by auto
      then have "x = p" using wf(1) p by (auto simp: keys_ok_def distinct_map dest: inj_onD)
      then show ?thesis using True e(3) assms(6) \<open>ol_orderId x = k\<close> by simp
    next
      case False
      then show ?thesis using c p cp e(1) wf(4) by auto
    qed
  qed
  have "p < nextId d'" if "c \<in> set (orderLines d')" "ol_parentLineId c = Some p" for c p
    using that wf(3) [of c p] par [of p] e(1) by auto
  moreover have "line_wf x" if "x \<in> set (orderLines d')" for x using that wf(2) lw e(1) by auto
  ultimately show "lines_wf d'" unfolding lines_wf_def using keys ord by blast
  show "edits_lines k d d'" using e assms(6) by (simp add: edits_lines_def)
  show "\<exists>x \<in> set (orderLines d'). ol_id x = i \<and> ol_orderId x = k" using e assms(6) by auto
qed (use assms(1) in \<open>auto simp: insert_line_def take_id_def Let_def\<close>)

section \<open>The handlers\<close>

definition open_order :: "db \<Rightarrow> uuid \<Rightarrow> bool" where
  "open_order d k \<longleftrightarrow> (\<exists>x \<in> set (orders d). o_id x = k \<and> o_status x \<noteq> o_closed)"

lemma open_orderI:
  assumes "loadOrder d t k = Inr x" and "assertOrderNotClosed x = Inr u"
  shows "open_order d k"
  using order_loader.load_member [OF assms(1)] assms(2) by (auto simp: open_order_def assertOrderNotClosed_def split: if_splits)

lemma first_price_member: "first_price f cs = Some p \<Longrightarrow> \<exists>c \<in> set cs. f c = Some p"
  by (induction cs) (auto split: option.splits)

lemma foldl_pick_member:
  "fst (foldl (pick_step target t) (best, s) cs) = Some r \<Longrightarrow> Some r = best \<or> r \<in> set cs"
proof (induction cs arbitrary: best s)
  case Nil
  then show ?case by simp
next
  case (Cons c cs)
  obtain b1 s1 where st: "pick_step target t (best, s) c = (b1, s1)" by fastforce
  then have "b1 = best \<or> b1 = Some c" by (auto simp: Let_def split: if_splits)
  with Cons.IH [of b1 s1] Cons.prems st show ?case by auto
qed

lemma current_price_member: "resolveCurrentPrice e d t i v c out = Some p \<Longrightarrow> p \<in> set (itemPrices d)"
  unfolding resolveCurrentPrice_def pickCurrentPrice_def by (drule foldl_pick_member) auto

lemma addLine_Inr:
  assumes "addLine e staff k dto d = Inr (v, d')"
  obtains x item price l where "loadOrder d (pp_tenantId staff) k = Inr x" "assertOwner x staff = Inr ()" "assertOrderNotClosed x = Inr ()"
    "loadItemForOrderLine d (pp_tenantId staff) (al_itemId dto) = Inr item" "assertItemAvailable d (o_outletId x) item = Inr ()"
    "assertModifierSelectionValid item (nullish (al_modifierIds dto) []) = Inr ()"
    "first_price (\<lambda>c. resolveCurrentPrice e d (pp_tenantId staff) (al_itemId dto) (al_variantId dto) c (Some (o_outletId x))) (orderPriceChannels x) = Some price"
    "l = (line_of e (pp_tenantId staff) k (Some (pp_id staff)) (al_seatNumber dto) (al_quantity dto) (ip_priceMinor price))
           \<lparr>ol_itemId := Some (al_itemId dto), ol_variantId := al_variantId dto, ol_note := trimmed_note (al_note dto)\<rparr>"
    "d' = snd (insert_line l (resolveModifierPrices d (pp_tenantId staff) (nullish (al_modifierIds dto) [])) (nullish (al_modifierIds dto) []) d)"
    "v = buildOrderView d' x"
proof -
  obtain x item where x: "loadOrder d (pp_tenantId staff) k = Inr x" "assertOwner x staff = Inr ()" "assertOrderNotClosed x = Inr ()"
    "loadItemForOrderLine d (pp_tenantId staff) (al_itemId dto) = Inr item" "assertItemAvailable d (o_outletId x) item = Inr ()"
    "assertModifierSelectionValid item (nullish (al_modifierIds dto) []) = Inr ()" "assertVariantBelongsToItem item (al_variantId dto) = Inr ()"
    using assms unfolding addLine_def by (auto simp: r_bind_eq_Inr Let_def)
  then obtain price where p: "first_price (\<lambda>c. resolveCurrentPrice e d (pp_tenantId staff) (al_itemId dto) (al_variantId dto) c (Some (o_outletId x)))
      (orderPriceChannels x) = Some price"
    using assms by (auto simp: addLine_def Let_def split: option.splits)
  show thesis
    by (rule that [OF x(1-6) p refl]) (use assms x p in \<open>auto simp: addLine_def Let_def split: prod.splits\<close>)
qed

lemma addLine_keeps:
  assumes "addLine e staff k dto d = Inr (v, d')" and "lines_wf d" and "menu_ok d" and "0 < al_quantity dto"
  shows "lines_wf d'" "edits_lines k d d'" "open_order d k" "set (orderLines d) \<subseteq> set (orderLines d')" "ticketLines d' = ticketLines d"
proof -
  obtain x item price l where c: "loadOrder d (pp_tenantId staff) k = Inr x" "assertOrderNotClosed x = Inr ()"
    "first_price (\<lambda>c. resolveCurrentPrice e d (pp_tenantId staff) (al_itemId dto) (al_variantId dto) c (Some (o_outletId x))) (orderPriceChannels x) = Some price"
    "l = (line_of e (pp_tenantId staff) k (Some (pp_id staff)) (al_seatNumber dto) (al_quantity dto) (ip_priceMinor price))
           \<lparr>ol_itemId := Some (al_itemId dto), ol_variantId := al_variantId dto, ol_note := trimmed_note (al_note dto)\<rparr>"
    "d' = snd (insert_line l (resolveModifierPrices d (pp_tenantId staff) (nullish (al_modifierIds dto) [])) (nullish (al_modifierIds dto) []) d)"
    using assms(1) by (rule addLine_Inr) (rule that)
  have "price \<in> set (itemPrices d)" using first_price_member [OF c(3)] current_price_member by blast
  then have pr: "0 \<le> ip_priceMinor price" using assms(3) by (simp add: menu_ok_def)
  have ins: "insert_line l (resolveModifierPrices d (pp_tenantId staff) (nullish (al_modifierIds dto) [])) (nullish (al_modifierIds dto) []) d = (nextId d, d')"
    unfolding c(5) by (simp add: insert_line_def take_id_def)
  have l: "ol_orderId l = k" "ol_quantity l = al_quantity dto" "ol_unitPriceMinor l = ip_priceMinor price" "ol_parentLineId l = None"
    using c(4) by (simp_all add: line_of_def)
  note r = insert_line_keeps [OF ins assms(2) _ _ modifier_prices_nonneg [OF assms(3)] l(1)]
  show "lines_wf d'" "edits_lines k d d'" "set (orderLines d) \<subseteq> set (orderLines d')" "ticketLines d' = ticketLines d"
    using r l pr assms(4) by simp_all
  show "open_order d k" using c(1,2) by (rule open_orderI)
qed

lemma fill_slots_positive:
  assumes "fill_slots slots picks = Inr picks'" and "\<forall>p \<in> set picks. 0 < pk_quantity p" and "\<forall>s \<in> set slots. 0 < cs_pickCount s"
  shows "\<forall>p \<in> set picks'. 0 < pk_quantity p"
  using assms
proof (induction slots arbitrary: picks)
  case Nil
  then show ?case by simp
next
  case (Cons slot slots)
  let ?p = "\<lparr>pk_slot = slot, pk_option = hd (cs_options slot), pk_quantity = cs_pickCount slot, pk_modifierIds = []\<rparr>"
  have "fill_slots slots (picks @ [?p]) = Inr picks' \<or> fill_slots slots picks = Inr picks'"
    using Cons.prems(1) by (auto simp: Let_def split: if_splits)
  then show ?case using Cons.IH [of "picks @ [?p]"] Cons.IH [of picks] Cons.prems(2,3) by auto
qed

lemma resolve_picks_positive:
  assumes "resolve_picks f sel = Inr picks" and "\<forall>s \<in> set sel. \<forall>q. ci_quantity s = Some q \<longrightarrow> 0 < q"
  shows "\<forall>p \<in> set picks. 0 < pk_quantity p"
  using assms by (induction sel arbitrary: picks) (auto simp: result_simps split: option.splits)

lemma resolved_children_wf:
  assumes "resolveComboSelection d t out cid sel = Inr (c, children)" and "menu_ok d" and "\<forall>s \<in> set sel. \<forall>q. ci_quantity s = Some q \<longrightarrow> 0 < q"
  shows "0 \<le> cb_priceMinor c" "ch \<in> set children \<Longrightarrow> 0 < rc_quantity ch \<and> 0 \<le> rc_upchargeMinor ch"
proof -
  obtain picks0 picks where p: "find_row cb_id cid (combos d) = Some c" "resolve_picks (map_of (rev (combo_options c))) sel = Inr picks0"
    "fill_slots (cb_slots c) picks0 = Inr picks" "resolve_children d (itemAvailability d t (Some out)) picks = Inr children"
    using assms(1) by (rule resolveComboSelection_parts) (rule that)
  have c: "c \<in> set (combos d)" using find_row_Some [OF p(1)] by simp
  then show "0 \<le> cb_priceMinor c" using assms(2) by (simp add: menu_ok_def)
  have slots: "\<forall>s \<in> set (cb_slots c). 0 < cs_pickCount s \<and> (\<forall>x \<in> set (cs_options s). 0 \<le> co_upchargeMinor x)"
    using c assms(2) by (simp add: menu_ok_def)
  have q: "\<forall>x \<in> set picks. 0 < pk_quantity x"
    by (rule fill_slots_positive [OF p(3) resolve_picks_positive [OF p(2) assms(3)]]) (use slots in blast)
  have mem: "pk_slot x \<in> set (cb_slots c) \<and> pk_option x \<in> set (cs_options (pk_slot x))" if "x \<in> set picks" for x
    using fill_slots_extends [OF p(3)] resolve_picks_mem [OF p(2)] that by auto
  show "0 < rc_quantity ch \<and> 0 \<le> rc_upchargeMinor ch" if ch: "ch \<in> set children"
  proof -
    obtain i where i: "i < length children" "ch = children ! i" using ch by (auto simp: in_set_conv_nth)
    have rel: "length picks = length children" "child_of_pick (picks ! i) (children ! i)"
      using resolve_children_rel [OF p(4)] i(1) by (auto simp: list_all2_conv_all_nth)
    then have x: "picks ! i \<in> set picks" using i(1) by simp
    have "0 < pk_quantity (picks ! i)" using q x by blast
    moreover have "0 \<le> co_upchargeMinor (pk_option (picks ! i))" using mem [OF x] slots by blast
    ultimately show ?thesis using rel(2) i(2) by (simp add: child_of_pick_def)
  qed
qed

lemma add_children_keep:
  assumes "lines_wf d" and "menu_ok d" and "\<exists>x \<in> set (orderLines d). ol_id x = parent \<and> ol_orderId x = k" and "0 < ac_quantity dto"
    and "\<forall>ch \<in> set children. 0 < rc_quantity ch \<and> 0 \<le> rc_upchargeMinor ch"
  shows "lines_wf (foldl (\<lambda>s ch. add_combo_child e staff k dto parent ch s) d children) \<and>
    edits_lines k d (foldl (\<lambda>s ch. add_combo_child e staff k dto parent ch s) d children) \<and>
    set (orderLines d) \<subseteq> set (orderLines (foldl (\<lambda>s ch. add_combo_child e staff k dto parent ch s) d children)) \<and>
    ticketLines (foldl (\<lambda>s ch. add_combo_child e staff k dto parent ch s) d children) = ticketLines d"
  using assms
proof (induction children arbitrary: d)
  case Nil
  then show ?case by (simp add: edits_lines_refl)
next
  case (Cons ch children)
  let ?l = "(line_of e (pp_tenantId staff) k (Some (pp_id staff)) (ac_seatNumber dto) (rc_quantity ch * ac_quantity dto)
             (rc_upchargeMinor ch))\<lparr>ol_itemId := Some (rc_itemId ch), ol_variantId := rc_variantId ch, ol_parentLineId := Some parent\<rparr>"
  let ?d1 = "add_combo_child e staff k dto parent ch d"
  have ins: "insert_line ?l (resolveModifierPrices d (pp_tenantId staff) (rc_modifierIds ch)) (rc_modifierIds ch) d = (nextId d, ?d1)"
    by (simp add: add_combo_child_def insert_line_def take_id_def)
  note r = insert_line_keeps [OF ins Cons.prems(1) _ _ modifier_prices_nonneg [OF Cons.prems(2)], of k]
  have one: "lines_wf ?d1" "edits_lines k d ?d1" "set (orderLines d) \<subseteq> set (orderLines ?d1)" "ticketLines ?d1 = ticketLines d"
    using r Cons.prems(3,4,5) by (simp_all add: line_of_def)
  have "menu_ok ?d1" using edits_lines_keeps(5) [OF one(2)] Cons.prems(2) by blast
  moreover have "\<exists>x \<in> set (orderLines ?d1). ol_id x = parent \<and> ol_orderId x = k" using Cons.prems(3) one(3) by blast
  moreover have "\<forall>ch \<in> set children. 0 < rc_quantity ch \<and> 0 \<le> rc_upchargeMinor ch" using Cons.prems(5) by simp
  note rest = Cons.IH [OF one(1) calculation(1,2) Cons.prems(4) this]
  show ?case using rest one edits_lines_trans [OF one(2)] by (simp add: subset_trans)
qed

lemma addCombo_keeps:
  assumes "addCombo e staff k dto d = Inr (v, d')" and "lines_wf d" and "menu_ok d" and "0 < ac_quantity dto"
    and "\<forall>s \<in> set (ac_selections dto). \<forall>q. ci_quantity s = Some q \<longrightarrow> 0 < q"
  shows "lines_wf d'" "edits_lines k d d'" "open_order d k" "set (orderLines d) \<subseteq> set (orderLines d')" "ticketLines d' = ticketLines d"
proof -
  obtain x combo children where c: "loadOrder d (pp_tenantId staff) k = Inr x" "assertOrderNotClosed x = Inr ()"
    "resolveComboSelection d (pp_tenantId staff) (o_outletId x) (ac_comboId dto) (ac_selections dto) = Inr (combo, children)"
    using assms(1) by (auto simp: addCombo_def r_bind_eq_Inr)
  let ?l = "(line_of e (pp_tenantId staff) k (Some (pp_id staff)) (ac_seatNumber dto) (ac_quantity dto) (cb_priceMinor combo))\<lparr>ol_comboId := Some (cb_id combo)\<rparr>"
  obtain parent d1 where ins: "insert_line ?l (\<lambda>_. None) [] d = (parent, d1)" by fastforce
  have d': "d' = foldl (\<lambda>s child. add_combo_child e staff k dto parent child s) d1 children"
    using assms(1) c ins by (auto simp: addCombo_def Let_def result_simps)
  note wf = resolved_children_wf [OF c(3) assms(3,5)]
  note r = insert_line_keeps [OF ins assms(2), of k]
  have one: "lines_wf d1" "edits_lines k d d1" "\<exists>x \<in> set (orderLines d1). ol_id x = parent \<and> ol_orderId x = k"
    "set (orderLines d) \<subseteq> set (orderLines d1)" "ticketLines d1 = ticketLines d"
    using r assms(4) wf(1) by (simp_all add: line_of_def)
  have "menu_ok d1" using edits_lines_keeps(5) [OF one(2)] assms(3) by blast
  note rest = add_children_keep [OF one(1) this one(3) assms(4), of children e staff]
  have all: "\<forall>ch \<in> set children. 0 < rc_quantity ch \<and> 0 \<le> rc_upchargeMinor ch" using wf(2) by blast
  show "lines_wf d'" "edits_lines k d d'" "set (orderLines d) \<subseteq> set (orderLines d')" "ticketLines d' = ticketLines d"
    using rest [OF all] one edits_lines_trans [OF one(2)] unfolding d' by (simp_all add: subset_trans)
  show "open_order d k" using c(1,2) by (rule open_orderI)
qed

section \<open>Changing, removing, voiding\<close>

lemma loadOrderLine_Inr:
  assumes "loadOrderLine d t k j = Inr l"
  shows "find_row ol_id j (orderLines d) = Some l" "l \<in> set (orderLines d)" "ol_id l = j" "ol_orderId l = k" "ol_voidedAt l = None" "ol_tenantId l = t"
  using assms find_row_Some [of ol_id j "orderLines d" l]
  by (auto simp: loadOrderLine_def split: option.splits if_splits)

lemma lines_unique: "lines_wf d \<Longrightarrow> l \<in> set (orderLines d) \<Longrightarrow> y \<in> set (orderLines d) \<Longrightarrow> ol_id y = ol_id l \<Longrightarrow> y = l"
  by (auto simp: lines_wf_def keys_ok_def distinct_map dest: inj_onD)

text \<open>The change \<open>updateLine\<close> makes to its row.\<close>

definition line_change :: "update_line_dto \<Rightarrow> (order_line_modifier list) option \<Rightarrow> order_line \<Rightarrow> order_line" where
  "line_change dto mods y =
    (let y1 = (case ul_quantity dto of None \<Rightarrow> y | Some q \<Rightarrow> y\<lparr>ol_quantity := q\<rparr>);
         y2 = (case ul_seatNumber dto of None \<Rightarrow> y1 | Some s \<Rightarrow> y1\<lparr>ol_seatNumber := Some s\<rparr>)
     in (case mods of None \<Rightarrow> y2 | Some ms \<Rightarrow> y2\<lparr>ol_modifiers := ms\<rparr>))"

lemma line_change_fields [simp]:
  "ol_id (line_change dto mods y) = ol_id y" "ol_orderId (line_change dto mods y) = ol_orderId y"
  "ol_parentLineId (line_change dto mods y) = ol_parentLineId y" "ol_voidedAt (line_change dto mods y) = ol_voidedAt y"
  "ol_unitPriceMinor (line_change dto mods y) = ol_unitPriceMinor y" "ol_quantity (line_change dto mods y) = nullish (ul_quantity dto) (ol_quantity y)"
  "ol_modifiers (line_change dto mods y) = nullish mods (ol_modifiers y)"
  by (simp_all add: line_change_def Let_def split: option.splits)

lemma set_line_again: "(\<And>y. ol_id (f y) = ol_id y) \<Longrightarrow> set_line j g (set_line j f d) = set_line j (\<lambda>y. g (f y)) d"
  by (simp add: set_line_def update_rows_again)

lemma assertBillHasNoPayments_same:
  assumes "bills d' = bills d" "tenders d' = tenders d" "intents d' = intents d" "billShares d' = billShares d"
  shows "assertBillHasNoPayments d' k = assertBillHasNoPayments d k"
proof -
  have "bill_payments d' = bill_payments d" by (rule ext) (simp add: bill_payments_def assms)
  then show ?thesis unfolding assertBillHasNoPayments_def assms(1) by (rule ssubst) (rule refl)
qed

lemma set_line_same:
  "resolveModifierPrices (set_line j f d) t ids = resolveModifierPrices d t ids" "nextId (set_line j f d) = nextId d"
  "assertBillHasNoPayments (set_line j f d) k = assertBillHasNoPayments d k"
proof -
  show "resolveModifierPrices (set_line j f d) t ids = resolveModifierPrices d t ids" by (rule ext) (simp add: set_line_def resolveModifierPrices_def)
  show "nextId (set_line j f d) = nextId d" by (simp add: set_line_def)
  show "assertBillHasNoPayments (set_line j f d) k = assertBillHasNoPayments d k"
    by (rule assertBillHasNoPayments_same) (simp_all add: set_line_def)
qed

lemma change_modifiers_Inr:
  assumes "change_modifiers staff k l ids d = Inr d'"
  shows "d' = (set_line (ol_id l) (\<lambda>y. y\<lparr>ol_modifiers := new_modifiers (nextId d) (resolveModifierPrices d (pp_tenantId staff) ids) ids\<rparr>) d)
      \<lparr>nextId := nextId d + length ids\<rparr>"
    "sum_rows om_priceMinor (new_modifiers n (resolveModifierPrices d (pp_tenantId staff) ids) ids) < sum_rows om_priceMinor (ol_modifiers l) \<longrightarrow>
      assertBillHasNoPayments d k = Inr ()"
  using assms by (auto simp: change_modifiers_def Let_def result_simps new_modifiers_sum split: option.splits if_splits)

lemma updateLine_Inr:
  assumes "updateLine staff k j dto d = Inr (v, d')"
  obtains x l n mods where "loadOrder d (pp_tenantId staff) k = Inr x" "assertOrderNotClosed x = Inr ()"
    "loadOrderLine d (pp_tenantId staff) k j = Inr l" "ol_comboId l = None" "ol_parentLineId l = None" "\<not> isSentToKitchen d (lineAndChildIds d l)"
    "d' = (set_line j (line_change dto mods) d)\<lparr>nextId := nextId d + n\<rparr>"
    "\<forall>q. ul_quantity dto = Some q \<and> q < ol_quantity l \<longrightarrow> assertBillHasNoPayments d k = Inr ()"
    "\<forall>ms. mods = Some ms \<longrightarrow> (sum_rows om_priceMinor ms < sum_rows om_priceMinor (ol_modifiers l) \<longrightarrow> assertBillHasNoPayments d k = Inr ()) \<and>
       (\<exists>m ids. ms = new_modifiers m (resolveModifierPrices d (pp_tenantId staff) ids) ids)"
proof -
  obtain x l where c: "loadOrder d (pp_tenantId staff) k = Inr x" "assertOwner x staff = Inr ()" "assertOrderNotClosed x = Inr ()"
    "loadOrderLine d (pp_tenantId staff) k j = Inr l" "assertNotComboLine l la_change = Inr ()" "assertLineNotSent d l = Inr ()"
    using assms by (auto simp: updateLine_def r_bind_eq_Inr)
  have q: "\<forall>q. ul_quantity dto = Some q \<and> q < ol_quantity l \<longrightarrow> assertBillHasNoPayments d k = Inr ()"
    using assms c by (auto simp: updateLine_def r_bind_eq_Inr)
  have combo: "ol_comboId l = None" "ol_parentLineId l = None" using c(5) by (auto simp: assertNotComboLine_def split: if_splits)
  have sent: "\<not> isSentToKitchen d (lineAndChildIds d l)" using c(6) by (auto simp: assertLineNotSent_def split: if_splits)
  note lj = loadOrderLine_Inr [OF c(4)]
  let ?d1 = "case ul_quantity dto of None \<Rightarrow> d | Some q \<Rightarrow> set_line j (\<lambda>y. y\<lparr>ol_quantity := q\<rparr>) d"
  let ?d2 = "case ul_seatNumber dto of None \<Rightarrow> ?d1 | Some s \<Rightarrow> set_line j (\<lambda>y. y\<lparr>ol_seatNumber := Some s\<rparr>) ?d1"
  have d2: "?d2 = set_line j (line_change dto None) d"
    by (cases "ul_quantity dto"; cases "ul_seatNumber dto")
      (simp_all add: set_line_def update_rows_again line_change_def [abs_def] Let_def, simp add: update_rows_def)
  have m: "(case ul_modifierIds dto of None \<Rightarrow> Inr ?d2 | Some ids \<Rightarrow> change_modifiers staff k l ids ?d2) = Inr d'"
  proof -
    have "r_bind (case ul_quantity dto of None \<Rightarrow> Inr () | Some q \<Rightarrow> if q < ol_quantity l then assertBillHasNoPayments d k else Inr ())
      (\<lambda>_. r_bind (case ul_modifierIds dto of None \<Rightarrow> Inr ?d2 | Some ids \<Rightarrow> change_modifiers staff k l ids ?d2)
        (\<lambda>d3. Inr (buildOrderView d3 x, d3))) = Inr (v, d')"
      using assms unfolding updateLine_def Let_def c r_bind_Inr .
    then show ?thesis by (auto simp: r_bind_eq_Inr)
  qed
  obtain s2 where s2: "s2 = set_line j (line_change dto None) d"
    and m2: "(case ul_modifierIds dto of None \<Rightarrow> Inr s2 | Some ids \<Rightarrow> change_modifiers staff k l ids s2) = Inr d'"
    using m unfolding d2 by blast
  show thesis
  proof (cases "ul_modifierIds dto")
    case None
    with m2 have "d' = (set_line j (line_change dto None) d)\<lparr>nextId := nextId d + 0\<rparr>" by (auto simp: s2 set_line_def)
    with c q combo sent show thesis by (intro that [of x l 0 None]) simp_all
  next
    case (Some ids)
    let ?ms = "new_modifiers (nextId d) (resolveModifierPrices d (pp_tenantId staff) ids) ids"
    have same: "resolveModifierPrices s2 (pp_tenantId staff) ids = resolveModifierPrices d (pp_tenantId staff) ids" "nextId s2 = nextId d"
      "assertBillHasNoPayments s2 k = assertBillHasNoPayments d k"
      unfolding s2 by (simp_all only: set_line_same)
    have ch: "change_modifiers staff k l ids s2 = Inr d'" using m2 Some by simp
    have "set_line j (\<lambda>y. y\<lparr>ol_modifiers := ?ms\<rparr>) s2 = set_line j (line_change dto (Some ?ms)) d"
      unfolding s2 by (subst set_line_again) (simp_all only: line_change_fields, simp add: line_change_def [abs_def] Let_def)
    then have "d' = (set_line j (line_change dto (Some ?ms)) d)\<lparr>nextId := nextId d + length ids\<rparr>"
      using change_modifiers_Inr(1) [OF ch] unfolding same lj(3) by simp
    moreover have "sum_rows om_priceMinor ?ms < sum_rows om_priceMinor (ol_modifiers l) \<longrightarrow> assertBillHasNoPayments d k = Inr ()"
      using change_modifiers_Inr(2) [OF ch, of "nextId d"] unfolding same .
    ultimately have upd: "d' = (set_line j (line_change dto (Some ?ms)) d)\<lparr>nextId := nextId d + length ids\<rparr>"
      and pay: "sum_rows om_priceMinor ?ms < sum_rows om_priceMinor (ol_modifiers l) \<longrightarrow> assertBillHasNoPayments d k = Inr ()" by blast+
    have "\<forall>ms. Some ?ms = Some ms \<longrightarrow> (sum_rows om_priceMinor ms < sum_rows om_priceMinor (ol_modifiers l) \<longrightarrow> assertBillHasNoPayments d k = Inr ()) \<and>
       (\<exists>m ids. ms = new_modifiers m (resolveModifierPrices d (pp_tenantId staff) ids) ids)"
      using pay by (metis option.inject)
    then show thesis by (rule that [OF c(1,3,4) combo sent upd q])
  qed
qed

lemma filter_update_rows_outside:
  assumes "\<And>r. r \<in> set rs \<Longrightarrow> p r \<Longrightarrow> \<not> q r \<and> \<not> q (f r)"
  shows "filter q (update_rows p f rs) = filter q rs"
  using assms by (induction rs) (auto simp: update_rows_def)

lemma updateLine_keeps:
  assumes "updateLine staff k j dto d = Inr (v, d')" and "lines_wf d" and "menu_ok d" and "\<forall>q. ul_quantity dto = Some q \<longrightarrow> 0 < q"
  shows "lines_wf d'" "edits_lines k d d'" "open_order d k" "ticketLines d' = ticketLines d"
    "\<forall>t \<in> set (ticketLines d). \<forall>l \<in> set (orderLines d). ol_id l = tl_orderLineId t \<longrightarrow> l \<in> set (orderLines d')"
proof -
  obtain x l n mods where c: "loadOrder d (pp_tenantId staff) k = Inr x" "assertOrderNotClosed x = Inr ()"
    "loadOrderLine d (pp_tenantId staff) k j = Inr l" "\<not> isSentToKitchen d (lineAndChildIds d l)"
    "d' = (set_line j (line_change dto mods) d)\<lparr>nextId := nextId d + n\<rparr>"
    "\<forall>ms. mods = Some ms \<longrightarrow> (sum_rows om_priceMinor ms < sum_rows om_priceMinor (ol_modifiers l) \<longrightarrow> assertBillHasNoPayments d k = Inr ()) \<and>
       (\<exists>m ids. ms = new_modifiers m (resolveModifierPrices d (pp_tenantId staff) ids) ids)"
    using assms(1) by (rule updateLine_Inr) (rule that)
  note lj = loadOrderLine_Inr [OF c(3)]
  have uniq: "y = l" if "y \<in> set (orderLines d)" "ol_id y = j" for y
    using lines_unique [OF assms(2) lj(2) that(1)] that(2) lj(3) by simp
  have ols: "orderLines d' = update_rows (\<lambda>y. ol_id y = j) (line_change dto mods) (orderLines d)" "nextId d' = nextId d + n"
    using c(5) by (simp_all add: set_line_def)
  have ids: "map ol_id (orderLines d') = map ol_id (orderLines d)" unfolding ols by simp
  have orig: "\<exists>z \<in> set (orderLines d). ol_id y = ol_id z \<and> ol_orderId y = ol_orderId z \<and> ol_parentLineId y = ol_parentLineId z"
    if y: "y \<in> set (orderLines d')" for y
    using y unfolding ols set_update_rows by force
  have "line_wf l" using assms(2) lj(2) by (simp add: lines_wf_def)
  moreover have "0 \<le> om_priceMinor m" if "mods = Some ms" "m \<in> set ms" for ms m
    using c(6) that new_modifiers_prices modifier_prices_nonneg [OF assms(3)] by (metis (no_types, lifting))
  ultimately have lw: "line_wf (line_change dto mods l)"
    using assms(4) by (cases mods; cases "ul_quantity dto") (simp_all add: line_wf_def)
  have wf: "line_wf y" if "y \<in> set (orderLines d')" for y
  proof -
    obtain z where z: "z \<in> set (orderLines d)" "y = (if ol_id z = j then line_change dto mods z else z)"
      using \<open>y \<in> set (orderLines d')\<close> unfolding ols set_update_rows by auto
    then show ?thesis using uniq [OF z(1)] lw assms(2) by (cases "ol_id z = j") (auto simp: lines_wf_def)
  qed
  have "keys_ok (nextId d') (map ol_id (orderLines d'))"
    unfolding ids ols(2) using assms(2) by (auto simp: lines_wf_def intro: keys_ok_mono)
  moreover have "p < nextId d'" if "y \<in> set (orderLines d')" "ol_parentLineId y = Some p" for y p
    using orig [OF that(1)] that(2) assms(2) unfolding lines_wf_def ols(2) by (metis trans_less_add1)
  moreover have "ol_orderId y = ol_orderId p" if "y \<in> set (orderLines d')" "p \<in> set (orderLines d')" "ol_parentLineId y = Some (ol_id p)" for y p
    using orig [OF that(1)] orig [OF that(2)] that(3) assms(2) unfolding lines_wf_def by metis
  ultimately show "lines_wf d'" unfolding lines_wf_def using wf by blast
  have "filter (\<lambda>y. ol_orderId y \<noteq> k) (orderLines d') = filter (\<lambda>y. ol_orderId y \<noteq> k) (orderLines d)"
    unfolding ols by (rule filter_update_rows_outside) (use uniq lj(4) in auto)
  then show "edits_lines k d d'" using c(5) by (simp add: edits_lines_def set_line_def)
  show "open_order d k" using c(1,2) by (rule open_orderI)
  show "ticketLines d' = ticketLines d" using c(5) by (simp add: set_line_def)
  have "tl_orderLineId t \<noteq> j" if "t \<in> set (ticketLines d)" for t
    using c(4) that lj(3) by (auto simp: isSentToKitchen_def lineAndChildIds_def count_rows_def filter_empty_conv)
  then show "\<forall>t \<in> set (ticketLines d). \<forall>l \<in> set (orderLines d). ol_id l = tl_orderLineId t \<longrightarrow> l \<in> set (orderLines d')"
    unfolding ols set_update_rows by force
qed

lemma removeLine_Inr:
  assumes "removeLine staff k j d = Inr (v, d')"
  obtains x l where "loadOrder d (pp_tenantId staff) k = Inr x" "assertOrderNotClosed x = Inr ()"
    "loadOrderLine d (pp_tenantId staff) k j = Inr l" "\<not> isSentToKitchen d (lineAndChildIds d l)" "assertBillHasNoPayments d k = Inr ()"
    "d' = d\<lparr>orderLines := filter (\<lambda>y. ol_id y \<noteq> j \<and> ol_parentLineId y \<noteq> Some j) (orderLines d)\<rparr>"
  using assms by (auto simp: removeLine_def r_bind_eq_Inr Let_def assertLineNotSent_def split: if_splits)

lemma removeLine_keeps:
  assumes "removeLine staff k j d = Inr (v, d')" and "lines_wf d"
  shows "lines_wf d'" "edits_lines k d d'" "open_order d k" "ticketLines d' = ticketLines d"
    "\<forall>t \<in> set (ticketLines d). \<forall>l \<in> set (orderLines d). ol_id l = tl_orderLineId t \<longrightarrow> l \<in> set (orderLines d')"
proof -
  obtain x l where c: "loadOrder d (pp_tenantId staff) k = Inr x" "assertOrderNotClosed x = Inr ()"
    "loadOrderLine d (pp_tenantId staff) k j = Inr l" "\<not> isSentToKitchen d (lineAndChildIds d l)"
    "d' = d\<lparr>orderLines := filter (\<lambda>y. ol_id y \<noteq> j \<and> ol_parentLineId y \<noteq> Some j) (orderLines d)\<rparr>"
    using assms(1) by (rule removeLine_Inr) (rule that)
  note lj = loadOrderLine_Inr [OF c(3)]
  show "lines_wf d'"
    using assms(2) unfolding c(5) lines_wf_def by (simp add: keys_ok_filter) blast
  have "ol_orderId y = k" if "y \<in> set (orderLines d)" "ol_id y = j \<or> ol_parentLineId y = Some j" for y
    using that(2)
  proof
    assume "ol_id y = j"
    then show ?thesis using lines_unique [OF assms(2) lj(2) that(1)] lj(3,4) by simp
  next
    assume "ol_parentLineId y = Some j"
    then have "ol_parentLineId y = Some (ol_id l)" using lj(3) by simp
    then show ?thesis using assms(2) that(1) lj(2,4) unfolding lines_wf_def by metis
  qed
  then have "filter (\<lambda>y. ol_orderId y \<noteq> k) (orderLines d') = filter (\<lambda>y. ol_orderId y \<noteq> k) (orderLines d)"
    unfolding c(5) by (auto simp: filter_filter intro!: filter_cong)
  then show "edits_lines k d d'" using c(5) by (simp add: edits_lines_def)
  show "open_order d k" using c(1,2) by (rule open_orderI)
  show "ticketLines d' = ticketLines d" using c(5) by simp
  have "tl_orderLineId t \<noteq> ol_id y" if "t \<in> set (ticketLines d)" "y \<in> set (orderLines d)" "ol_id y = j \<or> ol_parentLineId y = Some j" for t y
    using c(4) that lj(3) by (auto simp: isSentToKitchen_def lineAndChildIds_def count_rows_def filter_empty_conv)
  then have "l \<in> set (orderLines d')" if "t \<in> set (ticketLines d)" "l \<in> set (orderLines d)" "ol_id l = tl_orderLineId t" for t l
  proof -
    have "\<not> (ol_id l = j \<or> ol_parentLineId l = Some j)"
      using \<open>\<And>t y. t \<in> set (ticketLines d) \<Longrightarrow> y \<in> set (orderLines d) \<Longrightarrow> ol_id y = j \<or> ol_parentLineId y = Some j \<Longrightarrow> tl_orderLineId t \<noteq> ol_id y\<close> [OF that(1,2)]
        that(3) by metis
    then show ?thesis using that(2) c(5) by simp
  qed
  then show "\<forall>t \<in> set (ticketLines d). \<forall>l \<in> set (orderLines d). ol_id l = tl_orderLineId t \<longrightarrow> l \<in> set (orderLines d')" by blast
qed

lemma voidLine_Inr:
  assumes "voidLine e staff k j pin reason d a = (Inr (v, d'), a')"
  obtains x l ap where "loadOrder d (pp_tenantId staff) k = Inr x" "assertOrderNotClosed x = Inr ()"
    "loadOrderLine d (pp_tenantId staff) k j = Inr l" "ol_parentLineId l = None" "isSentToKitchen d (lineAndChildIds d l)"
    "assertBillHasNoPayments d k = Inr ()"
    "authorize e d a_void_after_fire (pp_tenantId staff) (o_outletId x) pin (str_trim reason) (pp_id staff) a = (Inr ap, a')"
    "d' = recordApproval ap (Some (pp_id staff)) (pp_name staff) (now e) (void_lines e (lineAndChildIds d l) (str_trim reason) d)"
proof -
  obtain x ids where v: "void_checks staff k j d = Inr (x, ids)"
    using assms by (cases "void_checks staff k j d") (auto simp: voidLine_def)
  obtain l where l: "loadOrder d (pp_tenantId staff) k = Inr x" "assertOrderNotClosed x = Inr ()"
    "loadOrderLine d (pp_tenantId staff) k j = Inr l" "ol_parentLineId l = None" "isSentToKitchen d ids" "assertBillHasNoPayments d k = Inr ()"
    "ids = lineAndChildIds d l"
    using v by (auto simp: void_checks_def r_bind_eq_Inr Let_def split: if_splits)
  let ?auth = "authorize e d a_void_after_fire (pp_tenantId staff) (o_outletId x) pin (str_trim reason) (pp_id staff) a"
  obtain r a1 where au: "?auth = (r, a1)" by fastforce
  obtain ap where ap: "r = Inr ap" using assms v au by (cases r) (simp_all add: voidLine_def)
  show thesis
    by (rule that [OF l(1-4) _ l(6)]) (use assms v au ap l in \<open>auto simp: voidLine_def Let_def\<close>)
qed

lemma voidLine_keeps:
  assumes "voidLine e staff k j pin reason d a = (Inr (v, d'), a')" and "lines_wf d"
  shows "lines_wf d'" "edits_lines k d d'" "open_order d k"
proof -
  obtain x l ap where c: "loadOrder d (pp_tenantId staff) k = Inr x" "assertOrderNotClosed x = Inr ()"
    "loadOrderLine d (pp_tenantId staff) k j = Inr l"
    "d' = recordApproval ap (Some (pp_id staff)) (pp_name staff) (now e) (void_lines e (lineAndChildIds d l) (str_trim reason) d)"
    using assms(1) by (rule voidLine_Inr) (rule that)
  note lj = loadOrderLine_Inr [OF c(3)]
  let ?ids = "lineAndChildIds d l"
  let ?f = "\<lambda>y. y\<lparr>ol_voidedAt := Some (now e), ol_voidReason := Some (str_trim reason)\<rparr>"
  have ols: "orderLines d' = update_rows (\<lambda>y. ol_id y \<in> set ?ids) ?f (orderLines d)" "nextId d' = nextId d"
    by (simp_all add: c(4) void_lines_def)
  have orig: "\<exists>z \<in> set (orderLines d). ol_id y = ol_id z \<and> ol_orderId y = ol_orderId z \<and> ol_parentLineId y = ol_parentLineId z \<and> (line_wf z \<longrightarrow> line_wf y)"
    if y: "y \<in> set (orderLines d')" for y
    using y unfolding ols set_update_rows by (force simp: line_wf_def)
  have "map ol_id (orderLines d') = map ol_id (orderLines d)" unfolding ols by simp
  then have "keys_ok (nextId d') (map ol_id (orderLines d'))" using assms(2) ols(2) by (simp add: lines_wf_def)
  moreover have "line_wf y" if "y \<in> set (orderLines d')" for y
    using orig [OF that] assms(2) unfolding lines_wf_def by metis
  moreover have "p < nextId d'" if "y \<in> set (orderLines d')" "ol_parentLineId y = Some p" for y p
    using orig [OF that(1)] that(2) assms(2) unfolding lines_wf_def ols(2) by metis
  moreover have "ol_orderId y = ol_orderId p" if "y \<in> set (orderLines d')" "p \<in> set (orderLines d')" "ol_parentLineId y = Some (ol_id p)" for y p
    using orig [OF that(1)] orig [OF that(2)] that(3) assms(2) unfolding lines_wf_def by metis
  ultimately show "lines_wf d'" unfolding lines_wf_def by blast
  have "ol_orderId y = k" if y: "y \<in> set (orderLines d)" "ol_id y \<in> set ?ids" for y
  proof (cases "ol_id y = ol_id l")
    case True
    then show ?thesis using lines_unique [OF assms(2) lj(2) y(1)] lj(4) by simp
  next
    case False
    then obtain z where z: "z \<in> set (orderLines d)" "ol_id y = ol_id z" "ol_parentLineId z = Some (ol_id l)"
      using y(2) by (auto simp: lineAndChildIds_def)
    then have "y = z" using lines_unique [OF assms(2) z(1) y(1)] by simp
    then show ?thesis using z assms(2) lj(2,4) unfolding lines_wf_def by metis
  qed
  then have "filter (\<lambda>y. ol_orderId y \<noteq> k) (orderLines d') = filter (\<lambda>y. ol_orderId y \<noteq> k) (orderLines d)"
    unfolding ols by (intro filter_update_rows_outside) auto
  then show "edits_lines k d d'" by (simp add: edits_lines_def c(4) void_lines_def recordApproval_def)
  show "open_order d k" using c(1,2) by (rule open_orderI)
qed

subsection \<open>What other components leave alone\<close>

text \<open>Operations of the drawer, of table sessions and of bill shares write none of the tables below.\<close>

definition same_core :: "db \<Rightarrow> db \<Rightarrow> bool" where
  "same_core d d' \<longleftrightarrow> bills d' = bills d \<and> tenders d' = tenders d \<and> creditNotes d' = creditNotes d \<and> billCounters d' = billCounters d \<and>
     orders d' = orders d \<and> orderLines d' = orderLines d \<and> intents d' = intents d \<and> itemPrices d' = itemPrices d \<and> modifiers d' = modifiers d \<and>
     combos d' = combos d \<and> nextId d \<le> nextId d'"

lemma same_core_keeps:
  assumes "same_core d d'"
  shows "books_ok d \<Longrightarrow> books_ok d'" "ledger_grows d d'" "floor_ok d \<Longrightarrow> floor_ok d'" "payments_ok d \<Longrightarrow> payments_ok d'"
    "menu_ok d \<Longrightarrow> menu_ok d'" "lines_wf d \<Longrightarrow> lines_wf d'"
proof -
  have f: "bills d' = bills d" "tenders d' = tenders d" "creditNotes d' = creditNotes d" "billCounters d' = billCounters d" "orders d' = orders d"
    "orderLines d' = orderLines d" "intents d' = intents d" "itemPrices d' = itemPrices d" "modifiers d' = modifiers d" "combos d' = combos d"
    "nextId d \<le> nextId d'" using assms by (simp_all add: same_core_def)
  show "books_ok d'" if "books_ok d" by (rule books_ok_frame [OF that]) (simp_all add: f)
  show "ledger_grows d d'" by (rule ledger_grows_frame) (simp_all add: f)
  show "floor_ok d'" if "floor_ok d" by (rule floor_ok_frame [OF that]) (simp_all add: f)
  show "payments_ok d'" if "payments_ok d" by (rule payments_ok_frame [OF that, of _ "[]"]) (simp_all add: f)
  show "menu_ok d'" if "menu_ok d" using that by (simp add: menu_ok_def f)
  show "lines_wf d'" if "lines_wf d" using that f(11) unfolding lines_wf_def f(6) by (meson keys_ok_mono le_trans less_le_trans)
qed

lemma same_core_trans: "same_core a b \<Longrightarrow> same_core b c \<Longrightarrow> same_core a c"
  by (simp add: same_core_def)

subsection \<open>The contract of a line operation\<close>

text \<open>
  What the rest of the system relies on when an order's lines are edited: lines stay well formed, only lines of an order that is
  not closed are touched, and nothing else changes.
\<close>

locale line_operation =
  fixes run :: "db \<Rightarrow> db \<Rightarrow> bool" and k :: uuid
  assumes run_keeps: "run d d' \<Longrightarrow> lines_wf d \<Longrightarrow> menu_ok d \<Longrightarrow> lines_wf d' \<and> edits_lines k d d' \<and> open_order d k"
begin

lemma run_ledger:
  assumes "run d d'" "lines_wf d" "menu_ok d"
  shows "books_ok d \<Longrightarrow> books_ok d'" "ledger_grows d d'" "floor_ok d \<Longrightarrow> floor_ok d'" "payments_ok d \<Longrightarrow> payments_ok d'" "menu_ok d'" "lines_wf d'"
  using run_keeps [OF assms] edits_lines_keeps assms(3) by blast+

lemma run_closed_orders:
  assumes "run d d'" "lines_wf d" "menu_ok d" "floor_ok d" and "x \<in> set (orders d)" "o_status x = o_closed"
  shows "live_lines d' (o_id x) = live_lines d (o_id x)"
proof -
  have e: "edits_lines k d d'" "open_order d k" using run_keeps [OF assms(1-3)] by auto
  then obtain y where "y \<in> set (orders d)" "o_id y = k" "o_status y \<noteq> o_closed" by (auto simp: open_order_def)
  then have "o_id x \<noteq> k" using floor_ok_unique [OF assms(4,5)] assms(6) by metis
  then show ?thesis by (rule edits_lines_keeps(6) [OF e(1)])
qed

end

interpretation add_line: line_operation "\<lambda>d d'. 0 < al_quantity dto \<and> (\<exists>v. addLine e staff k dto d = Inr (v, d'))" k for dto e staff k
  by unfold_locales (auto dest: addLine_keeps(1-3))

interpretation add_combo: line_operation "\<lambda>d d'. 0 < ac_quantity dto \<and> (\<forall>s \<in> set (ac_selections dto). \<forall>q. ci_quantity s = Some q \<longrightarrow> 0 < q) \<and>
    (\<exists>v. addCombo e staff k dto d = Inr (v, d'))" k for dto e staff k
  by unfold_locales (auto dest: addCombo_keeps(1-3))

interpretation update_line: line_operation "\<lambda>d d'. (\<forall>q. ul_quantity dto = Some q \<longrightarrow> 0 < q) \<and> (\<exists>v. updateLine staff k j dto d = Inr (v, d'))" k
  for dto staff k j
  by unfold_locales (auto dest: updateLine_keeps(1-3))

interpretation remove_line: line_operation "\<lambda>d d'. \<exists>v. removeLine staff k j d = Inr (v, d')" k for staff k j
  by unfold_locales (use removeLine_keeps(1-3) in blast)

interpretation void_line: line_operation "\<lambda>d d'. \<exists>v a a'. voidLine e staff k j pin reason d a = (Inr (v, d'), a')" k for e staff k j pin reason
  by unfold_locales (auto dest: voidLine_keeps)

section \<open>What the line operations guarantee\<close>

lemma no_payments_iff:
  assumes "find_row b_orderId k (bills d) = Some b"
  shows "assertBillHasNoPayments d k = Inr () \<longleftrightarrow> bill_payments d (b_id b) = 0"
  by (simp add: assertBillHasNoPayments_def assms)

lemma sum_update_rows_mono:
  assumes "\<And>r. r \<in> set rs \<Longrightarrow> p r \<Longrightarrow> q (f r) = q r \<and> g r \<le> g (f r)"
  shows "sum_rows g (filter q rs) \<le> sum_rows g (filter q (update_rows p f rs))"
  using assms
proof (induction rs)
  case (Cons r rs)
  have "sum_rows g (filter q rs) \<le> sum_rows g (filter q (update_rows p f rs))" by (rule Cons.IH) (use Cons.prems in auto)
  with Cons.prems [of r] show ?case by (auto simp: update_rows_def)
qed (simp add: update_rows_def)

lemma updateLine_never_shrinks:
  assumes "updateLine staff k j dto d = Inr (v, d')" and "lines_wf d" and "menu_ok d"
    and "find_row b_orderId k (bills d) = Some b" and "0 < bill_payments d (b_id b)"
  shows "computeSubtotal d k \<le> computeSubtotal d' k"
proof -
  obtain l n mods where c: "loadOrderLine d (pp_tenantId staff) k j = Inr l"
    "d' = (set_line j (line_change dto mods) d)\<lparr>nextId := nextId d + n\<rparr>"
    "\<forall>q. ul_quantity dto = Some q \<and> q < ol_quantity l \<longrightarrow> assertBillHasNoPayments d k = Inr ()"
    "\<forall>ms. mods = Some ms \<longrightarrow> (sum_rows om_priceMinor ms < sum_rows om_priceMinor (ol_modifiers l) \<longrightarrow> assertBillHasNoPayments d k = Inr ()) \<and>
       (\<exists>m ids. ms = new_modifiers m (resolveModifierPrices d (pp_tenantId staff) ids) ids)"
    using assms(1) by (rule updateLine_Inr) (rule that)
  have np: "assertBillHasNoPayments d k \<noteq> Inr ()" using no_payments_iff [OF assms(4)] assms(5) by simp
  have wf: "line_wf l" using loadOrderLine_Inr(2) [OF c(1)] assms(2) by (simp add: lines_wf_def)
  have q: "ol_quantity l \<le> nullish (ul_quantity dto) (ol_quantity l)"
    using c(3) np by (cases "ul_quantity dto") (simp_all add: not_less [symmetric])
  have m: "sum_rows om_priceMinor (ol_modifiers l) \<le> sum_rows om_priceMinor (nullish mods (ol_modifiers l))"
    using c(4) np by (cases mods) (simp_all add: not_less [symmetric])
  have u: "0 \<le> sum_rows om_priceMinor (ol_modifiers l)" using wf by (intro sum_rows_nonneg) (simp add: line_wf_def)
  have grow: "ol_quantity l * line_unit l \<le> ol_quantity (line_change dto mods l) * line_unit (line_change dto mods l)"
    using q m u wf by (intro mult_mono) (simp_all add: line_unit_def line_wf_def)
  have uniq: "r = l" if "r \<in> set (orderLines d)" "ol_id r = j" for r
    using lines_unique [OF assms(2) loadOrderLine_Inr(2) [OF c(1)] that(1)] that(2) loadOrderLine_Inr(3) [OF c(1)] by simp
  have "sum_rows (\<lambda>l. ol_quantity l * line_unit l) (live_lines d k) \<le>
    sum_rows (\<lambda>l. ol_quantity l * line_unit l) (filter (\<lambda>l. ol_orderId l = k \<and> ol_voidedAt l = None)
      (update_rows (\<lambda>y. ol_id y = j) (line_change dto mods) (orderLines d)))"
    unfolding live_lines_def
  proof (rule sum_update_rows_mono)
    fix r assume "r \<in> set (orderLines d)" "ol_id r = j"
    then have "r = l" by (rule uniq)
    then show "(ol_orderId (line_change dto mods r) = k \<and> ol_voidedAt (line_change dto mods r) = None) = (ol_orderId r = k \<and> ol_voidedAt r = None) \<and>
      ol_quantity r * line_unit r \<le> ol_quantity (line_change dto mods r) * line_unit (line_change dto mods r)"
      using grow by (simp only: line_change_fields simp_thms)
  qed
  then show ?thesis unfolding computeSubtotal_sum c(2) by (simp add: live_lines_def set_line_def)
qed

text \<open>C16: What was paid for stays on the bill. While the order's bill has a tender, a running payment intent or a paid share,
  changing a line never makes the subtotal smaller, and removing or voiding a line is refused.\<close>

theorem paid_bill_never_shrinks:
  assumes "lines_wf d" and "menu_ok d" and "find_row b_orderId k (bills d) = Some b" and "0 < bill_payments d (b_id b)"
  shows "(\<forall>staff j dto v d'. updateLine staff k j dto d = Inr (v, d') \<longrightarrow> computeSubtotal d k \<le> computeSubtotal d' k) \<and>
    (\<forall>staff j r. removeLine staff k j d \<noteq> Inr r) \<and> (\<forall>e staff j pin reason a r a'. voidLine e staff k j pin reason d a \<noteq> (Inr r, a'))"
proof (intro conjI allI impI)
  have np: "assertBillHasNoPayments d k \<noteq> Inr ()" using no_payments_iff [OF assms(3)] assms(4) by simp
  show "computeSubtotal d k \<le> computeSubtotal d' k" if "updateLine staff k j dto d = Inr (v, d')" for staff j dto v d'
    using that assms by (rule updateLine_never_shrinks)
  show "removeLine staff k j d \<noteq> Inr r" for staff j r
    by (cases r) (auto elim!: removeLine_Inr simp: np)
  show "voidLine e staff k j pin reason d a \<noteq> (Inr r, a')" for e staff j pin reason a r a'
    by (cases r) (auto elim!: voidLine_Inr simp: np)
qed

text \<open>Fired lines are frozen. A line that is on a kitchen ticket survives every change and removal of lines
  unchanged; it can only be voided, and a line no ticket carries cannot be voided.\<close>

theorem fired_lines_frozen:
  assumes "lines_wf d" and "menu_ok d" and "l \<in> set (orderLines d)"
  shows "if ol_id l \<in> tl_orderLineId ` set (ticketLines d)
    then (\<forall>staff k j dto v d'. (\<forall>q. ul_quantity dto = Some q \<longrightarrow> 0 < q) \<longrightarrow> updateLine staff k j dto d = Inr (v, d') \<longrightarrow> l \<in> set (orderLines d')) \<and>
      (\<forall>staff k j v d'. removeLine staff k j d = Inr (v, d') \<longrightarrow> l \<in> set (orderLines d'))
    else (\<forall>ch \<in> set (orderLines d). ol_parentLineId ch = Some (ol_id l) \<longrightarrow> ol_id ch \<notin> tl_orderLineId ` set (ticketLines d)) \<longrightarrow>
      (\<forall>e staff k pin reason a r a'. voidLine e staff k (ol_id l) pin reason d a \<noteq> (Inr r, a'))"
proof (cases "ol_id l \<in> tl_orderLineId ` set (ticketLines d)")
  case True
  then obtain t where t: "t \<in> set (ticketLines d)" "ol_id l = tl_orderLineId t" by blast
  have "l \<in> set (orderLines d')" if "\<forall>q. ul_quantity dto = Some q \<longrightarrow> 0 < q" "updateLine staff k j dto d = Inr (v, d')" for staff k j dto v d'
    using updateLine_keeps(5) [OF that(2) assms(1,2) that(1)] t assms(3) by blast
  moreover have "l \<in> set (orderLines d')" if "removeLine staff k j d = Inr (v, d')" for staff k j v d'
    using removeLine_keeps(5) [OF that assms(1)] t assms(3) by blast
  ultimately show ?thesis using True by auto
next
  case False
  have "voidLine e staff k (ol_id l) pin reason d a \<noteq> (Inr r, a')"
    if n: "\<forall>ch \<in> set (orderLines d). ol_parentLineId ch = Some (ol_id l) \<longrightarrow> ol_id ch \<notin> tl_orderLineId ` set (ticketLines d)"
    for e staff k pin reason a r a'
  proof
    assume v: "voidLine e staff k (ol_id l) pin reason d a = (Inr r, a')"
    obtain m where m: "loadOrderLine d (pp_tenantId staff) k (ol_id l) = Inr m" "isSentToKitchen d (lineAndChildIds d m)"
      using v by (cases r) (auto elim!: voidLine_Inr)
    have "m = l" using lines_unique [OF assms(1,3) loadOrderLine_Inr(2) [OF m(1)] loadOrderLine_Inr(3) [OF m(1)]] .
    with m(2) have "isSentToKitchen d (lineAndChildIds d l)" by simp
    then obtain t where "t \<in> set (ticketLines d)" "tl_orderLineId t \<in> set (lineAndChildIds d l)"
      by (auto simp: isSentToKitchen_def count_rows_def filter_empty_conv)
    then show False using False n by (fastforce simp: lineAndChildIds_def image_iff)
  qed
  then show ?thesis using False by auto
qed

text \<open>A void is a manager's decision. It takes the line and its combo components off the bill, marks their
  ticket lines, and leaves an audit event naming the manager who entered the PIN and the member of staff who asked.\<close>

theorem voidLine_approved:
  assumes "voidLine e staff k j pin reason d a = (Inr (v, d'), a')" and "lines_wf d"
  shows "(\<exists>u \<in> set (staffUsers d). \<exists>r \<in> set (roles d). su_tenantId u = pp_tenantId staff \<and> su_roleId u = ro_id r \<and> ro_isManager r \<and>
      su_pinRevokedAt u = None \<and> (\<exists>h. su_pinHash u = Some h \<and> argon2_verify e h pin) \<and>
      (\<exists>ev \<in> set (auditEvents d'). ae_action ev = ''void_after_fire'' \<and> ae_approverId ev = Some (su_id u) \<and> ae_actorId ev = Some (pp_id staff) \<and>
         ae_reason ev = str_trim reason \<and> str_trim reason \<noteq> [])) \<and>
    (\<forall>l \<in> set (live_lines d' k). ol_id l \<noteq> j \<and> ol_parentLineId l \<noteq> Some j) \<and>
    (\<forall>t \<in> set (ticketLines d'). tl_orderLineId t = j \<longrightarrow> tl_voided t)"
proof -
  obtain l and x :: order and ap where c: "loadOrderLine d (pp_tenantId staff) k j = Inr l"
    "authorize e d a_void_after_fire (pp_tenantId staff) (o_outletId x) pin (str_trim reason) (pp_id staff) a = (Inr ap, a')"
    "d' = recordApproval ap (Some (pp_id staff)) (pp_name staff) (now e) (void_lines e (lineAndChildIds d l) (str_trim reason) d)"
    using assms(1) by (elim voidLine_Inr) (rule that)
  obtain u r where u: "(u, r) \<in> set (approval_candidates d a_void_after_fire (pp_tenantId staff) (o_outletId x))"
    "argon2_verify e (nullish (su_pinHash u) []) pin" "str_trim (str_trim reason) \<noteq> []"
    "ap = \<lparr>ma_approverId = su_id u, ma_approverName = su_name u, ma_roleId = ro_id r, ma_roleName = ro_name r,
       ma_tenantId = pp_tenantId staff, ma_actionType = a_void_after_fire, ma_reason = str_trim reason\<rparr>"
    using c(2) by (rule authorize_approved)
  note m = approval_candidates_member [OF u(1)]
  note lj = loadOrderLine_Inr [OF c(1)]
  have ev: "\<exists>ev \<in> set (auditEvents d'). ae_action ev = ''void_after_fire'' \<and> ae_approverId ev = Some (su_id u) \<and>
      ae_actorId ev = Some (pp_id staff) \<and> ae_reason ev = str_trim reason \<and> str_trim reason \<noteq> []"
    using u(3) by (simp add: c(3) u(4) recordApproval_def str_trim_idem action_name_def)
  have who: "su_tenantId u = pp_tenantId staff" "su_roleId u = ro_id r" "ro_isManager r" "su_pinRevokedAt u = None"
    "\<exists>h. su_pinHash u = Some h \<and> argon2_verify e h pin" using m u(2) by auto
  have "ol_id y \<noteq> j \<and> ol_parentLineId y \<noteq> Some j" if "y \<in> set (live_lines d' k)" for y
    using that lj(3) unfolding live_lines_def c(3) by (auto simp: void_lines_def set_update_rows lineAndChildIds_def split: if_splits)
  moreover have "ticketLines d' = update_rows (\<lambda>t. tl_orderLineId t \<in> set (lineAndChildIds d l)) (\<lambda>t. t\<lparr>tl_voided := True\<rparr>) (ticketLines d)"
    by (simp add: c(3) void_lines_def recordApproval_def)
  then have "tl_voided t" if t: "t \<in> set (ticketLines d')" "tl_orderLineId t = j" for t
  proof -
    assume tk: "ticketLines d' = update_rows (\<lambda>t. tl_orderLineId t \<in> set (lineAndChildIds d l)) (\<lambda>t. t\<lparr>tl_voided := True\<rparr>) (ticketLines d)"
    obtain z where z: "z \<in> set (ticketLines d)" "t = (if tl_orderLineId z \<in> set (lineAndChildIds d l) then z\<lparr>tl_voided := True\<rparr> else z)"
      using t(1) unfolding tk set_update_rows by blast
    have "tl_orderLineId z = j" using z(2) t(2) by (simp split: if_splits)
    moreover have "j \<in> set (lineAndChildIds d l)" using lj(3) by (simp add: lineAndChildIds_def)
    ultimately show ?thesis using z(2) by simp
  qed
  ultimately have rest: "(\<forall>l \<in> set (live_lines d' k). ol_id l \<noteq> j \<and> ol_parentLineId l \<noteq> Some j) \<and> (\<forall>t \<in> set (ticketLines d'). tl_orderLineId t = j \<longrightarrow> tl_voided t)"
    by blast
  show ?thesis by (intro conjI bexI [of _ u] bexI [of _ r] m(1,2) who ev rest [THEN conjunct1] rest [THEN conjunct2])
qed

section \<open>Line edits in the sample restaurant\<close>

text \<open>An order with one line on a ticket, one line still on the pad, and a part payment on its bill.\<close>

definition s_db_part :: db where
  "s_db_part = s_db_order\<lparr>bills := [s_bill], tenders := [s_cash 1000]\<rparr>"

definition s_db_pad :: db where
  "s_db_pad = s_db_order\<lparr>ticketLines := [\<lparr>tl_id = 85, tl_tenantId = 1, tl_ticketId = 84, tl_orderLineId = 81, tl_quantity = 2, tl_addOnBatch = 0, tl_voided = False\<rparr>]\<rparr>"

definition s_three :: update_line_dto where
  "s_three = \<lparr>ul_quantity = Some 3, ul_modifierIds = None, ul_seatNumber = None\<rparr>"

lemmas line_eval = updateLine_def removeLine_def voidLine_def void_checks_def loadOrder_def loadOrderLine_def assertOwner_def assertOrderNotClosed_def
  assertNotComboLine_def assertLineNotSent_def isSentToKitchen_def lineAndChildIds_def assertBillHasNoPayments_def bill_payments_def count_rows_def
  set_line_def update_rows_def find_row_def authorize_def manager_pin_rules_def approval_candidates_def List.map_filter_def count_attempt_def
  consume.simps refund_attempts_def str_trim_def is_space_def s_db_part_def s_db_pad_def s_three_def s_bill_def s_cash_def Let_def

lemma sample_lines_wf: "lines_wf s_db_part" "lines_wf s_db_pad" "menu_ok s_db_part" "menu_ok s_db_pad"
  by (simp_all add: lines_wf_def keys_ok_def line_wf_def menu_ok_def line_eval sample_defs)

lemma line_samples:
  "\<exists>v d. updateLine s_cashier 80 82 s_three s_db_part = Inr (v, d)"
  "\<exists>v d. removeLine s_cashier 80 82 s_db_pad = Inr (v, d)"
  "\<exists>v d a. voidLine s_env s_cashier 80 81 ''4321'' ''Wrong table '' s_db_pad (\<lambda>_. None) = (Inr (v, d), a)"
  by (simp_all add: line_eval sample_defs)

theorem paid_bill_never_shrinks_witness:
  "\<exists>v d. updateLine s_cashier 80 82 s_three s_db_part = Inr (v, d) \<and> computeSubtotal s_db_part 80 \<le> computeSubtotal d 80 \<and>
     (\<forall>r. removeLine s_cashier 80 82 s_db_part \<noteq> Inr r)"
proof -
  have "find_row b_orderId 80 (bills s_db_part) = Some s_bill" "0 < bill_payments s_db_part (b_id s_bill)"
    by (simp_all add: line_eval sample_defs)
  note r = paid_bill_never_shrinks [OF sample_lines_wf(1,3) this]
  obtain v d where u: "updateLine s_cashier 80 82 s_three s_db_part = Inr (v, d)" using line_samples(1) by blast
  from r u have "computeSubtotal s_db_part 80 \<le> computeSubtotal d 80" "\<forall>r. removeLine s_cashier 80 82 s_db_part \<noteq> Inr r" by blast+
  with u show ?thesis by blast
qed

theorem fired_lines_frozen_witness:
  "\<exists>v d. removeLine s_cashier 80 82 s_db_pad = Inr (v, d) \<and> s_line 81 50 2 20000 \<in> set (orderLines d) \<and>
     (\<forall>r a. voidLine s_env s_cashier 80 82 ''4321'' ''Wrong'' s_db_pad (\<lambda>_. None) \<noteq> (Inr r, a))"
proof -
  have l: "s_line 81 50 2 20000 \<in> set (orderLines s_db_pad)" "s_line 82 51 1 30000 \<in> set (orderLines s_db_pad)"
    "tl_orderLineId ` set (ticketLines s_db_pad) = {81}" "ol_id (s_line 81 50 2 20000) = 81" "ol_id (s_line 82 51 1 30000) = 82"
    "\<forall>ch \<in> set (orderLines s_db_pad). ol_parentLineId ch \<noteq> Some 82"
    by (simp_all add: line_eval sample_defs)
  show ?thesis
    using fired_lines_frozen [OF sample_lines_wf(2,4) l(1)] fired_lines_frozen [OF sample_lines_wf(2,4) l(2)] l(3-6) line_samples(2)
    by (simp add: l(3)) blast
qed

theorem voidLine_approved_witness:
  "\<exists>v d a. voidLine s_env s_cashier 80 81 ''4321'' ''Wrong table '' s_db_pad (\<lambda>_. None) = (Inr (v, d), a) \<and>
     (\<exists>u \<in> set (staffUsers s_db_pad). \<exists>ev \<in> set (auditEvents d). ae_approverId ev = Some (su_id u) \<and> ae_actorId ev = Some 21) \<and>
     (\<forall>l \<in> set (live_lines d 80). ol_id l \<noteq> 81)"
proof -
  obtain v d a where r: "voidLine s_env s_cashier 80 81 ''4321'' ''Wrong table '' s_db_pad (\<lambda>_. None) = (Inr (v, d), a)"
    using line_samples(3) by blast
  have "pp_id s_cashier = 21" by (simp add: s_cashier_def)
  with voidLine_approved [OF r sample_lines_wf(2)] r show ?thesis by fastforce
qed

end
