(* ===== verification/Shifts.thy ===== *)
theory Shifts
  imports OrderLines
begin

text \<open>
  Shifts and the cash drawer, \<^verbatim>\<open>src/src/pos/shifts/shifts.service.ts\<close>: opening a shift with a float, logging cash that leaves
  the drawer, and the blind close, which computes what the drawer should hold only after the count was
  entered. The drawer's refunds are reconciled against a ledger kept per bill.
\<close>

section \<open>Views and loaders\<close>

record cash_movement_view =
  cv_id :: uuid
  cv_type :: cash_movement_type
  cv_amountMinor :: int
  cv_reason :: string
  cv_createdByStaffId :: uuid
  cv_createdAt :: date

record shift_view =
  sv_id :: uuid
  sv_tenantId :: uuid
  sv_outletId :: uuid
  sv_openedByStaffId :: uuid
  sv_floatMinor :: int
  sv_openedAt :: date
  sv_closedByStaffId :: "uuid option"
  sv_closedAt :: "date option"
  sv_countedMinor :: "int option"
  sv_expectedMinor :: "int option"
  sv_overShortMinor :: "int option"
  sv_cashMovements :: "cash_movement_view list"

type_synonym shift_with_movements = "shift \<times> cash_movement list"

definition toCashMovementView :: "cash_movement \<Rightarrow> cash_movement_view" where
  "toCashMovementView m = \<lparr>cv_id = cm_id m, cv_type = cm_type m, cv_amountMinor = cm_amountMinor m, cv_reason = cm_reason m,
     cv_createdByStaffId = cm_createdByStaffId m, cv_createdAt = cm_createdAt m\<rparr>"

definition toShiftView :: "shift_with_movements \<Rightarrow> shift_view" where
  "toShiftView sm = (case sm of (s, ms) \<Rightarrow>
    \<lparr>sv_id = sh_id s, sv_tenantId = sh_tenantId s, sv_outletId = sh_outletId s, sv_openedByStaffId = sh_openedByStaffId s,
     sv_floatMinor = sh_floatMinor s, sv_openedAt = sh_openedAt s, sv_closedByStaffId = sh_closedByStaffId s,
     sv_closedAt = sh_closedAt s, sv_countedMinor = sh_countedMinor s, sv_expectedMinor = sh_expectedMinor s,
     sv_overShortMinor = sh_overShortMinor s, sv_cashMovements = map toCashMovementView ms\<rparr>)"

definition shift_movements :: "db \<Rightarrow> uuid \<Rightarrow> cash_movement list" where
  "shift_movements d k = filter (\<lambda>m. cm_shiftId m = k) (cashMovements d)"

definition shift_loadOutlet :: "db \<Rightarrow> uuid \<Rightarrow> uuid \<Rightarrow> unit result" where
  "shift_loadOutlet d tenantId outletId =
    (case find_row ou_id outletId (outlets d) of
       None \<Rightarrow> Inl (BadRequest ''validation_failed'')
     | Some out \<Rightarrow> if ou_tenantId out \<noteq> tenantId then Inl (BadRequest ''validation_failed'') else Inr ())"

definition loadShiftRow :: "db \<Rightarrow> uuid \<Rightarrow> uuid \<Rightarrow> shift result" where
  "loadShiftRow d tenantId shiftId =
    (case find_row sh_id shiftId (shifts d) of
       None \<Rightarrow> Inl (NotFound ''not_found'')
     | Some s \<Rightarrow> if sh_tenantId s \<noteq> tenantId then Inl (NotFound ''not_found'') else Inr s)"

definition loadShift :: "db \<Rightarrow> uuid \<Rightarrow> uuid \<Rightarrow> shift_with_movements result" where
  "loadShift d tenantId shiftId = r_bind (loadShiftRow d tenantId shiftId) (\<lambda>s. Inr (s, shift_movements d (sh_id s)))"

definition loadOpenShift :: "db \<Rightarrow> uuid \<Rightarrow> uuid \<Rightarrow> shift_with_movements result" where
  "loadOpenShift d tenantId shiftId =
    r_bind (loadShift d tenantId shiftId) (\<lambda>sm. if sh_closedAt (fst sm) \<noteq> None then Inl (Conflict ''shift_already_closed'') else Inr sm)"

definition assertStaffInTenant :: "db \<Rightarrow> uuid \<Rightarrow> uuid \<Rightarrow> unit result" where
  "assertStaffInTenant d tenantId staffId =
    (case find_row su_id staffId (staffUsers d) of
       None \<Rightarrow> Inl (Unauthorized ''unauthorized'')
     | Some u \<Rightarrow> if su_tenantId u \<noteq> tenantId then Inl (Unauthorized ''unauthorized'') else Inr ())"

section \<open>The drawer\<close>

definition finalized_since :: "db \<Rightarrow> uuid \<Rightarrow> date \<Rightarrow> uuid \<Rightarrow> bool" where
  "finalized_since d outletId since billId =
    (case find_row b_id billId (bills d) of None \<Rightarrow> False
     | Some b \<Rightarrow> b_outletId b = outletId \<and> b_status b = b_finalized \<and> (case b_finalizedAt b of None \<Rightarrow> False | Some t \<Rightarrow> since \<le> t))"

definition computeCashSalesMinor :: "db \<Rightarrow> uuid \<Rightarrow> uuid \<Rightarrow> date \<Rightarrow> int" where
  "computeCashSalesMinor d tenantId outletId since =
    foldl (\<lambda>s t. s + td_amountMinor t) 0
      (filter (\<lambda>t. td_tenantId t = tenantId \<and> td_method t = cash \<and> finalized_since d outletId since (td_billId t)) (tenders d))"

definition cash_paid :: "db \<Rightarrow> uuid \<Rightarrow> int" where
  "cash_paid d billId = foldl (\<lambda>s t. s + td_amountMinor t) 0 (filter (\<lambda>t. td_billId t = billId \<and> td_method t = cash) (tenders d))"

text \<open>How much of a note left the drawer, given the bill's cash that is left.\<close>

definition cash_back :: "tender_method option \<Rightarrow> int \<Rightarrow> int \<Rightarrow> int" where
  "cash_back method noteTotal left =
    (case method of None \<Rightarrow> if noteTotal < left then noteTotal else left | Some m \<Rightarrow> if m = cash then noteTotal else 0)"

definition refund_step :: "db \<Rightarrow> date \<Rightarrow> (uuid \<rightharpoonup> int) \<times> int \<Rightarrow> credit_note \<Rightarrow> (uuid \<rightharpoonup> int) \<times> int" where
  "refund_step d since st n = (case st of (cashLeft, refundedMinor) \<Rightarrow>
    (case find_row b_id (cn_originalBillId n) (bills d) of
       None \<Rightarrow> st
     | Some b \<Rightarrow>
         let left = nullish (cashLeft (cn_originalBillId n)) (cash_paid d (cn_originalBillId n));
             c = cash_back (cn_method n) (note_amount b n) left
         in (cashLeft(cn_originalBillId n \<mapsto> (if left > c then left - c else 0)),
             if since \<le> cn_createdAt n then refundedMinor + c else refundedMinor)))"

definition computeCashRefundsMinor :: "db \<Rightarrow> uuid \<Rightarrow> uuid \<Rightarrow> date \<Rightarrow> int" where
  "computeCashRefundsMinor d tenantId outletId since =
    (let inShift = filter (\<lambda>n. cn_tenantId n = tenantId \<and> since \<le> cn_createdAt n \<and>
           (case find_row b_id (cn_originalBillId n) (bills d) of None \<Rightarrow> False | Some b \<Rightarrow> b_outletId b = outletId)) (creditNotes d)
     in if inShift = [] then 0
        else snd (foldl (refund_step d since) (Map.empty, 0)
          (filter (\<lambda>n. cn_tenantId n = tenantId \<and> cn_originalBillId n \<in> set (map cn_originalBillId inShift)) (creditNotes d))))"

definition movement_totals :: "cash_movement list \<Rightarrow> int \<times> int" where
  "movement_totals ms =
    foldl (\<lambda>(paidOut, bankDrop) m. if cm_type m = paid_out then (paidOut + cm_amountMinor m, bankDrop) else (paidOut, bankDrop + cm_amountMinor m)) (0, 0) ms"

section \<open>Handlers\<close>

record open_shift_dto =
  os_outletId :: uuid
  os_floatMinor :: int

record log_cash_movement_dto =
  lm_type :: cash_movement_type
  lm_amountMinor :: int
  lm_reason :: string

definition open_shift_at :: "uuid \<Rightarrow> shift \<Rightarrow> bool" where
  "open_shift_at outletId s \<longleftrightarrow> sh_outletId s = outletId \<and> sh_closedAt s = None"

definition openShift :: "env \<Rightarrow> pos_principal \<Rightarrow> open_shift_dto \<Rightarrow> db \<Rightarrow> (shift_view \<times> db) result" where
  "openShift e staff dto d =
    r_bind (assertStaffInTenant d (pp_tenantId staff) (pp_id staff)) (\<lambda>_.
    r_bind (shift_loadOutlet d (pp_tenantId staff) (os_outletId dto)) (\<lambda>_.
      if list_ex (open_shift_at (os_outletId dto)) (shifts d) then Inl (Conflict ''shift_already_open'')
      else let (i, d1) = take_id d;
               s = \<lparr>sh_id = i, sh_tenantId = pp_tenantId staff, sh_outletId = os_outletId dto, sh_openedByStaffId = pp_id staff,
                    sh_floatMinor = os_floatMinor dto, sh_openedAt = now e, sh_closedByStaffId = None, sh_closedAt = None,
                    sh_countedMinor = None, sh_expectedMinor = None, sh_overShortMinor = None\<rparr>;
               d2 = d1\<lparr>shifts := shifts d1 @ [s]\<rparr>
           in Inr (toShiftView (s, shift_movements d2 i), d2)))"

definition getCurrentShift :: "pos_principal \<Rightarrow> uuid \<Rightarrow> db \<Rightarrow> shift_view result" where
  "getCurrentShift staff outletId d =
    r_bind (shift_loadOutlet d (pp_tenantId staff) outletId) (\<lambda>_.
    (case find (open_shift_at outletId) (shifts d) of
       None \<Rightarrow> Inl (NotFound ''not_found'')
     | Some s \<Rightarrow> Inr (toShiftView (s, shift_movements d (sh_id s)))))"

definition getShift :: "pos_principal \<Rightarrow> uuid \<Rightarrow> db \<Rightarrow> shift_view result" where
  "getShift staff shiftId d = r_bind (loadShift d (pp_tenantId staff) shiftId) (\<lambda>sm. Inr (toShiftView sm))"

definition logCashMovement :: "env \<Rightarrow> pos_principal \<Rightarrow> uuid \<Rightarrow> log_cash_movement_dto \<Rightarrow> db \<Rightarrow> (shift_view \<times> db) result" where
  "logCashMovement e staff shiftId dto d =
    r_bind (assertStaffInTenant d (pp_tenantId staff) (pp_id staff)) (\<lambda>_.
    r_bind (loadOpenShift d (pp_tenantId staff) shiftId) (\<lambda>_.
      let (i, d1) = take_id d;
          m = \<lparr>cm_id = i, cm_tenantId = pp_tenantId staff, cm_shiftId = shiftId, cm_type = lm_type dto, cm_amountMinor = lm_amountMinor dto,
               cm_reason = lm_reason dto, cm_createdByStaffId = pp_id staff, cm_createdAt = now e\<rparr>;
          d2 = d1\<lparr>cashMovements := cashMovements d1 @ [m]\<rparr>
      in r_bind (loadShift d2 (pp_tenantId staff) shiftId) (\<lambda>sm. Inr (toShiftView sm, d2))))"

definition close_row :: "env \<Rightarrow> uuid \<Rightarrow> int \<Rightarrow> int \<Rightarrow> shift \<Rightarrow> shift" where
  "close_row e staffId counted expected s = s\<lparr>sh_closedByStaffId := Some staffId, sh_closedAt := Some (now e),
     sh_countedMinor := Some counted, sh_expectedMinor := Some expected, sh_overShortMinor := Some (counted - expected)\<rparr>"

definition closeShift :: "env \<Rightarrow> pos_principal \<Rightarrow> uuid \<Rightarrow> int \<Rightarrow> db \<Rightarrow> (shift_view \<times> db) result" where
  "closeShift e staff shiftId countedMinor d =
    r_bind (assertStaffInTenant d (pp_tenantId staff) (pp_id staff)) (\<lambda>_.
    r_bind (loadOpenShift d (pp_tenantId staff) shiftId) (\<lambda>(s, ms).
      let (paidOutMinor, bankDropMinor) = movement_totals ms;
          cashSalesMinor = computeCashSalesMinor d (pp_tenantId staff) (sh_outletId s) (sh_openedAt s);
          cashRefundsMinor = computeCashRefundsMinor d (pp_tenantId staff) (sh_outletId s) (sh_openedAt s);
          expectedMinor = sh_floatMinor s + cashSalesMinor - cashRefundsMinor - paidOutMinor - bankDropMinor;
          d1 = d\<lparr>shifts := update_rows (\<lambda>x. sh_id x = shiftId) (close_row e (pp_id staff) countedMinor expectedMinor) (shifts d)\<rparr>
      in r_bind (loadShift d1 (pp_tenantId staff) shiftId) (\<lambda>sm. Inr (toShiftView sm, d1))))"

interpretation shift_loader: scoped_loader loadShiftRow shifts sh_id sh_tenantId
  by unfold_locales (auto simp: loadShiftRow_def split: option.splits if_splits)

section \<open>At most one open shift, and a blind count\<close>

text \<open>
  \<open>shifts_ok\<close>: shift identifiers are distinct, an outlet has at most one open shift, and a
  shift carries a count, an expected amount and their difference exactly when it is closed.
\<close>

definition shift_ok :: "shift \<Rightarrow> bool" where
  "shift_ok s \<longleftrightarrow> (case sh_closedAt s of
     None \<Rightarrow> sh_countedMinor s = None \<and> sh_expectedMinor s = None \<and> sh_overShortMinor s = None \<and> sh_closedByStaffId s = None
   | Some _ \<Rightarrow> (\<exists>c x. sh_countedMinor s = Some c \<and> sh_expectedMinor s = Some x \<and> sh_overShortMinor s = Some (c - x)) \<and> sh_closedByStaffId s \<noteq> None)"

definition open_outlets :: "shift list \<Rightarrow> uuid list" where
  "open_outlets ss = map sh_outletId (filter (\<lambda>s. sh_closedAt s = None) ss)"

definition shifts_ok :: "db \<Rightarrow> bool" where
  "shifts_ok d \<longleftrightarrow> keys_ok (nextId d) (map sh_id (shifts d)) \<and> distinct (open_outlets (shifts d)) \<and> (\<forall>s \<in> set (shifts d). shift_ok s)"

lemma shifts_ok_frame: "shifts_ok d \<Longrightarrow> shifts d' = shifts d \<Longrightarrow> nextId d \<le> nextId d' \<Longrightarrow> shifts_ok d'"
  by (auto simp: shifts_ok_def intro: keys_ok_mono)

text \<open>A shift that was closed is never touched again, and movements are only ever added.\<close>

definition drawer_grows :: "db \<Rightarrow> db \<Rightarrow> bool" where
  "drawer_grows d d' \<longleftrightarrow> (\<forall>s \<in> set (shifts d). sh_closedAt s \<noteq> None \<longrightarrow> s \<in> set (shifts d') \<and> shift_movements d' (sh_id s) = shift_movements d (sh_id s)) \<and>
     prefix (cashMovements d) (cashMovements d')"

definition only_drawer :: "db \<Rightarrow> db \<Rightarrow> bool" where
  "only_drawer d d' \<longleftrightarrow> (\<exists>n ss ms. nextId d \<le> n \<and> d' = d\<lparr>nextId := n, shifts := ss, cashMovements := ms\<rparr>)"

lemma open_outlets_append: "open_outlets (ss @ ts) = open_outlets ss @ open_outlets ts"
  by (simp add: open_outlets_def)

lemma openShift_Inr:
  assumes "openShift e staff dto d = Inr (v, d')"
  obtains s where "d' = d\<lparr>nextId := Suc (nextId d), shifts := shifts d @ [s]\<rparr>" "sh_id s = nextId d" "sh_outletId s = os_outletId dto"
    "\<not> list_ex (open_shift_at (os_outletId dto)) (shifts d)" "shift_ok s" "sh_closedAt s = None" "sh_floatMinor s = os_floatMinor dto"
    "sh_openedAt s = now e"
proof -
  let ?s = "\<lparr>sh_id = nextId d, sh_tenantId = pp_tenantId staff, sh_outletId = os_outletId dto, sh_openedByStaffId = pp_id staff,
     sh_floatMinor = os_floatMinor dto, sh_openedAt = now e, sh_closedByStaffId = None, sh_closedAt = None,
     sh_countedMinor = None, sh_expectedMinor = None, sh_overShortMinor = None\<rparr>"
  have "d' = d\<lparr>nextId := Suc (nextId d), shifts := shifts d @ [?s]\<rparr>" "\<not> list_ex (open_shift_at (os_outletId dto)) (shifts d)"
    using assms by (auto simp: openShift_def r_bind_eq_Inr take_id_def Let_def split: if_splits)
  then show thesis by (intro that [of ?s]) (simp_all add: shift_ok_def)
qed

lemma openShift_keeps:
  assumes "openShift e staff dto d = Inr (v, d')" and "shifts_ok d"
  shows "shifts_ok d'" "drawer_grows d d'" "only_drawer d d'"
proof -
  obtain s where s: "d' = d\<lparr>nextId := Suc (nextId d), shifts := shifts d @ [s]\<rparr>" "sh_id s = nextId d" "sh_outletId s = os_outletId dto"
    "\<not> list_ex (open_shift_at (os_outletId dto)) (shifts d)" "shift_ok s" "sh_closedAt s = None"
    using assms(1) by (rule openShift_Inr)
  have "sh_outletId s \<notin> set (open_outlets (shifts d))"
    using s(3,4) by (auto simp: open_outlets_def open_shift_at_def list_ex_iff)
  then show "shifts_ok d'" using assms(2) s keys_ok_append
    by (simp add: shifts_ok_def open_outlets_append) (simp add: open_outlets_def)
  show "drawer_grows d d'" by (simp add: drawer_grows_def s(1) shift_movements_def)
  show "only_drawer d d'" unfolding only_drawer_def s(1)
    by (intro exI [of _ "Suc (nextId d)"] exI [of _ "shifts d @ [s]"] exI [of _ "cashMovements d"]) simp
qed

lemma loadOpenShift_Inr:
  "loadOpenShift d t k = Inr (s, ms) \<longleftrightarrow> find_row sh_id k (shifts d) = Some s \<and> sh_tenantId s = t \<and> sh_closedAt s = None \<and> ms = shift_movements d k"
  by (auto simp: loadOpenShift_def loadShift_def loadShiftRow_def r_bind_eq_Inr dest: find_row_Some split: option.splits if_splits)

lemma shift_unique: "shifts_ok d \<Longrightarrow> x \<in> set (shifts d) \<Longrightarrow> y \<in> set (shifts d) \<Longrightarrow> sh_id x = sh_id y \<Longrightarrow> x = y"
  by (auto simp: shifts_ok_def keys_ok_def distinct_map dest: inj_onD)

lemma closed_elsewhere:
  assumes "shifts_ok d" "find_row sh_id k (shifts d) = Some s" "sh_closedAt s = None" "x \<in> set (shifts d)" "sh_closedAt x \<noteq> None"
  shows "sh_id x \<noteq> k"
  using shift_unique [OF assms(1,4), of s] find_row_Some [OF assms(2)] assms(3,5) by auto

lemma logCashMovement_Inr:
  assumes "logCashMovement e staff k dto d = Inr (v, d')"
  obtains s m where "find_row sh_id k (shifts d) = Some s" "sh_closedAt s = None" "d' = d\<lparr>nextId := Suc (nextId d), cashMovements := cashMovements d @ [m]\<rparr>"
    "cm_shiftId m = k" "cm_amountMinor m = lm_amountMinor dto" "cm_type m = lm_type dto"
proof -
  obtain s ms where s: "loadOpenShift d (pp_tenantId staff) k = Inr (s, ms)"
    using assms by (auto simp: logCashMovement_def r_bind_eq_Inr)
  let ?m = "\<lparr>cm_id = nextId d, cm_tenantId = pp_tenantId staff, cm_shiftId = k, cm_type = lm_type dto, cm_amountMinor = lm_amountMinor dto,
     cm_reason = lm_reason dto, cm_createdByStaffId = pp_id staff, cm_createdAt = now e\<rparr>"
  have "d' = d\<lparr>nextId := Suc (nextId d), cashMovements := cashMovements d @ [?m]\<rparr>"
    using assms s by (auto simp: logCashMovement_def r_bind_eq_Inr take_id_def Let_def)
  then show thesis using s by (intro that [of s ?m]) (simp_all add: loadOpenShift_Inr)
qed

lemma logCashMovement_keeps:
  assumes "logCashMovement e staff k dto d = Inr (v, d')" and "shifts_ok d"
  shows "shifts_ok d'" "drawer_grows d d'" "only_drawer d d'"
proof -
  obtain s m where s: "find_row sh_id k (shifts d) = Some s" "sh_closedAt s = None"
    "d' = d\<lparr>nextId := Suc (nextId d), cashMovements := cashMovements d @ [m]\<rparr>" "cm_shiftId m = k"
    using assms(1) by (rule logCashMovement_Inr)
  show "shifts_ok d'" by (rule shifts_ok_frame [OF assms(2)]) (simp_all add: s(3))
  have mv: "shift_movements d' j = shift_movements d j" if "j \<noteq> k" for j
    using that s(4) by (simp add: s(3) shift_movements_def)
  show "drawer_grows d d'" unfolding drawer_grows_def
  proof (intro conjI ballI impI)
    fix x assume x: "x \<in> set (shifts d)" "sh_closedAt x \<noteq> None"
    show "x \<in> set (shifts d')" using x(1) by (simp add: s(3))
    show "shift_movements d' (sh_id x) = shift_movements d (sh_id x)" by (rule mv [OF closed_elsewhere [OF assms(2) s(1,2) x]])
  qed (simp add: s(3))
  show "only_drawer d d'" unfolding only_drawer_def s(3)
    by (intro exI [of _ "Suc (nextId d)"] exI [of _ "shifts d"] exI [of _ "cashMovements d @ [m]"]) simp
qed

lemma movement_totals_sum: "fst (movement_totals ms) + snd (movement_totals ms) = sum_rows cm_amountMinor ms"
proof -
  let ?f = "\<lambda>(p, b) m. if cm_type m = paid_out then (p + cm_amountMinor m, b) else (p, b + cm_amountMinor m)"
  have "fst (foldl ?f (p, b) ms) + snd (foldl ?f (p, b) ms) = p + b + sum_rows cm_amountMinor ms" for p b
    by (induction ms arbitrary: p b) auto
  from this [of 0 0] show ?thesis by (simp add: movement_totals_def)
qed

definition expected_in_drawer :: "db \<Rightarrow> shift \<Rightarrow> int" where
  "expected_in_drawer d s = sh_floatMinor s + computeCashSalesMinor d (sh_tenantId s) (sh_outletId s) (sh_openedAt s) -
     computeCashRefundsMinor d (sh_tenantId s) (sh_outletId s) (sh_openedAt s) - sum_rows cm_amountMinor (shift_movements d (sh_id s))"

lemma closeShift_Inr:
  assumes "closeShift e staff k counted d = Inr (v, d')"
  obtains s where "find_row sh_id k (shifts d) = Some s" "sh_closedAt s = None" "sh_tenantId s = pp_tenantId staff"
    "d' = d\<lparr>shifts := update_rows (\<lambda>x. sh_id x = k) (close_row e (pp_id staff) counted (expected_in_drawer d s)) (shifts d)\<rparr>"
    "sv_expectedMinor v = Some (expected_in_drawer d s)" "sv_overShortMinor v = Some (counted - expected_in_drawer d s)"
proof -
  obtain s ms where s: "loadOpenShift d (pp_tenantId staff) k = Inr (s, ms)"
    using assms by (auto simp: closeShift_def r_bind_eq_Inr)
  then have f: "find_row sh_id k (shifts d) = Some s" "sh_tenantId s = pp_tenantId staff" "sh_closedAt s = None" "ms = shift_movements d k" "sh_id s = k"
    using find_row_Some [of sh_id k "shifts d" s] by (auto simp: loadOpenShift_Inr)
  obtain p b where pb: "movement_totals ms = (p, b)" by fastforce
  have x: "sh_floatMinor s + computeCashSalesMinor d (pp_tenantId staff) (sh_outletId s) (sh_openedAt s) -
      computeCashRefundsMinor d (pp_tenantId staff) (sh_outletId s) (sh_openedAt s) - p - b = expected_in_drawer d s"
    using movement_totals_sum [of ms] pb f by (simp add: expected_in_drawer_def)
  let ?d = "d\<lparr>shifts := update_rows (\<lambda>x. sh_id x = k) (close_row e (pp_id staff) counted (expected_in_drawer d s)) (shifts d)\<rparr>"
  have d': "d' = ?d" and v: "\<exists>sm. loadShift ?d (pp_tenantId staff) k = Inr sm \<and> v = toShiftView sm"
    using assms unfolding closeShift_def by (auto simp: r_bind_eq_Inr s pb Let_def x)
  have row: "find_row sh_id k (update_rows (\<lambda>x. sh_id x = k) (close_row e (pp_id staff) counted (expected_in_drawer d s)) (shifts d)) = Some (close_row e (pp_id staff) counted (expected_in_drawer d s) s)"
    using f by (simp add: find_row_update close_row_def)
  from v have "sv_expectedMinor v = Some (expected_in_drawer d s)" "sv_overShortMinor v = Some (counted - expected_in_drawer d s)"
    by (auto simp: loadShift_def loadShiftRow_def row r_bind_eq_Inr toShiftView_def close_row_def split: if_splits)
  with f d' show thesis by (intro that)
qed

lemma open_outlets_close:
  "(\<And>s. sh_closedAt (f s) \<noteq> None) \<Longrightarrow> open_outlets (update_rows p f ss) = map sh_outletId (filter (\<lambda>s. sh_closedAt s = None \<and> \<not> p s) ss)"
  by (induction ss) (auto simp: open_outlets_def update_rows_def)

lemma closeShift_keeps:
  assumes "closeShift e staff k counted d = Inr (v, d')" and "shifts_ok d"
  shows "shifts_ok d'" "drawer_grows d d'" "only_drawer d d'"
proof -
  obtain s where s: "find_row sh_id k (shifts d) = Some s" "sh_closedAt s = None"
    "d' = d\<lparr>shifts := update_rows (\<lambda>x. sh_id x = k) (close_row e (pp_id staff) counted (expected_in_drawer d s)) (shifts d)\<rparr>"
    using assms(1) by (rule closeShift_Inr)
  let ?f = "close_row e (pp_id staff) counted (expected_in_drawer d s)"
  have "distinct (map sh_outletId (filter (\<lambda>s. sh_closedAt s = None \<and> sh_id s \<noteq> k) (shifts d)))"
  proof -
    have "map sh_outletId (filter (\<lambda>s. sh_id s \<noteq> k) (filter (\<lambda>s. sh_closedAt s = None) (shifts d))) =
      map sh_outletId (filter (\<lambda>s. sh_closedAt s = None \<and> sh_id s \<noteq> k) (shifts d))" by simp
    moreover have "distinct (map sh_outletId (filter (\<lambda>s. sh_closedAt s = None) (shifts d)))" using assms(2) by (simp add: shifts_ok_def open_outlets_def)
    ultimately show ?thesis by (metis distinct_map_filter)
  qed
  moreover have "shift_ok (?f x)" for x by (simp add: shift_ok_def close_row_def)
  moreover have "map sh_id (update_rows (\<lambda>x. sh_id x = k) ?f (shifts d)) = map sh_id (shifts d)" by (simp add: close_row_def)
  moreover have "open_outlets (update_rows (\<lambda>x. sh_id x = k) ?f (shifts d)) = map sh_outletId (filter (\<lambda>s. sh_closedAt s = None \<and> sh_id s \<noteq> k) (shifts d))"
    by (rule open_outlets_close) (simp add: close_row_def)
  ultimately show "shifts_ok d'" using assms(2) by (auto simp: shifts_ok_def s(3) set_update_rows)
  have "x \<in> set (shifts d')" if "x \<in> set (shifts d)" "sh_closedAt x \<noteq> None" for x
    using closed_elsewhere [OF assms(2) s(1,2) that] that(1) by (force simp: s(3) set_update_rows)
  then show "drawer_grows d d'" unfolding drawer_grows_def by (simp add: s(3) shift_movements_def)
  show "only_drawer d d'" unfolding only_drawer_def s(3)
    by (intro exI [of _ "nextId d"] exI [of _ "update_rows (\<lambda>x. sh_id x = k) ?f (shifts d)"] exI [of _ "cashMovements d"]) simp
qed

subsection \<open>The contract of a drawer operation\<close>

text \<open>Shift handlers touch shifts and movements only, keep \<open>shifts_ok\<close>, and never a closed shift.\<close>

locale drawer_operation =
  fixes run :: "db \<Rightarrow> db \<Rightarrow> bool"
  assumes run_drawer: "run d d' \<Longrightarrow> shifts_ok d \<Longrightarrow> shifts_ok d' \<and> drawer_grows d d' \<and> only_drawer d d'"
begin

lemma run_core:
  assumes "run d d'" "shifts_ok d"
  shows "same_core d d'"
  using run_drawer [OF assms] by (auto simp: only_drawer_def same_core_def)

lemmas run_keeps_books = same_core_keeps [OF run_core]

end

interpretation open_shift: drawer_operation "\<lambda>d d'. \<exists>v. openShift e staff dto d = Inr (v, d')" for e staff dto
  by unfold_locales (elim exE, intro conjI; rule openShift_keeps; assumption)

interpretation log_movement: drawer_operation "\<lambda>d d'. \<exists>v. logCashMovement e staff k dto d = Inr (v, d')" for e staff k dto
  by unfold_locales (elim exE, intro conjI; rule logCashMovement_keeps; assumption)

interpretation close_shift: drawer_operation "\<lambda>d d'. \<exists>v. closeShift e staff k counted d = Inr (v, d')" for e staff k counted
  by unfold_locales (elim exE, intro conjI; rule closeShift_keeps; assumption)

section \<open>The drawer's refunds, bill by bill\<close>

text \<open>
  The reference: one bill's credit notes in order, and what each takes out of the drawer while
  \<open>left\<close> of the bill's cash is left. The code runs through the notes of all bills at once
  and keeps what is left per bill in a map.
\<close>

fun drawer_paid :: "bill \<Rightarrow> date \<Rightarrow> int \<Rightarrow> credit_note list \<Rightarrow> int" where
  "drawer_paid b since left [] = 0"
| "drawer_paid b since left (n # ns) =
    (let c = cash_back (cn_method n) (note_amount b n) left
     in (if since \<le> cn_createdAt n then c else 0) + drawer_paid b since (if left > c then left - c else 0) ns)"

lemma drawer_paid_before: "\<forall>n \<in> set ns. cn_createdAt n < since \<Longrightarrow> drawer_paid b since left ns = 0"
  by (induction ns arbitrary: left) (auto simp: Let_def)

lemma drawer_paid_recorded:
  assumes "\<forall>n \<in> set ns. cn_method n \<noteq> None"
  shows "drawer_paid b since left ns = sum_rows (note_amount b) (filter (\<lambda>n. cn_method n = Some cash \<and> since \<le> cn_createdAt n) ns)"
  using assms by (induction ns arbitrary: left) (auto simp: Let_def cash_back_def)

lemma drawer_paid_unrecorded:
  assumes "\<forall>n \<in> set ns. cn_method n = None \<and> 0 \<le> note_amount b n" and "0 \<le> left"
  shows "0 \<le> drawer_paid b since left ns \<and> drawer_paid b since left ns \<le> left"
  using assms
proof (induction ns arbitrary: left)
  case (Cons n ns)
  let ?c = "if note_amount b n < left then note_amount b n else left"
  have c: "0 \<le> ?c" "?c \<le> left" using Cons.prems by auto
  have rest: "(if left > ?c then left - ?c else 0) = left - ?c" using c by auto
  have "0 \<le> drawer_paid b since (left - ?c) ns \<and> drawer_paid b since (left - ?c) ns \<le> left - ?c"
    using Cons.prems c by (intro Cons.IH) auto
  moreover have "drawer_paid b since left (n # ns) = (if since \<le> cn_createdAt n then ?c else 0) + drawer_paid b since (left - ?c) ns"
    using Cons.prems(1) rest by (simp add: Let_def cash_back_def)
  ultimately show ?case using c by (cases "since \<le> cn_createdAt n") (simp_all only: if_True if_False, linarith+)
qed simp

lemma sum_rows_change_one:
  assumes "distinct bs" "x \<in> set bs" "\<And>b. b \<in> set bs \<Longrightarrow> b \<noteq> x \<Longrightarrow> f b = g b"
  shows "sum_rows f bs = sum_rows g bs - g x + f x"
  using assms
proof (induction bs)
  case (Cons b bs)
  show ?case
  proof (cases "b = x")
    case True
    then have "sum_rows f bs = sum_rows g bs" unfolding sum_rows_def using Cons.prems by (intro arg_cong [where f = sum_list] map_cong) auto
    with True show ?thesis by simp
  next
    case False
    then have "sum_rows f bs = sum_rows g bs - g x + f x" using Cons by auto
    with False Cons.prems(3) [of b] show ?thesis by simp
  qed
qed simp

lemma refund_steps_by_bill:
  assumes "distinct (map b_id bs)" and "\<And>n. n \<in> set ns \<Longrightarrow> \<exists>b \<in> set bs. find_row b_id (cn_originalBillId n) (bills d) = Some b"
  shows "snd (foldl (refund_step d since) (left, acc) ns) = acc +
    sum_rows (\<lambda>b. drawer_paid b since (nullish (left (b_id b)) (cash_paid d (b_id b))) (filter (\<lambda>n. cn_originalBillId n = b_id b) ns)) bs"
  using assms(2)
proof (induction ns arbitrary: left acc)
  case Nil
  then show ?case by (simp add: sum_rows_def)
next
  case (Cons n ns)
  obtain x where x: "x \<in> set bs" "find_row b_id (cn_originalBillId n) (bills d) = Some x" "b_id x = cn_originalBillId n"
    using Cons.prems [of n] find_row_Some [of b_id "cn_originalBillId n" "bills d"] by auto
  let ?left = "nullish (left (b_id x)) (cash_paid d (b_id x))"
  let ?c = "cash_back (cn_method n) (note_amount x n) ?left"
  let ?left' = "left(b_id x \<mapsto> (if ?left > ?c then ?left - ?c else 0))"
  let ?acc = "if since \<le> cn_createdAt n then acc + ?c else acc"
  let ?S = "\<lambda>l ns b. drawer_paid b since (nullish (l (b_id b)) (cash_paid d (b_id b))) (filter (\<lambda>n. cn_originalBillId n = b_id b) ns)"
  have step: "refund_step d since (left, acc) n = (?left', ?acc)" unfolding refund_step_def prod.case x(2) option.case Let_def x(3) by (rule refl)
  have "sum_rows (?S left (n # ns)) bs = sum_rows (?S ?left' ns) bs - ?S ?left' ns x + ?S left (n # ns) x"
  proof (rule sum_rows_change_one)
    show "distinct bs" using assms(1) by (simp add: distinct_map)
    fix b assume b: "b \<in> set bs" "b \<noteq> x"
    then have "b_id b \<noteq> b_id x" using assms(1) x(1) by (auto simp: distinct_map dest: inj_onD)
    then show "?S left (n # ns) b = ?S ?left' ns b" using x(3) by simp
  qed (rule x(1))
  also have "?S left (n # ns) x = (if since \<le> cn_createdAt n then ?c else 0) + ?S ?left' ns x" using x(3) by (simp add: Let_def)
  finally have "acc + sum_rows (?S left (n # ns)) bs = ?acc + sum_rows (?S ?left' ns) bs" by simp
  moreover have "snd (foldl (refund_step d since) (?left', ?acc) ns) = ?acc + sum_rows (?S ?left' ns) bs"
    by (rule Cons.IH) (use Cons.prems in auto)
  ultimately show ?case by (simp add: step)
qed

lemma sum_rows_cong: "(\<And>r. r \<in> set rs \<Longrightarrow> f r = g r) \<Longrightarrow> sum_rows f rs = sum_rows g rs"
  by (simp add: sum_rows_def cong: map_cong)

lemma cash_refunds_by_bill:
  assumes "books_ok d"
  shows "computeCashRefundsMinor d t out since =
    sum_rows (\<lambda>b. drawer_paid b since (cash_paid d (b_id b)) (filter (\<lambda>n. cn_tenantId n = t) (bill_notes d (b_id b))))
      (filter (\<lambda>b. b_outletId b = out) (bills d))"
proof -
  let ?in = "filter (\<lambda>n. cn_tenantId n = t \<and> since \<le> cn_createdAt n \<and>
      (case find_row b_id (cn_originalBillId n) (bills d) of None \<Rightarrow> False | Some b \<Rightarrow> b_outletId b = out)) (creditNotes d)"
  let ?ids = "set (map cn_originalBillId ?in)"
  let ?ns = "filter (\<lambda>n. cn_tenantId n = t \<and> cn_originalBillId n \<in> ?ids) (creditNotes d)"
  let ?bs = "filter (\<lambda>b. b_outletId b = out) (bills d)"
  have row: "find_row b_id (b_id b) (bills d) = Some b" if "b \<in> set (bills d)" for b using books_okD(2) [OF assms that] .
  have same: "drawer_paid b since l (filter (\<lambda>n. cn_originalBillId n = b_id b) ?ns) =
      drawer_paid b since l (filter (\<lambda>n. cn_tenantId n = t) (bill_notes d (b_id b)))" if b: "b \<in> set ?bs" for b l
  proof (cases "b_id b \<in> ?ids")
    case True
    then have "filter (\<lambda>n. cn_originalBillId n = b_id b) ?ns = filter (\<lambda>n. cn_tenantId n = t) (bill_notes d (b_id b))"
      unfolding bill_notes_def filter_filter by (intro filter_cong) auto
    then show ?thesis by simp
  next
    case False
    then have "filter (\<lambda>n. cn_originalBillId n = b_id b) ?ns = []" by (auto simp: filter_empty_conv)
    moreover have "cn_createdAt n < since" if n: "n \<in> set (filter (\<lambda>n. cn_tenantId n = t) (bill_notes d (b_id b)))" for n
    proof (rule ccontr)
      assume late: "\<not> cn_createdAt n < since"
      have m: "n \<in> set (creditNotes d)" "cn_tenantId n = t" "cn_originalBillId n = b_id b" using n by (simp_all add: bill_notes_def)
      have "find_row b_id (cn_originalBillId n) (bills d) = Some b" "b_outletId b = out" using b row [of b] m(3) by simp_all
      then have "n \<in> set ?in" using m(1,2) late by (simp add: not_less)
      then have "cn_originalBillId n \<in> ?ids" unfolding set_map by (rule imageI)
      with False m(3) show False by (simp only: simp_thms)
    qed
    ultimately show ?thesis by (simp add: drawer_paid_before)
  qed
  have member: "\<exists>b \<in> set ?bs. find_row b_id (cn_originalBillId n) (bills d) = Some b" if "n \<in> set ?ns" for n
  proof -
    obtain m where m: "m \<in> set ?in" "cn_originalBillId m = cn_originalBillId n" using \<open>n \<in> set ?ns\<close> by auto
    then obtain b where b: "find_row b_id (cn_originalBillId n) (bills d) = Some b" "b_outletId b = out"
      by (cases "find_row b_id (cn_originalBillId n) (bills d)") simp_all
    then have "b \<in> set ?bs" using find_row_Some [OF b(1)] by simp
    then show ?thesis using b(1) by (rule bexI [rotated])
  qed
  have dist: "distinct (map b_id ?bs)" using assms by (auto simp: books_ok_def keys_ok_def distinct_map_filter)
  have all: "snd (foldl (refund_step d since) (Map.empty, 0) ?ns) =
    sum_rows (\<lambda>b. drawer_paid b since (cash_paid d (b_id b)) (filter (\<lambda>n. cn_tenantId n = t) (bill_notes d (b_id b)))) ?bs"
  proof -
    have "snd (foldl (refund_step d since) (Map.empty, 0) ?ns) = 0 + sum_rows (\<lambda>b. drawer_paid b since
        (nullish (Map.empty (b_id b)) (cash_paid d (b_id b))) (filter (\<lambda>n. cn_originalBillId n = b_id b) ?ns)) ?bs"
      by (rule refund_steps_by_bill [OF dist member])
    also have "\<dots> = 0 + sum_rows (\<lambda>b. drawer_paid b since (cash_paid d (b_id b)) (filter (\<lambda>n. cn_tenantId n = t) (bill_notes d (b_id b)))) ?bs"
      unfolding option.case by (rule arg_cong [where f = "(+) 0"], rule sum_rows_cong, rule same)
    finally show ?thesis by (simp only: add_0)
  qed
  show ?thesis
  proof (cases "?in = []")
    case True
    then have "?ns = []" by simp
    with all True show ?thesis unfolding computeCashRefundsMinor_def Let_def by simp
  next
    case False
    with all show ?thesis unfolding computeCashRefundsMinor_def Let_def by (simp only: if_False)
  qed
qed

section \<open>What closing a shift guarantees\<close>


text \<open>Notes from before refund methods were recorded never take more out of the drawer than the cash their bills
  were paid with; notes with a recorded method take exactly the cash ones of the shift.\<close>

theorem cash_refunds_bounded:
  assumes "books_ok d" and "\<forall>n \<in> set (creditNotes d). \<forall>b \<in> set (bills d). cn_originalBillId n = b_id b \<longrightarrow> 0 \<le> note_amount b n"
    and "\<forall>b \<in> set (bills d). 0 \<le> cash_paid d (b_id b)"
  shows "((\<forall>n \<in> set (creditNotes d). cn_method n = None) \<longrightarrow>
      0 \<le> computeCashRefundsMinor d t out since \<and>
      computeCashRefundsMinor d t out since \<le> sum_rows (\<lambda>b. cash_paid d (b_id b)) (filter (\<lambda>b. b_outletId b = out) (bills d))) \<and>
    ((\<forall>n \<in> set (creditNotes d). cn_method n \<noteq> None) \<longrightarrow>
      computeCashRefundsMinor d t out since = sum_rows (\<lambda>b. sum_rows (note_amount b)
        (filter (\<lambda>n. cn_tenantId n = t \<and> cn_method n = Some cash \<and> since \<le> cn_createdAt n) (bill_notes d (b_id b))))
        (filter (\<lambda>b. b_outletId b = out) (bills d)))"
proof (intro conjI impI)
  let ?bs = "filter (\<lambda>b. b_outletId b = out) (bills d)"
  let ?ns = "\<lambda>b. filter (\<lambda>n. cn_tenantId n = t) (bill_notes d (b_id b))"
  note eq = cash_refunds_by_bill [OF assms(1), of t out since]
  have mono: "sum_rows f bs \<le> sum_rows g bs" if "\<And>b. b \<in> set bs \<Longrightarrow> f b \<le> g b" for f g and bs :: "bill list"
    using that by (induction bs) (auto intro: add_mono)
  {
    assume none: "\<forall>n \<in> set (creditNotes d). cn_method n = None"
    have b: "0 \<le> drawer_paid b since (cash_paid d (b_id b)) (?ns b) \<and> drawer_paid b since (cash_paid d (b_id b)) (?ns b) \<le> cash_paid d (b_id b)"
      if "b \<in> set ?bs" for b
      using none assms(2,3) that by (intro drawer_paid_unrecorded) (auto simp: bill_notes_def)
    show "0 \<le> computeCashRefundsMinor d t out since" unfolding eq by (rule sum_rows_nonneg) (use b in blast)
    show "computeCashRefundsMinor d t out since \<le> sum_rows (\<lambda>b. cash_paid d (b_id b)) ?bs" unfolding eq by (rule mono) (use b in blast)
  next
    assume some: "\<forall>n \<in> set (creditNotes d). cn_method n \<noteq> None"
    show "computeCashRefundsMinor d t out since = sum_rows (\<lambda>b. sum_rows (note_amount b)
        (filter (\<lambda>n. cn_tenantId n = t \<and> cn_method n = Some cash \<and> since \<le> cn_createdAt n) (bill_notes d (b_id b)))) ?bs"
      unfolding eq
    proof (rule sum_rows_cong)
      fix b assume "b \<in> set ?bs"
      have "\<forall>n \<in> set (?ns b). cn_method n \<noteq> None" using some by (auto simp: bill_notes_def)
      from drawer_paid_recorded [OF this] show "drawer_paid b since (cash_paid d (b_id b)) (?ns b) = sum_rows (note_amount b)
        (filter (\<lambda>n. cn_tenantId n = t \<and> cn_method n = Some cash \<and> since \<le> cn_createdAt n) (bill_notes d (b_id b)))"
        by (simp add: conj_ac)
    qed
  }
qed

text \<open>A shift with a float of 100, a paid-out of 20, the sample's settled bill paid in cash, and part of it handed back.\<close>

definition s_shift :: shift where
  "s_shift = \<lparr>sh_id = 97, sh_tenantId = 1, sh_outletId = 2, sh_openedByStaffId = 21, sh_floatMinor = 10000, sh_openedAt = 999000000,
     sh_closedByStaffId = None, sh_closedAt = None, sh_countedMinor = None, sh_expectedMinor = None, sh_overShortMinor = None\<rparr>"

definition s_note :: credit_note where
  "s_note = \<lparr>cn_id = 98, cn_tenantId = 1, cn_originalBillId = 90, cn_reason = ''Cold'', cn_approvedByStaffId = 20, cn_createdByStaffId = 21,
     cn_subtotalMinor = 18000, cn_taxMinor = 0, cn_method = None, cn_createdAt = 999999900, cn_lines = []\<rparr>"

definition s_db_till :: db where
  "s_db_till = s_db_paid\<lparr>bills := map (\<lambda>b. b\<lparr>b_finalizedAt := Some 999999800\<rparr>) (bills s_db_paid), creditNotes := [s_note], shifts := [s_shift],
     cashMovements := [\<lparr>cm_id = 99, cm_tenantId = 1, cm_shiftId = 97, cm_type = paid_out, cm_amountMinor = 2000, cm_reason = ''Ice'',
       cm_createdByStaffId = 21, cm_createdAt = 999999000\<rparr>]\<rparr>"

lemmas till_eval = closeShift_def assertStaffInTenant_def loadOpenShift_def loadShift_def loadShiftRow_def movement_totals_def shift_movements_def
  computeCashSalesMinor_def finalized_since_def computeCashRefundsMinor_def refund_step_def cash_back_def cash_paid_def note_amount_def close_row_def
  toShiftView_def update_rows_def find_row_def s_db_till_def s_shift_def s_note_def s_db_paid_def s_bill_def s_cash_def Let_def


lemma s_db_till_ok: "shifts_ok s_db_till" "books_ok s_db_till"
proof -
  show "shifts_ok s_db_till" by (simp add: shifts_ok_def keys_ok_def open_outlets_def shift_ok_def till_eval sample_defs)
  show "books_ok s_db_till"
    by (simp add: books_ok_def keys_ok_def bill_ok_def numbers_at_def finalized_at_def last_bill_number_def tender_sum_def bill_total_def
        computeTotalMinor_def bill_tenders_def till_eval sample_defs)
qed


theorem cash_refunds_bounded_witness:
  "computeCashRefundsMinor s_db_till 1 2 0 = 18000 \<and>
   computeCashRefundsMinor s_db_till 1 2 0 \<le> sum_rows (\<lambda>b. cash_paid s_db_till (b_id b)) (filter (\<lambda>b. b_outletId b = 2) (bills s_db_till))"
proof -
  have "computeCashRefundsMinor s_db_till 1 2 0 = 18000" by (simp add: till_eval sample_defs)
  moreover have "\<forall>n \<in> set (creditNotes s_db_till). \<forall>b \<in> set (bills s_db_till). cn_originalBillId n = b_id b \<longrightarrow> 0 \<le> note_amount b n"
    "\<forall>b \<in> set (bills s_db_till). 0 \<le> cash_paid s_db_till (b_id b)" "\<forall>n \<in> set (creditNotes s_db_till). cn_method n = None"
    by (simp_all add: till_eval sample_defs)
  ultimately show ?thesis using cash_refunds_bounded [OF s_db_till_ok(2), of 1 2 0] by blast
qed

end
