(* ===== verification/GuestSessions.thy ===== *)
theory GuestSessions
  imports Shifts
begin

text \<open>
  Table sessions of the guest realm, \<^verbatim>\<open>src/src/guest/sessions/sessions.service.ts\<close>: starting a session from the table's
  QR code, joining it with its PIN, kiosk sessions, the staff-side close, and the rules that say when a
  session is over. The random PIN (\<open>randomInt\<close>) is an argument of the handlers that draw one; a signed
  token is represented by the principal it carries.
\<close>

section \<open>Principals and views\<close>

record guest_principal =
  gp_id :: uuid
  gp_sessionId :: uuid
  gp_tenantId :: uuid
  gp_outletId :: uuid
  gp_tableId :: "uuid option"
  gp_name :: string

record guest_summary =
  gs_id :: uuid
  gs_name :: string
  gs_joinedAt :: date

record table_session_view =
  tw_sessionId :: uuid
  tw_status :: session_status
  tw_table :: "(uuid \<times> string) option"
  tw_outletId :: uuid
  tw_guests :: "guest_summary list"
  tw_createdAt :: date
  tw_expiresAt :: date
  tw_closedAt :: "date option"

record session_start_result =
  sr_token :: guest_principal
  sr_pin :: "string option"
  sr_session :: table_session_view

record outlet_availability =
  av_available :: bool
  av_reason :: "string option"

record table_welcome_view =
  we_restaurantName :: string
  we_outletName :: string
  we_tableLabel :: string

definition SESSION_IDLE_TTL_MS :: int where
  "SESSION_IDLE_TTL_MS = 4 * 60 * 60 * 1000"

definition ABANDONED_AFTER_MS :: int where
  "ABANDONED_AFTER_MS = 30 * 60 * 1000"

definition CAPABILITY_KEY :: string where
  "CAPABILITY_KEY = ''qr_ordering''"

definition KIOSK_CAPABILITY_KEY :: string where
  "KIOSK_CAPABILITY_KEY = ''kiosk''"

section \<open>Checks\<close>

definition table_at :: "db \<Rightarrow> uuid \<Rightarrow> uuid \<Rightarrow> uuid \<Rightarrow> dining_table option" where
  "table_at d tenantId outletId tableId =
    (case find_row dt_id tableId (diningTables d) of None \<Rightarrow> None
     | Some t \<Rightarrow> if dt_tenantId t \<noteq> tenantId \<or> dt_outletId t \<noteq> outletId then None else Some t)"

definition live_outlet :: "db \<Rightarrow> uuid \<Rightarrow> outlet option" where
  "live_outlet d outletId =
    (case find_row ou_id outletId (outlets d) of None \<Rightarrow> None | Some out \<Rightarrow> if ou_deletedAt out \<noteq> None then None else Some out)"

definition resolveOutletAndTable :: "db \<Rightarrow> uuid \<Rightarrow> uuid \<Rightarrow> (outlet \<times> dining_table) result" where
  "resolveOutletAndTable d outletId tableId =
    (case live_outlet d outletId of None \<Rightarrow> Inl (NotFound ''not_found'')
     | Some out \<Rightarrow> (case table_at d (ou_tenantId out) outletId tableId of None \<Rightarrow> Inl (NotFound ''not_found'') | Some t \<Rightarrow> Inr (out, t)))"

definition capability_enabled :: "db \<Rightarrow> uuid \<Rightarrow> string \<Rightarrow> bool" where
  "capability_enabled d outletId key =
    (case find (\<lambda>c. oc_outletId c = outletId \<and> oc_key c = key) (capabilities d) of None \<Rightarrow> False | Some c \<Rightarrow> oc_enabled c)"

definition assertQrOrderingEnabled :: "db \<Rightarrow> uuid \<Rightarrow> unit result" where
  "assertQrOrderingEnabled d outletId =
    (if \<not> capability_enabled d outletId CAPABILITY_KEY then Inl (Forbidden ''qr_ordering_disabled'') else Inr ())"

definition generatePin :: "nat \<Rightarrow> string" where
  "generatePin n = (let s = show_digits n in replicate (4 - length s) (CHR ''0'') @ s)"

definition toGuestSummary :: "guest \<Rightarrow> guest_summary" where
  "toGuestSummary g = \<lparr>gs_id = gu_id g, gs_name = gu_name g, gs_joinedAt = gu_joinedAt g\<rparr>"

definition toSessionView :: "table_session \<Rightarrow> dining_table option \<Rightarrow> guest list \<Rightarrow> table_session_view" where
  "toSessionView s table gs =
    \<lparr>tw_sessionId = ts_id s, tw_status = ts_status s, tw_table = map_option (\<lambda>t. (dt_id t, dt_label t)) table, tw_outletId = ts_outletId s,
     tw_guests = map toGuestSummary gs, tw_createdAt = ts_createdAt s, tw_expiresAt = ts_expiresAt s, tw_closedAt = ts_closedAt s\<rparr>"

definition isSessionInactive :: "env \<Rightarrow> table_session \<Rightarrow> bool" where
  "isSessionInactive e s \<longleftrightarrow> ts_status s \<noteq> s_open \<or> ts_expiresAt s \<le> now e"

definition last_activity :: "db \<Rightarrow> table_session \<Rightarrow> date" where
  "last_activity d s =
    max (max (ts_createdAt s)
      (case latest_by gu_joinedAt (filter (\<lambda>g. gu_sessionId g = ts_id s) (guests d)) of None \<Rightarrow> 0 | Some g \<Rightarrow> gu_joinedAt g))
      (case latest_by ca_createdAt (filter (\<lambda>l. ca_sessionId l = ts_id s) (cartLines d)) of None \<Rightarrow> 0 | Some l \<Rightarrow> ca_createdAt l)"

definition isAbandoned :: "env \<Rightarrow> db \<Rightarrow> table_session \<Rightarrow> bool" where
  "isAbandoned e d s =
    (if count_rows (\<lambda>x. o_sessionId x = Some (ts_id s)) (orders d) > 0 then False
     else now e - last_activity d s > ABANDONED_AFTER_MS)"

definition isTableBusy :: "env \<Rightarrow> db \<Rightarrow> uuid \<Rightarrow> uuid \<Rightarrow> bool" where
  "isTableBusy e d tenantId tableId =
    (case find (\<lambda>x. o_tenantId x = tenantId \<and> o_tableId x = Some tableId \<and> o_status x \<noteq> o_closed \<and> liveSince e \<le> o_createdAt x) (orders d) of
       None \<Rightarrow> False
     | Some live \<Rightarrow>
         (case o_sessionId live of None \<Rightarrow> True
          | Some sid \<Rightarrow>
              (case find_row ts_id sid (tableSessions d) of None \<Rightarrow> True
               | Some s \<Rightarrow> ts_tableId s \<noteq> Some tableId \<or> isSessionInactive e s)))"

definition tenant_serves :: "db \<Rightarrow> uuid \<Rightarrow> bool" where
  "tenant_serves d tenantId =
    (case find_row tn_id tenantId (tenants d) of None \<Rightarrow> False | Some t \<Rightarrow> tn_status t \<noteq> t_inactive \<and> tn_deletedAt t = None)"

section \<open>Handlers\<close>

definition unavailable :: "string \<Rightarrow> outlet_availability" where
  "unavailable reason = \<lparr>av_available = False, av_reason = Some reason\<rparr>"

definition checkAvailability :: "env \<Rightarrow> uuid \<Rightarrow> uuid option \<Rightarrow> db \<Rightarrow> outlet_availability" where
  "checkAvailability e outletId tableId d =
    (case live_outlet d outletId of
       None \<Rightarrow> unavailable ''not_found''
     | Some out \<Rightarrow>
         if \<not> tenant_serves d (ou_tenantId out) then unavailable ''not_found''
         else if \<not> capability_enabled d outletId CAPABILITY_KEY then unavailable ''qr_ordering_disabled''
         else (case tableId of
                 None \<Rightarrow> \<lparr>av_available = True, av_reason = None\<rparr>
               | Some k \<Rightarrow>
                   (case table_at d (ou_tenantId out) outletId k of
                      None \<Rightarrow> unavailable ''not_found''
                    | Some _ \<Rightarrow> if isTableBusy e d (ou_tenantId out) k then unavailable ''table_busy''
                                else \<lparr>av_available = True, av_reason = None\<rparr>)))"

definition set_session :: "uuid \<Rightarrow> (table_session \<Rightarrow> table_session) \<Rightarrow> db \<Rightarrow> db" where
  "set_session k f d = d\<lparr>tableSessions := update_rows (\<lambda>s. ts_id s = k) f (tableSessions d)\<rparr>"

definition close_session :: "env \<Rightarrow> table_session \<Rightarrow> table_session" where
  "close_session e s = s\<lparr>ts_status := s_closed, ts_closedAt := Some (now e)\<rparr>"

definition open_session :: "db \<Rightarrow> uuid \<Rightarrow> uuid \<Rightarrow> table_session option" where
  "open_session d tenantId tableId =
    find (\<lambda>s. ts_tenantId s = tenantId \<and> ts_tableId s = Some tableId \<and> ts_status s = s_open) (tableSessions d)"

text \<open>\<open>tableSession.create\<close> under the partial unique index \<^verbatim>\<open>table_sessions_one_open_per_table\<close>, then \<open>guest.create\<close>.\<close>

definition insert_session :: "table_session \<Rightarrow> db \<Rightarrow> db result" where
  "insert_session s d =
    (if ts_tableId s \<noteq> None \<and> list_ex (\<lambda>y. ts_tableId y = ts_tableId s \<and> ts_status y = s_open) (tableSessions d)
     then Inl (Conflict ''session_already_open'') else Inr (d\<lparr>tableSessions := tableSessions d @ [s]\<rparr>))"

definition add_guest :: "env \<Rightarrow> table_session \<Rightarrow> string \<Rightarrow> string option \<Rightarrow> db \<Rightarrow> guest \<times> db" where
  "add_guest e s name phone d =
    (let (i, d1) = take_id d;
         g = \<lparr>gu_id = i, gu_tenantId = ts_tenantId s, gu_sessionId = ts_id s, gu_name = name, gu_phone = phone, gu_joinedAt = now e\<rparr>
     in (g, d1\<lparr>guests := guests d1 @ [g]\<rparr>))"

definition principal_of :: "table_session \<Rightarrow> guest \<Rightarrow> uuid \<Rightarrow> uuid option \<Rightarrow> guest_principal" where
  "principal_of s g outletId tableId = \<lparr>gp_id = gu_id g, gp_sessionId = ts_id s, gp_tenantId = ts_tenantId s, gp_outletId = outletId,
     gp_tableId = tableId, gp_name = gu_name g\<rparr>"

record start_session_dto =
  ss_outletId :: uuid
  ss_tableId :: uuid
  ss_name :: string
  ss_phone :: string

definition new_session :: "env \<Rightarrow> uuid \<Rightarrow> uuid \<Rightarrow> uuid \<Rightarrow> uuid option \<Rightarrow> nat \<Rightarrow> string \<Rightarrow> string \<Rightarrow> table_session" where
  "new_session e i tenantId outletId tableId rnd name phone =
    \<lparr>ts_id = i, ts_tenantId = tenantId, ts_outletId = outletId, ts_tableId = tableId, ts_status = s_open, ts_sessionPin = generatePin rnd,
     ts_startedByGuestName = name, ts_startedByGuestPhone = phone, ts_createdAt = now e, ts_closedAt = None,
     ts_expiresAt = now e + SESSION_IDLE_TTL_MS\<rparr>"

definition startSession :: "env \<Rightarrow> nat \<Rightarrow> start_session_dto \<Rightarrow> db \<Rightarrow> (session_start_result \<times> db) result" where
  "startSession e rnd dto d =
    r_bind (resolveOutletAndTable d (ss_outletId dto) (ss_tableId dto)) (\<lambda>(out, table).
    r_bind (assertQrOrderingEnabled d (ss_outletId dto)) (\<lambda>_.
    r_bind (case open_session d (ou_tenantId out) (ss_tableId dto) of
              None \<Rightarrow> Inr d
            | Some existing \<Rightarrow>
                if \<not> isSessionInactive e existing \<and> \<not> isAbandoned e d existing then Inl (Conflict ''session_already_open'')
                else Inr (set_session (ts_id existing) (close_session e) d)) (\<lambda>d1.
      if isTableBusy e d1 (ou_tenantId out) (ss_tableId dto) then Inl (Conflict ''table_has_active_order'')
      else let (i, d2) = take_id d1;
               s = new_session e i (ou_tenantId out) (ss_outletId dto) (Some (ss_tableId dto)) rnd (ss_name dto) (ss_phone dto)
           in r_bind (insert_session s d2) (\<lambda>d3.
                let (g, d4) = add_guest e s (ss_name dto) (Some (ss_phone dto)) d3
                in Inr (\<lparr>sr_token = principal_of s g (ss_outletId dto) (Some (ss_tableId dto)), sr_pin = Some (ts_sessionPin s), sr_session = toSessionView s (Some table) [g]\<rparr>, d4)))))"

definition startKioskSession :: "env \<Rightarrow> nat \<Rightarrow> uuid \<Rightarrow> uuid \<Rightarrow> db \<Rightarrow> (session_start_result \<times> db) result" where
  "startKioskSession e rnd outletId deviceId d =
    (case live_outlet d outletId of
       None \<Rightarrow> Inl (NotFound ''not_found'')
     | Some out \<Rightarrow>
         if \<not> tenant_serves d (ou_tenantId out) then Inl (NotFound ''not_found'')
         else (case find (\<lambda>v. dv_id v = deviceId \<and> dv_tenantId v = ou_tenantId out \<and> dv_outletId v = Some outletId \<and> dv_type v = d_kiosk \<and>
                      dv_status v = d_active) (devices d) of
                 None \<Rightarrow> Inl (NotFound ''not_found'')
               | Some v \<Rightarrow>
                   if \<not> capability_enabled d outletId KIOSK_CAPABILITY_KEY then Inl (Forbidden ''kiosk_disabled'')
                   else let (i, d1) = take_id d;
                            s = new_session e i (ou_tenantId out) outletId None rnd ''Kiosk'' []
                        in r_bind (insert_session s d1) (\<lambda>d2.
                             let (g, d3) = add_guest e s (dv_label v) None d2
                             in Inr (\<lparr>sr_token = principal_of s g outletId None, sr_pin = None, sr_session = toSessionView s None [g]\<rparr>, d3))))"

record join_session_dto =
  js_outletId :: uuid
  js_tableId :: uuid
  js_pin :: string
  js_name :: string

definition join_rules :: "join_session_dto \<Rightarrow> string \<Rightarrow> attempt_rule list" where
  "join_rules dto ip =
    [\<lparr>ar_key = GuestJoinIpKey (js_outletId dto) (js_tableId dto) ip, ar_max = 10, ar_windowSeconds = 15 * 60\<rparr>,
     \<lparr>ar_key = GuestJoinTableKey (js_outletId dto) (js_tableId dto), ar_max = 30, ar_windowSeconds = 15 * 60\<rparr>]"

definition join_target :: "env \<Rightarrow> join_session_dto \<Rightarrow> db \<Rightarrow> (dining_table \<times> table_session) result" where
  "join_target e dto d =
    r_bind (resolveOutletAndTable d (js_outletId dto) (js_tableId dto)) (\<lambda>(out, table).
    r_bind (assertQrOrderingEnabled d (js_outletId dto)) (\<lambda>_.
    (case open_session d (ou_tenantId out) (js_tableId dto) of
       None \<Rightarrow> Inl (NotFound ''no_open_session'')
     | Some s \<Rightarrow> if isSessionInactive e s then Inl (NotFound ''no_open_session'') else Inr (table, s))))"

definition joinSession :: "env \<Rightarrow> join_session_dto \<Rightarrow> string \<Rightarrow> db \<Rightarrow> attempts \<Rightarrow> (session_start_result \<times> db) result \<times> attempts" where
  "joinSession e dto ip d a =
    (case join_target e dto d of
       Inl err \<Rightarrow> (Inl err, a)
     | Inr (table, s) \<Rightarrow>
         (case consume (now e) (join_rules dto ip) a of
            (Inl err, a1) \<Rightarrow> (Inl err, a1)
          | (Inr _, a1) \<Rightarrow>
              if ts_sessionPin s \<noteq> js_pin dto then (Inl (Forbidden ''invalid_pin''), a1)
              else let a2 = refund_attempts (now e) (join_rules dto ip) a1;
                       (g, d1) = add_guest e s (js_name dto) None d
                   in (Inr (\<lparr>sr_token = principal_of s g (js_outletId dto) (Some (js_tableId dto)), sr_pin = None,
                         sr_session = toSessionView s (Some table) (filter (\<lambda>x. gu_sessionId x = ts_id s) (guests d1))\<rparr>, d1), a2)))"

definition getCurrentSession :: "env \<Rightarrow> guest_principal \<Rightarrow> db \<Rightarrow> table_session_view result" where
  "getCurrentSession e guest d =
    (case find_row ts_id (gp_sessionId guest) (tableSessions d) of
       None \<Rightarrow> Inl (NotFound ''not_found'')
     | Some s \<Rightarrow>
         if isSessionInactive e s then Inl (Gone ''session_closed'')
         else let gs = filter (\<lambda>x. gu_sessionId x = ts_id s) (guests d)
              in (case ts_tableId s of
                    None \<Rightarrow> Inr (toSessionView s None gs)
                  | Some k \<Rightarrow> (case find_row dt_id k (diningTables d) of
                       None \<Rightarrow> Inl (NotFound ''not_found'') | Some t \<Rightarrow> Inr (toSessionView s (Some t) gs))))"

definition closeSessionForStaff :: "env \<Rightarrow> uuid \<Rightarrow> uuid \<Rightarrow> uuid \<Rightarrow> db \<Rightarrow> (unit \<times> db) result" where
  "closeSessionForStaff e tenantId outletId tableId d =
    (case table_at d tenantId outletId tableId of
       None \<Rightarrow> Inl (NotFound ''not_found'')
     | Some _ \<Rightarrow> (case open_session d tenantId tableId of
          None \<Rightarrow> Inl (NotFound ''no_open_session'') | Some s \<Rightarrow> Inr ((), set_session (ts_id s) (close_session e) d)))"

definition getTableWelcome :: "uuid \<Rightarrow> uuid \<Rightarrow> db \<Rightarrow> table_welcome_view result" where
  "getTableWelcome outletId tableId d =
    (case live_outlet d outletId of
       None \<Rightarrow> Inl (NotFound ''not_found'')
     | Some out \<Rightarrow>
         (case table_at d (ou_tenantId out) outletId tableId of
            None \<Rightarrow> Inl (NotFound ''not_found'')
          | Some t \<Rightarrow>
              if \<not> tenant_serves d (ou_tenantId out) then Inl (NotFound ''not_found'')
              else Inr \<lparr>we_restaurantName = (case find_row br_id (ou_brandId out) (brands d) of None \<Rightarrow> ou_name out | Some b \<Rightarrow> br_name b),
                        we_outletName = ou_name out, we_tableLabel = dt_label t\<rparr>))"

section \<open>One open session per table\<close>

text \<open>
  \<open>sessions_ok\<close>: session identifiers are distinct, a table has at most one open session, and
  exactly the open sessions have no closing time.
\<close>

definition open_tables :: "table_session list \<Rightarrow> uuid option list" where
  "open_tables ss = map ts_tableId (filter (\<lambda>s. ts_status s = s_open \<and> ts_tableId s \<noteq> None) ss)"

definition sessions_ok :: "db \<Rightarrow> bool" where
  "sessions_ok d \<longleftrightarrow> keys_ok (nextId d) (map ts_id (tableSessions d)) \<and> distinct (open_tables (tableSessions d)) \<and>
     (\<forall>s \<in> set (tableSessions d). (ts_closedAt s = None) = (ts_status s = s_open))"

text \<open>Sessions are never removed and one that is over stays as it is.\<close>

definition sessions_forward :: "db \<Rightarrow> db \<Rightarrow> bool" where
  "sessions_forward d d' \<longleftrightarrow> (\<forall>s \<in> set (tableSessions d). \<exists>s' \<in> set (tableSessions d'). ts_id s' = ts_id s \<and> (ts_status s \<noteq> s_open \<longrightarrow> s' = s))"

definition only_sessions :: "db \<Rightarrow> db \<Rightarrow> bool" where
  "only_sessions d d' \<longleftrightarrow> (\<exists>n ss gs. nextId d \<le> n \<and> d' = d\<lparr>nextId := n, tableSessions := ss, guests := guests d @ gs\<rparr>)"

lemma sessions_ok_frame: "sessions_ok d \<Longrightarrow> tableSessions d' = tableSessions d \<Longrightarrow> nextId d \<le> nextId d' \<Longrightarrow> sessions_ok d'"
  by (auto simp: sessions_ok_def intro: keys_ok_mono)

lemma session_unique: "sessions_ok d \<Longrightarrow> x \<in> set (tableSessions d) \<Longrightarrow> y \<in> set (tableSessions d) \<Longrightarrow> ts_id x = ts_id y \<Longrightarrow> x = y"
  by (auto simp: sessions_ok_def keys_ok_def distinct_map dest: inj_onD)

lemma open_session_Some:
  "open_session d t k = Some s \<Longrightarrow> s \<in> set (tableSessions d) \<and> ts_tenantId s = t \<and> ts_tableId s = Some k \<and> ts_status s = s_open"
  by (auto simp: open_session_def dest: find_SomeD)

lemma close_session_fields [simp]:
  "ts_id (close_session e s) = ts_id s" "ts_status (close_session e s) = s_closed" "ts_closedAt (close_session e s) = Some (now e)"
  "ts_tableId (close_session e s) = ts_tableId s"
  by (simp_all add: close_session_def)

lemma set_session_keeps:
  assumes "sessions_ok d" "s \<in> set (tableSessions d)" "ts_status s = s_open" "\<And>x. ts_id (f x) = ts_id x" "\<And>x. ts_status (f x) \<noteq> s_open"
    "\<And>x. ts_closedAt (f x) \<noteq> None"
  shows "sessions_ok (set_session (ts_id s) f d)" "sessions_forward d (set_session (ts_id s) f d)"
proof -
  let ?ss = "update_rows (\<lambda>x. ts_id x = ts_id s) f (tableSessions d)"
  have op: "open_tables (update_rows (\<lambda>x. ts_id x = ts_id s) f rs) =
      map ts_tableId (filter (\<lambda>x. ts_id x \<noteq> ts_id s) (filter (\<lambda>s. ts_status s = s_open \<and> ts_tableId s \<noteq> None) rs))" for rs
    unfolding open_tables_def using assms(5) by (induction rs) (auto simp: update_rows_def)
  have "distinct (map ts_tableId (filter (\<lambda>s. ts_status s = s_open \<and> ts_tableId s \<noteq> None) (tableSessions d)))"
    using assms(1) by (simp add: sessions_ok_def open_tables_def)
  then have dist: "distinct (open_tables ?ss)" unfolding op by (rule distinct_map_filter)
  have "(ts_closedAt x = None) = (ts_status x = s_open)" if x: "x \<in> set ?ss" for x
  proof -
    obtain z where z: "z \<in> set (tableSessions d)" "x = (if ts_id z = ts_id s then f z else z)" using x unfolding set_update_rows by blast
    then show ?thesis using assms(1) assms(5,6) [of z] by (simp add: sessions_ok_def)
  qed
  with dist show "sessions_ok (set_session (ts_id s) f d)" using assms(1,4) by (simp add: sessions_ok_def set_session_def)
  show "sessions_forward d (set_session (ts_id s) f d)" unfolding sessions_forward_def
  proof
    fix x assume x: "x \<in> set (tableSessions d)"
    have "ts_status x \<noteq> s_open \<Longrightarrow> ts_id x \<noteq> ts_id s" using session_unique [OF assms(1) x assms(2)] assms(3) by auto
    then show "\<exists>s' \<in> set (tableSessions (set_session (ts_id s) f d)). ts_id s' = ts_id x \<and> (ts_status x \<noteq> s_open \<longrightarrow> s' = x)"
      using x assms(4) by (intro bexI [of _ "if ts_id x = ts_id s then f x else x"]) (auto simp: set_session_def set_update_rows)
  qed
qed

lemma sessions_forward_trans: "sessions_forward a b \<Longrightarrow> sessions_forward b c \<Longrightarrow> sessions_forward a c"
  unfolding sessions_forward_def by metis

text \<open>Opening a session: its row, and the first guest's.\<close>

lemma insert_session_keeps:
  assumes "take_id d = (i, d1)" "insert_session s d1 = Inr d2" "add_guest e s name phone d2 = (g, d3)" "ts_id s = i" "ts_status s = s_open" "ts_closedAt s = None"
    "sessions_ok d"
  shows "sessions_ok d3" "sessions_forward d d3" "d3 = d\<lparr>nextId := Suc (Suc (nextId d)), tableSessions := tableSessions d @ [s], guests := guests d @ [g]\<rparr>"
    "gu_sessionId g = i" "ts_tableId s \<noteq> None \<longrightarrow> ts_tableId s \<notin> set (open_tables (tableSessions d))" "gu_name g = name" "i = nextId d"
proof -
  have i: "i = nextId d" "d1 = d\<lparr>nextId := Suc (nextId d)\<rparr>" using assms(1) by (auto simp: take_id_def)
  have d2: "d2 = d1\<lparr>tableSessions := tableSessions d @ [s]\<rparr>" and free: "ts_tableId s \<noteq> None \<longrightarrow> ts_tableId s \<notin> set (open_tables (tableSessions d))"
    using assms(2) i by (auto simp: insert_session_def open_tables_def list_ex_iff split: if_splits)
  show d3: "d3 = d\<lparr>nextId := Suc (Suc (nextId d)), tableSessions := tableSessions d @ [s], guests := guests d @ [g]\<rparr>"
    and "gu_sessionId g = i" "gu_name g = name"
    using assms(3,4) i d2 by (auto simp: add_guest_def take_id_def Let_def)
  show "i = nextId d" by (rule i(1))
  show "ts_tableId s \<noteq> None \<longrightarrow> ts_tableId s \<notin> set (open_tables (tableSessions d))" by (rule free)
  have "keys_ok (Suc (Suc (nextId d))) (map ts_id (tableSessions d) @ [i])"
    using assms(7) i(1) by (auto simp: sessions_ok_def keys_ok_def)
  moreover have "distinct (open_tables (tableSessions d @ [s]))"
    using free assms(7) by (auto simp: sessions_ok_def open_tables_def)
  ultimately show "sessions_ok d3" using assms(4-7) by (simp add: d3 sessions_ok_def)
  show "sessions_forward d d3" by (auto simp: sessions_forward_def d3)
qed

lemma startSession_Inr:
  assumes "startSession e rnd dto d = Inr (r, d')" and "sessions_ok d"
  obtains out :: outlet and d1 s g where "d1 = (case open_session d (ou_tenantId out) (ss_tableId dto) of None \<Rightarrow> d | Some x \<Rightarrow> set_session (ts_id x) (close_session e) d)"
    "\<forall>x. open_session d (ou_tenantId out) (ss_tableId dto) = Some x \<longrightarrow> isSessionInactive e x \<or> isAbandoned e d x"
    "\<not> isTableBusy e d1 (ou_tenantId out) (ss_tableId dto)" "sessions_ok d1" "sessions_forward d d1"
    "d' = d1\<lparr>nextId := Suc (Suc (nextId d1)), tableSessions := tableSessions d1 @ [s], guests := guests d1 @ [g]\<rparr>"
    "s = new_session e (nextId d1) (ou_tenantId out) (ss_outletId dto) (Some (ss_tableId dto)) rnd (ss_name dto) (ss_phone dto)"
    "Some (ss_tableId dto) \<notin> set (open_tables (tableSessions d1))" "sessions_ok d'" "sessions_forward d1 d'" "gu_sessionId g = ts_id s"
    "sr_pin r = Some (generatePin rnd)" "gp_sessionId (sr_token r) = ts_id s" "gp_id (sr_token r) = gu_id g" "capability_enabled d (ss_outletId dto) CAPABILITY_KEY"
proof -
  obtain out table where o: "resolveOutletAndTable d (ss_outletId dto) (ss_tableId dto) = Inr (out, table)"
    and cap: "assertQrOrderingEnabled d (ss_outletId dto) = Inr ()"
    using assms(1) by (auto simp: startSession_def r_bind_eq_Inr)
  let ?d1 = "case open_session d (ou_tenantId out) (ss_tableId dto) of None \<Rightarrow> d | Some x \<Rightarrow> set_session (ts_id x) (close_session e) d"
  have old: "\<forall>x. open_session d (ou_tenantId out) (ss_tableId dto) = Some x \<longrightarrow> isSessionInactive e x \<or> isAbandoned e d x"
    using assms(1) o cap by (auto simp: startSession_def r_bind_eq_Inr split: if_splits)
  have pre: "(case open_session d (ou_tenantId out) (ss_tableId dto) of
              None \<Rightarrow> Inr d
            | Some existing \<Rightarrow>
                if \<not> isSessionInactive e existing \<and> \<not> isAbandoned e d existing then Inl (Conflict ''session_already_open'')
                else Inr (set_session (ts_id existing) (close_session e) d)) = Inr ?d1"
    using old by (cases "open_session d (ou_tenantId out) (ss_tableId dto)") auto
  obtain d1 where d1: "d1 = ?d1" by blast
  obtain i d2 where i: "take_id d1 = (i, d2)" by fastforce
  let ?s = "new_session e i (ou_tenantId out) (ss_outletId dto) (Some (ss_tableId dto)) rnd (ss_name dto) (ss_phone dto)"
  have run: "(if isTableBusy e d1 (ou_tenantId out) (ss_tableId dto) then Inl (Conflict ''table_has_active_order'')
      else r_bind (insert_session ?s d2) (\<lambda>d3. let (g, d4) = add_guest e ?s (ss_name dto) (Some (ss_phone dto)) d3
        in Inr (\<lparr>sr_token = principal_of ?s g (ss_outletId dto) (Some (ss_tableId dto)), sr_pin = Some (ts_sessionPin ?s),
                 sr_session = toSessionView ?s (Some table) [g]\<rparr>, d4))) = Inr (r, d')"
    using assms(1) unfolding startSession_def o cap r_bind_Inr prod.case pre d1 [symmetric] i Let_def .
  then have busy: "\<not> isTableBusy e d1 (ou_tenantId out) (ss_tableId dto)" by (auto split: if_splits)
  obtain d3 where d3: "insert_session ?s d2 = Inr d3" using run busy by (auto simp: r_bind_eq_Inr)
  obtain g d4 where g: "add_guest e ?s (ss_name dto) (Some (ss_phone dto)) d3 = (g, d4)" by fastforce
  have "(\<lparr>sr_token = principal_of ?s g (ss_outletId dto) (Some (ss_tableId dto)), sr_pin = Some (ts_sessionPin ?s),
                 sr_session = toSessionView ?s (Some table) [g]\<rparr>, d4) = (r, d')"
    using run unfolding if_not_P [OF busy] d3 r_bind_Inr g Let_def prod.case by (rule sum.inject(2) [THEN iffD1])
  then have r: "d' = d4" "sr_pin r = Some (generatePin rnd)" "gp_sessionId (sr_token r) = i" "gp_id (sr_token r) = gu_id g"
    by (auto simp: principal_of_def new_session_def)
  have k: "sessions_ok d1" "sessions_forward d d1"
  proof -
    have "sessions_ok d1 \<and> sessions_forward d d1"
    proof (cases "open_session d (ou_tenantId out) (ss_tableId dto)")
      case None
      then show ?thesis using assms(2) by (auto simp: d1 sessions_forward_def)
    next
      case (Some x)
      from set_session_keeps [OF assms(2), of x "close_session e"] open_session_Some [OF Some] show ?thesis by (simp add: d1 Some)
    qed
    then show "sessions_ok d1" "sessions_forward d d1" by auto
  qed
  have f: "ts_id ?s = i" "ts_status ?s = s_open" "ts_closedAt ?s = None" "ts_tableId ?s = Some (ss_tableId dto)" by (simp_all add: new_session_def)
  note n = insert_session_keeps [OF i d3 g f(1-3) k(1)]
  have c: "capability_enabled d (ss_outletId dto) CAPABILITY_KEY" using cap by (auto simp: assertQrOrderingEnabled_def split: if_splits)
  have e1: "d' = d1\<lparr>nextId := Suc (Suc (nextId d1)), tableSessions := tableSessions d1 @ [?s], guests := guests d1 @ [g]\<rparr>" using n(3) r(1) by simp
  have e2: "?s = new_session e (nextId d1) (ou_tenantId out) (ss_outletId dto) (Some (ss_tableId dto)) rnd (ss_name dto) (ss_phone dto)"
    unfolding n(7) by (rule refl)
  have e3: "Some (ss_tableId dto) \<notin> set (open_tables (tableSessions d1))" using n(5) f(4) by simp
  have e4: "sessions_ok d'" "sessions_forward d1 d'" using n(1,2) r(1) by simp_all
  have e5: "gu_sessionId g = ts_id ?s" "gp_sessionId (sr_token r) = ts_id ?s" unfolding f(1) using n(4) r(3) by simp_all
  show thesis by (rule that [OF d1 old busy k e1 e2 e3 e4 e5(1) r(2) e5(2) r(4) c])
qed

lemma only_sessions_refl: "only_sessions d d"
  unfolding only_sessions_def by (intro exI [of _ "nextId d"] exI [of _ "tableSessions d"] exI [of _ "[]"]) simp

lemma only_sessionsI: "d' = d\<lparr>nextId := n, tableSessions := ss, guests := guests d @ gs\<rparr> \<Longrightarrow> nextId d \<le> n \<Longrightarrow> only_sessions d d'"
  unfolding only_sessions_def by blast

lemma startSession_keeps:
  assumes "startSession e rnd dto d = Inr (r, d')" and "sessions_ok d"
  shows "sessions_ok d'" "sessions_forward d d'" "only_sessions d d'"
proof -
  obtain out :: outlet and d1 s g where c: "d1 = (case open_session d (ou_tenantId out) (ss_tableId dto) of None \<Rightarrow> d | Some x \<Rightarrow> set_session (ts_id x) (close_session e) d)"
    "sessions_forward d d1" "sessions_ok d'" "sessions_forward d1 d'"
    "d' = d1\<lparr>nextId := Suc (Suc (nextId d1)), tableSessions := tableSessions d1 @ [s], guests := guests d1 @ [g]\<rparr>"
    using assms by (rule startSession_Inr)
  show "sessions_ok d'" by (rule c(3))
  show "sessions_forward d d'" using c(2,4) by (rule sessions_forward_trans)
  have "\<exists>ss. d1 = d\<lparr>tableSessions := ss\<rparr>"
  proof (cases "open_session d (ou_tenantId out) (ss_tableId dto)")
    case None
    then show ?thesis unfolding c(1) by (intro exI [of _ "tableSessions d"]) simp
  next
    case (Some x)
    then show ?thesis unfolding c(1) set_session_def by (simp only: option.case) (rule exI, rule refl)
  qed
  then obtain ss where "d1 = d\<lparr>tableSessions := ss\<rparr>" by blast
  with c(5) show "only_sessions d d'" by (intro only_sessionsI [where n = "Suc (Suc (nextId d))" and ss = "ss @ [s]" and gs = "[g]"]) simp_all
qed

lemma startKioskSession_keeps:
  assumes "startKioskSession e rnd out dev d = Inr (r, d')" and "sessions_ok d"
  shows "sessions_ok d'" "sessions_forward d d'" "only_sessions d d'"
proof -
  obtain o1 v where o: "live_outlet d out = Some o1" "find (\<lambda>v. dv_id v = dev \<and> dv_tenantId v = ou_tenantId o1 \<and> dv_outletId v = Some out \<and> dv_type v = d_kiosk \<and>
      dv_status v = d_active) (devices d) = Some v" "tenant_serves d (ou_tenantId o1)" "capability_enabled d out KIOSK_CAPABILITY_KEY"
    using assms(1) by (auto simp: startKioskSession_def split: option.splits if_splits)
  obtain i d1 where i: "take_id d = (i, d1)" by fastforce
  let ?s = "new_session e i (ou_tenantId o1) out None rnd ''Kiosk'' []"
  have run: "r_bind (insert_session ?s d1) (\<lambda>d2. let (g, d3) = add_guest e ?s (dv_label v) None d2
      in Inr (\<lparr>sr_token = principal_of ?s g out None, sr_pin = None, sr_session = toSessionView ?s None [g]\<rparr>, d3)) = Inr (r, d')"
    using assms(1) o i by (simp add: startKioskSession_def Let_def)
  obtain d2 where d2: "insert_session ?s d1 = Inr d2" using run by (auto simp: r_bind_eq_Inr)
  obtain g d3 where g: "add_guest e ?s (dv_label v) None d2 = (g, d3)" by fastforce
  have d': "d' = d3" using run by (simp add: d2 g)
  have f: "ts_id ?s = i" "ts_status ?s = s_open" "ts_closedAt ?s = None" by (simp_all add: new_session_def)
  note n = insert_session_keeps [OF i d2 g f assms(2)]
  show "sessions_ok d'" "sessions_forward d d'" using n(1,2) d' by simp_all
  show "only_sessions d d'" using n(3) d'
    by (intro only_sessionsI [where n = "Suc (Suc (nextId d))" and ss = "tableSessions d @ [?s]" and gs = "[g]"]) simp_all
qed

lemma joinSession_Inr:
  assumes "joinSession e dto ip d a = (Inr (r, d'), a')"
  obtains out table s g a1 where "join_target e dto d = Inr (table, s)" "open_session d (ou_tenantId (out :: outlet)) (js_tableId dto) = Some s"
    "\<not> isSessionInactive e s" "ts_sessionPin s = js_pin dto" "consume (now e) (join_rules dto ip) a = (Inr (), a1)"
    "a' = refund_attempts (now e) (join_rules dto ip) a1" "gu_sessionId g = ts_id s" "gu_name g = js_name dto" "gu_id g = nextId d"
    "d' = d\<lparr>nextId := Suc (nextId d), guests := guests d @ [g]\<rparr>" "sr_token r = principal_of s g (js_outletId dto) (Some (js_tableId dto))"
proof -
  obtain table s where j: "join_target e dto d = Inr (table, s)"
    using assms by (cases "join_target e dto d") (auto simp: joinSession_def)
  obtain out where o: "open_session d (ou_tenantId (out :: outlet)) (js_tableId dto) = Some s" "\<not> isSessionInactive e s"
    using j by (auto simp: join_target_def r_bind_eq_Inr split: option.splits if_splits)
  obtain u a1 where c: "consume (now e) (join_rules dto ip) a = (Inr u, a1)"
    using assms j by (cases "consume (now e) (join_rules dto ip) a"; cases "fst (consume (now e) (join_rules dto ip) a)") (auto simp: joinSession_def)
  have pin: "ts_sessionPin s = js_pin dto" using assms j c by (auto simp: joinSession_def split: if_splits)
  let ?g = "\<lparr>gu_id = nextId d, gu_tenantId = ts_tenantId s, gu_sessionId = ts_id s, gu_name = js_name dto, gu_phone = None, gu_joinedAt = now e\<rparr>"
  have "d' = d\<lparr>nextId := Suc (nextId d), guests := guests d @ [?g]\<rparr>" "sr_token r = principal_of s ?g (js_outletId dto) (Some (js_tableId dto))"
    "a' = refund_attempts (now e) (join_rules dto ip) a1"
    using assms pin by (auto simp: joinSession_def j c add_guest_def take_id_def Let_def)
  with j o c pin show thesis by (intro that [of table s out a1 ?g]) simp_all
qed

lemma joinSession_keeps:
  assumes "joinSession e dto ip d a = (Inr (r, d'), a')" and "sessions_ok d"
  shows "sessions_ok d'" "sessions_forward d d'" "only_sessions d d'"
proof -
  obtain g where g: "d' = d\<lparr>nextId := Suc (nextId d), guests := guests d @ [g]\<rparr>" using assms(1) by (rule joinSession_Inr) (rule that)
  show "sessions_ok d'" by (rule sessions_ok_frame [OF assms(2)]) (simp_all add: g)
  show "sessions_forward d d'" by (auto simp: sessions_forward_def g)
  show "only_sessions d d'" using g
    by (intro only_sessionsI [where n = "Suc (nextId d)" and ss = "tableSessions d" and gs = "[g]"]) simp_all
qed

lemma closeSessionForStaff_keeps:
  assumes "closeSessionForStaff e t out k d = Inr ((), d')" and "sessions_ok d"
  shows "sessions_ok d'" "sessions_forward d d'" "only_sessions d d'"
proof -
  obtain s where s: "open_session d t k = Some s" "d' = set_session (ts_id s) (close_session e) d"
    using assms(1) by (auto simp: closeSessionForStaff_def split: option.splits)
  note k = set_session_keeps [OF assms(2), of s "close_session e"]
  show "sessions_ok d'" "sessions_forward d d'" using k open_session_Some [OF s(1)] s(2) by simp_all
  show "only_sessions d d'" using s(2)
    by (intro only_sessionsI [where n = "nextId d" and ss = "update_rows (\<lambda>x. ts_id x = ts_id s) (close_session e) (tableSessions d)" and gs = "[]"])
      (simp_all add: set_session_def)
qed

subsection \<open>The contract of a session operation\<close>

locale session_operation =
  fixes run :: "db \<Rightarrow> db \<Rightarrow> bool"
  assumes run_session: "run d d' \<Longrightarrow> sessions_ok d \<Longrightarrow> sessions_ok d' \<and> sessions_forward d d' \<and> only_sessions d d'"
begin

lemma run_core:
  assumes "run d d'" "sessions_ok d"
  shows "same_core d d'"
  using run_session [OF assms] by (auto simp: only_sessions_def same_core_def)

lemmas run_keeps_rest = same_core_keeps [OF run_core]

lemma run_shifts:
  assumes "run d d'" "sessions_ok d" "shifts_ok d"
  shows "shifts_ok d'"
  using run_session [OF assms(1,2)] by (auto simp: only_sessions_def intro: shifts_ok_frame [OF assms(3)])

end

interpretation start_session: session_operation "\<lambda>d d'. \<exists>r. startSession e rnd dto d = Inr (r, d')" for e rnd dto
  by unfold_locales (elim exE, intro conjI; rule startSession_keeps; assumption)

interpretation start_kiosk: session_operation "\<lambda>d d'. \<exists>r. startKioskSession e rnd out dev d = Inr (r, d')" for e rnd out dev
  by unfold_locales (elim exE, intro conjI; rule startKioskSession_keeps; assumption)

interpretation join_session: session_operation "\<lambda>d d'. \<exists>r a a'. joinSession e dto ip d a = (Inr (r, d'), a')" for e dto ip
  by unfold_locales (elim exE, intro conjI; rule joinSession_keeps; assumption)

interpretation close_session: session_operation "\<lambda>d d'. closeSessionForStaff e t out k d = Inr ((), d')" for e t out k
  by unfold_locales (intro conjI; rule closeSessionForStaff_keeps; assumption)

section \<open>What a session guarantees\<close>

lemma show_digits_length: "n < 10 ^ Suc k \<Longrightarrow> length (show_digits n) \<le> Suc k \<and> length (show_digits n) \<ge> 1"
proof (induction k arbitrary: n)
  case (Suc k)
  show ?case
  proof (cases "n < 10")
    case False
    have "n div 10 < 10 ^ Suc k" using Suc.prems by auto
    from Suc.IH [OF this] False show ?thesis by (simp add: show_digits.simps [of n])
  qed (simp add: show_digits.simps)
qed (simp add: show_digits.simps)

lemma generatePin_length: "n < 10000 \<Longrightarrow> length (generatePin n) = 4"
  using show_digits_length [of n 3] by (simp add: generatePin_def Let_def)

text \<open>C18: Starting a session at a table never takes it from guests who are using it. It succeeds only where QR ordering
  is enabled, no order of the last twelve hours is open at the table, and any session still open there has expired or is abandoned;
  that one is closed. The new session is then the only open one at the table, is active, and has a PIN of
  four digits.\<close>

theorem startSession_never_evicts:
  assumes "startSession e rnd dto d = Inr (r, d')" and "sessions_ok d" and "rnd < 10000"
  shows "\<exists>s. filter (\<lambda>x. ts_tableId x = Some (ss_tableId dto) \<and> ts_status x = s_open) (tableSessions d') = [s] \<and>
      ts_id s = gp_sessionId (sr_token r) \<and> \<not> isSessionInactive e s \<and> sr_pin r = Some (ts_sessionPin s) \<and> length (ts_sessionPin s) = 4 \<and>
      (\<forall>x \<in> set (tableSessions d). ts_tableId x = Some (ss_tableId dto) \<and> ts_status x = s_open \<longrightarrow>
        (isSessionInactive e x \<or> isAbandoned e d x) \<and> close_session e x \<in> set (tableSessions d')) \<and>
      (\<forall>x \<in> set (orders d'). o_tenantId x = ts_tenantId s \<and> o_tableId x = Some (ss_tableId dto) \<and> o_status x \<noteq> o_closed \<longrightarrow> o_createdAt x < liveSince e) \<and>
      capability_enabled d (ss_outletId dto) ''qr_ordering''"
proof -
  obtain out :: outlet and d1 s g where c:
    "d1 = (case open_session d (ou_tenantId out) (ss_tableId dto) of None \<Rightarrow> d | Some x \<Rightarrow> set_session (ts_id x) (close_session e) d)"
    "\<forall>x. open_session d (ou_tenantId out) (ss_tableId dto) = Some x \<longrightarrow> isSessionInactive e x \<or> isAbandoned e d x"
    "\<not> isTableBusy e d1 (ou_tenantId out) (ss_tableId dto)" "sessions_ok d1"
    "d' = d1\<lparr>nextId := Suc (Suc (nextId d1)), tableSessions := tableSessions d1 @ [s], guests := guests d1 @ [g]\<rparr>"
    "s = new_session e (nextId d1) (ou_tenantId out) (ss_outletId dto) (Some (ss_tableId dto)) rnd (ss_name dto) (ss_phone dto)"
    "Some (ss_tableId dto) \<notin> set (open_tables (tableSessions d1))" "sr_pin r = Some (generatePin rnd)" "gp_sessionId (sr_token r) = ts_id s"
    "capability_enabled d (ss_outletId dto) CAPABILITY_KEY"
    using assms(1,2) by (rule startSession_Inr) (rule that)
  let ?at = "\<lambda>x. ts_tableId x = Some (ss_tableId dto) \<and> ts_status x = s_open"
  have s: "ts_tableId s = Some (ss_tableId dto)" "ts_status s = s_open" "ts_sessionPin s = generatePin rnd" "ts_tenantId s = ou_tenantId out"
    "ts_expiresAt s = now e + SESSION_IDLE_TTL_MS" by (simp_all add: c(6) new_session_def)
  have none: "filter ?at (tableSessions d1) = []" using c(7) by (force simp: open_tables_def filter_empty_conv)
  then have one: "filter ?at (tableSessions d') = [s]" using s(1,2) by (simp add: c(5))
  have act: "\<not> isSessionInactive e s" using s(2,5) by (simp add: isSessionInactive_def SESSION_IDLE_TTL_MS_def)
  have was: "(isSessionInactive e x \<or> isAbandoned e d x) \<and> close_session e x \<in> set (tableSessions d')"
    if x: "x \<in> set (tableSessions d)" "?at x" for x
  proof (cases "open_session d (ou_tenantId out) (ss_tableId dto)")
    case None
    then have "x \<in> set (filter ?at (tableSessions d1))" using x by (simp add: c(1))
    then show ?thesis using none by simp
  next
    case (Some y)
    have "ts_id x = ts_id y"
    proof (rule ccontr)
      assume "ts_id x \<noteq> ts_id y"
      then have "x \<in> set (tableSessions d1)" using x(1) by (force simp: c(1) Some set_session_def set_update_rows)
      with x(2) have "x \<in> set (filter ?at (tableSessions d1))" by simp
      then show False using none by simp
    qed
    then have "x = y" using session_unique [OF assms(2) x(1)] open_session_Some [OF Some] by blast
    moreover have "close_session e y \<in> set (tableSessions d1)"
      using open_session_Some [OF Some] by (auto simp: c(1) Some set_session_def set_update_rows)
    ultimately show ?thesis using c(2) Some by (simp add: c(5))
  qed
  have d1: "orders d' = orders d1" by (simp add: c(5))
  have free: "o_createdAt x < liveSince e" if x: "x \<in> set (orders d')" "o_tenantId x = ou_tenantId out \<and> o_tableId x = Some (ss_tableId dto) \<and> o_status x \<noteq> o_closed" for x
  proof (rule ccontr)
    let ?live = "\<lambda>x. o_tenantId x = ou_tenantId out \<and> o_tableId x = Some (ss_tableId dto) \<and> o_status x \<noteq> o_closed \<and> liveSince e \<le> o_createdAt x"
    assume "\<not> o_createdAt x < liveSince e"
    then have "\<exists>x \<in> set (orders d1). ?live x" using x d1 by auto
    then have "find ?live (orders d1) \<noteq> None" by (auto simp: find_None_iff)
    then obtain z where z: "find ?live (orders d1) = Some z" by auto
    have "\<not> (case o_sessionId z of None \<Rightarrow> True | Some sid \<Rightarrow> (case find_row ts_id sid (tableSessions d1) of None \<Rightarrow> True
        | Some s \<Rightarrow> ts_tableId s \<noteq> Some (ss_tableId dto) \<or> isSessionInactive e s))"
      using c(3) unfolding isTableBusy_def z option.case .
    then obtain sid y where "find_row ts_id sid (tableSessions d1) = Some y" "ts_tableId y = Some (ss_tableId dto)" "\<not> isSessionInactive e y"
      by (auto split: option.splits)
    then have "y \<in> set (filter ?at (tableSessions d1))" using find_row_Some [of ts_id sid "tableSessions d1" y] by (simp add: isSessionInactive_def)
    then show False using none by simp
  qed
  have pin: "sr_pin r = Some (ts_sessionPin s)" "length (ts_sessionPin s) = 4" using c(8) s(3) generatePin_length [OF assms(3)] by simp_all
  have f: "\<forall>x \<in> set (orders d'). o_tenantId x = ts_tenantId s \<and> o_tableId x = Some (ss_tableId dto) \<and> o_status x \<noteq> o_closed \<longrightarrow> o_createdAt x < liveSince e"
    unfolding s(4) using free by blast
  have w: "\<forall>x \<in> set (tableSessions d). ts_tableId x = Some (ss_tableId dto) \<and> ts_status x = s_open \<longrightarrow>
      (isSessionInactive e x \<or> isAbandoned e d x) \<and> close_session e x \<in> set (tableSessions d')" using was by blast
  have cap: "capability_enabled d (ss_outletId dto) ''qr_ordering''" using c(10) unfolding CAPABILITY_KEY_def .
  show ?thesis by (intro exI [of _ s] conjI one act pin f w cap c(9) [symmetric])
qed

text \<open>C19: Joining takes the PIN. A guest gets into a table's session only with its PIN while the session is active, and only one
  row is written, the guest's; a wrong PIN changes nothing but is counted, against the address and the
  table, and no guess is compared once 10 from one address or 30 at the table were spent in a window.\<close>

theorem joinSession_guarded:
  assumes "join_target e dto d = Inr (table, s)" and "joinSession e dto ip d a = (r, a')"
  shows "(case r of
      Inr (v, d') \<Rightarrow> ts_sessionPin s = js_pin dto \<and> \<not> isSessionInactive e s \<and> s \<in> set (tableSessions d) \<and> ts_tableId s = Some (js_tableId dto) \<and>
        gp_sessionId (sr_token v) = ts_id s \<and>
        (\<exists>g. d' = d\<lparr>nextId := Suc (nextId d), guests := guests d @ [g]\<rparr> \<and> gu_sessionId g = ts_id s \<and> gu_id g = gp_id (sr_token v))
    | Inl err \<Rightarrow> err = Forbidden ''invalid_pin'' \<and> ts_sessionPin s \<noteq> js_pin dto \<or> (\<exists>n. err = LockedOut n)) \<and>
    ((\<exists>n. r = Inl (LockedOut n)) \<longleftrightarrow>
      at_attempts (count_attempt (now e) (join_rules dto ip ! 0) a) > 10 \<or> at_attempts (count_attempt (now e) (join_rules dto ip ! 1) a) > 30) \<and>
    (r = Inl (Forbidden ''invalid_pin'') \<longrightarrow> (\<forall>rule \<in> set (join_rules dto ip). a' (ar_key rule) = Some (count_attempt (now e) rule a)))"
proof -
  obtain out where o: "open_session d (ou_tenantId (out :: outlet)) (js_tableId dto) = Some s" "\<not> isSessionInactive e s"
    using assms(1) by (auto simp: join_target_def r_bind_eq_Inr split: option.splits if_splits)
  note m = open_session_Some [OF o(1)]
  obtain r0 r1 where rules: "join_rules dto ip = [r0, r1]" "ar_max r0 = 10" "ar_max r1 = 30" "ar_key r0 \<noteq> ar_key r1" by (simp add: join_rules_def)
  have second: "count_attempt (now e) r1 (a(ar_key r0 \<mapsto> x)) = count_attempt (now e) r1 a" for x
    using rules(4) by (simp add: count_attempt_def)
  let ?c0 = "count_attempt (now e) r0 a" and ?c1 = "count_attempt (now e) r1 a"
  have run: "consume (now e) (join_rules dto ip) a =
    (if at_attempts ?c0 > 10 then (Inl (LockedOut (retry_after (now e) r0 ?c0)), a(ar_key r0 \<mapsto> ?c0))
     else if at_attempts ?c1 > 30 then (Inl (LockedOut (retry_after (now e) r1 ?c1)), a(ar_key r0 \<mapsto> ?c0, ar_key r1 \<mapsto> ?c1))
     else (Inr (), a(ar_key r0 \<mapsto> ?c0, ar_key r1 \<mapsto> ?c1)))"
    by (subst rules(1)) (simp add: Let_def second rules(2,3))
  show ?thesis
  proof (cases "at_attempts ?c0 > 10 \<or> at_attempts ?c1 > 30")
    case True
    then obtain n a1 where "consume (now e) (join_rules dto ip) a = (Inl (LockedOut n), a1)" unfolding run by (cases "at_attempts ?c0 > 10") simp_all
    then have "r = Inl (LockedOut n)" using assms by (simp add: joinSession_def)
    then show ?thesis using True by (simp add: rules(1))
  next
    case False
    then have c: "consume (now e) (join_rules dto ip) a = (Inr (), a(ar_key r0 \<mapsto> ?c0, ar_key r1 \<mapsto> ?c1))" unfolding run by simp
    show ?thesis
    proof (cases "ts_sessionPin s = js_pin dto")
      case True
      let ?g = "\<lparr>gu_id = nextId d, gu_tenantId = ts_tenantId s, gu_sessionId = ts_id s, gu_name = js_name dto, gu_phone = None, gu_joinedAt = now e\<rparr>"
      obtain v where "r = Inr (v, d\<lparr>nextId := Suc (nextId d), guests := guests d @ [?g]\<rparr>)" "sr_token v = principal_of s ?g (js_outletId dto) (Some (js_tableId dto))"
        using assms True by (auto simp: joinSession_def c add_guest_def take_id_def Let_def)
      then show ?thesis using False True o(2) m by (auto simp: principal_of_def rules(1))
    next
      case wrong: False
      then have "r = Inl (Forbidden ''invalid_pin'')" "a' = a(ar_key r0 \<mapsto> ?c0, ar_key r1 \<mapsto> ?c1)" using assms by (auto simp: joinSession_def c)
      then show ?thesis using False wrong rules(1,4) by auto
    qed
  qed
qed

section \<open>A table in the sample restaurant\<close>

text \<open>Table 30 with a session its guests left open long ago.\<close>

definition s_session :: table_session where
  "s_session = \<lparr>ts_id = 86, ts_tenantId = 1, ts_outletId = 2, ts_tableId = Some 30, ts_status = s_open, ts_sessionPin = ''0042'',
     ts_startedByGuestName = ''Ravi'', ts_startedByGuestPhone = ''9876543210'', ts_createdAt = 997000000, ts_closedAt = None, ts_expiresAt = 1011400000\<rparr>"

definition s_db_qr :: db where
  "s_db_qr = s_db\<lparr>capabilities := [\<lparr>oc_outletId = 2, oc_key = ''qr_ordering'', oc_enabled = True\<rparr>], tableSessions := [s_session]\<rparr>"

definition s_start :: start_session_dto where
  "s_start = \<lparr>ss_outletId = 2, ss_tableId = 30, ss_name = ''Mira'', ss_phone = ''9876500000''\<rparr>"

definition s_join :: "string \<Rightarrow> join_session_dto" where
  "s_join pin = \<lparr>js_outletId = 2, js_tableId = 30, js_pin = pin, js_name = ''Mira''\<rparr>"

lemmas session_eval = startSession_def resolveOutletAndTable_def live_outlet_def table_at_def assertQrOrderingEnabled_def capability_enabled_def
  CAPABILITY_KEY_def open_session_def isSessionInactive_def isAbandoned_def last_activity_def ABANDONED_AFTER_MS_def count_rows_def isTableBusy_def
  set_session_def update_rows_def take_id_def new_session_def insert_session_def add_guest_def join_target_def find_row_def Let_def
  s_session_def s_db_qr_def s_start_def s_join_def close_session_def

lemma start_sample: "\<exists>r d. startSession s_env 42 s_start s_db_qr = Inr (r, d)"
  by (simp add: session_eval sample_defs)

lemma s_db_qr_ok: "sessions_ok s_db_qr"
  by (simp add: sessions_ok_def keys_ok_def open_tables_def session_eval sample_defs)

theorem startSession_never_evicts_witness:
  "\<exists>r d s. startSession s_env 42 s_start s_db_qr = Inr (r, d) \<and> filter (\<lambda>x. ts_tableId x = Some 30 \<and> ts_status x = s_open) (tableSessions d) = [s] \<and>
     ts_id s = gp_sessionId (sr_token r) \<and> close_session s_env s_session \<in> set (tableSessions d)"
proof -
  obtain r d where r: "startSession s_env 42 s_start s_db_qr = Inr (r, d)" using start_sample by blast
  have m: "s_session \<in> set (tableSessions s_db_qr)" "ts_tableId s_session = Some 30" "ts_status s_session = s_open" "ss_tableId s_start = 30"
    by (simp_all add: s_db_qr_def s_session_def s_start_def)
  have n: "(42 :: nat) < 10000" by simp
  from startSession_never_evicts [OF r s_db_qr_ok n] obtain s where
    "filter (\<lambda>x. ts_tableId x = Some 30 \<and> ts_status x = s_open) (tableSessions d) = [s]" "ts_id s = gp_sessionId (sr_token r)"
    "\<forall>x \<in> set (tableSessions s_db_qr). ts_tableId x = Some 30 \<and> ts_status x = s_open \<longrightarrow>
        (isSessionInactive s_env x \<or> isAbandoned s_env s_db_qr x) \<and> close_session s_env x \<in> set (tableSessions d)"
    unfolding m(4) by blast
  with r m show ?thesis by blast
qed

theorem joinSession_guarded_witness:
  "(\<exists>v d a. joinSession s_env (s_join ''0042'') ''10.0.0.9'' s_db_qr (\<lambda>_. None) = (Inr (v, d), a) \<and> gp_sessionId (sr_token v) = 86) \<and>
   fst (joinSession s_env (s_join ''1234'') ''10.0.0.9'' s_db_qr (\<lambda>_. None)) = Inl (Forbidden ''invalid_pin'')"
proof -
  have t: "\<exists>table. join_target s_env (s_join p) s_db_qr = Inr (table, s_session)" for p
    by (simp add: session_eval sample_defs)
  have c: "at_attempts (count_attempt (now s_env) rule (\<lambda>_. None)) = 1" for rule by (simp add: count_attempt_def)
  have pin: "ts_sessionPin s_session = ''0042''" "ts_id s_session = 86" "js_pin (s_join p) = p" for p by (simp_all add: s_session_def s_join_def)
  have open0: "(\<exists>n. fst (joinSession s_env (s_join p) ''10.0.0.9'' s_db_qr (\<lambda>_. None)) = Inl (LockedOut n)) = False" for p
  proof -
    obtain table where j: "join_target s_env (s_join p) s_db_qr = Inr (table, s_session)" using t by blast
    obtain r a' where "joinSession s_env (s_join p) ''10.0.0.9'' s_db_qr (\<lambda>_. None) = (r, a')" by fastforce
    from joinSession_guarded [OF j this] this show ?thesis by (simp add: c)
  qed
  have one: "(case fst (joinSession s_env (s_join p) ''10.0.0.9'' s_db_qr (\<lambda>_. None)) of Inr (v, d') \<Rightarrow> p = ''0042'' \<and> gp_sessionId (sr_token v) = 86
      | Inl err \<Rightarrow> err = Forbidden ''invalid_pin'' \<and> p \<noteq> ''0042'')" for p
  proof -
    obtain table where j: "join_target s_env (s_join p) s_db_qr = Inr (table, s_session)" using t by blast
    obtain r a' where e: "joinSession s_env (s_join p) ''10.0.0.9'' s_db_qr (\<lambda>_. None) = (r, a')" by fastforce
    from joinSession_guarded [OF j e] open0 [of p] show ?thesis by (auto simp: e pin c split: sum.splits)
  qed
  from one [of "''0042''"] one [of "''1234''"] show ?thesis
    by (cases "joinSession s_env (s_join ''0042'') ''10.0.0.9'' s_db_qr (\<lambda>_. None)") (auto split: sum.splits)
qed

end
