(* ===== verification/GuestBills.thy ===== *)
theory GuestBills
  imports GuestSessions
begin

text \<open>
  Paying from the phone, \<^verbatim>\<open>src/src/guest/bills/bills.service.ts\<close>: the guests' shares of a bill, which are re-derived
  on every read so that they sum to the current total, paying one share or the whole bill, and the
  completion that finalises the bill through the same core as the till and settles the session.
\<close>

section \<open>Views and checks\<close>

record bill_share_view =
  bv_guestId :: uuid
  bv_guestName :: string
  bv_amountMinor :: int
  bv_status :: share_status
  bv_payerPhone :: "string option"
  bv_paidAt :: "date option"

record guest_bill_view =
  gb_bill :: bill_view
  gb_shares :: "bill_share_view list"
  gb_paymentsAvailable :: bool

record simulated_payment_dto =
  sp_simulatedOutcome :: simulated_outcome
  sp_payerPhone :: "string option"

definition loadOrderForSession :: "db \<Rightarrow> uuid \<Rightarrow> uuid \<Rightarrow> uuid \<Rightarrow> order result" where
  "loadOrderForSession d tenantId sessionId orderId =
    (case find_row o_id orderId (orders d) of
       None \<Rightarrow> Inl (NotFound ''not_found'')
     | Some x \<Rightarrow> if o_tenantId x \<noteq> tenantId \<or> o_sessionId x \<noteq> Some sessionId then Inl (NotFound ''not_found'') else Inr x)"

definition assertSessionActive :: "env \<Rightarrow> db \<Rightarrow> uuid \<Rightarrow> uuid \<Rightarrow> table_session result" where
  "assertSessionActive e d tenantId sessionId =
    (case find_row ts_id sessionId (tableSessions d) of
       None \<Rightarrow> Inl (NotFound ''not_found'')
     | Some s \<Rightarrow> if ts_tenantId s \<noteq> tenantId then Inl (NotFound ''not_found'')
                 else if isSessionInactive e s then Inl (Gone ''session_closed'') else Inr s)"

definition assertGuestPaymentsAvailable :: "env \<Rightarrow> db \<Rightarrow> uuid \<Rightarrow> unit result" where
  "assertGuestPaymentsAvailable e d tenantId =
    (if \<not> paymentsSimulatorFor e d tenantId then Inl (Conflict ''provider_unavailable'') else Inr ())"

definition toShareView :: "bill_share \<Rightarrow> bill_share_view" where
  "toShareView s = \<lparr>bv_guestId = bs_guestId s, bv_guestName = bs_guestName s, bv_amountMinor = bs_amountMinor s, bv_status = bs_status s,
     bv_payerPhone = bs_payerPhone s, bv_paidAt = bs_paidAt s\<rparr>"

definition bill_shares :: "db \<Rightarrow> uuid \<Rightarrow> bill_share list" where
  "bill_shares d billId = filter (\<lambda>s. bs_billId s = billId) (billShares d)"

definition loadShareViews :: "db \<Rightarrow> uuid \<Rightarrow> bill_share_view list" where
  "loadShareViews d billId = map toShareView (bill_shares d billId)"

definition guest_view :: "env \<Rightarrow> uuid \<Rightarrow> bill_with_tenders \<Rightarrow> db \<Rightarrow> guest_bill_view" where
  "guest_view e tenantId bt d = \<lparr>gb_bill = toBillView bt, gb_shares = loadShareViews d (b_id (fst bt)),
     gb_paymentsAvailable = paymentsSimulatorFor e d tenantId\<rparr>"

definition buildView :: "env \<Rightarrow> uuid \<Rightarrow> uuid \<Rightarrow> db \<Rightarrow> guest_bill_view result" where
  "buildView e tenantId billId d = r_bind (loadBill d tenantId billId) (\<lambda>bt. Inr (guest_view e tenantId bt d))"

section \<open>Shares\<close>

text \<open>What each guest ordered, in the order in which the guests first appear.\<close>

fun add_weight :: "uuid \<Rightarrow> string \<Rightarrow> int \<Rightarrow> (uuid \<times> string \<times> int) list \<Rightarrow> (uuid \<times> string \<times> int) list" where
  "add_weight g name amount [] = [(g, name, amount)]"
| "add_weight g name amount ((h, n, w) # ws) = (if h = g then (h, n, w + amount) # ws else (h, n, w) # add_weight g name amount ws)"

definition share_weights :: "order_line list \<Rightarrow> (uuid \<times> string \<times> int) list" where
  "share_weights ls =
    foldl (\<lambda>ws l. case ol_guestId l of None \<Rightarrow> ws
                  | Some g \<Rightarrow> add_weight g (nullish (ol_guestName l) ''Guest'') (ol_quantity l * line_unit l) ws) [] ls"

definition weightOf :: "(uuid \<times> string \<times> int) list \<Rightarrow> uuid \<Rightarrow> int" where
  "weightOf ws g = (case map_of ws g of None \<Rightarrow> 0 | Some (_, w) \<Rightarrow> w)"

definition add_missing_share :: "uuid \<Rightarrow> uuid \<Rightarrow> db \<Rightarrow> uuid \<times> string \<times> int \<Rightarrow> db" where
  "add_missing_share tenantId billId d w = (case w of (g, name, _) \<Rightarrow>
    if list_ex (\<lambda>s. bs_guestId s = g) (bill_shares d billId) then d
    else let (i, d1) = take_id d
         in d1\<lparr>billShares := billShares d1 @ [\<lparr>bs_id = i, bs_tenantId = tenantId, bs_billId = billId, bs_guestId = g, bs_guestName = name,
              bs_amountMinor = 0, bs_status = outstanding, bs_payerPhone = None, bs_tenderId = None, bs_paidAt = None\<rparr>]\<rparr>)"

text \<open>What is due, in proportion to the weights; the last share takes the rest.\<close>

fun allocate_shares :: "int \<Rightarrow> int \<Rightarrow> (uuid \<Rightarrow> int) \<Rightarrow> int \<Rightarrow> bill_share list \<Rightarrow> (uuid \<times> int) list" where
  "allocate_shares due totalWeight w allocated [] = []"
| "allocate_shares due totalWeight w allocated [s] = [(bs_id s, due - allocated)]"
| "allocate_shares due totalWeight w allocated (s # t # ss) =
    (let a = (if totalWeight = 0 then 0 else (due * w (bs_guestId s)) sdiv totalWeight)
     in (bs_id s, a) # allocate_shares due totalWeight w (allocated + a) (t # ss))"

definition set_amount :: "bill_share list \<Rightarrow> uuid \<times> int \<Rightarrow> bill_share list" where
  "set_amount ss u = update_rows (\<lambda>s. bs_id s = fst u) (\<lambda>s. s\<lparr>bs_amountMinor := snd u\<rparr>) ss"

definition syncShares :: "uuid \<Rightarrow> bill_with_tenders \<Rightarrow> db \<Rightarrow> db result" where
  "syncShares tenantId bt d = (case bt of (b, ts) \<Rightarrow>
    if b_status b \<noteq> b_open then Inr d
    else let ws = share_weights (live_lines d (b_orderId b));
             d1 = foldl (add_missing_share tenantId (b_id b)) d ws;
             shares = bill_shares d1 (b_id b);
             paidMinor = foldl (\<lambda>a s. a + bs_amountMinor s) 0 (filter (\<lambda>s. bs_status s = paid) shares);
             dueMinor = bw_totalMinor (toBillView bt) - paidMinor;
             rest = filter (\<lambda>s. bs_status s = outstanding) shares;
             totalWeight = foldl (\<lambda>a s. a + weightOf ws (bs_guestId s)) 0 rest
         in if dueMinor < 0 \<or> (dueMinor > 0 \<and> rest = []) then Inl (Conflict ''bill_changed'')
            else Inr (d1\<lparr>billShares := foldl set_amount (billShares d1) (allocate_shares dueMinor totalWeight (weightOf ws) 0 rest)\<rparr>))"

section \<open>Handlers\<close>

definition guest_createBill :: "env \<Rightarrow> guest_principal \<Rightarrow> uuid \<Rightarrow> db \<Rightarrow> ((guest_bill_view \<times> bool) \<times> db) result" where
  "guest_createBill e guest orderId d =
    r_bind (assertSessionActive e d (gp_tenantId guest) (gp_sessionId guest)) (\<lambda>_.
    r_bind (loadOrderForSession d (gp_tenantId guest) (gp_sessionId guest) orderId) (\<lambda>x.
    r_bind (createOrGetBillRecord e \<lparr>cp_tenantId = gp_tenantId guest, cp_outletId = o_outletId x, cp_orderId = orderId,
              cp_createdByStaffId = None, cp_orderClosed = (o_status x = o_closed)\<rparr> d) (\<lambda>((bt, created), d1).
    r_bind (syncShares (gp_tenantId guest) bt d1) (\<lambda>d2. Inr ((guest_view e (gp_tenantId guest) bt d2, created), d2)))))"

definition guest_getBill :: "env \<Rightarrow> guest_principal \<Rightarrow> uuid \<Rightarrow> db \<Rightarrow> (guest_bill_view \<times> db) result" where
  "guest_getBill e guest orderId d =
    r_bind (loadOrderForSession d (gp_tenantId guest) (gp_sessionId guest) orderId) (\<lambda>x.
    (case find_row b_orderId (o_id x) (bills d) of
       None \<Rightarrow> Inl (NotFound ''not_found'')
     | Some row \<Rightarrow>
         r_bind (r_bind (loadBill d (gp_tenantId guest) (b_id row)) (\<lambda>bt0. refreshOpenBillTotals bt0 d)) (\<lambda>(bt, d1).
         r_bind (syncShares (gp_tenantId guest) bt d1) (\<lambda>d2. Inr (guest_view e (gp_tenantId guest) bt d2, d2)))))"

definition guest_getInvoice :: "guest_principal \<Rightarrow> uuid \<Rightarrow> db \<Rightarrow> (invoice_view \<times> db) result" where
  "guest_getInvoice guest billId d =
    r_bind (loadBill d (gp_tenantId guest) billId) (\<lambda>(b, ts).
    r_bind (loadOrderForSession d (gp_tenantId guest) (gp_sessionId guest) (b_orderId b)) (\<lambda>_.
      if b_status b \<noteq> b_finalized then Inl (Conflict ''not_finalized'') else buildInvoiceView (gp_tenantId guest) billId d))"

definition completeBill :: "env \<Rightarrow> uuid \<Rightarrow> uuid \<Rightarrow> order \<Rightarrow> db \<Rightarrow> db result" where
  "completeBill e tenantId billId x d =
    r_bind (loadBill d tenantId billId) (\<lambda>(fresh, ts).
    r_bind (commitFinalize e \<lparr>cf_tenantId = tenantId, cf_bill = fresh, cf_discountMinor = None, cf_discountReason = None,
              cf_finalizedByStaffId = None\<rparr> d) (\<lambda>(bt, d1).
      (case o_sessionId x of
         None \<Rightarrow> Inr d1
       | Some sid \<Rightarrow>
           if find_row ts_id sid (tableSessions d1) = None then Inl (InternalError ''P2025'')
           else Inr (set_session sid (\<lambda>s. s\<lparr>ts_status := s_settled, ts_closedAt := Some (now e)\<rparr>) d1))))"

definition pay_share_row :: "env \<Rightarrow> string option \<Rightarrow> uuid \<Rightarrow> bill_share \<Rightarrow> bill_share" where
  "pay_share_row e phone tenderId s = s\<lparr>bs_status := paid, bs_payerPhone := phone, bs_tenderId := Some tenderId, bs_paidAt := Some (now e)\<rparr>"

definition guest_tender :: "uuid \<Rightarrow> uuid \<Rightarrow> int \<Rightarrow> tender_params" where
  "guest_tender tenantId billId amount = \<lparr>tq_tenantId = tenantId, tq_billId = billId, tq_method = upi_manual, tq_amountMinor = amount,
     tq_paymentIntentId = None, tq_riskAcknowledged = False, tq_reference = None, tq_tenderedMinor = None\<rparr>"

text \<open>The checks both payments start with: the fresh open bill, its order, the active session, and shares in step.\<close>

definition open_checkout :: "env \<Rightarrow> guest_principal \<Rightarrow> uuid \<Rightarrow> db \<Rightarrow> (bill_with_tenders \<times> order \<times> table_session \<times> db) result" where
  "open_checkout e guest billId d =
    r_bind (assertGuestPaymentsAvailable e d (gp_tenantId guest)) (\<lambda>_.
    r_bind (r_bind (loadBill d (gp_tenantId guest) billId) (\<lambda>bt0. refreshOpenBillTotals bt0 d)) (\<lambda>((b, ts), d1).
    r_bind (loadOrderForSession d1 (gp_tenantId guest) (gp_sessionId guest) (b_orderId b)) (\<lambda>x.
      if b_status b = b_finalized then Inl (Conflict ''already_finalized'')
      else r_bind (assertSessionActive e d1 (gp_tenantId guest) (gp_sessionId guest)) (\<lambda>s.
           r_bind (syncShares (gp_tenantId guest) (b, ts) d1) (\<lambda>d2. Inr ((b, ts), x, s, d2))))))"

definition payShare :: "env \<Rightarrow> guest_principal \<Rightarrow> uuid \<Rightarrow> uuid \<Rightarrow> simulated_payment_dto \<Rightarrow> db \<Rightarrow> (guest_bill_view \<times> db) result" where
  "payShare e guest billId guestId dto d =
    r_bind (open_checkout e guest billId d) (\<lambda>(bt, x, _, d2).
    (case find (\<lambda>s. bs_billId s = billId \<and> bs_guestId s = guestId) (billShares d2) of
       None \<Rightarrow> Inl (NotFound ''not_found'')
     | Some share \<Rightarrow>
         if bs_tenantId share \<noteq> gp_tenantId guest then Inl (NotFound ''not_found'')
         else if bs_status share = paid then Inl (Conflict ''share_already_paid'')
         else r_bind
           (if sp_simulatedOutcome dto = out_success
            then r_bind (createTenderRecord e (guest_tender (gp_tenantId guest) billId (bs_amountMinor share)) d2) (\<lambda>(t, d3).
              let d4 = d3\<lparr>billShares := update_rows (\<lambda>s. bs_id s = bs_id share) (pay_share_row e (sp_payerPhone dto) (td_id t)) (billShares d3)\<rparr>
              in if count_rows (\<lambda>s. bs_billId s = billId \<and> bs_status s = outstanding) (billShares d4) = 0
                 then completeBill e (gp_tenantId guest) (b_id (fst bt)) x d4 else Inr d4)
            else Inr d2) (\<lambda>d5.
           r_bind (buildView e (gp_tenantId guest) billId d5) (\<lambda>v. Inr (v, d5)))))"

definition payByKioskCard :: "env \<Rightarrow> uuid \<Rightarrow> bill \<Rightarrow> int \<Rightarrow> db \<Rightarrow> (uuid \<times> db) result" where
  "payByKioskCard e tenantId b amount d =
    (case find_row tn_id tenantId (tenants d) of
       None \<Rightarrow> Inl (InternalError ''P2025'')
     | Some tenant \<Rightarrow>
         (let (i, d1) = take_id d;
              x = \<lparr>pi_id = i, pi_tenantId = tenantId, pi_outletId = b_outletId b, pi_billId = b_id b, pi_shareId = None,
                   pi_rail = card_terminal, pi_provider = simulated, pi_amountMinor = amount,
                   pi_currency = (if tn_country tenant = AU then ''AUD'' else ''INR''), pi_status = i_pending,
                   pi_clientKey = ''kiosk:'' @ show_digits (b_id b), pi_providerRef = None, pi_clientPayload = JObj [(''simulated'', JBool True)],
                   pi_failureReason = None, pi_expiresAt = now e + 60000, pi_succeededAt = None, pi_createdByStaffId = None,
                   pi_createdAt = now e, pi_targetDeviceId = None\<rparr>
          in r_bind (insert_intent x d1) (\<lambda>d2.
             r_bind (confirmIntent e tenantId i d2) (\<lambda>((_, tender), d3).
               (case tender of None \<Rightarrow> Inl (InternalError ''Error'') | Some t \<Rightarrow> Inr (t, d3))))))"

definition payAll :: "env \<Rightarrow> guest_principal \<Rightarrow> uuid \<Rightarrow> simulated_payment_dto \<Rightarrow> db \<Rightarrow> (guest_bill_view \<times> db) result" where
  "payAll e guest billId dto d =
    r_bind (open_checkout e guest billId d) (\<lambda>(bt, x, session, d2).
      if list_ex (\<lambda>s. bs_status s = paid) (bill_shares d2 billId) then Inl (Conflict ''partial_payment_exists'')
      else r_bind
        (if sp_simulatedOutcome dto = out_success
         then r_bind (if ts_tableId session = None then payByKioskCard e (gp_tenantId guest) (fst bt) (bw_totalMinor (toBillView bt)) d2
                      else r_bind (createTenderRecord e (guest_tender (gp_tenantId guest) billId (bw_totalMinor (toBillView bt))) d2)
                             (\<lambda>(t, d3). Inr (td_id t, d3))) (\<lambda>(tenderId, d3).
              completeBill e (gp_tenantId guest) (b_id (fst bt)) x
                (d3\<lparr>billShares := update_rows (\<lambda>s. bs_billId s = billId) (pay_share_row e (sp_payerPhone dto) tenderId) (billShares d3)\<rparr>))
         else Inr d2) (\<lambda>d5.
        r_bind (buildView e (gp_tenantId guest) billId d5) (\<lambda>v. Inr (v, d5))))"

section \<open>Shares add up\<close>

text \<open>
  \<open>shares_ok\<close>: share identifiers are distinct, and a guest has one share per bill.
\<close>

definition shares_ok :: "db \<Rightarrow> bool" where
  "shares_ok d \<longleftrightarrow> keys_ok (nextId d) (map bs_id (billShares d)) \<and> distinct (map (\<lambda>s. (bs_billId s, bs_guestId s)) (billShares d))"

lemma shares_ok_frame: "shares_ok d \<Longrightarrow> billShares d' = billShares d \<Longrightarrow> nextId d \<le> nextId d' \<Longrightarrow> shares_ok d'"
  by (auto simp: shares_ok_def intro: keys_ok_mono)

lemma allocate_shares_ids: "map fst (allocate_shares due tw w al ss) = map bs_id ss"
  by (induction due tw w al ss rule: allocate_shares.induct) (simp_all add: Let_def)

lemma allocate_shares_sum: "ss \<noteq> [] \<Longrightarrow> sum_list (map snd (allocate_shares due tw w al ss)) = due - al"
  by (induction due tw w al ss rule: allocate_shares.induct) (simp_all add: Let_def)

lemma allocate_shares_nonneg:
  assumes "0 \<le> due" "0 \<le> tw" "\<And>g. 0 \<le> w g" "al * tw \<le> due * (tw - sum_rows (\<lambda>s. w (bs_guestId s)) ss)" "tw = 0 \<Longrightarrow> al = 0"
  shows "\<forall>u \<in> set (allocate_shares due tw w al ss). 0 \<le> snd u"
  using assms
proof (induction due tw w al ss rule: allocate_shares.induct)
  case (2 due tw w al s)
  have "al \<le> due"
  proof (cases "tw = 0")
    case False
    then have tw: "0 < tw" using 2 by simp
    have "al * tw \<le> due * tw - due * w (bs_guestId s)" using 2(4) by (simp add: algebra_simps)
    also have "\<dots> \<le> due * tw" using 2(1,3) by simp
    finally show ?thesis using tw by simp
  qed (use 2 in simp)
  then show ?case by simp
next
  case (3 due tw w al s t ss)
  let ?a = "if tw = 0 then 0 else (due * w (bs_guestId s)) sdiv tw"
  have p: "0 \<le> due * w (bs_guestId s)" using 3 by simp
  have "0 \<le> ?a \<and> ?a * tw \<le> due * w (bs_guestId s)"
  proof (cases "tw = 0")
    case False
    let ?x = "due * w (bs_guestId s)"
    have e: "?a = ?x div tw" using p 3(3) False by (simp add: sdiv_pos)
    have tw: "0 < tw" using 3(3) False by simp
    have "?x div tw * tw + ?x mod tw = ?x" by simp
    then have "?a * tw \<le> ?x" using pos_mod_sign [OF tw, of ?x] unfolding e by linarith
    moreover have "0 \<le> ?a" unfolding e using p tw by (simp add: pos_imp_zdiv_nonneg_iff)
    ultimately show ?thesis by blast
  qed (use p in simp)
  then have a: "0 \<le> ?a" "?a * tw \<le> due * w (bs_guestId s)" by auto
  have "(al + ?a) * tw \<le> due * (tw - sum_rows (\<lambda>s. w (bs_guestId s)) (t # ss))"
    using 3(5) a(2) by (simp add: algebra_simps)
  moreover have "tw = 0 \<Longrightarrow> al + ?a = 0" using 3(6) by simp
  ultimately have "\<forall>u \<in> set (allocate_shares due tw w (al + ?a) (t # ss)). 0 \<le> snd u"
    using 3 by blast
  then show ?case using a(1) by (simp add: Let_def)
qed simp

lemma set_amounts_map:
  assumes "distinct (map fst us)"
  shows "foldl set_amount ss us = map (\<lambda>s. case map_of us (bs_id s) of None \<Rightarrow> s | Some a \<Rightarrow> s\<lparr>bs_amountMinor := a\<rparr>) ss"
  using assms
proof (induction us arbitrary: ss)
  case (Cons u us)
  obtain k a where u: "u = (k, a)" by fastforce
  have "foldl set_amount ss (u # us) = map (\<lambda>s. case map_of us (bs_id s) of None \<Rightarrow> s | Some a \<Rightarrow> s\<lparr>bs_amountMinor := a\<rparr>) (set_amount ss u)"
    using Cons by simp
  also have "\<dots> = map (\<lambda>s. case map_of (u # us) (bs_id s) of None \<Rightarrow> s | Some a \<Rightarrow> s\<lparr>bs_amountMinor := a\<rparr>) ss"
    unfolding set_amount_def update_rows_def map_map
  proof (rule map_cong [OF refl])
    fix s
    have "map_of us k = None" using Cons.prems by (simp add: u map_of_eq_None_iff)
    then show "((\<lambda>s. case map_of us (bs_id s) of None \<Rightarrow> s | Some a \<Rightarrow> s\<lparr>bs_amountMinor := a\<rparr>) \<circ> (\<lambda>r. if bs_id r = fst u then r\<lparr>bs_amountMinor := snd u\<rparr> else r)) s =
      (case map_of (u # us) (bs_id s) of None \<Rightarrow> s | Some a \<Rightarrow> s\<lparr>bs_amountMinor := a\<rparr>)"
      by (cases "bs_id s = k") (simp_all add: u)
  qed
  finally show ?case .
qed simp

lemma share_weights_nonneg:
  assumes "\<forall>l \<in> set ls. line_wf l"
  shows "\<forall>(g, n, w) \<in> set (share_weights ls). 0 \<le> w" "distinct (map fst (share_weights ls))"
    "\<forall>l \<in> set ls. \<forall>g. ol_guestId l = Some g \<longrightarrow> g \<in> fst ` set (share_weights ls)"
proof -
  have add: "(\<forall>(g, n, w) \<in> set (add_weight h name a ws). 0 \<le> w)" if "\<forall>(g, n, w) \<in> set ws. 0 \<le> w" "0 \<le> a" for h name a ws
    using that by (induction h name a ws rule: add_weight.induct) auto
  have keys: "fst ` set (add_weight h name a ws) = insert h (fst ` set ws)" for h name a ws
    by (induction h name a ws rule: add_weight.induct) auto
  have dist: "distinct (map fst (add_weight h name a ws))" if "distinct (map fst ws)" for h name a ws
    using that
  proof (induction h name a ws rule: add_weight.induct)
    case (2 g name amount h n w ws)
    then show ?case using keys [of g name amount ws] by auto
  qed simp
  have "(\<forall>(g, n, w) \<in> set (share_weights ls). 0 \<le> w) \<and> distinct (map fst (share_weights ls)) \<and>
      (\<forall>l \<in> set ls. \<forall>g. ol_guestId l = Some g \<longrightarrow> g \<in> fst ` set (share_weights ls))"
    using assms
  proof (induction ls rule: rev_induct)
    case (snoc l ls)
    let ?ws = "share_weights ls"
    have IH: "\<forall>(g, n, w) \<in> set ?ws. 0 \<le> w" "distinct (map fst ?ws)" "\<forall>l \<in> set ls. \<forall>g. ol_guestId l = Some g \<longrightarrow> g \<in> fst ` set ?ws"
      using snoc by auto
    show ?case
    proof (cases "ol_guestId l")
      case None
      then show ?thesis using IH by (simp add: share_weights_def)
    next
      case (Some g)
      have "0 \<le> ol_quantity l * line_unit l"
        using snoc.prems by (auto simp: line_wf_def line_unit_def intro!: mult_nonneg_nonneg add_nonneg_nonneg sum_rows_nonneg)
      then have "\<forall>(g, n, w) \<in> set (add_weight g (nullish (ol_guestName l) ''Guest'') (ol_quantity l * line_unit l) ?ws). 0 \<le> w"
        using add IH(1) by blast
      moreover have "share_weights (ls @ [l]) = add_weight g (nullish (ol_guestName l) ''Guest'') (ol_quantity l * line_unit l) ?ws"
        by (simp add: share_weights_def Some)
      ultimately show ?thesis using dist IH(2,3) keys Some by auto
    qed
  qed (simp add: share_weights_def)
  then show "\<forall>(g, n, w) \<in> set (share_weights ls). 0 \<le> w" "distinct (map fst (share_weights ls))"
    "\<forall>l \<in> set ls. \<forall>g. ol_guestId l = Some g \<longrightarrow> g \<in> fst ` set (share_weights ls)" by auto
qed

lemma weightOf_nonneg: "\<forall>(g, n, w) \<in> set ws. 0 \<le> w \<Longrightarrow> 0 \<le> weightOf ws g"
  by (auto simp: weightOf_def split: option.splits dest!: map_of_SomeD)

definition only_shares :: "uuid \<Rightarrow> db \<Rightarrow> db \<Rightarrow> bool" where
  "only_shares k d d' \<longleftrightarrow> (\<exists>n ss. nextId d \<le> n \<and> d' = d\<lparr>nextId := n, billShares := ss\<rparr>) \<and>
     filter (\<lambda>s. bs_billId s \<noteq> k) (billShares d') = filter (\<lambda>s. bs_billId s \<noteq> k) (billShares d)"

lemma only_sharesI: "d' = d\<lparr>nextId := n, billShares := ss\<rparr> \<Longrightarrow> nextId d \<le> n \<Longrightarrow>
    filter (\<lambda>s. bs_billId s \<noteq> k) ss = filter (\<lambda>s. bs_billId s \<noteq> k) (billShares d) \<Longrightarrow> only_shares k d d'"
  by (auto simp: only_shares_def)

text \<open>A share exists for every guest with a line; the ones added are empty and outstanding.\<close>

lemma add_missing_shares:
  assumes "shares_ok d"
  shows "\<exists>n new. foldl (add_missing_share t k) d ws = d\<lparr>nextId := n, billShares := billShares d @ new\<rparr> \<and> nextId d \<le> n \<and>
    (\<forall>s \<in> set new. bs_billId s = k \<and> bs_status s = outstanding \<and> bs_amountMinor s = 0) \<and>
    shares_ok (foldl (add_missing_share t k) d ws) \<and>
    (\<forall>g \<in> fst ` set ws. \<exists>s \<in> set (bill_shares (foldl (add_missing_share t k) d ws) k). bs_guestId s = g)"
proof (induction ws rule: rev_induct)
  case Nil
  show ?case by (intro exI [of _ "nextId d"] exI [of _ "[]"]) (simp add: assms)
next
  case (snoc w ws)
  let ?d = "foldl (add_missing_share t k) d ws"
  obtain n new where IH: "?d = d\<lparr>nextId := n, billShares := billShares d @ new\<rparr>" "nextId d \<le> n"
    "\<forall>s \<in> set new. bs_billId s = k \<and> bs_status s = outstanding \<and> bs_amountMinor s = 0" "shares_ok ?d"
    "\<forall>g \<in> fst ` set ws. \<exists>s \<in> set (bill_shares ?d k). bs_guestId s = g" using snoc by blast
  obtain g name x where w: "w = (g, name, x)" by (cases w) auto
  show ?case
  proof (cases "list_ex (\<lambda>s. bs_guestId s = g) (bill_shares ?d k)")
    case True
    then have "foldl (add_missing_share t k) d (ws @ [w]) = ?d" by (simp add: add_missing_share_def w)
    moreover have "\<exists>s \<in> set (bill_shares ?d k). bs_guestId s = g" using True by (auto simp: list_ex_iff)
    ultimately show ?thesis using IH w by (intro exI [of _ n] exI [of _ new]) auto
  next
    case False
    let ?s = "\<lparr>bs_id = n, bs_tenantId = t, bs_billId = k, bs_guestId = g, bs_guestName = name,
        bs_amountMinor = 0, bs_status = outstanding, bs_payerPhone = None, bs_tenderId = None, bs_paidAt = None\<rparr>"
    have nid: "nextId ?d = n" "billShares ?d = billShares d @ new" using arg_cong [OF IH(1), of nextId] arg_cong [OF IH(1), of billShares] by simp_all
    have e0: "foldl (add_missing_share t k) d (ws @ [w]) = ?d\<lparr>nextId := Suc n, billShares := (billShares d @ new) @ [?s]\<rparr>"
      using False nid by (simp add: add_missing_share_def w take_id_def)
    then have e: "foldl (add_missing_share t k) d (ws @ [w]) = d\<lparr>nextId := Suc n, billShares := billShares d @ (new @ [?s])\<rparr>"
      unfolding IH(1) by simp
    have fresh: "(k, g) \<notin> (\<lambda>s. (bs_billId s, bs_guestId s)) ` set (billShares ?d)"
      using False by (auto simp: bill_shares_def list_ex_iff)
    have ok: "shares_ok (foldl (add_missing_share t k) d (ws @ [w]))"
    proof -
      have "keys_ok n (map bs_id (billShares d @ new))" using IH(4) by (simp add: shares_ok_def nid)
      from keys_ok_append [OF this] show ?thesis using IH(4) fresh unfolding e by (auto simp: shares_ok_def nid)
    qed
    have "\<exists>s \<in> set (bill_shares (foldl (add_missing_share t k) d (ws @ [w])) k). bs_guestId s = h" if h: "h \<in> fst ` set (ws @ [w])" for h
    proof (cases "h = g")
      case True
      then show ?thesis unfolding e by (intro bexI [of _ ?s]) (simp_all add: bill_shares_def)
    next
      case False
      then obtain s where "s \<in> set (bill_shares ?d k)" "bs_guestId s = h" using h IH(5) w by auto
      then show ?thesis unfolding e by (intro bexI [of _ s]) (auto simp: bill_shares_def nid)
    qed
    then show ?thesis using e IH(2,3) ok by (intro exI [of _ "Suc n"] exI [of _ "new @ [?s]"]) auto
  qed
qed

lemma map_of_zip_snd:
  assumes "distinct (map fst us)" "map fst us = map key rs"
  shows "map (\<lambda>r. the (map_of us (key r))) rs = map snd us"
proof -
  have "map (\<lambda>r. the (map_of us (key r))) rs = map (\<lambda>k. the (map_of us k)) (map fst us)" unfolding assms(2) by simp
  also have "\<dots> = map snd us" using assms(1) by (auto simp: comp_def intro!: map_cong)
  finally show ?thesis .
qed

lemma allocated_shares:
  assumes "distinct (map bs_id ss)" and "us = allocate_shares due tw w 0 (filter (\<lambda>s. bs_status s = outstanding) ss)"
    and "due = tot - sum_rows bs_amountMinor (filter (\<lambda>s. bs_status s = paid) ss)" "filter (\<lambda>s. bs_status s = outstanding) ss \<noteq> [] \<or> due = 0"
    and "f = (\<lambda>s. case map_of us (bs_id s) of None \<Rightarrow> s | Some a \<Rightarrow> s\<lparr>bs_amountMinor := a\<rparr>)"
  shows "sum_rows bs_amountMinor (map f ss) = tot" "\<forall>s \<in> set ss. bs_status s = paid \<longrightarrow> f s = s"
    "\<forall>s \<in> set ss. bs_status s = outstanding \<longrightarrow> (bs_id s, bs_amountMinor (f s)) \<in> set us"
    "bs_id (f s) = bs_id s" "bs_guestId (f s) = bs_guestId s" "bs_status (f s) = bs_status s" "bs_billId (f s) = bs_billId s"
    "bs_tenantId (f s) = bs_tenantId s"
proof -
  let ?rest = "filter (\<lambda>s. bs_status s = outstanding) ss"
  have ids: "map fst us = map bs_id ?rest" unfolding assms(2) by (rule allocate_shares_ids)
  have dist: "distinct (map fst us)" unfolding ids by (rule distinct_map_filter [OF assms(1)])
  show same: "bs_id (f s) = bs_id s" "bs_guestId (f s) = bs_guestId s" "bs_status (f s) = bs_status s" "bs_billId (f s) = bs_billId s"
    "bs_tenantId (f s) = bs_tenantId s" for s unfolding assms(5) by (simp_all split: option.split)
  show paid: "\<forall>s \<in> set ss. bs_status s = paid \<longrightarrow> f s = s"
  proof (intro ballI impI)
    fix s assume s: "s \<in> set ss" "bs_status s = paid"
    have "bs_id s \<notin> set (map fst us)"
    proof
      assume "bs_id s \<in> set (map fst us)"
      then obtain r where "r \<in> set ss" "bs_status r = outstanding" "bs_id r = bs_id s" unfolding ids by auto
      moreover have "r = s" using calculation(1,3) s(1) assms(1) by (auto simp: distinct_map dest: inj_onD)
      ultimately show False using s(2) by simp
    qed
    then have "map_of us (bs_id s) = None" by (simp add: map_of_eq_None_iff)
    then show "f s = s" unfolding assms(5) by simp
  qed
  have out: "map_of us (bs_id s) = Some (bs_amountMinor (f s))" if s: "s \<in> set ss" "bs_status s = outstanding" for s
  proof -
    have "bs_id s \<in> set (map fst us)" unfolding ids using s by auto
    then obtain a where "map_of us (bs_id s) = Some a" by (cases "map_of us (bs_id s)") (simp_all add: map_of_eq_None_iff)
    then show ?thesis unfolding assms(5) by simp
  qed
  then show "\<forall>s \<in> set ss. bs_status s = outstanding \<longrightarrow> (bs_id s, bs_amountMinor (f s)) \<in> set us" by (blast intro: map_of_SomeD)
  have "sum_rows bs_amountMinor (map f ss) = sum_rows (\<lambda>s. bs_amountMinor (f s)) (filter (\<lambda>s. bs_status s = paid) ss) + sum_rows (\<lambda>s. bs_amountMinor (f s)) (filter (\<lambda>s. \<not> bs_status s = paid) ss)"
    using sum_rows_filter_split [of "\<lambda>s. bs_amountMinor (f s)" ss "\<lambda>s. bs_status s = paid"] by (simp add: sum_rows_def comp_def)
  also have "filter (\<lambda>s. \<not> bs_status s = paid) ss = ?rest" by (rule filter_cong [OF refl]) (metis share_status.exhaust share_status.distinct(1))
  also have "sum_rows (\<lambda>s. bs_amountMinor (f s)) (filter (\<lambda>s. bs_status s = paid) ss) = sum_rows bs_amountMinor (filter (\<lambda>s. bs_status s = paid) ss)"
    by (rule sum_rows_cong) (use paid in auto)
  also have "sum_rows (\<lambda>s. bs_amountMinor (f s)) ?rest = sum_list (map snd us)"
  proof -
    have "map (\<lambda>s. bs_amountMinor (f s)) ?rest = map (\<lambda>s. the (map_of us (bs_id s))) ?rest" using out by (intro map_cong) auto
    then show ?thesis unfolding sum_rows_def map_of_zip_snd [OF dist ids] by simp
  qed
  also have "sum_list (map snd us) = due"
    using assms(4) allocate_shares_sum [of ?rest due tw w 0] unfolding assms(2) by (cases "?rest = []") auto
  finally show "sum_rows bs_amountMinor (map f ss) = tot" using assms(3) by simp
qed

lemma syncShares_open:
  assumes "syncShares t (b, ts) d = Inr d'" and "b_status b = b_open" and "shares_ok d" and "lines_wf d"
  shows "sum_rows bs_amountMinor (bill_shares d' (b_id b)) = bill_total b"
    "\<forall>s \<in> set (bill_shares d (b_id b)). bs_status s = paid \<longrightarrow> s \<in> set (bill_shares d' (b_id b))"
    "\<forall>s \<in> set (bill_shares d' (b_id b)). bs_status s = outstanding \<longrightarrow> 0 \<le> bs_amountMinor s"
    "\<forall>s \<in> set (bill_shares d' (b_id b)). bs_status s = paid \<longrightarrow> s \<in> set (bill_shares d (b_id b))"
    "\<forall>l \<in> set (live_lines d (b_orderId b)). \<forall>g. ol_guestId l = Some g \<longrightarrow> (\<exists>s \<in> set (bill_shares d' (b_id b)). bs_guestId s = g)"
    "shares_ok d'" "only_shares (b_id b) d d'"
proof -
  let ?k = "b_id b"
  let ?ws = "share_weights (live_lines d (b_orderId b))"
  let ?d1 = "foldl (add_missing_share t ?k) d ?ws"
  let ?ss = "bill_shares ?d1 ?k"
  let ?rest = "filter (\<lambda>s. bs_status s = outstanding) ?ss"
  define due where "due = bill_total b - sum_rows bs_amountMinor (filter (\<lambda>s. bs_status s = paid) ?ss)"
  define tw where "tw = sum_rows (\<lambda>s. weightOf ?ws (bs_guestId s)) ?rest"
  define us where "us = allocate_shares due tw (weightOf ?ws) 0 ?rest"
  define f :: "bill_share \<Rightarrow> bill_share" where "f = (\<lambda>s. case map_of us (bs_id s) of None \<Rightarrow> s | Some a \<Rightarrow> s\<lparr>bs_amountMinor := a\<rparr>)"
  have tot: "bw_totalMinor (toBillView (b, ts)) = bill_total b" by (simp add: toBillView_def)
  have run: "(if due < 0 \<or> (due > 0 \<and> ?rest = []) then Inl (Conflict ''bill_changed'') else Inr (?d1\<lparr>billShares := foldl set_amount (billShares ?d1) us\<rparr>)) = (Inr d' :: db result)"
    using assms(1,2) unfolding syncShares_def due_def tw_def us_def by (simp add: foldl_sum_rows tot Let_def)
  then have due: "0 \<le> due" "?rest \<noteq> [] \<or> due = 0" and d': "d' = ?d1\<lparr>billShares := foldl set_amount (billShares ?d1) us\<rparr>"
    by (auto split: if_splits)
  obtain n new where m: "?d1 = d\<lparr>nextId := n, billShares := billShares d @ new\<rparr>" "nextId d \<le> n"
    "\<forall>s \<in> set new. bs_billId s = ?k \<and> bs_status s = outstanding \<and> bs_amountMinor s = 0" "shares_ok ?d1"
    "\<forall>g \<in> fst ` set ?ws. \<exists>s \<in> set ?ss. bs_guestId s = g"
    using add_missing_shares [OF assms(3), of t ?k ?ws] by blast
  have wf: "\<forall>l \<in> set (live_lines d (b_orderId b)). line_wf l" using assms(4) by (auto simp: lines_wf_def live_lines_def)
  note w = share_weights_nonneg [OF wf]
  have ids: "distinct (map bs_id (billShares ?d1))" using m(4) by (simp add: shares_ok_def keys_ok_def)
  then have ids': "distinct (map bs_id ?ss)" unfolding bill_shares_def by (rule distinct_map_filter)
  note a = allocated_shares [OF ids' us_def due_def due(2) f_def]
  have dist: "distinct (map fst us)" unfolding us_def allocate_shares_ids by (rule distinct_map_filter [OF ids'])
  have rows: "billShares d' = map f (billShares ?d1)" unfolding d' f_def by (simp add: set_amounts_map [OF dist])
  have "filter (\<lambda>s. bs_billId s = ?k) (map f xs) = map f (filter (\<lambda>s. bs_billId s = ?k) xs)" for xs
    by (induction xs) (simp_all add: a(7))
  then have bs: "bill_shares d' ?k = map f ?ss" unfolding bill_shares_def rows .
  show "sum_rows bs_amountMinor (bill_shares d' ?k) = bill_total b" unfolding bs by (rule a(1))
  have sub: "x \<in> set ?ss" if "x \<in> set (bill_shares d ?k)" for x using that arg_cong [OF m(1), of billShares] by (auto simp: bill_shares_def)
  show "\<forall>s \<in> set (bill_shares d ?k). bs_status s = paid \<longrightarrow> s \<in> set (bill_shares d' ?k)"
    unfolding bs using a(2) sub by (metis image_eqI list.set_map)
  show "\<forall>s \<in> set (bill_shares d' ?k). bs_status s = paid \<longrightarrow> s \<in> set (bill_shares d ?k)"
  proof (intro ballI impI)
    fix s assume s: "s \<in> set (bill_shares d' ?k)" "bs_status s = paid"
    then obtain z where z: "z \<in> set ?ss" "s = f z" unfolding bs by auto
    then have "bs_status z = paid" using s(2) a(6) by simp
    then have "s = z" using z a(2) by simp
    moreover have "z \<notin> set new" using m(3) \<open>bs_status z = paid\<close> by auto
    ultimately show "s \<in> set (bill_shares d ?k)" using z(1) arg_cong [OF m(1), of billShares] by (auto simp: bill_shares_def)
  qed
  have wn: "0 \<le> weightOf ?ws g" for g by (rule weightOf_nonneg [OF w(1)])
  have tw: "0 \<le> tw" unfolding tw_def by (rule sum_rows_nonneg) (rule wn)
  have nn: "\<forall>u \<in> set us. 0 \<le> snd u" unfolding us_def
    by (rule allocate_shares_nonneg [OF due(1) tw wn]) (simp_all add: tw_def)
  show "\<forall>s \<in> set (bill_shares d' ?k). bs_status s = outstanding \<longrightarrow> 0 \<le> bs_amountMinor s"
    unfolding bs using a(3,6) nn by fastforce
  show "\<forall>l \<in> set (live_lines d (b_orderId b)). \<forall>g. ol_guestId l = Some g \<longrightarrow> (\<exists>s \<in> set (bill_shares d' ?k). bs_guestId s = g)"
    unfolding bs using w(3) m(5) a(5) by (metis (no_types, lifting) image_eqI list.set_map)
  have "map (\<lambda>s. (bs_billId s, bs_guestId s)) (billShares d') = map (\<lambda>s. (bs_billId s, bs_guestId s)) (billShares ?d1)"
    "map bs_id (billShares d') = map bs_id (billShares ?d1)" unfolding rows by (simp_all add: a(4,5,7) comp_def)
  moreover have "nextId d' = nextId ?d1" by (simp add: d')
  ultimately show "shares_ok d'" using m(4) unfolding shares_ok_def by simp
  have other: "f s = s" if "s \<in> set (billShares ?d1)" "bs_billId s \<noteq> ?k" for s
  proof -
    have "bs_id s \<notin> set (map fst us)"
    proof
      assume "bs_id s \<in> set (map fst us)"
      then obtain r where "r \<in> set ?ss" "bs_id r = bs_id s" unfolding us_def allocate_shares_ids by auto
      then have "r = s" using that(1) ids by (auto simp: bill_shares_def distinct_map dest: inj_onD)
      then show False using \<open>r \<in> set ?ss\<close> that(2) by (simp add: bill_shares_def)
    qed
    then have "map_of us (bs_id s) = None" by (simp add: map_of_eq_None_iff)
    then show ?thesis unfolding f_def by simp
  qed
  have "filter (\<lambda>s. bs_billId s \<noteq> ?k) (map f xs) = filter (\<lambda>s. bs_billId s \<noteq> ?k) xs" if "set xs \<subseteq> set (billShares ?d1)" for xs
    using that by (induction xs) (auto simp: a(7) other)
  then have "filter (\<lambda>s. bs_billId s \<noteq> ?k) (billShares d') = filter (\<lambda>s. bs_billId s \<noteq> ?k) (billShares ?d1)" unfolding rows by blast
  also have "\<dots> = filter (\<lambda>s. bs_billId s \<noteq> ?k) (billShares d)" using arg_cong [OF m(1), of billShares] m(3) by (simp add: filter_empty_conv)
  finally have o: "filter (\<lambda>s. bs_billId s \<noteq> ?k) (billShares d') = filter (\<lambda>s. bs_billId s \<noteq> ?k) (billShares d)" .
  have "d' = d\<lparr>nextId := n, billShares := billShares d'\<rparr>" unfolding d' by (subst m(1), simp)
  then show "only_shares ?k d d'" unfolding only_shares_def using m(2) o by blast
qed

section \<open>Checkout\<close>

lemma only_shares_core: "only_shares k d d' \<Longrightarrow> same_core d d'"
  by (auto simp: only_shares_def same_core_def)

lemma only_shares_rest:
  assumes "only_shares k d d'"
  shows "tableSessions d' = tableSessions d" "tenders d' = tenders d" "orders d' = orders d" "bills d' = bills d" "nextId d \<le> nextId d'"
  using assms by (auto simp: only_shares_def)

lemma assertSessionActive_Inr:
  assumes "assertSessionActive e d t sid = Inr s"
  shows "s \<in> set (tableSessions d)" "ts_id s = sid" "ts_tenantId s = t" "\<not> isSessionInactive e s"
proof -
  obtain s0 where f: "find_row ts_id sid (tableSessions d) = Some s0" using assms by (auto simp: assertSessionActive_def split: option.splits)
  with assms have "s = s0" "ts_tenantId s0 = t" "\<not> isSessionInactive e s0" by (auto simp: assertSessionActive_def split: if_splits)
  with find_row_Some [OF f] show "s \<in> set (tableSessions d)" "ts_id s = sid" "ts_tenantId s = t" "\<not> isSessionInactive e s" by simp_all
qed

lemma loadOrderForSession_Inr:
  assumes "loadOrderForSession d t sid k = Inr x"
  shows "x \<in> set (orders d)" "o_id x = k" "o_sessionId x = Some sid"
proof -
  obtain y where f: "find_row o_id k (orders d) = Some y" using assms by (auto simp: loadOrderForSession_def split: option.splits)
  with assms have "x = y" "o_sessionId y = Some sid" by (auto simp: loadOrderForSession_def split: if_splits)
  with find_row_Some [OF f] show "x \<in> set (orders d)" "o_id x = k" "o_sessionId x = Some sid" by simp_all
qed

text \<open>A checkout that passes its checks holds the open bill at its current total, with shares that add up to it.\<close>

definition checked_out :: "guest_principal \<Rightarrow> uuid \<Rightarrow> db \<Rightarrow> bill \<Rightarrow> order \<Rightarrow> db \<Rightarrow> bool" where
  "checked_out g k d b x d2 \<longleftrightarrow> b \<in> set (bills d2) \<and> b_id b = k \<and> b_status b = b_open \<and> o_sessionId x = Some (gp_sessionId g) \<and>
     books_ok d2 \<and> ledger_grows d d2 \<and> shares_ok d2 \<and> lines_wf d2 \<and> (payments_ok d \<longrightarrow> payments_ok d2) \<and>
     tenders d2 = tenders d \<and> tableSessions d2 = tableSessions d \<and> intents d2 = intents d \<and>
     sum_rows bs_amountMinor (bill_shares d2 k) = bill_total b \<and>
     (\<forall>s. bs_status s = paid \<longrightarrow> (s \<in> set (bill_shares d2 k) \<longleftrightarrow> s \<in> set (bill_shares d k)))"

lemma open_checkout_Inr:
  assumes "open_checkout e g k d = Inr (bt, x, s, d2)" and "books_ok d" and "shares_ok d" and "lines_wf d"
  shows "checked_out g k d (fst bt) x d2" "s \<in> set (tableSessions d)" "ts_id s = gp_sessionId g" "\<not> isSessionInactive e s"
    "paymentsSimulatorFor e d (gp_tenantId g)"
proof -
  let ?t = "gp_tenantId g"
  let ?F = "r_bind (loadBill d ?t k) (\<lambda>bt0. refreshOpenBillTotals bt0 d)"
  have p: "paymentsSimulatorFor e d ?t" using assms(1) by (auto simp: open_checkout_def assertGuestPaymentsAvailable_def split: if_splits)
  obtain b ts d1 where f: "?F = Inr ((b, ts), d1)"
    using assms(1) p by (cases ?F) (auto simp: open_checkout_def assertGuestPaymentsAvailable_def)
  have st: "b_status b \<noteq> b_finalized" using assms(1) p by (auto simp: open_checkout_def assertGuestPaymentsAvailable_def f r_bind_eq_Inr)
  then have x: "loadOrderForSession d1 ?t (gp_sessionId g) (b_orderId b) = Inr x"
    and s: "assertSessionActive e d1 ?t (gp_sessionId g) = Inr s" and y: "syncShares ?t (b, ts) d1 = Inr d2" and bt: "bt = (b, ts)"
    using assms(1) p by (auto simp: open_checkout_def assertGuestPaymentsAvailable_def f r_bind_eq_Inr)
  note n = fresh_bill [OF f assms(2)]
  have op: "b_status b = b_open" using st by (cases "b_status b") simp_all
  have rows: "billShares d1 = billShares d" "orderLines d1 = orderLines d" "tableSessions d1 = tableSessions d" "intents d1 = intents d"
    "tenders d1 = tenders d" "nextId d1 = nextId d" by (subst n(6), simp)+
  have sh: "shares_ok d1" by (rule shares_ok_frame [OF assms(3)]) (simp_all add: rows)
  have lw: "lines_wf d1" using assms(4) by (simp add: lines_wf_def rows)
  note c = syncShares_open [OF y op sh lw]
  note keep = same_core_keeps [OF only_shares_core [OF c(7)]] and rest = only_shares_rest [OF c(7)]
  have "payments_ok d2" if "payments_ok d"
  proof -
    have "payments_ok d1" by (rule payments_ok_frame [OF that, where ts = "[]"]) (simp_all add: rows)
    then show ?thesis by (rule keep(4))
  qed
  moreover have "intents d2 = intents d1" using only_shares_core [OF c(7)] by (simp add: same_core_def)
  moreover have "ledger_grows d d2" by (rule ledger_grows_trans [OF n(5) keep(2)])
  moreover have "bill_shares d1 k = bill_shares d k" by (simp add: bill_shares_def rows)
  ultimately show "checked_out g k d (fst bt) x d2"
    using c(1,2,4,6) n(1,2) op loadOrderForSession_Inr(3) [OF x] keep(1) [OF n(4)] keep(6) [OF lw] rest(1,2,4) rows
    by (auto simp: checked_out_def bt)
  show "s \<in> set (tableSessions d)" "ts_id s = gp_sessionId g" "\<not> isSessionInactive e s" "paymentsSimulatorFor e d ?t"
    using assertSessionActive_Inr [OF s] rows p by simp_all
qed

lemma update_rows_all: "(\<And>x. p x \<Longrightarrow> q (f x)) \<Longrightarrow> (\<And>x. \<not> p x \<Longrightarrow> q x) \<Longrightarrow> \<forall>x \<in> set (update_rows p f xs). q x"
  by (induction xs) (auto simp: update_rows_def)

lemma completeBill_effect:
  assumes "completeBill e t k x d = Inr d'" and "books_ok d"
  shows "books_ok d'" "ledger_grows d d'" "tenders d' = tenders d" "billShares d' = billShares d" "nextId d \<le> nextId d'"
    "\<exists>b \<in> set (bills d'). b_id b = k \<and> b_status b = b_finalized"
    "o_sessionId x = Some sid \<Longrightarrow> \<forall>s \<in> set (tableSessions d'). ts_id s = sid \<longrightarrow> ts_status s = s_settled"
proof -
  obtain b ts bt d1 where l: "loadBill d t k = Inr (b, ts)" and c: "commitFinalize e \<lparr>cf_tenantId = t, cf_bill = b, cf_discountMinor = None, cf_discountReason = None,
              cf_finalizedByStaffId = None\<rparr> d = Inr (bt, d1)" (is "commitFinalize e ?q d = _")
    and r: "(case o_sessionId x of None \<Rightarrow> Inr d1 | Some sid \<Rightarrow> if find_row ts_id sid (tableSessions d1) = None then Inl (InternalError ''P2025'')
           else Inr (set_session sid (\<lambda>s. s\<lparr>ts_status := s_settled, ts_closedAt := Some (now e)\<rparr>) d1)) = Inr d'"
    using assms(1) unfolding completeBill_def by (auto simp only: r_bind_eq_Inr prod.case split_paired_Ex)
  note lb = loadBill_found [OF l]
  have m: "cf_bill ?q \<in> set (bills d)" using lb by simp
  note k = commitFinalize_keeps [OF c assms(2) m]
  obtain tax ro where f: "bills d1 = update_rows (\<lambda>y. b_id y = b_id b \<and> b_status y = b_open) (finalize_row e ?q (last_bill_number (b_outletId b) d + 1) ro tax) (bills d)"
    "b_status b = b_open" "tenders d1 = tenders d" "billShares d1 = billShares d" "nextId d \<le> nextId d1"
    using c by (rule commitFinalize_effect) (rule that, simp_all)
  have d': "d' = d1 \<or> (\<exists>sid. d' = set_session sid (\<lambda>s. s\<lparr>ts_status := s_settled, ts_closedAt := Some (now e)\<rparr>) d1)"
    using r by (auto split: option.splits if_splits)
  then have same: "bills d' = bills d1" "tenders d' = tenders d1" "billShares d' = billShares d1" "nextId d' = nextId d1" "billCounters d' = billCounters d1"
    "creditNotes d' = creditNotes d1" by (auto simp: set_session_def)
  show "books_ok d'" by (rule books_ok_frame [OF k(1)]) (simp_all add: same)
  show "ledger_grows d d'" by (rule ledger_grows_trans [OF k(2) ledger_grows_frame]) (simp_all add: same)
  show "tenders d' = tenders d" "billShares d' = billShares d" "nextId d \<le> nextId d'" using same f by simp_all
  have "finalize_row e ?q (last_bill_number (b_outletId b) d + 1) ro tax b \<in> set (bills d')"
    using f(1,2) m by (auto simp: same set_update_rows)
  moreover have "b_id b = k" using lb by simp
  ultimately show "\<exists>b \<in> set (bills d'). b_id b = k \<and> b_status b = b_finalized"
    by (intro bexI [of _ "finalize_row e ?q (last_bill_number (b_outletId b) d + 1) ro tax b"]) simp_all
  show "\<forall>s \<in> set (tableSessions d'). ts_id s = sid \<longrightarrow> ts_status s = s_settled" if "o_sessionId x = Some sid"
  proof -
    have "d' = set_session sid (\<lambda>s. s\<lparr>ts_status := s_settled, ts_closedAt := Some (now e)\<rparr>) d1" using r that by (simp split: if_splits)
    then have t: "tableSessions d' = update_rows (\<lambda>s. ts_id s = sid) (\<lambda>s. s\<lparr>ts_status := s_settled, ts_closedAt := Some (now e)\<rparr>) (tableSessions d1)"
      by (simp add: set_session_def)
    show ?thesis unfolding t by (rule update_rows_all) simp_all
  qed
qed


text \<open>A tender added to an open bill, with the shares of that bill re-marked.\<close>

lemma pay_rows_sum: "sum_rows bs_amountMinor (filter q (update_rows p (pay_share_row e ph t) ss)) = sum_rows bs_amountMinor (filter q ss)"
  if "\<And>s. q (pay_share_row e ph t s) = q s"
  using that by (induction ss) (simp_all add: update_rows_def pay_share_row_def)

lemma update_pay_rows:
  "bill_shares (d\<lparr>billShares := update_rows p (pay_share_row e ph t) (billShares d)\<rparr>) k =
    map (\<lambda>s. if p s then pay_share_row e ph t s else s) (bill_shares d k)"
proof -
  have "filter (\<lambda>s. bs_billId s = k) (map (\<lambda>s. if p s then pay_share_row e ph t s else s) ss) =
      map (\<lambda>s. if p s then pay_share_row e ph t s else s) (filter (\<lambda>s. bs_billId s = k) ss)" for ss
    by (induction ss) (simp_all add: pay_share_row_def)
  then show ?thesis by (simp add: bill_shares_def update_rows_def)
qed

lemma shares_ok_pay:
  assumes "shares_ok d"
  shows "shares_ok (d\<lparr>billShares := update_rows p (pay_share_row e ph t) (billShares d)\<rparr>)"
proof -
  have "map bs_id (update_rows p (pay_share_row e ph t) ss) = map bs_id ss"
    "map (\<lambda>s. (bs_billId s, bs_guestId s)) (update_rows p (pay_share_row e ph t) ss) = map (\<lambda>s. (bs_billId s, bs_guestId s)) ss" for ss
    by (induction ss) (simp_all add: update_rows_def pay_share_row_def)
  with assms show ?thesis by (simp add: shares_ok_def)
qed

lemma guest_tender_books:
  assumes "createTenderRecord e (guest_tender t k a) d = Inr (tn, d')" and "b \<in> set (bills d)" "b_id b = k" "b_status b = b_open"
    and "books_ok d" "shares_ok d"
  shows "d' = d\<lparr>nextId := Suc (nextId d), tenders := tenders d @ [tn]\<rparr>" "books_ok d'" "ledger_grows d d'" "shares_ok d'"
    "td_billId tn = k" "td_method tn = upi_manual" "td_amountMinor tn = a" "payments_ok d \<Longrightarrow> payments_ok d'"
proof -
  note c = createTenderRecord_Inr [OF assms(1)]
  have op: "b_status c = b_open" if "c \<in> set (bills d)" "b_id c = td_billId tn" for c
    by (rule open_bill_unique [OF assms(5,2,4) that(1)]) (use that(2) c(2) assms(3) in \<open>simp add: guest_tender_def\<close>)
  show d': "d' = d\<lparr>nextId := Suc (nextId d), tenders := tenders d @ [tn]\<rparr>" by (rule c(1))
  show "books_ok d'" unfolding d' by (rule books_ok_tender [OF assms(5) op]) simp_all
  show "ledger_grows d d'" unfolding d' by (rule ledger_grows_tender [OF op])
  show "shares_ok d'" by (rule shares_ok_frame [OF assms(6)]) (simp_all add: d')
  show "td_billId tn = k" "td_method tn = upi_manual" "td_amountMinor tn = a" using c by (simp_all add: guest_tender_def)
  show "payments_ok d'" if "payments_ok d"
    by (rule payments_ok_frame [OF that, of d' "[tn]"]) (use c(5) in \<open>simp_all add: d' guest_tender_def\<close>)
qed

text \<open>C20: Shares in step. Bringing the shares of an open bill into step leaves shares that add up to the total of the
  bill exactly: every share already paid is untouched and no share becomes paid, what is still due is split over the
  unpaid shares, none of them negative, every guest with a line has a share, and the shares of other bills are
  left alone.\<close>

theorem syncShares_exact:
  assumes "syncShares t (b, ts) d = Inr d'" and "b_status b = b_open" and "shares_ok d" and "lines_wf d"
  shows "sum_rows bs_amountMinor (bill_shares d' (b_id b)) = bill_total b \<and>
    (\<forall>s. bs_status s = paid \<longrightarrow> (s \<in> set (bill_shares d' (b_id b)) \<longleftrightarrow> s \<in> set (bill_shares d (b_id b)))) \<and>
    (\<forall>s \<in> set (bill_shares d' (b_id b)). bs_status s = outstanding \<longrightarrow> 0 \<le> bs_amountMinor s) \<and>
    (\<forall>l \<in> set (live_lines d (b_orderId b)). \<forall>g. ol_guestId l = Some g \<longrightarrow> (\<exists>s \<in> set (bill_shares d' (b_id b)). bs_guestId s = g)) \<and>
    filter (\<lambda>s. bs_billId s \<noteq> b_id b) (billShares d') = filter (\<lambda>s. bs_billId s \<noteq> b_id b) (billShares d)"
proof -
  note c = syncShares_open [OF assms]
  have "filter (\<lambda>s. bs_billId s \<noteq> b_id b) (billShares d') = filter (\<lambda>s. bs_billId s \<noteq> b_id b) (billShares d)"
    using c(7) by (simp only: only_shares_def)
  with c show ?thesis by blast
qed


text \<open>What a settled checkout leaves: all shares of the bill paid, the bill finalised and the session over.\<close>

definition settled_by :: "guest_principal \<Rightarrow> uuid \<Rightarrow> db \<Rightarrow> bool" where
  "settled_by g k d \<longleftrightarrow> (\<forall>s \<in> set (bill_shares d k). bs_status s = paid) \<and> (\<exists>b \<in> set (bills d). b_id b = k \<and> b_status b = b_finalized) \<and>
     (\<forall>s \<in> set (tableSessions d). ts_id s = gp_sessionId g \<longrightarrow> ts_status s = s_settled)"

definition open_in_step :: "uuid \<Rightarrow> db \<Rightarrow> bool" where
  "open_in_step k d \<longleftrightarrow> (\<exists>b \<in> set (bills d). b_id b = k \<and> b_status b = b_open \<and> sum_rows bs_amountMinor (bill_shares d k) = bill_total b)"

lemma completeBill_settles:
  assumes "completeBill e t k x d = Inr d'" and "books_ok d" and "o_sessionId x = Some (gp_sessionId g)"
    and "\<forall>s \<in> set (bill_shares d k). bs_status s = paid"
  shows "settled_by g k d'"
proof -
  note c = completeBill_effect [OF assms(1,2)]
  have "bill_shares d' k = bill_shares d k" by (simp add: bill_shares_def c(4))
  with assms(4) c(6) c(7) [OF assms(3)] show ?thesis unfolding settled_by_def by simp
qed

lemma payShare_success:
  assumes co: "checked_out g k d b x d2" and s: "s \<in> set (billShares d2)" "bs_billId s = k" "bs_status s \<noteq> paid"
    and t: "createTenderRecord e (guest_tender tn k (bs_amountMinor s)) d2 = Inr (t, d3)"
    and d4: "d4 = d3\<lparr>billShares := update_rows (\<lambda>r. bs_id r = bs_id s) (pay_share_row e ph (td_id t)) (billShares d3)\<rparr>"
    and r: "(if count_rows (\<lambda>r. bs_billId r = k \<and> bs_status r = outstanding) (billShares d4) = 0 then completeBill e tn k x d4 else Inr d4) = Inr d5"
  shows "books_ok d5" "ledger_grows d d5" "shares_ok d5" "tenders d5 = tenders d @ [t]" "td_billId t = k" "td_method t = upi_manual"
    "td_amountMinor t = bs_amountMinor s" "pay_share_row e ph (td_id t) s \<in> set (bill_shares d5 k)"
    "\<forall>r \<in> set (bill_shares d k). bs_status r = paid \<longrightarrow> r \<in> set (bill_shares d5 k)"
    "if \<forall>r \<in> set (bill_shares d5 k). bs_status r = paid then settled_by g k d5 else open_in_step k d5"
proof -
  have h: "b \<in> set (bills d2)" "b_id b = k" "b_status b = b_open" "o_sessionId x = Some (gp_sessionId g)" "books_ok d2" "ledger_grows d d2" "shares_ok d2"
    "tenders d2 = tenders d" "sum_rows bs_amountMinor (bill_shares d2 k) = bill_total b"
    and pd: "\<forall>s. bs_status s = paid \<longrightarrow> (s \<in> set (bill_shares d2 k) \<longleftrightarrow> s \<in> set (bill_shares d k))"
    using co by (simp_all add: checked_out_def)
  note g = guest_tender_books [OF t h(1,2,3,5,7)]
  have same3: "bills d3 = bills d2" "billShares d3 = billShares d2" by (simp_all add: g(1))
  have b4: "books_ok d4" by (rule books_ok_frame [OF g(2)]) (simp_all add: d4)
  have s4: "shares_ok d4" unfolding d4 by (rule shares_ok_pay [OF g(4)])
  have l4: "ledger_grows d d4"
    by (rule ledger_grows_trans [OF h(6) ledger_grows_trans [OF g(3) ledger_grows_frame]]) (simp_all add: d4)
  have bs4: "bill_shares d4 k = map (\<lambda>r. if bs_id r = bs_id s then pay_share_row e ph (td_id t) r else r) (bill_shares d2 k)"
    unfolding d4 update_pay_rows by (simp add: bill_shares_def same3)
  have keep: "books_ok d5 \<and> ledger_grows d d5 \<and> shares_ok d5 \<and> tenders d5 = tenders d @ [t] \<and> bill_shares d5 k = bill_shares d4 k"
  proof (cases "count_rows (\<lambda>r. bs_billId r = k \<and> bs_status r = outstanding) (billShares d4) = 0")
    case True
    then have c: "completeBill e tn k x d4 = Inr d5" using r by simp
    note f = completeBill_effect [OF c b4]
    have "shares_ok d5" by (rule shares_ok_frame [OF s4 f(4,5)])
    then show ?thesis using f(1,3,4) ledger_grows_trans [OF l4 f(2)] by (simp add: bill_shares_def d4 g(1) h(8))
  next
    case False
    then have "d5 = d4" using r by simp
    with b4 l4 s4 show ?thesis by (simp add: d4 g(1) h(8))
  qed
  then show "books_ok d5" "ledger_grows d d5" "shares_ok d5" "tenders d5 = tenders d @ [t]" by blast+
  show "td_billId t = k" "td_method t = upi_manual" "td_amountMinor t = bs_amountMinor s" by (rule g)+
  have bs5: "bill_shares d5 k = bill_shares d4 k" using keep by blast
  have sm: "s \<in> set (bill_shares d2 k)" using s by (simp add: bill_shares_def)
  show "pay_share_row e ph (td_id t) s \<in> set (bill_shares d5 k)" unfolding bs5 bs4 using sm by (auto intro!: image_eqI [of _ _ s])
  have uniq: "r = s" if "r \<in> set (bill_shares d2 k)" "bs_id r = bs_id s" for r
  proof -
    have "distinct (map bs_id (billShares d2))" using h(7) by (simp add: shares_ok_def keys_ok_def)
    then show ?thesis using that s(1) by (auto simp: bill_shares_def distinct_map dest: inj_onD)
  qed
  show "\<forall>r \<in> set (bill_shares d k). bs_status r = paid \<longrightarrow> r \<in> set (bill_shares d5 k)"
  proof (intro ballI impI)
    fix r assume r: "r \<in> set (bill_shares d k)" "bs_status r = paid"
    then have m: "r \<in> set (bill_shares d2 k)" using pd by blast
    moreover have "bs_id r \<noteq> bs_id s" using uniq [OF m] r(2) s(3) by blast
    ultimately show "r \<in> set (bill_shares d5 k)" unfolding bs5 bs4 by (auto intro!: image_eqI [of _ _ r])
  qed
  have all: "(\<forall>r \<in> set (bill_shares d5 k). bs_status r = paid) \<longleftrightarrow> count_rows (\<lambda>r. bs_billId r = k \<and> bs_status r = outstanding) (billShares d4) = 0"
  proof -
    have o: "bs_status r = paid \<longleftrightarrow> bs_status r \<noteq> outstanding" for r by (cases "bs_status r") simp_all
    show ?thesis unfolding bs5 unfolding count_rows_zero o bill_shares_def by auto
  qed
  show "if \<forall>r \<in> set (bill_shares d5 k). bs_status r = paid then settled_by g k d5 else open_in_step k d5"
  proof (cases "\<forall>r \<in> set (bill_shares d5 k). bs_status r = paid")
    case True
    then have c: "completeBill e tn k x d4 = Inr d5" using r all by simp
    have "\<forall>r \<in> set (bill_shares d4 k). bs_status r = paid" using True unfolding bs5 .
    from completeBill_settles [OF c b4 h(4) this] show ?thesis using True by simp
  next
    case False
    then have d5: "d5 = d4" using r all by simp
    have "sum_rows bs_amountMinor (bill_shares d4 k) = sum_rows bs_amountMinor (bill_shares d2 k)"
      unfolding bs4 by (simp add: sum_rows_def comp_def pay_share_row_def if_distrib cong: if_cong)
    then have "open_in_step k d5" unfolding open_in_step_def d5
      by (intro bexI [of _ b]) (use h(1,2,3,9) same3 in \<open>simp_all add: d4\<close>)
    then show ?thesis unfolding if_not_P [OF False] .
  qed
qed

lemma payShare_effect:
  assumes "payShare e g k who dto d = Inr (v, d')" and "books_ok d" and "shares_ok d" and "lines_wf d"
  shows "books_ok d' \<and> ledger_grows d d' \<and> shares_ok d' \<and>
    (\<forall>r \<in> set (bill_shares d k). bs_status r = paid \<longrightarrow> r \<in> set (bill_shares d' k)) \<and>
    (if sp_simulatedOutcome dto = out_success
     then \<exists>t s. tenders d' = tenders d @ [t] \<and> td_billId t = k \<and> td_method t = upi_manual \<and> s \<in> set (bill_shares d' k) \<and> bs_guestId s = who \<and>
       bs_status s = paid \<and> bs_tenderId s = Some (td_id t) \<and> bs_amountMinor s = td_amountMinor t \<and>
       (if \<forall>r \<in> set (bill_shares d' k). bs_status r = paid then settled_by g k d' else open_in_step k d')
     else tenders d' = tenders d \<and> open_in_step k d')"
proof -
  obtain bt x ses d2 where o: "open_checkout e g k d = Inr (bt, x, ses, d2)" using assms(1) by (cases "open_checkout e g k d") (auto simp: payShare_def)
  note co = open_checkout_Inr(1) [OF o assms(2-4)]
  obtain s where f: "find (\<lambda>s. bs_billId s = k \<and> bs_guestId s = who) (billShares d2) = Some s"
    using assms(1) by (auto simp: payShare_def o split: option.splits)
  then have s: "s \<in> set (billShares d2)" "bs_billId s = k" "bs_guestId s = who" by (auto simp: find_Some_iff)
  have np: "bs_status s \<noteq> paid" using assms(1) by (auto simp: payShare_def o f split: if_splits)
  have h: "b_id (fst bt) = k" using co by (simp add: checked_out_def)
  show ?thesis
  proof (cases "sp_simulatedOutcome dto = out_success")
    case False
    then have d': "d' = d2" using assms(1) by (auto simp: payShare_def o f r_bind_eq_Inr split: if_splits)
    have "open_in_step k d'" using co unfolding d' open_in_step_def checked_out_def by blast
    with co False show ?thesis unfolding d' by (simp add: checked_out_def)
  next
    case True
    obtain t d3 where t: "createTenderRecord e (guest_tender (gp_tenantId g) k (bs_amountMinor s)) d2 = Inr (t, d3)"
      using assms(1) True by (cases "createTenderRecord e (guest_tender (gp_tenantId g) k (bs_amountMinor s)) d2") (auto simp: payShare_def o f split: if_splits)
    let ?d4 = "d3\<lparr>billShares := update_rows (\<lambda>r. bs_id r = bs_id s) (pay_share_row e (sp_payerPhone dto) (td_id t)) (billShares d3)\<rparr>"
    have r: "(if count_rows (\<lambda>r. bs_billId r = k \<and> bs_status r = outstanding) (billShares ?d4) = 0
        then completeBill e (gp_tenantId g) k x ?d4 else Inr ?d4) = Inr d'"
      using assms(1) True by (auto simp: payShare_def o f t h r_bind_eq_Inr Let_def split: if_splits)
    note p = payShare_success [OF co s(1,2) np t refl r]
    have row: "bs_guestId (pay_share_row e (sp_payerPhone dto) (td_id t) s) = who" "bs_status (pay_share_row e (sp_payerPhone dto) (td_id t) s) = paid"
      "bs_tenderId (pay_share_row e (sp_payerPhone dto) (td_id t) s) = Some (td_id t)"
      "bs_amountMinor (pay_share_row e (sp_payerPhone dto) (td_id t) s) = td_amountMinor t" by (simp_all add: pay_share_row_def s(3) p(7))
    have "\<exists>t s. tenders d' = tenders d @ [t] \<and> td_billId t = k \<and> td_method t = upi_manual \<and> s \<in> set (bill_shares d' k) \<and> bs_guestId s = who \<and>
       bs_status s = paid \<and> bs_tenderId s = Some (td_id t) \<and> bs_amountMinor s = td_amountMinor t \<and>
       (if \<forall>r \<in> set (bill_shares d' k). bs_status r = paid then settled_by g k d' else open_in_step k d')"
      using p(4,5,6,8,10) row by blast
    with p(1,2,3,9) True show ?thesis by simp
  qed
qed

text \<open>C21: Paying one share. A guest's payment that does not succeed writes no tender and leaves every paid share and the
  bill open; one that succeeds adds exactly one tender, of the share's own amount, marks that share paid by it, keeps every
  share that was paid, and either leaves the bill open with shares that still add up to its total, or, when no
  share is outstanding, finalises the bill and settles the table session.\<close>

theorem payShare_pays_once:
  assumes "payShare e g k who dto d = Inr (v, d')" and "books_ok d" and "shares_ok d" and "lines_wf d"
  shows "books_ok d' \<and> ledger_grows d d' \<and> shares_ok d' \<and>
    (\<forall>r \<in> set (bill_shares d k). bs_status r = paid \<longrightarrow> r \<in> set (bill_shares d' k)) \<and>
    (if sp_simulatedOutcome dto = out_success
     then \<exists>t s. tenders d' = tenders d @ [t] \<and> td_billId t = k \<and> td_method t = upi_manual \<and> s \<in> set (bill_shares d' k) \<and> bs_guestId s = who \<and>
       bs_status s = paid \<and> bs_tenderId s = Some (td_id t) \<and> bs_amountMinor s = td_amountMinor t \<and>
       (if \<forall>r \<in> set (bill_shares d' k). bs_status r = paid then settled_by g k d' else open_in_step k d')
     else tenders d' = tenders d \<and> open_in_step k d')"
  by (rule payShare_effect [OF assms])


text \<open>The kiosk's own card reader: an intent raised and confirmed at once, with its tender.\<close>

lemma payByKioskCard_Inr:
  assumes "payByKioskCard e t b a d = Inr (i, d')" and "payments_ok d" and "books_ok d" and "b \<in> set (bills d)"
  shows "\<exists>tn. tenders d' = tenders d @ [tn] \<and> td_id tn = i \<and> td_billId tn = b_id b \<and> td_method tn = card_terminal \<and> td_amountMinor tn = a"
    "payments_ok d'" "books_ok d'" "ledger_grows d d'" "billShares d' = billShares d" "nextId d \<le> nextId d'"
proof -
  obtain ten where ten: "find_row tn_id t (tenants d) = Some ten"
    using assms(1) by (auto simp: payByKioskCard_def split: option.splits)
  define x where "x = \<lparr>pi_id = nextId d, pi_tenantId = t, pi_outletId = b_outletId b, pi_billId = b_id b, pi_shareId = None,
                   pi_rail = card_terminal, pi_provider = simulated, pi_amountMinor = a,
                   pi_currency = (if tn_country ten = AU then ''AUD'' else ''INR''), pi_status = i_pending,
                   pi_clientKey = ''kiosk:'' @ show_digits (b_id b), pi_providerRef = None, pi_clientPayload = JObj [(''simulated'', JBool True)],
                   pi_failureReason = None, pi_expiresAt = now e + 60000, pi_succeededAt = None, pi_createdByStaffId = None,
                   pi_createdAt = now e, pi_targetDeviceId = None\<rparr>"
  have run: "r_bind (insert_intent x (d\<lparr>nextId := Suc (nextId d)\<rparr>)) (\<lambda>d2. r_bind (confirmIntent e t (nextId d) d2) (\<lambda>((_, tender), d3).
               (case tender of None \<Rightarrow> Inl (InternalError ''Error'') | Some t \<Rightarrow> Inr (t, d3)))) = Inr (i, d')"
    using assms(1) unfolding payByKioskCard_def ten take_id_def Let_def x_def by simp
  obtain d2 where ins: "insert_intent x (d\<lparr>nextId := Suc (nextId d)\<rparr>) = Inr d2"
    using run by (cases "insert_intent x (d\<lparr>nextId := Suc (nextId d)\<rparr>)") simp_all
  have x: "pi_id x = nextId d" "pi_status x = i_pending" "pi_billId x = b_id b" "pi_rail x = card_terminal" "pi_amountMinor x = a" by (simp_all add: x_def)
  note p = payments_ok_insert [OF assms(2) ins x(1,2)]
  have d2: "d2 = d\<lparr>nextId := Suc (nextId d), intents := intents d @ [x]\<rparr>" by (rule p(4))
  have b2: "books_ok d2" by (rule books_ok_frame [OF assms(3)]) (simp_all add: d2)
  obtain y where c: "confirmIntent e t (nextId d) d2 = Inr ((y, Some i), d')"
    using run unfolding ins by (cases "confirmIntent e t (nextId d) d2") (auto split: option.splits)
  note k = confirmIntent_keeps [OF c p(1) b2]
  have "find_row pi_id (nextId d) (intents d2) = Some x"
  proof -
    have "keys_ok (nextId d) (map pi_id (intents d))" using assms(2) by (simp add: payments_ok_def)
    then have "\<forall>y \<in> set (intents d). pi_id y \<noteq> nextId d" by (auto simp: keys_ok_def)
    then have "find_row pi_id (nextId d) (intents d @ [x]) = Some x" using x(1) by (simp add: find_row_append find_row_Cons find_row_None [THEN iffD2])
    then show ?thesis by (simp add: d2)
  qed
  note fx = this
  have "\<exists>tn. tenders d' = tenders d2 @ [tn] \<and> td_id tn = i \<and> td_billId tn = b_id b \<and> td_method tn = card_terminal \<and> td_amountMinor tn = a \<and> billShares d' = billShares d2"
    using c p(1)
  proof (cases rule: confirmIntent_cases)
    case (over z)
    then show ?thesis using fx x(2) by simp
  next
    case (late z c)
    then show ?thesis by simp
  next
    case (captured z c tn)
    then have "z = x" using fx by simp
    with captured x show ?thesis by (intro exI [of _ tn]) (simp add: pays_def)
  qed
  then show "\<exists>tn. tenders d' = tenders d @ [tn] \<and> td_id tn = i \<and> td_billId tn = b_id b \<and> td_method tn = card_terminal \<and> td_amountMinor tn = a"
    and "billShares d' = billShares d" by (auto simp: d2)
  show "payments_ok d'" "books_ok d'" by (rule k)+
  show "ledger_grows d d'" by (rule ledger_grows_trans [OF ledger_grows_frame k(4)]) (simp_all add: d2)
  show "nextId d \<le> nextId d'" using k(7) by (simp add: d2)
qed


lemma payAll_success:
  assumes co: "checked_out g k d b x d2" and np: "\<forall>s \<in> set (bill_shares d2 k). bs_status s \<noteq> paid"
    and t: "tenders d3 = tenders d @ [tn]" "td_id tn = i" "td_amountMinor tn = bill_total b" "books_ok d3" "ledger_grows d2 d3"
      "billShares d3 = billShares d2" "nextId d2 \<le> nextId d3"
    and c: "completeBill e tid k x (d3\<lparr>billShares := update_rows (\<lambda>s. bs_billId s = k) (pay_share_row e ph i) (billShares d3)\<rparr>) = Inr d5" (is "completeBill e tid k x ?d4 = _")
  shows "books_ok d5" "ledger_grows d d5" "shares_ok d5" "tenders d5 = tenders d @ [tn]" "settled_by g k d5"
    "sum_rows bs_amountMinor (bill_shares d5 k) = td_amountMinor tn" "\<forall>s \<in> set (bill_shares d5 k). bs_tenderId s = Some (td_id tn)"
proof -
  have h: "o_sessionId x = Some (gp_sessionId g)" "books_ok d2" "ledger_grows d d2" "shares_ok d2"
    "sum_rows bs_amountMinor (bill_shares d2 k) = bill_total b" using co by (simp_all add: checked_out_def)
  have b4: "books_ok ?d4" by (rule books_ok_frame [OF t(4)]) simp_all
  have s3: "shares_ok d3" by (rule shares_ok_frame [OF h(4) t(6,7)])
  have s4: "shares_ok ?d4" by (rule shares_ok_pay [OF s3])
  note f = completeBill_effect [OF c b4]
  have "\<forall>s \<in> set (bill_shares d3 k). bs_billId s = k" by (simp add: bill_shares_def)
  then have bs4: "bill_shares ?d4 k = map (pay_share_row e ph i) (bill_shares d2 k)"
    unfolding update_pay_rows using t(6) by (simp add: bill_shares_def)
  have bs5: "bill_shares d5 k = bill_shares ?d4 k" by (simp add: bill_shares_def f(4))
  show "books_ok d5" by (rule f(1))
  show "ledger_grows d d5" by (rule ledger_grows_trans [OF h(3) ledger_grows_trans [OF t(5) ledger_grows_trans [OF ledger_grows_frame f(2)]]]) simp_all
  show "shares_ok d5" by (rule shares_ok_frame [OF s4 f(4,5)])
  show "tenders d5 = tenders d @ [tn]" using f(3) t(1) by simp
  have "\<forall>s \<in> set (bill_shares ?d4 k). bs_status s = paid" unfolding bs4 by (simp add: pay_share_row_def)
  from completeBill_settles [OF c b4 h(1) this] show "settled_by g k d5" .
  show "sum_rows bs_amountMinor (bill_shares d5 k) = td_amountMinor tn"
    unfolding bs5 bs4 using h(5) t(3) by (simp add: sum_rows_def comp_def pay_share_row_def)
  show "\<forall>s \<in> set (bill_shares d5 k). bs_tenderId s = Some (td_id tn)" unfolding bs5 bs4 using t(2) by (simp add: pay_share_row_def)
qed

lemma payAll_effect:
  assumes "payAll e g k dto d = Inr (v, d')" and "books_ok d" and "shares_ok d" and "lines_wf d" and "payments_ok d"
  shows "(\<forall>s \<in> set (bill_shares d k). bs_status s \<noteq> paid) \<and> books_ok d' \<and> ledger_grows d d' \<and> shares_ok d' \<and>
    (if sp_simulatedOutcome dto = out_success
     then settled_by g k d' \<and>
       (\<exists>t s. tenders d' = tenders d @ [t] \<and> sum_rows bs_amountMinor (bill_shares d' k) = td_amountMinor t \<and> s \<in> set (tableSessions d) \<and>
         ts_id s = gp_sessionId g \<and> td_method t = (if ts_tableId s = None then card_terminal else upi_manual) \<and>
         (\<forall>r \<in> set (bill_shares d' k). bs_tenderId r = Some (td_id t)))
     else tenders d' = tenders d \<and> open_in_step k d')"
proof -
  obtain bt x ses d2 where o: "open_checkout e g k d = Inr (bt, x, ses, d2)" using assms(1) by (cases "open_checkout e g k d") (auto simp: payAll_def)
  let ?b = "fst bt" and ?t = "gp_tenantId g"
  note oc = open_checkout_Inr [OF o assms(2-4)]
  note co = oc(1)
  have h: "?b \<in> set (bills d2)" "b_id ?b = k" "b_status ?b = b_open" "books_ok d2" "ledger_grows d d2" "shares_ok d2" "tenders d2 = tenders d"
    "payments_ok d2" and pd: "\<forall>s. bs_status s = paid \<longrightarrow> (s \<in> set (bill_shares d2 k) \<longleftrightarrow> s \<in> set (bill_shares d k))"
    using co assms(5) by (simp_all add: checked_out_def)
  have np: "\<forall>s \<in> set (bill_shares d2 k). bs_status s \<noteq> paid"
    using assms(1) by (auto simp: payAll_def o list_ex_iff split: if_splits)
  then have np0: "\<forall>s \<in> set (bill_shares d k). bs_status s \<noteq> paid" using pd by blast
  have nl: "\<not> list_ex (\<lambda>s. bs_status s = paid) (bill_shares d2 k)" using np by (simp add: list_ex_iff)
  show ?thesis
  proof (cases "sp_simulatedOutcome dto = out_success")
    case False
    then have d': "d' = d2" using assms(1) nl by (auto simp: payAll_def o r_bind_eq_Inr)
    have "open_in_step k d'" using co unfolding d' open_in_step_def checked_out_def by blast
    then show ?thesis using False np0 h(4-7) d' by simp
  next
    case True
    have tot: "bw_totalMinor (toBillView bt) = bill_total ?b" by (cases bt) (simp add: toBillView_def)
    let ?pay = "if ts_tableId ses = None then payByKioskCard e ?t ?b (bw_totalMinor (toBillView bt)) d2
                else r_bind (createTenderRecord e (guest_tender ?t k (bw_totalMinor (toBillView bt))) d2) (\<lambda>(t, d3). Inr (td_id t, d3))"
    let ?then = "\<lambda>(i, d3). completeBill e ?t (b_id ?b) x
        (d3\<lparr>billShares := update_rows (\<lambda>s. bs_billId s = k) (pay_share_row e (sp_payerPhone dto) i) (billShares d3)\<rparr>)"
    have run: "r_bind (r_bind ?pay ?then) (\<lambda>d5. r_bind (buildView e ?t k d5) (\<lambda>v. Inr (v, d5))) = Inr (v, d')"
      using assms(1) unfolding payAll_def o r_bind_Inr prod.case if_P [OF True] if_not_P [OF nl] .
    obtain i d3 where pay0: "?pay = Inr (i, d3)" using run by (cases ?pay) auto
    have c: "completeBill e ?t k x (d3\<lparr>billShares := update_rows (\<lambda>s. bs_billId s = k) (pay_share_row e (sp_payerPhone dto) i) (billShares d3)\<rparr>) = Inr d'"
      using run unfolding pay0 r_bind_Inr prod.case h(2) by (auto simp: r_bind_eq_Inr)
    note pay = pay0 [unfolded tot]
    have "\<exists>tn. tenders d3 = tenders d @ [tn] \<and> td_id tn = i \<and> td_amountMinor tn = bill_total ?b \<and> books_ok d3 \<and> ledger_grows d2 d3 \<and>
        billShares d3 = billShares d2 \<and> nextId d2 \<le> nextId d3 \<and> td_method tn = (if ts_tableId ses = None then card_terminal else upi_manual)"
    proof (cases "ts_tableId ses = None")
      case True
      then have k: "payByKioskCard e ?t ?b (bill_total ?b) d2 = Inr (i, d3)" using pay by simp
      from payByKioskCard_Inr [OF k h(8,4,1)] True h(7) show ?thesis by auto
    next
      case False
      then obtain tn where k: "createTenderRecord e (guest_tender ?t k (bill_total ?b)) d2 = Inr (tn, d3)" "i = td_id tn"
        using pay by (auto simp: r_bind_eq_Inr)
      note q = guest_tender_books [OF k(1) h(1-4,6)]
      then show ?thesis using False h(7) k(2) by (intro exI [of _ tn]) simp
    qed
    then obtain tn where tn: "tenders d3 = tenders d @ [tn]" "td_id tn = i" "td_amountMinor tn = bill_total ?b" "books_ok d3" "ledger_grows d2 d3"
        "billShares d3 = billShares d2" "nextId d2 \<le> nextId d3" "td_method tn = (if ts_tableId ses = None then card_terminal else upi_manual)" by blast
    note p = payAll_success [OF co np tn(1-7) c]
    have "\<exists>t s. tenders d' = tenders d @ [t] \<and> sum_rows bs_amountMinor (bill_shares d' k) = td_amountMinor t \<and> s \<in> set (tableSessions d) \<and>
         ts_id s = gp_sessionId g \<and> td_method t = (if ts_tableId s = None then card_terminal else upi_manual) \<and>
         (\<forall>r \<in> set (bill_shares d' k). bs_tenderId r = Some (td_id t))"
      using p(4,6,7) oc(2,3) tn(8) by blast
    then show ?thesis using p(1,2,3,5) np0 True by simp
  qed
qed

text \<open>C22: Paying the whole bill. A whole-bill payment is accepted only while no share of the bill is paid. One that
  succeeds adds exactly one tender, whose amount is what all shares together come to, by manual UPI at a table and by
  card on a kiosk; every share is marked paid by it, the bill is finalised and the session settled.
  One that does not succeed adds no tender and leaves the bill open with its shares in step.\<close>

theorem payAll_settles:
  assumes "payAll e g k dto d = Inr (v, d')" and "books_ok d" and "shares_ok d" and "lines_wf d" and "payments_ok d"
  shows "(\<forall>s \<in> set (bill_shares d k). bs_status s \<noteq> paid) \<and> books_ok d' \<and> ledger_grows d d' \<and> shares_ok d' \<and>
    (if sp_simulatedOutcome dto = out_success
     then settled_by g k d' \<and>
       (\<exists>t s. tenders d' = tenders d @ [t] \<and> sum_rows bs_amountMinor (bill_shares d' k) = td_amountMinor t \<and> s \<in> set (tableSessions d) \<and>
         ts_id s = gp_sessionId g \<and> td_method t = (if ts_tableId s = None then card_terminal else upi_manual) \<and>
         (\<forall>r \<in> set (bill_shares d' k). bs_tenderId r = Some (td_id t)))
     else tenders d' = tenders d \<and> open_in_step k d')"
  by (rule payAll_effect [OF assms])

section \<open>Two guests at a table\<close>

text \<open>Ravi and Mira at table 30, with a lassi for him and two for her.\<close>

definition s_guest :: guest_principal where
  "s_guest = \<lparr>gp_id = 87, gp_sessionId = 86, gp_tenantId = 1, gp_outletId = 2, gp_tableId = Some 30, gp_name = ''Ravi''\<rparr>"

definition s_db_guest :: db where
  "s_db_guest = s_db_comp\<lparr>tableSessions := [s_session], orders := [s_order\<lparr>o_sessionId := Some 86, o_source := src_qr\<rparr>],
     orderLines := [(s_line 83 52 1 9990)\<lparr>ol_guestId := Some 87, ol_guestName := Some ''Ravi''\<rparr>,
       (s_line 84 52 2 9990)\<lparr>ol_guestId := Some 88, ol_guestName := Some ''Mira''\<rparr>],
     bills := [s_bill\<lparr>b_taxMinor := 0\<rparr>]\<rparr>"

definition s_pay :: "simulated_outcome \<Rightarrow> simulated_payment_dto" where
  "s_pay r = \<lparr>sp_simulatedOutcome = r, sp_payerPhone = None\<rparr>"

lemmas checkout_eval = open_checkout_def assertGuestPaymentsAvailable_def paymentsSimulatorFor_def paymentsSimulatorEnabled_def loadBill_def loadBillRow_def
  loadOrderForSession_def assertSessionActive_def isSessionInactive_def syncShares_def share_weights_def weightOf_def add_missing_share_def
  bill_shares_def set_amount_def update_rows_def toBillView_def bill_total_def computeTotalMinor_def create_eval
  s_sim_env_def s_guest_def s_db_guest_def s_pay_def s_bill_def s_session_def sdiv_pos
lemmas pay_eval = payShare_def payAll_def guest_tender_def createTenderRecord_def tender_checks_def pay_share_row_def count_rows_def buildView_def completeBill_def set_session_def

lemma s_db_guest_ok: "books_ok s_db_guest" "shares_ok s_db_guest" "lines_wf s_db_guest" "payments_ok s_db_guest"
  subgoal by (simp add: books_ok_def keys_ok_def bill_ok_def numbers_at_def finalized_at_def last_bill_number_def checkout_eval sample_defs)
  subgoal by (simp add: shares_ok_def keys_ok_def checkout_eval sample_defs)
  subgoal by (simp add: lines_wf_def line_wf_def keys_ok_def checkout_eval sample_defs)
  subgoal by (simp add: payments_ok_def keys_ok_def active_targets_def List.map_filter_def checkout_eval sample_defs)
  done

lemma payShare_sample: "\<exists>v d. payShare s_sim_env s_guest 90 88 (s_pay out_success) s_db_guest = Inr (v, d) \<and> map td_amountMinor (tenders d) = [19980]"
  by (simp add: pay_eval checkout_eval sample_defs)

lemma payAll_sample: "\<exists>v d. payAll s_sim_env s_guest 90 (s_pay out_success) s_db_guest = Inr (v, d)"
  by (simp add: pay_eval checkout_eval commit_eval fire_eval sample_defs)

theorem payShare_pays_once_witness:
  "\<exists>v d t. payShare s_sim_env s_guest 90 88 (s_pay out_success) s_db_guest = Inr (v, d) \<and> tenders d = [t] \<and> td_amountMinor t = 19980 \<and> shares_ok d \<and>
     (\<exists>s \<in> set (bill_shares d 90). bs_guestId s = 88 \<and> bs_tenderId s = Some (td_id t))"
proof -
  obtain v d where r: "payShare s_sim_env s_guest 90 88 (s_pay out_success) s_db_guest = Inr (v, d)" "map td_amountMinor (tenders d) = [19980]"
    using payShare_sample by (elim exE conjE)
  have o: "sp_simulatedOutcome (s_pay out_success) = out_success" "tenders s_db_guest = []" by (simp_all add: s_pay_def s_db_guest_def s_db_comp_def s_db_order_def s_db_def empty_db_def)
  from payShare_pays_once [OF r(1) s_db_guest_ok(1-3)] obtain t s where "tenders d = [t]" "s \<in> set (bill_shares d 90)" "bs_guestId s = 88"
    "bs_tenderId s = Some (td_id t)" "shares_ok d" unfolding o by auto
  with r show ?thesis by auto
qed

theorem payAll_settles_witness:
  "\<exists>v d t. payAll s_sim_env s_guest 90 (s_pay out_success) s_db_guest = Inr (v, d) \<and> tenders d = [t] \<and>
     sum_rows bs_amountMinor (bill_shares d 90) = td_amountMinor t \<and> settled_by s_guest 90 d"
proof -
  obtain v d where r: "payAll s_sim_env s_guest 90 (s_pay out_success) s_db_guest = Inr (v, d)" using payAll_sample by blast
  have o: "sp_simulatedOutcome (s_pay out_success) = out_success" "tenders s_db_guest = []" by (simp_all add: s_pay_def s_db_guest_def s_db_comp_def s_db_order_def s_db_def empty_db_def)
  from payAll_settles [OF r s_db_guest_ok] r show ?thesis unfolding o by auto
qed

lemma syncShares_sample: "\<exists>d. syncShares 1 (s_bill\<lparr>b_subtotalMinor := 29970, b_taxMinor := 0\<rparr>, []) s_db_guest = Inr d"
  by (simp add: checkout_eval sample_defs)

theorem syncShares_exact_witness:
  "\<exists>d. syncShares 1 (s_bill\<lparr>b_subtotalMinor := 29970, b_taxMinor := 0\<rparr>, []) s_db_guest = Inr d \<and> sum_rows bs_amountMinor (bill_shares d 90) = 29970"
proof -
  obtain d where r: "syncShares 1 (s_bill\<lparr>b_subtotalMinor := 29970, b_taxMinor := 0\<rparr>, []) s_db_guest = Inr d" using syncShares_sample by blast
  have "b_status (s_bill\<lparr>b_subtotalMinor := 29970, b_taxMinor := 0\<rparr>) = b_open" by (simp add: s_bill_def)
  from syncShares_exact [OF r this s_db_guest_ok(2,3)] r show ?thesis by (simp add: s_bill_def bill_total_def computeTotalMinor_def)
qed

end
