(* ===== verification/GuestCart.thy ===== *)
theory GuestCart
  imports GuestSessions
begin

text \<open>
  The cart the guests of a table share, \<^verbatim>\<open>src/src/guest/cart/cart.service.ts\<close>: every guest of an active session adds items
  and combos, only the guest who added a line may change or remove it, and prices are read live on every view.
  A combo is one parent line with a child line per pick, whose quantities scale with the parent.
\<close>

section \<open>Views and requests\<close>

record cart_line_modifier_view =
  cm_id :: uuid
  cm_name :: string
  cm_priceMinor :: int

record cart_line_view =
  cl_id :: uuid
  cl_note :: "string option"
  cl_guestId :: uuid
  cl_guestName :: string
  cl_itemId :: "uuid option"
  cl_comboId :: "uuid option"
  cl_components :: "string list"
  cl_itemName :: string
  cl_variantId :: "uuid option"
  cl_variantName :: "string option"
  cl_quantity :: int
  cl_unitPriceMinor :: int
  cl_modifiers :: "cart_line_modifier_view list"
  cl_lineTotalMinor :: int
  cl_createdAt :: date

record guest_cart_view =
  gc_guestId :: uuid
  gc_guestName :: string
  gc_lines :: "cart_line_view list"
  gc_subtotalMinor :: int

record table_cart_view =
  tv_sessionId :: uuid
  tv_guests :: "guest_cart_view list"
  tv_totalMinor :: int
  tv_currency :: string

record add_cart_line_dto =
  nl_note :: "string option"
  nl_itemId :: uuid
  nl_variantId :: "uuid option"
  nl_quantity :: int
  nl_modifierIds :: "uuid list option"

record add_cart_combo_dto =
  nc_comboId :: uuid
  nc_quantity :: int
  nc_selections :: "combo_selection_input list"

text \<open>A field that is absent is \<open>None\<close>; the note can also be given as null, \<open>Some None\<close>.\<close>

record update_cart_line_dto =
  uc_note :: "string option option"
  uc_quantity :: "int option"
  uc_modifierIds :: "uuid list option"

section \<open>Checks\<close>

definition loadItemForCartLine :: "db \<Rightarrow> uuid \<Rightarrow> uuid \<Rightarrow> menu_item result" where
  "loadItemForCartLine d tenantId itemId =
    (case find_row mi_id itemId (menuItems d) of
       None \<Rightarrow> Inl (BadRequest ''validation_failed'')
     | Some item \<Rightarrow> if mi_tenantId item \<noteq> tenantId \<or> mi_archivedAt item \<noteq> None then Inl (BadRequest ''validation_failed'') else Inr item)"

definition cart_assertVariantBelongsToItem :: "menu_item \<Rightarrow> uuid option \<Rightarrow> unit result" where
  "cart_assertVariantBelongsToItem item variantId =
    (case variantId of None \<Rightarrow> Inr ()
     | Some v \<Rightarrow> if \<not> list_ex (\<lambda>x. iv_id x = v) (mi_variants item) then Inl (BadRequest ''validation_failed'') else Inr ())"

fun cart_selection_counts :: "uuid list \<Rightarrow> modifier_group list \<Rightarrow> unit result" where
  "cart_selection_counts modifierIds [] = Inr ()"
| "cart_selection_counts modifierIds (g # gs) =
    (let selectedCount = int (length (filter (\<lambda>m. m \<in> set modifierIds) (mg_modifiers g)))
     in if selectedCount < mg_minSelections g \<or> selectedCount > mg_maxSelections g then Inl (BadRequest ''modifier_selection_invalid'')
        else cart_selection_counts modifierIds gs)"

definition cart_assertModifierSelectionValid :: "menu_item \<Rightarrow> uuid list \<Rightarrow> unit result" where
  "cart_assertModifierSelectionValid item modifierIds =
    (let validModifierIds = concat (map mg_modifiers (mi_modifierGroups item))
     in if list_ex (\<lambda>i. i \<notin> set validModifierIds) modifierIds then Inl (BadRequest ''validation_failed'')
        else cart_selection_counts modifierIds (mi_modifierGroups item))"

definition loadActiveSession :: "env \<Rightarrow> db \<Rightarrow> guest_principal \<Rightarrow> table_session result" where
  "loadActiveSession e d guest =
    (case find_row ts_id (gp_sessionId guest) (tableSessions d) of
       None \<Rightarrow> Inl (NotFound ''not_found'')
     | Some s \<Rightarrow> if isSessionInactive e s then Inl (Gone ''session_closed'') else Inr s)"

definition loadCartLine :: "db \<Rightarrow> uuid \<Rightarrow> uuid \<Rightarrow> uuid \<Rightarrow> cart_line result" where
  "loadCartLine d tenantId sessionId lineId =
    (case find_row ca_id lineId (cartLines d) of
       None \<Rightarrow> Inl (NotFound ''not_found'')
     | Some l \<Rightarrow> if ca_tenantId l \<noteq> tenantId \<or> ca_sessionId l \<noteq> sessionId then Inl (NotFound ''not_found'') else Inr l)"

definition assertOwnedByGuest :: "cart_line \<Rightarrow> guest_principal \<Rightarrow> unit result" where
  "assertOwnedByGuest l guest = (if ca_guestId l \<noteq> gp_id guest then Inl (Forbidden ''forbidden'') else Inr ())"

definition assertNotComboPick :: "cart_line \<Rightarrow> unit result" where
  "assertNotComboPick l = (if ca_parentLineId l \<noteq> None then Inl (Conflict ''combo_locked'') else Inr ())"

section \<open>Reading the cart\<close>

definition CART_PRICE_CHANNEL :: price_channel where
  "CART_PRICE_CHANNEL = qr"

definition FALLBACK_CURRENCY :: string where
  "FALLBACK_CURRENCY = ''INR''"

definition resolveUnitPriceMinor :: "env \<Rightarrow> db \<Rightarrow> uuid \<Rightarrow> uuid \<Rightarrow> uuid \<Rightarrow> uuid option \<Rightarrow> (int \<times> string) option" where
  "resolveUnitPriceMinor e d tenantId outletId itemId variantId =
    map_option (\<lambda>p. (ip_priceMinor p, ip_currency p)) (resolveCurrentPrice e d tenantId itemId variantId CART_PRICE_CHANNEL (Some outletId))"

text \<open>The rows an include joins to a cart line: its modifiers and its picks.\<close>

definition cart_modifiers :: "db \<Rightarrow> cart_line \<Rightarrow> modifier list" where
  "cart_modifiers d l = List.map_filter (\<lambda>i. find_row mo_id i (modifiers d)) (ca_modifierIds l)"

definition cart_children :: "db \<Rightarrow> uuid \<Rightarrow> cart_line list" where
  "cart_children d k = filter (\<lambda>c. ca_parentLineId c = Some k) (cartLines d)"

definition cart_item_name :: "db \<Rightarrow> cart_line \<Rightarrow> string" where
  "cart_item_name d l = (case ca_itemId l of None \<Rightarrow> [] | Some i \<Rightarrow> nullish (map_option mi_name (find_row mi_id i (menuItems d))) [])"

definition cart_variant_name :: "db \<Rightarrow> cart_line \<Rightarrow> string option" where
  "cart_variant_name d l =
    (case ca_variantId l of None \<Rightarrow> None
     | Some v \<Rightarrow> map_option iv_name (find_row iv_id v (concat (map mi_variants (menuItems d)))))"

definition slot_options :: "db \<Rightarrow> combo_slot_option list" where
  "slot_options d = concat (map (\<lambda>c. concat (map cs_options (cb_slots c))) (combos d))"

definition option_upcharge :: "db \<Rightarrow> uuid option \<Rightarrow> int" where
  "option_upcharge d optionId = (case optionId of None \<Rightarrow> 0 | Some i \<Rightarrow> nullish (map_option co_upchargeMinor (find_row co_id i (slot_options d))) 0)"

text \<open>
  The quotient of a pick's quantity by its combo's. A quotient that is not whole has no counterpart in the integers and
  is an error here; \<open>carts_ok\<close> below shows that no cart the service writes has one.
\<close>

definition per_combo :: "int \<Rightarrow> int \<Rightarrow> int result" where
  "per_combo pick combo = (if combo \<noteq> 0 \<and> combo dvd pick then Inr (pick div combo) else Inl (InternalError ''Error''))"

fun join_comma :: "string list \<Rightarrow> string" where
  "join_comma [] = []"
| "join_comma [s] = s"
| "join_comma (s # t # ss) = s @ '', '' @ join_comma (t # ss)"

definition component_text :: "int \<Rightarrow> string \<Rightarrow> string list \<Rightarrow> string" where
  "component_text n name extras =
    (if n > 1 then show_int n @ [CHR 0xD7, CHR 0x20] else []) @ name @ (if extras \<noteq> [] then '' ('' @ join_comma extras @ '')'' else [])"

definition combo_component :: "db \<Rightarrow> cart_line \<Rightarrow> cart_line \<Rightarrow> (int \<times> string) result" where
  "combo_component d line c =
    r_bind (per_combo (ca_quantity c) (ca_quantity line)) (\<lambda>n.
      let modifiersTotal = foldl (\<lambda>s m. s + mo_priceMinor m) 0 (cart_modifiers d c);
          extras = filter (\<lambda>s. s \<noteq> []) (nullish (cart_variant_name d c) [] # map mo_name (cart_modifiers d c))
      in Inr (n * (option_upcharge d (ca_comboOptionId c) + modifiersTotal), component_text n (cart_item_name d c) extras))"

definition toComboCartLineView :: "db \<Rightarrow> cart_line \<Rightarrow> uuid \<Rightarrow> (cart_line_view \<times> string option) result" where
  "toComboCartLineView d line comboId =
    (case find_row cb_id comboId (combos d) of
       None \<Rightarrow> Inl (InternalError ''TypeError'')
     | Some combo \<Rightarrow>
         r_bind (r_fold (\<lambda>c (perComboMinor, components). r_bind (combo_component d line c) (\<lambda>(extra, text).
                   Inr (perComboMinor + extra, components @ [text]))) (cart_children d (ca_id line)) (cb_priceMinor combo, []))
           (\<lambda>(perComboMinor, components). Inr
             (\<lparr>cl_id = ca_id line, cl_note = ca_note line, cl_guestId = ca_guestId line, cl_guestName = ca_guestName line, cl_itemId = None,
               cl_comboId = Some (cb_id combo), cl_components = components, cl_itemName = cb_name combo, cl_variantId = None,
               cl_variantName = None, cl_quantity = ca_quantity line, cl_unitPriceMinor = perComboMinor, cl_modifiers = [],
               cl_lineTotalMinor = perComboMinor * ca_quantity line, cl_createdAt = ca_createdAt line\<rparr>, Some (cb_currency combo))))"

definition toCartLineView :: "env \<Rightarrow> db \<Rightarrow> uuid \<Rightarrow> uuid \<Rightarrow> cart_line \<Rightarrow> (cart_line_view \<times> string option) result" where
  "toCartLineView e d tenantId outletId line =
    (case ca_comboId line of
       Some comboId \<Rightarrow> toComboCartLineView d line comboId
     | None \<Rightarrow>
        (case ca_itemId line of
           None \<Rightarrow> Inl (InternalError ''PrismaClientValidationError'')
         | Some itemId \<Rightarrow>
             let resolved = resolveUnitPriceMinor e d tenantId outletId itemId (ca_variantId line);
                 unitPriceMinor = nullish (map_option fst resolved) 0;
                 ms = map (\<lambda>m. \<lparr>cm_id = mo_id m, cm_name = mo_name m, cm_priceMinor = mo_priceMinor m\<rparr>) (cart_modifiers d line);
                 modifiersTotal = foldl (\<lambda>s m. s + cm_priceMinor m) 0 ms
             in Inr (\<lparr>cl_id = ca_id line, cl_note = ca_note line, cl_guestId = ca_guestId line, cl_guestName = ca_guestName line,
                  cl_itemId = Some itemId, cl_comboId = None, cl_components = [], cl_itemName = cart_item_name d line,
                  cl_variantId = ca_variantId line, cl_variantName = cart_variant_name d line, cl_quantity = ca_quantity line,
                  cl_unitPriceMinor = unitPriceMinor, cl_modifiers = ms,
                  cl_lineTotalMinor = (unitPriceMinor + modifiersTotal) * ca_quantity line, cl_createdAt = ca_createdAt line\<rparr>,
                  map_option snd resolved)))"

text \<open>The lines a table sees: picks are shown inside their combo.\<close>

definition top_cart_lines :: "db \<Rightarrow> uuid \<Rightarrow> uuid \<Rightarrow> cart_line list" where
  "top_cart_lines d tenantId sessionId =
     filter (\<lambda>l. ca_tenantId l = tenantId \<and> ca_sessionId l = sessionId \<and> ca_parentLineId l = None) (cartLines d)"

fun add_to_guest :: "cart_line \<Rightarrow> cart_line_view \<Rightarrow> guest_cart_view list \<Rightarrow> guest_cart_view list" where
  "add_to_guest line view [] =
     [\<lparr>gc_guestId = ca_guestId line, gc_guestName = ca_guestName line, gc_lines = [view], gc_subtotalMinor = 0 + cl_lineTotalMinor view\<rparr>]"
| "add_to_guest line view (g # gs) =
    (if gc_guestId g = ca_guestId line
     then g\<lparr>gc_lines := gc_lines g @ [view], gc_subtotalMinor := gc_subtotalMinor g + cl_lineTotalMinor view\<rparr> # gs
     else g # add_to_guest line view gs)"

definition cart_step ::
  "env \<Rightarrow> db \<Rightarrow> uuid \<Rightarrow> uuid \<Rightarrow> cart_line \<Rightarrow> guest_cart_view list \<times> string \<Rightarrow> (guest_cart_view list \<times> string) result" where
  "cart_step e d tenantId outletId line st = (case st of (gs, currency) \<Rightarrow>
     r_bind (toCartLineView e d tenantId outletId line) (\<lambda>(view, lineCurrency). Inr
       (add_to_guest line view gs, case lineCurrency of Some c \<Rightarrow> (if c \<noteq> [] then c else currency) | None \<Rightarrow> currency)))"

definition buildCartView :: "env \<Rightarrow> db \<Rightarrow> uuid \<Rightarrow> uuid \<Rightarrow> table_session \<Rightarrow> table_cart_view result" where
  "buildCartView e d tenantId outletId session =
    r_bind (r_fold (cart_step e d tenantId outletId) (top_cart_lines d tenantId (ts_id session)) ([], FALLBACK_CURRENCY)) (\<lambda>(gs, currency). Inr
      \<lparr>tv_sessionId = ts_id session, tv_guests = gs, tv_totalMinor = foldl (\<lambda>s g. s + gc_subtotalMinor g) 0 gs, tv_currency = currency\<rparr>)"

definition cart_reply :: "env \<Rightarrow> guest_principal \<Rightarrow> table_session \<Rightarrow> db \<Rightarrow> (table_cart_view \<times> db) result" where
  "cart_reply e guest session d = r_bind (buildCartView e d (gp_tenantId guest) (gp_outletId guest) session) (\<lambda>v. Inr (v, d))"

section \<open>Handlers\<close>

definition getCart :: "env \<Rightarrow> guest_principal \<Rightarrow> db \<Rightarrow> (table_cart_view \<times> db) result" where
  "getCart e guest d = r_bind (loadActiveSession e d guest) (\<lambda>session. cart_reply e guest session d)"

definition new_cart_line :: "env \<Rightarrow> guest_principal \<Rightarrow> table_session \<Rightarrow> int \<Rightarrow> cart_line" where
  "new_cart_line e guest session quantity =
     \<lparr>ca_id = 0, ca_tenantId = gp_tenantId guest, ca_sessionId = ts_id session, ca_guestId = gp_id guest, ca_guestName = gp_name guest,
      ca_itemId = None, ca_variantId = None, ca_comboId = None, ca_parentLineId = None, ca_comboOptionId = None, ca_quantity = quantity,
      ca_note = None, ca_createdAt = now e, ca_modifierIds = []\<rparr>"

text \<open>\<open>cartLine.create\<close> and its \<open>cartLineModifier.create\<close> calls; the line arrives without an identifier.\<close>

definition insert_cart_line :: "cart_line \<Rightarrow> db \<Rightarrow> uuid \<times> db" where
  "insert_cart_line l d = (let (i, d1) = take_id d in (i, d1\<lparr>cartLines := cartLines d1 @ [l\<lparr>ca_id := i\<rparr>]\<rparr>))"

definition cart_addLine :: "env \<Rightarrow> guest_principal \<Rightarrow> add_cart_line_dto \<Rightarrow> db \<Rightarrow> (table_cart_view \<times> db) result" where
  "cart_addLine e guest dto d =
    r_bind (loadActiveSession e d guest) (\<lambda>session.
    r_bind (loadItemForCartLine d (gp_tenantId guest) (nl_itemId dto)) (\<lambda>item.
    r_bind (cart_assertVariantBelongsToItem item (nl_variantId dto)) (\<lambda>_.
    r_bind (assertItemAvailable d (gp_outletId guest) item) (\<lambda>_.
    let ids = nullish (nl_modifierIds dto) [] in
    r_bind (cart_assertModifierSelectionValid item ids) (\<lambda>_.
      cart_reply e guest session (snd (insert_cart_line
        ((new_cart_line e guest session (nl_quantity dto))\<lparr>ca_itemId := Some (nl_itemId dto), ca_variantId := nl_variantId dto,
           ca_note := nl_note dto, ca_modifierIds := ids\<rparr>) d)))))))"

definition add_cart_pick :: "env \<Rightarrow> guest_principal \<Rightarrow> table_session \<Rightarrow> int \<Rightarrow> uuid \<Rightarrow> db \<Rightarrow> resolved_combo_child \<Rightarrow> db" where
  "add_cart_pick e guest session quantity parent d child =
     snd (insert_cart_line ((new_cart_line e guest session (rc_quantity child * quantity))\<lparr>ca_itemId := Some (rc_itemId child),
        ca_variantId := rc_variantId child, ca_parentLineId := Some parent, ca_comboOptionId := Some (rc_optionId child),
        ca_modifierIds := rc_modifierIds child\<rparr>) d)"

definition cart_addCombo :: "env \<Rightarrow> guest_principal \<Rightarrow> add_cart_combo_dto \<Rightarrow> db \<Rightarrow> (table_cart_view \<times> db) result" where
  "cart_addCombo e guest dto d =
    r_bind (loadActiveSession e d guest) (\<lambda>session.
    r_bind (resolveComboSelection d (gp_tenantId guest) (gp_outletId guest) (nc_comboId dto) (nc_selections dto)) (\<lambda>(combo, children).
      let (parent, d1) = insert_cart_line ((new_cart_line e guest session (nc_quantity dto))\<lparr>ca_comboId := Some (cb_id combo)\<rparr>) d
      in cart_reply e guest session (foldl (add_cart_pick e guest session (nc_quantity dto) parent) d1 children)))"

definition set_cart_line :: "uuid \<Rightarrow> (cart_line \<Rightarrow> cart_line) \<Rightarrow> db \<Rightarrow> db" where
  "set_cart_line k f d = d\<lparr>cartLines := update_rows (\<lambda>l. ca_id l = k) f (cartLines d)\<rparr>"

text \<open>The picks of a combo keep their number per combo.\<close>

definition scale_pick :: "int \<Rightarrow> int \<Rightarrow> cart_line \<Rightarrow> db \<Rightarrow> db result" where
  "scale_pick old q child d =
    r_bind (per_combo (ca_quantity child) old) (\<lambda>n. Inr (set_cart_line (ca_id child) (\<lambda>c. c\<lparr>ca_quantity := n * q\<rparr>) d))"

definition set_cart_quantity :: "cart_line \<Rightarrow> int \<Rightarrow> db \<Rightarrow> db result" where
  "set_cart_quantity line q d =
    (let d1 = set_cart_line (ca_id line) (\<lambda>l. l\<lparr>ca_quantity := q\<rparr>) d
     in if ca_comboId line \<noteq> None then r_fold (scale_pick (ca_quantity line) q) (cart_children d1 (ca_id line)) d1 else Inr d1)"

definition change_cart_modifiers :: "uuid \<Rightarrow> cart_line \<Rightarrow> uuid list \<Rightarrow> db \<Rightarrow> db result" where
  "change_cart_modifiers tenantId line ids d =
    (case ca_itemId line of
       None \<Rightarrow> Inl (InternalError ''PrismaClientValidationError'')
     | Some itemId \<Rightarrow>
         r_bind (loadItemForCartLine d tenantId itemId) (\<lambda>item.
         r_bind (cart_assertModifierSelectionValid item ids) (\<lambda>_.
           Inr (set_cart_line (ca_id line) (\<lambda>l. l\<lparr>ca_modifierIds := ids\<rparr>) d))))"

definition cart_updateLine :: "env \<Rightarrow> guest_principal \<Rightarrow> uuid \<Rightarrow> update_cart_line_dto \<Rightarrow> db \<Rightarrow> (table_cart_view \<times> db) result" where
  "cart_updateLine e guest lineId dto d =
    r_bind (loadActiveSession e d guest) (\<lambda>session.
    r_bind (loadCartLine d (gp_tenantId guest) (ts_id session) lineId) (\<lambda>line.
    r_bind (assertOwnedByGuest line guest) (\<lambda>_.
    r_bind (assertNotComboPick line) (\<lambda>_.
      if ca_comboId line \<noteq> None \<and> uc_modifierIds dto \<noteq> None then Inl (Conflict ''combo_locked'')
      else let d1 = (case uc_note dto of None \<Rightarrow> d | Some n \<Rightarrow> set_cart_line lineId (\<lambda>l. l\<lparr>ca_note := n\<rparr>) d) in
        r_bind (case uc_quantity dto of None \<Rightarrow> Inr d1 | Some q \<Rightarrow> set_cart_quantity line q d1) (\<lambda>d2.
        r_bind (case uc_modifierIds dto of None \<Rightarrow> Inr d2 | Some ids \<Rightarrow> change_cart_modifiers (gp_tenantId guest) line ids d2) (\<lambda>d3.
          cart_reply e guest session d3))))))"

definition cart_removeLine :: "env \<Rightarrow> guest_principal \<Rightarrow> uuid \<Rightarrow> db \<Rightarrow> (table_cart_view \<times> db) result" where
  "cart_removeLine e guest lineId d =
    r_bind (loadActiveSession e d guest) (\<lambda>session.
    r_bind (loadCartLine d (gp_tenantId guest) (ts_id session) lineId) (\<lambda>line.
    r_bind (assertOwnedByGuest line guest) (\<lambda>_.
    r_bind (assertNotComboPick line) (\<lambda>_.
      cart_reply e guest session (d\<lparr>cartLines := filter (\<lambda>l. ca_id l \<noteq> lineId \<and> ca_parentLineId l \<noteq> Some lineId) (cartLines d)\<rparr>)))))"

text \<open>The cart applies the rules of the till.\<close>

lemma cart_checks_agree:
  "loadItemForCartLine = loadItemForOrderLine" "cart_assertVariantBelongsToItem = assertVariantBelongsToItem"
  "cart_assertModifierSelectionValid = assertModifierSelectionValid"
proof -
  have "cart_selection_counts ids gs = check_selection_counts gs ids" for ids gs by (induction gs) (simp_all add: Let_def)
  then show "cart_assertModifierSelectionValid = assertModifierSelectionValid"
    by (intro ext) (simp add: cart_assertModifierSelectionValid_def assertModifierSelectionValid_def)
qed (intro ext; simp add: loadItemForCartLine_def loadItemForOrderLine_def cart_assertVariantBelongsToItem_def assertVariantBelongsToItem_def)+

section \<open>A cart stays whole\<close>

text \<open>A pick belongs to a combo line of the same guest and session, and its quantity is a multiple of the combo's.\<close>

definition pick_of :: "cart_line \<Rightarrow> cart_line \<Rightarrow> bool" where
  "pick_of p c \<longleftrightarrow> ca_parentLineId c = Some (ca_id p) \<and> ca_parentLineId p = None \<and> ca_comboId p \<noteq> None \<and> ca_comboId c = None \<and>
     ca_comboOptionId c \<noteq> None \<and> ca_tenantId c = ca_tenantId p \<and> ca_sessionId c = ca_sessionId p \<and> ca_guestId c = ca_guestId p \<and>
     ca_quantity p dvd ca_quantity c"

definition cart_line_wf :: "cart_line \<Rightarrow> bool" where
  "cart_line_wf l \<longleftrightarrow> 0 < ca_quantity l \<and> (ca_itemId l = None \<longleftrightarrow> ca_comboId l \<noteq> None)"

definition carts_ok :: "db \<Rightarrow> bool" where
  "carts_ok d \<longleftrightarrow> keys_ok (nextId d) (map ca_id (cartLines d)) \<and> (\<forall>l \<in> set (cartLines d). cart_line_wf l) \<and>
     (\<forall>c \<in> set (cartLines d). ca_parentLineId c \<noteq> None \<longrightarrow> (\<exists>p \<in> set (cartLines d). pick_of p c))"

lemma carts_ok_frame: "carts_ok d \<Longrightarrow> cartLines d' = cartLines d \<Longrightarrow> nextId d \<le> nextId d' \<Longrightarrow> carts_ok d'"
  by (auto simp: carts_ok_def intro: keys_ok_mono)

lemma cart_line_unique: "carts_ok d \<Longrightarrow> x \<in> set (cartLines d) \<Longrightarrow> y \<in> set (cartLines d) \<Longrightarrow> ca_id x = ca_id y \<Longrightarrow> x = y"
  by (auto simp: carts_ok_def keys_ok_def distinct_map dest: inj_onD)

lemma insert_cart_line_effect:
  "insert_cart_line l d = (i, d') \<longleftrightarrow> i = nextId d \<and> d' = d\<lparr>nextId := Suc (nextId d), cartLines := cartLines d @ [l\<lparr>ca_id := nextId d\<rparr>]\<rparr>"
  by (auto simp: insert_cart_line_def take_id_def)

lemma insert_cart_line_keeps:
  assumes "insert_cart_line l d = (i, d')" and "carts_ok d" and "cart_line_wf l"
    and "ca_parentLineId l \<noteq> None \<Longrightarrow> \<exists>p \<in> set (cartLines d). pick_of p l"
  shows "carts_ok d'"
proof -
  have d': "d' = d\<lparr>nextId := Suc (nextId d), cartLines := cartLines d @ [l\<lparr>ca_id := nextId d\<rparr>]\<rparr>"
    using assms(1) by (simp add: insert_cart_line_effect)
  have "keys_ok (Suc (nextId d)) (map ca_id (cartLines d) @ [nextId d])" using assms(2) by (simp add: carts_ok_def keys_ok_append)
  moreover have "cart_line_wf (l\<lparr>ca_id := nextId d\<rparr>)" using assms(3) by (simp add: cart_line_wf_def)
  moreover have "\<exists>p \<in> set (cartLines d). pick_of p (l\<lparr>ca_id := nextId d\<rparr>)" if "ca_parentLineId l \<noteq> None"
    using assms(4) [OF that] by (simp add: pick_of_def)
  ultimately show ?thesis using assms(2) unfolding d' carts_ok_def by auto
qed

text \<open>What an edit of the line \<open>k\<close> may change: the note, quantity and modifiers of that line and its picks.\<close>

definition cart_identity :: "cart_line \<Rightarrow> uuid \<times> uuid \<times> uuid \<times> uuid \<times> uuid option \<times> uuid option \<times> uuid option \<times> uuid option" where
  "cart_identity l = (ca_id l, ca_tenantId l, ca_sessionId l, ca_guestId l, ca_itemId l, ca_comboId l, ca_parentLineId l, ca_comboOptionId l)"

definition cart_edit :: "uuid \<Rightarrow> (cart_line \<Rightarrow> cart_line) \<Rightarrow> bool" where
  "cart_edit k g \<longleftrightarrow> (\<forall>l. cart_identity (g l) = cart_identity l) \<and> (\<forall>l. ca_id l \<noteq> k \<and> ca_parentLineId l \<noteq> Some k \<longrightarrow> g l = l)"

definition cart_edited :: "uuid \<Rightarrow> db \<Rightarrow> db \<Rightarrow> bool" where
  "cart_edited k d d' \<longleftrightarrow> (\<exists>g. cart_edit k g \<and> d' = d\<lparr>cartLines := map g (cartLines d)\<rparr>)"

lemma cart_edited_refl: "cart_edited k d d"
  unfolding cart_edited_def by (rule exI [of _ "\<lambda>l. l"]) (simp add: cart_edit_def)

lemma cart_edited_trans: "cart_edited k a b \<Longrightarrow> cart_edited k b c \<Longrightarrow> cart_edited k a c"
proof -
  assume "cart_edited k a b" "cart_edited k b c"
  then obtain g h where g: "cart_edit k g" "b = a\<lparr>cartLines := map g (cartLines a)\<rparr>" and h: "cart_edit k h" "c = b\<lparr>cartLines := map h (cartLines b)\<rparr>"
    by (auto simp: cart_edited_def)
  have "cart_edit k (h \<circ> g)" unfolding cart_edit_def
  proof (intro conjI allI impI)
    fix l
    show "cart_identity ((h \<circ> g) l) = cart_identity l" using g(1) h(1) by (simp add: cart_edit_def)
    assume l: "ca_id l \<noteq> k \<and> ca_parentLineId l \<noteq> Some k"
    then have "g l = l" using g(1) by (simp add: cart_edit_def)
    then show "(h \<circ> g) l = l" using l h(1) by (simp add: cart_edit_def)
  qed
  moreover have "c = a\<lparr>cartLines := map (h \<circ> g) (cartLines a)\<rparr>" unfolding h(2) g(2) by simp
  ultimately show ?thesis unfolding cart_edited_def by blast
qed

lemma cart_identityD:
  assumes "cart_identity l = cart_identity m"
  shows "ca_id l = ca_id m" "ca_tenantId l = ca_tenantId m" "ca_sessionId l = ca_sessionId m" "ca_guestId l = ca_guestId m"
    "ca_itemId l = ca_itemId m" "ca_comboId l = ca_comboId m" "ca_parentLineId l = ca_parentLineId m" "ca_comboOptionId l = ca_comboOptionId m"
  using assms by (simp_all add: cart_identity_def)

lemma cart_edit_keeps:
  assumes "carts_ok d" and "\<And>l. cart_identity (g l) = cart_identity l"
    and "\<And>l. l \<in> set (cartLines d) \<Longrightarrow> 0 < ca_quantity (g l)"
    and "\<And>p c. p \<in> set (cartLines d) \<Longrightarrow> c \<in> set (cartLines d) \<Longrightarrow> pick_of p c \<Longrightarrow> ca_quantity (g p) dvd ca_quantity (g c)"
  shows "carts_ok (d\<lparr>cartLines := map g (cartLines d)\<rparr>)"
proof -
  note i = cart_identityD [OF assms(2)]
  have "keys_ok (nextId d) (map (ca_id \<circ> g) (cartLines d))" using assms(1) by (simp add: i comp_def carts_ok_def)
  moreover have "cart_line_wf (g l)" if "l \<in> set (cartLines d)" for l
    using assms(1,3) that by (auto simp: carts_ok_def cart_line_wf_def i)
  moreover have "\<exists>p \<in> set (cartLines d). pick_of (g p) (g c)" if "c \<in> set (cartLines d)" "ca_parentLineId c \<noteq> None" for c
  proof -
    obtain p where "p \<in> set (cartLines d)" "pick_of p c" using assms(1) \<open>c \<in> _\<close> \<open>ca_parentLineId c \<noteq> None\<close> by (auto simp: carts_ok_def)
    with assms(4) [OF this(1) that(1) this(2)] show ?thesis by (intro bexI [of _ p]) (simp_all add: pick_of_def i)
  qed
  ultimately show ?thesis using assms(1) unfolding carts_ok_def by (auto simp: i)
qed

lemma set_cart_line_map: "set_cart_line k f d = d\<lparr>cartLines := map (\<lambda>l. if ca_id l = k then f l else l) (cartLines d)\<rparr>"
  by (simp add: set_cart_line_def update_rows_def)

text \<open>A change of one line that keeps its quantity.\<close>

lemma set_cart_line_keeps:
  assumes "carts_ok d" and "\<And>l. cart_identity (f l) = cart_identity l" and "\<And>l. ca_quantity (f l) = ca_quantity l"
  shows "carts_ok (set_cart_line k f d)" "cart_edited k d (set_cart_line k f d)"
proof -
  let ?g = "\<lambda>l. if ca_id l = k then f l else l"
  have g: "cart_identity (?g l) = cart_identity l" "ca_quantity (?g l) = ca_quantity l" for l using assms(2,3) by simp_all
  show "carts_ok (set_cart_line k f d)" unfolding set_cart_line_map
    by (rule cart_edit_keeps [OF assms(1) g(1)]; simp only: g(2)) (use assms(1) in \<open>auto simp: carts_ok_def cart_line_wf_def pick_of_def\<close>)
  show "cart_edited k d (set_cart_line k f d)" unfolding cart_edited_def set_cart_line_map
    by (rule exI [of _ ?g]) (simp add: cart_edit_def assms(2))
qed

text \<open>Scaling the picks one after the other scales them all.\<close>

definition scaled :: "int \<Rightarrow> int \<Rightarrow> cart_line \<Rightarrow> cart_line" where
  "scaled old q c = c\<lparr>ca_quantity := ca_quantity c div old * q\<rparr>"

lemma scale_picks:
  assumes "distinct (map ca_id cs)" and "set cs \<subseteq> set (cartLines d)" and "distinct (map ca_id (cartLines d))"
    and "old \<noteq> 0" and "\<forall>c \<in> set cs. old dvd ca_quantity c"
  shows "r_fold (scale_pick old q) cs d = Inr (d\<lparr>cartLines := map (\<lambda>l. if ca_id l \<in> ca_id ` set cs then scaled old q l else l) (cartLines d)\<rparr>)"
  using assms
proof (induction cs arbitrary: d)
  case Nil
  then show ?case by simp
next
  case (Cons c cs)
  let ?d = "set_cart_line (ca_id c) (\<lambda>l. l\<lparr>ca_quantity := ca_quantity c div old * q\<rparr>) d"
  have step: "scale_pick old q c d = Inr ?d" using Cons.prems(4,5) by (simp add: scale_pick_def per_combo_def)
  have rows: "cartLines ?d = map (\<lambda>l. if ca_id l = ca_id c then scaled old q l else l) (cartLines d)"
  proof -
    have "l = c" if "l \<in> set (cartLines d)" "ca_id l = ca_id c" for l
      using Cons.prems(2,3) that by (auto simp: distinct_map dest: inj_onD)
    then show ?thesis unfolding set_cart_line_map scaled_def by (auto intro!: map_cong)
  qed
  have ids: "map ca_id (cartLines ?d) = map ca_id (cartLines d)" unfolding rows by (simp add: scaled_def)
  have sub: "set cs \<subseteq> set (cartLines ?d)"
  proof
    fix x assume x: "x \<in> set cs"
    then have "x \<in> set (cartLines d)" "ca_id x \<noteq> ca_id c" using Cons.prems(1,2) by (auto simp: image_iff)
    then show "x \<in> set (cartLines ?d)" unfolding rows by (auto intro!: image_eqI [of _ _ x])
  qed
  have "r_fold (scale_pick old q) cs ?d = Inr (?d\<lparr>cartLines := map (\<lambda>l. if ca_id l \<in> ca_id ` set cs then scaled old q l else l) (cartLines ?d)\<rparr>)"
    by (rule Cons.IH) (use Cons.prems sub ids in simp_all)
  moreover have "map (\<lambda>l. if ca_id l \<in> ca_id ` set cs then scaled old q l else l) (cartLines ?d) =
      map (\<lambda>l. if ca_id l \<in> ca_id ` set (c # cs) then scaled old q l else l) (cartLines d)"
    unfolding rows using Cons.prems(1) by (auto simp: scaled_def)
  ultimately show ?case by (simp add: step set_cart_line_def)
qed

lemma set_cart_quantity_keeps:
  assumes "carts_ok d" and "l \<in> set (cartLines d)" and "ca_id l = ca_id line" "ca_quantity l = ca_quantity line" "ca_comboId l = ca_comboId line"
    "ca_parentLineId l = None" and "0 < q"
  obtains d' where "set_cart_quantity line q d = Inr d'" "carts_ok d'" "cart_edited (ca_id line) d d'"
proof -
  let ?k = "ca_id line"
  let ?f = "\<lambda>x :: cart_line. x\<lparr>ca_quantity := q\<rparr>"
  let ?d1 = "set_cart_line ?k ?f d"
  have wf: "distinct (map ca_id (cartLines d))" "\<And>x. x \<in> set (cartLines d) \<Longrightarrow> cart_line_wf x"
    "\<And>c. c \<in> set (cartLines d) \<Longrightarrow> ca_parentLineId c \<noteq> None \<Longrightarrow> \<exists>p \<in> set (cartLines d). pick_of p c"
    using assms(1) by (simp_all add: carts_ok_def keys_ok_def)
  have l1: "x = l" if "x \<in> set (cartLines d)" "ca_id x = ?k" for x using cart_line_unique [OF assms(1) that(1) assms(2)] that(2) assms(3) by simp
  have pos: "0 < ca_quantity line" using wf(2) [OF assms(2)] assms(4) by (simp add: cart_line_wf_def)
  define g where "g = (\<lambda>x. if ca_id x = ?k then ?f x else if ca_parentLineId x = Some ?k then scaled (ca_quantity line) q x else x)"
  have gi: "cart_identity (g x) = cart_identity x" for x by (simp add: g_def scaled_def cart_identity_def)
  have pk: "ca_quantity line dvd ca_quantity c \<and> ca_id c \<noteq> ?k \<and> ca_comboId line \<noteq> None" if c: "c \<in> set (cartLines d)" "ca_parentLineId c = Some ?k" for c
  proof -
    obtain p where p: "p \<in> set (cartLines d)" "pick_of p c" using wf(3) [OF c(1)] c(2) by auto
    then have "p = l" using l1 c(2) by (simp add: pick_of_def)
    then have "ca_quantity line dvd ca_quantity c" "ca_comboId line \<noteq> None" using p(2) assms(4,5) by (simp_all add: pick_of_def)
    moreover have "ca_id c \<noteq> ?k" using l1 [OF c(1)] c(2) assms(6) by auto
    ultimately show ?thesis by blast
  qed
  have qpos: "0 < ca_quantity (g x)" if x: "x \<in> set (cartLines d)" for x
  proof -
    have xp: "0 < ca_quantity x" using wf(2) [OF x] by (simp add: cart_line_wf_def)
    then show ?thesis using assms(7) pk [OF x] pos by (auto simp: g_def scaled_def dvd_def zero_less_mult_iff)
  qed
  have dv: "ca_quantity (g p) dvd ca_quantity (g c)" if p: "p \<in> set (cartLines d)" and c: "c \<in> set (cartLines d)" and pc: "pick_of p c" for p c
  proof (cases "ca_id p = ?k")
    case True
    then have "ca_parentLineId c = Some ?k" using pc by (simp add: pick_of_def)
    with pk [OF c] True show ?thesis by (simp add: g_def scaled_def)
  next
    case False
    moreover have "ca_id c \<noteq> ?k" using l1 [OF c] pc assms(6) by (auto simp: pick_of_def)
    moreover have "ca_parentLineId c \<noteq> Some ?k" using pc False by (simp add: pick_of_def)
    moreover have "ca_parentLineId p \<noteq> Some ?k" using pc by (simp add: pick_of_def)
    ultimately show ?thesis using pc by (simp add: g_def pick_of_def)
  qed
  let ?d' = "d\<lparr>cartLines := map g (cartLines d)\<rparr>"
  have run: "set_cart_quantity line q d = Inr ?d'"
  proof (cases "ca_comboId line = None")
    case True
    then have "ca_parentLineId x \<noteq> Some ?k" if "x \<in> set (cartLines d)" for x using pk that by blast
    then have "map g (cartLines d) = map (\<lambda>x. if ca_id x = ?k then ?f x else x) (cartLines d)" by (auto simp: g_def)
    then show ?thesis using True by (simp add: set_cart_quantity_def set_cart_line_map)
  next
    case False
    let ?ls = "map (\<lambda>x. if ca_id x = ?k then ?f x else x) (cartLines d)"
    have d1: "cartLines ?d1 = ?ls" "map ca_id ?ls = map ca_id (cartLines d)" by (simp_all add: set_cart_line_map)
    have cs: "cart_children ?d1 ?k = filter (\<lambda>x. ca_parentLineId x = Some ?k) (cartLines d)"
    proof -
      have "filter (\<lambda>x. ca_parentLineId x = Some ?k) (map (\<lambda>x. if ca_id x = ?k then ?f x else x) xs) = filter (\<lambda>x. ca_parentLineId x = Some ?k) xs"
        if "set xs \<subseteq> set (cartLines d)" for xs using that by (induction xs) (use pk in auto)
      then show ?thesis unfolding cart_children_def d1(1) by blast
    qed
    have "r_fold (scale_pick (ca_quantity line) q) (cart_children ?d1 ?k) ?d1 =
        Inr (?d1\<lparr>cartLines := map (\<lambda>x. if ca_id x \<in> ca_id ` set (cart_children ?d1 ?k) then scaled (ca_quantity line) q x else x) ?ls\<rparr>)"
      unfolding d1(1) [symmetric]
    proof (rule scale_picks)
      show "distinct (map ca_id (cart_children ?d1 ?k))" unfolding cs by (rule distinct_map_filter [OF wf(1)])
      show "set (cart_children ?d1 ?k) \<subseteq> set (cartLines ?d1)" by (auto simp: cart_children_def)
      show "distinct (map ca_id (cartLines ?d1))" unfolding d1 by (rule wf(1))
      show "ca_quantity line \<noteq> 0" using pos by simp
      show "\<forall>c \<in> set (cart_children ?d1 ?k). ca_quantity line dvd ca_quantity c" unfolding cs using pk by auto
    qed
    moreover have "map (\<lambda>x. if ca_id x \<in> ca_id ` set (cart_children ?d1 ?k) then scaled (ca_quantity line) q x else x) ?ls = map g (cartLines d)"
    proof -
      have "ca_id x \<in> ca_id ` set (cart_children ?d1 ?k) \<longleftrightarrow> ca_parentLineId x = Some ?k" if "x \<in> set (cartLines d)" for x
        unfolding cs using that cart_line_unique [OF assms(1) that] by auto
      note m = this
      show ?thesis unfolding map_map
      proof (rule map_cong [OF refl])
        fix x assume x: "x \<in> set (cartLines d)"
        show "((\<lambda>x. if ca_id x \<in> ca_id ` set (cart_children ?d1 ?k) then scaled (ca_quantity line) q x else x) \<circ>
            (\<lambda>x. if ca_id x = ?k then ?f x else x)) x = g x"
          using m [OF x] pk [OF x] by (cases "ca_id x = ?k") (auto simp: g_def)
      qed
    qed
    ultimately show ?thesis using False by (simp add: set_cart_quantity_def set_cart_line_map)
  qed
  have ok: "carts_ok ?d'" by (rule cart_edit_keeps [OF assms(1) gi qpos dv])
  have ed: "cart_edited ?k d ?d'" unfolding cart_edited_def by (rule exI [of _ g]) (simp add: cart_edit_def gi, simp add: g_def)
  show thesis by (rule that [OF run ok ed])
qed

section \<open>Every handler keeps the carts\<close>

lemma loadCartLine_Inr:
  assumes "loadCartLine d t sid k = Inr l"
  shows "l \<in> set (cartLines d)" "ca_id l = k" "ca_tenantId l = t" "ca_sessionId l = sid"
proof -
  obtain l0 where f: "find_row ca_id k (cartLines d) = Some l0" using assms by (auto simp: loadCartLine_def split: option.splits)
  with assms have "l = l0" "ca_tenantId l0 = t" "ca_sessionId l0 = sid" by (auto simp: loadCartLine_def split: if_splits)
  with find_row_Some [OF f] show "l \<in> set (cartLines d)" "ca_id l = k" "ca_tenantId l = t" "ca_sessionId l = sid" by simp_all
qed

lemma loadActiveSession_Inr:
  assumes "loadActiveSession e d g = Inr s"
  shows "s \<in> set (tableSessions d)" "ts_id s = gp_sessionId g" "\<not> isSessionInactive e s"
proof -
  obtain s0 where f: "find_row ts_id (gp_sessionId g) (tableSessions d) = Some s0" using assms by (auto simp: loadActiveSession_def split: option.splits)
  with assms have "s = s0" "\<not> isSessionInactive e s0" by (auto simp: loadActiveSession_def split: if_splits)
  with find_row_Some [OF f] show "s \<in> set (tableSessions d)" "ts_id s = gp_sessionId g" "\<not> isSessionInactive e s" by simp_all
qed

lemma cart_reply_Inr: "cart_reply e g s d = Inr (v, d') \<longleftrightarrow> d' = d \<and> buildCartView e d (gp_tenantId g) (gp_outletId g) s = Inr v"
  by (auto simp: cart_reply_def r_bind_eq_Inr)

text \<open>Only the cart changes, and only the calling guest's lines in it.\<close>

definition only_cart :: "uuid \<Rightarrow> db \<Rightarrow> db \<Rightarrow> bool" where
  "only_cart gid d d' \<longleftrightarrow> (\<exists>n ls. nextId d \<le> n \<and> d' = d\<lparr>nextId := n, cartLines := ls\<rparr>) \<and>
     filter (\<lambda>l. ca_guestId l \<noteq> gid) (cartLines d') = filter (\<lambda>l. ca_guestId l \<noteq> gid) (cartLines d)"

lemma only_cartI: "d' = d\<lparr>nextId := n, cartLines := ls\<rparr> \<Longrightarrow> nextId d \<le> n \<Longrightarrow>
    filter (\<lambda>l. ca_guestId l \<noteq> g) ls = filter (\<lambda>l. ca_guestId l \<noteq> g) (cartLines d) \<Longrightarrow> only_cart g d d'"
  by (auto simp: only_cart_def)

lemma only_cart_lines: "filter (\<lambda>l. ca_guestId l \<noteq> g) ls = filter (\<lambda>l. ca_guestId l \<noteq> g) (cartLines d) \<Longrightarrow> only_cart g d (d\<lparr>cartLines := ls\<rparr>)"
  by (rule only_cartI [where n = "nextId d" and ls = ls]) simp_all

lemma only_cart_refl: "only_cart g d d"
  by (rule only_cartI [where n = "nextId d" and ls = "cartLines d"]) simp_all

lemma only_cart_trans: "only_cart g a b \<Longrightarrow> only_cart g b c \<Longrightarrow> only_cart g a c"
proof -
  assume "only_cart g a b" "only_cart g b c"
  then obtain n ls m ms where a: "nextId a \<le> n" "b = a\<lparr>nextId := n, cartLines := ls\<rparr>" "nextId b \<le> m" "c = b\<lparr>nextId := m, cartLines := ms\<rparr>"
    and f: "filter (\<lambda>l. ca_guestId l \<noteq> g) (cartLines c) = filter (\<lambda>l. ca_guestId l \<noteq> g) (cartLines a)" unfolding only_cart_def by (elim conjE exE) simp
  have "c = a\<lparr>nextId := m, cartLines := ms\<rparr>" unfolding a(4) a(2) by simp
  moreover have "nextId a \<le> m" using a(1,2,3) by simp
  ultimately show ?thesis unfolding only_cart_def using f by blast
qed

lemma only_cart_core: "only_cart g d d' \<Longrightarrow> same_core d d'"
  by (auto simp: only_cart_def same_core_def)

lemma insert_cart_line_only:
  assumes "insert_cart_line l d = (i, d')" and "ca_guestId l = g"
  shows "only_cart g d d'"
proof -
  have d': "d' = d\<lparr>nextId := Suc (nextId d), cartLines := cartLines d @ [l\<lparr>ca_id := nextId d\<rparr>]\<rparr>" using assms(1) by (simp add: insert_cart_line_effect)
  show ?thesis unfolding only_cart_def d'
    by (intro conjI exI [of _ "Suc (nextId d)"] exI [of _ "cartLines d @ [l\<lparr>ca_id := nextId d\<rparr>]"]) (simp_all add: assms(2))
qed

lemma cart_edited_only:
  assumes "cart_edited k d d'" and "carts_ok d" and "l \<in> set (cartLines d)" "ca_id l = k" "ca_guestId l = g"
  shows "only_cart g d d'"
proof -
  obtain f where f: "cart_edit k f" "d' = d\<lparr>cartLines := map f (cartLines d)\<rparr>" using assms(1) by (auto simp: cart_edited_def)
  have keep: "f x = x" if x: "x \<in> set (cartLines d)" "ca_guestId x \<noteq> g" for x
  proof -
    have "ca_id x \<noteq> k" using cart_line_unique [OF assms(2) x(1) assms(3)] x(2) assms(4,5) by auto
    moreover have "ca_parentLineId x \<noteq> Some k"
    proof
      assume "ca_parentLineId x = Some k"
      then obtain p where p: "p \<in> set (cartLines d)" "pick_of p x" using assms(2) x(1) by (auto simp: carts_ok_def)
      then have "ca_id p = ca_id l" using \<open>ca_parentLineId x = Some k\<close> assms(4) by (simp add: pick_of_def)
      then have "p = l" by (rule cart_line_unique [OF assms(2) p(1) assms(3)])
      then show False using p(2) x(2) assms(5) by (simp add: pick_of_def)
    qed
    ultimately show ?thesis using f(1) by (simp add: cart_edit_def)
  qed
  have g: "ca_guestId (f x) = ca_guestId x" for x by (rule cart_identityD(4)) (use f(1) in \<open>simp add: cart_edit_def\<close>)
  have "filter (\<lambda>l. ca_guestId l \<noteq> g) (map f (cartLines d)) = filter (\<lambda>l. ca_guestId l \<noteq> g) (cartLines d)"
    unfolding filter_map comp_def g by (rule map_idI) (use keep in simp)
  then show ?thesis unfolding f(2) by (rule only_cart_lines)
qed

lemma cart_addLine_keeps:
  assumes "cart_addLine e g dto d = Inr (v, d')" and "carts_ok d" and "0 < nl_quantity dto"
  shows "carts_ok d'" "only_cart (gp_id g) d d'"
proof -
  obtain s where d': "d' = snd (insert_cart_line ((new_cart_line e g s (nl_quantity dto))\<lparr>ca_itemId := Some (nl_itemId dto), ca_variantId := nl_variantId dto,
           ca_note := nl_note dto, ca_modifierIds := nullish (nl_modifierIds dto) []\<rparr>) d)" (is "d' = snd (insert_cart_line ?l d)")
    using assms(1) by (auto simp: cart_addLine_def Let_def r_bind_eq_Inr cart_reply_Inr)
  then have i: "insert_cart_line ?l d = (nextId d, d')" by (simp add: insert_cart_line_def take_id_def)
  show "carts_ok d'" by (rule insert_cart_line_keeps [OF i assms(2)]) (simp_all add: cart_line_wf_def new_cart_line_def assms(3))
  show "only_cart (gp_id g) d d'" by (rule insert_cart_line_only [OF i]) (simp add: new_cart_line_def)
qed

lemma add_cart_picks:
  assumes "carts_ok d" and "p \<in> set (cartLines d)" and "ca_comboId p \<noteq> None" "ca_parentLineId p = None" "ca_tenantId p = gp_tenantId g"
    "ca_sessionId p = ts_id s" "ca_guestId p = gp_id g" "ca_quantity p = q" and "\<forall>c \<in> set cs. 0 < rc_quantity c"
  shows "carts_ok (foldl (add_cart_pick e g s q (ca_id p)) d cs) \<and> only_cart (gp_id g) d (foldl (add_cart_pick e g s q (ca_id p)) d cs) \<and>
    p \<in> set (cartLines (foldl (add_cart_pick e g s q (ca_id p)) d cs))"
  using assms(9)
proof (induction cs rule: rev_induct)
  case Nil
  then show ?case using assms(1,2) only_cart_refl by simp
next
  case (snoc c cs)
  let ?d = "foldl (add_cart_pick e g s q (ca_id p)) d cs"
  have IH: "carts_ok ?d" "only_cart (gp_id g) d ?d" "p \<in> set (cartLines ?d)" using snoc by auto
  let ?l = "(new_cart_line e g s (rc_quantity c * q))\<lparr>ca_itemId := Some (rc_itemId c), ca_variantId := rc_variantId c, ca_parentLineId := Some (ca_id p),
     ca_comboOptionId := Some (rc_optionId c), ca_modifierIds := rc_modifierIds c\<rparr>"
  obtain d2 where i: "insert_cart_line ?l ?d = (nextId ?d, d2)" by (simp add: insert_cart_line_def take_id_def)
  have q: "0 < q" using IH(1,3) assms(8) by (auto simp: carts_ok_def cart_line_wf_def)
  have "carts_ok d2"
  proof (rule insert_cart_line_keeps [OF i IH(1)])
    show "cart_line_wf ?l" using q snoc.prems by (simp add: cart_line_wf_def new_cart_line_def)
    show "\<exists>p \<in> set (cartLines ?d). pick_of p ?l" using IH(3) assms by (intro bexI [of _ p]) (simp_all add: pick_of_def new_cart_line_def)
  qed
  moreover have "only_cart (gp_id g) d d2" by (rule only_cart_trans [OF IH(2) insert_cart_line_only [OF i]]) (simp add: new_cart_line_def)
  moreover have "p \<in> set (cartLines d2)" using i IH(3) by (simp add: insert_cart_line_effect)
  moreover have "add_cart_pick e g s q (ca_id p) ?d c = d2" by (simp add: add_cart_pick_def i)
  ultimately show ?case by simp
qed

lemma cart_addCombo_keeps:
  assumes "cart_addCombo e g dto d = Inr (v, d')" and "carts_ok d" and "menu_ok d" and "0 < nc_quantity dto"
    and "\<forall>s \<in> set (nc_selections dto). \<forall>q. ci_quantity s = Some q \<longrightarrow> 0 < q"
  obtains s c cs d1 p where "loadActiveSession e d g = Inr s"
    "resolveComboSelection d (gp_tenantId g) (gp_outletId g) (nc_comboId dto) (nc_selections dto) = Inr (c, cs)"
    "p = (new_cart_line e g s (nc_quantity dto))\<lparr>ca_id := nextId d, ca_comboId := Some (cb_id c)\<rparr>"
    "d1 = d\<lparr>nextId := Suc (nextId d), cartLines := cartLines d @ [p]\<rparr>"
    "d' = foldl (add_cart_pick e g s (nc_quantity dto) (nextId d)) d1 cs" "carts_ok d'" "only_cart (gp_id g) d d'"
proof -
  obtain s c cs where s: "loadActiveSession e d g = Inr s" and r: "resolveComboSelection d (gp_tenantId g) (gp_outletId g) (nc_comboId dto) (nc_selections dto) = Inr (c, cs)"
    using assms(1) by (auto simp: cart_addCombo_def r_bind_eq_Inr)
  let ?l = "(new_cart_line e g s (nc_quantity dto))\<lparr>ca_comboId := Some (cb_id c)\<rparr>"
  let ?p = "(new_cart_line e g s (nc_quantity dto))\<lparr>ca_id := nextId d, ca_comboId := Some (cb_id c)\<rparr>"
  let ?d1 = "d\<lparr>nextId := Suc (nextId d), cartLines := cartLines d @ [?p]\<rparr>"
  have i: "insert_cart_line ?l d = (nextId d, ?d1)" by (simp add: insert_cart_line_effect)
  have d': "d' = foldl (add_cart_pick e g s (nc_quantity dto) (nextId d)) ?d1 cs"
    using assms(1) by (simp add: cart_addCombo_def s r i cart_reply_Inr)
  have ok: "carts_ok ?d1" by (rule insert_cart_line_keeps [OF i assms(2)]) (simp_all add: cart_line_wf_def new_cart_line_def assms(4))
  have o: "only_cart (gp_id g) d ?d1" by (rule insert_cart_line_only [OF i]) (simp add: new_cart_line_def)
  have pos: "\<forall>c \<in> set cs. 0 < rc_quantity c" using resolved_children_wf(2) [OF r assms(3,5)] by blast
  have picks: "carts_ok (foldl (add_cart_pick e g s (nc_quantity dto) (ca_id ?p)) ?d1 cs) \<and>
      only_cart (gp_id g) ?d1 (foldl (add_cart_pick e g s (nc_quantity dto) (ca_id ?p)) ?d1 cs) \<and>
      ?p \<in> set (cartLines (foldl (add_cart_pick e g s (nc_quantity dto) (ca_id ?p)) ?d1 cs))"
    by (rule add_cart_picks [OF ok]) (simp_all add: new_cart_line_def pos)
  then have k: "carts_ok d'" "only_cart (gp_id g) ?d1 d'" unfolding d' by simp_all
  show thesis by (rule that [OF s r refl refl d' k(1) only_cart_trans [OF o k(2)]])
qed

lemma change_cart_modifiers_Inr:
  assumes "change_cart_modifiers t line ids d = Inr d'"
  shows "d' = set_cart_line (ca_id line) (\<lambda>l. l\<lparr>ca_modifierIds := ids\<rparr>) d"
  using assms by (auto simp: change_cart_modifiers_def r_bind_eq_Inr split: option.splits)

lemma cart_updateLine_keeps:
  assumes "cart_updateLine e g k dto d = Inr (v, d')" and "carts_ok d" and "\<forall>q. uc_quantity dto = Some q \<longrightarrow> 0 < q"
  shows "carts_ok d'" "only_cart (gp_id g) d d'" "cart_edited k d d'"
proof -
  obtain s line where l: "loadCartLine d (gp_tenantId g) (ts_id (s :: table_session)) k = Inr line" "assertOwnedByGuest line g = Inr ()" "assertNotComboPick line = Inr ()"
    and run: "r_bind (case uc_quantity dto of None \<Rightarrow> Inr (case uc_note dto of None \<Rightarrow> d | Some n \<Rightarrow> set_cart_line k (\<lambda>l. l\<lparr>ca_note := n\<rparr>) d)
        | Some q \<Rightarrow> set_cart_quantity line q (case uc_note dto of None \<Rightarrow> d | Some n \<Rightarrow> set_cart_line k (\<lambda>l. l\<lparr>ca_note := n\<rparr>) d)) (\<lambda>d2.
        case uc_modifierIds dto of None \<Rightarrow> Inr d2 | Some ids \<Rightarrow> change_cart_modifiers (gp_tenantId g) line ids d2) = Inr d'"
    using assms(1) by (auto simp: cart_updateLine_def Let_def r_bind_eq_Inr cart_reply_Inr split: if_splits)
  note lc = loadCartLine_Inr [OF l(1)]
  have own: "ca_guestId line = gp_id g" "ca_parentLineId line = None" using l(2,3) by (simp_all add: assertOwnedByGuest_def assertNotComboPick_def split: if_splits)
  let ?d1 = "case uc_note dto of None \<Rightarrow> d | Some n \<Rightarrow> set_cart_line k (\<lambda>l. l\<lparr>ca_note := n\<rparr>) d"
  have n: "carts_ok ?d1 \<and> cart_edited k d ?d1 \<and> (\<exists>x \<in> set (cartLines ?d1). cart_identity x = cart_identity line \<and> ca_quantity x = ca_quantity line)"
  proof (cases "uc_note dto")
    case None
    then show ?thesis using assms(2) cart_edited_refl lc(1) by auto
  next
    case (Some n)
    have "carts_ok (set_cart_line k (\<lambda>l. l\<lparr>ca_note := n\<rparr>) d)" "cart_edited k d (set_cart_line k (\<lambda>l. l\<lparr>ca_note := n\<rparr>) d)"
      by (rule set_cart_line_keeps [OF assms(2)]; simp add: cart_identity_def)+
    moreover have "line\<lparr>ca_note := n\<rparr> \<in> set (cartLines (set_cart_line k (\<lambda>l. l\<lparr>ca_note := n\<rparr>) d))"
      unfolding set_cart_line_map using lc(1,2) by (auto intro!: image_eqI [of _ _ line])
    ultimately show ?thesis using Some by (auto simp: cart_identity_def intro!: bexI [of _ "line\<lparr>ca_note := n\<rparr>"])
  qed
  then obtain x where x: "x \<in> set (cartLines ?d1)" "cart_identity x = cart_identity line" "ca_quantity x = ca_quantity line" by blast
  note xi = cart_identityD [OF x(2)]
  obtain d2 where q: "(case uc_quantity dto of None \<Rightarrow> Inr ?d1 | Some q \<Rightarrow> set_cart_quantity line q ?d1) = Inr d2"
    and m: "(case uc_modifierIds dto of None \<Rightarrow> Inr d2 | Some ids \<Rightarrow> change_cart_modifiers (gp_tenantId g) line ids d2) = Inr d'"
    using run unfolding r_bind_eq_Inr by blast
  have d2: "carts_ok d2 \<and> cart_edited k ?d1 d2"
  proof (cases "uc_quantity dto")
    case None
    then show ?thesis using q n cart_edited_refl by simp
  next
    case (Some z)
    have par: "ca_parentLineId x = None" and z: "0 < z" using xi(7) own(2) assms(3) Some by simp_all
    have ok: "carts_ok ?d1" using n by blast
    obtain d3 where "set_cart_quantity line z ?d1 = Inr d3" "carts_ok d3" "cart_edited (ca_id line) ?d1 d3"
      by (rule set_cart_quantity_keeps [OF ok x(1) xi(1) x(3) xi(6) par z])
    then show ?thesis using q Some lc(2) by simp
  qed
  have d': "carts_ok d' \<and> cart_edited k d2 d'"
  proof (cases "uc_modifierIds dto")
    case None
    then show ?thesis using m d2 cart_edited_refl by simp
  next
    case (Some ids)
    then have "d' = set_cart_line k (\<lambda>l. l\<lparr>ca_modifierIds := ids\<rparr>) d2" using m change_cart_modifiers_Inr [of "gp_tenantId g" line ids d2 d'] lc(2) by simp
    moreover have "carts_ok (set_cart_line k (\<lambda>l. l\<lparr>ca_modifierIds := ids\<rparr>) d2)" "cart_edited k d2 (set_cart_line k (\<lambda>l. l\<lparr>ca_modifierIds := ids\<rparr>) d2)"
      using d2 by (auto intro!: set_cart_line_keeps simp: cart_identity_def)
    ultimately show ?thesis by simp
  qed
  show "carts_ok d'" using d' by blast
  show ed: "cart_edited k d d'" using n d2 d' cart_edited_trans by blast
  show "only_cart (gp_id g) d d'" by (rule cart_edited_only [OF ed assms(2) lc(1,2) own(1)])
qed

lemma cart_removeLine_keeps:
  assumes "cart_removeLine e g k d = Inr (v, d')" and "carts_ok d"
  shows "carts_ok d'" "only_cart (gp_id g) d d'" "cartLines d' = filter (\<lambda>l. ca_id l \<noteq> k \<and> ca_parentLineId l \<noteq> Some k) (cartLines d)"
proof -
  let ?ls = "filter (\<lambda>l. ca_id l \<noteq> k \<and> ca_parentLineId l \<noteq> Some k) (cartLines d)"
  obtain s line where l: "loadCartLine d (gp_tenantId g) (ts_id (s :: table_session)) k = Inr line" "assertOwnedByGuest line g = Inr ()" and d': "d' = d\<lparr>cartLines := ?ls\<rparr>"
    using assms(1) by (auto simp: cart_removeLine_def r_bind_eq_Inr cart_reply_Inr)
  note lc = loadCartLine_Inr [OF l(1)]
  have own: "ca_guestId line = gp_id g" using l(2) by (simp add: assertOwnedByGuest_def split: if_splits)
  show "cartLines d' = ?ls" by (simp add: d')
  have "\<exists>p \<in> set ?ls. pick_of p c" if c: "c \<in> set ?ls" "ca_parentLineId c \<noteq> None" for c
  proof -
    obtain p where p: "p \<in> set (cartLines d)" "pick_of p c" using assms(2) c by (auto simp: carts_ok_def)
    then have "p \<in> set ?ls" using c by (auto simp: pick_of_def)
    with p(2) show ?thesis by blast
  qed
  then show "carts_ok d'" using assms(2) unfolding d' carts_ok_def by (auto intro: keys_ok_filter)
  have keep: "(ca_id x \<noteq> k \<and> ca_parentLineId x \<noteq> Some k)" if x: "x \<in> set (cartLines d)" "ca_guestId x \<noteq> gp_id g" for x
  proof -
    have "ca_id x \<noteq> k" using cart_line_unique [OF assms(2) x(1) lc(1)] x(2) lc(2) own by auto
    moreover have "ca_parentLineId x \<noteq> Some k"
    proof
      assume px: "ca_parentLineId x = Some k"
      then obtain p where p: "p \<in> set (cartLines d)" "pick_of p x" using assms(2) x(1) by (auto simp: carts_ok_def)
      then have "ca_id p = ca_id line" using px lc(2) by (simp add: pick_of_def)
      then have "p = line" by (rule cart_line_unique [OF assms(2) p(1) lc(1)])
      then show False using p(2) x(2) own by (simp add: pick_of_def)
    qed
    ultimately show ?thesis by blast
  qed
  have "filter (\<lambda>l. ca_guestId l \<noteq> gp_id g) ?ls = filter (\<lambda>l. ca_guestId l \<noteq> gp_id g) (cartLines d)"
    unfolding filter_filter by (rule filter_cong [OF refl]) (use keep in blast)
  then show "only_cart (gp_id g) d d'" unfolding d' by (rule only_cart_lines)
qed

section \<open>What the cart shows\<close>

text \<open>What a top-level line comes to: a combo's own price and, for every pick, its extra charge and modifiers.\<close>

definition modifiers_charge :: "db \<Rightarrow> cart_line \<Rightarrow> int" where
  "modifiers_charge d l = sum_rows mo_priceMinor (cart_modifiers d l)"

definition unit_price :: "env \<Rightarrow> db \<Rightarrow> uuid \<Rightarrow> uuid \<Rightarrow> cart_line \<Rightarrow> int" where
  "unit_price e d t out l = (case ca_itemId l of None \<Rightarrow> 0
     | Some i \<Rightarrow> nullish (map_option ip_priceMinor (resolveCurrentPrice e d t i (ca_variantId l) CART_PRICE_CHANNEL (Some out))) 0)"

definition line_charge :: "env \<Rightarrow> db \<Rightarrow> uuid \<Rightarrow> uuid \<Rightarrow> cart_line \<Rightarrow> int" where
  "line_charge e d t out l =
    (case ca_comboId l of
       None \<Rightarrow> ca_quantity l * (unit_price e d t out l + modifiers_charge d l)
     | Some k \<Rightarrow> ca_quantity l * nullish (map_option cb_priceMinor (find_row cb_id k (combos d))) 0 +
         sum_rows (\<lambda>c. ca_quantity c * (option_upcharge d (ca_comboOptionId c) + modifiers_charge d c)) (cart_children d (ca_id l)))"

definition cart_combos_known :: "db \<Rightarrow> bool" where
  "cart_combos_known d \<longleftrightarrow> (\<forall>l \<in> set (cartLines d). \<forall>k. ca_comboId l = Some k \<longrightarrow> find_row cb_id k (combos d) \<noteq> None)"

lemma foldl_sum: "foldl (\<lambda>s m. s + f m) (a :: int) ms = a + sum_rows f ms"
  by (induction ms arbitrary: a) simp_all

lemma combo_fold:
  assumes "q \<noteq> 0" and "\<forall>c \<in> set cs. q dvd ca_quantity c" and "ca_quantity line = q"
  shows "\<exists>ts. r_fold (\<lambda>c (p, components). r_bind (combo_component d line c) (\<lambda>(extra, text). Inr (p + extra, components @ [text]))) cs (p0, ts0) =
      Inr (p0 + sum_rows (\<lambda>c. ca_quantity c div q * (option_upcharge d (ca_comboOptionId c) + modifiers_charge d c)) cs, ts)"
  using assms(2)
proof (induction cs arbitrary: p0 ts0)
  case Nil
  then show ?case by simp
next
  case (Cons c cs)
  have "per_combo (ca_quantity c) (ca_quantity line) = Inr (ca_quantity c div q)" using Cons.prems assms(1,3) by (simp add: per_combo_def)
  then obtain tx where step: "combo_component d line c = Inr (ca_quantity c div q * (option_upcharge d (ca_comboOptionId c) + modifiers_charge d c), tx)"
    by (simp add: combo_component_def Let_def foldl_sum modifiers_charge_def)
  have tl: "\<forall>c \<in> set cs. q dvd ca_quantity c" using Cons.prems by simp
  let ?x = "ca_quantity c div q * (option_upcharge d (ca_comboOptionId c) + modifiers_charge d c)"
  from Cons.IH [OF tl, of "p0 + ?x" "ts0 @ [tx]"] show ?case by (simp add: step add.assoc)
qed

lemma cart_children_of:
  assumes "carts_ok d" and "l \<in> set (cartLines d)" and "c \<in> set (cart_children d (ca_id l))"
  shows "pick_of l c" "c \<in> set (cartLines d)"
proof -
  have c: "c \<in> set (cartLines d)" "ca_parentLineId c = Some (ca_id l)" using assms(3) by (auto simp: cart_children_def)
  then obtain p where p: "p \<in> set (cartLines d)" "pick_of p c" using assms(1) by (auto simp: carts_ok_def)
  then have "ca_id p = ca_id l" using c(2) by (simp add: pick_of_def)
  then have "p = l" by (rule cart_line_unique [OF assms(1) p(1) assms(2)])
  then show "pick_of l c" using p(2) by simp
  show "c \<in> set (cartLines d)" by (rule c(1))
qed

lemma toCartLineView_charge:
  assumes "carts_ok d" and "cart_combos_known d" and "l \<in> set (cartLines d)"
  shows "\<exists>v cur. toCartLineView e d t out l = Inr (v, cur) \<and> cl_id v = ca_id l \<and> cl_lineTotalMinor v = line_charge e d t out l"
proof -
  have wf: "0 < ca_quantity l" "ca_itemId l = None \<longleftrightarrow> ca_comboId l \<noteq> None" using assms(1,3) by (auto simp: carts_ok_def cart_line_wf_def)
  show ?thesis
  proof (cases "ca_comboId l")
    case None
    then obtain i where "ca_itemId l = Some i" using wf(2) by auto
    then show ?thesis using None
      by (auto simp: toCartLineView_def Let_def line_charge_def unit_price_def modifiers_charge_def foldl_sum resolveUnitPriceMinor_def option.map_comp comp_def
          sum_rows_def mult.commute split: option.split)
  next
    case (Some k)
    then obtain c where c: "find_row cb_id k (combos d) = Some c" using assms(2,3) by (auto simp: cart_combos_known_def)
    let ?u = "\<lambda>x. option_upcharge d (ca_comboOptionId x) + modifiers_charge d x"
    have dv: "\<forall>x \<in> set (cart_children d (ca_id l)). ca_quantity l dvd ca_quantity x"
      using cart_children_of [OF assms(1,3)] by (auto simp: pick_of_def)
    have q0: "ca_quantity l \<noteq> 0" using wf(1) by simp
    obtain ts where f: "r_fold (\<lambda>c (p, components). r_bind (combo_component d l c) (\<lambda>(extra, text). Inr (p + extra, components @ [text])))
        (cart_children d (ca_id l)) (cb_priceMinor c, []) =
        Inr (cb_priceMinor c + sum_rows (\<lambda>x. ca_quantity x div ca_quantity l * ?u x) (cart_children d (ca_id l)), ts)"
      using combo_fold [OF q0 dv refl] by blast
    have "sum_rows (\<lambda>x. ca_quantity x div ca_quantity l * ?u x) xs * ca_quantity l = sum_rows (\<lambda>x. ca_quantity x * ?u x) xs"
      if "\<forall>x \<in> set xs. ca_quantity l dvd ca_quantity x" for xs
      using that
    proof (induction xs)
      case (Cons x xs)
      have "ca_quantity x div ca_quantity l * ?u x * ca_quantity l = ca_quantity x * ?u x"
        using Cons.prems by (metis dvd_div_mult_self list.set_intros(1) mult.assoc mult.commute)
      with Cons show ?case by (simp add: distrib_right)
    qed simp
    from this [OF dv] show ?thesis
      by (simp add: toCartLineView_def toComboCartLineView_def Some c f line_charge_def distrib_right mult.commute [of "cb_priceMinor c"])
  qed
qed

text \<open>The table's view, built line by line.\<close>

definition cart_view_of :: "(cart_line \<Rightarrow> int) \<Rightarrow> cart_line list \<Rightarrow> guest_cart_view list \<Rightarrow> bool" where
  "cart_view_of charge ls gs \<longleftrightarrow> distinct (map gc_guestId gs) \<and> set (map gc_guestId gs) = ca_guestId ` set ls \<and>
     (\<forall>g \<in> set gs. map cl_id (gc_lines g) = map ca_id (filter (\<lambda>l. ca_guestId l = gc_guestId g) ls) \<and>
        gc_subtotalMinor g = sum_rows cl_lineTotalMinor (gc_lines g)) \<and>
     sum_rows gc_subtotalMinor gs = sum_rows charge ls"

lemma add_to_guest_keys: "gc_guestId ` set (add_to_guest l v gs) = insert (ca_guestId l) (gc_guestId ` set gs)"
  by (induction gs) auto

lemma add_to_guest_distinct: "distinct (map gc_guestId gs) \<Longrightarrow> distinct (map gc_guestId (add_to_guest l v gs))"
proof (induction gs)
  case (Cons g gs)
  then show ?case using add_to_guest_keys [of l v gs] by auto
qed simp

lemma add_to_guest_sum: "sum_rows gc_subtotalMinor (add_to_guest l v gs) = sum_rows gc_subtotalMinor gs + cl_lineTotalMinor v"
  by (induction gs) simp_all

lemma add_to_guest_member:
  assumes "distinct (map gc_guestId gs)" and "g \<in> set (add_to_guest l v gs)"
  shows "gc_guestId g \<noteq> ca_guestId l \<and> g \<in> set gs \<or> gc_guestId g = ca_guestId l \<and>
    (\<exists>ls0 s0. gc_lines g = ls0 @ [v] \<and> gc_subtotalMinor g = s0 + cl_lineTotalMinor v \<and>
      ((\<exists>h \<in> set gs. gc_guestId h = ca_guestId l \<and> gc_lines h = ls0 \<and> gc_subtotalMinor h = s0) \<or> ca_guestId l \<notin> gc_guestId ` set gs \<and> ls0 = [] \<and> s0 = 0))"
  using assms
proof (induction gs)
  case Nil
  then show ?case by simp
next
  case (Cons h gs)
  show ?case
  proof (cases "gc_guestId h = ca_guestId l")
    case True
    then consider "g = h\<lparr>gc_lines := gc_lines h @ [v], gc_subtotalMinor := gc_subtotalMinor h + cl_lineTotalMinor v\<rparr>" | "g \<in> set gs"
      using Cons.prems(2) by auto
    then show ?thesis
    proof cases
      case 1
      then show ?thesis using True by auto
    next
      case 2
      then have "gc_guestId g \<noteq> ca_guestId l" using Cons.prems(1) True by (metis distinct.simps(2) image_eqI list.set_map list.simps(9))
      with 2 show ?thesis by simp
    qed
  next
    case False
    then consider "g = h" | "g \<in> set (add_to_guest l v gs)" using Cons.prems(2) by auto
    then show ?thesis
    proof cases
      case 1
      then show ?thesis using False by simp
    next
      case 2
      then show ?thesis using Cons.IH Cons.prems(1) False by auto
    qed
  qed
qed

lemma cart_view_snoc:
  assumes "cart_view_of charge ls gs" and "cl_id v = ca_id l" "cl_lineTotalMinor v = charge l"
  shows "cart_view_of charge (ls @ [l]) (add_to_guest l v gs)"
proof -
  have c: "distinct (map gc_guestId gs)" "gc_guestId ` set gs = ca_guestId ` set ls"
    "\<And>g. g \<in> set gs \<Longrightarrow> map cl_id (gc_lines g) = map ca_id (filter (\<lambda>l. ca_guestId l = gc_guestId g) ls) \<and>
        gc_subtotalMinor g = sum_rows cl_lineTotalMinor (gc_lines g)" "sum_rows gc_subtotalMinor gs = sum_rows charge ls"
    using assms(1) by (simp_all add: cart_view_of_def)
  have "map cl_id (gc_lines g) = map ca_id (filter (\<lambda>l. ca_guestId l = gc_guestId g) (ls @ [l])) \<and>
        gc_subtotalMinor g = sum_rows cl_lineTotalMinor (gc_lines g)" if g: "g \<in> set (add_to_guest l v gs)" for g
    using add_to_guest_member [OF c(1) g]
  proof (elim disjE conjE exE bexE)
    assume "gc_guestId g \<noteq> ca_guestId l" "g \<in> set gs"
    with c(3) show ?thesis by simp
  next
    fix ls0 s0 h assume "gc_guestId g = ca_guestId l" "gc_lines g = ls0 @ [v]" "gc_subtotalMinor g = s0 + cl_lineTotalMinor v"
      "h \<in> set gs" "gc_guestId h = ca_guestId l" "gc_lines h = ls0" "gc_subtotalMinor h = s0"
    with c(3) [of h] assms(2) show ?thesis by simp
  next
    fix ls0 s0 assume n: "gc_guestId g = ca_guestId l" "gc_lines g = ls0 @ [v]" "gc_subtotalMinor g = s0 + cl_lineTotalMinor v"
      "ca_guestId l \<notin> gc_guestId ` set gs" "ls0 = []" "s0 = (0 :: int)"
    then have "filter (\<lambda>x. ca_guestId x = ca_guestId l) ls = []" unfolding c(2) by (auto simp: filter_empty_conv image_iff)
    with n assms(2) show ?thesis by simp
  qed
  then show ?thesis using c add_to_guest_distinct [OF c(1)] add_to_guest_keys [of l v gs] add_to_guest_sum [of l v gs] assms(3)
    by (auto simp: cart_view_of_def)
qed

lemma cart_fold:
  assumes "\<forall>l \<in> set ls. \<exists>v c. toCartLineView e d t out l = Inr (v, c) \<and> cl_id v = ca_id l \<and> cl_lineTotalMinor v = charge l"
  shows "\<exists>gs cur. r_fold (cart_step e d t out) ls ([], cur0) = Inr (gs, cur) \<and> cart_view_of charge ls gs"
  using assms
proof (induction ls rule: rev_induct)
  case Nil
  then show ?case by (simp add: cart_view_of_def)
next
  case (snoc l ls)
  then obtain gs cur where IH: "r_fold (cart_step e d t out) ls ([], cur0) = Inr (gs, cur)" "cart_view_of charge ls gs" by auto
  obtain v c where v: "toCartLineView e d t out l = Inr (v, c)" "cl_id v = ca_id l" "cl_lineTotalMinor v = charge l" using snoc.prems by auto
  have "\<exists>cur'. cart_step e d t out l (gs, cur) = Inr (add_to_guest l v gs, cur')" by (simp add: cart_step_def v(1))
  with IH cart_view_snoc [OF IH(2) v(2,3)] show ?case by (auto simp: r_fold_append)
qed

lemma top_cart_lines_mem: "l \<in> set (top_cart_lines d t sid) \<Longrightarrow> l \<in> set (cartLines d) \<and> ca_parentLineId l = None \<and> ca_sessionId l = sid \<and> ca_tenantId l = t"
  by (simp add: top_cart_lines_def)

lemma buildCartView_total:
  assumes "carts_ok d" and "cart_combos_known d"
  shows "\<exists>v. buildCartView e d t out s = Inr v \<and> cart_view_of (line_charge e d t out) (top_cart_lines d t (ts_id s)) (tv_guests v) \<and>
    tv_totalMinor v = sum_rows (line_charge e d t out) (top_cart_lines d t (ts_id s))"
proof -
  let ?ls = "top_cart_lines d t (ts_id s)"
  have "\<forall>l \<in> set ?ls. \<exists>v c. toCartLineView e d t out l = Inr (v, c) \<and> cl_id v = ca_id l \<and> cl_lineTotalMinor v = line_charge e d t out l"
    using toCartLineView_charge [OF assms] top_cart_lines_mem by blast
  from cart_fold [OF this] obtain gs cur where r: "r_fold (cart_step e d t out) ?ls ([], FALLBACK_CURRENCY) = Inr (gs, cur)"
    "cart_view_of (line_charge e d t out) ?ls gs" by blast
  then show ?thesis by (simp add: buildCartView_def foldl_sum cart_view_of_def)
qed

section \<open>Whose line may change\<close>

text \<open>The calls a guest can make, with the bounds the request validation guarantees.\<close>

inductive cart_call :: "env \<Rightarrow> guest_principal \<Rightarrow> db \<Rightarrow> db \<Rightarrow> bool" for e g where
  add_line: "cart_addLine e g dto d = Inr (v, d') \<Longrightarrow> 0 < nl_quantity dto \<Longrightarrow> cart_call e g d d'"
| add_combo: "cart_addCombo e g cdto d = Inr (v, d') \<Longrightarrow> 0 < nc_quantity cdto \<Longrightarrow>
    \<forall>s \<in> set (nc_selections cdto). \<forall>q. ci_quantity s = Some q \<longrightarrow> 0 < q \<Longrightarrow> cart_call e g d d'"
| update_line: "cart_updateLine e g k udto d = Inr (v, d') \<Longrightarrow> \<forall>q. uc_quantity udto = Some q \<longrightarrow> 0 < q \<Longrightarrow> cart_call e g d d'"
| remove_line: "cart_removeLine e g k d = Inr (v, d') \<Longrightarrow> cart_call e g d d'"

lemma cart_call_keeps:
  assumes "cart_call e g d d'" and "carts_ok d" and "menu_ok d"
  shows "carts_ok d'" "only_cart (gp_id g) d d'"
proof -
  from assms(1) have "carts_ok d' \<and> only_cart (gp_id g) d d'"
  proof cases
    case (add_line dto v)
    with cart_addLine_keeps [OF add_line(1) assms(2)] show ?thesis by blast
  next
    case (add_combo dto v)
    from add_combo(1) assms(2,3) add_combo(2,3) show ?thesis by (rule cart_addCombo_keeps) blast
  next
    case (update_line k dto v)
    with cart_updateLine_keeps [OF update_line(1) assms(2)] show ?thesis by blast
  next
    case (remove_line k v)
    with cart_removeLine_keeps [OF remove_line(1) assms(2)] show ?thesis by blast
  qed
  then show "carts_ok d'" "only_cart (gp_id g) d d'" by auto
qed

text \<open>C23: One cart, many guests. Whatever a guest does to the shared cart, the lines the other guests added stay exactly as they
  were, nothing outside the cart changes, and the cart stays whole: every pick still belongs to a combo line of the
  same guest, and its quantity is a multiple of the combo's.\<close>

theorem cart_call_owned:
  assumes "cart_call e g d d'" and "carts_ok d" and "menu_ok d"
  shows "filter (\<lambda>l. ca_guestId l \<noteq> gp_id g) (cartLines d') = filter (\<lambda>l. ca_guestId l \<noteq> gp_id g) (cartLines d) \<and>
    d' = d\<lparr>nextId := nextId d', cartLines := cartLines d'\<rparr> \<and>
    (\<forall>c \<in> set (cartLines d'). ca_parentLineId c \<noteq> None \<longrightarrow>
       (\<exists>p \<in> set (cartLines d'). pick_of p c \<and> ca_guestId p = ca_guestId c \<and> ca_quantity p dvd ca_quantity c)) \<and> carts_ok d'"
proof -
  note k = cart_call_keeps [OF assms]
  obtain n ls where "d' = d\<lparr>nextId := n, cartLines := ls\<rparr>"
    and f: "filter (\<lambda>l. ca_guestId l \<noteq> gp_id g) (cartLines d') = filter (\<lambda>l. ca_guestId l \<noteq> gp_id g) (cartLines d)"
    using k(2) unfolding only_cart_def by blast
  then have "d' = d\<lparr>nextId := nextId d', cartLines := cartLines d'\<rparr>" by simp
  moreover have "\<exists>p \<in> set (cartLines d'). pick_of p c \<and> ca_guestId p = ca_guestId c \<and> ca_quantity p dvd ca_quantity c"
    if "c \<in> set (cartLines d')" "ca_parentLineId c \<noteq> None" for c
  proof -
    obtain p where "p \<in> set (cartLines d')" "pick_of p c" using k(1) \<open>c \<in> _\<close> \<open>ca_parentLineId c \<noteq> None\<close> unfolding carts_ok_def by blast
    then show ?thesis by (intro bexI [of _ p]) (simp_all add: pick_of_def)
  qed
  ultimately show ?thesis using f k(1) by blast
qed

text \<open>The cart's total. In an active session the cart can always be read (no pick ever stands at a fraction of its combo),
  every top-level line is shown once, under the guest who added it, with one entry per guest, every
  guest's subtotal is the sum of the totals of the lines shown, and the cart's total is what its lines come to
  at the current prices.\<close>

theorem getCart_total:
  assumes "carts_ok d" and "cart_combos_known d" and "loadActiveSession e d g = Inr s"
  shows "\<exists>v. getCart e g d = Inr (v, d) \<and> distinct (map gc_guestId (tv_guests v)) \<and>
    set (map gc_guestId (tv_guests v)) = ca_guestId ` set (top_cart_lines d (gp_tenantId g) (ts_id s)) \<and>
    (\<forall>x \<in> set (tv_guests v). gc_subtotalMinor x = sum_rows cl_lineTotalMinor (gc_lines x) \<and>
       map cl_id (gc_lines x) = map ca_id (filter (\<lambda>l. ca_guestId l = gc_guestId x) (top_cart_lines d (gp_tenantId g) (ts_id s)))) \<and>
    tv_totalMinor v = sum_rows (line_charge e d (gp_tenantId g) (gp_outletId g)) (top_cart_lines d (gp_tenantId g) (ts_id s))"
proof -
  obtain v where v: "buildCartView e d (gp_tenantId g) (gp_outletId g) s = Inr v"
    "cart_view_of (line_charge e d (gp_tenantId g) (gp_outletId g)) (top_cart_lines d (gp_tenantId g) (ts_id s)) (tv_guests v)"
    "tv_totalMinor v = sum_rows (line_charge e d (gp_tenantId g) (gp_outletId g)) (top_cart_lines d (gp_tenantId g) (ts_id s))"
    using buildCartView_total [OF assms(1,2)] by blast
  then show ?thesis by (simp add: getCart_def assms(3) cart_reply_def cart_view_of_def)
qed

section \<open>A shared cart in the sample restaurant\<close>

definition s_diner :: "uuid \<Rightarrow> string \<Rightarrow> guest_principal" where
  "s_diner i n = \<lparr>gp_id = i, gp_sessionId = 86, gp_tenantId = 1, gp_outletId = 2, gp_tableId = Some 30, gp_name = n\<rparr>"

definition s_cart_line :: "uuid \<Rightarrow> uuid \<Rightarrow> int \<Rightarrow> cart_line" where
  "s_cart_line i g q = \<lparr>ca_id = i, ca_tenantId = 1, ca_sessionId = 86, ca_guestId = g, ca_guestName = ''Guest'', ca_itemId = None, ca_variantId = None,
     ca_comboId = None, ca_parentLineId = None, ca_comboOptionId = None, ca_quantity = q, ca_note = None, ca_createdAt = 999999000, ca_modifierIds = []\<rparr>"

text \<open>Two thalis of Mira's, one with paneer for each, and a lassi of Ravi's.\<close>

definition s_db_cart :: db where
  "s_db_cart = s_db_qr\<lparr>cartLines :=
     [(s_cart_line 90 88 2)\<lparr>ca_comboId := Some 60\<rparr>,
      (s_cart_line 91 88 2)\<lparr>ca_itemId := Some 51, ca_parentLineId := Some 90, ca_comboOptionId := Some 63\<rparr>,
      (s_cart_line 92 88 2)\<lparr>ca_itemId := Some 52, ca_parentLineId := Some 90, ca_comboOptionId := Some 65\<rparr>,
      (s_cart_line 93 87 1)\<lparr>ca_itemId := Some 52\<rparr>]\<rparr>"

lemmas cart_eval = loadActiveSession_def loadCartLine_def assertOwnedByGuest_def assertNotComboPick_def cart_reply_def buildCartView_def top_cart_lines_def
  cart_step_def toCartLineView_def toComboCartLineView_def combo_component_def per_combo_def cart_children_def cart_modifiers_def List.map_filter_def
  resolveUnitPriceMinor_def cart_item_name_def cart_variant_name_def option_upcharge_def slot_options_def set_cart_quantity_def set_cart_line_def
  scale_pick_def update_rows_def find_row_def Let_def isSessionInactive_def
  resolveCurrentPrice_def pickCurrentPrice_def price_eligible_def price_score_def CART_PRICE_CHANNEL_def FALLBACK_CURRENCY_def
  s_diner_def s_cart_line_def s_db_cart_def s_db_qr_def s_session_def

lemma s_db_cart_ok: "carts_ok s_db_cart" "cart_combos_known s_db_cart" "menu_ok s_db_cart"
  subgoal by (simp add: carts_ok_def keys_ok_def cart_line_wf_def pick_of_def s_db_cart_def s_db_qr_def s_cart_line_def sample_defs)
  subgoal by (simp add: cart_combos_known_def find_row_def s_db_cart_def s_db_qr_def s_cart_line_def sample_defs)
  subgoal by (simp add: menu_ok_def s_db_cart_def s_db_qr_def sample_defs)
  done

lemma cart_update_sample: "\<exists>v d. cart_updateLine s_env (s_diner 88 ''Mira'') 90 \<lparr>uc_note = None, uc_quantity = Some 5, uc_modifierIds = None\<rparr> s_db_cart = Inr (v, d) \<and>
    map ca_quantity (cartLines d) = [5, 5, 5, 1]"
  by (simp add: cart_updateLine_def cart_eval sample_defs)

theorem cart_call_owned_witness:
  "\<exists>d. cart_call s_env (s_diner 88 ''Mira'') s_db_cart d \<and> map ca_quantity (cartLines d) = [5, 5, 5, 1] \<and>
     filter (\<lambda>l. ca_guestId l \<noteq> 88) (cartLines d) = filter (\<lambda>l. ca_guestId l \<noteq> 88) (cartLines s_db_cart)"
proof -
  let ?dto = "\<lparr>uc_note = None, uc_quantity = Some 5, uc_modifierIds = None\<rparr>"
  obtain v d where r: "cart_updateLine s_env (s_diner 88 ''Mira'') 90 ?dto s_db_cart = Inr (v, d)" "map ca_quantity (cartLines d) = [5, 5, 5, 1]"
    using cart_update_sample by (elim exE conjE)
  have c: "cart_call s_env (s_diner 88 ''Mira'') s_db_cart d" by (rule update_line [OF r(1)]) simp
  from cart_call_owned [OF c s_db_cart_ok(1,3)] c r(2) show ?thesis by (auto simp: s_diner_def)
qed

theorem getCart_total_witness:
  "\<exists>v. getCart s_env (s_diner 87 ''Ravi'') s_db_cart = Inr (v, s_db_cart) \<and> tv_totalMinor v = 2 * (25000 + 2000) + 9990"
proof -
  have "loadActiveSession s_env s_db_cart (s_diner 87 ''Ravi'') = Inr s_session"
    by (simp add: loadActiveSession_def find_row_def isSessionInactive_def s_diner_def s_db_cart_def s_db_qr_def s_session_def sample_defs)
  from getCart_total [OF s_db_cart_ok(1,2) this] obtain v where
    v: "getCart s_env (s_diner 87 ''Ravi'') s_db_cart = Inr (v, s_db_cart)"
      "tv_totalMinor v = sum_rows (line_charge s_env s_db_cart 1 2) (top_cart_lines s_db_cart 1 86)"
    by (auto simp: s_diner_def s_session_def)
  have "sum_rows (line_charge s_env s_db_cart 1 2) (top_cart_lines s_db_cart 1 86) = 2 * (25000 + 2000) + 9990"
    by (simp add: line_charge_def unit_price_def modifiers_charge_def cart_eval sample_defs)
  with v show ?thesis by auto
qed

end
