(* ===== verification/GuestOrders.thy ===== *)
theory GuestOrders
  imports GuestCart
begin

text \<open>
  Placing the table's order, \<^verbatim>\<open>src/src/guest/orders/orders.service.ts\<close>: the shared cart becomes one order that is sent to the
  kitchen through the same hook as a staff order, with seats by join order, a counter token for a kiosk, and prices
  snapshotted at placement; and the status stepper derived from the order's tickets.
\<close>

section \<open>Views\<close>

record placed_order_line_view =
  pl_id :: uuid
  pl_itemId :: "uuid option"
  pl_comboId :: "uuid option"
  pl_parentLineId :: "uuid option"
  pl_itemName :: string
  pl_variantId :: "uuid option"
  pl_variantName :: "string option"
  pl_quantity :: int
  pl_unitPriceMinor :: int
  pl_seatNumber :: "int option"
  pl_guestId :: uuid
  pl_guestName :: string
  pl_modifiers :: "cart_line_modifier_view list"

record placed_order_view =
  po_orderId :: uuid
  po_tableId :: "uuid option"
  po_status :: order_status
  po_source :: order_source
  po_tokenNumber :: "int option"
  po_sessionId :: uuid
  po_lines :: "placed_order_line_view list"

datatype guest_order_step = step_placed | step_accepted | step_preparing | step_ready

record guest_order_step_view =
  os_step :: guest_order_step
  os_reachedAt :: "date option"

record guest_order_status_view =
  go_orderId :: uuid
  go_tableId :: "uuid option"
  go_tokenNumber :: "int option"
  go_step :: guest_order_step
  go_steps :: "guest_order_step_view list"

record guest_session_orders_view =
  so_sessionId :: uuid
  so_orders :: "guest_order_status_view list"

section \<open>Status\<close>

definition loadOrderInSession :: "db \<Rightarrow> guest_principal \<Rightarrow> table_session \<Rightarrow> uuid \<Rightarrow> order result" where
  "loadOrderInSession d guest session orderId =
    (case find_row o_id orderId (orders d) of
       None \<Rightarrow> Inl (NotFound ''not_found'')
     | Some x \<Rightarrow> if o_tenantId x \<noteq> gp_tenantId guest \<or> o_sessionId x \<noteq> Some (ts_id session) then Inl (NotFound ''not_found'') else Inr x)"

definition list_min :: "date list \<Rightarrow> date" where
  "list_min xs = foldl min (hd xs) (tl xs)"

definition list_max :: "date list \<Rightarrow> date" where
  "list_max xs = foldl max (hd xs) (tl xs)"

text \<open>\<open>t.bumpedAt!.getTime()\<close> fails on a bumped ticket without the time.\<close>

definition buildOrderStatusView :: "order \<Rightarrow> ticket list \<Rightarrow> guest_order_status_view result" where
  "buildOrderStatusView x ts =
    (let hasTickets = (ts \<noteq> []);
         allBumped = (hasTickets \<and> list_all (\<lambda>t. tk_status t = bumped) ts);
         acceptedAt = (if hasTickets then Some (list_min (map tk_firedAt ts)) else None);
         step = (if \<not> hasTickets then step_placed else if allBumped then step_ready else step_preparing)
     in if allBumped \<and> list_ex (\<lambda>t. tk_bumpedAt t = None) ts then Inl (InternalError ''TypeError'')
        else let readyAt = (if allBumped then Some (list_max (List.map_filter tk_bumpedAt ts)) else None)
             in Inr \<lparr>go_orderId = o_id x, go_tableId = o_tableId x, go_tokenNumber = o_tokenNumber x, go_step = step,
                  go_steps = [\<lparr>os_step = step_placed, os_reachedAt = Some (o_createdAt x)\<rparr>, \<lparr>os_step = step_accepted, os_reachedAt = acceptedAt\<rparr>,
                    \<lparr>os_step = step_preparing, os_reachedAt = acceptedAt\<rparr>, \<lparr>os_step = step_ready, os_reachedAt = readyAt\<rparr>]\<rparr>)"

definition session_tickets :: "db \<Rightarrow> uuid \<Rightarrow> uuid \<Rightarrow> ticket list" where
  "session_tickets d tenantId orderId = filter (\<lambda>t. tk_tenantId t = tenantId \<and> tk_orderId t = orderId) (tickets d)"

definition getOrderStatus :: "env \<Rightarrow> guest_principal \<Rightarrow> uuid \<Rightarrow> db \<Rightarrow> (guest_order_status_view \<times> db) result" where
  "getOrderStatus e guest orderId d =
    r_bind (loadActiveSession e d guest) (\<lambda>session.
    r_bind (loadOrderInSession d guest session orderId) (\<lambda>x.
    r_bind (buildOrderStatusView x (session_tickets d (gp_tenantId guest) (o_id x))) (\<lambda>v. Inr (v, d))))"

definition listSessionOrders :: "env \<Rightarrow> guest_principal \<Rightarrow> db \<Rightarrow> (guest_session_orders_view \<times> db) result" where
  "listSessionOrders e guest d =
    r_bind (loadActiveSession e d guest) (\<lambda>session.
    r_bind (r_fold (\<lambda>x vs. r_bind (buildOrderStatusView x (session_tickets d (gp_tenantId guest) (o_id x))) (\<lambda>v. Inr (vs @ [v])))
             (filter (\<lambda>x. o_tenantId x = gp_tenantId guest \<and> o_sessionId x = Some (ts_id session)) (orders d)) [])
      (\<lambda>vs. Inr (\<lparr>so_sessionId = ts_id session, so_orders = vs\<rparr>, d)))"

section \<open>Placement\<close>

definition ORDER_PLACEMENT_PRICE_CHANNEL :: price_channel where
  "ORDER_PLACEMENT_PRICE_CHANNEL = qr"

definition session_guests :: "db \<Rightarrow> uuid \<Rightarrow> uuid \<Rightarrow> guest list" where
  "session_guests d tenantId sessionId = sort_key gu_joinedAt (filter (\<lambda>g. gu_tenantId g = tenantId \<and> gu_sessionId g = sessionId) (guests d))"

definition seatByGuest :: "guest list \<Rightarrow> uuid \<Rightarrow> int option" where
  "seatByGuest gs = map_of (rev (map (\<lambda>(i, g). (gu_id g, int i + 1)) (enumerate 0 gs)))"

text \<open>A pick without its option is looked up under the empty identifier, which no option has.\<close>

fun pick_selections :: "int \<Rightarrow> cart_line list \<Rightarrow> combo_selection_input list result" where
  "pick_selections q [] = Inr []"
| "pick_selections q (c # cs) =
    r_bind (per_combo (ca_quantity c) q) (\<lambda>n.
    (case ca_comboOptionId c of
       None \<Rightarrow> Inl (BadRequest ''validation_failed'')
     | Some i \<Rightarrow> r_bind (pick_selections q cs) (\<lambda>ss. Inr (\<lparr>ci_optionId = i, ci_quantity = Some n, ci_modifierIds = Some (ca_modifierIds c)\<rparr> # ss))))"

definition placed_line :: "env \<Rightarrow> uuid \<Rightarrow> uuid \<Rightarrow> (uuid \<Rightarrow> int option) \<Rightarrow> cart_line \<Rightarrow> int \<Rightarrow> int \<Rightarrow> order_line" where
  "placed_line e tenantId orderId seats line quantity unit =
     (line_of e tenantId orderId None (seats (ca_guestId line)) quantity unit)\<lparr>ol_guestId := Some (ca_guestId line), ol_guestName := Some (ca_guestName line)\<rparr>"

definition line_view :: "(uuid \<Rightarrow> int option) \<Rightarrow> cart_line \<Rightarrow> uuid \<Rightarrow> string \<Rightarrow> int \<Rightarrow> int \<Rightarrow> cart_line_modifier_view list \<Rightarrow> placed_order_line_view" where
  "line_view seats line i name quantity unit ms =
     \<lparr>pl_id = i, pl_itemId = None, pl_comboId = None, pl_parentLineId = None, pl_itemName = name, pl_variantId = None, pl_variantName = None,
      pl_quantity = quantity, pl_unitPriceMinor = unit, pl_seatNumber = seats (ca_guestId line), pl_guestId = ca_guestId line,
      pl_guestName = ca_guestName line, pl_modifiers = ms\<rparr>"

definition modifier_view :: "modifier \<Rightarrow> cart_line_modifier_view" where
  "modifier_view m = \<lparr>cm_id = mo_id m, cm_name = mo_name m, cm_priceMinor = mo_priceMinor m\<rparr>"

definition place_child ::
  "env \<Rightarrow> guest_principal \<Rightarrow> uuid \<Rightarrow> (uuid \<Rightarrow> int option) \<Rightarrow> cart_line \<Rightarrow> uuid \<Rightarrow> placed_order_line_view list \<times> db \<Rightarrow> resolved_combo_child \<Rightarrow>
   placed_order_line_view list \<times> db" where
  "place_child e guest orderId seats line parent st child = (case st of (views, d) \<Rightarrow>
     let quantity = rc_quantity child * ca_quantity line;
         ms = filter (\<lambda>m. mo_tenantId m = gp_tenantId guest \<and> mo_id m \<in> set (rc_modifierIds child)) (modifiers d);
         (i, d1) = insert_line ((placed_line e (gp_tenantId guest) orderId seats line quantity (rc_upchargeMinor child))
                     \<lparr>ol_itemId := Some (rc_itemId child), ol_variantId := rc_variantId child, ol_parentLineId := Some parent\<rparr>)
                     (\<lambda>i. map_option mo_priceMinor (find_row mo_id i ms)) (map mo_id ms) d
     in (views @ [(line_view seats line i (rc_itemName child) quantity (rc_upchargeMinor child) (map modifier_view ms))
           \<lparr>pl_itemId := Some (rc_itemId child), pl_parentLineId := Some parent, pl_variantId := rc_variantId child\<rparr>], d1))"

definition place_combo ::
  "env \<Rightarrow> guest_principal \<Rightarrow> uuid \<Rightarrow> (uuid \<Rightarrow> int option) \<Rightarrow> cart_line \<Rightarrow> uuid \<Rightarrow> placed_order_line_view list \<times> db \<Rightarrow>
   (placed_order_line_view list \<times> db) result" where
  "place_combo e guest orderId seats line comboId st = (case st of (views, d) \<Rightarrow>
    r_bind (pick_selections (ca_quantity line) (cart_children d (ca_id line))) (\<lambda>selections.
    r_bind (resolveComboSelection d (gp_tenantId guest) (gp_outletId guest) comboId selections) (\<lambda>(combo, children).
      let (parent, d1) = insert_line ((placed_line e (gp_tenantId guest) orderId seats line (ca_quantity line) (cb_priceMinor combo))
                            \<lparr>ol_comboId := Some (cb_id combo), ol_note := ca_note line\<rparr>) (\<lambda>_. None) [] d;
          view = (line_view seats line parent (cb_name combo) (ca_quantity line) (cb_priceMinor combo) [])\<lparr>pl_comboId := Some (cb_id combo)\<rparr>
      in Inr (foldl (place_child e guest orderId seats line parent) (views @ [view], d1) children))))"

definition place_item ::
  "env \<Rightarrow> guest_principal \<Rightarrow> uuid \<Rightarrow> (uuid \<Rightarrow> int option) \<Rightarrow> cart_line \<Rightarrow> placed_order_line_view list \<times> db \<Rightarrow>
   (placed_order_line_view list \<times> db) result" where
  "place_item e guest orderId seats line st = (case st of (views, d) \<Rightarrow>
    (case ca_itemId line of
       None \<Rightarrow> Inl (InternalError ''PrismaClientValidationError'')
     | Some itemId \<Rightarrow>
        (case resolveCurrentPrice e d (gp_tenantId guest) itemId (ca_variantId line) ORDER_PLACEMENT_PRICE_CHANNEL (Some (gp_outletId guest)) of
           None \<Rightarrow> Inl (BadRequest ''no_price'')
         | Some price \<Rightarrow>
             let (i, d1) = insert_line ((placed_line e (gp_tenantId guest) orderId seats line (ca_quantity line) (ip_priceMinor price))
                     \<lparr>ol_itemId := Some itemId, ol_variantId := ca_variantId line, ol_note := ca_note line\<rparr>)
                     (\<lambda>i. map_option mo_priceMinor (find_row mo_id i (modifiers d))) (ca_modifierIds line) d
             in Inr (views @ [(line_view seats line i (cart_item_name d line) (ca_quantity line) (ip_priceMinor price)
                   (map modifier_view (cart_modifiers d line)))
                   \<lparr>pl_itemId := Some itemId, pl_variantId := ca_variantId line, pl_variantName := cart_variant_name d line\<rparr>], d1))))"

definition place_line ::
  "env \<Rightarrow> guest_principal \<Rightarrow> uuid \<Rightarrow> (uuid \<Rightarrow> int option) \<Rightarrow> cart_line \<Rightarrow> placed_order_line_view list \<times> db \<Rightarrow>
   (placed_order_line_view list \<times> db) result" where
  "place_line e guest orderId seats line st =
    (case ca_comboId line of Some comboId \<Rightarrow> place_combo e guest orderId seats line comboId st | None \<Rightarrow> place_item e guest orderId seats line st)"

definition claim_table :: "env \<Rightarrow> guest_principal \<Rightarrow> uuid option \<Rightarrow> db \<Rightarrow> db result" where
  "claim_table e guest tableId d =
    (case tableId of
       None \<Rightarrow> Inr d
     | Some tab \<Rightarrow>
         let d1 = detachStaleTableOrder e (gp_tenantId guest) tab None (''guest:'' @ gp_name guest) d
         in if list_ex (\<lambda>x. o_tenantId x = gp_tenantId guest \<and> o_tableId x = Some tab \<and> o_status x \<noteq> o_closed) (orders d1)
            then Inl (Conflict ''table_has_active_order'') else Inr d1)"

definition token_for :: "guest_principal \<Rightarrow> table_session \<Rightarrow> db \<Rightarrow> int option \<times> db" where
  "token_for guest session d =
    (if ts_tableId session = None then (case reserveTokenNumber (gp_tenantId guest) (gp_outletId guest) d of (n, d1) \<Rightarrow> (Some n, d1)) else (None, d))"

definition guest_order :: "env \<Rightarrow> guest_principal \<Rightarrow> table_session \<Rightarrow> int option \<Rightarrow> uuid \<Rightarrow> order" where
  "guest_order e guest session token i =
     \<lparr>o_id = i, o_tenantId = gp_tenantId guest, o_outletId = gp_outletId guest, o_tableId = ts_tableId session, o_ownerId = None, o_status = o_open,
      o_tokenNumber = token, o_source = (if ts_tableId session = None then src_kiosk else src_qr), o_sessionId = Some (ts_id session), o_createdAt = now e\<rparr>"

text \<open>The order is sent, the kitchen fires it, and the cart is consumed.\<close>

definition send_placed :: "env \<Rightarrow> guest_principal \<Rightarrow> table_session \<Rightarrow> uuid \<Rightarrow> db \<Rightarrow> db" where
  "send_placed e guest session orderId d =
    (let (_, d1) = fireOnSend e orderId (gp_tenantId guest) (gp_outletId guest) (set_order orderId (\<lambda>x. x\<lparr>o_status := o_sent\<rparr>) d)
     in d1\<lparr>cartLines := filter (\<lambda>l. \<not> (ca_tenantId l = gp_tenantId guest \<and> ca_sessionId l = ts_id session)) (cartLines d1)\<rparr>)"

definition placeOrder :: "env \<Rightarrow> guest_principal \<Rightarrow> db \<Rightarrow> (placed_order_view \<times> db) result" where
  "placeOrder e guest d =
    r_bind (loadActiveSession e d guest) (\<lambda>session.
      let lines = top_cart_lines d (gp_tenantId guest) (ts_id session) in
      if lines = [] then Inl (BadRequest ''empty_cart'')
      else
        let seats = seatByGuest (session_guests d (gp_tenantId guest) (ts_id session));
            (token, d1) = token_for guest session d
        in r_bind (claim_table e guest (ts_tableId session) d1) (\<lambda>d2.
           let (i, d3) = take_id d2
           in r_bind (insert_order (guest_order e guest session token i) d3) (\<lambda>d4.
              r_bind (r_fold (place_line e guest i seats) lines ([], d4)) (\<lambda>(views, d5).
                Inr (\<lparr>po_orderId = i, po_tableId = ts_tableId session, po_status = o_sent,
                   po_source = (if ts_tableId session = None then src_kiosk else src_qr), po_tokenNumber = token,
                   po_sessionId = ts_id session, po_lines = views\<rparr>, send_placed e guest session i d5)))))"

section \<open>Writing the lines of one order\<close>

text \<open>Lines of the order \<open>k\<close> worth \<open>r\<close> were added, each at the seat of the guest it belongs to, and nothing else changed.\<close>

definition seated :: "(uuid \<Rightarrow> int option) \<Rightarrow> order_line \<Rightarrow> bool" where
  "seated seats l \<longleftrightarrow> (\<exists>g. ol_guestId l = Some g \<and> ol_seatNumber l = seats g)"

definition placing :: "(uuid \<Rightarrow> int option) \<Rightarrow> uuid \<Rightarrow> int \<Rightarrow> db \<Rightarrow> db \<Rightarrow> bool" where
  "placing seats k r s s' \<longleftrightarrow> lines_wf s' \<and> (\<forall>l \<in> set (orderLines s'). l \<in> set (orderLines s) \<or> seated seats l) \<and> edits_lines k s s' \<and> (\<exists>n ls. s' = s\<lparr>nextId := n, orderLines := ls\<rparr>) \<and>
     set (orderLines s) \<subseteq> set (orderLines s') \<and> computeSubtotal s' k = computeSubtotal s k + r"

lemma placing_refl: "lines_wf s \<Longrightarrow> placing seats k 0 s s"
  unfolding placing_def by (intro conjI exI [of _ "nextId s"] exI [of _ "orderLines s"]) (simp_all add: edits_lines_refl)

lemma placing_trans:
  assumes "placing seats k r a b" and "placing seats k q b c"
  shows "placing seats k (r + q) a c"
proof -
  obtain n ls m ms where e: "b = a\<lparr>nextId := n, orderLines := ls\<rparr>" "c = b\<lparr>nextId := m, orderLines := ms\<rparr>" using assms by (auto simp: placing_def)
  have "c = a\<lparr>nextId := m, orderLines := ms\<rparr>" unfolding e(2) unfolding e(1) by simp
  then have f: "\<exists>n ls. c = a\<lparr>nextId := n, orderLines := ls\<rparr>" by blast
  have "edits_lines k a c" using assms edits_lines_trans unfolding placing_def by blast
  then show ?thesis using assms f unfolding placing_def by auto
qed

lemma placing_rest:
  assumes "placing seats k r s s'"
  shows "modifiers s' = modifiers s" "combos s' = combos s" "itemPrices s' = itemPrices s" "menuItems s' = menuItems s" "itemOverrides s' = itemOverrides s"
    "cartLines s' = cartLines s" "orders s' = orders s" "tickets s' = tickets s" "ticketLines s' = ticketLines s" "menu_ok s' = menu_ok s"
    "lines_wf s'" "nextId s \<le> nextId s'"
proof -
  obtain n ls where e: "s' = s\<lparr>nextId := n, orderLines := ls\<rparr>" using assms by (auto simp: placing_def)
  show "modifiers s' = modifiers s" "combos s' = combos s" "itemPrices s' = itemPrices s" "menuItems s' = menuItems s" "itemOverrides s' = itemOverrides s"
    "cartLines s' = cartLines s" "orders s' = orders s" "tickets s' = tickets s" "ticketLines s' = ticketLines s" "menu_ok s' = menu_ok s"
    by (simp_all add: e menu_ok_def)
  show "lines_wf s'" "nextId s \<le> nextId s'" using assms by (simp_all add: placing_def edits_lines_def)
qed

lemma insert_placing:
  assumes "insert_line l prices ids s = (i, s')" and "lines_wf s" and "0 < ol_quantity l" "0 \<le> ol_unitPriceMinor l"
    and "\<And>j. 0 \<le> nullish (prices j) 0" and "ol_orderId l = k" "ol_voidedAt l = None" "seated seats l"
    and "\<And>p. ol_parentLineId l = Some p \<Longrightarrow> \<exists>x \<in> set (orderLines s). ol_id x = p \<and> ol_orderId x = k"
  shows "placing seats k (ol_quantity l * (ol_unitPriceMinor l + sum_rows (\<lambda>j. nullish (prices j) 0) ids)) s s'"
    "\<exists>x \<in> set (orderLines s'). ol_id x = i \<and> ol_orderId x = k"
proof -
  obtain l' where e: "s' = s\<lparr>nextId := Suc (nextId s) + length ids, orderLines := orderLines s @ [l']\<rparr>" "i = nextId s"
    "l' = l\<lparr>ol_id := nextId s, ol_modifiers := new_modifiers (Suc (nextId s)) prices ids\<rparr>"
    using assms(1) by (rule insert_line_effect)
  note k = insert_line_keeps [OF assms(1-6,9)]
  have live: "live_lines s' k = live_lines s k @ [l']" using assms(6,7) by (simp add: live_lines_def e(1,3))
  have "ol_quantity l' * line_unit l' = ol_quantity l * (ol_unitPriceMinor l + sum_rows (\<lambda>j. nullish (prices j) 0) ids)"
    by (simp add: e(3) line_unit_def new_modifiers_sum)
  then have "computeSubtotal s' k = computeSubtotal s k + ol_quantity l * (ol_unitPriceMinor l + sum_rows (\<lambda>j. nullish (prices j) 0) ids)"
    unfolding computeSubtotal_sum live by simp
  moreover have "seated seats l'" using assms(8) by (simp add: seated_def e(3))
  ultimately show "placing seats k (ol_quantity l * (ol_unitPriceMinor l + sum_rows (\<lambda>j. nullish (prices j) 0) ids)) s s'"
    unfolding placing_def using k(1,2,5) e(1) by (intro conjI exI) auto
  show "\<exists>x \<in> set (orderLines s'). ol_id x = i \<and> ol_orderId x = k" by (rule k(3))
qed

text \<open>What a pick is charged: its option's extra charge and its modifiers.\<close>

definition child_modifiers :: "db \<Rightarrow> uuid \<Rightarrow> uuid list \<Rightarrow> modifier list" where
  "child_modifiers d t ids = filter (\<lambda>m. mo_tenantId m = t \<and> mo_id m \<in> set ids) (modifiers d)"

definition child_charge :: "db \<Rightarrow> uuid \<Rightarrow> int \<Rightarrow> resolved_combo_child \<Rightarrow> int" where
  "child_charge d t q c = rc_quantity c * q * (rc_upchargeMinor c + sum_rows mo_priceMinor (child_modifiers d t (rc_modifierIds c)))"

lemma own_prices_sum:
  assumes "distinct (map mo_id ms)"
  shows "sum_rows (\<lambda>i. nullish (map_option mo_priceMinor (find_row mo_id i ms)) 0) (map mo_id ms) = sum_rows mo_priceMinor ms"
proof -
  have "sum_rows (\<lambda>i. nullish (map_option mo_priceMinor (find_row mo_id i ms)) 0) (map mo_id ms) =
      sum_rows (\<lambda>m. nullish (map_option mo_priceMinor (find_row mo_id (mo_id m) ms)) 0) ms"
    unfolding sum_rows_def map_map comp_def by (rule refl)
  also have "\<dots> = sum_rows mo_priceMinor ms" by (rule sum_rows_cong) (simp add: find_row_distinct [OF assms])
  finally show ?thesis .
qed

lemma priced_nonneg: "\<forall>m \<in> set ms. 0 \<le> mo_priceMinor m \<Longrightarrow> 0 \<le> nullish (map_option mo_priceMinor (find_row mo_id j ms)) 0"
  by (cases "find_row mo_id j ms") (auto dest: find_row_Some)

lemma place_child_effect:
  assumes "place_child e g k seats line parent (vs, s) c = (vs', s')" and "lines_wf s" and "menu_ok s" and "distinct (map mo_id (modifiers s))"
    and "0 < ca_quantity line" and "0 < rc_quantity c \<and> 0 \<le> rc_upchargeMinor c"
    and "\<exists>x \<in> set (orderLines s). ol_id x = parent \<and> ol_orderId x = k"
  shows "placing seats k (child_charge s (gp_tenantId g) (ca_quantity line) c) s s'"
proof -
  let ?ms = "child_modifiers s (gp_tenantId g) (rc_modifierIds c)"
  let ?l = "(placed_line e (gp_tenantId g) k seats line (rc_quantity c * ca_quantity line) (rc_upchargeMinor c))
      \<lparr>ol_itemId := Some (rc_itemId c), ol_variantId := rc_variantId c, ol_parentLineId := Some parent\<rparr>"
  obtain i where ins: "insert_line ?l (\<lambda>i. map_option mo_priceMinor (find_row mo_id i ?ms)) (map mo_id ?ms) s = (i, s')"
    using assms(1) by (auto simp: place_child_def child_modifiers_def Let_def split: prod.splits)
  have dist: "distinct (map mo_id ?ms)" unfolding child_modifiers_def by (rule distinct_map_filter [OF assms(4)])
  have nn: "\<forall>m \<in> set ?ms. 0 \<le> mo_priceMinor m" using assms(3) by (auto simp: menu_ok_def child_modifiers_def)
  have "placing seats k (ol_quantity ?l * (ol_unitPriceMinor ?l + sum_rows (\<lambda>j. nullish (map_option mo_priceMinor (find_row mo_id j ?ms)) 0) (map mo_id ?ms))) s s'"
    by (rule insert_placing [OF ins assms(2) _ _ priced_nonneg [OF nn]])
      (use assms(5,6,7) in \<open>simp_all add: placed_line_def line_of_def seated_def\<close>)
  then show ?thesis unfolding own_prices_sum [OF dist] by (simp add: child_charge_def placed_line_def line_of_def)
qed

lemma place_children_effect:
  assumes "foldl (place_child e g k seats line parent) (vs, s) cs = (vs', s')" and "lines_wf s" and "menu_ok s" and "distinct (map mo_id (modifiers s))"
    and "0 < ca_quantity line" and "\<forall>c \<in> set cs. 0 < rc_quantity c \<and> 0 \<le> rc_upchargeMinor c"
    and "\<exists>x \<in> set (orderLines s). ol_id x = parent \<and> ol_orderId x = k"
  shows "placing seats k (sum_rows (child_charge s (gp_tenantId g) (ca_quantity line)) cs) s s'"
  using assms
proof (induction cs arbitrary: vs s)
  case Nil
  then show ?case by (simp add: placing_refl)
next
  case (Cons c cs)
  obtain vs1 s1 where st: "place_child e g k seats line parent (vs, s) c = (vs1, s1)" by fastforce
  have pc: "0 < rc_quantity c \<and> 0 \<le> rc_upchargeMinor c" using Cons.prems(6) by simp
  note one = place_child_effect [OF st Cons.prems(2-5) pc Cons.prems(7)]
  note r = placing_rest [OF one]
  have "set (orderLines s) \<subseteq> set (orderLines s1)" using one by (simp add: placing_def)
  then have par: "\<exists>x \<in> set (orderLines s1). ol_id x = parent \<and> ol_orderId x = k" using Cons.prems(7) by blast
  have "placing seats k (sum_rows (child_charge s1 (gp_tenantId g) (ca_quantity line)) cs) s1 s'"
    by (rule Cons.IH [OF _ r(11) _ _ Cons.prems(5) _ par]) (use Cons.prems(1,3,4,6) st r in simp_all)
  moreover have "child_charge s1 (gp_tenantId g) (ca_quantity line) = child_charge s (gp_tenantId g) (ca_quantity line)"
    by (intro ext) (simp add: child_charge_def child_modifiers_def r(1))
  ultimately show ?case using placing_trans [OF one] by simp
qed

section \<open>What the catalogue and the cart promise\<close>

text \<open>Primary keys of the catalogue, and prices that are not negative.\<close>

definition catalogue_ok :: "db \<Rightarrow> bool" where
  "catalogue_ok d \<longleftrightarrow> menu_ok d \<and> distinct (map mo_id (modifiers d)) \<and> distinct (map co_id (slot_options d)) \<and>
     (\<forall>c \<in> set (combos d). distinct (map cs_id (cb_slots c)))"

text \<open>
  Foreign keys of the cart, and that a combo line has a pick in every slot that offers one option only: \<open>addCombo\<close>
  fills such slots itself, and changing a combo in the back office clears the carts that hold it.
\<close>

definition combo_filled :: "db \<Rightarrow> cart_line \<Rightarrow> bool" where
  "combo_filled d l \<longleftrightarrow> (\<forall>k c. ca_comboId l = Some k \<longrightarrow> find_row cb_id k (combos d) = Some c \<longrightarrow>
     (\<forall>slot \<in> set (cb_slots c). length (cs_options slot) = 1 \<longrightarrow>
        (\<exists>x \<in> set (cart_children d (ca_id l)). \<exists>opt \<in> set (cs_options slot). ca_comboOptionId x = Some (co_id opt))))"

definition cart_known :: "db \<Rightarrow> bool" where
  "cart_known d \<longleftrightarrow> cart_combos_known d \<and> (\<forall>l \<in> set (cartLines d). combo_filled d l \<and> distinct (ca_modifierIds l) \<and>
     (\<forall>i \<in> set (ca_modifierIds l). \<exists>m. find_row mo_id i (modifiers d) = Some m \<and> mo_tenantId m = ca_tenantId l))"

lemma distinct_found: "distinct ids \<Longrightarrow> distinct (List.map_filter (\<lambda>i. find_row key i ms) ids)"
proof (induction ids)
  case (Cons i ids)
  show ?case
  proof (cases "find_row key i ms")
    case None
    then show ?thesis using Cons by (simp add: List.map_filter_def)
  next
    case (Some m)
    have "m \<notin> set (List.map_filter (\<lambda>i. find_row key i ms) ids)"
    proof
      assume "m \<in> set (List.map_filter (\<lambda>i. find_row key i ms) ids)"
      then obtain j where "j \<in> set ids" "find_row key j ms = Some m" by (auto simp: List.map_filter_def)
      then show False using Cons.prems find_row_Some [OF Some] find_row_Some [of key j ms m] by auto
    qed
    then show ?thesis using Cons Some by (simp add: List.map_filter_def)
  qed
qed (simp add: List.map_filter_def)

lemma joined_modifiers_sum:
  assumes "distinct ids" and "distinct (map mo_id ms)" and "\<forall>i \<in> set ids. \<exists>m. find_row mo_id i ms = Some m \<and> mo_tenantId m = t"
  shows "sum_rows mo_priceMinor (filter (\<lambda>m. mo_tenantId m = t \<and> mo_id m \<in> set ids) ms) = sum_rows mo_priceMinor (List.map_filter (\<lambda>i. find_row mo_id i ms) ids)"
proof -
  let ?xs = "filter (\<lambda>m. mo_tenantId m = t \<and> mo_id m \<in> set ids) ms" and ?ys = "List.map_filter (\<lambda>i. find_row mo_id i ms) ids"
  have "set ?xs = set ?ys"
  proof (intro set_eqI iffI)
    fix m assume "m \<in> set ?xs"
    then have "find_row mo_id (mo_id m) ms = Some m" "mo_id m \<in> set ids" using find_row_distinct [OF assms(2)] by auto
    then show "m \<in> set ?ys" by (auto simp: List.map_filter_def intro!: image_eqI [of _ _ "mo_id m"])
  next
    fix m assume "m \<in> set ?ys"
    then obtain i where i: "i \<in> set ids" "find_row mo_id i ms = Some m" by (auto simp: List.map_filter_def)
    then show "m \<in> set ?xs" using assms(3) find_row_Some [OF i(2)] by auto
  qed
  moreover have "distinct ?xs" using assms(2) distinct_filter distinct_map by blast
  moreover have "distinct ?ys" by (rule distinct_found [OF assms(1)])
  ultimately show ?thesis by (simp add: sum_rows_def sum_list_distinct_conv_sum_set)
qed

section \<open>A placed combo comes to what the cart showed\<close>

lemma pick_selections_rel:
  "pick_selections q cs = Inr ss \<Longrightarrow> list_all2 (\<lambda>c s. ca_comboOptionId c = Some (ci_optionId s) \<and> q \<noteq> 0 \<and> q dvd ca_quantity c \<and>
     ci_quantity s = Some (ca_quantity c div q) \<and> ci_modifierIds s = Some (ca_modifierIds c)) cs ss"
  by (induction cs arbitrary: ss) (auto simp: per_combo_def result_simps split: option.splits if_splits)

lemma resolve_picks_rel:
  "resolve_picks f ss = Inr ps \<Longrightarrow> list_all2 (\<lambda>s p. f (ci_optionId s) = Some (pk_slot p, pk_option p) \<and> pk_quantity p = nullish (ci_quantity s) 1 \<and>
     pk_modifierIds p = nullish (ci_modifierIds s) []) ss ps"
proof (induction ss arbitrary: ps)
  case (Cons s ss)
  then obtain slot opt where f: "f (ci_optionId s) = Some (slot, opt)" by (auto split: option.splits)
  with Cons show ?case by (auto simp: result_simps)
qed simp

lemma resolve_children_fields:
  "resolve_children d av ps = Inr cs \<Longrightarrow> list_all2 (\<lambda>p c. rc_quantity c = pk_quantity p \<and> rc_upchargeMinor c = co_upchargeMinor (pk_option p) \<and>
     rc_modifierIds c = pk_modifierIds p \<and> rc_optionId c = co_id (pk_option p)) ps cs"
  by (induction ps arbitrary: cs) (auto simp: result_simps resolve_child_def split: option.splits if_splits)

lemma fill_slots_full:
  assumes "fill_slots slots picks = Inr picks'" and "\<forall>slot \<in> set slots. length (cs_options slot) = 1 \<longrightarrow> list_ex (\<lambda>p. cs_id (pk_slot p) = cs_id slot) picks"
  shows "picks' = picks"
  using assms by (induction slots) (auto simp: Let_def split: if_splits)

lemma sum_rows_all2: "list_all2 R xs ys \<Longrightarrow> (\<And>x y. x \<in> set xs \<Longrightarrow> R x y \<Longrightarrow> f x = g y) \<Longrightarrow> sum_rows f xs = sum_rows g ys"
proof (induction rule: list_all2_induct)
  case (Cons x xs y ys)
  have "sum_rows f xs = sum_rows g ys" by (rule Cons.IH) (use Cons.prems in auto)
  then show ?case using Cons.prems [of x y] Cons.hyps(1) by simp
qed simp

lemma all2_member: "list_all2 R xs ys \<Longrightarrow> x \<in> set xs \<Longrightarrow> \<exists>y \<in> set ys. R x y"
  by (induction rule: list_all2_induct) auto

lemma all2_member2: "list_all2 R xs ys \<Longrightarrow> y \<in> set ys \<Longrightarrow> \<exists>x \<in> set xs. R x y"
  by (induction rule: list_all2_induct) auto

lemma slot_options_combo:
  assumes "c \<in> set (combos d)" and "distinct (map co_id (slot_options d))"
  shows "distinct (map fst (combo_options c))" "slot \<in> set (cb_slots c) \<Longrightarrow> opt \<in> set (cs_options slot) \<Longrightarrow> find_row co_id (co_id opt) (slot_options d) = Some opt"
proof -
  obtain as bs where cs: "combos d = as @ c # bs" using assms(1) by (meson split_list)
  have "map fst (combo_options c) = map co_id (concat (map cs_options (cb_slots c)))"
    by (simp add: combo_options_def map_concat comp_def)
  moreover have "distinct (map co_id (concat (map cs_options (cb_slots c))))" using assms(2) by (simp add: slot_options_def cs)
  ultimately show "distinct (map fst (combo_options c))" by simp
  show "find_row co_id (co_id opt) (slot_options d) = Some opt" if "slot \<in> set (cb_slots c)" "opt \<in> set (cs_options slot)"
    by (rule find_row_distinct [OF assms(2)]) (use that assms(1) in \<open>auto simp: slot_options_def\<close>)
qed

text \<open>The picks of a filled combo line are resolved one for one.\<close>

lemma placed_children:
  assumes "resolveComboSelection d t out cid ss = Inr (c, rs)" and "pick_selections q cs = Inr ss" and "catalogue_ok d"
    and "\<forall>slot \<in> set (cb_slots c). length (cs_options slot) = 1 \<longrightarrow> (\<exists>x \<in> set cs. \<exists>opt \<in> set (cs_options slot). ca_comboOptionId x = Some (co_id opt))"
  shows "list_all2 (\<lambda>x r. q \<noteq> 0 \<and> q dvd ca_quantity x \<and> rc_quantity r = ca_quantity x div q \<and> rc_modifierIds r = ca_modifierIds x \<and>
      rc_upchargeMinor r = option_upcharge d (ca_comboOptionId x)) cs rs"
proof -
  obtain picks0 picks where p: "find_row cb_id cid (combos d) = Some c" "resolve_picks (map_of (rev (combo_options c))) ss = Inr picks0"
    "fill_slots (cb_slots c) picks0 = Inr picks" "resolve_children d (itemAvailability d t (Some out)) picks = Inr rs"
    using assms(1) by (rule resolveComboSelection_parts) (rule that)
  have c: "c \<in> set (combos d)" using find_row_Some [OF p(1)] by simp
  have ids: "distinct (map co_id (slot_options d))" using assms(3) by (simp add: catalogue_ok_def)
  note so = slot_options_combo [OF c ids]
  note sel = pick_selections_rel [OF assms(2)] and pk = resolve_picks_rel [OF p(2)]
  have cp: "list_all2 (\<lambda>x y. (\<exists>opt. ca_comboOptionId x = Some (co_id opt) \<and> opt = pk_option y \<and> pk_slot y \<in> set (cb_slots c) \<and> opt \<in> set (cs_options (pk_slot y))) \<and>
      q \<noteq> 0 \<and> q dvd ca_quantity x \<and> pk_quantity y = ca_quantity x div q \<and> pk_modifierIds y = ca_modifierIds x) cs picks0"
    by (rule list_all2_trans [OF _ sel pk]) (auto dest: combo_options_mem)
  have full: "\<forall>slot \<in> set (cb_slots c). length (cs_options slot) = 1 \<longrightarrow> list_ex (\<lambda>y. cs_id (pk_slot y) = cs_id slot) picks0"
  proof (intro ballI impI)
    fix slot assume slot: "slot \<in> set (cb_slots c)" "length (cs_options slot) = 1"
    then obtain x opt where x: "x \<in> set cs" "opt \<in> set (cs_options slot)" "ca_comboOptionId x = Some (co_id opt)" using assms(4) by blast
    obtain y where y: "y \<in> set picks0" "ca_comboOptionId x = Some (co_id (pk_option y))" "pk_slot y \<in> set (cb_slots c)" "pk_option y \<in> set (cs_options (pk_slot y))"
      using all2_member [OF cp x(1)] by blast
    have "pk_slot y = slot" by (rule option_slot_unique [OF so(1) y(3) slot(1) y(4) x(2)]) (use x(3) y(2) in simp)
    then show "list_ex (\<lambda>y. cs_id (pk_slot y) = cs_id slot) picks0" using y(1) by (auto simp: list_ex_iff)
  qed
  have "picks = picks0" by (rule fill_slots_full [OF p(3) full])
  then have ch: "list_all2 (\<lambda>p c. rc_quantity c = pk_quantity p \<and> rc_upchargeMinor c = co_upchargeMinor (pk_option p) \<and>
     rc_modifierIds c = pk_modifierIds p \<and> rc_optionId c = co_id (pk_option p)) picks0 rs" using resolve_children_fields [OF p(4)] by simp
  show ?thesis by (rule list_all2_trans [OF _ cp ch]) (auto simp: option_upcharge_def so(2))
qed

text \<open>A combo line is written as its parent and then its picks, whatever the cart holds.\<close>

lemma place_combo_parts:
  assumes "place_combo e g k seats line cid (vs, s) = Inr (vs', s')" and "lines_wf s" and "catalogue_ok s" and "carts_ok s"
    and "line \<in> set (cartLines s)"
  obtains ss c rs s1 where "pick_selections (ca_quantity line) (cart_children s (ca_id line)) = Inr ss"
    "resolveComboSelection s (gp_tenantId g) (gp_outletId g) cid ss = Inr (c, rs)" "modifiers s1 = modifiers s"
    "placing seats k (ca_quantity line * cb_priceMinor c) s s1"
    "placing seats k (sum_rows (child_charge s1 (gp_tenantId g) (ca_quantity line)) rs) s1 s'"
proof -
  let ?q = "ca_quantity line" and ?cs = "cart_children s (ca_id line)" and ?t = "gp_tenantId g"
  have q: "0 < ?q" using assms(4,5) by (auto simp: carts_ok_def cart_line_wf_def)
  have menu: "menu_ok s" and mods: "distinct (map mo_id (modifiers s))" using assms(3) by (simp_all add: catalogue_ok_def)
  obtain ss c rs where sel: "pick_selections ?q ?cs = Inr ss" and r: "resolveComboSelection s ?t (gp_outletId g) cid ss = Inr (c, rs)"
    using assms(1) by (auto simp: place_combo_def r_bind_eq_Inr)
  have kids: "0 < ca_quantity x" if x: "x \<in> set ?cs" for x
    using cart_children_of [OF assms(4,5) x] assms(4) by (auto simp: carts_ok_def cart_line_wf_def)
  have selpos: "\<forall>x \<in> set ss. \<forall>n. ci_quantity x = Some n \<longrightarrow> 0 < n"
  proof -
    have "list_all2 (\<lambda>x y. \<forall>n. ci_quantity y = Some n \<longrightarrow> (0 < ca_quantity x \<longrightarrow> 0 < n)) ?cs ss"
      by (rule list_all2_mono [OF pick_selections_rel [OF sel]]) (use q in \<open>auto simp: dvd_def zero_less_mult_iff\<close>)
    then have "\<forall>y \<in> set ss. \<exists>x \<in> set ?cs. \<forall>n. ci_quantity y = Some n \<longrightarrow> (0 < ca_quantity x \<longrightarrow> 0 < n)"
      using all2_member2 by fastforce
    then show ?thesis using kids by blast
  qed
  note wf = resolved_children_wf [OF r menu selpos]
  let ?l = "(placed_line e ?t k seats line ?q (cb_priceMinor c))\<lparr>ol_comboId := Some (cb_id c), ol_note := ca_note line\<rparr>"
  obtain parent s1 where ins: "insert_line ?l (\<lambda>_. None) [] s = (parent, s1)" by fastforce
  have p1: "placing seats k (ol_quantity ?l * (ol_unitPriceMinor ?l + sum_rows (\<lambda>j :: uuid. nullish None 0) [])) s s1"
    by (rule insert_placing(1) [OF ins assms(2)]) (use q wf(1) in \<open>simp_all add: placed_line_def line_of_def seated_def\<close>)
  have par: "\<exists>x \<in> set (orderLines s1). ol_id x = parent \<and> ol_orderId x = k"
    by (rule insert_placing(2) [OF ins assms(2)]) (use q wf(1) in \<open>simp_all add: placed_line_def line_of_def seated_def\<close>)
  note rest = placing_rest [OF p1]
  obtain vs1 where f: "foldl (place_child e g k seats line parent) (vs1, s1) rs = (vs', s')"
    using assms(1) by (auto simp: place_combo_def sel r ins r_bind_eq_Inr Let_def)
  have p2: "placing seats k (sum_rows (child_charge s1 ?t ?q) rs) s1 s'"
    by (rule place_children_effect [OF f rest(11) _ _ q _ par]) (use menu mods rest wf(2) in simp_all)
  have "placing seats k (?q * cb_priceMinor c) s s1" using p1 by (simp add: placed_line_def line_of_def)
  then show thesis using that [OF sel r rest(1) _ p2] by blast
qed

lemma place_combo_effect:
  assumes "place_combo e g k seats line cid (vs, s) = Inr (vs', s')" and "lines_wf s" and "catalogue_ok s" and "carts_ok s" and "cart_known s"
    and "line \<in> set (cartLines s)" and "ca_comboId line = Some cid" and "ca_tenantId line = gp_tenantId g"
  shows "placing seats k (line_charge e s (gp_tenantId g) (gp_outletId g) line) s s'"
proof -
  let ?q = "ca_quantity line" and ?cs = "cart_children s (ca_id line)" and ?t = "gp_tenantId g"
  have mods: "distinct (map mo_id (modifiers s))" using assms(3) by (simp add: catalogue_ok_def)
  obtain ss c rs s1 where sel: "pick_selections ?q ?cs = Inr ss" and r: "resolveComboSelection s ?t (gp_outletId g) cid ss = Inr (c, rs)"
    and m1: "modifiers s1 = modifiers s" and p1: "placing seats k (?q * cb_priceMinor c) s s1"
    and p2: "placing seats k (sum_rows (child_charge s1 ?t ?q) rs) s1 s'"
    by (rule place_combo_parts [OF assms(1-4,6)])
  have c: "find_row cb_id cid (combos s) = Some c" using r by (rule resolveComboSelection_parts)
  have kids: "ca_tenantId x = ?t" "x \<in> set (cartLines s)" if x: "x \<in> set ?cs" for x
    using cart_children_of [OF assms(4,6) x] assms(8) by (auto simp: pick_of_def)
  have filled: "\<forall>slot \<in> set (cb_slots c). length (cs_options slot) = 1 \<longrightarrow>
      (\<exists>x \<in> set ?cs. \<exists>opt \<in> set (cs_options slot). ca_comboOptionId x = Some (co_id opt))"
  proof -
    have "combo_filled s line" using assms(5,6) by (simp add: cart_known_def)
    then show ?thesis using assms(7) c by (simp add: combo_filled_def)
  qed
  note ch = placed_children [OF r sel assms(3) filled]
  have "sum_rows (\<lambda>x. ca_quantity x * (option_upcharge s (ca_comboOptionId x) + modifiers_charge s x)) ?cs = sum_rows (child_charge s1 ?t ?q) rs"
  proof (rule sum_rows_all2 [OF ch])
    fix x and y :: resolved_combo_child assume x: "x \<in> set ?cs" and R: "?q \<noteq> 0 \<and> ?q dvd ca_quantity x \<and> rc_quantity y = ca_quantity x div ?q \<and> rc_modifierIds y = ca_modifierIds x \<and>
      rc_upchargeMinor y = option_upcharge s (ca_comboOptionId x)"
    have "sum_rows mo_priceMinor (child_modifiers s1 ?t (ca_modifierIds x)) = modifiers_charge s x"
      unfolding child_modifiers_def m1 modifiers_charge_def cart_modifiers_def
      by (rule joined_modifiers_sum [OF _ mods]) (use assms(5) kids [OF x] in \<open>auto simp: cart_known_def\<close>)
    with R show "ca_quantity x * (option_upcharge s (ca_comboOptionId x) + modifiers_charge s x) = child_charge s1 ?t ?q y"
      by (simp add: child_charge_def)
  qed
  then have "line_charge e s ?t (gp_outletId g) line = ?q * cb_priceMinor c + sum_rows (child_charge s1 ?t ?q) rs"
    by (simp add: line_charge_def assms(7) c)
  then show ?thesis using placing_trans [OF p1 p2] by simp
qed

lemma place_item_effect:
  assumes "place_item e g k seats line (vs, s) = Inr (vs', s')" and "lines_wf s" and "catalogue_ok s" and "carts_ok s"
    and "line \<in> set (cartLines s)" and "ca_comboId line = None"
  shows "placing seats k (line_charge e s (gp_tenantId g) (gp_outletId g) line) s s'"
proof -
  let ?t = "gp_tenantId g"
  have q: "0 < ca_quantity line" using assms(4,5) by (auto simp: carts_ok_def cart_line_wf_def)
  have menu: "menu_ok s" using assms(3) by (simp add: catalogue_ok_def)
  obtain i p where i: "ca_itemId line = Some i"
    and p: "resolveCurrentPrice e s ?t i (ca_variantId line) ORDER_PLACEMENT_PRICE_CHANNEL (Some (gp_outletId g)) = Some p"
    using assms(1) by (auto simp: place_item_def split: option.splits)
  let ?l = "(placed_line e ?t k seats line (ca_quantity line) (ip_priceMinor p))\<lparr>ol_itemId := Some i, ol_variantId := ca_variantId line, ol_note := ca_note line\<rparr>"
  let ?f = "\<lambda>i. map_option mo_priceMinor (find_row mo_id i (modifiers s))"
  obtain j where ins: "insert_line ?l ?f (ca_modifierIds line) s = (j, s')"
    using assms(1) by (auto simp: place_item_def i p Let_def split: prod.splits)
  have pr: "0 \<le> ip_priceMinor p" using current_price_member [OF p] menu by (simp add: menu_ok_def)
  have nn: "\<forall>m \<in> set (modifiers s). 0 \<le> mo_priceMinor m" using menu by (simp add: menu_ok_def)
  have "placing seats k (ol_quantity ?l * (ol_unitPriceMinor ?l + sum_rows (\<lambda>j. nullish (?f j) 0) (ca_modifierIds line))) s s'"
    by (rule insert_placing [OF ins assms(2) _ _ priced_nonneg [OF nn]]) (use q pr in \<open>simp_all add: placed_line_def line_of_def seated_def\<close>)
  moreover have "sum_rows (\<lambda>j. nullish (?f j) 0) ids = sum_rows mo_priceMinor (List.map_filter (\<lambda>i. find_row mo_id i (modifiers s)) ids)" for ids
    by (induction ids) (auto simp: List.map_filter_def split: option.splits)
  ultimately show ?thesis
    using p by (simp add: line_charge_def unit_price_def assms(6) i modifiers_charge_def cart_modifiers_def placed_line_def line_of_def
        CART_PRICE_CHANNEL_def ORDER_PLACEMENT_PRICE_CHANNEL_def)
qed

lemma line_charge_same:
  assumes "modifiers s' = modifiers s" "combos s' = combos s" "itemPrices s' = itemPrices s" "cartLines s' = cartLines s"
  shows "line_charge e s' t out = line_charge e s t out"
proof -
  have so: "slot_options s' = slot_options s" by (simp add: slot_options_def assms)
  have up: "option_upcharge s' = option_upcharge s" by (intro ext) (simp add: option_upcharge_def so split: option.splits)
  have mo: "modifiers_charge s' = modifiers_charge s" by (intro ext) (simp add: modifiers_charge_def cart_modifiers_def assms)
  have ch: "cart_children s' = cart_children s" by (intro ext) (simp add: cart_children_def assms)
  have rc: "resolveCurrentPrice e s' = resolveCurrentPrice e s" by (intro ext) (simp add: resolveCurrentPrice_def assms)
  have pr: "unit_price e s' = unit_price e s" by (intro ext) (simp add: unit_price_def rc split: option.splits)
  show ?thesis by (intro ext) (simp add: line_charge_def up mo ch pr assms split: option.splits)
qed

lemma cart_facts_same:
  assumes "modifiers s' = modifiers s" "combos s' = combos s" "itemPrices s' = itemPrices s" "cartLines s' = cartLines s" "nextId s \<le> nextId s'"
  shows "catalogue_ok s' = catalogue_ok s" "cart_known s' = cart_known s" "carts_ok s \<Longrightarrow> carts_ok s'"
proof -
  show "catalogue_ok s' = catalogue_ok s" using assms by (simp add: catalogue_ok_def menu_ok_def slot_options_def)
  show "cart_known s' = cart_known s" using assms by (simp add: cart_known_def cart_combos_known_def combo_filled_def cart_children_def)
  show "carts_ok s \<Longrightarrow> carts_ok s'" by (rule carts_ok_frame) (use assms in simp_all)
qed

lemma place_lines_effect:
  assumes "r_fold (place_line e g k seats) ls (vs, s) = Inr (vs', s')" and "lines_wf s" and "catalogue_ok s" and "carts_ok s" and "cart_known s"
    and "\<forall>l \<in> set ls. l \<in> set (cartLines s) \<and> ca_tenantId l = gp_tenantId g"
  shows "placing seats k (sum_rows (line_charge e s (gp_tenantId g) (gp_outletId g)) ls) s s'"
  using assms
proof (induction ls arbitrary: vs s)
  case Nil
  then show ?case by (simp add: placing_refl)
next
  case (Cons l ls)
  obtain vs1 s1 where st: "place_line e g k seats l (vs, s) = Inr (vs1, s1)" and rest: "r_fold (place_line e g k seats) ls (vs1, s1) = Inr (vs', s')"
    using Cons.prems(1) by (auto simp: r_bind_eq_Inr)
  have l: "l \<in> set (cartLines s)" "ca_tenantId l = gp_tenantId g" using Cons.prems(6) by simp_all
  have one: "placing seats k (line_charge e s (gp_tenantId g) (gp_outletId g) l) s s1"
  proof (cases "ca_comboId l")
    case None
    then show ?thesis using place_item_effect [OF _ Cons.prems(2-4) l(1) None] st by (simp add: place_line_def)
  next
    case (Some cid)
    then show ?thesis using place_combo_effect [OF _ Cons.prems(2-5) l(1) Some l(2)] st by (simp add: place_line_def)
  qed
  note r = placing_rest [OF one]
  note f = cart_facts_same [OF r(1,2,3,6,12)]
  have "placing seats k (sum_rows (line_charge e s1 (gp_tenantId g) (gp_outletId g)) ls) s1 s'"
    by (rule Cons.IH [OF rest r(11)]) (use Cons.prems(3-6) f r(6) in simp_all)
  then show ?case using placing_trans [OF one] line_charge_same [OF r(1,2,3,6)] by simp
qed

lemma place_lines_keeps:
  assumes "r_fold (place_line e g k seats) ls (vs, s) = Inr (vs', s')" and "lines_wf s" and "catalogue_ok s" and "carts_ok s"
    and "\<forall>l \<in> set ls. l \<in> set (cartLines s)"
  shows "\<exists>r. placing seats k r s s'"
  using assms
proof (induction ls arbitrary: vs s)
  case Nil
  then show ?case using placing_refl by auto
next
  case (Cons l ls)
  obtain vs1 s1 where st: "place_line e g k seats l (vs, s) = Inr (vs1, s1)" and rest: "r_fold (place_line e g k seats) ls (vs1, s1) = Inr (vs', s')"
    using Cons.prems(1) by (auto simp: r_bind_eq_Inr)
  have l: "l \<in> set (cartLines s)" using Cons.prems(5) by simp
  have "\<exists>q. placing seats k q s s1"
  proof (cases "ca_comboId l")
    case None
    then have "place_item e g k seats l (vs, s) = Inr (vs1, s1)" using st by (simp add: place_line_def)
    from place_item_effect [OF this Cons.prems(2-4) l None] show ?thesis by (rule exI)
  next
    case (Some cid)
    then have "place_combo e g k seats l cid (vs, s) = Inr (vs1, s1)" using st by (simp add: place_line_def)
    from place_combo_parts [OF this Cons.prems(2-4) l] show ?thesis using placing_trans by metis
  qed
  then obtain q where one: "placing seats k q s s1" by blast
  note r = placing_rest [OF one]
  note f = cart_facts_same [OF r(1,2,3,6,12)]
  have "\<exists>r. placing seats k r s1 s'"
    by (rule Cons.IH [OF rest r(11)]) (use Cons.prems(3-5) f r(6) in simp_all)
  then show ?case using placing_trans [OF one] by blast
qed

section \<open>Placing the order\<close>

lemma token_for_fields:
  assumes "token_for g ses d = (tok, d1)"
  shows "d1 = d\<lparr>tokenCounters := tokenCounters d1\<rparr>" "ts_tableId ses \<noteq> None \<Longrightarrow> tok = None"
    "ts_tableId ses = None \<Longrightarrow> \<exists>n. tok = Some n \<and> max_token (gp_outletId g) d < n \<and> last_token (gp_outletId g) d < n"
proof -
  show "d1 = d\<lparr>tokenCounters := tokenCounters d1\<rparr>"
    using assms by (auto simp: token_for_def reserveTokenNumber_def Let_def split: if_splits option.splits prod.splits)
  show "tok = None" if "ts_tableId ses \<noteq> None" using assms that by (simp add: token_for_def)
  show "\<exists>n. tok = Some n \<and> max_token (gp_outletId g) d < n \<and> last_token (gp_outletId g) d < n" if "ts_tableId ses = None"
  proof -
    obtain n d2 where "reserveTokenNumber (gp_tenantId g) (gp_outletId g) d = (n, d2)" by fastforce
    with reserveTokenNumber_fields(8,9) [OF this] assms that show ?thesis by (auto simp: token_for_def)
  qed
qed

lemma claim_table_Inr:
  assumes "claim_table e g tab d = Inr d2"
  shows "\<exists>xs as. d2 = d\<lparr>orders := xs, auditEvents := as\<rparr>" "floor_ok d \<Longrightarrow> floor_ok d2"
    "tab = Some t \<Longrightarrow> \<forall>x \<in> set (orders d2). o_tenantId x = gp_tenantId g \<and> o_tableId x = Some t \<longrightarrow> o_status x = o_closed"
    "map o_id (orders d2) = map o_id (orders d)"
proof -
  let ?f = "\<lambda>tab. detachStaleTableOrder e (gp_tenantId g) tab None (''guest:'' @ gp_name g) d"
  have c: "d2 = d \<and> tab = None \<or> (\<exists>x. tab = Some x \<and> d2 = ?f x \<and> \<not> list_ex (\<lambda>y. o_tenantId y = gp_tenantId g \<and> o_tableId y = Some x \<and> o_status y \<noteq> o_closed) (orders (?f x)))"
    using assms by (auto simp: claim_table_def Let_def split: option.splits if_splits)
  show "\<exists>xs as. d2 = d\<lparr>orders := xs, auditEvents := as\<rparr>"
  proof -
    have "\<exists>xs as. ?f x = d\<lparr>orders := xs, auditEvents := as\<rparr>" for x using detachStaleTableOrder_frame by blast
    moreover have "d = d\<lparr>orders := orders d, auditEvents := auditEvents d\<rparr>" by simp
    ultimately show ?thesis using c by metis
  qed
  show "floor_ok d2" if "floor_ok d" using c detach_keeps(1) [OF that] that by auto
  show "\<forall>x \<in> set (orders d2). o_tenantId x = gp_tenantId g \<and> o_tableId x = Some t \<longrightarrow> o_status x = o_closed" if "tab = Some t"
    using c that by (auto simp: list_ex_iff)
  have "map o_id (orders (?f x)) = map o_id (orders d)" for x
  proof -
    obtain p where p: "orders (?f x) = update_rows p (\<lambda>x. x\<lparr>o_tableId := None\<rparr>) (orders d)" using detachStaleTableOrder_orders by blast
    show ?thesis unfolding p by simp
  qed
  then show "map o_id (orders d2) = map o_id (orders d)" using c by auto
qed

lemma placeOrder_Inr:
  assumes "placeOrder e g d = Inr (v, d')"
  obtains ses tok d1 d2 d4 vs d5 where "loadActiveSession e d g = Inr ses" "top_cart_lines d (gp_tenantId g) (ts_id ses) \<noteq> []"
    "token_for g ses d = (tok, d1)" "claim_table e g (ts_tableId ses) d1 = Inr d2"
    "insert_order (guest_order e g ses tok (nextId d2)) (d2\<lparr>nextId := Suc (nextId d2)\<rparr>) = Inr d4"
    "r_fold (place_line e g (nextId d2) (seatByGuest (session_guests d (gp_tenantId g) (ts_id ses)))) (top_cart_lines d (gp_tenantId g) (ts_id ses)) ([], d4) = Inr (vs, d5)"
    "d' = send_placed e g ses (nextId d2) d5" "po_orderId v = nextId d2" "po_tokenNumber v = tok" "po_sessionId v = ts_id ses" "po_tableId v = ts_tableId ses"
    "po_lines v = vs"
proof -
  obtain ses where s: "loadActiveSession e d g = Inr ses" using assms by (cases "loadActiveSession e d g") (simp_all add: placeOrder_def)
  let ?ls = "top_cart_lines d (gp_tenantId g) (ts_id ses)" and ?seats = "seatByGuest (session_guests d (gp_tenantId g) (ts_id ses))"
  have ne: "?ls \<noteq> []" using assms by (auto simp: placeOrder_def s Let_def)
  obtain tok d1 where t: "token_for g ses d = (tok, d1)" by fastforce
  note a1 = assms [unfolded placeOrder_def s r_bind_Inr Let_def if_not_P [OF ne] t prod.case]
  obtain d2 where c: "claim_table e g (ts_tableId ses) d1 = Inr d2" using a1 by (cases "claim_table e g (ts_tableId ses) d1") simp_all
  note a2 = a1 [unfolded c r_bind_Inr take_id_def prod.case]
  obtain d4 where i: "insert_order (guest_order e g ses tok (nextId d2)) (d2\<lparr>nextId := Suc (nextId d2)\<rparr>) = Inr d4"
    using a2 by (cases "insert_order (guest_order e g ses tok (nextId d2)) (d2\<lparr>nextId := Suc (nextId d2)\<rparr>)") simp_all
  note a3 = a2 [unfolded i r_bind_Inr]
  obtain r where r: "r_fold (place_line e g (nextId d2) ?seats) ?ls ([], d4) = Inr r" using a3 by (cases "r_fold (place_line e g (nextId d2) ?seats) ?ls ([], d4)") simp_all
  obtain vs d5 where rr: "r = (vs, d5)" by fastforce
  note a4 = a3 [unfolded r rr r_bind_Inr prod.case]
  show thesis by (rule that [OF s ne t c i r [unfolded rr]]) (use a4 in auto)
qed

definition lines_known :: "db \<Rightarrow> bool" where
  "lines_known d \<longleftrightarrow> (\<forall>l \<in> set (orderLines d). \<exists>x \<in> set (orders d). o_id x = ol_orderId l)"

lemma fresh_order_lines:
  assumes "floor_ok d" and "lines_known d" and "l \<in> set (orderLines d)"
  shows "ol_orderId l \<noteq> nextId d"
proof -
  obtain x where x: "x \<in> set (orders d)" "o_id x = ol_orderId l" using assms(2,3) by (auto simp: lines_known_def)
  have "o_id x < nextId d" using assms(1) x(1) by (auto simp: floor_ok_def keys_ok_def)
  with x(2) show ?thesis by simp
qed

text \<open>The state in which the lines are written: the order is there, and everything the cart needs is as it was.\<close>

lemma order_written:
  assumes "token_for g ses d = (tok, d1)" and "claim_table e g tab d1 = Inr d2"
    and "insert_order x (d2\<lparr>nextId := Suc (nextId d2)\<rparr>) = Inr d4" and "o_id x = nextId d2" and "floor_ok d"
  shows "nextId d2 = nextId d" "\<exists>m xs as. d4 = d\<lparr>tokenCounters := m, orders := xs, auditEvents := as, nextId := Suc (nextId d)\<rparr>" "floor_ok d2" "floor_ok d4"
    "orders d4 = orders d2 @ [x]" "map o_id (orders d2) = map o_id (orders d)"
proof -
  obtain m where t: "d1 = d\<lparr>tokenCounters := m\<rparr>" using token_for_fields(1) [OF assms(1)] by blast
  obtain xs as where c: "d2 = d1\<lparr>orders := xs, auditEvents := as\<rparr>" using claim_table_Inr(1) [OF assms(2)] by blast
  have same: "nextId d1 = nextId d" "orders d1 = orders d" by (simp_all add: t)
  show n: "nextId d2 = nextId d" using same c by simp
  have f1: "floor_ok d1" using assms(5) same by (simp add: floor_ok_def)
  show f2: "floor_ok d2" by (rule claim_table_Inr(2) [OF assms(2) f1])
  have i: "d4 = d2\<lparr>nextId := Suc (nextId d2), orders := orders d2 @ [x]\<rparr>" using assms(3) by (simp add: insert_order_Inr)
  show "floor_ok d4" by (rule insert_order_keeps [OF assms(3) f2 assms(4)])
  show "orders d4 = orders d2 @ [x]" using i by simp
  show "map o_id (orders d2) = map o_id (orders d)" using claim_table_Inr(4) [OF assms(2)] same by simp
  have "d4 = d\<lparr>tokenCounters := m, orders := xs @ [x], auditEvents := as, nextId := Suc (nextId d)\<rparr>" by (simp add: i c t)
  then show "\<exists>m xs as. d4 = d\<lparr>tokenCounters := m, orders := xs, auditEvents := as, nextId := Suc (nextId d)\<rparr>" by blast
qed

lemma send_placed_fields:
  "orderLines (send_placed e g ses k d) = orderLines d"
  "orders (send_placed e g ses k d) = update_rows (\<lambda>x. o_id x = k) (\<lambda>x. x\<lparr>o_status := o_sent\<rparr>) (orders d)"
  "cartLines (send_placed e g ses k d) = filter (\<lambda>l. \<not> (ca_tenantId l = gp_tenantId g \<and> ca_sessionId l = ts_id ses)) (cartLines d)"
  "nextId d \<le> nextId (send_placed e g ses k d)" "fireable_lines (send_placed e g ses k d) k = []"
proof -
  let ?d0 = "set_order k (\<lambda>x. x\<lparr>o_status := o_sent\<rparr>) d"
  obtain n d1 where f: "fireOnSend e k (gp_tenantId g) (gp_outletId g) ?d0 = (n, d1)" by fastforce
  have p: "send_placed e g ses k d = d1\<lparr>cartLines := filter (\<lambda>l. \<not> (ca_tenantId l = gp_tenantId g \<and> ca_sessionId l = ts_id ses)) (cartLines d1)\<rparr>"
    by (simp add: send_placed_def f)
  have only: "orderLines d1 = orderLines ?d0" "orders d1 = orders ?d0" "cartLines d1 = cartLines ?d0" by (subst fireOnSend_fire_only [OF f], simp)+
  show "orderLines (send_placed e g ses k d) = orderLines d" "cartLines (send_placed e g ses k d) = filter (\<lambda>l. \<not> (ca_tenantId l = gp_tenantId g \<and> ca_sessionId l = ts_id ses)) (cartLines d)"
    "orders (send_placed e g ses k d) = update_rows (\<lambda>x. o_id x = k) (\<lambda>x. x\<lparr>o_status := o_sent\<rparr>) (orders d)"
    by (simp_all add: p only set_order_def)
  show "nextId d \<le> nextId (send_placed e g ses k d)"
    using fireOnSend_nextId [of ?d0 e k "gp_tenantId g" "gp_outletId g"] unfolding f by (simp add: p set_order_def)
  have "fireable_lines d1 k = []" using fireOnSend_exhausts [of e k "gp_tenantId g" "gp_outletId g" ?d0] by (simp add: f)
  moreover have "line_item (d1\<lparr>cartLines := c\<rparr>) = line_item d1" for c by (intro ext) (simp add: line_item_def split: option.splits)
  ultimately show "fireable_lines (send_placed e g ses k d) k = []" by (simp add: p fireable_lines_def)
qed

lemma cart_lines_placeable: "\<forall>l \<in> set (top_cart_lines d t sid). l \<in> set (cartLines d) \<and> ca_tenantId l = t"
  by (simp add: top_cart_lines_def)

lemma placeOrder_effect:
  assumes "placeOrder e g d = Inr (v, d')" and "lines_wf d" and "catalogue_ok d" and "carts_ok d" and "cart_known d" and "floor_ok d" and "lines_known d"
  obtains ses x os as where "loadActiveSession e d g = Inr ses" "po_orderId v = nextId d"
    "computeSubtotal d' (nextId d) = sum_rows (line_charge e d (gp_tenantId g) (gp_outletId g)) (top_cart_lines d (gp_tenantId g) (ts_id ses))"
    "orders d' = os @ [x]" "x = (guest_order e g ses (po_tokenNumber v) (nextId d))\<lparr>o_status := o_sent\<rparr>" "map o_id os = map o_id (orders d)"
    "\<And>t y. ts_tableId ses = Some t \<Longrightarrow> y \<in> set os \<Longrightarrow> o_tenantId y = gp_tenantId g \<Longrightarrow> o_tableId y = Some t \<Longrightarrow> o_status y = o_closed"
    "cartLines d' = filter (\<lambda>l. \<not> (ca_tenantId l = gp_tenantId g \<and> ca_sessionId l = ts_id ses)) (cartLines d)"
    "\<And>l. l \<in> set (orderLines d') \<Longrightarrow> l \<notin> set (orderLines d) \<Longrightarrow>
       ol_orderId l = nextId d \<and> seated (seatByGuest (session_guests d (gp_tenantId g) (ts_id ses))) l"
    "fireable_lines d' (nextId d) = []" "lines_wf d'" "floor_ok d'" "set (orderLines d) \<subseteq> set (orderLines d')"
    "filter (\<lambda>l. ol_orderId l \<noteq> nextId d) (orderLines d') = filter (\<lambda>l. ol_orderId l \<noteq> nextId d) (orderLines d)"
    "ts_tableId ses \<noteq> None \<Longrightarrow> po_tokenNumber v = None"
    "ts_tableId ses = None \<Longrightarrow> \<exists>n. po_tokenNumber v = Some n \<and> max_token (gp_outletId g) d < n"
proof -
  obtain ses tok d1 d2 d4 vs d5 where c: "loadActiveSession e d g = Inr ses" "top_cart_lines d (gp_tenantId g) (ts_id ses) \<noteq> []"
    "token_for g ses d = (tok, d1)" "claim_table e g (ts_tableId ses) d1 = Inr d2"
    "insert_order (guest_order e g ses tok (nextId d2)) (d2\<lparr>nextId := Suc (nextId d2)\<rparr>) = Inr d4"
    "r_fold (place_line e g (nextId d2) (seatByGuest (session_guests d (gp_tenantId g) (ts_id ses)))) (top_cart_lines d (gp_tenantId g) (ts_id ses)) ([], d4) = Inr (vs, d5)"
    "d' = send_placed e g ses (nextId d2) d5" "po_orderId v = nextId d2" "po_tokenNumber v = tok"
    using placeOrder_Inr [OF assms(1)] by metis
  let ?ls = "top_cart_lines d (gp_tenantId g) (ts_id ses)" and ?seats = "seatByGuest (session_guests d (gp_tenantId g) (ts_id ses))"
  have oid: "o_id (guest_order e g ses tok (nextId d2)) = nextId d2" by (simp add: guest_order_def)
  note w = order_written [OF c(3,4,5) oid assms(6)]
  obtain m xs as where d4: "d4 = d\<lparr>tokenCounters := m, orders := xs, auditEvents := as, nextId := Suc (nextId d)\<rparr>" using w(2) by blast
  have wf4: "lines_wf d4"
    using assms(2) keys_ok_mono [of "nextId d" "map ol_id (orderLines d)" "Suc (nextId d)"] unfolding lines_wf_def d4 by (auto simp: less_Suc_eq)
  have f4: "catalogue_ok d4" "cart_known d4" "carts_ok d4"
    using cart_facts_same [of d4 d] assms(3-5) by (simp_all add: d4)
  have pl: "placing ?seats (nextId d) (sum_rows (line_charge e d4 (gp_tenantId g) (gp_outletId g)) ?ls) d4 d5"
    by (rule place_lines_effect [OF c(6) [unfolded w(1)] wf4 f4(1) f4(3) f4(2)]) (use cart_lines_placeable in \<open>simp add: d4\<close>)
  have ch: "line_charge e d4 (gp_tenantId g) (gp_outletId g) = line_charge e d (gp_tenantId g) (gp_outletId g)" by (rule line_charge_same) (simp_all add: d4)
  have zero: "computeSubtotal d4 (nextId d) = 0"
    using fresh_order_lines [OF assms(6,7)] by (auto simp: computeSubtotal_sum live_lines_def d4 sum_rows_def filter_empty_conv)
  note sf = send_placed_fields [where e = e and g = g and ses = ses and k = "nextId d" and d = d5, folded c(7) [unfolded w(1)]]
  note r5 = placing_rest [OF pl]
  have k5: "k \<in> o_id ` set (orders d) \<Longrightarrow> k < nextId d" for k using assms(6) by (auto simp: floor_ok_def keys_ok_def)
  let ?x = "guest_order e g ses tok (nextId d)"
  have "update_rows (\<lambda>x. o_id x = nextId d) (\<lambda>x. x\<lparr>o_status := o_sent\<rparr>) (orders d2) = orders d2"
    unfolding update_rows_def by (rule map_idI) (use k5 w(6) in \<open>metis (no_types, lifting) image_eqI image_set less_irrefl\<close>)
  then have os: "orders d' = orders d2 @ [?x\<lparr>o_status := o_sent\<rparr>]"
    using w(5) oid by (simp add: sf(2) r5(7) w(1) update_rows_def)
  have lines: "orderLines d' = orderLines d5" by (rule sf(1))
  have sub: "computeSubtotal d' (nextId d) = sum_rows (line_charge e d (gp_tenantId g) (gp_outletId g)) ?ls"
    using pl zero by (simp add: placing_def ch computeSubtotal_def live_lines_def lines)
  have ed: "edits_lines (nextId d) d4 d5" using pl by (simp add: placing_def)
  have others: "filter (\<lambda>l. ol_orderId l \<noteq> nextId d) (orderLines d') = filter (\<lambda>l. ol_orderId l \<noteq> nextId d) (orderLines d)"
    using ed by (simp add: edits_lines_def lines d4)
  have new: "ol_orderId l = nextId d \<and> seated ?seats l" if "l \<in> set (orderLines d')" "l \<notin> set (orderLines d)" for l
  proof -
    have "seated ?seats l" using pl that by (auto simp: placing_def lines d4)
    moreover have "ol_orderId l = nextId d"
    proof (rule ccontr)
      assume "ol_orderId l \<noteq> nextId d"
      with that(1) have "l \<in> set (filter (\<lambda>l. ol_orderId l \<noteq> nextId d) (orderLines d))" unfolding others [symmetric] by simp
      with that(2) show False by simp
    qed
    ultimately show ?thesis by simp
  qed
  have wf': "lines_wf d'"
    using r5(11) keys_ok_mono [of "nextId d5" "map ol_id (orderLines d5)" "nextId d'"] sf(4) unfolding lines_wf_def lines by fastforce
  have fl: "floor_ok d'"
  proof -
    have "floor_ok d5" by (rule edits_lines_keeps(3) [OF ed w(4)])
    moreover have "orders d5 = orders d2 @ [?x]" using r5(7) w(1,5) by simp
    moreover have "nextId d5 \<le> nextId d'" by (rule sf(4))
    moreover have "held_tables (orders d2 @ [?x]) = held_tables (orders d2 @ [?x\<lparr>o_status := o_sent\<rparr>])"
      by (simp add: held_tables_def holds_table_def guest_order_def)
    ultimately show ?thesis using os by (auto simp: floor_ok_def intro: keys_ok_mono)
  qed
  have keep: "set (orderLines d) \<subseteq> set (orderLines d')" using pl by (simp add: placing_def lines d4)
  show thesis
  proof (rule that [OF c(1)])
    show "po_orderId v = nextId d" using c(8) w(1) by simp
    show "orders d' = orders d2 @ [?x\<lparr>o_status := o_sent\<rparr>]" by (rule os)
    show "?x\<lparr>o_status := o_sent\<rparr> = (guest_order e g ses (po_tokenNumber v) (nextId d))\<lparr>o_status := o_sent\<rparr>" by (simp add: c(9))
    show "map o_id (orders d2) = map o_id (orders d)" by (rule w(6))
    show "o_status y = o_closed" if "ts_tableId ses = Some t" "y \<in> set (orders d2)" "o_tenantId y = gp_tenantId g" "o_tableId y = Some t" for t y
      using claim_table_Inr(3) [OF c(4) that(1)] that by blast
    show "cartLines d' = filter (\<lambda>l. \<not> (ca_tenantId l = gp_tenantId g \<and> ca_sessionId l = ts_id ses)) (cartLines d)"
      by (simp add: sf(3) r5(6) d4)
    show "po_tokenNumber v = None" if "ts_tableId ses \<noteq> None" using token_for_fields(2) [OF c(3) that] c(9) by simp
    show "\<exists>n. po_tokenNumber v = Some n \<and> max_token (gp_outletId g) d < n" if "ts_tableId ses = None"
      using token_for_fields(3) [OF c(3) that] c(9) by auto
  qed (fact sub new sf(5) wf' fl keep others)+
qed

lemma placing_edits: "placing seats k r s s' \<Longrightarrow> edits_lines k s s'"
  by (simp add: placing_def)

text \<open>What placing a cart may touch, whatever the cart holds.\<close>

definition only_placed :: "db \<Rightarrow> db \<Rightarrow> bool" where
  "only_placed d d' \<longleftrightarrow> (\<exists>n m xs as ls ts tls es cs. nextId d \<le> n \<and>
     d' = d\<lparr>nextId := n, tokenCounters := m, orders := xs, auditEvents := as, orderLines := ls, tickets := ts, ticketLines := tls,
       ticketEvents := es, cartLines := cs\<rparr>)"

lemma send_placed_only:
  "\<exists>n xs ts tls es cs. send_placed e g ses k d = d\<lparr>nextId := n, orders := xs, tickets := ts, ticketLines := tls, ticketEvents := es, cartLines := cs\<rparr>"
proof -
  let ?d0 = "set_order k (\<lambda>x. x\<lparr>o_status := o_sent\<rparr>) d"
  obtain n d1 where f: "fireOnSend e k (gp_tenantId g) (gp_outletId g) ?d0 = (n, d1)" by fastforce
  obtain m ts tls es where d1: "d1 = ?d0\<lparr>nextId := m, tickets := ts, ticketLines := tls, ticketEvents := es\<rparr>" using fireOnSend_fire_only [OF f] by blast
  have "send_placed e g ses k d = d1\<lparr>cartLines := filter (\<lambda>l. \<not> (ca_tenantId l = gp_tenantId g \<and> ca_sessionId l = ts_id ses)) (cartLines d1)\<rparr>"
    by (simp add: send_placed_def f)
  also have "\<dots> = d\<lparr>nextId := m, orders := update_rows (\<lambda>x. o_id x = k) (\<lambda>x. x\<lparr>o_status := o_sent\<rparr>) (orders d), tickets := ts, ticketLines := tls,
      ticketEvents := es, cartLines := filter (\<lambda>l. \<not> (ca_tenantId l = gp_tenantId g \<and> ca_sessionId l = ts_id ses)) (cartLines d)\<rparr>"
    by (simp add: d1 set_order_def)
  finally show ?thesis by blast
qed

lemma placeOrder_keeps:
  assumes "placeOrder e g d = Inr (v, d')" and "lines_wf d" and "catalogue_ok d" and "carts_ok d" and "floor_ok d"
  shows "lines_wf d'" "floor_ok d'" "only_placed d d'"
    "\<exists>ses :: table_session. cartLines d' = filter (\<lambda>l. \<not> (ca_tenantId l = gp_tenantId g \<and> ca_sessionId l = ts_id ses)) (cartLines d)"
proof -
  obtain ses tok d1 d2 d4 vs d5 where c: "token_for g ses d = (tok, d1)" "claim_table e g (ts_tableId ses) d1 = Inr d2"
    "insert_order (guest_order e g ses tok (nextId d2)) (d2\<lparr>nextId := Suc (nextId d2)\<rparr>) = Inr d4"
    "r_fold (place_line e g (nextId d2) (seatByGuest (session_guests d (gp_tenantId g) (ts_id ses)))) (top_cart_lines d (gp_tenantId g) (ts_id ses)) ([], d4) = Inr (vs, d5)"
    "d' = send_placed e g ses (nextId d2) d5"
    using placeOrder_Inr [OF assms(1)] by metis
  have oid: "o_id (guest_order e g ses tok (nextId d2)) = nextId d2" by (simp add: guest_order_def)
  note w = order_written [OF c(1,2,3) oid assms(5)]
  obtain m xs as where d4: "d4 = d\<lparr>tokenCounters := m, orders := xs, auditEvents := as, nextId := Suc (nextId d)\<rparr>" using w(2) by blast
  have wf4: "lines_wf d4"
    using assms(2) keys_ok_mono [of "nextId d" "map ol_id (orderLines d)" "Suc (nextId d)"] unfolding lines_wf_def d4 by (auto simp: less_Suc_eq)
  have f4: "catalogue_ok d4" "carts_ok d4" using cart_facts_same [of d4 d] assms(3,4) by (simp_all add: d4)
  obtain r where pl: "placing (seatByGuest (session_guests d (gp_tenantId g) (ts_id ses))) (nextId d) r d4 d5"
    using place_lines_keeps [OF c(4) [unfolded w(1)] wf4 f4] cart_lines_placeable by (force simp: d4)
  obtain n ls where d5: "d5 = d4\<lparr>nextId := n, orderLines := ls\<rparr>" using pl by (auto simp: placing_def)
  have mono: "nextId d \<le> nextId d5" using placing_rest(12) [OF pl] by (simp add: d4)
  note sf = send_placed_fields [where e = e and g = g and ses = ses and k = "nextId d2" and d = d5, folded c(5)]
  show "lines_wf d'"
    using placing_rest(11) [OF pl] keys_ok_mono [of "nextId d5" "map ol_id (orderLines d5)" "nextId d'"] sf(4) unfolding lines_wf_def sf(1) by fastforce
  obtain n6 xs6 ts tls es cs where s: "d' = d5\<lparr>nextId := n6, orders := xs6, tickets := ts, ticketLines := tls, ticketEvents := es, cartLines := cs\<rparr>"
    using send_placed_only c(5) by metis
  have n6: "nextId d \<le> n6" using mono sf(4) s by simp
  have "d' = d\<lparr>nextId := n6, tokenCounters := m, orders := xs6, auditEvents := as, orderLines := ls, tickets := ts, ticketLines := tls, ticketEvents := es, cartLines := cs\<rparr>"
    by (simp add: s d5 d4)
  with n6 show "only_placed d d'" unfolding only_placed_def by blast
  show "\<exists>ses :: table_session. cartLines d' = filter (\<lambda>l. \<not> (ca_tenantId l = gp_tenantId g \<and> ca_sessionId l = ts_id ses)) (cartLines d)"
    by (rule exI [of _ ses]) (simp add: sf(3) placing_rest(6) [OF pl] d4)
  have f5: "floor_ok d5" by (rule edits_lines_keeps(3) [OF placing_edits [OF pl] w(4)])
  have o5: "orders d5 = orders d2 @ [guest_order e g ses tok (nextId d2)]" using placing_rest(7) [OF pl] w(5) by simp
  show "floor_ok d'"
  proof (rule floor_ok_update [OF f5 sf(2) sf(4)])
    fix x assume x: "x \<in> set (orders d5)" "o_id x = nextId d2"
    have "nextId d2 \<notin> o_id ` set (orders d2)" using fresh_order_id [OF w(3)] .
    with x o5 have "x = guest_order e g ses tok (nextId d2)" by (auto simp: image_iff)
    then show "holds_table x \<and> o_tableId (x\<lparr>o_status := o_sent\<rparr>) = o_tableId x" if "holds_table (x\<lparr>o_status := o_sent\<rparr>)"
      using that by (simp add: holds_table_def guest_order_def)
  qed simp
qed

lemma carts_ok_clear:
  assumes "carts_ok d" and "cartLines d' = filter (\<lambda>l. \<not> (ca_tenantId l = t \<and> ca_sessionId l = k)) (cartLines d)" and "nextId d \<le> nextId d'"
  shows "carts_ok d'"
proof -
  let ?p = "\<lambda>l. \<not> (ca_tenantId l = t \<and> ca_sessionId l = k)"
  have keys: "keys_ok (nextId d') (map ca_id (filter ?p (cartLines d)))"
    using assms(1,3) by (auto simp: carts_ok_def keys_ok_def distinct_map_filter)
  have wf: "\<forall>l \<in> set (filter ?p (cartLines d)). cart_line_wf l" using assms(1) by (simp add: carts_ok_def)
  have "\<exists>p \<in> set (filter ?p (cartLines d)). pick_of p c" if c: "c \<in> set (filter ?p (cartLines d))" "ca_parentLineId c \<noteq> None" for c
  proof -
    obtain p where p: "p \<in> set (cartLines d)" "pick_of p c" using assms(1) c by (auto simp: carts_ok_def)
    from p(2) have "ca_tenantId c = ca_tenantId p" "ca_sessionId c = ca_sessionId p" by (simp_all add: pick_of_def)
    then have "p \<in> set (filter ?p (cartLines d))" using p(1) c(1) by simp
    with p(2) show ?thesis by blast
  qed
  then show ?thesis using keys wf by (simp only: carts_ok_def assms(2)) blast
qed

text \<open>C24: What the table is charged is what its shared cart showed: when the cart view answers and the order is then placed
  in the same state, the subtotal the new order will be billed on is the cart's total, with every combo pick, surcharge,
  modifier and quantity accounted for although the two are computed by different code over different rows.\<close>

theorem placeOrder_charges_cart:
  assumes "getCart e g d = Inr (c, d)" and "placeOrder e g d = Inr (v, d')"
    and "lines_wf d" and "catalogue_ok d" and "carts_ok d" and "cart_known d" and "floor_ok d" and "lines_known d"
  shows "computeSubtotal d' (po_orderId v) = tv_totalMinor c"
proof (rule placeOrder_effect [OF assms(2-8)])
  fix ses :: table_session
  assume s: "loadActiveSession e d g = Inr ses" and k: "po_orderId v = nextId d"
    and sub: "computeSubtotal d' (nextId d) = sum_rows (line_charge e d (gp_tenantId g) (gp_outletId g)) (top_cart_lines d (gp_tenantId g) (ts_id ses))"
  have "cart_combos_known d" using assms(6) by (simp add: cart_known_def)
  from buildCartView_total [OF assms(5) this, of e "gp_tenantId g" "gp_outletId g" ses] assms(1) s
  have "tv_totalMinor c = sum_rows (line_charge e d (gp_tenantId g) (gp_outletId g)) (top_cart_lines d (gp_tenantId g) (ts_id ses))"
    by (auto simp: getCart_def cart_reply_Inr)
  then show ?thesis by (simp add: k sub)
qed

text \<open>Placing the cart opens one new order and nothing else: it is already sent, belongs to the session and its table,
  everything on it that has a kitchen item is on a ticket, each of its lines sits at the seat of the guest who put it in the cart, no other
  order at the table is live, a kiosk order's token is above every token of the outlet, exactly the session's cart is
  emptied, and the lines of every other order are untouched.\<close>

theorem placeOrder_order:
  assumes "placeOrder e g d = Inr (v, d')" and "lines_wf d" and "catalogue_ok d" and "carts_ok d" and "cart_known d" and "floor_ok d" and "lines_known d"
  shows "\<exists>ses x os. loadActiveSession e d g = Inr ses \<and> orders d' = os @ [x] \<and> map o_id os = map o_id (orders d) \<and>
    o_id x = po_orderId v \<and> o_id x \<notin> o_id ` set os \<and> o_status x = o_sent \<and> o_sessionId x = Some (ts_id ses) \<and> o_tableId x = ts_tableId ses \<and>
    (\<forall>t. ts_tableId ses = Some t \<longrightarrow> o_tokenNumber x = None \<and> (\<forall>y \<in> set os. o_tenantId y = gp_tenantId g \<and> o_tableId y = Some t \<longrightarrow> o_status y = o_closed)) \<and>
    (ts_tableId ses = None \<longrightarrow> (\<exists>n. o_tokenNumber x = Some n \<and> max_token (gp_outletId g) d < n)) \<and>
    fireable_lines d' (o_id x) = [] \<and>
    (\<forall>l \<in> set (orderLines d'). ol_orderId l = o_id x \<longrightarrow> seated (seatByGuest (session_guests d (gp_tenantId g) (ts_id ses))) l) \<and>
    filter (\<lambda>l. ol_orderId l \<noteq> o_id x) (orderLines d') = orderLines d \<and>
    cartLines d' = filter (\<lambda>l. \<not> (ca_tenantId l = gp_tenantId g \<and> ca_sessionId l = ts_id ses)) (cartLines d) \<and> floor_ok d' \<and> lines_wf d'"
proof (rule placeOrder_effect [OF assms])
  fix ses :: table_session and x os
  let ?seats = "seatByGuest (session_guests d (gp_tenantId g) (ts_id ses))"
  assume f: "loadActiveSession e d g = Inr ses" "po_orderId v = nextId d" "orders d' = os @ [x]"
    "x = (guest_order e g ses (po_tokenNumber v) (nextId d))\<lparr>o_status := o_sent\<rparr>" "map o_id os = map o_id (orders d)"
    "\<And>t y. ts_tableId ses = Some t \<Longrightarrow> y \<in> set os \<Longrightarrow> o_tenantId y = gp_tenantId g \<Longrightarrow> o_tableId y = Some t \<Longrightarrow> o_status y = o_closed"
    "cartLines d' = filter (\<lambda>l. \<not> (ca_tenantId l = gp_tenantId g \<and> ca_sessionId l = ts_id ses)) (cartLines d)"
    "\<And>l. l \<in> set (orderLines d') \<Longrightarrow> l \<notin> set (orderLines d) \<Longrightarrow> ol_orderId l = nextId d \<and> seated ?seats l"
    "fireable_lines d' (nextId d) = []" "lines_wf d'" "floor_ok d'"
    "filter (\<lambda>l. ol_orderId l \<noteq> nextId d) (orderLines d') = filter (\<lambda>l. ol_orderId l \<noteq> nextId d) (orderLines d)"
    "ts_tableId ses \<noteq> None \<Longrightarrow> po_tokenNumber v = None" "ts_tableId ses = None \<Longrightarrow> \<exists>n. po_tokenNumber v = Some n \<and> max_token (gp_outletId g) d < n"
  have x: "o_id x = nextId d" "o_status x = o_sent" "o_sessionId x = Some (ts_id ses)" "o_tableId x = ts_tableId ses" "o_tokenNumber x = po_tokenNumber v"
    by (simp_all add: f(4) guest_order_def)
  have old: "filter (\<lambda>l. ol_orderId l \<noteq> nextId d) (orderLines d) = orderLines d"
    using fresh_order_lines [OF assms(6,7)] by (simp add: filter_id_conv)
  have fresh: "nextId d \<notin> o_id ` set os"
    using fresh_order_id [OF assms(6)] f(5) by (metis set_map)
  have seats: "\<forall>l \<in> set (orderLines d'). ol_orderId l = nextId d \<longrightarrow> seated ?seats l"
    using f(8) fresh_order_lines [OF assms(6,7)] by blast
  show ?thesis
    by (rule exI [of _ ses], rule exI [of _ x], rule exI [of _ os]) (use f x old fresh seats in \<open>auto\<close>)
qed

section \<open>The sample table orders\<close>

definition s_db_place :: db where
  "s_db_place = s_db_cart\<lparr>guests := [\<lparr>gu_id = 87, gu_tenantId = 1, gu_sessionId = 86, gu_name = ''Ravi'', gu_phone = Some ''9876543210'', gu_joinedAt = 997000000\<rparr>,
     \<lparr>gu_id = 88, gu_tenantId = 1, gu_sessionId = 86, gu_name = ''Mira'', gu_phone = Some ''9876500000'', gu_joinedAt = 997100000\<rparr>]\<rparr>"

lemma place_sample: "\<exists>v d. placeOrder s_env (s_diner 87 ''Ravi'') s_db_place = Inr (v, d)"
  by (simp add: placeOrder_def token_for_def claim_table_def insert_order_def guest_order_def place_line_def place_item_def place_combo_def pick_selections.simps
      place_child_def line_view_def placed_line_def line_of_def insert_line_def take_id_def new_modifiers_def session_guests_def seatByGuest_def
      ORDER_PLACEMENT_PRICE_CHANNEL_def s_db_place_def table_eval combo_eval cart_eval sample_defs enumerate_eq_zip upt_rec)

lemma s_db_place_ok: "lines_wf s_db_place" "catalogue_ok s_db_place" "carts_ok s_db_place" "cart_known s_db_place" "floor_ok s_db_place" "lines_known s_db_place"
proof -
  show "carts_ok s_db_place" by (rule carts_ok_frame [OF s_db_cart_ok(1)]) (simp_all add: s_db_place_def)
  have "cart_combos_known s_db_place" using s_db_cart_ok(2) by (simp add: cart_combos_known_def s_db_place_def)
  then show "cart_known s_db_place"
    by (simp add: cart_known_def combo_filled_def cart_children_def find_row_def s_db_place_def s_db_cart_def s_db_qr_def s_cart_line_def sample_defs)
  show "catalogue_ok s_db_place"
    using s_db_cart_ok(3) by (simp add: catalogue_ok_def menu_ok_def slot_options_def s_db_place_def s_db_cart_def s_db_qr_def sample_defs)
  show "lines_wf s_db_place" "floor_ok s_db_place" "lines_known s_db_place"
    by (simp_all add: lines_wf_def floor_ok_def lines_known_def keys_ok_def held_tables_def s_db_place_def s_db_cart_def s_db_qr_def sample_defs)
qed

lemma place_session: "loadActiveSession s_env s_db_place (s_diner 87 ''Ravi'') = Inr s_session"
  by (simp add: s_db_place_def cart_eval sample_defs)

lemma place_cart_sample: "\<exists>c. getCart s_env (s_diner 87 ''Ravi'') s_db_place = Inr (c, s_db_place) \<and> tv_totalMinor c = 63990"
  by (simp add: getCart_def s_db_place_def cart_eval sample_defs)

theorem placeOrder_charges_cart_witness:
  "\<exists>v d. placeOrder s_env (s_diner 87 ''Ravi'') s_db_place = Inr (v, d) \<and> computeSubtotal d (po_orderId v) = 63990"
proof -
  obtain v d where p: "placeOrder s_env (s_diner 87 ''Ravi'') s_db_place = Inr (v, d)" using place_sample by (elim exE)
  obtain c where c: "getCart s_env (s_diner 87 ''Ravi'') s_db_place = Inr (c, s_db_place)" "tv_totalMinor c = 63990"
    using place_cart_sample by (elim exE conjE)
  from placeOrder_charges_cart [OF c(1) p s_db_place_ok] p c(2) show ?thesis by simp
qed

theorem placeOrder_order_witness:
  "\<exists>v d x. placeOrder s_env (s_diner 87 ''Ravi'') s_db_place = Inr (v, d) \<and> orders d = [x] \<and> o_status x = o_sent \<and> o_tableId x = Some 30 \<and>
     cartLines d = []"
proof -
  obtain v d where p: "placeOrder s_env (s_diner 87 ''Ravi'') s_db_place = Inr (v, d)" using place_sample by (elim exE)
  from placeOrder_order [OF p s_db_place_ok]
  obtain x os where x: "orders d = os @ [x]" "map o_id os = map o_id (orders s_db_place)" "o_status x = o_sent" "o_tableId x = ts_tableId s_session"
    "cartLines d = filter (\<lambda>l. \<not> (ca_tenantId l = 1 \<and> ca_sessionId l = 86)) (cartLines s_db_place)"
    unfolding place_session by (auto simp: s_diner_def s_session_def)
  have "os = []" using x(2) by (simp add: s_db_place_def s_db_cart_def s_db_qr_def sample_defs)
  moreover have "cartLines d = []" using x(5) by (simp add: s_db_place_def s_db_cart_def s_cart_line_def)
  ultimately show ?thesis using p x by (simp add: s_session_def)
qed

end
