(* ===== verification/Footprint.thy ===== *)
theory Footprint
  imports GuestBills GuestOrders
begin

text \<open>
  Which tables a handler writes. \<open>only ts d d'\<close> says that the handler left every table outside \<open>ts\<close>
  as it was and only took fresh identifiers; it composes along the calls a handler makes, and each
  invariant of a component is kept by whatever does not write its tables. The tables without an entry
  in \<open>tbl\<close> (the audit log, the kitchen's tickets, print jobs, counters and guests) are in no invariant
  that spans components, and every handler may write them.
\<close>

datatype tbl = T_bills | T_tenders | T_notes | T_orders | T_lines | T_intents | T_menu | T_shifts | T_sessions | T_shares | T_carts

fun same_table :: "tbl \<Rightarrow> db \<Rightarrow> db \<Rightarrow> bool" where
  "same_table T_bills d d' \<longleftrightarrow> bills d' = bills d \<and> billCounters d' = billCounters d"
| "same_table T_tenders d d' \<longleftrightarrow> tenders d' = tenders d"
| "same_table T_notes d d' \<longleftrightarrow> creditNotes d' = creditNotes d"
| "same_table T_orders d d' \<longleftrightarrow> orders d' = orders d"
| "same_table T_lines d d' \<longleftrightarrow> orderLines d' = orderLines d"
| "same_table T_intents d d' \<longleftrightarrow> intents d' = intents d"
| "same_table T_menu d d' \<longleftrightarrow> itemPrices d' = itemPrices d \<and> modifiers d' = modifiers d \<and> combos d' = combos d"
| "same_table T_shifts d d' \<longleftrightarrow> shifts d' = shifts d"
| "same_table T_sessions d d' \<longleftrightarrow> tableSessions d' = tableSessions d"
| "same_table T_shares d d' \<longleftrightarrow> billShares d' = billShares d"
| "same_table T_carts d d' \<longleftrightarrow> cartLines d' = cartLines d"

definition only :: "tbl set \<Rightarrow> db \<Rightarrow> db \<Rightarrow> bool" where
  "only ts d d' \<longleftrightarrow> nextId d \<le> nextId d' \<and> (\<forall>t. t \<notin> ts \<longrightarrow> same_table t d d')"

named_theorems footprint

lemma only_refl [footprint]: "only ts d d"
proof -
  have "same_table t d d" for t by (cases t) simp_all
  then show ?thesis by (simp add: only_def)
qed

lemma same_table_trans: "same_table t a b \<Longrightarrow> same_table t b c \<Longrightarrow> same_table t a c"
  by (cases t) simp_all

lemma only_trans: "only ts a b \<Longrightarrow> only us b c \<Longrightarrow> ts \<subseteq> vs \<Longrightarrow> us \<subseteq> vs \<Longrightarrow> only vs a c"
  unfolding only_def using same_table_trans by (meson order_trans subsetD)

lemma only_mono: "only ts a b \<Longrightarrow> ts \<subseteq> us \<Longrightarrow> only us a b"
  unfolding only_def by blast

text \<open>A handler's footprint is read off its new state, table by table.\<close>

lemma onlyI:
  assumes "nextId d \<le> nextId d'"
    and "T_bills \<notin> ts \<Longrightarrow> bills d' = bills d" "T_bills \<notin> ts \<Longrightarrow> billCounters d' = billCounters d" "T_tenders \<notin> ts \<Longrightarrow> tenders d' = tenders d"
    and "T_notes \<notin> ts \<Longrightarrow> creditNotes d' = creditNotes d" "T_orders \<notin> ts \<Longrightarrow> orders d' = orders d" "T_lines \<notin> ts \<Longrightarrow> orderLines d' = orderLines d"
    and "T_intents \<notin> ts \<Longrightarrow> intents d' = intents d" "T_menu \<notin> ts \<Longrightarrow> itemPrices d' = itemPrices d" "T_menu \<notin> ts \<Longrightarrow> modifiers d' = modifiers d"
    and "T_menu \<notin> ts \<Longrightarrow> combos d' = combos d" "T_shifts \<notin> ts \<Longrightarrow> shifts d' = shifts d" "T_sessions \<notin> ts \<Longrightarrow> tableSessions d' = tableSessions d"
    and "T_shares \<notin> ts \<Longrightarrow> billShares d' = billShares d" "T_carts \<notin> ts \<Longrightarrow> cartLines d' = cartLines d"
  shows "only ts d d'"
proof -
  have "t \<notin> ts \<longrightarrow> same_table t d d'" for t using assms by (cases t) simp_all
  then show ?thesis using assms(1) by (simp add: only_def)
qed

lemma onlyD:
  assumes "only ts d d'"
  shows "nextId d \<le> nextId d'" "T_bills \<notin> ts \<Longrightarrow> bills d' = bills d" "T_bills \<notin> ts \<Longrightarrow> billCounters d' = billCounters d"
    "T_tenders \<notin> ts \<Longrightarrow> tenders d' = tenders d" "T_notes \<notin> ts \<Longrightarrow> creditNotes d' = creditNotes d" "T_orders \<notin> ts \<Longrightarrow> orders d' = orders d"
    "T_lines \<notin> ts \<Longrightarrow> orderLines d' = orderLines d" "T_intents \<notin> ts \<Longrightarrow> intents d' = intents d" "T_menu \<notin> ts \<Longrightarrow> same_table T_menu d d'"
    "T_shifts \<notin> ts \<Longrightarrow> shifts d' = shifts d" "T_sessions \<notin> ts \<Longrightarrow> tableSessions d' = tableSessions d"
    "T_shares \<notin> ts \<Longrightarrow> billShares d' = billShares d" "T_carts \<notin> ts \<Longrightarrow> cartLines d' = cartLines d"
proof -
  have n: "nextId d \<le> nextId d'" and s: "t \<notin> ts \<Longrightarrow> same_table t d d'" for t using assms by (auto simp: only_def)
  show "nextId d \<le> nextId d'" by (rule n)
  show "T_bills \<notin> ts \<Longrightarrow> bills d' = bills d" "T_bills \<notin> ts \<Longrightarrow> billCounters d' = billCounters d" "T_tenders \<notin> ts \<Longrightarrow> tenders d' = tenders d"
    "T_notes \<notin> ts \<Longrightarrow> creditNotes d' = creditNotes d" "T_orders \<notin> ts \<Longrightarrow> orders d' = orders d" "T_lines \<notin> ts \<Longrightarrow> orderLines d' = orderLines d"
    "T_intents \<notin> ts \<Longrightarrow> intents d' = intents d" "T_menu \<notin> ts \<Longrightarrow> same_table T_menu d d'" "T_shifts \<notin> ts \<Longrightarrow> shifts d' = shifts d"
    "T_sessions \<notin> ts \<Longrightarrow> tableSessions d' = tableSessions d" "T_shares \<notin> ts \<Longrightarrow> billShares d' = billShares d"
    "T_carts \<notin> ts \<Longrightarrow> cartLines d' = cartLines d"
    using s by fastforce+
qed

section \<open>What a handler that leaves a component's tables alone keeps\<close>

lemma only_keeps:
  assumes "only ts d d'"
  shows "{T_bills, T_tenders} \<inter> ts = {} \<Longrightarrow> books_ok d \<Longrightarrow> books_ok d'"
    "{T_bills, T_tenders, T_notes} \<inter> ts = {} \<Longrightarrow> ledger_grows d d'"
    "T_orders \<notin> ts \<Longrightarrow> floor_ok d \<Longrightarrow> floor_ok d'"
    "{T_intents, T_tenders} \<inter> ts = {} \<Longrightarrow> payments_ok d \<Longrightarrow> payments_ok d'"
    "T_shifts \<notin> ts \<Longrightarrow> shifts_ok d \<Longrightarrow> shifts_ok d'"
    "T_sessions \<notin> ts \<Longrightarrow> sessions_ok d \<Longrightarrow> sessions_ok d'"
    "T_shares \<notin> ts \<Longrightarrow> shares_ok d \<Longrightarrow> shares_ok d'"
    "T_carts \<notin> ts \<Longrightarrow> carts_ok d \<Longrightarrow> carts_ok d'"
    "T_lines \<notin> ts \<Longrightarrow> lines_wf d \<Longrightarrow> lines_wf d'"
    "T_menu \<notin> ts \<Longrightarrow> catalogue_ok d \<Longrightarrow> catalogue_ok d'"
proof -
  note D = onlyD [OF assms]
  show "{T_bills, T_tenders} \<inter> ts = {} \<Longrightarrow> books_ok d \<Longrightarrow> books_ok d'" by (rule books_ok_frame) (use D in simp_all)
  show "{T_bills, T_tenders, T_notes} \<inter> ts = {} \<Longrightarrow> ledger_grows d d'" by (rule ledger_grows_frame) (use D in simp_all)
  show "T_orders \<notin> ts \<Longrightarrow> floor_ok d \<Longrightarrow> floor_ok d'" by (rule floor_ok_frame) (use D in simp_all)
  show "{T_intents, T_tenders} \<inter> ts = {} \<Longrightarrow> payments_ok d \<Longrightarrow> payments_ok d'" by (rule payments_ok_frame [of d d' "[]"]) (use D in simp_all)
  show "T_shifts \<notin> ts \<Longrightarrow> shifts_ok d \<Longrightarrow> shifts_ok d'" by (rule shifts_ok_frame) (use D in simp_all)
  show "T_sessions \<notin> ts \<Longrightarrow> sessions_ok d \<Longrightarrow> sessions_ok d'" by (rule sessions_ok_frame) (use D in simp_all)
  show "T_shares \<notin> ts \<Longrightarrow> shares_ok d \<Longrightarrow> shares_ok d'" by (rule shares_ok_frame) (use D in simp_all)
  show "T_carts \<notin> ts \<Longrightarrow> carts_ok d \<Longrightarrow> carts_ok d'" by (rule carts_ok_frame) (use D in simp_all)
  show "lines_wf d'" if "T_lines \<notin> ts" "lines_wf d"
    using that(2) D(1) D(7) [OF that(1)] keys_ok_mono [of "nextId d" "map ol_id (orderLines d)" "nextId d'"] unfolding lines_wf_def by fastforce
  show "catalogue_ok d'" if "T_menu \<notin> ts" "catalogue_ok d"
    using that(2) D(9) [OF that(1)] by (simp add: catalogue_ok_def menu_ok_def slot_options_def)
qed

section \<open>The kitchen, the floor and the lines\<close>

lemma only_fire [footprint]: "fireOnSend e k t out d = (n, d') \<Longrightarrow> only {} d d'"
proof -
  assume f: "fireOnSend e k t out d = (n, d')"
  have n: "nextId d \<le> nextId d'" using fireOnSend_nextId [of d e k t out] f by simp
  obtain m ts tls es where "d' = d\<lparr>nextId := m, tickets := ts, ticketLines := tls, ticketEvents := es\<rparr>" using fireOnSend_fire_only [OF f] by blast
  then show ?thesis using n by (intro onlyI) simp_all
qed

lemma only_kitchen:
  "bump e staff k d = Inr (v, d') \<Longrightarrow> only {} d d'" "recall e staff k d = Inr (v, d') \<Longrightarrow> only {} d d'" "refire e staff k d = Inr (v, d') \<Longrightarrow> only {} d d'"
  by (rule onlyI; auto simp: bump_def recall_def refire_def add_ticket_event_def take_id_def r_bind_eq_Inr Let_def split: if_splits option.splits)+

lemma only_detach: "only {T_orders} d (detachStaleTableOrder e t tab aid mail d)"
proof -
  obtain xs as where "detachStaleTableOrder e t tab aid mail d = d\<lparr>orders := xs, auditEvents := as\<rparr>" using detachStaleTableOrder_frame by blast
  then show ?thesis by (intro onlyI) simp_all
qed

lemma only_insert_order: "insert_order x d = Inr d' \<Longrightarrow> only {T_orders} d d'"
  by (rule onlyI) (auto simp: insert_order_Inr)

lemma only_take_id: "take_id d = (i, d') \<Longrightarrow> only {} d d'"
  by (rule onlyI) (auto simp: take_id_def)

lemma only_next: "only ts (d\<lparr>nextId := Suc (nextId d)\<rparr>) d' \<Longrightarrow> only ts d d'"
proof -
  have "only {} d (d\<lparr>nextId := Suc (nextId d)\<rparr>)" by (rule onlyI) simp_all
  then show "only ts (d\<lparr>nextId := Suc (nextId d)\<rparr>) d' \<Longrightarrow> only ts d d'" using only_trans by blast
qed

lemma only_open_table: "openOrClaimTable e staff out tab d = Inr (v, d') \<Longrightarrow> only {T_orders} d d'"
proof -
  assume r: "openOrClaimTable e staff out tab d = Inr (v, d')"
  let ?d1 = "detachStaleTableOrder e (pp_tenantId staff) tab (Some (pp_id staff)) (pp_name staff) d"
  have "only {T_orders} ?d1 d'"
    using r by (auto simp: openOrClaimTable_def r_bind_eq_Inr Let_def take_id_def split: option.splits sum.splits
        intro: footprint dest!: only_insert_order dest: only_next)
  then show ?thesis using only_trans [OF only_detach] by blast
qed

lemma only_counter: "createCounterOrder e staff out d = Inr (v, d') \<Longrightarrow> only {T_orders} d d'"
proof -
  assume r: "createCounterOrder e staff out d = Inr (v, d')"
  obtain n d1 where t: "reserveTokenNumber (pp_tenantId staff) out d = (n, d1)" by fastforce
  obtain m where d1: "d1 = d\<lparr>tokenCounters := m\<rparr>" using t by (auto simp: reserveTokenNumber_def Let_def split: option.splits)
  show ?thesis
    using r by (intro onlyI) (auto simp: createCounterOrder_def r_bind_eq_Inr Let_def t take_id_def insert_order_Inr d1)
qed

lemma only_set_order: "only {T_orders} d (set_order k f d)"
  by (rule onlyI) (simp_all add: set_order_def)

lemma only_audit: "only {} d (add_audit e staff a b d)"
  by (rule onlyI) (simp_all add: add_audit_def)

lemma only_status: "updateStatus e staff k st d = Inr (v, d') \<Longrightarrow> only {T_orders} d d'"
proof -
  assume r: "updateStatus e staff k st d = Inr (v, d')"
  have f: "only {} s (snd (fireOnSend e i t out s))" for s i t out by (rule only_fire [OF surjective_pairing])
  have "only {T_orders} d (snd (fireOnSend e i t out (set_order k g d)))" for i t out g
    using only_trans [OF only_set_order f] by blast
  moreover have "only {T_orders} d (snd (fireOnSend e i t out d))" for i t out by (rule only_mono [OF f]) simp
  ultimately show ?thesis
    using r only_set_order by (auto simp: updateStatus_def r_bind_eq_Inr Let_def split_def split: if_splits)
qed

lemma guard_Inr: "(if c then Inl x else r) = Inr y \<Longrightarrow> r = Inr y"
  by (simp split: if_splits)

lemma only_discard: "discard e staff k d = Inr (u, d') \<Longrightarrow> only {T_orders, T_bills} d d'"
proof -
  assume r: "discard e staff k d = Inr (u, d')"
  let ?bill = "find_row b_orderId k (bills d)"
  let ?d1 = "case ?bill of None \<Rightarrow> d | Some b \<Rightarrow> d\<lparr>bills := filter (\<lambda>y. b_id y \<noteq> b_id b) (bills d), printJobs := filter (\<lambda>j. pj_billId j \<noteq> b_id b) (printJobs d)\<rparr>"
  let ?d2 = "if filter (\<lambda>l. ol_orderId l = k) (orderLines d) = [] then ?d1\<lparr>orders := filter (\<lambda>y. o_id y \<noteq> k) (orders ?d1)\<rparr>
             else set_order k (\<lambda>y. y\<lparr>o_status := o_closed\<rparr>) ?d1"
  have "\<exists>what. d' = add_audit e staff ''order.discarded'' what ?d2"
    using r unfolding discard_def Let_def r_bind_eq_Inr
    by (elim exE conjE) ((drule guard_Inr)+, simp only: sum.inject prod.inject, elim conjE, rule exI, erule sym)
  then obtain what where d': "d' = add_audit e staff ''order.discarded'' what ?d2" by (rule exE)
  have a: "only {T_bills} d ?d1" by (cases ?bill) (auto intro!: onlyI)
  have b: "only {T_orders} s (if c then s\<lparr>orders := xs\<rparr> else set_order k f s)" for s c xs f
    by (rule onlyI) (simp_all add: set_order_def)
  have "only {T_orders, T_bills} d ?d2" by (rule only_trans [OF a b]) auto
  then show ?thesis unfolding d' by (rule only_trans [OF _ only_audit]) auto
qed

lemma only_transfer: "transfer e staff k new reason d = Inr (v, d') \<Longrightarrow> only {T_orders} d d'"
  by (rule onlyI; auto simp: transfer_def Let_def add_audit_def set_order_def r_bind_eq_Inr split: if_splits option.splits)

lemma only_edits_lines: "edits_lines k d d' \<Longrightarrow> only {T_lines} d d'"
  by (rule onlyI) (simp_all add: edits_lines_def)

lemma only_of_drawer: "only_drawer d d' \<Longrightarrow> only {T_shifts} d d'"
  by (rule onlyI) (auto simp: only_drawer_def)

lemma only_of_sessions: "only_sessions d d' \<Longrightarrow> only {T_sessions} d d'"
  by (rule onlyI) (auto simp: only_sessions_def)

lemma only_of_shares: "only_shares k d d' \<Longrightarrow> only {T_shares} d d'"
  by (rule onlyI) (auto simp: only_shares_def)

lemma only_of_cart: "only_cart g d d' \<Longrightarrow> only {T_carts} d d'"
  by (rule onlyI) (auto simp: only_cart_def)

lemma only_of_placed: "only_placed d d' \<Longrightarrow> only {T_orders, T_lines, T_carts} d d'"
  by (rule onlyI) (auto simp: only_placed_def)

section \<open>Bills, refunds and payments\<close>

lemma only_refresh: "refreshOpenBillTotals bt d = Inr (bt', d') \<Longrightarrow> only {T_bills} d d'"
  by (rule onlyI; auto simp: refreshOpenBillTotals_def Let_def r_bind_eq_Inr split: prod.splits if_splits option.splits)

lemma only_fresh: "r_bind (loadBill d t k) (\<lambda>bt0. refreshOpenBillTotals bt0 d) = Inr (bt, d') \<Longrightarrow> only {T_bills} d d'"
  by (auto simp: r_bind_eq_Inr intro: only_refresh)

lemma only_create_record: "createOrGetBillRecord e params d = Inr (r, d') \<Longrightarrow> only {T_bills} d d'"
proof -
  assume a: "createOrGetBillRecord e params d = Inr (r, d')"
  show ?thesis
  proof (cases "find_row b_orderId (cp_orderId params) (bills d)")
    case None
    with a show ?thesis by (intro onlyI) (auto simp: createOrGetBillRecord_def r_bind_eq_Inr Let_def take_id_def split: if_splits)
  next
    case (Some b)
    with a show ?thesis by (auto simp: createOrGetBillRecord_def r_bind_eq_Inr dest: only_refresh)
  qed
qed

lemma only_tender: "createTenderRecord e q d = Inr (t, d') \<Longrightarrow> only {T_tenders} d d'"
proof -
  assume "createTenderRecord e q d = Inr (t, d')"
  note d' = createTenderRecord_Inr(1) [OF this]
  show ?thesis unfolding d' by (rule onlyI) simp_all
qed

lemma only_add_tenders: "r_fold (add_tender e staff k) ts d = Inr d' \<Longrightarrow> only {T_tenders} d d'"
proof (induction ts arbitrary: d)
  case Nil
  then show ?case using only_refl by simp
next
  case (Cons t ts)
  obtain d1 where s: "add_tender e staff k t d = Inr d1" and r: "r_fold (add_tender e staff k) ts d1 = Inr d'"
    using Cons.prems by (auto simp: r_bind_eq_Inr)
  have "only {T_tenders} d d1" using s by (auto simp: add_tender_def r_bind_eq_Inr split: if_splits dest: only_tender)
  then show ?case using Cons.IH [OF r] by (rule only_trans) simp_all
qed

lemma only_commit: "commitFinalize e params d = Inr (bt, d') \<Longrightarrow> only {T_bills, T_orders} d d'"
proof -
  assume "commitFinalize e params d = Inr (bt, d')"
  then obtain number d1 d2 d3 f p g q where c: "take_bill_number (cf_tenantId params) (b_outletId (cf_bill params)) d = (number, d1)"
    "d2 = d1\<lparr>bills := update_rows p f (bills d1)\<rparr>"
    "d3 = snd (fireOnSend e (b_orderId (cf_bill params)) (b_tenantId (cf_bill params)) (b_outletId (cf_bill params)) d2)"
    "d' = go_live e (cf_tenantId params) (d3\<lparr>orders := update_rows q g (orders d3)\<rparr>)"
    by (rule commitFinalize_Inr) blast
  have "d1 = d\<lparr>billCounters := billCounters d1\<rparr>" using take_bill_number_frame [of "cf_tenantId params" "b_outletId (cf_bill params)" d] c(1) by simp
  then obtain m where m: "d1 = d\<lparr>billCounters := m\<rparr>" by blast
  have a: "only {T_bills} d d2" by (rule onlyI) (simp_all add: c(2) m)
  have b: "only {} d2 d3" unfolding c(3) by (rule only_fire [OF surjective_pairing])
  have z: "only {T_orders} d3 d'" unfolding c(4) by (rule onlyI) (simp_all add: go_live_def)
  have "only {T_bills} d d3" by (rule only_trans [OF a b]) simp_all
  then show ?thesis by (rule only_trans [OF _ z]) simp_all
qed

lemma only_approval: "only {} d (recordApproval ap i n t d)"
  by (rule onlyI) (simp_all add: recordApproval_def)

lemma only_finalize: "finalize e staff k dto d a = (Inr (v, d'), a') \<Longrightarrow> only {T_bills, T_orders, T_tenders} d d'"
proof -
  assume r: "finalize e staff k dto d a = (Inr (v, d'), a')"
  obtain b ts d1 ap where f: "r_bind (loadBill d (pp_tenantId staff) k) (\<lambda>bt0. refreshOpenBillTotals bt0 d) = Inr ((b, ts), d1)"
    and x: "finalize_rest e staff k dto b ap d1 = Inr (v, d')"
    using r by (auto simp: finalize_def split: if_splits sum.splits prod.splits)
  have one: "only {T_bills} d d1" by (rule only_fresh [OF f])
  obtain d2 bt d3 where t: "r_fold (add_tender e staff k) (fd_tenders dto) d1 = Inr d2"
    and c: "commitFinalize e \<lparr>cf_tenantId = pp_tenantId staff, cf_bill = b, cf_discountMinor = fd_discountMinor dto,
      cf_discountReason = fd_discountReason dto, cf_finalizedByStaffId = Some (pp_id staff)\<rparr> d2 = Inr (bt, d3)"
    and e: "d' = (case ap of None \<Rightarrow> d3 | Some p \<Rightarrow> recordApproval p (Some (pp_id staff)) (pp_name staff) (now e) d3)"
    using x by (auto simp: finalize_rest_def r_bind_eq_Inr Let_def split: if_splits)
  have "only {T_bills, T_orders} d2 d3" by (rule only_commit [OF c])
  then have "only {T_bills, T_orders, T_tenders} d1 d3" by (rule only_trans [OF only_add_tenders [OF t]]) auto
  then have "only {T_bills, T_orders, T_tenders} d d3" by (rule only_trans [OF one]) auto
  moreover have "only {} d3 d'" unfolding e using only_approval only_refl by (cases ap) simp_all
  ultimately show ?thesis by (rule only_trans) simp_all
qed

lemma only_refund: "refund e staff k dto d a = (Inr (v, d'), a') \<Longrightarrow> only {T_bills, T_notes} d d'"
proof -
  assume r: "refund e staff k dto d a = (Inr (v, d'), a')"
  obtain bt d1 ap plan nt d2 i n t where f: "r_bind (loadBill d (pp_tenantId staff) k) (\<lambda>bt0. refreshOpenBillTotals bt0 d) = Inr (bt, d1)"
    and x: "insert_note e staff k dto ap plan d1 = (nt, d2)" "d' = recordApproval ap i n t d2"
    using r by (auto simp: refund_def Let_def split: if_splits sum.splits prod.splits)
  have "only {T_notes} d1 d2" using x(1) by (intro onlyI) (auto simp: insert_note_def Let_def take_id_def)
  then have "only {T_bills, T_notes} d d2" by (rule only_trans [OF only_fresh [OF f]]) simp_all
  then show ?thesis unfolding x(2) by (rule only_trans [OF _ only_approval]) simp_all
qed

lemma only_update_intents: "only {T_intents} d (update_intents p f d)"
  by (rule onlyI) (simp_all add: update_intents_def)

lemma only_expire: "expireIfDue e r d = Inr (r', d') \<Longrightarrow> only {T_intents} d d'"
  using only_update_intents only_refl by (auto simp: expireIfDue_def Let_def r_bind_eq_Inr split: if_splits)

lemma only_fail: "failIntent i reason d = Inr (r, d') \<Longrightarrow> only {T_intents} d d'"
  using only_update_intents by (auto simp: failIntent_def Let_def r_bind_eq_Inr)

lemma only_confirm: "confirmIntent e t i d = Inr (r, d') \<Longrightarrow> only {T_intents, T_tenders} d d'"
proof -
  assume r: "confirmIntent e t i d = Inr (r, d')"
  let ?p = "\<lambda>x. pi_id x = i \<and> pi_status x \<in> {i_created, i_pending, i_expired}"
  let ?d1 = "update_intents ?p (\<lambda>x. x\<lparr>pi_status := i_succeeded, pi_succeededAt := Some (now e), pi_failureReason := None\<rparr>) d"
  have "d' = ?d1 \<or> (\<exists>x. d' = late_capture e t x ?d1) \<or> (\<exists>q tn. createTenderRecord e q ?d1 = Inr (tn, d'))"
    using r by (auto simp: confirmIntent_def Let_def r_bind_eq_Inr split: option.splits if_splits)
  moreover have "only {T_intents} ?d1 (late_capture e t x ?d1)" for x
    by (rule onlyI) (simp_all add: late_capture_def update_intents_def Let_def)
  ultimately have "only {T_intents, T_tenders} ?d1 d'"
  proof (elim disjE exE)
    show "only {T_intents, T_tenders} ?d1 d'" if "d' = ?d1" unfolding that by (rule only_refl)
    show "only {T_intents, T_tenders} ?d1 d'" if "\<And>x. only {T_intents} ?d1 (late_capture e t x ?d1)" "d' = late_capture e t x ?d1" for x
      unfolding that(2) by (rule only_mono [OF that(1)]) simp
    show "only {T_intents, T_tenders} ?d1 d'" if "createTenderRecord e q ?d1 = Inr (tn, d')" for q tn
      by (rule only_mono [OF only_tender [OF that]]) simp
  qed
  then show ?thesis by (rule only_trans [OF only_update_intents]) simp_all
qed

lemma only_blocking: "expire_blocking e k d = Inr d' \<Longrightarrow> only {T_intents} d d'"
  by (auto simp: expire_blocking_def r_bind_eq_Inr only_refl split: option.splits if_splits intro: only_expire)

lemma only_insert_intent: "insert_intent x d = Inr d' \<Longrightarrow> only {T_intents} d d'"
  by (rule onlyI) (auto simp: insert_intent_def split: if_splits)

lemma only_create_intent: "createIntent e staff k dto d = Inr ((v, created), d') \<Longrightarrow> only {T_bills, T_intents} d d'"
proof (erule createIntent_cases)
  fix b ts d1
  assume "r_bind (loadBill d (pp_tenantId staff) k) (\<lambda>bt0. refreshOpenBillTotals bt0 d) = Inr ((b, ts), d1)" "\<exists>r r'. expireIfDue e r d1 = Inr (r', d')"
  then have "only {T_bills} d d1" "only {T_intents} d1 d'" using only_fresh only_expire by blast+
  then show ?thesis by (rule only_trans) simp_all
next
  fix b ts d1 d2 x
  assume a: "r_bind (loadBill d (pp_tenantId staff) k) (\<lambda>bt0. refreshOpenBillTotals bt0 d) = Inr ((b, ts), d1)"
    "expire_blocking e k d1 = Inr d2" "insert_intent x (d2\<lparr>nextId := Suc (nextId d2)\<rparr>) = Inr d'"
  have "only {T_intents} d2 d'" by (rule only_next [OF only_insert_intent [OF a(3)]])
  then have "only {T_intents} d1 d'" by (rule only_trans [OF only_blocking [OF a(2)]]) simp_all
  then show ?thesis by (rule only_trans [OF only_fresh [OF a(1)]]) simp_all
qed

lemma only_intent_calls:
  "getIntent e staff i d = Inr (v, d') \<Longrightarrow> only {T_intents} d d'"
  "listPendingForOutlet e staff out dev d = Inr (vs, d') \<Longrightarrow> only {T_intents} d d'"
  "cancelIntent e staff i d = Inr (v, d') \<Longrightarrow> only {T_intents} d d'"
proof -
  show "getIntent e staff i d = Inr (v, d') \<Longrightarrow> only {T_intents} d d'" by (auto simp: getIntent_def r_bind_eq_Inr intro: only_expire)
  show "listPendingForOutlet e staff out dev d = Inr (vs, d') \<Longrightarrow> only {T_intents} d d'"
    by (auto simp: listPendingForOutlet_def Let_def only_update_intents split: if_splits)
  assume c: "cancelIntent e staff i d = Inr (v, d')"
  obtain r0 r d1 where x: "expireIfDue e r0 d = Inr (r, d1)" and d': "d' = d1 \<or> d' = update_intents (\<lambda>x. pi_id x = pi_id (fst r) \<and> isIntentActive x)
      (\<lambda>x. x\<lparr>pi_status := i_cancelled, pi_failureReason := Some ''cancelled_by_staff''\<rparr>) d1"
    using c by (auto simp: cancelIntent_def r_bind_eq_Inr Let_def split: if_splits)
  have "only {T_intents} d1 d'" using d' only_refl only_update_intents by auto
  then show "only {T_intents} d d'" by (rule only_trans [OF only_expire [OF x]]) simp_all
qed

lemma only_simulate: "simulate e staff i outcome d = Inr (v, d') \<Longrightarrow> only {T_intents, T_tenders} d d'"
proof -
  assume s: "simulate e staff i outcome d = Inr (v, d')"
  have "d' = d \<or> (\<exists>t r j. confirmIntent e t j d = Inr (r, d')) \<or> (\<exists>r r1. expireIfDue e r d = Inr (r1, d')) \<or>
      (\<exists>r r1 d1 j m r2. expireIfDue e r d = Inr (r1, d1) \<and> failIntent j m d1 = Inr (r2, d'))"
    using s by (auto simp: simulate_def r_bind_eq_Inr split: if_splits)
  then show ?thesis
  proof (elim disjE exE conjE)
    show ?thesis if "d' = d" unfolding that by (rule only_refl)
    show ?thesis if "confirmIntent e t j d = Inr (r, d')" for t j r by (rule only_confirm [OF that])
    show ?thesis if "expireIfDue e r d = Inr (r1, d')" for r r1 by (rule only_mono [OF only_expire [OF that]]) simp
    show ?thesis if "expireIfDue e r d = Inr (r1, d1)" "failIntent j m d1 = Inr (r2, d')" for r r1 d1 j m r2
      by (rule only_trans [OF only_expire [OF that(1)] only_fail [OF that(2)]]) simp_all
  qed
qed

section \<open>Bills from the phone\<close>

lemma only_set_session: "only {T_sessions} d (set_session k f d)"
  by (rule onlyI) (simp_all add: set_session_def)

lemma only_complete: "completeBill e t k x d = Inr d' \<Longrightarrow> only {T_bills, T_orders, T_sessions} d d'"
proof -
  assume c: "completeBill e t k x d = Inr d'"
  obtain params bt d1 where f: "commitFinalize e params d = Inr (bt, d1)" and d': "d' = (case o_sessionId x of None \<Rightarrow> d1
      | Some sid \<Rightarrow> set_session sid (\<lambda>s. s\<lparr>ts_status := s_settled, ts_closedAt := Some (now e)\<rparr>) d1)"
    using c by (cases "o_sessionId x") (auto simp: completeBill_def r_bind_eq_Inr split: if_splits)
  have "only {T_sessions} d1 d'" unfolding d' using only_refl only_set_session by (simp split: option.split)
  then show ?thesis by (rule only_trans [OF only_commit [OF f]]) auto
qed

lemma only_kiosk: "payByKioskCard e t b a d = Inr (i, d') \<Longrightarrow> only {T_intents, T_tenders} d d'"
proof -
  assume p: "payByKioskCard e t b a d = Inr (i, d')"
  obtain x d2 r where ins: "insert_intent x (d\<lparr>nextId := Suc (nextId d)\<rparr>) = Inr d2" and c: "confirmIntent e t (nextId d) d2 = Inr (r, d')"
    using p by (auto simp: payByKioskCard_def Let_def take_id_def r_bind_eq_Inr split: option.splits)
  show ?thesis by (rule only_trans [OF only_next [OF only_insert_intent [OF ins]] only_confirm [OF c]]) simp_all
qed

lemma only_sync: "syncShares t bt d = Inr d' \<Longrightarrow> shares_ok d \<Longrightarrow> lines_wf d \<Longrightarrow> only {T_shares} d d' \<and> shares_ok d'"
proof -
  assume y: "syncShares t bt d = Inr d'" and s: "shares_ok d" and l: "lines_wf d"
  obtain b ts where bt: "bt = (b, ts)" by fastforce
  show ?thesis
  proof (cases "b_status b = b_open")
    case True
    from syncShares_open(6,7) [OF y [unfolded bt] True s l] show ?thesis using only_of_shares by blast
  next
    case False
    then have "d' = d" using y by (simp add: bt syncShares_def)
    then show ?thesis using s only_refl by simp
  qed
qed

lemma only_checkout:
  assumes "open_checkout e g k d = Inr (bt, x, ses, d2)" and "shares_ok d" and "lines_wf d"
  shows "only {T_bills, T_shares} d d2"
proof -
  obtain bt0 d1 where f: "r_bind (loadBill d (gp_tenantId g) k) (\<lambda>bt0. refreshOpenBillTotals bt0 d) = Inr (bt0, d1)"
    and y: "syncShares (gp_tenantId g) bt0 d1 = Inr d2"
    using assms(1) by (auto simp: open_checkout_def r_bind_eq_Inr split: if_splits)
  note one = only_fresh [OF f]
  have "shares_ok d1" "lines_wf d1" using only_keeps(7,9) [OF one] assms(2,3) by simp_all
  from only_sync [OF y this] have "only {T_shares} d1 d2" by simp
  then show ?thesis by (rule only_trans [OF one]) simp_all
qed

lemma payShare_steps:
  assumes "payShare e g k who dto d = Inr (v, d')"
  obtains (unpaid) bt x ses where "open_checkout e g k d = Inr (bt, x, ses, d')"
  | (taken) bt x ses d2 t d3 a ss where "open_checkout e g k d = Inr (bt, x, ses, d2)"
      "createTenderRecord e (guest_tender (gp_tenantId g) k a) d2 = Inr (t, d3)" "d' = d3\<lparr>billShares := ss\<rparr>"
  | (completed) bt x ses d2 t d3 a ss where "open_checkout e g k d = Inr (bt, x, ses, d2)"
      "createTenderRecord e (guest_tender (gp_tenantId g) k a) d2 = Inr (t, d3)"
      "completeBill e (gp_tenantId g) (b_id (fst bt)) x (d3\<lparr>billShares := ss\<rparr>) = Inr d'"
proof -
  obtain bt x ses d2 where o: "open_checkout e g k d = Inr (bt, x, ses, d2)" using assms(1) by (cases "open_checkout e g k d") (auto simp: payShare_def)
  obtain s where f: "find (\<lambda>s. bs_billId s = k \<and> bs_guestId s = who) (billShares d2) = Some s"
    using assms(1) by (auto simp: payShare_def o split: option.splits)
  show thesis
  proof (cases "sp_simulatedOutcome dto = out_success")
    case False
    then have "d' = d2" using assms(1) by (auto simp: payShare_def o f r_bind_eq_Inr split: if_splits)
    then show thesis using unpaid o by blast
  next
    case True
    obtain t d3 where t: "createTenderRecord e (guest_tender (gp_tenantId g) k (bs_amountMinor s)) d2 = Inr (t, d3)"
      using assms(1) True by (cases "createTenderRecord e (guest_tender (gp_tenantId g) k (bs_amountMinor s)) d2") (auto simp: payShare_def o f split: if_splits)
    show thesis
      using assms(1) True taken [OF o t] completed [OF o t] by (auto simp: payShare_def o f t r_bind_eq_Inr Let_def split: if_splits)
  qed
qed

lemma payAll_steps:
  assumes "payAll e g k dto d = Inr (v, d')"
  obtains (unpaid) bt x ses where "open_checkout e g k d = Inr (bt, x, ses, d')"
  | (completed) bt x ses d2 i d3 ss a where "open_checkout e g k d = Inr (bt, x, ses, d2)"
      "payByKioskCard e (gp_tenantId g) (fst bt) a d2 = Inr (i, d3) \<or> (\<exists>t. createTenderRecord e (guest_tender (gp_tenantId g) k a) d2 = Inr (t, d3))"
      "completeBill e (gp_tenantId g) (b_id (fst bt)) x (d3\<lparr>billShares := ss\<rparr>) = Inr d'"
proof -
  obtain bt x ses d2 where o: "open_checkout e g k d = Inr (bt, x, ses, d2)" using assms(1) by (cases "open_checkout e g k d") (auto simp: payAll_def)
  show thesis
  proof (cases "sp_simulatedOutcome dto = out_success")
    case False
    then have "d' = d2" using assms(1) by (auto simp: payAll_def o r_bind_eq_Inr split: if_splits)
    then show thesis using unpaid o by blast
  next
    case True
    show thesis
      using assms(1) True completed [OF o] by (auto simp: payAll_def o r_bind_eq_Inr split: if_splits) blast
  qed
qed

end
