(* ===== verification/System.thy ===== *)
theory System
  imports Footprint
begin

text \<open>
  The whole service. \<open>service_step\<close> relates the database before and after one successful request of
  any handler modelled: the waiter's orders and lines, the kitchen display, the cashier's bills,
  refunds, card payments and shifts, and the guest's sessions, cart, orders and payments. Each request
  is one serialised transaction; a failed one changes nothing and is no step. \<open>world_ok\<close> joins the
  components' invariants; every step keeps it, and every step only ever extends the journal of issued
  invoices, the append-only log the ledger promises.
\<close>

section \<open>The invariant of the database\<close>

definition world_ok :: "db \<Rightarrow> bool" where
  "world_ok d \<longleftrightarrow> books_ok d \<and> floor_ok d \<and> payments_ok d \<and> shifts_ok d \<and> sessions_ok d \<and> shares_ok d \<and> carts_ok d \<and> lines_wf d \<and> catalogue_ok d"

lemma world_okD:
  assumes "world_ok d"
  shows "books_ok d" "floor_ok d" "payments_ok d" "shifts_ok d" "sessions_ok d" "shares_ok d" "carts_ok d" "lines_wf d" "catalogue_ok d" "menu_ok d"
  using assms by (simp_all add: world_ok_def catalogue_ok_def)

text \<open>A handler answers for the tables it writes; the rest is kept by its footprint.\<close>

lemma world_okI:
  assumes "only ts d d'" and "world_ok d"
    and "{T_bills, T_tenders} \<inter> ts \<noteq> {} \<Longrightarrow> books_ok d'" and "{T_bills, T_tenders, T_notes} \<inter> ts \<noteq> {} \<Longrightarrow> ledger_grows d d'"
    and "T_orders \<in> ts \<Longrightarrow> floor_ok d'" and "{T_intents, T_tenders} \<inter> ts \<noteq> {} \<Longrightarrow> payments_ok d'" and "T_shifts \<in> ts \<Longrightarrow> shifts_ok d'"
    and "T_sessions \<in> ts \<Longrightarrow> sessions_ok d'" and "T_shares \<in> ts \<Longrightarrow> shares_ok d'" and "T_carts \<in> ts \<Longrightarrow> carts_ok d'"
    and "T_lines \<in> ts \<Longrightarrow> lines_wf d'" and "T_menu \<notin> ts"
  shows "world_ok d' \<and> ledger_grows d d'"
proof -
  note K = only_keeps [OF assms(1)] and W = world_okD [OF assms(2)]
  have "books_ok d'" using K(1) W(1) assms(3) by blast
  moreover have "ledger_grows d d'" using K(2) assms(4) by blast
  moreover have "floor_ok d'" using K(3) W(2) assms(5) by blast
  moreover have "payments_ok d'" using K(4) W(3) assms(6) by blast
  moreover have "shifts_ok d'" using K(5) W(4) assms(7) by blast
  moreover have "sessions_ok d'" using K(6) W(5) assms(8) by blast
  moreover have "shares_ok d'" using K(7) W(6) assms(9) by blast
  moreover have "carts_ok d'" using K(8) W(7) assms(10) by blast
  moreover have "lines_wf d'" using K(9) W(8) assms(11) by blast
  moreover have "catalogue_ok d'" using K(10) W(9) assms(12) by blast
  ultimately show ?thesis by (simp add: world_ok_def)
qed

section \<open>Requests\<close>

inductive service_step :: "db \<Rightarrow> db \<Rightarrow> bool" where
  s_open_table: "openOrClaimTable e staff out tab d = Inr (ov, d') \<Longrightarrow> service_step d d'"
| s_counter: "createCounterOrder e staff out d = Inr (ov, d') \<Longrightarrow> service_step d d'"
| s_status: "updateStatus e staff k st d = Inr (ov, d') \<Longrightarrow> service_step d d'"
| s_discard: "discard e staff k d = Inr (u, d') \<Longrightarrow> service_step d d'"
| s_transfer: "transfer e staff k new reason d = Inr (ov, d') \<Longrightarrow> service_step d d'"
| s_add_line: "addLine e staff k al d = Inr (ov, d') \<Longrightarrow> 0 < al_quantity al \<Longrightarrow> service_step d d'"
| s_add_combo: "OrderLines.addCombo e staff k ac d = Inr (ov, d') \<Longrightarrow> 0 < ac_quantity ac \<Longrightarrow>
    \<forall>s \<in> set (ac_selections ac). \<forall>q. ci_quantity s = Some q \<longrightarrow> 0 < q \<Longrightarrow> service_step d d'"
| s_update_line: "updateLine staff k j ul d = Inr (ov, d') \<Longrightarrow> \<forall>q. ul_quantity ul = Some q \<longrightarrow> 0 < q \<Longrightarrow> service_step d d'"
| s_remove_line: "removeLine staff k j d = Inr (ov, d') \<Longrightarrow> service_step d d'"
| s_void_line: "voidLine e staff k j pin reason2 d a = (Inr (ov, d'), a') \<Longrightarrow> service_step d d'"
| s_bump: "bump e staff k d = Inr (tv, d') \<Longrightarrow> service_step d d'"
| s_recall: "recall e staff k d = Inr (tv, d') \<Longrightarrow> service_step d d'"
| s_refire: "refire e staff k d = Inr (tv, d') \<Longrightarrow> service_step d d'"
| s_create_bill: "createBill e staff k d = Inr (bv, d') \<Longrightarrow> service_step d d'"
| s_get_bill: "getBill staff k d = Inr (b, d') \<Longrightarrow> service_step d d'"
| s_finalize: "finalize e staff k fd d a = (Inr (b, d'), a') \<Longrightarrow> service_step d d'"
| s_refund: "refund e staff k rd d a = (Inr (cv, d'), a') \<Longrightarrow> service_step d d'"
| s_create_intent: "createIntent e staff k ci d = Inr ((pv, created), d') \<Longrightarrow> service_step d d'"
| s_get_intent: "getIntent e staff k d = Inr (pv, d') \<Longrightarrow> service_step d d'"
| s_list_intents: "listPendingForOutlet e staff out dev d = Inr (pvs, d') \<Longrightarrow> service_step d d'"
| s_cancel_intent: "cancelIntent e staff k d = Inr (pv, d') \<Longrightarrow> service_step d d'"
| s_simulate: "simulate e staff k oc d = Inr (pv, d') \<Longrightarrow> service_step d d'"
| s_open_shift: "openShift e staff os d = Inr (sv, d') \<Longrightarrow> service_step d d'"
| s_log_movement: "logCashMovement e staff k lm d = Inr (sv, d') \<Longrightarrow> service_step d d'"
| s_close_shift: "closeShift e staff k counted d = Inr (sv, d') \<Longrightarrow> service_step d d'"
| s_start: "startSession e rnd st2 d = Inr (sr, d') \<Longrightarrow> service_step d d'"
| s_start_kiosk: "startKioskSession e rnd out dv d = Inr (sr, d') \<Longrightarrow> service_step d d'"
| s_join: "joinSession e js ip d a = (Inr (sr, d'), a') \<Longrightarrow> service_step d d'"
| s_staff_close: "closeSessionForStaff e t out k d = Inr ((), d') \<Longrightarrow> service_step d d'"
| s_cart: "cart_call e g d d' \<Longrightarrow> service_step d d'"
| s_place: "placeOrder e g d = Inr (po, d') \<Longrightarrow> service_step d d'"
| s_guest_bill: "guest_createBill e g k d = Inr (gv, d') \<Longrightarrow> service_step d d'"
| s_guest_read: "guest_getBill e g k d = Inr (gb, d') \<Longrightarrow> service_step d d'"
| s_pay_share: "payShare e g k who sp d = Inr (gb, d') \<Longrightarrow> service_step d d'"
| s_pay_all: "payAll e g k sp d = Inr (gb, d') \<Longrightarrow> service_step d d'"

section \<open>What settling a bill keeps\<close>

lemma commit_floor: "commitFinalize e params d = Inr (bt, d') \<Longrightarrow> floor_ok d \<Longrightarrow> floor_ok d'"
proof -
  assume c: "commitFinalize e params d = Inr (bt, d')" and f: "floor_ok d"
  obtain number d1 d2 d3 g p where r: "take_bill_number (cf_tenantId params) (b_outletId (cf_bill params)) d = (number, d1)"
    "d2 = d1\<lparr>bills := update_rows p g (bills d1)\<rparr>"
    "d3 = snd (fireOnSend e (b_orderId (cf_bill params)) (b_tenantId (cf_bill params)) (b_outletId (cf_bill params)) d2)"
    "d' = go_live e (cf_tenantId params)
       (d3\<lparr>orders := update_rows (\<lambda>x. o_id x = b_orderId (cf_bill params)) (\<lambda>x. x\<lparr>o_status := o_closed\<rparr>) (orders d3)\<rparr>)"
    using c by (rule commitFinalize_Inr) blast
  have "d1 = d\<lparr>billCounters := billCounters d1\<rparr>" using take_bill_number_frame [of "cf_tenantId params" "b_outletId (cf_bill params)" d] r(1) by simp
  then obtain m where m: "d1 = d\<lparr>billCounters := m\<rparr>" by blast
  have f2: "floor_ok d2" by (rule floor_ok_frame [OF f]) (simp_all add: r(2) m)
  have f3: "floor_ok d3" unfolding r(3) by (rule only_keeps(3) [OF only_fire [OF surjective_pairing] _ f2]) simp
  show ?thesis by (rule floor_ok_update [OF f3, where p = "\<lambda>x. o_id x = b_orderId (cf_bill params)" and f = "\<lambda>x. x\<lparr>o_status := o_closed\<rparr>"])
    (simp_all add: r(4) holds_table_def)
qed

lemma settled_session_ok: "sessions_ok d \<Longrightarrow> sessions_ok (set_session k (\<lambda>s. s\<lparr>ts_status := s_settled, ts_closedAt := Some t\<rparr>) d)"
proof -
  assume ok: "sessions_ok d"
  let ?f = "\<lambda>s. s\<lparr>ts_status := s_settled, ts_closedAt := Some t\<rparr>"
  have op: "open_tables (update_rows (\<lambda>x. ts_id x = k) ?f rs) =
      map ts_tableId (filter (\<lambda>x. ts_id x \<noteq> k) (filter (\<lambda>s. ts_status s = s_open \<and> ts_tableId s \<noteq> None) rs))" for rs
    unfolding open_tables_def by (induction rs) (auto simp: update_rows_def)
  have "distinct (map ts_tableId (filter (\<lambda>s. ts_status s = s_open \<and> ts_tableId s \<noteq> None) (tableSessions d)))"
    using ok by (simp add: sessions_ok_def open_tables_def)
  then have "distinct (open_tables (update_rows (\<lambda>x. ts_id x = k) ?f (tableSessions d)))" unfolding op by (rule distinct_map_filter)
  then show ?thesis using ok by (auto simp: sessions_ok_def set_session_def set_update_rows)
qed

lemma completeBill_keeps:
  assumes "completeBill e t k x d = Inr d'" and "floor_ok d" and "sessions_ok d" and "payments_ok d"
  shows "floor_ok d'" "sessions_ok d'" "payments_ok d'"
proof -
  obtain params bt d1 where f: "commitFinalize e params d = Inr (bt, d1)" and d': "d' = (case o_sessionId x of None \<Rightarrow> d1
      | Some sid \<Rightarrow> set_session sid (\<lambda>s. s\<lparr>ts_status := s_settled, ts_closedAt := Some (now e)\<rparr>) d1)"
    using assms(1) by (cases "o_sessionId x") (auto simp: completeBill_def r_bind_eq_Inr split: if_splits)
  note K = only_keeps [OF only_commit [OF f]]
  have s1: "sessions_ok d1" using K(6) assms(3) by simp
  have "only {T_sessions} d1 d'" unfolding d' using only_refl only_set_session by (simp split: option.split)
  from only_keeps(3) [OF this] commit_floor [OF f assms(2)] show "floor_ok d'" by simp
  show "sessions_ok d'" unfolding d' using s1 settled_session_ok by (simp split: option.split)
  show "payments_ok d'" using only_keeps(4) [OF only_complete [OF assms(1)]] assms(4) by simp
qed

lemma add_tenders_cash:
  "r_fold (add_tender e staff k) ts d = Inr d' \<Longrightarrow> \<exists>xs. tenders d' = tenders d @ xs \<and> (\<forall>t \<in> set xs. td_paymentIntentId t = None) \<and>
     intents d' = intents d \<and> nextId d \<le> nextId d'"
proof (induction ts arbitrary: d)
  case (Cons t ts)
  obtain d1 where s: "add_tender e staff k t d = Inr d1" and r: "r_fold (add_tender e staff k) ts d1 = Inr d'"
    using Cons.prems by (auto simp: r_bind_eq_Inr)
  obtain q x where q: "createTenderRecord e q d = Inr (x, d1)" "tq_paymentIntentId q = None"
    using s by (auto simp: add_tender_def r_bind_eq_Inr split: if_splits)
  have "d1 = d\<lparr>nextId := Suc (nextId d), tenders := tenders d @ [x]\<rparr>" "td_paymentIntentId x = None"
    using createTenderRecord_Inr(1,5) [OF q(1)] q(2) by simp_all
  moreover obtain xs where "tenders d' = tenders d1 @ xs" "\<forall>t \<in> set xs. td_paymentIntentId t = None" "intents d' = intents d1" "nextId d1 \<le> nextId d'"
    using Cons.IH [OF r] by blast
  ultimately show ?case by auto
qed simp

lemma finalize_floor:
  assumes "finalize e staff k dto d a = (Inr (v, d'), a')" and "books_ok d" and "floor_ok d" and "payments_ok d"
  shows "floor_ok d'" "payments_ok d'"
proof -
  obtain b ts d1 ap where c: "r_bind (loadBill d (pp_tenantId staff) k) (\<lambda>bt0. refreshOpenBillTotals bt0 d) = Inr ((b, ts), d1)"
    "finalize_rest e staff k dto b ap d1 = Inr (v, d')"
    using assms(1) by (rule finalize_cases)
  obtain d2 bt d3 where r: "r_fold (add_tender e staff k) (fd_tenders dto) d1 = Inr d2"
    "commitFinalize e \<lparr>cf_tenantId = pp_tenantId staff, cf_bill = b, cf_discountMinor = fd_discountMinor dto,
       cf_discountReason = fd_discountReason dto, cf_finalizedByStaffId = Some (pp_id staff)\<rparr> d2 = Inr (bt, d3)"
    "d' = (case ap of None \<Rightarrow> d3 | Some p \<Rightarrow> recordApproval p (Some (pp_id staff)) (pp_name staff) (now e) d3)"
    using c(2) by (rule finalize_rest_Inr) (rule that)
  have last: "only {} d3 d'" unfolding r(3) using only_refl only_approval by (simp split: option.split)
  have "floor_ok d1" "payments_ok d1" using only_keeps(3,4) [OF only_fresh [OF c(1)]] assms(3,4) by simp_all
  moreover from only_keeps(3) [OF only_add_tenders [OF r(1)]] have "floor_ok d1 \<Longrightarrow> floor_ok d2" by simp
  moreover obtain xs where xs: "tenders d2 = tenders d1 @ xs" "\<forall>t \<in> set xs. td_paymentIntentId t = None" "intents d2 = intents d1" "nextId d1 \<le> nextId d2"
    using add_tenders_cash [OF r(1)] by blast
  ultimately have two: "floor_ok d2" "payments_ok d2" using payments_ok_frame [of d1 d2 xs] by simp_all
  show "floor_ok d'" using only_keeps(3) [OF last] commit_floor [OF r(2) two(1)] by simp
  have "payments_ok d3" using only_keeps(4) [OF only_commit [OF r(2)]] two(2) by simp
  then show "payments_ok d'" using only_keeps(4) [OF last] by simp
qed

section \<open>Paying from the phone\<close>

lemma checkout_keeps:
  assumes "open_checkout e g k d = Inr (bt, x, ses, d2)" and "world_ok d"
  shows "world_ok d2 \<and> ledger_grows d d2" "checked_out g k d (fst bt) x d2"
proof -
  note W = world_okD [OF assms(2)]
  note co = open_checkout_Inr(1) [OF assms(1) W(1,6,8)]
  then show "checked_out g k d (fst bt) x d2" .
  show "world_ok d2 \<and> ledger_grows d d2"
    by (rule world_okI [OF only_checkout [OF assms(1) W(6,8)] assms(2)]) (use co W(3) in \<open>simp_all add: checked_out_def\<close>)
qed

lemma guest_tender_keeps:
  assumes "createTenderRecord e (guest_tender t k a) d2 = Inr (tn, d3)" and "checked_out g k d b x d2" and "world_ok d2"
  shows "floor_ok d3" "sessions_ok d3" "payments_ok d3"
proof -
  note W = world_okD [OF assms(3)]
  have b: "b \<in> set (bills d2)" "b_id b = k" "b_status b = b_open" using assms(2) by (simp_all add: checked_out_def)
  note q = guest_tender_books [OF assms(1) b W(1,6)]
  show "payments_ok d3" by (rule q(8) [OF W(3)])
  show "floor_ok d3" "sessions_ok d3" using only_keeps(3,6) [OF only_tender [OF assms(1)]] W(2,5) by simp_all
qed

lemma set_shares_keeps:
  "floor_ok d \<Longrightarrow> floor_ok (d\<lparr>billShares := ss\<rparr>)" "sessions_ok d \<Longrightarrow> sessions_ok (d\<lparr>billShares := ss\<rparr>)" "payments_ok d \<Longrightarrow> payments_ok (d\<lparr>billShares := ss\<rparr>)"
proof -
  have "only {T_shares} d (d\<lparr>billShares := ss\<rparr>)" by (rule onlyI) simp_all
  from only_keeps [OF this] show "floor_ok d \<Longrightarrow> floor_ok (d\<lparr>billShares := ss\<rparr>)" "sessions_ok d \<Longrightarrow> sessions_ok (d\<lparr>billShares := ss\<rparr>)"
    "payments_ok d \<Longrightarrow> payments_ok (d\<lparr>billShares := ss\<rparr>)" by simp_all
qed

lemma only_set_shares: "only {T_shares} d (d\<lparr>billShares := ss\<rparr>)"
  by (rule onlyI) simp_all

lemma payShare_world:
  assumes "payShare e g k who dto d = Inr (v, d')" and "world_ok d"
  shows "world_ok d' \<and> ledger_grows d d'"
proof -
  let ?all = "{T_bills, T_shares, T_tenders, T_orders, T_sessions}"
  note W = world_okD [OF assms(2)]
  note p = payShare_effect [OF assms(1) W(1,6,8)]
  have "only ?all d d' \<and> floor_ok d' \<and> sessions_ok d' \<and> payments_ok d'"
    using assms(1)
  proof (cases rule: payShare_steps)
    case (unpaid bt x ses)
    note c = checkout_keeps [OF unpaid assms(2)]
    then show ?thesis using only_mono [OF only_checkout [OF unpaid W(6,8)], of ?all] world_okD [of d'] by auto
  next
    case (taken bt x ses d2 t d3 a ss)
    note c = checkout_keeps [OF taken(1) assms(2)]
    have w2: "world_ok d2" using c(1) by simp
    note q = guest_tender_keeps [OF taken(2) c(2) w2]
    have "only ?all d d3" by (rule only_trans [OF only_checkout [OF taken(1) W(6,8)] only_tender [OF taken(2)]]) auto
    then have "only ?all d d'" unfolding taken(3) by (rule only_trans [OF _ only_set_shares]) auto
    then show ?thesis using set_shares_keeps [of d3 ss] q unfolding taken(3) by simp
  next
    case (completed bt x ses d2 t d3 a ss)
    note c = checkout_keeps [OF completed(1) assms(2)]
    have w2: "world_ok d2" using c(1) by simp
    note q = guest_tender_keeps [OF completed(2) c(2) w2]
    have "only ?all d d3" by (rule only_trans [OF only_checkout [OF completed(1) W(6,8)] only_tender [OF completed(2)]]) auto
    then have "only ?all d (d3\<lparr>billShares := ss\<rparr>)" by (rule only_trans [OF _ only_set_shares]) auto
    then have "only ?all d d'" by (rule only_trans [OF _ only_complete [OF completed(3)]]) auto
    then show ?thesis using completeBill_keeps [OF completed(3)] set_shares_keeps [of d3 ss] q by simp
  qed
  then show ?thesis by (intro world_okI [OF _ assms(2), of ?all]) (use p in simp_all)
qed

lemma payAll_world:
  assumes "payAll e g k dto d = Inr (v, d')" and "world_ok d"
  shows "world_ok d' \<and> ledger_grows d d'"
proof -
  let ?all = "{T_bills, T_shares, T_tenders, T_orders, T_sessions, T_intents}"
  note W = world_okD [OF assms(2)]
  note p = payAll_effect [OF assms(1) W(1,6,8,3)]
  have "only ?all d d' \<and> floor_ok d' \<and> sessions_ok d' \<and> payments_ok d'"
    using assms(1)
  proof (cases rule: payAll_steps)
    case (unpaid bt x ses)
    note c = checkout_keeps [OF unpaid assms(2)]
    then show ?thesis using only_mono [OF only_checkout [OF unpaid W(6,8)], of ?all] world_okD [of d'] by auto
  next
    case (completed bt x ses d2 i d3 ss a)
    note c = checkout_keeps [OF completed(1) assms(2)]
    have w2: "world_ok d2" using c(1) by simp
    have b: "fst bt \<in> set (bills d2)" using c(2) by (simp add: checked_out_def)
    have "only {T_intents, T_tenders} d2 d3 \<and> floor_ok d3 \<and> sessions_ok d3 \<and> payments_ok d3"
      using completed(2)
    proof (elim disjE exE)
      assume y: "payByKioskCard e (gp_tenantId g) (fst bt) a d2 = Inr (i, d3)"
      note K = only_keeps [OF only_kiosk [OF y]]
      show ?thesis using only_kiosk [OF y] K(3,6) world_okD(2,5) [OF w2] payByKioskCard_Inr(2) [OF y world_okD(3,1) [OF w2] b] by simp
    next
      fix t assume y: "createTenderRecord e (guest_tender (gp_tenantId g) k a) d2 = Inr (t, d3)"
      show ?thesis using only_mono [OF only_tender [OF y], of "{T_intents, T_tenders}"] guest_tender_keeps [OF y c(2) w2] by simp
    qed
    then have q: "only {T_intents, T_tenders} d2 d3" "floor_ok d3" "sessions_ok d3" "payments_ok d3" by simp_all
    have "only ?all d d3" by (rule only_trans [OF only_checkout [OF completed(1) W(6,8)] q(1)]) auto
    then have "only ?all d (d3\<lparr>billShares := ss\<rparr>)" by (rule only_trans [OF _ only_set_shares]) auto
    then have "only ?all d d'" by (rule only_trans [OF _ only_complete [OF completed(3)]]) auto
    then show ?thesis using completeBill_keeps [OF completed(3)] set_shares_keeps [of d3 ss] q by simp
  qed
  then show ?thesis by (intro world_okI [OF _ assms(2), of ?all]) (use p in simp_all)
qed

lemma guest_sync_world:
  assumes "only {T_bills} d d1" and "books_ok d1" and "ledger_grows d d1" and "syncShares t bt d1 = Inr d'" and "world_ok d"
  shows "world_ok d' \<and> ledger_grows d d'"
proof -
  have 1: "world_ok d1 \<and> ledger_grows d d1" by (rule world_okI [OF assms(1,5)]) (use assms(2,3) in simp_all)
  then have s: "only {T_shares} d1 d' \<and> shares_ok d'" using only_sync [OF assms(4)] world_okD(6,8) by blast
  have "world_ok d' \<and> ledger_grows d1 d'" by (rule world_okI [of "{T_shares}" d1]) (use 1 s in simp_all)
  with 1 show ?thesis using ledger_grows_trans by blast
qed

lemma createBill_world:
  assumes "createBill e staff k d = Inr (v, d')" and "world_ok d"
  shows "world_ok d' \<and> ledger_grows d d'"
proof -
  have "only {T_bills} d d'" using assms(1) by (auto simp: createBill_def r_bind_eq_Inr dest: only_create_record)
  then show ?thesis by (rule world_okI [OF _ assms(2)]) (use createBill_keeps [OF assms(1) world_okD(1) [OF assms(2)]] in simp_all)
qed

lemma guest_createBill_world:
  assumes "guest_createBill e g k d = Inr (v, d')" and "world_ok d"
  shows "world_ok d' \<and> ledger_grows d d'"
proof -
  obtain params bt created d1 where c: "createOrGetBillRecord e params d = Inr ((bt, created), d1)"
    and y: "syncShares (gp_tenantId g) bt d1 = Inr d'"
    using assms(1) by (auto simp: guest_createBill_def r_bind_eq_Inr)
  show ?thesis
    by (rule guest_sync_world [OF only_create_record [OF c] _ _ y assms(2)]) (use createOrGetBillRecord_keeps [OF c world_okD(1) [OF assms(2)]] in simp_all)
qed

lemma guest_getBill_world:
  assumes "guest_getBill e g k d = Inr (v, d')" and "world_ok d"
  shows "world_ok d' \<and> ledger_grows d d'"
proof -
  obtain j b ts d1 where f: "r_bind (loadBill d (gp_tenantId g) j) (\<lambda>bt0. refreshOpenBillTotals bt0 d) = Inr ((b, ts), d1)"
    and y: "syncShares (gp_tenantId g) (b, ts) d1 = Inr d'"
    using assms(1) by (auto simp: guest_getBill_def r_bind_eq_Inr split: option.splits) blast
  show ?thesis
    by (rule guest_sync_world [OF only_fresh [OF f] _ _ y assms(2)]) (use fresh_bill(4,5) [OF f world_okD(1) [OF assms(2)]] in simp_all)
qed

text \<open>One request, whichever it is.\<close>

lemma service_step_keeps:
  assumes "service_step d d'" and "world_ok d"
  shows "world_ok d' \<and> ledger_grows d d'"
proof -
  note W = world_okD [OF assms(2)] and I = world_okI [OF _ assms(2)]
  show ?thesis
    using assms(1)
  proof cases
  case (s_open_table e staff out tab ov)
  show ?thesis by (rule I [OF only_open_table [OF s_open_table]]) (use openOrClaimTable_keeps [OF s_open_table W(2)] in simp_all)
next
  case (s_counter e staff out ov)
  show ?thesis by (rule I [OF only_counter [OF s_counter]]) (use createCounterOrder_keeps [OF s_counter W(2)] in simp_all)
next
  case (s_status e staff k st ov)
  show ?thesis by (rule I [OF only_status [OF s_status]]) (use updateStatus_keeps [OF s_status W(2)] in simp_all)
next
  case (s_discard e staff k u)
  show ?thesis by (rule I [OF only_discard [OF s_discard]]) (use discard_keeps [OF s_discard W(2,1)] in simp_all)
next
  case (s_transfer e staff k new reason ov)
  show ?thesis by (rule I [OF only_transfer [OF s_transfer]]) (use transfer_keeps [OF s_transfer W(2)] in simp_all)
next
  case (s_add_line e staff k al ov)
  note K = addLine_keeps [OF s_add_line(1) W(8,10) s_add_line(2)]
  show ?thesis by (rule I [OF only_edits_lines [OF K(2)]]) (use K(1) in simp_all)
next
  case (s_add_combo e staff k ac ov)
  note K = addCombo_keeps [OF s_add_combo(1) W(8,10) s_add_combo(2,3)]
  show ?thesis by (rule I [OF only_edits_lines [OF K(2)]]) (use K(1) in simp_all)
next
  case (s_update_line staff k j ul ov)
  note K = updateLine_keeps [OF s_update_line(1) W(8,10) s_update_line(2)]
  show ?thesis by (rule I [OF only_edits_lines [OF K(2)]]) (use K(1) in simp_all)
next
  case (s_remove_line staff k j ov)
  note K = removeLine_keeps [OF s_remove_line W(8)]
  show ?thesis by (rule I [OF only_edits_lines [OF K(2)]]) (use K(1) in simp_all)
next
  case (s_void_line e staff k j pin reason2 a ov a')
  note K = voidLine_keeps [OF s_void_line W(8)]
  show ?thesis by (rule I [OF only_edits_lines [OF K(2)]]) (use K(1) in simp_all)
next
  case (s_bump e staff k tv)
  show ?thesis by (rule world_okI [OF only_kitchen(1) [OF s_bump] assms(2)]) simp_all
next
  case (s_recall e staff k tv)
  show ?thesis by (rule world_okI [OF only_kitchen(2) [OF s_recall] assms(2)]) simp_all
next
  case (s_refire e staff k tv)
  show ?thesis by (rule world_okI [OF only_kitchen(3) [OF s_refire] assms(2)]) simp_all
next
  case (s_create_bill e staff k bv)
  then show ?thesis by (rule createBill_world [OF _ assms(2)])
next
  case (s_get_bill staff k b)
  have "only {T_bills} d d'" using s_get_bill by (auto simp: getBill_def r_bind_eq_Inr intro: only_refresh)
  then show ?thesis by (rule world_okI [OF _ assms(2)]) (use getBill_keeps [OF s_get_bill world_okD(1) [OF assms(2)]] in simp_all)
next
  case (s_finalize e staff k fd a b a')
  show ?thesis by (rule I [OF only_finalize [OF s_finalize]]) (use finalize_keeps [OF s_finalize W(1)] finalize_floor [OF s_finalize W(1,2,3)] in simp_all)
next
  case (s_refund e staff k rd a cv a')
  show ?thesis by (rule I [OF only_refund [OF s_refund]]) (use refund_keeps [OF s_refund W(1)] in simp_all)
next
  case (s_create_intent e staff k ci pv created)
  show ?thesis by (rule I [OF only_create_intent [OF s_create_intent]]) (use createIntent_keeps [OF s_create_intent W(3,1)] in simp_all)
next
  case (s_get_intent e staff k pv)
  show ?thesis by (rule I [OF only_intent_calls(1) [OF s_get_intent]]) (use getIntent_keeps [OF s_get_intent W(3)] in simp_all)
next
  case (s_list_intents e staff out dev pvs)
  show ?thesis by (rule I [OF only_intent_calls(2) [OF s_list_intents]]) (use listPendingForOutlet_keeps [OF s_list_intents W(3)] in simp_all)
next
  case (s_cancel_intent e staff k pv)
  show ?thesis by (rule I [OF only_intent_calls(3) [OF s_cancel_intent]]) (use cancelIntent_keeps [OF s_cancel_intent W(3)] in simp_all)
next
  case (s_simulate e staff k oc pv)
  show ?thesis by (rule I [OF only_simulate [OF s_simulate]]) (use simulate_keeps [OF s_simulate W(3,1)] in simp_all)
next
  case (s_open_shift e staff os sv)
  note K = openShift_keeps [OF s_open_shift world_okD(4) [OF assms(2)]]
  show ?thesis by (rule world_okI [OF only_of_drawer [OF K(3)] assms(2)]) (use K(1) in simp_all)
next
  case (s_log_movement e staff k lm sv)
  note K = logCashMovement_keeps [OF s_log_movement world_okD(4) [OF assms(2)]]
  show ?thesis by (rule world_okI [OF only_of_drawer [OF K(3)] assms(2)]) (use K(1) in simp_all)
next
  case (s_close_shift e staff k counted sv)
  note K = closeShift_keeps [OF s_close_shift world_okD(4) [OF assms(2)]]
  show ?thesis by (rule world_okI [OF only_of_drawer [OF K(3)] assms(2)]) (use K(1) in simp_all)
next
  case (s_start e rnd st2 sr)
  note K = startSession_keeps [OF s_start world_okD(5) [OF assms(2)]]
  show ?thesis by (rule world_okI [OF only_of_sessions [OF K(3)] assms(2)]) (use K(1) in simp_all)
next
  case (s_start_kiosk e rnd out dv sr)
  note K = startKioskSession_keeps [OF s_start_kiosk world_okD(5) [OF assms(2)]]
  show ?thesis by (rule world_okI [OF only_of_sessions [OF K(3)] assms(2)]) (use K(1) in simp_all)
next
  case (s_join e js ip a sr a')
  note K = joinSession_keeps [OF s_join world_okD(5) [OF assms(2)]]
  show ?thesis by (rule world_okI [OF only_of_sessions [OF K(3)] assms(2)]) (use K(1) in simp_all)
next
  case (s_staff_close e t out k)
  note K = closeSessionForStaff_keeps [OF s_staff_close world_okD(5) [OF assms(2)]]
  show ?thesis by (rule world_okI [OF only_of_sessions [OF K(3)] assms(2)]) (use K(1) in simp_all)
next
  case (s_cart e g)
  note K = cart_call_keeps [OF s_cart world_okD(7,10) [OF assms(2)]]
  show ?thesis by (rule world_okI [OF only_of_cart [OF K(2)] assms(2)]) (use K(1) in simp_all)
next
  case (s_place e g po)
  note K = placeOrder_keeps [OF s_place W(8,9,7,2)]
  note O = only_of_placed [OF K(3)]
  obtain ses :: table_session where "cartLines d' = filter (\<lambda>l. \<not> (ca_tenantId l = gp_tenantId g \<and> ca_sessionId l = ts_id ses)) (cartLines d)"
    using K(4) by blast
  then have "carts_ok d'" by (rule carts_ok_clear [OF W(7) _ onlyD(1) [OF O]])
  then show ?thesis by (intro I [OF O]) (use K(1,2) in simp_all)
next
  case (s_guest_bill e g k gv)
  then show ?thesis by (rule guest_createBill_world [OF _ assms(2)])
next
  case (s_guest_read e g k gb)
  then show ?thesis by (rule guest_getBill_world [OF _ assms(2)])
next
  case (s_pay_share e g k who sp gb)
  then show ?thesis by (rule payShare_world [OF _ assms(2)])
next
  case (s_pay_all e g k sp gb)
  then show ?thesis by (rule payAll_world [OF _ assms(2)])
  qed
qed

section \<open>Every state the service reaches\<close>

interpretation service: step_invariant service_step world_ok
  by unfold_locales (use service_step_keeps in blast)

lemma service_ledger_grows: "service_step\<^sup>*\<^sup>* d d' \<Longrightarrow> world_ok d \<Longrightarrow> ledger_grows d d'"
proof (induction rule: rtranclp_induct)
  case base
  show ?case by (rule ledger_grows_refl)
next
  case (step a b)
  have "world_ok a" by (rule service.reachable_keeps [OF step.hyps(1) step.prems])
  then show ?case using service_step_keeps [OF step.hyps(2)] step.IH [OF step.prems] ledger_grows_trans by blast
qed



section \<open>The journal of issued invoices\<close>

text \<open>
  What an outlet promises its auditor, as an abstract machine: a journal of entries numbered 1, 2, 3 and so on
  without a gap, to which entries are only ever appended. An entry is the invoice as issued with the tenders
  that paid it.
\<close>

definition journal :: "uuid \<Rightarrow> db \<Rightarrow> (bill \<times> tender list) list" where
  "journal out d = map (\<lambda>b. (b, bill_tenders d (b_id b))) (sort_key (\<lambda>b. the (b_billNumber b)) (filter (finalized_at out) (bills d)))"

inductive journal_step :: "(bill \<times> tender list) list \<Rightarrow> (bill \<times> tender list) list \<Rightarrow> bool" where
  issue: "b_billNumber b = Some (int (length xs) + 1) \<Longrightarrow> sum_rows td_amountMinor ts = bill_total b + nullish (b_roundOffMinor b) 0 \<Longrightarrow>
    journal_step xs (xs @ [(b, ts)])"

lemma finalized_numbers:
  assumes "books_ok d"
  shows "set (numbers_at out d) = Some ` {1 .. int (length (numbers_at out d))}" "distinct (numbers_at out d)"
proof -
  let ?n = "int (length (numbers_at out d))"
  show dist: "distinct (numbers_at out d)" using assms by (simp add: books_ok_def)
  have n: "?n = last_bill_number out d" using assms by (simp add: books_ok_def)
  have "set (numbers_at out d) \<subseteq> Some ` {1 .. ?n}"
  proof
    fix x assume "x \<in> set (numbers_at out d)"
    then obtain b where b: "b \<in> set (bills d)" "finalized_at out b" "x = b_billNumber b" by (auto simp: numbers_at_def)
    with books_okD(1) [OF assms b(1)] n show "x \<in> Some ` {1 .. ?n}" by (auto simp: bill_ok_def finalized_at_def)
  qed
  moreover have "card (Some ` {1 .. ?n}) = card (set (numbers_at out d))"
    using distinct_card [OF dist] by (simp add: card_image)
  ultimately show "set (numbers_at out d) = Some ` {1 .. ?n}" by (intro card_subset_eq) simp_all
qed

definition invoices :: "uuid \<Rightarrow> db \<Rightarrow> bill list" where
  "invoices out d = sort_key (\<lambda>b. the (b_billNumber b)) (filter (finalized_at out) (bills d))"

lemma journal_invoices: "journal out d = map (\<lambda>b. (b, bill_tenders d (b_id b))) (invoices out d)"
  by (simp add: journal_def invoices_def)

lemma invoices_numbered:
  assumes "books_ok d"
  shows "map (\<lambda>b. the (b_billNumber b)) (invoices out d) = [1..int (length (invoices out d))]"
    "\<And>b. b \<in> set (invoices out d) \<longleftrightarrow> b \<in> set (bills d) \<and> finalized_at out b"
    "\<And>b. b \<in> set (invoices out d) \<Longrightarrow> b_billNumber b = Some (the (b_billNumber b))"
proof -
  show mem: "b \<in> set (invoices out d) \<longleftrightarrow> b \<in> set (bills d) \<and> finalized_at out b" for b by (simp add: invoices_def)
  show some: "b_billNumber b = Some (the (b_billNumber b))" if "b \<in> set (invoices out d)" for b
    using books_okD(1) [OF assms, of b] that mem by (auto simp: bill_ok_def finalized_at_def)
  have ms: "mset (map b_billNumber (invoices out d)) = mset (numbers_at out d)" by (simp add: invoices_def numbers_at_def)
  have len: "length (invoices out d) = length (numbers_at out d)" using mset_eq_length [OF ms] by simp
  have eq: "map b_billNumber (invoices out d) = map Some (map (\<lambda>b. the (b_billNumber b)) (invoices out d))" using some by simp
  have "distinct (map b_billNumber (invoices out d))" using finalized_numbers(2) [OF assms, of out] mset_eq_imp_distinct_iff [OF ms] by simp
  then have dist: "distinct (map (\<lambda>b. the (b_billNumber b)) (invoices out d))" unfolding eq by (simp only: distinct_map)
  have "set (map b_billNumber (invoices out d)) = set (numbers_at out d)" by (rule mset_eq_setD [OF ms])
  then have "Some ` set (map (\<lambda>b. the (b_billNumber b)) (invoices out d)) = Some ` {1 .. int (length (invoices out d))}"
    unfolding eq finalized_numbers(1) [OF assms] len by (simp only: set_map)
  then have sets: "set (map (\<lambda>b. the (b_billNumber b)) (invoices out d)) = {1 .. int (length (invoices out d))}" by (simp add: inj_image_eq_iff)
  have "sorted (map (\<lambda>b. the (b_billNumber b)) (invoices out d))" by (simp add: invoices_def)
  then show "map (\<lambda>b. the (b_billNumber b)) (invoices out d) = [1..int (length (invoices out d))]"
    by (rule sorted_distinct_set_unique) (use dist sets in simp_all)
qed

lemma invoice_nth: "books_ok d \<Longrightarrow> i < length (invoices out d) \<Longrightarrow> b_billNumber (invoices out d ! i) = Some (int i + 1)"
proof -
  assume b: "books_ok d" and i: "i < length (invoices out d)"
  have "the (b_billNumber (invoices out d ! i)) = [1..int (length (invoices out d))] ! i"
    using arg_cong [OF invoices_numbered(1) [OF b, of out], of "\<lambda>xs. xs ! i"] i by (simp only: nth_map)
  also have "\<dots> = int i + 1" using i by (simp add: nth_upto)
  finally show ?thesis using invoices_numbered(3) [OF b nth_mem [OF i]] by simp
qed

lemma invoices_extend:
  assumes "books_ok d" and "books_ok d'" and "ledger_grows d d'"
  shows "prefix (invoices out d) (invoices out d')"
proof -
  let ?xs = "invoices out d" and ?ys = "invoices out d'"
  have sub: "b \<in> set ?ys" if "b \<in> set ?xs" for b
    using that assms(3) by (simp add: invoices_numbered(2) [OF assms(1)] invoices_numbered(2) [OF assms(2)] finalized_at_def ledger_grows_def)
  have at: "i < length ?ys \<and> ?ys ! i = ?xs ! i" if i: "i < length ?xs" for i
  proof -
    have "?xs ! i \<in> set ?ys" using sub nth_mem [OF i] .
    then obtain j where j: "j < length ?ys" "?ys ! j = ?xs ! i" by (auto simp: in_set_conv_nth)
    have "int j = int i" using invoice_nth [OF assms(2) j(1)] invoice_nth [OF assms(1) i] j(2) by simp
    then show ?thesis using j by simp
  qed
  have len: "length ?xs \<le> length ?ys" using at [of "length ?xs - 1"] by (cases ?xs) simp_all
  have "take (length ?xs) ?ys = ?xs" by (rule nth_equalityI) (use len at in auto)
  then show ?thesis by (metis take_is_prefix)
qed

lemma journal_steps:
  assumes "\<forall>i < length zs. b_billNumber (fst (zs ! i)) = Some (int (length xs + i) + 1) \<and>
    sum_rows td_amountMinor (snd (zs ! i)) = bill_total (fst (zs ! i)) + nullish (b_roundOffMinor (fst (zs ! i))) 0"
  shows "journal_step\<^sup>*\<^sup>* xs (xs @ zs)"
  using assms
proof (induction zs rule: rev_induct)
  case (snoc z zs)
  have "journal_step\<^sup>*\<^sup>* xs (xs @ zs)"
  proof (rule snoc.IH, intro allI impI)
    fix i assume i: "i < length zs"
    then show "b_billNumber (fst (zs ! i)) = Some (int (length xs + i) + 1) \<and>
      sum_rows td_amountMinor (snd (zs ! i)) = bill_total (fst (zs ! i)) + nullish (b_roundOffMinor (fst (zs ! i))) 0"
      using snoc.prems [rule_format, of i] by (simp add: nth_append)
  qed
  moreover have "journal_step (xs @ zs) ((xs @ zs) @ [(fst z, snd z)])"
    by (rule issue) (use snoc.prems [rule_format, of "length zs"] in \<open>simp_all add: nth_append\<close>)
  ultimately show ?case by simp
qed simp

lemma journal_refines:
  assumes "world_ok d" and "world_ok d'" and "ledger_grows d d'"
  shows "journal_step\<^sup>*\<^sup>* (journal out d) (journal out d')"
proof -
  note B = world_okD(1) [OF assms(1)] world_okD(1) [OF assms(2)]
  obtain zs where zs: "invoices out d' = invoices out d @ zs" using invoices_extend [OF B assms(3)] by (auto simp: prefix_def)
  have "bill_tenders d' (b_id b) = bill_tenders d (b_id b)" if "b \<in> set (invoices out d)" for b
    using that assms(3) by (simp add: invoices_numbered(2) [OF B(1)] finalized_at_def ledger_grows_def)
  then have j: "journal out d' = journal out d @ map (\<lambda>b. (b, bill_tenders d' (b_id b))) zs" by (simp add: journal_invoices zs)
  have "b_billNumber (zs ! i) = Some (int (length (journal out d) + i) + 1)" if "i < length zs" for i
    using invoice_nth [OF B(2), of "length (invoices out d) + i" out] that by (simp add: zs nth_append journal_invoices)
  moreover have "sum_rows td_amountMinor (bill_tenders d' (b_id (zs ! i))) = bill_total (zs ! i) + nullish (b_roundOffMinor (zs ! i)) 0" if "i < length zs" for i
  proof -
    have "zs ! i \<in> set (invoices out d')" using that by (simp add: zs)
    then have "zs ! i \<in> set (bills d')" "b_status (zs ! i) = b_finalized" by (simp_all add: invoices_numbered(2) [OF B(2)] finalized_at_def)
    then show ?thesis using books_okD(1) [OF B(2), of "zs ! i"] by (simp add: bill_ok_def tender_sum_def)
  qed
  ultimately show ?thesis unfolding j by (intro journal_steps) simp
qed

section \<open>What the service guarantees\<close>



text \<open>C2: Refinement. Whatever the service does, what an auditor sees of an outlet is an append-only journal: every run of requests
  is, on the journal of issued invoices, a sequence of issuing steps, each of which appends one invoice under the next
  number with tenders that pay it; no invoice issued, nor its tenders, is ever changed, renumbered or removed.\<close>

theorem service_refines_journal:
  assumes "world_ok d" and "service_step\<^sup>*\<^sup>* d d'"
  shows "journal_step\<^sup>*\<^sup>* (journal out d) (journal out d')"
  by (rule journal_refines [OF assms(1) service.reachable_keeps [OF assms(2,1)] service_ledger_grows [OF assms(2,1)]])

section \<open>The sample restaurant at work\<close>


lemma s_db_settle_ok: "world_ok s_db_settle"
proof -
  have "floor_ok s_db_settle" "payments_ok s_db_settle" "lines_wf s_db_settle" "catalogue_ok s_db_settle"
    by (simp_all add: floor_ok_def keys_ok_def held_tables_def payments_ok_def active_targets_def List.map_filter_def lines_wf_def line_wf_def
        catalogue_ok_def menu_ok_def slot_options_def s_db_settle_def s_db_bill_def sample_defs)
  moreover have "shifts_ok s_db_settle" "sessions_ok s_db_settle" "shares_ok s_db_settle" "carts_ok s_db_settle"
    by (simp_all add: shifts_ok_def sessions_ok_def shares_ok_def carts_ok_def keys_ok_def open_outlets_def open_tables_def s_db_settle_def s_db_bill_def sample_defs)
  ultimately show ?thesis using s_db_settle_books by (simp add: world_ok_def)
qed


lemma finalize_issues: "\<exists>v d a. finalize s_env s_cashier 90 s_finalize s_db_settle (\<lambda>_. None) = (Inr (v, d), a) \<and> length (filter (finalized_at 2) (bills d)) = 1"
  by (simp add: finalize_eval commit_eval fire_eval create_eval str_trim_def is_space_def finalized_at_def sample_defs)

theorem service_refines_journal_witness:
  "\<exists>v d a. finalize s_env s_cashier 90 s_finalize s_db_settle (\<lambda>_. None) = (Inr (v, d), a) \<and> journal 2 s_db_settle = [] \<and>
     journal_step\<^sup>*\<^sup>* [] (journal 2 d) \<and> length (journal 2 d) = 1"
proof -
  obtain v d a where r: "finalize s_env s_cashier 90 s_finalize s_db_settle (\<lambda>_. None) = (Inr (v, d), a)" "length (filter (finalized_at 2) (bills d)) = 1"
    using finalize_issues by (elim exE conjE)
  have l: "length (journal 2 d) = 1" using r(2) by (simp add: journal_def)
  have j: "journal 2 s_db_settle = []" by (simp add: journal_def finalized_at_def s_db_settle_def s_db_bill_def s_bill_def sample_defs)
  have "service_step\<^sup>*\<^sup>* s_db_settle d" by (rule r_into_rtranclp) (rule s_finalize [OF r(1)])
  from service_refines_journal [OF s_db_settle_ok this, of 2] r(1) j l show ?thesis by auto
qed

end
