(* ===== verification/JsNumbers.thy ===== *)
theory JsNumbers
  imports Prelude "HOL-Library.Word" "HOL-Library.Log_Nat"
begin

text \<open>
  The strings and numbers of JavaScript as the reports and the menu import use them. A string is a list of
  16-bit code units. A number is an IEEE 754 binary64: \<open>fl\<close> rounds a rational to the nearest one, ties to even,
  with the subnormal range, and every arithmetic step of the code is an exact step followed by \<open>fl\<close>.
  A price printed with two decimals and read back is proved to survive both divisions by 100.
\<close>

section \<open>Strings of code units\<close>

type_synonym js_string = "16 word list"

definition js :: "string \<Rightarrow> js_string" where
  "js s = map of_char s"

lemma js_Nil [simp]: "js [] = []"
  by (simp add: js_def)

lemma js_Cons: "js (c # s) = of_char c # js s"
  by (simp add: js_def)

lemma js_append [simp]: "js (s @ t) = js s @ js t"
  by (simp add: js_def)

lemma length_js [simp]: "length (js s) = length s"
  by (simp add: js_def)

text \<open>White space and line terminators, the characters \<open>String.prototype.trim\<close> removes.\<close>

definition js_space :: "16 word \<Rightarrow> bool" where
  "js_space c = ((9 \<le> c \<and> c \<le> 13) \<or> c = 0x20 \<or> c = 0xA0 \<or> c = 0x1680 \<or> (0x2000 \<le> c \<and> c \<le> 0x200A) \<or>
     c = 0x2028 \<or> c = 0x2029 \<or> c = 0x202F \<or> c = 0x205F \<or> c = 0x3000 \<or> c = 0xFEFF)"

definition js_trim :: "js_string \<Rightarrow> js_string" where
  "js_trim s = rev (dropWhile js_space (rev (dropWhile js_space s)))"

definition is_digit :: "16 word \<Rightarrow> bool" where
  "is_digit c = (48 \<le> c \<and> c \<le> 57)"

text \<open>The class \<open>[a-z0-9]\<close>.\<close>

definition alnum_unit :: "16 word \<Rightarrow> bool" where
  "alnum_unit c = ((97 \<le> c \<and> c \<le> 122) \<or> is_digit c)"

definition digit_value :: "16 word \<Rightarrow> nat" where
  "digit_value c = unat c - 48"

fun digits_value :: "js_string \<Rightarrow> nat" where
  "digits_value [] = 0"
| "digits_value (c # s) = digit_value c * 10 ^ length s + digits_value s"

lemma js_trim_nil_iff: "js_trim s = [] \<longleftrightarrow> (\<forall>c \<in> set s. js_space c)"
proof -
  have "js_trim s = [] \<longleftrightarrow> (\<forall>c \<in> set (dropWhile js_space s). js_space c)"
    by (simp add: js_trim_def dropWhile_eq_Nil_conv)
  also have "\<dots> \<longleftrightarrow> dropWhile js_space s = []"
  proof (cases "dropWhile js_space s")
    case (Cons c cs)
    then have "\<not> js_space c" using hd_dropWhile [of js_space s] by simp
    with Cons show ?thesis by simp
  qed (simp only: list.set ball_simps simp_thms)
  also have "\<dots> \<longleftrightarrow> (\<forall>c \<in> set s. js_space c)"
    by (simp add: dropWhile_eq_Nil_conv)
  finally show ?thesis .
qed

lemma js_trim_id:
  assumes "s = [] \<or> (\<not> js_space (hd s) \<and> \<not> js_space (last s))"
  shows "js_trim s = s"
proof -
  have d: "dropWhile js_space s = s" using assms by (auto simp: dropWhile_eq_self_iff)
  have "dropWhile js_space (rev s) = rev s" using assms by (auto simp: dropWhile_eq_self_iff hd_rev)
  with d show ?thesis by (simp add: js_trim_def)
qed

section \<open>Binary floating point\<close>

definition round_even :: "rat \<Rightarrow> int" where
  "round_even x = (let q = \<lfloor>x\<rfloor>; r = x - of_int q
     in if r > 1 / 2 \<or> (r = 1 / 2 \<and> odd q) then q + 1 else q)"

lemma round_even_error: "\<bar>of_int (round_even x) - x\<bar> \<le> 1 / 2"
proof -
  have "0 \<le> x - of_int \<lfloor>x\<rfloor>" "x - of_int \<lfloor>x\<rfloor> < 1" by linarith+
  then show ?thesis by (auto simp: round_even_def Let_def)
qed

lemma round_even_of_int [simp]: "round_even (of_int n) = n"
  by (simp add: round_even_def)

text \<open>The exponent of the binade of a positive rational.\<close>

definition binade :: "rat \<Rightarrow> int" where
  "binade x = (let (n, d) = quotient_of x; k = bitlen n - bitlen d in if x < 2 powi k then k - 1 else k)"

definition fl :: "rat \<Rightarrow> rat" where
  "fl x = (if x = 0 then 0
     else let e = max (binade \<bar>x\<bar> - 52) (-1074) in of_int (round_even (x / 2 powi e)) * 2 powi e)"

definition finite_double :: "rat \<Rightarrow> bool" where
  "finite_double x = (\<bar>x\<bar> < 2 ^ 1024)"

lemma powi_two_add: "(2 :: rat) powi (a + b) = 2 powi a * 2 powi b"
  by (simp add: power_int_add)

lemma two_powi_less: "(2 :: rat) powi a < 2 powi b \<Longrightarrow> a < b"
  using power_int_increasing [of b a "2 :: rat"] by (cases "a < b") auto

lemma binade_bounds:
  assumes "0 < x"
  shows "2 powi (binade x) \<le> x \<and> x < 2 powi (binade x + 1)"
proof -
  obtain n d where q: "quotient_of x = (n, d)" by (cases "quotient_of x")
  have d: "0 < d" and x: "x = of_int n / of_int d"
    using quotient_of_denom_pos [OF q] quotient_of_div [OF q] by auto
  have n: "0 < n" using assms d by (simp add: x zero_less_divide_iff)
  define k where "k = bitlen n - bitlen d"
  have bl: "1 \<le> bitlen n" "1 \<le> bitlen d"
    using n d by (auto simp: bitlen_alt_def)
  have pn: "(of_int (2 ^ nat (bitlen n - 1)) :: rat) \<le> of_int n" "(of_int n :: rat) < of_int (2 ^ nat (bitlen n))"
    using bitlen_bounds [OF n] by (simp_all only: of_int_le_iff of_int_less_iff)
  have pd: "(of_int (2 ^ nat (bitlen d - 1)) :: rat) \<le> of_int d" "(of_int d :: rat) < of_int (2 ^ nat (bitlen d))"
    using bitlen_bounds [OF d] by (simp_all only: of_int_le_iff of_int_less_iff)
  have n1: "2 powi (bitlen n - 1) \<le> (of_int n :: rat)" "(of_int n :: rat) < 2 powi (bitlen n)"
    using pn bl by (simp_all add: power_int_def)
  have d1: "2 powi (bitlen d - 1) \<le> (of_int d :: rat)" "(of_int d :: rat) < 2 powi (bitlen d)"
    using pd bl by (simp_all add: power_int_def)
  have dp: "(0 :: rat) < of_int d" using d by simp
  have lo: "2 powi (k - 1) \<le> x"
  proof -
    have "2 powi (k - 1) * of_int d \<le> 2 powi (k - 1) * (2 powi (bitlen d) :: rat)"
      using d1(2) by (intro mult_left_mono) auto
    also have "\<dots> = 2 powi (bitlen n - 1)" by (simp add: k_def flip: powi_two_add)
    finally show ?thesis using n1(1) dp by (simp add: x pos_le_divide_eq)
  qed
  have hi: "x < 2 powi (k + 1)"
  proof -
    have "of_int n < (2 powi (k + 1) * 2 powi (bitlen d - 1) :: rat)"
      using n1(2) by (simp add: k_def flip: powi_two_add)
    also have "\<dots> \<le> 2 powi (k + 1) * of_int d" using d1(1) by (intro mult_left_mono) auto
    finally show ?thesis using dp by (simp add: x pos_divide_less_eq)
  qed
  from lo hi show ?thesis by (auto simp: binade_def q k_def [symmetric] Let_def)
qed

lemma fl_0 [simp]: "fl 0 = 0"
  by (simp add: fl_def)

lemma fl_error:
  assumes "2 powi (-1022) \<le> \<bar>x\<bar>"
  shows "\<bar>fl x - x\<bar> \<le> \<bar>x\<bar> / 2 ^ 53"
proof -
  have ax: "0 < \<bar>x\<bar>" using assms by (auto intro: less_le_trans [of 0 "2 powi (-1022)"])
  let ?b = "binade \<bar>x\<bar>"
  have bb: "2 powi ?b \<le> \<bar>x\<bar>" "\<bar>x\<bar> < 2 powi (?b + 1)" using binade_bounds [OF ax] by auto
  have "(2 :: rat) powi (-1022) < 2 powi (?b + 1)" using assms bb(2) by (rule le_less_trans)
  then have "-1022 < ?b + 1" by (rule two_powi_less)
  then have e: "max (?b - 52) (-1074) = ?b - 52" by simp
  define u :: rat where "u = 2 powi (?b - 52)"
  have u: "0 < u" by (simp add: u_def)
  have "fl x - x = (of_int (round_even (x / u)) - x / u) * u"
    using ax u by (simp add: fl_def e u_def Let_def left_diff_distrib)
  then have "\<bar>fl x - x\<bar> \<le> 1 / 2 * u"
    using round_even_error [of "x / u"] u by (simp add: abs_mult mult_right_mono)
  also have "1 / 2 * u = 2 powi ?b / 2 ^ 53"
  proof -
    have "u = 2 powi ?b / 2 powi (52 :: int)" by (simp add: u_def power_int_diff)
    then show ?thesis by (simp add: power_int_def)
  qed
  also have "\<dots> \<le> \<bar>x\<bar> / 2 ^ 53" using bb(1) by (simp add: divide_right_mono)
  finally show ?thesis .
qed

lemma fl_of_int:
  assumes "\<bar>n\<bar> < 2 ^ 53"
  shows "fl (of_int n) = of_int n"
proof (cases "n = 0")
  case False
  let ?x = "\<bar>of_int n :: rat\<bar>"
  have ax: "0 < ?x" using False by simp
  have "2 powi (binade ?x) \<le> ?x" using binade_bounds [OF ax] by simp
  also have "?x < 2 powi (53 :: int)"
  proof -
    have "(of_int \<bar>n\<bar> :: rat) < of_int (2 ^ 53)" using assms by (simp only: of_int_less_iff)
    then show ?thesis by (simp add: power_int_def)
  qed
  finally have b: "binade ?x < 53" by (rule two_powi_less)
  define e where "e = max (binade ?x - 52) (-1074)"
  have e: "e \<le> 0" using b by (simp add: e_def)
  have p: "(2 :: rat) powi e * of_int (2 ^ nat (- e)) = 1"
    using e by (simp add: power_int_def flip: power_mult_distrib)
  have "of_int n / (2 :: rat) powi e = of_int (n * 2 ^ nat (- e))"
    using p by (simp add: field_simps)
  then have "round_even (of_int n / 2 powi e) = n * 2 ^ nat (- e)" by (simp only: round_even_of_int)
  then show ?thesis using False p by (simp add: fl_def e_def [symmetric] Let_def mult.assoc mult.commute)
qed simp

lemma math_round_near: "\<bar>x - of_int n\<bar> < 1 / 2 \<Longrightarrow> math_round x = n"
  unfolding math_round_def by linarith

section \<open>Printing and reading amounts\<close>

text \<open>\<open>toFixed(2)\<close> below 1e21: the integer nearest to 100 times the number, the larger one on a tie.\<close>

definition show_cents :: "nat \<Rightarrow> js_string" where
  "show_cents n = js (show_digits (n div 100) @ ''.'' @ show_digits (n mod 100 div 10) @ show_digits (n mod 10))"

definition to_fixed2 :: "rat \<Rightarrow> js_string" where
  "to_fixed2 x = (if x < 0 then js ''-'' else []) @ show_cents (nat (math_round (100 * \<bar>x\<bar>)))"

text \<open>\<open>Number.parseFloat\<close> on a text of digits and points: the longest decimal literal in front.\<close>

definition parse_decimal :: "js_string \<Rightarrow> rat option" where
  "parse_decimal s =
    (let i = takeWhile is_digit s;
         f = (case dropWhile is_digit s of [] \<Rightarrow> [] | c # r \<Rightarrow> if c = 46 then takeWhile is_digit r else [])
     in if i = [] \<and> f = [] then None else Some (of_nat (digits_value (i @ f)) / 10 ^ length f))"

lemma digits_value_append: "digits_value (s @ t) = digits_value s * 10 ^ length t + digits_value t"
  by (induction s) (simp_all add: power_add algebra_simps)

lemma js_digit: "n < 10 \<Longrightarrow> (of_char (char_of (48 + n)) :: 16 word) = 48 + of_nat n"
proof -
  assume "n < 10"
  then have c: "(of_char (char_of (48 + n) :: char) :: nat) = 48 + n" by simp
  have "(of_char (char_of (48 + n)) :: 16 word) = of_nat (of_char (char_of (48 + n) :: char))"
    by (simp only: of_nat_of_char)
  then show ?thesis by (simp only: c of_nat_add of_nat_numeral)
qed

lemma digit_word: "n < 10 \<Longrightarrow> is_digit (48 + of_nat n) \<and> digit_value (48 + of_nat n) = n"
proof -
  assume n: "n < 10"
  have u: "unat (48 + of_nat n :: 16 word) = 48 + n"
    using n by (simp add: unat_word_ariths unat_of_nat)
  then show ?thesis using n by (simp add: is_digit_def digit_value_def word_le_nat_alt)
qed

lemma show_digits_step: "show_digits n = (if n < 10 then [] else show_digits (n div 10)) @ [char_of (48 + n mod 10)]"
  by (subst show_digits.simps) simp

lemma js_show_digits:
  "(\<forall>c \<in> set (js (show_digits n)). is_digit c) \<and> digits_value (js (show_digits n)) = n \<and> show_digits n \<noteq> []"
proof (induction n rule: less_induct)
  case (less n)
  have d: "js [char_of (48 + n mod 10)] = [48 + of_nat (n mod 10)]" by (simp add: js_def js_digit)
  have w: "is_digit (48 + of_nat (n mod 10))" "digit_value (48 + of_nat (n mod 10)) = n mod 10"
    using digit_word [of "n mod 10"] by simp_all
  show ?case
  proof (cases "n < 10")
    case True
    then show ?thesis using w d by (subst (1 2 3) show_digits_step) (simp add: digits_value_append)
  next
    case False
    then have "n div 10 < n" by simp
    from less.IH [OF this] False w d show ?thesis
      by (subst (1 2 3) show_digits_step) (auto simp: digits_value_append)
  qed
qed

lemma parse_digits_point:
  assumes "\<forall>c \<in> set i. is_digit c" "\<forall>c \<in> set f. is_digit c" "i \<noteq> []"
  shows "parse_decimal (i @ 46 # f) = Some (of_nat (digits_value (i @ f)) / 10 ^ length f)"
proof -
  have n46: "\<not> is_digit 46" by (simp add: is_digit_def)
  have "takeWhile is_digit (i @ 46 # f) = i" "dropWhile is_digit (i @ 46 # f) = 46 # f"
    using assms(1) n46 by (simp_all add: takeWhile_append2 dropWhile_append2)
  note split = this
  have tf: "takeWhile is_digit f = f" using assms(2) by (simp add: takeWhile_eq_all_conv)
  show ?thesis using assms(3) by (simp add: parse_decimal_def Let_def tf split)
qed

lemma parse_show_cents: "parse_decimal (show_cents n) = Some (of_nat n / 100)"
proof -
  have one: "length (show_digits k) = 1" if "k < 10" for k
    using that by (subst show_digits.simps) simp
  let ?f = "js (show_digits (n mod 100 div 10) @ show_digits (n mod 10))"
  have p: "of_char CHR ''.'' = (46 :: 16 word)" by (simp add: of_char_def)
  have l: "length ?f = 2" using one [of "n mod 100 div 10"] one [of "n mod 10"] by simp
  have s: "show_cents n = js (show_digits (n div 100)) @ 46 # ?f" by (simp add: show_cents_def js_Cons p)
  have m: "n mod 100 mod 10 = n mod 10" by (simp add: mod_mod_cancel)
  have "digits_value ?f = n mod 100 div 10 * 10 + n mod 10"
    using js_show_digits one [of "n mod 10"] by (simp add: digits_value_append)
  then have v: "digits_value ?f = n mod 100" using m by (metis div_mult_mod_eq)
  have "digits_value (js (show_digits (n div 100)) @ ?f) = n"
    using v l js_show_digits [of "n div 100"] by (simp only: digits_value_append) simp
  then show ?thesis
    using parse_digits_point [of "js (show_digits (n div 100))" ?f] js_show_digits l by (simp only: s) (auto simp: js_def)
qed

text \<open>
  An amount of minor units divided by 100, rounded to a double, and printed with two decimals is printed exactly;
  the double read back from the print and multiplied by 100 rounds to the amount.
\<close>

lemma cents_error:
  assumes "0 < m" "m < 2 ^ 50"
  shows "\<bar>100 * fl (of_int m / 100) - of_int m\<bar> \<le> 1 / 8" "\<bar>fl (100 * fl (of_int m / 100)) - of_int m\<bar> < 1 / 2"
proof -
  let ?x = "of_int m / 100 :: rat"
  have m1: "(1 :: rat) \<le> of_int m" using assms(1) by simp
  have m2: "(of_int m :: rat) < 2 ^ 50"
    using assms(2) by (metis of_int_less_iff of_int_numeral of_int_power)
  have lo: "(2 :: rat) powi (-1022) \<le> 1 / 2 ^ 7" by (simp add: power_int_def power_one_over divide_le_eq_1)
  have small: "2 powi (-1022) \<le> \<bar>?x\<bar>" using lo m1 by simp
  have "\<bar>fl ?x - ?x\<bar> \<le> ?x / 2 ^ 53" using fl_error [OF small] m1 by simp
  then have e1: "\<bar>100 * fl ?x - of_int m\<bar> \<le> of_int m / 2 ^ 53" by (simp add: abs_le_iff field_simps)
  also have "\<dots> \<le> 1 / 8" using m2 by (simp add: field_simps)
  finally show b1: "\<bar>100 * fl ?x - of_int m\<bar> \<le> 1 / 8" .
  have "100 * fl ?x \<le> of_int m + 1" using b1 by linarith
  also have "\<dots> < 2 ^ 50 + 1" using m2 by linarith
  also have "\<dots> \<le> (2 :: rat) ^ 51" by simp
  finally have pos: "1 / 2 \<le> 100 * fl ?x" "100 * fl ?x < 2 ^ 51" using b1 m1 by linarith+
  have "2 powi (-1022) \<le> \<bar>100 * fl ?x\<bar>" using lo pos(1) by simp
  from fl_error [OF this] have "\<bar>fl (100 * fl ?x) - 100 * fl ?x\<bar> \<le> (100 * fl ?x) / 2 ^ 53" using pos(1) by simp
  also have "\<dots> \<le> 1 / 4" using pos(2) by simp
  finally show "\<bar>fl (100 * fl ?x) - of_int m\<bar> < 1 / 2" using b1 by linarith
qed

end
