(* ===== verification/Csv.thy ===== *)
theory Csv
  imports JsNumbers
begin

text \<open>
  The two ends of CSV in the program: the writer of the owner's reports, \<^verbatim>\<open>src/src/admin/reports/csv.ts\<close>, and the
  parser of the menu import, \<^verbatim>\<open>parseCsv\<close> in \<^verbatim>\<open>src/src/admin/menu-import/extraction.ts\<close>. Reading back what was written
  gives the rows, less the rows whose cells are all blank, which the parser drops.
\<close>

section \<open>Writing\<close>

abbreviation (input) quote_unit :: "16 word" where "quote_unit \<equiv> 34"
abbreviation (input) comma_unit :: "16 word" where "comma_unit \<equiv> 44"
abbreviation (input) cr_unit :: "16 word" where "cr_unit \<equiv> 13"
abbreviation (input) lf_unit :: "16 word" where "lf_unit \<equiv> 10"

definition escapeField :: "js_string \<Rightarrow> js_string" where
  "escapeField field =
     (if \<exists>c \<in> set field. c = quote_unit \<or> c = comma_unit \<or> c = cr_unit \<or> c = lf_unit
      then quote_unit # concat (map (\<lambda>c. if c = quote_unit then [quote_unit, quote_unit] else [c]) field) @ [quote_unit]
      else field)"

fun join_with :: "'a list \<Rightarrow> 'a list list \<Rightarrow> 'a list" where
  "join_with sep [] = []"
| "join_with sep [x] = x"
| "join_with sep (x # y # xs) = x @ sep @ join_with sep (y # xs)"

definition csv_row :: "js_string list \<Rightarrow> js_string" where
  "csv_row row = join_with [comma_unit] (map escapeField row)"

definition toCsv :: "js_string list \<Rightarrow> js_string list list \<Rightarrow> js_string" where
  "toCsv header rows = join_with [cr_unit, lf_unit] (map csv_row (header # rows)) @ [cr_unit, lf_unit]"

section \<open>Parsing\<close>

text \<open>
  The loop of \<open>parseCsv\<close> with its four variables; the index is the rest of the text, and a look-ahead that is
  consumed shortens it by two.
\<close>

function csv_scan :: "bool \<Rightarrow> js_string \<Rightarrow> js_string list \<Rightarrow> js_string list list \<Rightarrow> js_string \<Rightarrow> js_string list list" where
  "csv_scan inQuotes field row rows [] = (if field \<noteq> [] \<or> row \<noteq> [] then rows @ [row @ [field]] else rows)"
| "csv_scan inQuotes field row rows (c # text) =
    (if inQuotes then
       (if c = quote_unit then
          (if text \<noteq> [] \<and> hd text = quote_unit then csv_scan True (field @ [quote_unit]) row rows (tl text)
           else csv_scan False field row rows text)
        else csv_scan True (field @ [c]) row rows text)
     else if c = quote_unit then csv_scan True field row rows text
     else if c = comma_unit then csv_scan False [] (row @ [field]) rows text
     else if c = lf_unit \<or> c = cr_unit then
       csv_scan False [] [] (rows @ [row @ [field]]) (if c = cr_unit \<and> text \<noteq> [] \<and> hd text = lf_unit then tl text else text)
     else csv_scan False (field @ [c]) row rows text)"
  by pat_completeness auto
termination
  by (relation "measure (\<lambda>(_, _, _, _, text). length text)") auto

definition has_content :: "js_string list \<Rightarrow> bool" where
  "has_content cells = (\<exists>cell \<in> set cells. js_trim cell \<noteq> [])"

definition parseCsv :: "js_string \<Rightarrow> js_string list list" where
  "parseCsv s = filter has_content (csv_scan False [] [] [] s)"

section \<open>Reading back what was written\<close>

abbreviation ends_field :: "js_string \<Rightarrow> bool" where
  "ends_field rest \<equiv> rest \<noteq> [] \<and> (hd rest = comma_unit \<or> hd rest = cr_unit)"

lemma scan_plain:
  assumes "\<forall>c \<in> set f. c \<noteq> quote_unit \<and> c \<noteq> comma_unit \<and> c \<noteq> cr_unit \<and> c \<noteq> lf_unit"
  shows "csv_scan False field row rows (f @ rest) = csv_scan False (field @ f) row rows rest"
  using assms by (induction f arbitrary: field) simp_all

lemma scan_quoted:
  assumes "ends_field rest"
  shows "csv_scan True field row rows (concat (map (\<lambda>c. if c = quote_unit then [quote_unit, quote_unit] else [c]) f) @ quote_unit # rest) =
    csv_scan False (field @ f) row rows rest"
  using assms by (induction f arbitrary: field) auto

lemma scan_field:
  assumes "ends_field rest"
  shows "csv_scan False [] row rows (escapeField f @ rest) = csv_scan False f row rows rest"
proof (cases "\<exists>c \<in> set f. c = quote_unit \<or> c = comma_unit \<or> c = cr_unit \<or> c = lf_unit")
  case True
  then show ?thesis using scan_quoted [OF assms, of "[]" row rows f] by (simp add: escapeField_def)
next
  case False
  then show ?thesis using scan_plain [of f "[]" row rows rest] by (simp add: escapeField_def)
qed

text \<open>A row without cells is written as an empty line, which reads back as one empty cell.\<close>

definition written :: "js_string list \<Rightarrow> js_string list" where
  "written row = (if row = [] then [[]] else row)"

lemma scan_row:
  "csv_scan False [] cells rows (csv_row row @ [cr_unit, lf_unit] @ rest) =
     csv_scan False [] [] (rows @ [cells @ written row]) rest"
proof (induction row arbitrary: cells rule: induct_list012)
  case 1
  then show ?case by (simp add: csv_row_def written_def)
next
  case (2 f)
  then show ?case using scan_field [of "[cr_unit, lf_unit] @ rest" cells rows f] by (simp add: csv_row_def written_def)
next
  case (3 f g row)
  have "csv_row (f # g # row) = escapeField f @ comma_unit # csv_row (g # row)" by (simp add: csv_row_def)
  then have "csv_scan False [] cells rows (csv_row (f # g # row) @ [cr_unit, lf_unit] @ rest) =
      csv_scan False f cells rows (comma_unit # csv_row (g # row) @ [cr_unit, lf_unit] @ rest)"
    using scan_field [of "comma_unit # csv_row (g # row) @ [cr_unit, lf_unit] @ rest" cells rows f] by simp
  also have "\<dots> = csv_scan False [] (cells @ [f]) rows (csv_row (g # row) @ [cr_unit, lf_unit] @ rest)" by simp
  also have "\<dots> = csv_scan False [] [] (rows @ [(cells @ [f]) @ written (g # row)]) rest" by (rule 3)
  finally show ?case by (simp add: written_def)
qed

lemma scan_rows:
  "csv_scan False [] [] rows (join_with [cr_unit, lf_unit] (map csv_row (r # rs)) @ [cr_unit, lf_unit]) =
     rows @ map written (r # rs)"
proof (induction rs arbitrary: rows r)
  case Nil
  then show ?case using scan_row [of "[]" rows r "[]"] by simp
next
  case (Cons q rs)
  then show ?case
    using scan_row [of "[]" rows r "join_with [cr_unit, lf_unit] (map csv_row (q # rs)) @ [cr_unit, lf_unit]"] by simp
qed

lemma has_content_written: "filter has_content (map written rows) = filter has_content rows"
  by (induction rows) (auto simp: has_content_def written_def js_trim_nil_iff)

lemma csv_roundtrip: "parseCsv (toCsv header rows) = filter has_content (header # rows)"
proof -
  have "csv_scan False [] [] [] (toCsv header rows) = map written (header # rows)"
    using scan_rows [of "[]" header rows] by (simp add: toCsv_def)
  then show ?thesis by (simp add: parseCsv_def has_content_written del: list.map)
qed

text \<open>
  a text written by the reports' CSV writer is read back by the menu import's parser as the rows that were
  written, whatever quotes, commas and line breaks the cells hold; only rows whose cells are all blank are dropped.
\<close>

theorem parseCsv_toCsv: "parseCsv (toCsv header rows) = filter has_content (header # rows)"
  by (rule csv_roundtrip)

end
