(* ===== verification/MenuExtraction.thy ===== *)
theory MenuExtraction
  imports Csv
begin

text \<open>
  From an uploaded file to a draft menu, \<^verbatim>\<open>src/src/admin/menu-import/extraction.ts\<close> and
  \<^verbatim>\<open>upload-validation.ts\<close>: which kind of file it is, which column holds what, and one draft item per row with the
  confidence in each of its fields; and the row of the owner's menu report,
  \<^verbatim>\<open>exportMenuCatalogueCsv\<close> in \<^verbatim>\<open>src/src/admin/reports/reports.service.ts\<close>. The rows of a spreadsheet come from the library
  ExcelJS and are an argument.
\<close>

section \<open>Columns\<close>

datatype import_field = f_name | f_shortName | f_category | f_price

definition import_fields :: "import_field list" where
  "import_fields = [f_name, f_shortName, f_category, f_price]"

fun HEADER_ALIASES :: "import_field \<Rightarrow> js_string list" where
  "HEADER_ALIASES f_name = map js [''name'', ''item'', ''itemname'', ''menuitem'', ''dish'', ''dishname'']"
| "HEADER_ALIASES f_shortName = map js [''shortname'', ''short'', ''kot'', ''kotname'', ''kitchenname'']"
| "HEADER_ALIASES f_category = map js [''category'', ''section'', ''group'', ''menucategory'']"
| "HEADER_ALIASES f_price = map js [''price'', ''rate'', ''amount'', ''cost'', ''priceminor'', ''mrp'']"

text \<open>
  \<open>toLowerCase\<close> as far as the filter behind it can tell: the capital letters of ASCII, the Kelvin sign and the
  dotted capital I (whose lower case is an i and a combining dot) are the characters whose lower case holds a character of
  \<open>a-z0-9\<close>.
\<close>

definition lower_unit :: "16 word \<Rightarrow> js_string" where
  "lower_unit c = (if 65 \<le> c \<and> c \<le> 90 then [c + 32] else if c = 0x212A then [107] else if c = 0x130 then [105, 0x307] else [c])"

definition normalizeHeader :: "js_string \<Rightarrow> js_string" where
  "normalizeHeader header = filter alnum_unit (concat (map lower_unit (js_trim header)))"

fun find_index :: "('a \<Rightarrow> bool) \<Rightarrow> 'a list \<Rightarrow> nat option" where
  "find_index P [] = None"
| "find_index P (x # xs) = (if P x then Some 0 else map_option Suc (find_index P xs))"

definition matchColumns :: "js_string list \<Rightarrow> import_field \<Rightarrow> nat option" where
  "matchColumns headerRow field = find_index (\<lambda>h. h \<in> set (HEADER_ALIASES field)) (map normalizeHeader headerRow)"

section \<open>Draft items\<close>

record draft_field_confidence =
  dc_name :: rat
  dc_shortName :: rat
  dc_category :: rat
  dc_price :: rat
  dc_overall :: rat

text \<open>\<open>di_priceMinor\<close> is \<open>None\<close> for a number that is not finite, which the JSON payload stores as null.\<close>

record draft_item =
  di_id :: uuid
  di_name :: js_string
  di_shortName :: js_string
  di_category :: js_string
  di_priceMinor :: "int option"
  di_currency :: string
  di_confidence :: draft_field_confidence

definition round2 :: "rat \<Rightarrow> rat" where
  "round2 v = fl (of_int (math_round (fl (v * 100))) / 100)"

definition overall :: "rat \<Rightarrow> rat \<Rightarrow> rat \<Rightarrow> rat \<Rightarrow> rat" where
  "overall a b c d = round2 (fl (fl (fl (fl (a + b) + c) + d) / 4))"

definition deriveShortName :: "js_string \<Rightarrow> js_string" where
  "deriveShortName name = (if length name \<le> 16 then name else take 15 name @ [0x2026])"

definition price_char :: "16 word \<Rightarrow> bool" where
  "price_char c = (is_digit c \<or> c = 46)"

definition parsePriceMinor :: "js_string option \<Rightarrow> int option \<times> rat" where
  "parsePriceMinor raw = (case map_option js_trim raw of
     None \<Rightarrow> (Some 0, fl (3 / 10))
   | Some trimmed \<Rightarrow>
       if trimmed = [] then (Some 0, fl (3 / 10))
       else (case map_option fl (parse_decimal (filter price_char trimmed)) of
               None \<Rightarrow> (Some 0, fl (3 / 10))
             | Some major \<Rightarrow>
                 if \<not> finite_double major \<or> major < 0 then (Some 0, fl (3 / 10))
                 else let cents = fl (major * 100)
                      in (if finite_double cents then Some (math_round cents) else None, 1)))"

text \<open>A cell that the row is too short for is undefined.\<close>

definition cell_at :: "js_string list \<Rightarrow> nat option \<Rightarrow> js_string option" where
  "cell_at row column = (case column of None \<Rightarrow> None | Some i \<Rightarrow> if i < length row then Some (row ! i) else None)"

definition truthy :: "js_string option \<Rightarrow> js_string option" where
  "truthy v = (case v of None \<Rightarrow> None | Some s \<Rightarrow> if s = [] then None else Some s)"

definition buildDraftItem :: "uuid \<Rightarrow> js_string list \<Rightarrow> (import_field \<Rightarrow> nat option) \<Rightarrow> string \<Rightarrow> draft_item option" where
  "buildDraftItem i row columns currency =
    (case truthy (map_option js_trim (cell_at row (columns f_name))) of
       None \<Rightarrow> None
     | Some name \<Rightarrow>
         (let rawCategory = truthy (map_option js_trim (cell_at row (columns f_category)));
              category = nullish rawCategory (js ''Uncategorised'');
              categoryConfidence = (if rawCategory = None then fl (3 / 10) else 1);
              rawShortName = truthy (map_option js_trim (cell_at row (columns f_shortName)));
              shortName = nullish rawShortName (deriveShortName name);
              shortNameConfidence = (if rawShortName = None then 1 / 2 else 1);
              (priceMinor, priceConfidence) = parsePriceMinor (cell_at row (columns f_price))
          in Some \<lparr>di_id = i, di_name = name, di_shortName = shortName, di_category = category, di_priceMinor = priceMinor,
                   di_currency = currency,
                   di_confidence = \<lparr>dc_name = 1, dc_shortName = shortNameConfidence, dc_category = categoryConfidence,
                     dc_price = priceConfidence,
                     dc_overall = overall 1 shortNameConfidence categoryConfidence priceConfidence\<rparr>\<rparr>))"

text \<open>Identifiers come from \<open>uuidv7\<close>, one for each row that becomes an item.\<close>

fun body_items :: "uuid \<Rightarrow> js_string list list \<Rightarrow> (import_field \<Rightarrow> nat option) \<Rightarrow> string \<Rightarrow> draft_item list" where
  "body_items i [] columns currency = []"
| "body_items i (row # body) columns currency =
    (case buildDraftItem i row columns currency of
       None \<Rightarrow> body_items i body columns currency
     | Some item \<Rightarrow> item # body_items (Suc i) body columns currency)"

definition rowsToDraftItems :: "uuid \<Rightarrow> js_string list list \<Rightarrow> string \<Rightarrow> draft_item list" where
  "rowsToDraftItems i rows currency = (case rows of [] \<Rightarrow> [] | header # body \<Rightarrow> body_items i body (matchColumns header) currency)"

section \<open>Files\<close>

datatype source_type = st_csv | st_xlsx | st_image | st_pdf

text \<open>A cell value of ExcelJS, as \<open>cellToString\<close> tells them apart.\<close>

datatype cell_primitive = cp_string js_string | cp_number js_string | cp_other

datatype cell_value =
    cv_empty
  | cv_date js_string
  | cv_richText "js_string option list"
  | cv_object "cell_primitive option" cell_primitive
  | cv_scalar js_string

definition primitive_text :: "cell_primitive \<Rightarrow> js_string" where
  "primitive_text p = (case p of cp_string s \<Rightarrow> s | cp_number s \<Rightarrow> s | cp_other \<Rightarrow> [])"

fun cellToString :: "cell_value \<Rightarrow> js_string" where
  "cellToString cv_empty = []"
| "cellToString (cv_date stamp) = stamp"
| "cellToString (cv_richText parts) = concat (map (\<lambda>t. nullish t []) parts)"
| "cellToString (cv_object res txt) = primitive_text (nullish res txt)"
| "cellToString (cv_scalar s) = s"

text \<open>The rows of the first sheet; \<open>None\<close> when the workbook has no sheet. Loading the workbook is ExcelJS.\<close>

definition parseXlsx :: "cell_value list list option \<Rightarrow> js_string list list" where
  "parseXlsx sheet = (case sheet of None \<Rightarrow> [] | Some rows \<Rightarrow> filter has_content (map (map cellToString) rows))"

definition extractDraftItems ::
  "(8 word list \<Rightarrow> js_string) \<Rightarrow> (8 word list \<Rightarrow> cell_value list list option) \<Rightarrow> uuid \<Rightarrow> source_type \<Rightarrow> 8 word list \<Rightarrow>
   string \<Rightarrow> draft_item list result" where
  "extractDraftItems utf8 load_sheet i sourceType buffer currency =
    (case sourceType of
       st_csv \<Rightarrow> Inr (rowsToDraftItems i (parseCsv (utf8 buffer)) currency)
     | st_xlsx \<Rightarrow> Inr (rowsToDraftItems i (parseXlsx (load_sheet buffer)) currency)
     | _ \<Rightarrow> Inl (Unprocessable ''extraction_unavailable''))"

definition EXTENSION_SOURCE :: "js_string \<Rightarrow> source_type option" where
  "EXTENSION_SOURCE = map_of [(js ''csv'', st_csv), (js ''xlsx'', st_xlsx), (js ''jpg'', st_image), (js ''jpeg'', st_image),
     (js ''png'', st_image), (js ''pdf'', st_pdf)]"

text \<open>The extension in lower case; only ASCII letters can make it one of the table.\<close>

definition extensionOf :: "js_string \<Rightarrow> js_string" where
  "extensionOf filename =
    (if 46 \<in> set filename then concat (map lower_unit (rev (takeWhile (\<lambda>c. c \<noteq> 46) (rev filename)))) else [])"

definition PNG_SIGNATURE :: "8 word list" where
  "PNG_SIGNATURE = [0x89, 0x50, 0x4e, 0x47, 0x0d, 0x0a, 0x1a, 0x0a]"

fun matchesMagicBytes :: "source_type \<Rightarrow> 8 word list \<Rightarrow> bool" where
  "matchesMagicBytes st_pdf buffer = (take 4 buffer = [0x25, 0x50, 0x44, 0x46])"
| "matchesMagicBytes st_xlsx buffer = (take 2 buffer = [0x50, 0x4b])"
| "matchesMagicBytes st_image buffer = (take 2 buffer = [0xff, 0xd8] \<or> take 8 buffer = PNG_SIGNATURE)"
| "matchesMagicBytes st_csv buffer = (buffer \<noteq> [])"

record uploaded_file =
  uf_originalname :: js_string
  uf_buffer :: "8 word list"

definition resolveSourceType :: "uploaded_file \<Rightarrow> source_type result" where
  "resolveSourceType f =
    (if uf_buffer f = [] then Inl (BadRequest ''validation_failed'')
     else case EXTENSION_SOURCE (extensionOf (uf_originalname f)) of
       None \<Rightarrow> Inl (BadRequest ''validation_failed'')
     | Some s \<Rightarrow> if matchesMagicBytes s (uf_buffer f) then Inr s else Inl (BadRequest ''validation_failed''))"

section \<open>Prices in the reports\<close>

text \<open>\<open>(Number(minor) / 100).toFixed(2)\<close>: the conversion and the division are rounded, the print is exact.\<close>

definition formatMinor :: "int \<Rightarrow> js_string" where
  "formatMinor minor = to_fixed2 (fl (fl (of_int minor) / 100))"

lemma show_cents_chars:
  "(\<forall>c \<in> set (show_cents n). price_char c) \<and> show_cents n \<noteq> [] \<and> hd (show_cents n) \<noteq> 46 \<and> last (show_cents n) \<noteq> 46"
proof -
  have nd: "\<not> is_digit 46" by (simp add: is_digit_def)
  have d: "\<forall>c \<in> set (js (show_digits k)). is_digit c" "show_digits k \<noteq> []" for k using js_show_digits by auto
  have p: "js ''.'' = [46]" by (simp add: js_def of_char_def)
  have s: "show_cents n = js (show_digits (n div 100)) @ [46] @ js (show_digits (n mod 100 div 10)) @ js (show_digits (n mod 10))"
    by (simp only: show_cents_def js_append p)
  have ne: "js (show_digits k) \<noteq> []" for k using d(2) [of k] by (simp add: js_def)
  have hl: "is_digit (hd (js (show_digits k)))" "is_digit (last (js (show_digits k)))" for k
    using d(1) [of k] ne [of k] by simp_all
  have "is_digit (hd (show_cents n))" "is_digit (last (show_cents n))"
    using hl ne by (simp_all add: s)
  moreover have "\<forall>c \<in> set (show_cents n). price_char c" using d(1) by (auto simp: s price_char_def)
  ultimately show ?thesis using nd s by auto
qed

lemma price_char_no_space: "price_char c \<Longrightarrow> \<not> js_space c"
  by (auto simp: price_char_def is_digit_def js_space_def word_le_nat_alt unsigned_eq_0_iff)

lemma formatMinor_cents:
  assumes "0 \<le> m" "m < 2 ^ 50"
  shows "formatMinor m = show_cents (nat m)"
proof (cases "m = 0")
  case False
  then have m: "0 < m" using assms(1) by simp
  have f: "fl (of_int m) = of_int m" using assms m by (intro fl_of_int) simp
  have e: "\<bar>100 * fl (of_int m / 100) - of_int m\<bar> \<le> 1 / 8" by (rule cents_error [OF m assms(2)])
  have m1: "(1 :: rat) \<le> of_int m" using m by simp
  have pos: "0 \<le> fl (of_int m / 100)" using e m1 by linarith
  have "math_round (100 * fl (of_int m / 100)) = m" using e by (intro math_round_near) linarith
  with pos f show ?thesis by (simp add: formatMinor_def to_fixed2_def)
qed (use math_round_of_int [of 0] in \<open>simp add: formatMinor_def to_fixed2_def\<close>)

lemma parse_formatMinor:
  assumes "0 \<le> m" "m < 2 ^ 50"
  shows "parsePriceMinor (Some (formatMinor m)) = (Some m, 1)"
proof -
  let ?s = "show_cents (nat m)"
  let ?x = "fl (of_int m / 100)"
  have ch: "\<forall>c \<in> set ?s. price_char c" "?s \<noteq> []" using show_cents_chars by auto
  then have trim: "js_trim ?s = ?s" by (intro js_trim_id) (simp add: price_char_no_space)
  have fp: "filter price_char ?s = ?s" using ch(1) by simp
  have x: "parse_decimal ?s = Some (of_int m / 100)" using assms(1) by (simp add: parse_show_cents)
  have main: "0 \<le> ?x \<and> finite_double ?x \<and> finite_double (fl (?x * 100)) \<and> math_round (fl (?x * 100)) = m"
  proof (cases "m = 0")
    case True
    then show ?thesis using math_round_of_int [of 0] by (simp add: finite_double_def)
  next
    case False
    then have m: "0 < m" using assms(1) by simp
    note e = cents_error [OF m assms(2)]
    have m1: "(1 :: rat) \<le> of_int m" "(of_int m :: rat) < 2 ^ 50"
      using m assms(2) by (simp, metis of_int_less_iff of_int_numeral of_int_power)
    have big: "(2 :: rat) ^ 50 + 1 \<le> 2 ^ 1024" by simp
    have "0 \<le> ?x" "\<bar>?x\<bar> < 2 ^ 50 + 1" using e(1) m1 by linarith+
    moreover have y: "\<bar>fl (?x * 100) - of_int m\<bar> < 1 / 2" using e(2) by (simp only: mult.commute [of ?x])
    moreover have "\<bar>fl (?x * 100)\<bar> < 2 ^ 50 + 1" using y m1 by linarith
    moreover have "math_round (fl (?x * 100)) = m" using y by (rule math_round_near)
    ultimately show ?thesis using big unfolding finite_double_def by (meson less_le_trans)
  qed
  then show ?thesis
    by (simp add: formatMinor_cents [OF assms] parsePriceMinor_def trim ch(2) fp x Let_def not_less)
qed

end
