(* ===== verification/MenuImport.thy ===== *)
theory MenuImport
  imports Pricing MenuExtraction
begin

text \<open>
  The menu import of the owner's console, \<^verbatim>\<open>src/src/admin/menu-import/menu-import.service.ts\<close> with
  \<^verbatim>\<open>src/src/admin/menu/commit-items.ts\<close> and the go-live checklist \<^verbatim>\<open>src/src/admin/checklist/checklist.service.ts\<close>:
  upload, review, and the commit that lands a draft in the menu; and the menu report
  \<open>exportMenuCatalogueCsv\<close> of \<^verbatim>\<open>src/src/admin/reports/reports.service.ts\<close>, the other reader of the same tables.

  The rows of categories and items hold what the console needs of them, with names as full strings of code units; prices,
  tenants and the audit log are tables of the database the till works on. \<open>toLowerCase\<close> compares names: its Unicode tables
  are a parameter, as are the collation the database sorts names by and the way it stores a text; nothing is assumed of them.
\<close>

section \<open>State\<close>

record menu_category =
  mc_id :: uuid
  mc_tenantId :: uuid
  mc_name :: js_string
  mc_sortOrder :: int

record catalogue_variant =
  cv_id :: uuid
  cv_name :: js_string
  cv_sortOrder :: int

record catalogue_item =
  ci_id :: uuid
  ci_tenantId :: uuid
  ci_categoryId :: uuid
  ci_name :: js_string
  ci_shortName :: js_string
  ci_available :: bool
  ci_archivedAt :: "date option"
  ci_variants :: "catalogue_variant list"

datatype import_status = im_draft | im_committed

record import_draft =
  md_id :: uuid
  md_tenantId :: uuid
  md_status :: import_status
  md_sourceType :: source_type
  md_fileName :: js_string
  md_items :: "draft_item list"
  md_updatedAt :: date
  md_committedAt :: "date option"

datatype checklist_step = ck_outlet_details | ck_floor_plan | ck_menu_import | ck_devices | ck_staff

definition CHECKLIST_STEPS :: "checklist_step list" where
  "CHECKLIST_STEPS = [ck_outlet_details, ck_floor_plan, ck_menu_import, ck_devices, ck_staff]"

record checklist_progress =
  cp_tenant :: uuid
  cp_completedAt :: "checklist_step \<Rightarrow> date option"

record console_db =
  sd_db :: db
  categories :: "menu_category list"
  catalogueItems :: "catalogue_item list"
  importDrafts :: "import_draft list"
  checklists :: "checklist_progress list"

record setup_env =
  se_env :: env
  lower :: "js_string \<Rightarrow> js_string"
  utf8 :: "8 word list \<Rightarrow> js_string"
  load_sheet :: "8 word list \<Rightarrow> cell_value list list option"
  store_text :: "js_string \<Rightarrow> string"
  name_le :: "js_string \<Rightarrow> js_string \<Rightarrow> bool"

text \<open>The owner signed in to the console.\<close>

record admin_principal =
  ad_id :: uuid
  ad_tenantId :: uuid
  ad_email :: string

definition fresh :: "console_db \<Rightarrow> uuid \<times> console_db" where
  "fresh s = (case take_id (sd_db s) of (i, d) \<Rightarrow> (i, s\<lparr>sd_db := d\<rparr>))"

definition write_audit :: "setup_env \<Rightarrow> admin_principal \<Rightarrow> string \<Rightarrow> string \<Rightarrow> console_db \<Rightarrow> console_db" where
  "write_audit e owner action reason s =
     s\<lparr>sd_db := (sd_db s)\<lparr>auditEvents := auditEvents (sd_db s) @
       [\<lparr>ae_tenantId = ad_tenantId owner, ae_actorId = Some (ad_id owner), ae_actorEmail = ad_email owner, ae_approverId = None,
         ae_approverName = None, ae_action = action, ae_reason = reason, ae_occurredAt = now (se_env e)\<rparr>]\<rparr>\<rparr>"

section \<open>The go-live checklist\<close>

record checklist_view =
  ck_steps :: "(checklist_step \<times> date option) list"
  ck_canGoLive :: bool
  ck_tenantStatus :: tenant_status

definition toSteps :: "checklist_progress \<Rightarrow> (checklist_step \<times> date option) list" where
  "toSteps row = map (\<lambda>st. (st, cp_completedAt row st)) CHECKLIST_STEPS"

definition missingSteps :: "checklist_progress \<Rightarrow> checklist_step list" where
  "missingSteps row = filter (\<lambda>st. cp_completedAt row st = None) CHECKLIST_STEPS"

definition upsert_progress ::
  "uuid \<Rightarrow> (checklist_progress \<Rightarrow> checklist_progress) \<Rightarrow> console_db \<Rightarrow> checklist_progress \<times> console_db" where
  "upsert_progress tenantId f s =
    (case find_row cp_tenant tenantId (checklists s) of
       Some row \<Rightarrow> (f row, s\<lparr>checklists := update_rows (\<lambda>r. cp_tenant r = tenantId) f (checklists s)\<rparr>)
     | None \<Rightarrow> let row = f \<lparr>cp_tenant = tenantId, cp_completedAt = \<lambda>_. None\<rparr>
               in (row, s\<lparr>checklists := checklists s @ [row]\<rparr>))"

definition checklist_of :: "tenant \<Rightarrow> checklist_progress \<Rightarrow> checklist_view" where
  "checklist_of tenant row =
     \<lparr>ck_steps = toSteps row, ck_canGoLive = (missingSteps row = []), ck_tenantStatus = tn_status tenant\<rparr>"

definition getChecklist :: "uuid \<Rightarrow> console_db \<Rightarrow> (checklist_view \<times> console_db) result" where
  "getChecklist tenantId s =
    (case find_row tn_id tenantId (tenants (sd_db s)) of
       None \<Rightarrow> Inl (NotFound ''not_found'')
     | Some tenant \<Rightarrow> (case upsert_progress tenantId (\<lambda>r. r) s of (row, s') \<Rightarrow> Inr (checklist_of tenant row, s')))"

definition updateStep :: "setup_env \<Rightarrow> uuid \<Rightarrow> checklist_step \<Rightarrow> bool \<Rightarrow> console_db \<Rightarrow> (checklist_view \<times> console_db) result" where
  "updateStep e tenantId step completed s =
    (case find_row tn_id tenantId (tenants (sd_db s)) of
       None \<Rightarrow> Inl (NotFound ''not_found'')
     | Some tenant \<Rightarrow>
         (let stamp = (if completed then Some (now (se_env e)) else None)
          in case upsert_progress tenantId (\<lambda>r. r\<lparr>cp_completedAt := (cp_completedAt r)(step := stamp)\<rparr>) s of
               (row, s') \<Rightarrow> Inr (checklist_of tenant row, s')))"

definition set_active :: "uuid \<Rightarrow> console_db \<Rightarrow> console_db" where
  "set_active tenantId s =
     s\<lparr>sd_db := (sd_db s)\<lparr>tenants := update_rows (\<lambda>t. tn_id t = tenantId) (\<lambda>t. t\<lparr>tn_status := t_active\<rparr>) (tenants (sd_db s))\<rparr>\<rparr>"

definition goLive :: "setup_env \<Rightarrow> admin_principal \<Rightarrow> console_db \<Rightarrow> (tenant_status \<times> console_db) result" where
  "goLive e owner s =
    (case find_row tn_id (ad_tenantId owner) (tenants (sd_db s)) of
       None \<Rightarrow> Inl (NotFound ''not_found'')
     | Some tenant \<Rightarrow>
         (case upsert_progress (ad_tenantId owner) (\<lambda>r. r) s of (row, s1) \<Rightarrow>
            if missingSteps row \<noteq> [] then Inl (Conflict ''checklist_incomplete'')
            else if tn_status tenant = t_active then Inr (t_active, s1)
            else Inr (t_active, write_audit e owner ''tenant.went_live'' ''Owner completed the go-live checklist''
                        (set_active (ad_tenantId owner) s1))))"

section \<open>Landing items in the menu\<close>

record commit_item_input =
  cm_name :: js_string
  cm_shortName :: js_string
  cm_category :: js_string
  cm_priceMinor :: "int option"
  cm_currency :: string

record committed_item =
  ct_id :: uuid
  ct_name :: js_string
  ct_shortName :: js_string
  ct_categoryId :: uuid
  ct_priceId :: uuid
  ct_priceMinor :: int
  ct_currency :: string

record commit_state =
  co_setup :: console_db
  co_byName :: "js_string \<Rightarrow> uuid option"
  co_nextSort :: int
  co_categories :: "(uuid \<times> js_string) list"
  co_items :: "committed_item list"

definition menu_currency :: "tax_country \<Rightarrow> string" where
  "menu_currency c = (if c = IN then ''INR'' else ''AUD'')"

text \<open>A later category of the same lower-case name replaces an earlier one, as in the constructor of a \<open>Map\<close>.\<close>

definition categories_by_name :: "setup_env \<Rightarrow> uuid \<Rightarrow> console_db \<Rightarrow> js_string \<Rightarrow> uuid option" where
  "categories_by_name e tenantId s =
     foldl (\<lambda>m c. m(lower e (mc_name c) \<mapsto> mc_id c)) Map.empty (filter (\<lambda>c. mc_tenantId c = tenantId) (categories s))"

definition find_or_create_category :: "setup_env \<Rightarrow> uuid \<Rightarrow> js_string \<Rightarrow> commit_state \<Rightarrow> uuid \<times> commit_state" where
  "find_or_create_category e tenantId name c =
    (case co_byName c (lower e name) of
       Some k \<Rightarrow> (k, c)
     | None \<Rightarrow>
         (case fresh (co_setup c) of (i, s) \<Rightarrow>
            (i, c\<lparr>co_setup := s\<lparr>categories := categories s @
                      [\<lparr>mc_id = i, mc_tenantId = tenantId, mc_name = name, mc_sortOrder = co_nextSort c + 1\<rparr>]\<rparr>,
                  co_byName := (co_byName c)(lower e name \<mapsto> i), co_nextSort := co_nextSort c + 1,
                  co_categories := co_categories c @ [(i, name)]\<rparr>)))"

text \<open>The partial unique index \<open>menu_items_live_name_per_category\<close>.\<close>

definition live_name_taken :: "console_db \<Rightarrow> uuid \<Rightarrow> uuid \<Rightarrow> js_string \<Rightarrow> bool" where
  "live_name_taken s tenantId categoryId name \<longleftrightarrow>
     (\<exists>x \<in> set (catalogueItems s). ci_tenantId x = tenantId \<and> ci_categoryId x = categoryId \<and> ci_name x = name \<and> ci_archivedAt x = None)"

definition insert_item :: "uuid \<Rightarrow> uuid \<Rightarrow> js_string \<Rightarrow> js_string \<Rightarrow> console_db \<Rightarrow> (uuid \<times> console_db) result" where
  "insert_item tenantId categoryId name shortName s =
    (if live_name_taken s tenantId categoryId name then Inl (InternalError ''P2002'')
     else case fresh s of (i, s1) \<Rightarrow>
       Inr (i, s1\<lparr>catalogueItems := catalogueItems s1 @
         [\<lparr>ci_id = i, ci_tenantId = tenantId, ci_categoryId = categoryId, ci_name = name, ci_shortName = shortName,
           ci_available = True, ci_archivedAt = None, ci_variants = []\<rparr>]\<rparr>))"

definition insert_first_price :: "setup_env \<Rightarrow> uuid \<Rightarrow> uuid \<Rightarrow> int \<Rightarrow> string \<Rightarrow> console_db \<Rightarrow> uuid \<times> console_db" where
  "insert_first_price e tenantId itemId minor currency s =
    (case fresh s of (i, s1) \<Rightarrow>
       (i, s1\<lparr>sd_db := (sd_db s1)\<lparr>itemPrices := itemPrices (sd_db s1) @
          [\<lparr>ip_id = i, ip_tenantId = tenantId, ip_itemId = itemId, ip_variantId = None, ip_outletId = None, ip_channel = None,
            ip_priceMinor = minor, ip_currency = currency, ip_effectiveAt = now (se_env e), ip_createdAt = now (se_env e)\<rparr>]\<rparr>\<rparr>))"

definition commit_item :: "setup_env \<Rightarrow> uuid \<Rightarrow> commit_item_input \<Rightarrow> commit_state \<Rightarrow> commit_state result" where
  "commit_item e tenantId input c =
    (case find_or_create_category e tenantId (cm_category input) c of (k, c1) \<Rightarrow>
       r_bind (insert_item tenantId k (cm_name input) (cm_shortName input) (co_setup c1)) (\<lambda>(i, s2).
         case cm_priceMinor input of
           None \<Rightarrow> Inl (InternalError ''BigInt'')
         | Some minor \<Rightarrow>
             (case insert_first_price e tenantId i minor (cm_currency input) s2 of (p, s3) \<Rightarrow>
                Inr (c1\<lparr>co_setup := s3, co_items := co_items c1 @
                  [\<lparr>ct_id = i, ct_name = cm_name input, ct_shortName = cm_shortName input, ct_categoryId = k,
                    ct_priceId = p, ct_priceMinor = minor, ct_currency = cm_currency input\<rparr>]\<rparr>))))"

definition commit_start :: "setup_env \<Rightarrow> uuid \<Rightarrow> console_db \<Rightarrow> commit_state" where
  "commit_start e tenantId s =
     \<lparr>co_setup = s, co_byName = categories_by_name e tenantId s,
      co_nextSort = int (count_rows (\<lambda>c. mc_tenantId c = tenantId) (categories s)), co_categories = [], co_items = []\<rparr>"

definition commitItems :: "setup_env \<Rightarrow> uuid \<Rightarrow> commit_item_input list \<Rightarrow> console_db \<Rightarrow> commit_state result" where
  "commitItems e tenantId inputs s = r_fold (commit_item e tenantId) inputs (commit_start e tenantId s)"

section \<open>Drafts\<close>

datatype duplicate_reason = on_menu | repeated

record draft_duplicate =
  dd_id :: uuid
  dd_name :: js_string
  dd_category :: js_string
  dd_reason :: duplicate_reason

text \<open>
  The keys are joined with a bar, the unit 124. One step of the loop of \<open>findDuplicates\<close>: the names seen so far and the
  duplicates found.
\<close>

definition in_draft_key :: "setup_env \<Rightarrow> draft_item \<Rightarrow> js_string" where
  "in_draft_key e item = lower e (di_category item) @ [124] @ lower e (di_name item)"

definition duplicate_of ::
  "setup_env \<Rightarrow> (uuid \<times> js_string) set \<Rightarrow> (js_string \<Rightarrow> uuid option) \<Rightarrow> js_string list \<Rightarrow> draft_item \<Rightarrow> duplicate_reason option" where
  "duplicate_of e onMenu byName seen item =
    (if (case byName (lower e (di_category item)) of None \<Rightarrow> False | Some k \<Rightarrow> (k, lower e (di_name item)) \<in> onMenu) then Some on_menu
     else if in_draft_key e item \<in> set seen then Some repeated else None)"

fun scan_duplicates ::
  "setup_env \<Rightarrow> (uuid \<times> js_string) set \<Rightarrow> (js_string \<Rightarrow> uuid option) \<Rightarrow> js_string list \<Rightarrow> draft_item list \<Rightarrow> draft_duplicate list" where
  "scan_duplicates e onMenu byName seen [] = []"
| "scan_duplicates e onMenu byName seen (item # items) =
    (case duplicate_of e onMenu byName seen item of
       None \<Rightarrow> []
     | Some r \<Rightarrow> [\<lparr>dd_id = di_id item, dd_name = di_name item, dd_category = di_category item, dd_reason = r\<rparr>]) @
    scan_duplicates e onMenu byName (in_draft_key e item # seen) items"

definition menu_names :: "setup_env \<Rightarrow> uuid \<Rightarrow> console_db \<Rightarrow> (uuid \<times> js_string) set" where
  "menu_names e tenantId s =
     set (map (\<lambda>x. (ci_categoryId x, lower e (ci_name x)))
       (filter (\<lambda>x. ci_tenantId x = tenantId \<and> ci_archivedAt x = None) (catalogueItems s)))"

definition findDuplicates :: "setup_env \<Rightarrow> uuid \<Rightarrow> draft_item list \<Rightarrow> console_db \<Rightarrow> draft_duplicate list" where
  "findDuplicates e tenantId items s =
     scan_duplicates e (menu_names e tenantId s) (categories_by_name e tenantId s) [] items"

record draft_view =
  dw_importId :: uuid
  dw_status :: import_status
  dw_sourceType :: source_type
  dw_fileName :: js_string
  dw_items :: "(draft_item \<times> duplicate_reason option) list"

definition draft_view_of :: "import_draft \<Rightarrow> draft_duplicate list \<Rightarrow> draft_view" where
  "draft_view_of draft duplicates =
     \<lparr>dw_importId = md_id draft, dw_status = md_status draft, dw_sourceType = md_sourceType draft, dw_fileName = md_fileName draft,
      dw_items = map (\<lambda>item. (item, map_option dd_reason (find (\<lambda>d. dd_id d = di_id item) (rev duplicates)))) (md_items draft)\<rparr>"

definition uploadImport :: "setup_env \<Rightarrow> admin_principal \<Rightarrow> uploaded_file \<Rightarrow> console_db \<Rightarrow> (draft_view \<times> console_db) result" where
  "uploadImport e owner f s =
    r_bind (resolveSourceType f) (\<lambda>sourceType.
      case find_row tn_id (ad_tenantId owner) (tenants (sd_db s)) of
        None \<Rightarrow> Inl (NotFound ''not_found'')
      | Some tenant \<Rightarrow>
          r_bind (extractDraftItems (utf8 e) (load_sheet e) (nextId (sd_db s)) sourceType (uf_buffer f) (menu_currency (tn_country tenant)))
            (\<lambda>items.
              let n = nextId (sd_db s) + length items;
                  draft = \<lparr>md_id = n, md_tenantId = ad_tenantId owner, md_status = im_draft, md_sourceType = sourceType,
                           md_fileName = uf_originalname f, md_items = items, md_updatedAt = now (se_env e), md_committedAt = None\<rparr>;
                  s1 = s\<lparr>sd_db := (sd_db s)\<lparr>nextId := Suc n\<rparr>, importDrafts := importDrafts s @ [draft]\<rparr>
              in Inr (draft_view_of draft (findDuplicates e (ad_tenantId owner) items s1), s1)))"

definition latestImport :: "setup_env \<Rightarrow> admin_principal \<Rightarrow> console_db \<Rightarrow> draft_view option" where
  "latestImport e owner s =
     map_option (\<lambda>draft. draft_view_of draft (findDuplicates e (ad_tenantId owner) (md_items draft) s))
       (latest_by md_updatedAt (filter (\<lambda>m. md_tenantId m = ad_tenantId owner \<and> md_status m = im_draft) (importDrafts s)))"

definition load_open_draft :: "admin_principal \<Rightarrow> uuid \<Rightarrow> console_db \<Rightarrow> import_draft result" where
  "load_open_draft owner importId s =
    (case find_row md_id importId (importDrafts s) of
       None \<Rightarrow> Inl (NotFound ''not_found'')
     | Some draft \<Rightarrow>
         if md_tenantId draft \<noteq> ad_tenantId owner then Inl (NotFound ''not_found'')
         else if md_status draft \<noteq> im_draft then Inl (Conflict ''already_committed'')
         else Inr draft)"

record patch_item =
  pa_id :: uuid
  pa_name :: "js_string option"
  pa_shortName :: "js_string option"
  pa_category :: "js_string option"
  pa_priceMinor :: "int option"
  pa_currency :: "string option"

definition applyEdit :: "patch_item \<Rightarrow> draft_item \<Rightarrow> draft_item" where
  "applyEdit edit item =
    (let c = di_confidence item;
         keep = (\<lambda>edited old. if edited then 1 else old);
         n = keep (pa_name edit \<noteq> None) (dc_name c);
         sh = keep (pa_shortName edit \<noteq> None) (dc_shortName c);
         k = keep (pa_category edit \<noteq> None) (dc_category c);
         p = keep (pa_priceMinor edit \<noteq> None) (dc_price c)
     in item\<lparr>di_name := nullish (pa_name edit) (di_name item),
             di_shortName := nullish (pa_shortName edit) (di_shortName item),
             di_category := nullish (pa_category edit) (di_category item),
             di_priceMinor := (if pa_priceMinor edit = None then di_priceMinor item else pa_priceMinor edit),
             di_currency := nullish (pa_currency edit) (di_currency item),
             di_confidence := \<lparr>dc_name = n, dc_shortName = sh, dc_category = k, dc_price = p, dc_overall = overall n sh k p\<rparr>\<rparr>)"

definition edit_step :: "patch_item \<Rightarrow> draft_item list \<Rightarrow> draft_item list result" where
  "edit_step edit items =
    (if pa_id edit \<notin> set (map di_id items) then Inl (BadRequest ''validation_failed'')
     else Inr (update_rows (\<lambda>x. di_id x = pa_id edit) (applyEdit edit) items))"

definition remove_step :: "uuid \<Rightarrow> draft_item list \<Rightarrow> draft_item list result" where
  "remove_step k items =
    (if k \<notin> set (map di_id items) then Inl (BadRequest ''validation_failed'') else Inr (filter (\<lambda>x. di_id x \<noteq> k) items))"

definition update_draft :: "uuid \<Rightarrow> (import_draft \<Rightarrow> import_draft) \<Rightarrow> console_db \<Rightarrow> console_db" where
  "update_draft k f s = s\<lparr>importDrafts := update_rows (\<lambda>m. md_id m = k) f (importDrafts s)\<rparr>"

definition patchImport ::
  "setup_env \<Rightarrow> admin_principal \<Rightarrow> uuid \<Rightarrow> patch_item list \<Rightarrow> uuid list \<Rightarrow> console_db \<Rightarrow> (draft_view \<times> console_db) result" where
  "patchImport e owner importId edits removeIds s =
    r_bind (load_open_draft owner importId s) (\<lambda>draft.
      r_bind (r_fold edit_step edits (md_items draft)) (\<lambda>edited.
        r_bind (r_fold remove_step removeIds edited) (\<lambda>items.
          let f = (\<lambda>m. m\<lparr>md_items := items, md_updatedAt := now (se_env e)\<rparr>); s1 = update_draft importId f s
          in Inr (draft_view_of (f draft) (findDuplicates e (ad_tenantId owner) items s1), s1))))"

section \<open>Committing a draft\<close>

record commit_view =
  cw_importId :: uuid
  cw_committedAt :: date
  cw_categories :: "(uuid \<times> js_string) list"
  cw_items :: "committed_item list"

definition draft_input :: "draft_item \<Rightarrow> commit_item_input" where
  "draft_input item = \<lparr>cm_name = di_name item, cm_shortName = di_shortName item, cm_category = di_category item,
     cm_priceMinor = di_priceMinor item, cm_currency = di_currency item\<rparr>"

definition commit_transaction ::
  "setup_env \<Rightarrow> admin_principal \<Rightarrow> uuid \<Rightarrow> console_db \<Rightarrow> (commit_view \<times> console_db) result" where
  "commit_transaction e owner importId s =
    r_bind (load_open_draft owner importId s) (\<lambda>draft.
      if md_items draft = [] then Inl (BadRequest ''validation_failed'')
      else if findDuplicates e (ad_tenantId owner) (md_items draft) s \<noteq> [] then Inl (Conflict ''duplicate_items'')
      else r_bind (commitItems e (ad_tenantId owner) (map draft_input (md_items draft)) s) (\<lambda>c.
        let s1 = write_audit e owner ''menu.imported'' (''Committed menu import ('' @ show_int (int (length (co_items c))) @ '' item(s)) from '' @
              store_text e (md_fileName draft)) (co_setup c);
            s2 = update_draft importId (\<lambda>m. m\<lparr>md_status := im_committed, md_committedAt := Some (now (se_env e)),
                   md_updatedAt := now (se_env e)\<rparr>) s1
        in Inr (\<lparr>cw_importId = importId, cw_committedAt = now (se_env e), cw_categories = co_categories c,
                 cw_items = co_items c\<rparr>, s2)))"

text \<open>
  The checklist is updated in a transaction of its own, after the commit: an error there leaves the menu committed. A unique
  violation is reported as a conflict.
\<close>

definition commitImport :: "setup_env \<Rightarrow> admin_principal \<Rightarrow> uuid \<Rightarrow> console_db \<Rightarrow> commit_view result \<times> console_db" where
  "commitImport e owner importId s =
    (case commit_transaction e owner importId s of
       Inl err \<Rightarrow> (Inl (if err = InternalError ''P2002'' then Conflict ''conflict'' else err), s)
     | Inr (v, s1) \<Rightarrow>
         (case updateStep e (ad_tenantId owner) ck_menu_import True s1 of
            Inl err \<Rightarrow> (Inl err, s1)
          | Inr (_, s2) \<Rightarrow> (Inr v, s2)))"

section \<open>The menu report\<close>

fun insert_le :: "('a \<Rightarrow> 'a \<Rightarrow> bool) \<Rightarrow> 'a \<Rightarrow> 'a list \<Rightarrow> 'a list" where
  "insert_le le x [] = [x]"
| "insert_le le x (y # ys) = (if le x y then x # y # ys else y # insert_le le x ys)"

definition sort_by_le :: "('a \<Rightarrow> 'a \<Rightarrow> bool) \<Rightarrow> 'a list \<Rightarrow> 'a list" where
  "sort_by_le le xs = foldr (insert_le le) xs []"

definition category_of :: "console_db \<Rightarrow> catalogue_item \<Rightarrow> menu_category option" where
  "category_of s item = find_row mc_id (ci_categoryId item) (categories s)"

definition category_sort :: "console_db \<Rightarrow> catalogue_item \<Rightarrow> int" where
  "category_sort s item = (case category_of s item of None \<Rightarrow> 0 | Some c \<Rightarrow> mc_sortOrder c)"

text \<open>\<open>orderBy: [{ category: { sortOrder } }, { name }]\<close>.\<close>

definition report_before :: "setup_env \<Rightarrow> console_db \<Rightarrow> catalogue_item \<Rightarrow> catalogue_item \<Rightarrow> bool" where
  "report_before e s a b \<longleftrightarrow> category_sort s a < category_sort s b \<or>
     (category_sort s a = category_sort s b \<and> name_le e (ci_name a) (ci_name b))"

record report_line =
  rl_category :: js_string
  rl_name :: js_string
  rl_shortName :: js_string
  rl_variant :: js_string
  rl_price :: "item_price option"
  rl_available :: bool

definition item_lines :: "catalogue_item \<Rightarrow> (uuid option \<times> js_string) list" where
  "item_lines item = (if ci_variants item = [] then [(None, [])]
     else map (\<lambda>v. (Some (cv_id v), cv_name v)) (sort_key cv_sortOrder (ci_variants item)))"

definition report_lines :: "setup_env \<Rightarrow> admin_principal \<Rightarrow> console_db \<Rightarrow> report_line list" where
  "report_lines e owner s =
     concat (map (\<lambda>item. map (\<lambda>(vid, vname).
        \<lparr>rl_category = (case category_of s item of None \<Rightarrow> [] | Some c \<Rightarrow> mc_name c), rl_name = ci_name item,
         rl_shortName = ci_shortName item, rl_variant = vname,
         rl_price = resolveCurrentPrice (se_env e) (sd_db s) (ad_tenantId owner) (ci_id item) vid dine_in None,
         rl_available = ci_available item\<rparr>) (item_lines item))
       (sort_by_le (report_before e s) (filter (\<lambda>x. ci_tenantId x = ad_tenantId owner) (catalogueItems s))))"

definition report_row :: "report_line \<Rightarrow> js_string list" where
  "report_row l = [rl_category l, rl_name l, rl_shortName l, rl_variant l,
     (case rl_price l of None \<Rightarrow> [] | Some p \<Rightarrow> formatMinor (ip_priceMinor p)),
     (case rl_price l of None \<Rightarrow> [] | Some p \<Rightarrow> js (ip_currency p)),
     (if rl_available l then js ''yes'' else js ''no'')]"

definition REPORT_HEADER :: "js_string list" where
  "REPORT_HEADER = map js [''category'', ''item'', ''short_name'', ''variant'', ''price'', ''currency'', ''available'']"

definition assertCsvFormat :: "string \<Rightarrow> unit result" where
  "assertCsvFormat fmt = (if fmt \<noteq> ''csv'' then Inl (BadRequest ''validation_failed'') else Inr ())"

definition exportMenuCatalogueCsv :: "setup_env \<Rightarrow> admin_principal \<Rightarrow> string \<Rightarrow> console_db \<Rightarrow> js_string result" where
  "exportMenuCatalogueCsv e owner fmt s =
     r_bind (assertCsvFormat fmt) (\<lambda>_. Inr (toCsv REPORT_HEADER (map report_row (report_lines e owner s))))"

section \<open>The report reads back as a draft\<close>

lemma report_columns:
  "matchColumns REPORT_HEADER f_name = Some 1" "matchColumns REPORT_HEADER f_shortName = Some 2"
  "matchColumns REPORT_HEADER f_category = Some 0" "matchColumns REPORT_HEADER f_price = Some 4"
  by code_simp+

text \<open>What a line of the report says of a dish, as a draft item would hold it.\<close>

definition line_core :: "string \<Rightarrow> report_line \<Rightarrow> js_string \<times> js_string \<times> js_string \<times> int option \<times> string" where
  "line_core currency l =
    (let name = js_trim (rl_name l); short = js_trim (rl_shortName l); cat = js_trim (rl_category l)
     in (name, if short = [] then deriveShortName name else short, if cat = [] then js ''Uncategorised'' else cat,
         Some (case rl_price l of None \<Rightarrow> 0 | Some p \<Rightarrow> ip_priceMinor p), currency))"

definition draft_core :: "draft_item \<Rightarrow> js_string \<times> js_string \<times> js_string \<times> int option \<times> string" where
  "draft_core x = (di_name x, di_shortName x, di_category x, di_priceMinor x, di_currency x)"

definition price_printable :: "report_line \<Rightarrow> bool" where
  "price_printable l = (case rl_price l of None \<Rightarrow> True | Some p \<Rightarrow> 0 \<le> ip_priceMinor p \<and> ip_priceMinor p < 2 ^ 50)"

lemma parse_report_price:
  "price_printable l \<Longrightarrow>
   fst (parsePriceMinor (Some (case rl_price l of None \<Rightarrow> [] | Some p \<Rightarrow> formatMinor (ip_priceMinor p)))) =
   Some (case rl_price l of None \<Rightarrow> 0 | Some p \<Rightarrow> ip_priceMinor p)"
proof (cases "rl_price l")
  case None
  then show ?thesis by (simp add: parsePriceMinor_def js_trim_def)
next
  case (Some p)
  then show "price_printable l \<Longrightarrow> ?thesis" by (simp add: price_printable_def parse_formatMinor)
qed

lemma build_report_row:
  assumes "price_printable l"
  shows "map_option draft_core (buildDraftItem i (report_row l) (matchColumns REPORT_HEADER) currency) =
    (if js_trim (rl_name l) = [] then None else Some (line_core currency l))"
proof -
  have cells: "cell_at (report_row l) (Some 1) = Some (rl_name l)" "cell_at (report_row l) (Some 2) = Some (rl_shortName l)"
    "cell_at (report_row l) (Some 0) = Some (rl_category l)"
    "cell_at (report_row l) (Some 4) = Some (case rl_price l of None \<Rightarrow> [] | Some p \<Rightarrow> formatMinor (ip_priceMinor p))"
    by (simp_all add: cell_at_def report_row_def)
  obtain m c where p: "parsePriceMinor (Some (case rl_price l of None \<Rightarrow> [] | Some p \<Rightarrow> formatMinor (ip_priceMinor p))) = (m, c)"
    by fastforce
  have "m = Some (case rl_price l of None \<Rightarrow> 0 | Some p \<Rightarrow> ip_priceMinor p)"
    using parse_report_price [OF assms] p by simp
  then show ?thesis
    by (auto simp: buildDraftItem_def report_columns cells truthy_def p draft_core_def line_core_def Let_def
        simp del: One_nat_def split: option.splits)
qed

lemma report_body:
  assumes "\<forall>l \<in> set ls. price_printable l"
  shows "map draft_core (body_items i (filter has_content (map report_row ls)) (matchColumns REPORT_HEADER) currency) =
    map (line_core currency) (filter (\<lambda>l. js_trim (rl_name l) \<noteq> []) ls)"
  using assms
proof (induction ls arbitrary: i)
  case (Cons l ls)
  show ?case
  proof (cases "has_content (report_row l)")
    case True
    show ?thesis
      using build_report_row [of l i currency] Cons.IH [of i] Cons.IH [of "Suc i"] Cons.prems True
      by (auto split: option.splits if_splits)
  next
    case False
    then have "js_trim (rl_name l) = []" by (simp add: has_content_def report_row_def)
    with False Cons.IH [of i] Cons.prems show ?thesis by simp
  qed
qed simp

section \<open>What a commit does\<close>

text \<open>The state of the loop: identifiers in use are below the counter, and the name index points at the tenant's categories.\<close>

definition console_ok :: "console_db \<Rightarrow> bool" where
  "console_ok s \<longleftrightarrow> distinct (map mc_id (categories s)) \<and>
     (\<forall>c \<in> set (categories s). mc_id c < nextId (sd_db s)) \<and>
     (\<forall>x \<in> set (catalogueItems s). ci_id x < nextId (sd_db s) \<and> ci_categoryId x < nextId (sd_db s))"

definition index_ok :: "setup_env \<Rightarrow> uuid \<Rightarrow> commit_state \<Rightarrow> bool" where
  "index_ok e t c \<longleftrightarrow> (\<forall>m k. co_byName c m = Some k \<longrightarrow>
     (\<exists>x \<in> set (categories (co_setup c)). mc_id x = k \<and> mc_tenantId x = t \<and> lower e (mc_name x) = m))"

definition pending_ok :: "setup_env \<Rightarrow> uuid \<Rightarrow> commit_state \<Rightarrow> commit_item_input list \<Rightarrow> bool" where
  "pending_ok e t c inputs \<longleftrightarrow>
     distinct (map (\<lambda>i. (lower e (cm_category i), lower e (cm_name i))) inputs) \<and>
     (\<forall>i \<in> set inputs. cm_priceMinor i \<noteq> None \<and>
        (\<forall>k. co_byName c (lower e (cm_category i)) = Some k \<longrightarrow> \<not> live_name_taken (co_setup c) t k (cm_name i)))"

text \<open>A menu item with its first price, as a draft row asks for them.\<close>

definition landed :: "setup_env \<Rightarrow> uuid \<Rightarrow> menu_category list \<Rightarrow> commit_item_input \<Rightarrow> catalogue_item \<times> item_price \<Rightarrow> bool" where
  "landed e t cs input = (\<lambda>(x, p).
     ci_tenantId x = t \<and> ci_name x = cm_name input \<and> ci_shortName x = cm_shortName input \<and> ci_archivedAt x = None \<and>
     (\<exists>c \<in> set cs. mc_id c = ci_categoryId x \<and> mc_tenantId c = t \<and> lower e (mc_name c) = lower e (cm_category input)) \<and>
     ip_tenantId p = t \<and> ip_itemId p = ci_id x \<and> ip_variantId p = None \<and> ip_outletId p = None \<and> ip_channel p = None \<and>
     Some (ip_priceMinor p) = cm_priceMinor input \<and> ip_currency p = cm_currency input \<and> ip_effectiveAt p = now (se_env e))"

lemma landed_mono: "landed e t cs input xp \<Longrightarrow> set cs \<subseteq> set cs' \<Longrightarrow> landed e t cs' input xp"
  by (cases xp) (auto simp: landed_def)

lemma index_injective:
  assumes "console_ok (co_setup c)" "index_ok e t c" "co_byName c m = Some k" "co_byName c m' = Some k"
  shows "m = m'"
proof -
  obtain x y where "x \<in> set (categories (co_setup c))" "y \<in> set (categories (co_setup c))" "mc_id x = k" "mc_id y = k"
      "lower e (mc_name x) = m" "lower e (mc_name y) = m'"
    using assms(2-4) unfolding index_ok_def by metis
  then show ?thesis using assms(1) by (metis console_ok_def distinct_map inj_onD)
qed

lemma find_or_create_category_effect:
  assumes "find_or_create_category e t name c = (k, c1)" "console_ok (co_setup c)" "index_ok e t c"
  shows "console_ok (co_setup c1) \<and> index_ok e t c1 \<and> co_byName c1 (lower e name) = Some k \<and> k < nextId (sd_db (co_setup c1)) \<and>
    catalogueItems (co_setup c1) = catalogueItems (co_setup c) \<and> itemPrices (sd_db (co_setup c1)) = itemPrices (sd_db (co_setup c)) \<and>
    importDrafts (co_setup c1) = importDrafts (co_setup c) \<and> checklists (co_setup c1) = checklists (co_setup c) \<and>
    tenants (sd_db (co_setup c1)) = tenants (sd_db (co_setup c)) \<and>
    prefix (categories (co_setup c)) (categories (co_setup c1)) \<and>
    co_items c1 = co_items c \<and>
    (\<forall>m j. co_byName c1 m = Some j \<longrightarrow> co_byName c m = Some j \<or> (m = lower e name \<and> j = k \<and> (\<forall>x \<in> set (catalogueItems (co_setup c)). ci_categoryId x \<noteq> k)))"
proof (cases "co_byName c (lower e name)")
  case (Some j)
  then obtain x where "x \<in> set (categories (co_setup c))" "mc_id x = j" using assms(3) unfolding index_ok_def by metis
  then have "j < nextId (sd_db (co_setup c))" using assms(2) by (auto simp: console_ok_def)
  with Some assms show ?thesis by (simp add: find_or_create_category_def)
next
  case None
  let ?n = "nextId (sd_db (co_setup c))"
  have c1: "k = ?n" "c1 = c\<lparr>co_setup := (co_setup c)\<lparr>sd_db := (sd_db (co_setup c))\<lparr>nextId := Suc ?n\<rparr>,
        categories := categories (co_setup c) @ [\<lparr>mc_id = ?n, mc_tenantId = t, mc_name = name, mc_sortOrder = co_nextSort c + 1\<rparr>]\<rparr>,
      co_byName := (co_byName c)(lower e name \<mapsto> ?n), co_nextSort := co_nextSort c + 1, co_categories := co_categories c @ [(?n, name)]\<rparr>"
    using assms(1) None by (auto simp: find_or_create_category_def fresh_def take_id_def)
  have ok: "console_ok (co_setup c1)" using assms(2) by (auto simp: c1 console_ok_def)
  have ix: "index_ok e t c1" using assms(3) by (auto simp: c1 index_ok_def)
  have "\<forall>x \<in> set (catalogueItems (co_setup c)). ci_categoryId x \<noteq> k" using assms(2) by (auto simp: c1 console_ok_def)
  then show ?thesis using ok ix by (auto simp: c1 split: if_splits)
qed

lemma commit_item_effect:
  assumes "console_ok (co_setup c)" "index_ok e t c" "pending_ok e t c (input # inputs)"
  shows "\<exists>c' x p. commit_item e t input c = Inr c' \<and> console_ok (co_setup c') \<and> index_ok e t c' \<and> pending_ok e t c' inputs \<and>
    catalogueItems (co_setup c') = catalogueItems (co_setup c) @ [x] \<and>
    itemPrices (sd_db (co_setup c')) = itemPrices (sd_db (co_setup c)) @ [p] \<and>
    importDrafts (co_setup c') = importDrafts (co_setup c) \<and> checklists (co_setup c') = checklists (co_setup c) \<and>
    tenants (sd_db (co_setup c')) = tenants (sd_db (co_setup c)) \<and>
    prefix (categories (co_setup c)) (categories (co_setup c')) \<and> length (co_items c') = Suc (length (co_items c)) \<and>
    landed e t (categories (co_setup c')) input (x, p)"
proof -
  obtain k c1 where f: "find_or_create_category e t (cm_category input) c = (k, c1)" by fastforce
  note eff = find_or_create_category_effect [OF f assms(1,2)]
  have ok1: "console_ok (co_setup c1)" and ix1: "index_ok e t c1" and k: "co_byName c1 (lower e (cm_category input)) = Some k"
      and kn: "k < nextId (sd_db (co_setup c1))" and cat1: "catalogueItems (co_setup c1) = catalogueItems (co_setup c)"
    using eff by auto
  have old: "co_byName c m = Some j \<or> (m = lower e (cm_category input) \<and> j = k \<and> (\<forall>x \<in> set (catalogueItems (co_setup c)). ci_categoryId x \<noteq> k))"
    if "co_byName c1 m = Some j" for m j using eff that by blast
  obtain minor where minor: "cm_priceMinor input = Some minor" using assms(3) by (auto simp: pending_ok_def)
  have free: "\<not> live_name_taken (co_setup c1) t k (cm_name input)"
    using old [OF k] assms(3) by (auto simp: pending_ok_def live_name_taken_def cat1)
  obtain y where y: "y \<in> set (categories (co_setup c1))" "mc_id y = k" "mc_tenantId y = t" "lower e (mc_name y) = lower e (cm_category input)"
    using ix1 k unfolding index_ok_def by metis
  let ?n = "nextId (sd_db (co_setup c1))"
  define x where "x = \<lparr>ci_id = ?n, ci_tenantId = t, ci_categoryId = k, ci_name = cm_name input, ci_shortName = cm_shortName input,
      ci_available = True, ci_archivedAt = None, ci_variants = []\<rparr>"
  define p where "p = \<lparr>ip_id = Suc ?n, ip_tenantId = t, ip_itemId = ?n, ip_variantId = None, ip_outletId = None, ip_channel = None,
      ip_priceMinor = minor, ip_currency = cm_currency input, ip_effectiveAt = now (se_env e), ip_createdAt = now (se_env e)\<rparr>"
  define s3 where "s3 = (co_setup c1)\<lparr>sd_db := (sd_db (co_setup c1))\<lparr>nextId := Suc (Suc ?n), itemPrices := itemPrices (sd_db (co_setup c1)) @ [p]\<rparr>,
      catalogueItems := catalogueItems (co_setup c1) @ [x]\<rparr>"
  obtain c' where c': "commit_item e t input c = Inr c'" "co_setup c' = s3" "co_byName c' = co_byName c1"
      "length (co_items c') = Suc (length (co_items c1))"
    using f free minor
    by (simp add: commit_item_def insert_item_def insert_first_price_def fresh_def take_id_def s3_def x_def p_def)
  have ok': "console_ok (co_setup c')" using ok1 kn by (auto simp: c' s3_def console_ok_def x_def)
  have ix': "index_ok e t c'" using ix1 by (auto simp: c' s3_def index_ok_def)
  have "\<not> live_name_taken s3 t j (cm_name i)"
    if i: "i \<in> set inputs" and j: "co_byName c1 (lower e (cm_category i)) = Some j" for i j
  proof -
    have d: "(lower e (cm_category i), lower e (cm_name i)) \<noteq> (lower e (cm_category input), lower e (cm_name input))"
      using assms(3) i by (auto simp: pending_ok_def image_iff)
    have "\<not> live_name_taken (co_setup c) t j (cm_name i)"
      using old [OF j] assms(3) i by (auto simp: pending_ok_def live_name_taken_def)
    moreover have "\<not> (k = j \<and> cm_name input = cm_name i)"
      using index_injective [OF ok1 ix1 k] j d by metis
    ultimately show ?thesis by (auto simp: live_name_taken_def s3_def cat1 x_def)
  qed
  then have pend: "pending_ok e t c' inputs" using assms(3) by (auto simp: pending_ok_def c')
  have "landed e t (categories (co_setup c')) input (x, p)"
    using y by (auto simp: landed_def c' s3_def x_def p_def minor)
  then show ?thesis using c' ok' ix' pend eff by (auto simp: s3_def)
qed

lemma commitItems_effect:
  assumes "console_ok (co_setup c)" "index_ok e t c" "pending_ok e t c inputs"
  shows "\<exists>c' xs ps. r_fold (commit_item e t) inputs c = Inr c' \<and> console_ok (co_setup c') \<and>
    catalogueItems (co_setup c') = catalogueItems (co_setup c) @ xs \<and>
    itemPrices (sd_db (co_setup c')) = itemPrices (sd_db (co_setup c)) @ ps \<and>
    importDrafts (co_setup c') = importDrafts (co_setup c) \<and> checklists (co_setup c') = checklists (co_setup c) \<and>
    tenants (sd_db (co_setup c')) = tenants (sd_db (co_setup c)) \<and>
    prefix (categories (co_setup c)) (categories (co_setup c')) \<and>
    length (co_items c') = length (co_items c) + length inputs \<and>
    length xs = length ps \<and> list_all2 (landed e t (categories (co_setup c'))) inputs (zip xs ps)"
  using assms
proof (induction inputs arbitrary: c)
  case Nil
  then show ?case by auto
next
  case (Cons input inputs)
  obtain c1 x p where s: "commit_item e t input c = Inr c1" "console_ok (co_setup c1)" "index_ok e t c1" "pending_ok e t c1 inputs"
      "catalogueItems (co_setup c1) = catalogueItems (co_setup c) @ [x]"
      "itemPrices (sd_db (co_setup c1)) = itemPrices (sd_db (co_setup c)) @ [p]"
      "importDrafts (co_setup c1) = importDrafts (co_setup c)" "checklists (co_setup c1) = checklists (co_setup c)"
      "tenants (sd_db (co_setup c1)) = tenants (sd_db (co_setup c))"
      "prefix (categories (co_setup c)) (categories (co_setup c1))" "length (co_items c1) = Suc (length (co_items c))"
      "landed e t (categories (co_setup c1)) input (x, p)"
    using commit_item_effect [OF Cons.prems] by blast
  obtain c' xs ps where r: "r_fold (commit_item e t) inputs c1 = Inr c'" "console_ok (co_setup c')"
      "catalogueItems (co_setup c') = catalogueItems (co_setup c1) @ xs"
      "itemPrices (sd_db (co_setup c')) = itemPrices (sd_db (co_setup c1)) @ ps"
      "importDrafts (co_setup c') = importDrafts (co_setup c1)" "checklists (co_setup c') = checklists (co_setup c1)"
      "tenants (sd_db (co_setup c')) = tenants (sd_db (co_setup c1))"
      "prefix (categories (co_setup c1)) (categories (co_setup c'))"
      "length (co_items c') = length (co_items c1) + length inputs"
      "length xs = length ps" "list_all2 (landed e t (categories (co_setup c'))) inputs (zip xs ps)"
    using Cons.IH [OF s(2-4)] by blast
  have "set (categories (co_setup c1)) \<subseteq> set (categories (co_setup c'))" using r(8) by (simp add: set_mono_prefix)
  then have "landed e t (categories (co_setup c')) input (x, p)" using landed_mono [OF s(12)] by blast
  with r s show ?case
    by (intro exI [of _ c'] exI [of _ "x # xs"] exI [of _ "p # ps"]) (simp add: prefix_order.trans)
qed

lemma name_index_sound:
  assumes "foldl (\<lambda>m c. m(lower e (mc_name c) \<mapsto> mc_id c)) Map.empty cs n = Some k"
  shows "\<exists>c \<in> set cs. mc_id c = k \<and> lower e (mc_name c) = n"
  using assms by (induction cs rule: rev_induct) (auto split: if_splits)

lemma commit_start_ok: "index_ok e t (commit_start e t s)"
proof -
  have "\<exists>x \<in> set (categories s). mc_id x = k \<and> mc_tenantId x = t \<and> lower e (mc_name x) = m"
    if "categories_by_name e t s m = Some k" for m k
    using name_index_sound [OF that [unfolded categories_by_name_def]] by auto
  then show ?thesis by (simp add: index_ok_def commit_start_def)
qed

lemma scan_duplicates_none:
  assumes "scan_duplicates e onMenu byName seen items = []"
  shows "distinct (map (in_draft_key e) items) \<and> (\<forall>i \<in> set items. in_draft_key e i \<notin> set seen \<and>
    (\<forall>k. byName (lower e (di_category i)) = Some k \<longrightarrow> (k, lower e (di_name i)) \<notin> onMenu))"
  using assms
proof (induction items arbitrary: seen)
  case (Cons i items)
  then have "duplicate_of e onMenu byName seen i = None" "scan_duplicates e onMenu byName (in_draft_key e i # seen) items = []"
    by (auto split: option.splits)
  moreover from this(1) have "in_draft_key e i \<notin> set seen \<and> (\<forall>k. byName (lower e (di_category i)) = Some k \<longrightarrow> (k, lower e (di_name i)) \<notin> onMenu)"
    by (auto simp: duplicate_of_def split: if_splits option.splits)
  ultimately show ?case using Cons.IH [of "in_draft_key e i # seen"] by auto
qed simp

lemma pending_start:
  assumes "findDuplicates e t items s = []" "\<forall>x \<in> set items. di_priceMinor x \<noteq> None"
  shows "pending_ok e t (commit_start e t s) (map draft_input items)"
proof -
  note none = scan_duplicates_none [OF assms(1) [unfolded findDuplicates_def]]
  have "map (in_draft_key e) items = map ((\<lambda>(a, b). a @ [124] @ b) \<circ> (\<lambda>i. (lower e (di_category i), lower e (di_name i)))) items"
    by (simp add: in_draft_key_def)
  with none have "distinct (map (\<lambda>i. (lower e (di_category i), lower e (di_name i))) items)"
    by (auto simp: distinct_map intro: inj_on_imageI2)
  then have "distinct (map (\<lambda>i. (lower e (cm_category i), lower e (cm_name i))) (map draft_input items))"
    by (simp add: draft_input_def comp_def)
  moreover have "\<not> live_name_taken s t k (di_name i)"
    if "i \<in> set items" "categories_by_name e t s (lower e (di_category i)) = Some k" for i k
  proof -
    have "(k, lower e (di_name i)) \<notin> menu_names e t s" using none that by blast
    then show ?thesis by (force simp: live_name_taken_def menu_names_def)
  qed
  ultimately show ?thesis using assms(2) by (auto simp: pending_ok_def commit_start_def draft_input_def)
qed

lemma upsert_progress_find:
  "upsert_progress t f s = (row, s') \<Longrightarrow> (\<And>r. cp_tenant (f r) = cp_tenant r) \<Longrightarrow>
   find_row cp_tenant t (checklists s') = Some row \<and> sd_db s' = sd_db s \<and> categories s' = categories s \<and>
   catalogueItems s' = catalogueItems s \<and> importDrafts s' = importDrafts s"
  by (auto simp: upsert_progress_def find_row_update find_row_append find_row_Cons Let_def dest: find_row_Some split: option.splits)

lemma load_after_commit:
  assumes "load_open_draft owner k s = Inr draft" "importDrafts s' = importDrafts s" "\<And>m. md_id (f m) = md_id m"
    "\<And>m. md_tenantId (f m) = md_tenantId m" "\<And>m. md_status (f m) = im_committed"
  shows "load_open_draft owner k (update_draft k f s') = Inl (Conflict ''already_committed'')"
  using assms by (auto simp: load_open_draft_def update_draft_def find_row_update dest: find_row_Some split: option.splits if_splits)

lemma updateStep_ok:
  assumes "find_row tn_id t (tenants (sd_db s)) = Some tn"
  shows "\<exists>v s'. updateStep e t step True s = Inr (v, s') \<and> sd_db s' = sd_db s \<and> categories s' = categories s \<and>
    catalogueItems s' = catalogueItems s \<and> importDrafts s' = importDrafts s \<and>
    (\<exists>row. find_row cp_tenant t (checklists s') = Some row \<and> cp_completedAt row step = Some (now (se_env e)))"
proof -
  let ?f = "\<lambda>r. r\<lparr>cp_completedAt := (cp_completedAt r)(step \<mapsto> now (se_env e))\<rparr>"
  obtain row s' where u: "upsert_progress t ?f s = (row, s')" by fastforce
  have "cp_completedAt row step = Some (now (se_env e))"
    using u by (auto simp: upsert_progress_def Let_def split: option.splits)
  with upsert_progress_find [OF u] assms u show ?thesis by (simp add: updateStep_def)
qed

text \<open>
  C37: committing a draft of the tenant either refuses it, for having no rows or for a row that is already on the menu or
  repeated, and changes nothing; or it lands exactly its rows: the menu and the price list grow by one item and one price
  per row, in order, with the row's names and price and in a category of the row's name up to case. The unique index on
  live names is never met, the draft cannot be committed again, and the checklist step is done.
\<close>

theorem commitImport_lands_draft:
  assumes "console_ok s" "find_row tn_id (ad_tenantId owner) (tenants (sd_db s)) = Some tn"
    "load_open_draft owner k s = Inr draft" "\<forall>x \<in> set (md_items draft). di_priceMinor x \<noteq> None"
    "commitImport e owner k s = (r, s')"
  shows "if md_items draft = [] then r = Inl (BadRequest ''validation_failed'') \<and> s' = s
    else if findDuplicates e (ad_tenantId owner) (md_items draft) s \<noteq> [] then r = Inl (Conflict ''duplicate_items'') \<and> s' = s
    else \<exists>v xs ps. r = Inr v \<and> length (cw_items v) = length (md_items draft) \<and>
      catalogueItems s' = catalogueItems s @ xs \<and> itemPrices (sd_db s') = itemPrices (sd_db s) @ ps \<and> length xs = length ps \<and>
      list_all2 (landed e (ad_tenantId owner) (categories s')) (map draft_input (md_items draft)) (zip xs ps) \<and>
      prefix (categories s) (categories s') \<and> console_ok s' \<and>
      load_open_draft owner k s' = Inl (Conflict ''already_committed'') \<and>
      (\<exists>row. find_row cp_tenant (ad_tenantId owner) (checklists s') = Some row \<and> cp_completedAt row ck_menu_import = Some (now (se_env e)))"
proof -
  let ?t = "ad_tenantId owner" and ?items = "md_items draft"
  show ?thesis
  proof (cases "?items = [] \<or> findDuplicates e ?t ?items s \<noteq> []")
    case True
    then show ?thesis using assms(3,5) by (auto simp: commitImport_def commit_transaction_def split: if_splits)
  next
    case False
    have start: "console_ok (co_setup (commit_start e ?t s))" using assms(1) by (simp add: commit_start_def)
    have pend: "pending_ok e ?t (commit_start e ?t s) (map draft_input ?items)"
      using False assms(4) by (intro pending_start) auto
    obtain c xs ps where c: "commitItems e ?t (map draft_input ?items) s = Inr c" "console_ok (co_setup c)"
        "catalogueItems (co_setup c) = catalogueItems s @ xs" "itemPrices (sd_db (co_setup c)) = itemPrices (sd_db s) @ ps"
        "importDrafts (co_setup c) = importDrafts s" "tenants (sd_db (co_setup c)) = tenants (sd_db s)"
        "prefix (categories s) (categories (co_setup c))" "length (co_items c) = length ?items" "length xs = length ps"
        "list_all2 (landed e ?t (categories (co_setup c))) (map draft_input ?items) (zip xs ps)"
      using commitItems_effect [OF start commit_start_ok pend] by (auto simp: commitItems_def commit_start_def)
    obtain v s2 where t: "commit_transaction e owner k s = Inr (v, s2)" "length (cw_items v) = length ?items"
        "s2 = update_draft k (\<lambda>m. m\<lparr>md_status := im_committed, md_committedAt := Some (now (se_env e)), md_updatedAt := now (se_env e)\<rparr>)
           (write_audit e owner ''menu.imported'' (''Committed menu import ('' @ show_int (int (length (co_items c))) @ '' item(s)) from '' @
              store_text e (md_fileName draft)) (co_setup c))"
      using False assms(3) c(1,8) by (auto simp: commit_transaction_def Let_def)
    have s2: "catalogueItems s2 = catalogueItems s @ xs" "itemPrices (sd_db s2) = itemPrices (sd_db s) @ ps"
        "categories s2 = categories (co_setup c)" "tenants (sd_db s2) = tenants (sd_db s)" "nextId (sd_db s2) = nextId (sd_db (co_setup c))"
      using c by (simp_all add: t(3) update_draft_def write_audit_def)
    have load: "load_open_draft owner k s2 = Inl (Conflict ''already_committed'')"
      unfolding t(3) by (rule load_after_commit [OF assms(3)]) (simp_all add: c(5) write_audit_def)
    obtain w s3 where u: "updateStep e ?t ck_menu_import True s2 = Inr (w, s3)" "sd_db s3 = sd_db s2" "categories s3 = categories s2"
        "catalogueItems s3 = catalogueItems s2" "importDrafts s3 = importDrafts s2"
        "\<exists>row. find_row cp_tenant ?t (checklists s3) = Some row \<and> cp_completedAt row ck_menu_import = Some (now (se_env e))"
      using updateStep_ok [of ?t s2 tn e ck_menu_import] assms(2) s2(4) by auto
    have res: "r = Inr v" "s' = s3" using assms(5) t(1) u(1) by (auto simp: commitImport_def)
    have ok: "console_ok s3" using c(2,3) s2 u by (simp add: console_ok_def)
    have ld: "load_open_draft owner k s3 = Inl (Conflict ''already_committed'')" using load u(5) by (simp add: load_open_draft_def)
    have "\<exists>v xs ps. r = Inr v \<and> length (cw_items v) = length ?items \<and>
      catalogueItems s' = catalogueItems s @ xs \<and> itemPrices (sd_db s') = itemPrices (sd_db s) @ ps \<and> length xs = length ps \<and>
      list_all2 (landed e ?t (categories s')) (map draft_input ?items) (zip xs ps) \<and>
      prefix (categories s) (categories s') \<and> console_ok s' \<and>
      load_open_draft owner k s' = Inl (Conflict ''already_committed'') \<and>
      (\<exists>row. find_row cp_tenant ?t (checklists s') = Some row \<and> cp_completedAt row ck_menu_import = Some (now (se_env e)))"
      using ok ld u c t(2) s2 by (intro exI [of _ v] exI [of _ xs] exI [of _ ps]) (simp add: res)
    then show ?thesis using False by simp
  qed
qed

text \<open>A console with one category and one dish, and a draft of two rows.\<close>

definition s_setup_env :: setup_env where
  "s_setup_env = \<lparr>se_env = s_env, lower = (\<lambda>n. n), utf8 = map of_nat \<circ> map unat, load_sheet = (\<lambda>_. None),
     store_text = (\<lambda>_. []), name_le = (\<lambda>_ _. True)\<rparr>"

definition s_owner :: admin_principal where
  "s_owner = \<lparr>ad_id = 9, ad_tenantId = 1, ad_email = ''o@b.c''\<rparr>"

definition s_draft_item :: "uuid \<Rightarrow> js_string \<Rightarrow> js_string \<Rightarrow> int \<Rightarrow> draft_item" where
  "s_draft_item i name category minor = \<lparr>di_id = i, di_name = name, di_shortName = name, di_category = category,
     di_priceMinor = Some minor, di_currency = ''INR'',
     di_confidence = \<lparr>dc_name = 1, dc_shortName = 1, dc_category = 1, dc_price = 1, dc_overall = 1\<rparr>\<rparr>"

definition s_draft :: import_draft where
  "s_draft = \<lparr>md_id = 93, md_tenantId = 1, md_status = im_draft, md_sourceType = st_csv, md_fileName = [],
     md_items = [s_draft_item 91 [98] [70] 500, s_draft_item 92 [98] [71] 700], md_updatedAt = 0, md_committedAt = None\<rparr>"

definition s_console :: console_db where
  "s_console = \<lparr>sd_db = s_db, categories = [\<lparr>mc_id = 5, mc_tenantId = 1, mc_name = [70], mc_sortOrder = 1\<rparr>],
     catalogueItems = [\<lparr>ci_id = 50, ci_tenantId = 1, ci_categoryId = 5, ci_name = [97], ci_shortName = [97], ci_available = True,
       ci_archivedAt = None, ci_variants = []\<rparr>],
     importDrafts = [s_draft], checklists = []\<rparr>"

theorem commitImport_lands_draft_witness:
  "\<exists>v s'. commitImport s_setup_env s_owner 93 s_console = (Inr v, s') \<and> length (cw_items v) = 2 \<and>
     length (catalogueItems s') = 3 \<and> load_open_draft s_owner 93 s' = Inl (Conflict ''already_committed'')"
proof -
  obtain r s' where run: "commitImport s_setup_env s_owner 93 s_console = (r, s')" by fastforce
  have ok: "console_ok s_console" by (simp add: console_ok_def s_console_def sample_defs)
  have tn: "find_row tn_id (ad_tenantId s_owner) (tenants (sd_db s_console)) = Some s_tenant"
    by (simp add: find_row_def s_console_def s_owner_def sample_defs)
  have ld: "load_open_draft s_owner 93 s_console = Inr s_draft"
    by (simp add: load_open_draft_def find_row_def s_console_def s_owner_def s_draft_def)
  have nd: "findDuplicates s_setup_env (ad_tenantId s_owner) (md_items s_draft) s_console = []"
    by (simp add: findDuplicates_def duplicate_of_def in_draft_key_def menu_names_def categories_by_name_def s_draft_def
        s_draft_item_def s_console_def s_owner_def s_setup_env_def)
  have "\<forall>x \<in> set (md_items s_draft). di_priceMinor x \<noteq> None" by (simp add: s_draft_def s_draft_item_def)
  from commitImport_lands_draft [OF ok tn ld this run] nd
  obtain v xs ps where "r = Inr v" "length (cw_items v) = length (md_items s_draft)" "catalogueItems s' = catalogueItems s_console @ xs"
      "length xs = length ps" "load_open_draft s_owner 93 s' = Inl (Conflict ''already_committed'')"
      "list_all2 (landed s_setup_env (ad_tenantId s_owner) (categories s')) (map draft_input (md_items s_draft)) (zip xs ps)"
    by (auto simp: s_draft_def)
  moreover from this(4,6) have "length xs = 2" by (auto simp: s_draft_def dest: list_all2_lengthD)
  ultimately show ?thesis using run by (auto simp: s_draft_def s_console_def)
qed

text \<open>
  C36: the menu report, uploaded again as a CSV file, gives back the menu: one draft row per line of the report whose dish
  has a name, with the same name, short name, category and current price to the minor unit, although the price was
  divided by 100, printed with two decimals, parsed and multiplied in floating point on the way.
\<close>

theorem menu_report_round_trip:
  assumes "exportMenuCatalogueCsv e owner ''csv'' s = Inr csv" "utf8 e buffer = csv"
    "\<forall>l \<in> set (report_lines e owner s). price_printable l"
  shows "\<exists>items. extractDraftItems (utf8 e) (load_sheet e) i st_csv buffer currency = Inr items \<and>
    map draft_core items = map (line_core currency) (filter (\<lambda>l. js_trim (rl_name l) \<noteq> []) (report_lines e owner s))"
proof -
  have csv: "csv = toCsv REPORT_HEADER (map report_row (report_lines e owner s))"
    using assms(1) by (simp add: exportMenuCatalogueCsv_def assertCsvFormat_def)
  have h: "has_content REPORT_HEADER" by code_simp
  show ?thesis
    using report_body [OF assms(3)] h
    by (simp add: extractDraftItems_def assms(2) csv csv_roundtrip rowsToDraftItems_def)
qed

definition s_report_env :: setup_env where
  "s_report_env = s_setup_env\<lparr>utf8 := (\<lambda>_. toCsv REPORT_HEADER (map report_row (report_lines s_setup_env s_owner s_console)))\<rparr>"

theorem menu_report_round_trip_witness:
  "\<exists>csv items. exportMenuCatalogueCsv s_report_env s_owner ''csv'' s_console = Inr csv \<and>
     extractDraftItems (utf8 s_report_env) (load_sheet s_report_env) 7 st_csv [65] ''INR'' = Inr items \<and>
     map draft_core items = [([97], [97], [70], Some 20000, ''INR'')]"
proof -
  have same: "report_lines s_report_env s_owner s_console = report_lines s_setup_env s_owner s_console"
    by (simp add: report_lines_def report_before_def [abs_def] s_report_env_def)
  obtain csv where x: "exportMenuCatalogueCsv s_report_env s_owner ''csv'' s_console = Inr csv"
      "csv = utf8 s_report_env [65]"
    by (simp add: exportMenuCatalogueCsv_def assertCsvFormat_def same) (simp add: s_report_env_def)
  obtain p where p: "resolveCurrentPrice s_env s_db 1 50 None dine_in None = Some p" "ip_priceMinor p = 20000"
    by (simp add: resolveCurrentPrice_def pickCurrentPrice_def price_eligible_def price_score_def sample_defs)
  have l: "report_lines s_setup_env s_owner s_console =
      [\<lparr>rl_category = [70], rl_name = [97], rl_shortName = [97], rl_variant = [], rl_price = Some p, rl_available = True\<rparr>]"
    using p(1) by (simp add: report_lines_def item_lines_def sort_by_le_def category_of_def find_row_def s_setup_env_def s_owner_def s_console_def)
  have "\<forall>l \<in> set (report_lines s_report_env s_owner s_console). price_printable l"
    using p(2) by (simp add: same l price_printable_def)
  from menu_report_round_trip [OF x(1) x(2) [symmetric] this] x(1) show ?thesis
    using p(2) by (auto simp: same l line_core_def js_trim_def js_space_def)
qed

end
