(* ===== verification/Reports.thy ===== *)
theory Reports
  imports System MenuImport "HOL-Library.Product_Lexorder"
begin

text \<open>
  The owner's payments report, \<^verbatim>\<open>src/src/admin/reports/reports.service.ts\<close>: the finalised bills of a date range, newest
  first, in pages with a cursor on (finalizedAt, id), with totals over the whole range, and as a CSV file. The cursor text
  is base64url of a JSON object and is represented by the pair it encodes, as \<open>garbled\<close> when it does not decode, and as
  \<open>no_such_moment\<close> when it decodes to strings that are no date or no id, which the driver refuses;
  an empty text is as good as none;
  \<open>Number(limit)\<close> is represented by its value. \<open>localIsoWithOffset\<close> prints with the zone tables of \<open>Intl\<close>
  and is a parameter.
\<close>

section \<open>Requests and rows\<close>

record payments_filter =
  pf_outletId :: "uuid option"
  pf_from :: "date option"
  pf_to :: "date option"

record payments_cursor =
  pc_finalizedAt :: date
  pc_id :: uuid

datatype cursor_text = garbled | no_such_moment | cursor_of payments_cursor

record payments_query =
  pq_filter :: payments_filter
  pq_cursor :: "cursor_text option"
  pq_limit :: "rat option option"

definition PAYMENTS_LIMIT_DEFAULT :: nat where
  "PAYMENTS_LIMIT_DEFAULT = 50"

definition PAYMENTS_LIMIT_MAX :: int where
  "PAYMENTS_LIMIT_MAX = 200"

text \<open>The outer option is the parameter's presence, the inner one is \<open>NaN\<close>.\<close>

definition parsePaymentsLimit :: "rat option option \<Rightarrow> nat result" where
  "parsePaymentsLimit raw = (case raw of
     None \<Rightarrow> Inr PAYMENTS_LIMIT_DEFAULT
   | Some None \<Rightarrow> Inl (BadRequest ''validation_failed'')
   | Some (Some v) \<Rightarrow>
       if of_int \<lfloor>v\<rfloor> \<noteq> v \<or> v < 1 \<or> of_int PAYMENTS_LIMIT_MAX < v then Inl (BadRequest ''validation_failed'')
       else Inr (nat \<lfloor>v\<rfloor>))"

definition decodePaymentsCursor :: "cursor_text option \<Rightarrow> payments_cursor option result" where
  "decodePaymentsCursor raw = (case raw of
     None \<Rightarrow> Inr None
   | Some garbled \<Rightarrow> Inl (BadRequest ''validation_failed'')
   | Some no_such_moment \<Rightarrow> Inl (InternalError ''validation'')
   | Some (cursor_of c) \<Rightarrow> Inr (Some c))"

definition at_or_after :: "date option \<Rightarrow> date option \<Rightarrow> bool" where
  "at_or_after bound at' = (case bound of None \<Rightarrow> True | Some b \<Rightarrow> (case at' of None \<Rightarrow> False | Some t \<Rightarrow> b \<le> t))"

definition at_or_before :: "date option \<Rightarrow> date option \<Rightarrow> bool" where
  "at_or_before bound at' = (case bound of None \<Rightarrow> True | Some b \<Rightarrow> (case at' of None \<Rightarrow> False | Some t \<Rightarrow> t \<le> b))"

definition paymentsWhere :: "uuid \<Rightarrow> payments_filter \<Rightarrow> bill \<Rightarrow> bool" where
  "paymentsWhere tenantId f b \<longleftrightarrow> b_tenantId b = tenantId \<and> b_status b = b_finalized \<and>
     (case pf_outletId f of None \<Rightarrow> True | Some out \<Rightarrow> b_outletId b = out) \<and>
     at_or_after (pf_from f) (b_finalizedAt b) \<and> at_or_before (pf_to f) (b_finalizedAt b)"

text \<open>The condition a cursor adds, and the descending order on (finalizedAt, id).\<close>

definition before_cursor :: "payments_cursor option \<Rightarrow> bill \<Rightarrow> bool" where
  "before_cursor cursor b = (case cursor of
     None \<Rightarrow> True
   | Some c \<Rightarrow> (case b_finalizedAt b of
       None \<Rightarrow> False
     | Some t \<Rightarrow> t < pc_finalizedAt c \<or> (t = pc_finalizedAt c \<and> b_id b < pc_id c)))"

definition bill_key :: "bill \<Rightarrow> date \<times> uuid" where
  "bill_key b = (nullish (b_finalizedAt b) 0, b_id b)"

definition newest_first :: "bill list \<Rightarrow> bill list" where
  "newest_first bs = rev (sort_key bill_key bs)"

record payment_tender_row =
  pr_method :: tender_method
  pr_amountMinor :: int
  pr_createdAt :: date

record payment_note_row =
  po_noteId :: uuid
  po_amountMinor :: int
  po_method :: "tender_method option"
  po_reason :: string
  po_createdAt :: date

record payment_row =
  pw_billId :: uuid
  pw_billNumber :: "int option"
  pw_finalizedAt :: "date option"
  pw_outletId :: uuid
  pw_outletName :: string
  pw_timezone :: string
  pw_orderId :: uuid
  pw_source :: order_source
  pw_tableLabel :: "string option"
  pw_tokenNumber :: "int option"
  pw_cashierName :: "string option"
  pw_subtotalMinor :: int
  pw_discountMinor :: "int option"
  pw_discountReason :: "string option"
  pw_taxMinor :: int
  pw_taxBreakdown :: "tax_breakdown_line list"
  pw_totalMinor :: int
  pw_roundOffMinor :: "int option"
  pw_tenders :: "payment_tender_row list"
  pw_creditNotes :: "payment_note_row list"

definition readTaxBreakdownLines :: "stored_tax_breakdown option \<Rightarrow> tax_breakdown_line list" where
  "readTaxBreakdownLines stored = (case stored of None \<Rightarrow> [] | Some s \<Rightarrow> sb_lines s)"

definition toCreditNoteRow :: "bool \<Rightarrow> credit_note \<Rightarrow> payment_note_row" where
  "toCreditNoteRow pricesIncludeTax n =
     \<lparr>po_noteId = cn_id n, po_amountMinor = (if pricesIncludeTax then cn_subtotalMinor n else cn_subtotalMinor n + cn_taxMinor n),
      po_method = cn_method n, po_reason = cn_reason n, po_createdAt = cn_createdAt n\<rparr>"

text \<open>
  A bill with the relations of \<open>PAYMENTS_INCLUDE\<close>. The order and the outlet of a bill exist by foreign keys; a
  missing one is the driver's error. The time zone of the outlet, which the CSV file reads off the loaded bill, rides
  along in the row.
\<close>

definition toPaymentRow :: "db \<Rightarrow> bill \<Rightarrow> payment_row result" where
  "toPaymentRow d b =
    (case (find_row ou_id (b_outletId b) (outlets d), find_row o_id (b_orderId b) (orders d)) of
       (Some out, Some ord) \<Rightarrow> Inr
         \<lparr>pw_billId = b_id b, pw_billNumber = b_billNumber b, pw_finalizedAt = b_finalizedAt b, pw_outletId = b_outletId b,
          pw_outletName = ou_name out, pw_timezone = ou_timezone out, pw_orderId = b_orderId b, pw_source = o_source ord,
          pw_tableLabel = (case o_tableId ord of None \<Rightarrow> None | Some k \<Rightarrow> map_option dt_label (find_row dt_id k (diningTables d))),
          pw_tokenNumber = o_tokenNumber ord,
          pw_cashierName = (case b_finalizedByStaffId b of None \<Rightarrow> None | Some k \<Rightarrow> map_option su_name (find_row su_id k (staffUsers d))),
          pw_subtotalMinor = b_subtotalMinor b, pw_discountMinor = b_discountMinor b, pw_discountReason = b_discountReason b,
          pw_taxMinor = b_taxMinor b, pw_taxBreakdown = readTaxBreakdownLines (b_taxBreakdown b), pw_totalMinor = bill_total b,
          pw_roundOffMinor = b_roundOffMinor b,
          pw_tenders = map (\<lambda>t. \<lparr>pr_method = td_method t, pr_amountMinor = td_amountMinor t, pr_createdAt = td_createdAt t\<rparr>)
            (filter (\<lambda>t. td_billId t = b_id b) (tenders d)),
          pw_creditNotes = map (toCreditNoteRow (b_pricesIncludeTax b)) (filter (\<lambda>n. cn_originalBillId n = b_id b) (creditNotes d))\<rparr>
     | _ \<Rightarrow> Inl (InternalError ''relation''))"

section \<open>Totals\<close>

record payments_totals =
  rt_count :: nat
  rt_subtotalMinor :: int
  rt_discountMinor :: int
  rt_taxMinor :: int
  rt_totalMinor :: int
  rt_roundOffMinor :: int
  rt_tenderedMinor :: int
  rt_refundedMinor :: int
  rt_netMinor :: int

text \<open>\<open>pricesIncludeTaxByBillId.get(note.originalBillId) ?? false\<close>.\<close>

definition note_includes_tax :: "bill list \<Rightarrow> credit_note \<Rightarrow> bool" where
  "note_includes_tax bs n = (case find_row b_id (cn_originalBillId n) (rev bs) of None \<Rightarrow> False | Some b \<Rightarrow> b_pricesIncludeTax b)"

definition totalsFor :: "db \<Rightarrow> (bill \<Rightarrow> bool) \<Rightarrow> payments_totals" where
  "totalsFor d wh =
    (let bs = filter wh (bills d);
         billIds = map b_id bs;
         totalMinor = foldl (\<lambda>acc b. acc + bill_total b) 0 bs;
         refundedMinor = foldl (\<lambda>acc n. acc + (if note_includes_tax bs n then cn_subtotalMinor n else cn_subtotalMinor n + cn_taxMinor n)) 0
           (filter (\<lambda>n. cn_originalBillId n \<in> set billIds) (creditNotes d))
     in \<lparr>rt_count = length bs, rt_subtotalMinor = foldl (\<lambda>acc b. acc + b_subtotalMinor b) 0 bs,
         rt_discountMinor = foldl (\<lambda>acc b. acc + nullish (b_discountMinor b) 0) 0 bs,
         rt_taxMinor = foldl (\<lambda>acc b. acc + b_taxMinor b) 0 bs, rt_totalMinor = totalMinor,
         rt_roundOffMinor = foldl (\<lambda>acc b. acc + nullish (b_roundOffMinor b) 0) 0 bs,
         rt_tenderedMinor = sum_rows td_amountMinor (filter (\<lambda>t. td_billId t \<in> set billIds) (tenders d)),
         rt_refundedMinor = refundedMinor, rt_netMinor = totalMinor - refundedMinor\<rparr>)"

section \<open>Pages\<close>

record payments_page =
  pg_currency :: string
  pg_items :: "payment_row list"
  pg_nextCursor :: "payments_cursor option"
  pg_totals :: payments_totals

definition assertOutlet :: "db \<Rightarrow> uuid \<Rightarrow> uuid option \<Rightarrow> unit result" where
  "assertOutlet d tenantId outletId = (case outletId of
     None \<Rightarrow> Inr ()
   | Some k \<Rightarrow> (case find_row ou_id k (outlets d) of
       None \<Rightarrow> Inl (NotFound ''not_found'')
     | Some out \<Rightarrow> if ou_tenantId out \<noteq> tenantId then Inl (NotFound ''not_found'') else Inr ()))"

fun r_map :: "('a \<Rightarrow> 'b result) \<Rightarrow> 'a list \<Rightarrow> 'b list result" where
  "r_map f [] = Inr []"
| "r_map f (x # xs) = r_bind (f x) (\<lambda>y. r_bind (r_map f xs) (\<lambda>ys. Inr (y # ys)))"

definition page_rows :: "db \<Rightarrow> uuid \<Rightarrow> payments_filter \<Rightarrow> payments_cursor option \<Rightarrow> bill list" where
  "page_rows d tenantId f cursor =
     newest_first (filter (\<lambda>b. paymentsWhere tenantId f b \<and> before_cursor cursor b) (bills d))"

definition next_cursor :: "nat \<Rightarrow> bill list \<Rightarrow> bill list \<Rightarrow> payments_cursor option" where
  "next_cursor limit rows page =
    (if length rows > limit \<and> page \<noteq> [] then
       (case b_finalizedAt (last page) of
          None \<Rightarrow> None
        | Some t \<Rightarrow> Some \<lparr>pc_finalizedAt = t, pc_id = b_id (last page)\<rparr>)
     else None)"

definition listPayments :: "admin_principal \<Rightarrow> payments_query \<Rightarrow> db \<Rightarrow> payments_page result" where
  "listPayments owner q d =
    r_bind (parsePaymentsLimit (pq_limit q)) (\<lambda>limit.
      r_bind (decodePaymentsCursor (pq_cursor q)) (\<lambda>cursor.
        r_bind (assertOutlet d (ad_tenantId owner) (pf_outletId (pq_filter q))) (\<lambda>_.
          let rows = take (limit + 1) (page_rows d (ad_tenantId owner) (pq_filter q) cursor);
              page = take limit rows
          in case find_row tn_id (ad_tenantId owner) (tenants d) of
               None \<Rightarrow> Inl (InternalError ''P2025'')
             | Some tenant \<Rightarrow>
                 r_bind (r_map (toPaymentRow d) page) (\<lambda>items.
                   Inr \<lparr>pg_currency = (if tn_country tenant = IN then ''INR'' else ''AUD''), pg_items = items,
                        pg_nextCursor = next_cursor limit rows page,
                        pg_totals = totalsFor d (paymentsWhere (ad_tenantId owner) (pq_filter q))\<rparr>))))"

section \<open>The CSV file\<close>

record clock_env =
  ke_wall :: "date \<Rightarrow> string \<Rightarrow> js_string"
  ke_utc :: "js_string \<Rightarrow> date"

fun replace_first :: "'a \<Rightarrow> 'a \<Rightarrow> 'a list \<Rightarrow> 'a list" where
  "replace_first x y [] = []"
| "replace_first x y (z # zs) = (if z = x then y # zs else z # replace_first x y zs)"

definition pad2 :: "int \<Rightarrow> js_string" where
  "pad2 n = (let s = js (show_int n) in replicate (2 - length s) 48 @ s)"

definition localIsoWithOffset :: "clock_env \<Rightarrow> date \<Rightarrow> string \<Rightarrow> js_string" where
  "localIsoWithOffset k instant timeZone =
    (let wall = replace_first 32 84 (ke_wall k instant timeZone);
         offsetMinutes = math_round (fl (of_int (ke_utc k (wall @ js ''Z'') - instant div 1000 * 1000) / 60000));
         sign = (if offsetMinutes < 0 then js ''-'' else js ''+'');
         mag = \<bar>offsetMinutes\<bar>
     in wall @ sign @ pad2 (mag div 60) @ js '':'' @ pad2 (mag mod 60))"

definition method_text :: "tender_method \<Rightarrow> string" where
  "method_text m = (case m of cash \<Rightarrow> ''cash'' | upi_manual \<Rightarrow> ''upi_manual'' | upi_intent \<Rightarrow> ''upi_intent'' | upi_qr \<Rightarrow> ''upi_qr''
     | card_online \<Rightarrow> ''card_online'' | card_terminal \<Rightarrow> ''card_terminal'' | external \<Rightarrow> ''external'')"

definition source_text :: "order_source \<Rightarrow> string" where
  "source_text s = (case s of src_pos \<Rightarrow> ''pos'' | src_qr \<Rightarrow> ''qr'' | src_kiosk \<Rightarrow> ''kiosk'')"

definition number_cell :: "int option \<Rightarrow> js_string" where
  "number_cell n = (case n of None \<Rightarrow> [] | Some i \<Rightarrow> js (show_int i))"

text \<open>The columns of a finalised bill; a bill without number or instant is no finalised bill, and reading it throws.\<close>

definition payment_cells :: "clock_env \<Rightarrow> payment_row \<Rightarrow> js_string list result" where
  "payment_cells k r = (case (pw_billNumber r, pw_finalizedAt r) of
     (Some n, Some at') \<Rightarrow> Inr
       [js (show_int n), localIsoWithOffset k at' (pw_timezone r), js (pw_outletName r), js (source_text (pw_source r)),
        js (nullish (pw_tableLabel r) []), number_cell (pw_tokenNumber r), js (nullish (pw_cashierName r) []),
        formatMinor (pw_subtotalMinor r), formatMinor (nullish (pw_discountMinor r) 0), js (nullish (pw_discountReason r) []),
        formatMinor (pw_taxMinor r), formatMinor (pw_totalMinor r),
        join_with (js '';'') (map (\<lambda>t. js (method_text (pr_method t)) @ js ''='' @ formatMinor (pr_amountMinor t)) (pw_tenders r)),
        join_with (js '';'') (map (\<lambda>c. js (po_reason c) @ js ''='' @ formatMinor (po_amountMinor c)) (pw_creditNotes r)),
        formatMinor (nullish (pw_roundOffMinor r) 0)]
   | _ \<Rightarrow> Inl (InternalError ''null''))"

definition PAYMENTS_HEADER :: "js_string list" where
  "PAYMENTS_HEADER = map js [''bill_number'', ''finalized_at'', ''outlet'', ''source'', ''table'', ''token_number'', ''cashier'', ''subtotal'',
     ''discount'', ''discount_reason'', ''tax'', ''total'', ''tenders'', ''credit_notes'', ''round_off'']"

definition exportPaymentsCsv :: "clock_env \<Rightarrow> admin_principal \<Rightarrow> payments_filter \<Rightarrow> db \<Rightarrow> js_string result" where
  "exportPaymentsCsv k owner f d =
    r_bind (assertOutlet d (ad_tenantId owner) (pf_outletId f)) (\<lambda>_.
      r_bind (r_map (\<lambda>b. r_bind (toPaymentRow d b) (payment_cells k)) (page_rows d (ad_tenantId owner) f None)) (\<lambda>rows.
        Inr (toCsv PAYMENTS_HEADER rows)))"

section \<open>A client that follows the cursors\<close>

text \<open>What a caller does to read the whole report; a walk that never ends is \<open>None\<close>.\<close>

partial_function (option) followPages ::
  "admin_principal \<Rightarrow> payments_filter \<Rightarrow> rat option option \<Rightarrow> db \<Rightarrow> payments_cursor option \<Rightarrow> payments_page list result option" where
  "followPages owner f limit d cursor =
    (case listPayments owner \<lparr>pq_filter = f, pq_cursor = map_option cursor_of cursor, pq_limit = limit\<rparr> d of
       Inl err \<Rightarrow> Some (Inl err)
     | Inr p \<Rightarrow> (case pg_nextCursor p of
         None \<Rightarrow> Some (Inr [p])
       | Some c \<Rightarrow> Option.bind (followPages owner f limit d (Some c)) (\<lambda>r. Some (r_bind r (\<lambda>ps. Inr (p # ps))))))"

section \<open>Every bill once, newest first\<close>

lemma r_map_append: "r_map f (xs @ ys) = r_bind (r_map f xs) (\<lambda>as. r_bind (r_map f ys) (\<lambda>bs. Inr (as @ bs)))"
  by (induction xs) (auto simp: r_bind_def split: sum.splits)

lemma r_map_length: "r_map f xs = Inr ys \<Longrightarrow> length ys = length xs"
  by (induction xs arbitrary: ys) (auto simp: r_bind_def split: sum.splits)

lemma r_map_images: "r_map f xs = Inr ys \<Longrightarrow> (\<And>x y. f x = Inr y \<Longrightarrow> g x = h y) \<Longrightarrow> map g xs = map h ys"
  by (induction xs arbitrary: ys) (auto simp: r_bind_def split: sum.splits)

lemma r_map_defined: "\<forall>x \<in> set xs. \<exists>y. f x = Inr y \<Longrightarrow> \<exists>ys. r_map f xs = Inr ys"
  by (induction xs) (auto simp: r_bind_def)

lemma newest_first_set [simp]: "set (newest_first bs) = set bs"
  by (simp add: newest_first_def)

lemma newest_first_filter: "filter p (newest_first bs) = newest_first (filter p bs)"
  by (simp add: newest_first_def rev_filter [symmetric] filter_sort)

lemma newest_first_sorted:
  assumes "distinct (map b_id bs)"
  shows "sorted_wrt (\<lambda>x y. bill_key y < bill_key x) (newest_first bs)"
proof -
  have "distinct (map bill_key bs)"
    using assms by (auto simp: distinct_map inj_on_def bill_key_def)
  then have "distinct (map bill_key (sort_key bill_key bs))"
    by (simp add: distinct_map)
  then have "sorted_wrt (<) (map bill_key (sort_key bill_key bs))"
    by (simp add: strict_sorted_iff)
  then show ?thesis by (simp add: newest_first_def sorted_wrt_rev sorted_wrt_map)
qed

lemma filter_below:
  assumes "sorted_wrt (\<lambda>x y. k y < (k x :: 'k :: linorder)) (xs @ y # zs)"
  shows "filter (\<lambda>x. k x < k y) (xs @ y # zs) = zs"
  using assms by (auto simp: sorted_wrt_append filter_empty_conv filter_id_conv dest: less_asym)

lemma finalised_instant: "books_ok d \<Longrightarrow> b \<in> set (bills d) \<Longrightarrow> paymentsWhere t f b \<Longrightarrow> \<exists>i. b_finalizedAt b = Some i"
  by (drule (1) books_okD(1)) (auto simp: bill_ok_def paymentsWhere_def)

lemma before_cursor_key:
  assumes "b_finalizedAt b = Some i"
  shows "before_cursor (Some c) b \<longleftrightarrow> bill_key b < (pc_finalizedAt c, pc_id c)"
  using assms by (auto simp: before_cursor_def bill_key_def)

lemma page_rows_sorted: "books_ok d \<Longrightarrow> sorted_wrt (\<lambda>x y. bill_key y < bill_key x) (page_rows d t f c)"
  unfolding page_rows_def by (rule newest_first_sorted) (simp add: books_ok_def keys_ok_def distinct_map_filter)

lemma page_rows_next:
  assumes ok: "books_ok d" and split: "page_rows d t f c = xs @ y # zs" and y: "b_finalizedAt y = Some i"
  shows "page_rows d t f (Some \<lparr>pc_finalizedAt = i, pc_id = b_id y\<rparr>) = zs"
proof -
  let ?p = "\<lambda>b. paymentsWhere t f b \<and> before_cursor c b"
  have "y \<in> set (page_rows d t f c)" by (simp add: split)
  then have py: "?p y" by (simp add: page_rows_def)
  have step: "(paymentsWhere t f b \<and> before_cursor (Some \<lparr>pc_finalizedAt = i, pc_id = b_id y\<rparr>) b) \<longleftrightarrow> bill_key b < bill_key y \<and> ?p b"
    if b: "b \<in> set (bills d)" for b
  proof (cases "paymentsWhere t f b")
    case True
    obtain j where j: "b_finalizedAt b = Some j" using finalised_instant [OF ok b True] by blast
    have key: "bill_key y = (i, b_id y)" by (simp add: bill_key_def y)
    have "before_cursor c b" if "bill_key b < bill_key y"
    proof (cases c)
      case (Some k)
      with py before_cursor_key [OF y] that before_cursor_key [OF j] show ?thesis by auto
    qed (simp add: before_cursor_def)
    with True before_cursor_key [OF j] key show ?thesis by auto
  qed simp
  have "page_rows d t f (Some \<lparr>pc_finalizedAt = i, pc_id = b_id y\<rparr>) =
      newest_first (filter (\<lambda>b. bill_key b < bill_key y \<and> ?p b) (bills d))"
    unfolding page_rows_def by (rule arg_cong [where f = newest_first], rule filter_cong) (use step in auto)
  also have "\<dots> = filter (\<lambda>b. bill_key b < bill_key y) (page_rows d t f c)"
    by (simp add: page_rows_def newest_first_filter filter_filter conj_ac)
  also have "\<dots> = zs"
    using filter_below [of bill_key xs y zs] page_rows_sorted [OF ok, of t f c] by (simp add: split)
  finally show ?thesis .
qed

lemma next_cursor_rest:
  assumes ok: "books_ok d" and n: "0 < n"
    and c: "next_cursor n (take (n + 1) (page_rows d t f c)) (take n (page_rows d t f c)) = Some c'"
  shows "page_rows d t f (Some c') = drop n (page_rows d t f c)" "n < length (page_rows d t f c)"
proof -
  let ?rows = "page_rows d t f c"
  from c show more: "n < length ?rows" by (auto simp: next_cursor_def split: if_splits)
  let ?y = "?rows ! (n - 1)"
  from n more have last: "last (take n ?rows) = ?y" by (subst last_conv_nth) (auto simp: min_def)
  have split: "?rows = take (n - 1) ?rows @ ?y # drop n ?rows"
    using id_take_nth_drop [of "n - 1" ?rows] n more by simp
  obtain i where i: "b_finalizedAt ?y = Some i" "c' = \<lparr>pc_finalizedAt = i, pc_id = b_id ?y\<rparr>"
    using c by (auto simp: next_cursor_def last split: if_splits option.splits)
  show "page_rows d t f (Some c') = drop n ?rows"
    using page_rows_next [OF ok split i(1)] by (simp add: i(2))
qed

lemma next_cursor_end:
  assumes "books_ok d" and "next_cursor n (take (n + 1) (page_rows d t f c)) (take n (page_rows d t f c)) = None" and "0 < n"
  shows "length (page_rows d t f c) \<le> n"
proof (rule ccontr)
  let ?rows = "page_rows d t f c"
  assume "\<not> length ?rows \<le> n"
  moreover from this assms(3) have "last (take n ?rows) \<in> set ?rows" by (metis in_set_takeD last_in_set length_greater_0_conv linorder_not_le not_less_iff_gr_or_eq order_less_trans take_eq_Nil)
  then have "last (take n ?rows) \<in> set (bills d)" "paymentsWhere t f (last (take n ?rows))" by (auto simp: page_rows_def)
  ultimately show False using finalised_instant [OF assms(1)] assms(2,3) by (fastforce simp: next_cursor_def split: if_splits)
qed

lemma parsePaymentsLimit_range: "parsePaymentsLimit l = Inr n \<Longrightarrow> 0 < n \<and> n \<le> 200"
proof (cases l)
  case (Some v)
  assume "parsePaymentsLimit l = Inr n"
  with Some show ?thesis
    by (auto simp: parsePaymentsLimit_def PAYMENTS_LIMIT_MAX_def not_less split: option.splits if_splits)
qed (simp add: parsePaymentsLimit_def PAYMENTS_LIMIT_DEFAULT_def)

definition report_page :: "db \<Rightarrow> uuid \<Rightarrow> payments_filter \<Rightarrow> payments_cursor option \<Rightarrow> nat \<Rightarrow> tenant \<Rightarrow> payment_row list \<Rightarrow> payments_page" where
  "report_page d t f c n tenant items =
     \<lparr>pg_currency = (if tn_country tenant = IN then ''INR'' else ''AUD''), pg_items = items,
      pg_nextCursor = next_cursor n (take (n + 1) (page_rows d t f c)) (take n (page_rows d t f c)), pg_totals = totalsFor d (paymentsWhere t f)\<rparr>"

lemma report_page_simps [simp]:
  "pg_items (report_page d t f c n tenant items) = items"
  "pg_nextCursor (report_page d t f c n tenant items) = next_cursor n (take (n + 1) (page_rows d t f c)) (take n (page_rows d t f c))"
  "pg_totals (report_page d t f c n tenant items) = totalsFor d (paymentsWhere t f)"
  by (simp_all add: report_page_def)

lemma listPayments_eq_Inr:
  "listPayments owner \<lparr>pq_filter = f, pq_cursor = map_option cursor_of c, pq_limit = l\<rparr> d = Inr p \<longleftrightarrow>
   (\<exists>n tenant items. parsePaymentsLimit l = Inr n \<and> assertOutlet d (ad_tenantId owner) (pf_outletId f) = Inr () \<and>
      find_row tn_id (ad_tenantId owner) (tenants d) = Some tenant \<and>
      r_map (toPaymentRow d) (take n (page_rows d (ad_tenantId owner) f c)) = Inr items \<and>
      p = report_page d (ad_tenantId owner) f c n tenant items)"
proof -
  have c: "decodePaymentsCursor (map_option cursor_of c) = Inr c" by (cases c) (simp_all add: decodePaymentsCursor_def)
  show ?thesis
  proof (cases "parsePaymentsLimit l")
    case (Inr n)
    have page: "take n (take (n + 1) (page_rows d (ad_tenantId owner) f c)) = take n (page_rows d (ad_tenantId owner) f c)" by (simp add: min_def)
    show ?thesis
      by (cases "find_row tn_id (ad_tenantId owner) (tenants d)"; cases "r_map (toPaymentRow d) (take n (page_rows d (ad_tenantId owner) f c))";
          cases "assertOutlet d (ad_tenantId owner) (pf_outletId f)")
        (simp_all only: listPayments_def Inr c page payments_query.simps r_bind_Inr r_bind_Inl Let_def option.simps report_page_def, auto)
  qed (simp add: listPayments_def)
qed

text \<open>The requests end, whatever cursor they start from: each next page starts further down the report.\<close>

lemma followPages_returns:
  assumes ok: "books_ok d"
  shows "\<exists>r. followPages owner f l d c = Some r"
proof (induction "length (page_rows d (ad_tenantId owner) f c)" arbitrary: c rule: less_induct)
  case less
  show ?case
  proof (cases "listPayments owner \<lparr>pq_filter = f, pq_cursor = map_option cursor_of c, pq_limit = l\<rparr> d")
    case (Inr p)
    show ?thesis
    proof (cases "pg_nextCursor p")
      case (Some c')
      obtain n where n: "parsePaymentsLimit l = Inr n" and next_c: "next_cursor n (take (n + 1) (page_rows d (ad_tenantId owner) f c)) (take n (page_rows d (ad_tenantId owner) f c)) = Some c'"
        using Inr Some by (auto simp: listPayments_eq_Inr)
      have pos: "0 < n" using parsePaymentsLimit_range [OF n] by simp
      have "length (page_rows d (ad_tenantId owner) f (Some c')) < length (page_rows d (ad_tenantId owner) f c)"
        using next_cursor_rest [OF ok pos next_c] pos by simp
      from less.hyps [OF this] Inr Some show ?thesis by (subst followPages.simps) auto
    qed (simp add: followPages.simps Inr)
  qed (simp add: followPages.simps)
qed

lemma followPages_rows:
  assumes ok: "books_ok d" and rows: "\<forall>b \<in> set (bills d). paymentsWhere (ad_tenantId owner) f b \<longrightarrow> (\<exists>r. toPaymentRow d b = Inr r)"
    and p: "listPayments owner \<lparr>pq_filter = f, pq_cursor = map_option cursor_of c, pq_limit = l\<rparr> d = Inr p"
    and n: "parsePaymentsLimit l = Inr n"
  shows "\<exists>ps. followPages owner f l d c = Some (Inr (p # ps)) \<and>
    r_map (toPaymentRow d) (page_rows d (ad_tenantId owner) f c) = Inr (concat (map pg_items (p # ps))) \<and>
    (\<forall>q \<in> set (p # ps). length (pg_items q) \<le> n \<and> pg_totals q = totalsFor d (paymentsWhere (ad_tenantId owner) f))"
  using p
proof (induction "length (page_rows d (ad_tenantId owner) f c)" arbitrary: c p rule: less_induct)
  case less
  let ?t = "ad_tenantId owner"
  let ?rows = "page_rows d ?t f c"
  have pos: "0 < n" using parsePaymentsLimit_range [OF n] by simp
  obtain tenant items where t: "assertOutlet d ?t (pf_outletId f) = Inr ()" "find_row tn_id ?t (tenants d) = Some tenant"
    and items: "r_map (toPaymentRow d) (take n ?rows) = Inr items" and p: "p = report_page d ?t f c n tenant items"
    using less.prems n by (auto simp: listPayments_eq_Inr)
  have len: "length (pg_items p) \<le> n" using r_map_length [OF items] by (simp add: p)
  show ?case
  proof (cases "pg_nextCursor p")
    case None
    then have "length ?rows \<le> n" using next_cursor_end [OF ok _ pos] by (simp add: p)
    with items len None less.prems show ?thesis by (subst followPages.simps) (auto simp: p)
  next
    case (Some c')
    have rest: "page_rows d ?t f (Some c') = drop n ?rows" "n < length ?rows"
      using next_cursor_rest [OF ok pos, of ?t f c c'] Some by (simp_all add: p)
    have "\<exists>items. r_map (toPaymentRow d) (take n (page_rows d ?t f (Some c'))) = Inr items"
      by (rule r_map_defined) (use rows in \<open>auto simp: page_rows_def dest: in_set_takeD\<close>)
    then obtain p' where p': "listPayments owner \<lparr>pq_filter = f, pq_cursor = map_option cursor_of (Some c'), pq_limit = l\<rparr> d = Inr p'"
      using t n unfolding listPayments_eq_Inr by blast
    have "length (page_rows d ?t f (Some c')) < length ?rows" using rest pos by simp
    from less.hyps [OF this p'] obtain ps where ps:
      "followPages owner f l d (Some c') = Some (Inr (p' # ps))"
      "r_map (toPaymentRow d) (drop n ?rows) = Inr (concat (map pg_items (p' # ps)))"
      "\<forall>q \<in> set (p' # ps). length (pg_items q) \<le> n \<and> pg_totals q = totalsFor d (paymentsWhere ?t f)"
      by (auto simp: rest)
    have "r_map (toPaymentRow d) ?rows = Inr (concat (map pg_items (p # p' # ps)))"
      using r_map_append [of "toPaymentRow d" "take n ?rows" "drop n ?rows"] items ps(2) by (simp add: p)
    moreover have "followPages owner f l d c = Some (Inr (p # p' # ps))"
      using less.prems Some ps(1) by (subst followPages.simps) simp
    ultimately show ?thesis using ps(3) len by (intro exI [of _ "p' # ps"]) (auto simp: p)
  qed
qed

lemma sum_rows_groups:
  "distinct ks \<Longrightarrow> sum_rows f (filter (\<lambda>t. g t \<in> set ks) ts) = (\<Sum>k\<leftarrow>ks. sum_rows f (filter (\<lambda>t. g t = k) ts))"
proof (induction ks)
  case (Cons k ks)
  have "sum_rows f (filter (\<lambda>t. g t \<in> set (k # ks)) ts) = sum_rows f (filter (\<lambda>t. g t = k) ts) + sum_rows f (filter (\<lambda>t. g t \<in> set ks) ts)"
    using Cons.prems by (induction ts) auto
  with Cons show ?case by simp
qed simp

text \<open>C26: Reading the payments report page by page ends, from any cursor. Started without a cursor it yields every matching
  finalised bill of the tenant exactly once, newest first, in pages of at most the size asked for (never more than
  200), and the totals on the first page are the totals of the rows on all pages.\<close>

theorem followPages_complete:
  assumes "books_ok d" and "\<forall>b \<in> set (bills d). paymentsWhere (ad_tenantId owner) f b \<longrightarrow> (\<exists>r. toPaymentRow d b = Inr r)"
    and "listPayments owner \<lparr>pq_filter = f, pq_cursor = None, pq_limit = l\<rparr> d = Inr p"
  shows "(\<forall>m c. \<exists>r. followPages owner f m d c = Some r) \<and>
    (\<exists>ps bs. followPages owner f l d None = Some (Inr (p # ps)) \<and>
      r_map (toPaymentRow d) bs = Inr (concat (map pg_items (p # ps))) \<and>
      distinct (map b_id bs) \<and> set bs = {b \<in> set (bills d). paymentsWhere (ad_tenantId owner) f b} \<and>
      sorted_wrt (\<lambda>x y. bill_key y < bill_key x) bs \<and>
      (\<forall>q \<in> set (p # ps). length (pg_items q) \<le> 200 \<and> pg_totals q = pg_totals p) \<and>
      rt_count (pg_totals p) = length bs \<and> rt_totalMinor (pg_totals p) = (\<Sum>r\<leftarrow>concat (map pg_items (p # ps)). pw_totalMinor r))"
proof
  show "\<forall>m c. \<exists>r. followPages owner f m d c = Some r" using followPages_returns [OF assms(1)] by blast
  let ?t = "ad_tenantId owner"
  let ?bs = "page_rows d ?t f None"
  have p: "listPayments owner \<lparr>pq_filter = f, pq_cursor = map_option cursor_of None, pq_limit = l\<rparr> d = Inr p" using assms(3) by simp
  then obtain n where n: "parsePaymentsLimit l = Inr n" unfolding listPayments_eq_Inr by blast
  obtain ps where ps: "followPages owner f l d None = Some (Inr (p # ps))"
    "r_map (toPaymentRow d) ?bs = Inr (concat (map pg_items (p # ps)))"
    "\<forall>q \<in> set (p # ps). length (pg_items q) \<le> n \<and> pg_totals q = totalsFor d (paymentsWhere ?t f)"
    using followPages_rows [OF assms(1,2) p n] by blast
  have bs: "mset ?bs = mset (filter (paymentsWhere ?t f) (bills d))"
    by (simp add: page_rows_def newest_first_def before_cursor_def)
  have "map pw_totalMinor (concat (map pg_items (p # ps))) = map bill_total ?bs"
    by (rule r_map_images [OF ps(2), symmetric]) (auto simp: toPaymentRow_def split: option.splits)
  then have "(\<Sum>r\<leftarrow>concat (map pg_items (p # ps)). pw_totalMinor r) = sum_list (map bill_total ?bs)" by simp
  also have "\<dots> = sum_list (map bill_total (filter (paymentsWhere ?t f) (bills d)))"
    by (metis bs mset_map sum_mset_sum_list)
  also have "\<dots> = rt_totalMinor (totalsFor d (paymentsWhere ?t f))"
    by (simp add: totalsFor_def Let_def foldl_sum_rows sum_rows_def)
  finally have total: "rt_totalMinor (pg_totals p) = (\<Sum>r\<leftarrow>concat (map pg_items (p # ps)). pw_totalMinor r)" using ps(3) by simp
  have "rt_count (totalsFor d (paymentsWhere ?t f)) = length ?bs" using mset_eq_length [OF bs] by (simp add: totalsFor_def Let_def)
  with ps(3) have count: "rt_count (pg_totals p) = length ?bs" by simp
  have dist: "distinct (map b_id ?bs)"
    using assms(1) by (simp add: page_rows_def newest_first_def rev_map [symmetric] books_ok_def keys_ok_def distinct_map)
      (auto simp: distinct_map inj_on_def)
  have same: "\<forall>q \<in> set (p # ps). length (pg_items q) \<le> 200 \<and> pg_totals q = pg_totals p"
    using ps(3) parsePaymentsLimit_range [OF n] by fastforce
  have sets: "set ?bs = {b \<in> set (bills d). paymentsWhere ?t f b}" by (auto simp: page_rows_def before_cursor_def)
  show "\<exists>ps bs. followPages owner f l d None = Some (Inr (p # ps)) \<and>
      r_map (toPaymentRow d) bs = Inr (concat (map pg_items (p # ps))) \<and>
      distinct (map b_id bs) \<and> set bs = {b \<in> set (bills d). paymentsWhere (ad_tenantId owner) f b} \<and>
      sorted_wrt (\<lambda>x y. bill_key y < bill_key x) bs \<and>
      (\<forall>q \<in> set (p # ps). length (pg_items q) \<le> 200 \<and> pg_totals q = pg_totals p) \<and>
      rt_count (pg_totals p) = length bs \<and> rt_totalMinor (pg_totals p) = (\<Sum>r\<leftarrow>concat (map pg_items (p # ps)). pw_totalMinor r)"
    using ps(1,2) dist sets page_rows_sorted [OF assms(1)] same count total by (intro exI [of _ ps] exI [of _ ?bs]) blast
qed

text \<open>C27: The totals of the report balance: what was tendered is what was billed plus the cash round-offs, and
  as long as notes are only written by \<open>refund\<close>, the refunds never exceed the sales, so the net figure is
  never negative.\<close>

theorem listPayments_balances:
  assumes "books_ok d" and "listPayments owner q d = Inr p"
    and "\<forall>b \<in> set (bills d). b_status b = b_finalized \<longrightarrow> lines_ok d b \<and> refunds_ok d b"
  shows "rt_tenderedMinor (pg_totals p) = rt_totalMinor (pg_totals p) + rt_roundOffMinor (pg_totals p) \<and>
    rt_netMinor (pg_totals p) = rt_totalMinor (pg_totals p) - rt_refundedMinor (pg_totals p) \<and> 0 \<le> rt_netMinor (pg_totals p)"
proof -
  let ?wh = "paymentsWhere (ad_tenantId owner) (pq_filter q)"
  let ?bs = "filter ?wh (bills d)"
  have tot: "pg_totals p = totalsFor d ?wh"
    using assms(2) by (auto simp: listPayments_def Let_def r_bind_eq_Inr split: option.splits)
  have ids: "distinct (map b_id ?bs)" using assms(1) by (simp add: books_ok_def keys_ok_def distinct_map_filter)
  have fin: "b \<in> set (bills d) \<and> b_status b = b_finalized" if "b \<in> set ?bs" for b using that by (auto simp: paymentsWhere_def)
  have paid: "tender_sum d (b_id b) = bill_total b + nullish (b_roundOffMinor b) 0" if "b \<in> set ?bs" for b
    using fin [OF that] books_okD(1) [OF assms(1)] by (auto simp: bill_ok_def)
  have "sum_rows td_amountMinor (filter (\<lambda>t. td_billId t \<in> set (map b_id ?bs)) (tenders d)) = (\<Sum>b\<leftarrow>?bs. tender_sum d (b_id b))"
    by (subst sum_rows_groups [OF ids]) (simp add: tender_sum_def bill_tenders_def comp_def)
  also have "\<dots> = (\<Sum>b\<leftarrow>?bs. bill_total b + nullish (b_roundOffMinor b) 0)"
    by (rule arg_cong [where f = sum_list], rule map_cong) (use paid in auto)
  finally have tendered: "sum_rows td_amountMinor (filter (\<lambda>t. td_billId t \<in> set (map b_id ?bs)) (tenders d)) =
      sum_rows bill_total ?bs + sum_rows (\<lambda>b. nullish (b_roundOffMinor b) 0) ?bs"
    by (simp add: sum_rows_def sum_list_addf)
  let ?amount = "\<lambda>n. if note_includes_tax ?bs n then cn_subtotalMinor n else cn_subtotalMinor n + cn_taxMinor n"
  have note_row: "?amount n = note_amount b n" if b: "b \<in> set ?bs" "cn_originalBillId n = b_id b" for b n
  proof -
    have "find_row b_id (b_id b) (rev ?bs) = Some b"
      using find_row_distinct [of b_id "rev ?bs" b] ids b(1) by (simp add: rev_map [symmetric])
    then show ?thesis by (simp add: note_includes_tax_def b(2) note_amount_def)
  qed
  have "sum_rows ?amount (filter (\<lambda>n. cn_originalBillId n \<in> set (map b_id ?bs)) (creditNotes d)) =
      (\<Sum>b\<leftarrow>?bs. sum_rows ?amount (bill_notes d (b_id b)))"
    by (subst sum_rows_groups [OF ids]) (simp add: bill_notes_def comp_def)
  also have "\<dots> = (\<Sum>b\<leftarrow>?bs. sum_rows (note_amount b) (bill_notes d (b_id b)))"
    unfolding sum_rows_def by (rule arg_cong [where f = sum_list], rule map_cong, rule refl, rule arg_cong [where f = sum_list], rule map_cong)
      (use note_row in \<open>auto simp: bill_notes_def\<close>)
  also have "\<dots> \<le> (\<Sum>b\<leftarrow>?bs. bill_total b)"
    by (rule sum_list_mono) (use assms(3) fin refunds_bounded(1) in blast)
  finally have refunds: "sum_rows ?amount (filter (\<lambda>n. cn_originalBillId n \<in> set (map b_id ?bs)) (creditNotes d)) \<le> sum_rows bill_total ?bs"
    by (simp add: sum_rows_def)
  show ?thesis using tendered refunds by (simp add: tot totalsFor_def Let_def foldl_sum_rows)
qed

section \<open>Instances\<close>

text \<open>Two settled bills, read one to a page.\<close>

definition s_db_report :: db where
  "s_db_report = s_db_paid\<lparr>orders := [s_order, s_order\<lparr>o_id := 86\<rparr>],
     bills := bills s_db_paid @ [s_bill\<lparr>b_id := 91, b_orderId := 86, b_subtotalMinor := 9990, b_taxMinor := 10, b_billNumber := Some 2,
       b_status := b_finalized, b_finalizedAt := Some 5\<rparr>],
     tenders := tenders s_db_paid @ [(s_cash 10000)\<lparr>td_billId := 91\<rparr>],
     billCounters := [\<lparr>bc_tenantId = 1, bc_outletId = 2, bc_lastNumber = 2\<rparr>]\<rparr>"

definition s_filter :: payments_filter where
  "s_filter = \<lparr>pf_outletId = Some 2, pf_from = Some 0, pf_to = None\<rparr>"

lemma s_db_report_ok: "books_ok s_db_report"
  by (simp add: books_ok_def keys_ok_def bill_ok_def numbers_at_def finalized_at_def last_bill_number_def tender_sum_def bill_total_def
      computeTotalMinor_def bill_tenders_def find_row_def s_db_report_def s_db_paid_def s_bill_def s_cash_def sample_defs)

lemmas report_eval = listPayments_def parsePaymentsLimit_def PAYMENTS_LIMIT_MAX_def decodePaymentsCursor_def assertOutlet_def page_rows_def
  paymentsWhere_def before_cursor_def at_or_after_def at_or_before_def newest_first_def bill_key_def toPaymentRow_def totalsFor_def
  next_cursor_def find_row_def s_owner_def s_filter_def s_db_report_def s_db_paid_def s_bill_def s_cash_def

lemma s_report_page:
  "\<exists>p. listPayments s_owner \<lparr>pq_filter = s_filter, pq_cursor = None, pq_limit = Some (Some 1)\<rparr> s_db_report = Inr p \<and>
     length (pg_items p) = 1 \<and> rt_count (pg_totals p) = 2"
  by (simp add: report_eval sample_defs Let_def)

theorem followPages_complete_witness:
  "\<exists>p ps. followPages s_owner s_filter (Some (Some 1)) s_db_report None = Some (Inr (p # ps)) \<and> ps \<noteq> [] \<and>
     rt_totalMinor (pg_totals p) = (\<Sum>r\<leftarrow>concat (map pg_items (p # ps)). pw_totalMinor r)"
proof -
  obtain p where p: "listPayments s_owner \<lparr>pq_filter = s_filter, pq_cursor = None, pq_limit = Some (Some 1)\<rparr> s_db_report = Inr p"
    "length (pg_items p) = 1" "rt_count (pg_totals p) = 2" using s_report_page by blast
  have rows: "\<forall>b \<in> set (bills s_db_report). paymentsWhere (ad_tenantId s_owner) s_filter b \<longrightarrow> (\<exists>r. toPaymentRow s_db_report b = Inr r)"
    by (simp add: report_eval sample_defs)
  obtain ps bs where r: "followPages s_owner s_filter (Some (Some 1)) s_db_report None = Some (Inr (p # ps))"
    "r_map (toPaymentRow s_db_report) bs = Inr (concat (map pg_items (p # ps)))" "rt_count (pg_totals p) = length bs"
    "rt_totalMinor (pg_totals p) = (\<Sum>r\<leftarrow>concat (map pg_items (p # ps)). pw_totalMinor r)"
    using followPages_complete [OF s_db_report_ok rows p(1)] by blast
  have "ps \<noteq> []" using r_map_length [OF r(2)] r(3) p(2,3) by auto
  with r(1,4) show ?thesis by blast
qed

theorem listPayments_balances_witness:
  "\<exists>p. listPayments s_owner \<lparr>pq_filter = s_filter, pq_cursor = None, pq_limit = None\<rparr> s_db_paid = Inr p \<and>
     rt_tenderedMinor (pg_totals p) = rt_totalMinor (pg_totals p) + rt_roundOffMinor (pg_totals p) \<and> 0 \<le> rt_netMinor (pg_totals p)"
proof -
  obtain p where p: "listPayments s_owner \<lparr>pq_filter = s_filter, pq_cursor = None, pq_limit = None\<rparr> s_db_paid = Inr p"
    by (cases "listPayments s_owner \<lparr>pq_filter = s_filter, pq_cursor = None, pq_limit = None\<rparr> s_db_paid")
      (simp_all add: report_eval PAYMENTS_LIMIT_DEFAULT_def sample_defs Let_def)
  have "\<forall>b \<in> set (bills s_db_paid). b_status b = b_finalized \<longrightarrow> lines_ok s_db_paid b \<and> refunds_ok s_db_paid b"
    using s_db_paid_ok(2) by (auto simp: s_db_paid_def find_row_Cons s_bill_def split: if_splits)
  from listPayments_balances [OF s_db_paid_ok(1) p this] p show ?thesis by blast
qed

end
