(* ===== verification/TenantSlug.thy ===== *)
theory TenantSlug
  imports JsNumbers
begin

text \<open>
  A tenant's subdomain: \<^verbatim>\<open>src/src/platform/tenant-slug.ts\<close>, the choice of a free one at onboarding
  (\<open>chooseSlug\<close> in \<^verbatim>\<open>src/src/ops/tenants/tenants.service.ts\<close>), and the check that a session belongs to the address it is used
  at, \<^verbatim>\<open>src/src/platform/tenant-address.service.ts\<close>. Lower-casing and Unicode decomposition are tables of the
  engine and parameters here; the unit 45 is the hyphen, 46 the dot and 58 the colon.
\<close>

section \<open>Slugs\<close>

definition slug_char :: "16 word \<Rightarrow> bool" where
  "slug_char c = (alnum_unit c \<or> c = 45)"

definition SLUG_PATTERN :: "js_string \<Rightarrow> bool" where
  "SLUG_PATTERN s = (3 \<le> length s \<and> length s \<le> 32 \<and> alnum_unit (hd s) \<and> alnum_unit (last s) \<and> list_all slug_char s)"

definition RESERVED_SLUGS :: "js_string list" where
  "RESERVED_SLUGS = map js
    [''www'', ''app'', ''api'', ''admin'', ''ops'', ''pos'', ''kds'', ''qr'', ''guest'', ''device'', ''devices'', ''hub'', ''public'', ''login'', ''auth'',
     ''mail'', ''email'', ''smtp'', ''support'', ''help'', ''docs'', ''status'', ''billing'', ''staging'', ''stage'', ''dev'', ''test'', ''demo'',
     ''static'', ''assets'', ''cdn'', ''restiq'', ''idelta'', ''root'', ''system'', ''internal'', ''sandbox'', ''portal'']"

fun double_dash :: "js_string \<Rightarrow> bool" where
  "double_dash (a # b # s) = ((a = 45 \<and> b = 45) \<or> double_dash (b # s))"
| "double_dash s = False"

datatype slug_problem = slug_invalid | slug_reserved

definition slugProblem :: "js_string \<Rightarrow> slug_problem option" where
  "slugProblem slug = (if \<not> SLUG_PATTERN slug \<or> double_dash slug then Some slug_invalid
     else if slug \<in> set RESERVED_SLUGS then Some slug_reserved else None)"

text \<open>The steps of \<open>slugify\<close>, one for each \<open>replace\<close>.\<close>

definition strip_marks :: "js_string \<Rightarrow> js_string" where
  "strip_marks s = filter (\<lambda>c. \<not> (0x300 \<le> c \<and> c \<le> 0x36f)) s"

fun dash_runs :: "bool \<Rightarrow> js_string \<Rightarrow> js_string" where
  "dash_runs inRun [] = []"
| "dash_runs inRun (c # s) =
    (if alnum_unit c then c # dash_runs False s else if inRun then dash_runs True s else 45 # dash_runs True s)"

definition rstrip_dashes :: "js_string \<Rightarrow> js_string" where
  "rstrip_dashes s = rev (dropWhile (\<lambda>c. c = 45) (rev s))"

definition trim_dashes :: "js_string \<Rightarrow> js_string" where
  "trim_dashes s = rstrip_dashes (dropWhile (\<lambda>c. c = 45) s)"

definition COMPANY_WORDS :: "js_string list" where
  "COMPANY_WORDS = map js [''pvt'', ''ltd'', ''llp'', ''inc'', ''pty'', ''limited'', ''private'']"

definition js_ends_with :: "js_string \<Rightarrow> js_string \<Rightarrow> bool" where
  "js_ends_with s p = (length p \<le> length s \<and> drop (length s - length p) s = p)"

text \<open>The words hold no hyphen, so the greatest match of \<open>(-(pvt|ltd|...))+$\<close> is found from the end, one word at a time.\<close>

function strip_company :: "js_string \<Rightarrow> js_string" where
  "strip_company s =
    (case find (\<lambda>w. js_ends_with s (45 # w)) COMPANY_WORDS of
       None \<Rightarrow> s
     | Some w \<Rightarrow> strip_company (take (length s - Suc (length w)) s))"
  by pat_completeness auto
termination
  by (relation "measure length") (auto dest!: find_SomeD simp: js_ends_with_def)

declare strip_company.simps [simp del]

definition slugify :: "(js_string \<Rightarrow> js_string) \<Rightarrow> js_string \<Rightarrow> js_string" where
  "slugify lower_nfkd name =
    (let words = strip_company (trim_dashes (dash_runs False (strip_marks (lower_nfkd name))));
         trimmed = rstrip_dashes (take 31 words)
     in if length trimmed \<ge> 3 then trimmed
        else take 31 (let r = trimmed @ js ''-restaurant'' in if r \<noteq> [] \<and> hd r = 45 then tl r else r))"

text \<open>\<open>replace(/:\d+$/, '')\<close>.\<close>

definition strip_port :: "js_string \<Rightarrow> js_string" where
  "strip_port s =
    (let ds = takeWhile is_digit (rev s); r = dropWhile is_digit (rev s)
     in if ds \<noteq> [] \<and> r \<noteq> [] \<and> hd r = 58 then rev (tl r) else s)"

definition slugFromHost :: "(js_string \<Rightarrow> js_string) \<Rightarrow> js_string \<Rightarrow> js_string \<Rightarrow> js_string option" where
  "slugFromHost lower_case host baseDomain =
    (let bare = strip_port (lower_case (js_trim host));
         base = lower_case (js_trim baseDomain)
     in if \<not> js_ends_with bare (46 # base) then None
        else let slug = take (length bare - Suc (length base)) bare
             in if 46 \<in> set slug \<or> slugProblem slug = Some slug_invalid then None else Some slug)"

section \<open>A slug for a new tenant\<close>

definition show_nat :: "nat \<Rightarrow> js_string" where
  "show_nat n = js (show_digits n)"

definition slug_candidate :: "js_string \<Rightarrow> nat \<Rightarrow> js_string" where
  "slug_candidate base n = (if n = 1 then base else take 29 base @ 45 # show_nat n)"

text \<open>\<open>slugs\<close> are the subdomains of the tenants there are; the column is unique.\<close>

definition slugTaken :: "js_string list \<Rightarrow> js_string \<Rightarrow> bool" where
  "slugTaken slugs slug = (slug \<in> set slugs)"

definition free_candidate :: "js_string list \<Rightarrow> js_string \<Rightarrow> js_string result" where
  "free_candidate slugs base =
    (case find (\<lambda>c. slugProblem c = None \<and> \<not> slugTaken slugs c) (map (slug_candidate base) [1..<51]) of
       Some c \<Rightarrow> Inr c
     | None \<Rightarrow> Inl (Conflict ''slug_taken''))"

definition chooseSlug ::
  "(js_string \<Rightarrow> js_string) \<Rightarrow> (js_string \<Rightarrow> js_string) \<Rightarrow> js_string list \<Rightarrow> js_string option \<Rightarrow> js_string \<Rightarrow> js_string result" where
  "chooseSlug lower_case lower_nfkd slugs wanted companyName =
    (case wanted of
       Some (c # w) \<Rightarrow>
         (let slug = lower_case (js_trim (c # w))
          in (case slugProblem slug of
                Some slug_invalid \<Rightarrow> Inl (BadRequest ''slug_invalid'')
              | Some slug_reserved \<Rightarrow> Inl (BadRequest ''slug_reserved'')
              | None \<Rightarrow> if slugTaken slugs slug then Inl (Conflict ''slug_taken'') else Inr slug))
     | _ \<Rightarrow> free_candidate slugs (slugify lower_nfkd companyName))"

section \<open>What slugify gives\<close>

text \<open>Hyphens stand alone between characters of the class \<open>[a-z0-9]\<close>.\<close>

definition words_ok :: "js_string \<Rightarrow> bool" where
  "words_ok s \<longleftrightarrow> list_all slug_char s \<and> \<not> double_dash s \<and> (s \<noteq> [] \<longrightarrow> alnum_unit (hd s) \<and> alnum_unit (last s))"

lemma not_alnum_dash [simp]: "\<not> alnum_unit 45"
  by (simp add: alnum_unit_def is_digit_def)

lemma double_dash_append1: "double_dash s \<Longrightarrow> double_dash (s @ t)"
  by (induction s rule: double_dash.induct) auto

lemma double_dash_append2: "double_dash t \<Longrightarrow> double_dash (s @ t)"
proof (induction s)
  case (Cons a s)
  then show ?case by (cases "s @ t") auto
qed simp

lemma double_dash_mid: "double_dash (s @ 45 # 45 # t)"
  by (rule double_dash_append2) simp

lemma double_dash_dropWhile: "double_dash (dropWhile P s) \<Longrightarrow> double_dash s"
  by (metis double_dash_append2 takeWhile_dropWhile_id)

lemma double_dash_take: "double_dash (take n s) \<Longrightarrow> double_dash s"
  by (metis double_dash_append1 append_take_drop_id)

lemma rstrip_dashes_prefix: "\<exists>d. s = rstrip_dashes s @ d"
proof -
  have "rev s = takeWhile (\<lambda>c. c = 45) (rev s) @ dropWhile (\<lambda>c. c = 45) (rev s)" by simp
  then have "s = rev (dropWhile (\<lambda>c. c = 45) (rev s)) @ rev (takeWhile (\<lambda>c. c = 45) (rev s))"
    by (metis rev_append rev_rev_ident)
  then show ?thesis unfolding rstrip_dashes_def by blast
qed

lemma rstrip_dashes_last: "rstrip_dashes s \<noteq> [] \<Longrightarrow> last (rstrip_dashes s) \<noteq> 45"
  using hd_dropWhile [of "\<lambda>c. c = 45" "rev s"] by (simp add: rstrip_dashes_def last_rev)

lemma rstrip_words:
  assumes "list_all slug_char s" "\<not> double_dash s" "s \<noteq> [] \<longrightarrow> alnum_unit (hd s)"
  shows "words_ok (rstrip_dashes s)"
proof -
  obtain d where d: "s = rstrip_dashes s @ d" using rstrip_dashes_prefix by blast
  have "list_all slug_char (rstrip_dashes s)" "\<not> double_dash (rstrip_dashes s)"
    using assms(1,2) d by (metis list_all_append, metis double_dash_append1)
  moreover have "alnum_unit (hd (rstrip_dashes s))" if "rstrip_dashes s \<noteq> []"
    using that assms(3) d by (metis append_is_Nil_conv hd_append2)
  moreover have "alnum_unit (last (rstrip_dashes s))" if "rstrip_dashes s \<noteq> []"
    using that rstrip_dashes_last calculation(1) by (metis last_in_set list_all_iff slug_char_def)
  ultimately show ?thesis by (auto simp: words_ok_def)
qed

lemma dash_runs_ok: "list_all slug_char (dash_runs b s) \<and> \<not> double_dash (dash_runs b s) \<and> (b \<longrightarrow> \<not> double_dash (45 # dash_runs b s))"
proof (induction b s rule: dash_runs.induct)
  case (2 inRun c s)
  have alnum_head: "\<not> double_dash (c # t)" if "alnum_unit c" "\<not> double_dash t" for t
    using that by (cases t) auto
  show ?case
    using 2 alnum_head by (cases "alnum_unit c") (auto simp: slug_char_def)
qed auto

lemma trim_dashes_ok: "words_ok (trim_dashes (dash_runs False s))"
proof -
  let ?s = "dash_runs False s" let ?d = "dropWhile (\<lambda>c. c = 45) ?s"
  have "list_all slug_char ?d" using dash_runs_ok [of False s] by (auto simp: list_all_iff dest: set_dropWhileD)
  moreover have "\<not> double_dash ?d" using dash_runs_ok [of False s] double_dash_dropWhile by blast
  moreover have "alnum_unit (hd ?d)" if "?d \<noteq> []"
    using that hd_dropWhile [OF that] calculation(1) by (cases ?d) (auto simp: slug_char_def)
  ultimately show ?thesis unfolding trim_dashes_def by (intro rstrip_words) auto
qed

lemma strip_company_ok: "words_ok s \<Longrightarrow> words_ok (strip_company s)"
proof (induction s rule: strip_company.induct)
  case (1 s)
  show ?case
  proof (cases "find (\<lambda>w. js_ends_with s (45 # w)) COMPANY_WORDS")
    case None
    with 1 show ?thesis by (simp add: strip_company.simps)
  next
    case (Some w)
    then have e: "js_ends_with s (45 # w)" by (auto dest: find_SomeD)
    let ?u = "take (length s - Suc (length w)) s"
    have s: "s = ?u @ 45 # w" using e by (metis append_take_drop_id js_ends_with_def length_Cons)
    have u: "list_all slug_char ?u" "\<not> double_dash ?u" "?u \<noteq> []" "alnum_unit (hd ?u)"
      using "1.prems" s unfolding words_ok_def
      by (metis list_all_append, metis double_dash_take, metis append_Nil list.distinct(1) list.sel(1) not_alnum_dash,
          metis append_Nil append_is_Nil_conv hd_append2 list.distinct(1) list.sel(1) not_alnum_dash)
    have "last ?u \<noteq> 45"
      using "1.prems" s u(3) unfolding words_ok_def by (metis append_butlast_last_id append_Cons append_Nil append_assoc double_dash_mid)
    then have "words_ok ?u" using u unfolding words_ok_def by (metis last_in_set list_all_iff slug_char_def)
    with "1.IH" [OF Some] Some show ?thesis by (simp add: strip_company.simps [of s])
  qed
qed

lemma restaurant_units: "js ''-restaurant'' = [45, 114, 101, 115, 116, 97, 117, 114, 97, 110, 116]"
  by code_simp

lemma words_pattern: "words_ok s \<Longrightarrow> 3 \<le> length s \<Longrightarrow> length s \<le> 32 \<Longrightarrow> slugProblem s \<noteq> Some slug_invalid"
  by (cases s) (auto simp: slugProblem_def SLUG_PATTERN_def words_ok_def)

lemma restaurant_suffix:
  assumes "words_ok t" "length t < 3"
  shows "let r = t @ js ''-restaurant''; r' = (if r \<noteq> [] \<and> hd r = 45 then tl r else r)
    in words_ok (take 31 r') \<and> 3 \<le> length (take 31 r') \<and> length (take 31 r') \<le> 31"
proof -
  have al: "alnum_unit 114" "alnum_unit 101" "alnum_unit 115" "alnum_unit 116" "alnum_unit 97" "alnum_unit 117" "alnum_unit 110"
    by (simp_all add: alnum_unit_def)
  have "t = [] \<or> (\<exists>a. t = [a]) \<or> (\<exists>a b. t = [a, b])"
    using assms(2) by (induction t rule: induct_list012) auto
  then consider "t = []" | a where "t = [a]" | a b where "t = [a, b]" by blast
  then show ?thesis
  proof cases
    case 1
    then show ?thesis by (simp add: restaurant_units words_ok_def slug_char_def al)
  next
    case (2 a)
    then have "alnum_unit a" using assms(1) by (simp add: words_ok_def)
    then show ?thesis using 2 al by (auto simp: restaurant_units words_ok_def slug_char_def)
  next
    case (3 a b)
    then have "alnum_unit a" "alnum_unit b" using assms(1) by (simp_all add: words_ok_def)
    then show ?thesis using 3 al by (auto simp: restaurant_units words_ok_def slug_char_def)
  qed
qed

lemma slugify_words: "words_ok (slugify f name) \<and> 3 \<le> length (slugify f name) \<and> length (slugify f name) \<le> 31"
proof -
  let ?w = "strip_company (trim_dashes (dash_runs False (strip_marks (f name))))"
  let ?t = "rstrip_dashes (take 31 ?w)"
  have w: "words_ok ?w" by (intro strip_company_ok trim_dashes_ok)
  have t: "words_ok ?t"
  proof (rule rstrip_words)
    show "list_all slug_char (take 31 ?w)" using w unfolding words_ok_def by (metis append_take_drop_id list_all_append)
    show "\<not> double_dash (take 31 ?w)" using w double_dash_take unfolding words_ok_def by blast
    show "take 31 ?w \<noteq> [] \<longrightarrow> alnum_unit (hd (take 31 ?w))" using w by (auto simp: words_ok_def)
  qed
  obtain d where "take 31 ?w = ?t @ d" using rstrip_dashes_prefix by blast
  then have l: "length ?t \<le> 31" by (metis length_append length_take linorder_le_cases min.bounded_iff not_add_less1 not_le)
  show ?thesis
  proof (cases "3 \<le> length ?t")
    case True
    then show ?thesis using t l by (simp add: slugify_def Let_def)
  next
    case False
    then show ?thesis using restaurant_suffix [OF t] by (simp add: slugify_def Let_def)
  qed
qed

text \<open>
  C38: whatever a company is called, in any alphabet and of any length, the slug made from its name is a well-formed
  subdomain: 3 to 31 characters of \<open>a-z\<close>, \<open>0-9\<close> and hyphen, beginning and ending with a letter or digit, no two hyphens
  together.
\<close>

theorem slugify_well_formed:
  "SLUG_PATTERN (slugify lower_nfkd name) \<and> \<not> double_dash (slugify lower_nfkd name) \<and>
   slugProblem (slugify lower_nfkd name) \<noteq> Some slug_invalid \<and> length (slugify lower_nfkd name) \<le> 31"
  using slugify_words [of lower_nfkd name] words_pattern [of "slugify lower_nfkd name"]
  by (auto simp: slugProblem_def split: if_splits)

text \<open>
  a slug given to a new tenant is always well-formed, not reserved and not in use; a tenant whose company name gives a
  free, unreserved slug gets exactly that one; and the attempt only fails without a wanted slug when all fifty candidates
  are reserved, ill-formed or taken.
\<close>

theorem chooseSlug_free:
  "case chooseSlug lower_case lower_nfkd slugs wanted companyName of
     Inr slug \<Rightarrow> slugProblem slug = None \<and> slug \<notin> set slugs \<and>
       (wanted = None \<and> slugProblem (slugify lower_nfkd companyName) = None \<and> slugify lower_nfkd companyName \<notin> set slugs \<longrightarrow>
        slug = slugify lower_nfkd companyName)
   | Inl err \<Rightarrow> wanted = None \<longrightarrow> err = Conflict ''slug_taken'' \<and>
       (\<forall>n \<in> {1..50}. slugProblem (slug_candidate (slugify lower_nfkd companyName) n) \<noteq> None \<or>
          slug_candidate (slugify lower_nfkd companyName) n \<in> set slugs)"
proof -
  let ?P = "\<lambda>c. slugProblem c = None \<and> \<not> slugTaken slugs c" and ?b = "slugify lower_nfkd companyName"
  have split: "[1..<51] = 1 # [2..<51]" by (simp add: upt_rec)
  have free: "case free_candidate slugs ?b of
      Inr slug \<Rightarrow> ?P slug \<and> (?P ?b \<longrightarrow> slug = ?b)
    | Inl err \<Rightarrow> err = Conflict ''slug_taken'' \<and> (\<forall>n \<in> {1..50}. \<not> ?P (slug_candidate ?b n))"
  proof (cases "find ?P (map (slug_candidate ?b) [1..<51])")
    case None
    then have "\<forall>n \<in> set [1..<51]. \<not> ?P (slug_candidate ?b n)" by (simp only: find_None_iff set_map image_iff) blast
    moreover have "{1..50} = set [1..<51 :: nat]" by auto
    ultimately show ?thesis using None by (simp add: free_candidate_def)
  next
    case (Some c)
    have "?P ?b \<longrightarrow> c = ?b" using Some unfolding split by (auto simp: slug_candidate_def)
    with Some find_SomeD [OF Some] show ?thesis by (simp add: free_candidate_def)
  qed
  show ?thesis
  proof (cases "wanted = None \<or> wanted = Some []")
    case True
    then have "chooseSlug lower_case lower_nfkd slugs wanted companyName = free_candidate slugs ?b"
      by (auto simp: chooseSlug_def)
    then show ?thesis using free by (auto simp: slugTaken_def split: sum.splits)
  next
    case False
    then obtain c w where "wanted = Some (c # w)" by (cases wanted; cases "the wanted") auto
    then show ?thesis by (auto simp: chooseSlug_def slugTaken_def Let_def split: option.splits slug_problem.splits)
  qed
qed

lemma slugify_bay_leaf: "slugify (\<lambda>t. t) (js ''bay leaf pvt'') = js ''bay-leaf'' \<and> slugProblem (js ''bay-leaf'') = None"
  by code_simp

theorem chooseSlug_free_witness:
  "\<exists>slug. chooseSlug (\<lambda>t. t) (\<lambda>t. t) [js ''bay''] None (js ''bay leaf pvt'') = Inr slug \<and> slug = js ''bay-leaf'' \<and>
     slugProblem slug = None \<and> slug \<notin> set [js ''bay'']"
proof (cases "chooseSlug (\<lambda>t. t) (\<lambda>t. t) [js ''bay''] None (js ''bay leaf pvt'')")
  case (Inl err)
  have "js ''bay-leaf'' \<noteq> js ''bay''" by (metis length_js length_Cons list.size(3) nat.inject Zero_not_Suc)
  moreover have "(1 :: nat) \<in> {1..50}" by simp
  ultimately show ?thesis
    using chooseSlug_free [where lower_case = "\<lambda>t. t" and lower_nfkd = "\<lambda>t. t" and slugs = "[js ''bay'']" and wanted = None and
        companyName = "js ''bay leaf pvt''"] Inl slugify_bay_leaf
    by (auto simp: slug_candidate_def dest!: bspec [of _ _ "Suc 0"])
next
  case (Inr slug)
  have "js ''bay-leaf'' \<noteq> js ''bay''" by (metis length_js length_Cons list.size(3) nat.inject Zero_not_Suc)
  then show ?thesis
    using chooseSlug_free [where lower_case = "\<lambda>t. t" and lower_nfkd = "\<lambda>t. t" and slugs = "[js ''bay'']" and wanted = None and
        companyName = "js ''bay leaf pvt''"] Inr slugify_bay_leaf by simp
qed

text \<open>
  The numbered candidates cut the name at 29 units, which may end in a hyphen; every one of them then holds two hyphens
  together, and the second company of such a name is turned away although subdomains are free.
\<close>

lemma numbered_candidates_ill_formed:
  assumes "length base > 29" "base ! 28 = 45" "base \<in> set slugs"
  shows "free_candidate slugs base = Inl (Conflict ''slug_taken'')"
proof -
  have "double_dash (slug_candidate base n)" if "n \<noteq> 1" for n
  proof -
    have "take 29 base = take 28 base @ [45]" using assms(1,2) take_Suc_conv_app_nth [of 28 base] by simp
    then show ?thesis using that double_dash_mid [of "take 28 base"] by (simp add: slug_candidate_def)
  qed
  then have "slugProblem (slug_candidate base n) \<noteq> None \<or> slugTaken slugs (slug_candidate base n)" for n
    using assms(3) by (cases "n = 1") (simp_all add: slugProblem_def slugTaken_def slug_candidate_def)
  then have "find (\<lambda>c. slugProblem c = None \<and> \<not> slugTaken slugs c) (map (slug_candidate base) ns) = None" for ns
    by (auto simp: find_None_iff)
  then show ?thesis by (simp add: free_candidate_def)
qed

section \<open>From an address back to the tenant\<close>

lemma slug_chars: "slugProblem slug \<noteq> Some slug_invalid \<Longrightarrow> c \<in> set slug \<Longrightarrow> slug_char c"
  by (auto simp: slugProblem_def SLUG_PATTERN_def list_all_iff split: if_splits)

lemma slug_char_class: "slug_char c \<Longrightarrow> c \<noteq> 46 \<and> c \<noteq> 58 \<and> \<not> js_space c"
  by (auto simp: slug_char_def alnum_unit_def is_digit_def js_space_def word_le_nat_alt unsigned_eq_0_iff)

lemma slugFromHost_iff:
  "slugFromHost lower_case host baseDomain = Some slug \<longleftrightarrow>
   strip_port (lower_case (js_trim host)) = slug @ 46 # lower_case (js_trim baseDomain) \<and> slugProblem slug \<noteq> Some slug_invalid"
proof -
  let ?bare = "strip_port (lower_case (js_trim host))" and ?base = "lower_case (js_trim baseDomain)"
  have dot: "46 \<notin> set slug" if "slugProblem slug \<noteq> Some slug_invalid"
    using slug_chars [OF that] slug_char_class by blast
  have cut: "?bare = take (length ?bare - Suc (length ?base)) ?bare @ 46 # ?base" if "js_ends_with ?bare (46 # ?base)"
    using that by (metis append_take_drop_id js_ends_with_def length_Cons)
  have ends: "js_ends_with (slug @ 46 # ?base) (46 # ?base)" by (simp add: js_ends_with_def)
  show ?thesis
  proof
    assume f: "slugFromHost lower_case host baseDomain = Some slug"
    then have e: "js_ends_with ?bare (46 # ?base)" and sl: "take (length ?bare - Suc (length ?base)) ?bare = slug"
        "slugProblem slug \<noteq> Some slug_invalid"
      by (auto simp: slugFromHost_def Let_def split: if_splits)
    show "?bare = slug @ 46 # ?base \<and> slugProblem slug \<noteq> Some slug_invalid"
      using cut [OF e] unfolding sl(1) using sl(2) by (rule conjI)
  next
    assume "?bare = slug @ 46 # ?base \<and> slugProblem slug \<noteq> Some slug_invalid"
    then show "slugFromHost lower_case host baseDomain = Some slug"
      using dot ends by (simp add: slugFromHost_def Let_def)
  qed
qed

lemma strip_port_digits: "ds \<noteq> [] \<Longrightarrow> \<forall>c \<in> set ds. is_digit c \<Longrightarrow> strip_port (s @ 58 # ds) = s"
proof -
  assume ds: "ds \<noteq> []" "\<forall>c \<in> set ds. is_digit c"
  have n58: "\<not> is_digit 58" by (simp add: is_digit_def)
  have "takeWhile is_digit (rev ds @ 58 # rev s) = rev ds" "dropWhile is_digit (rev ds @ 58 # rev s) = 58 # rev s"
    using ds(2) n58 takeWhile_append2 [of "rev ds" is_digit "58 # rev s"] dropWhile_append2 [of "rev ds" is_digit "58 # rev s"]
    by simp_all
  then show "strip_port (s @ 58 # ds) = s" using ds(1) by (simp add: strip_port_def)
qed

text \<open>
  C39: the address of a tenant leads back to its slug, with or without a port: under a base domain that is written in lower
  case and names no port itself, the host \<open>slug.base\<close> resolves to exactly the slug, and no other slug resolves from it.
\<close>

theorem slugFromHost_round_trip:
  assumes "slugProblem slug \<noteq> Some slug_invalid" "base \<noteq> []" "\<not> js_space (last base)" "js_trim base = base" "lower_case base = base"
    "strip_port (slug @ 46 # base) = slug @ 46 # base"
    "port = [] \<or> (\<exists>ds. port = 58 # ds \<and> ds \<noteq> [] \<and> (\<forall>c \<in> set ds. is_digit c))"
    "lower_case (slug @ 46 # base @ port) = slug @ 46 # base @ port"
  shows "slugFromHost lower_case (slug @ 46 # base @ port) base = Some slug"
proof -
  have ne: "slug \<noteq> []" using assms(1) by (auto simp: slugProblem_def SLUG_PATTERN_def split: if_splits)
  have h: "\<not> js_space (hd slug)" using slug_chars [OF assms(1)] slug_char_class ne hd_in_set by blast
  have l: "\<not> js_space (last (base @ port))"
  proof (cases "port = []")
    case False
    then obtain ds where "port = 58 # ds" "ds \<noteq> []" "\<forall>c \<in> set ds. is_digit c" using assms(7) by blast
    moreover from this have "slug_char (last ds)" by (simp add: slug_char_def alnum_unit_def)
    ultimately show ?thesis using slug_char_class by simp
  qed (use assms(3) in simp)
  have "js_trim (slug @ 46 # base @ port) = slug @ 46 # base @ port"
    using h l ne assms(2) by (intro js_trim_id) (simp add: last_append)
  moreover have "strip_port (slug @ 46 # base @ port) = slug @ 46 # base"
    using assms(6,7) strip_port_digits [of _ "slug @ 46 # base"] by auto
  ultimately show ?thesis using assms by (simp add: slugFromHost_iff)
qed

theorem slugFromHost_round_trip_witness:
  "slugProblem [98, 97, 121] \<noteq> Some slug_invalid \<and>
   slugFromHost (\<lambda>t. t) ([98, 97, 121] @ 46 # [120, 46, 97] @ [58, 56, 48]) [120, 46, 97] = Some [98, 97, 121]"
proof -
  have v: "slugProblem [98, 97, 121] \<noteq> Some slug_invalid"
    by (simp add: slugProblem_def SLUG_PATTERN_def slug_char_def alnum_unit_def)
  have t: "\<not> js_space (last [120, 46, 97])" "js_trim [120, 46, 97] = [120, 46, 97]"
      "strip_port ([98, 97, 121] @ 46 # [120, 46, 97]) = [98, 97, 121] @ 46 # [120, 46, 97]"
    by (simp_all add: js_space_def js_trim_def strip_port_def is_digit_def)
  have p: "[58, 56, 48] = [] \<or> (\<exists>ds. [58 :: 16 word, 56, 48] = 58 # ds \<and> ds \<noteq> [] \<and> (\<forall>c \<in> set ds. is_digit c))"
    by (simp add: is_digit_def)
  have "slugFromHost (\<lambda>t. t) ([98, 97, 121] @ 46 # [120, 46, 97] @ [58, 56, 48]) [120, 46, 97] = Some [98, 97, 121]"
    by (rule slugFromHost_round_trip [OF v _ t(1,2) _ t(3) p]) simp_all
  with v show ?thesis by blast
qed

text \<open>
  The address service: a map of slugs already looked up, which is never invalidated, and the check that the token of a
  request belongs to the tenant whose address it came to. \<open>rows\<close> are the tenants with their slugs.
\<close>

definition tenantIdForSlug ::
  "(js_string option \<times> uuid) list \<Rightarrow> (js_string \<Rightarrow> uuid option) \<Rightarrow> js_string \<Rightarrow> uuid option \<times> (js_string \<Rightarrow> uuid option)" where
  "tenantIdForSlug rows idBySlug slug =
    (case idBySlug slug of
       Some k \<Rightarrow> (Some k, idBySlug)
     | None \<Rightarrow>
         (case find (\<lambda>r. fst r = Some slug) rows of
            None \<Rightarrow> (None, idBySlug)
          | Some r \<Rightarrow> (Some (snd r), idBySlug(slug \<mapsto> snd r))))"

text \<open>The host header is believed only when the proxy's secret is right.\<close>

definition slugOf :: "(js_string \<Rightarrow> js_string) \<Rightarrow> js_string \<Rightarrow> js_string option \<Rightarrow> bool \<Rightarrow> js_string option" where
  "slugOf lower_case baseDomain host proxyIsTrusted =
    (case host of None \<Rightarrow> None | Some h \<Rightarrow> if proxyIsTrusted then slugFromHost lower_case h baseDomain else None)"

definition assertTokenMatchesAddress ::
  "(js_string option \<times> uuid) list \<Rightarrow> js_string option \<Rightarrow> uuid \<Rightarrow> (js_string \<Rightarrow> uuid option) \<Rightarrow> unit result \<times> (js_string \<Rightarrow> uuid option)" where
  "assertTokenMatchesAddress rows slug tokenTenantId idBySlug =
    (case slug of
       None \<Rightarrow> (Inr (), idBySlug)
     | Some s \<Rightarrow>
         (case tenantIdForSlug rows idBySlug s of (found, idBySlug') \<Rightarrow>
            if found \<noteq> Some tokenTenantId then (Inl (Forbidden ''tenant_mismatch''), idBySlug') else (Inr (), idBySlug')))"

text \<open>What the map holds was read from a row; slugs are unique and never change once set.\<close>

definition address_ok :: "(js_string option \<times> uuid) list \<Rightarrow> (js_string \<Rightarrow> uuid option) \<Rightarrow> bool" where
  "address_ok rows idBySlug \<longleftrightarrow> (\<forall>s k. idBySlug s = Some k \<longrightarrow> (Some s, k) \<in> set rows) \<and>
     (\<forall>s k k'. (Some s, k) \<in> set rows \<longrightarrow> (Some s, k') \<in> set rows \<longrightarrow> k = k')"

lemma tenantIdForSlug_sound:
  assumes "address_ok rows m" "tenantIdForSlug rows m s = (found, m')"
  shows "address_ok rows m' \<and> (\<forall>k. found = Some k \<longleftrightarrow> (Some s, k) \<in> set rows)"
proof (cases "m s")
  case (Some k)
  then have "found = Some k" "m' = m" "(Some s, k) \<in> set rows" using assms by (auto simp: tenantIdForSlug_def address_ok_def)
  then show ?thesis using assms(1) by (auto simp: address_ok_def)
next
  case None
  show ?thesis
  proof (cases "find (\<lambda>r. fst r = Some s) rows")
    case n: None
    then have "found = None" "m' = m" using assms(2) None by (simp_all add: tenantIdForSlug_def)
    moreover have "\<forall>k. (Some s, k) \<notin> set rows" using n by (auto simp: find_None_iff)
    ultimately show ?thesis using assms(1) by simp
  next
    case f: (Some r)
    then have r: "(Some s, snd r) \<in> set rows" using find_SomeD [OF f] by (metis prod.collapse)
    have m: "found = Some (snd r)" "m' = m(s \<mapsto> snd r)" using assms(2) None f by (auto simp: tenantIdForSlug_def)
    show ?thesis using assms(1) r unfolding m address_ok_def by auto
  qed
qed

text \<open>
  C40: a request that reaches a restaurant's own address through the trusted proxy is let through exactly when its token is
  of that restaurant, whatever was looked up before; an address that names no tenant, or one the proxy does not vouch
  for, is not checked.
\<close>

theorem token_matches_address:
  assumes "address_ok rows idBySlug" "slug = slugOf lower_case baseDomain host trusted"
    "assertTokenMatchesAddress rows slug tokenTenantId idBySlug = (r, idBySlug')"
  shows "address_ok rows idBySlug' \<and> (r = Inr () \<or> r = Inl (Forbidden ''tenant_mismatch'')) \<and>
    (r = Inr () \<longleftrightarrow> slug = None \<or> (Some (the slug), tokenTenantId) \<in> set rows) \<and>
    (slug \<noteq> None \<longrightarrow> trusted \<and> slugProblem (the slug) \<noteq> Some slug_invalid)"
proof (cases slug)
  case None
  then show ?thesis using assms by (auto simp: assertTokenMatchesAddress_def)
next
  case (Some s)
  obtain found m' where t: "tenantIdForSlug rows idBySlug s = (found, m')" by fastforce
  note sound = tenantIdForSlug_sound [OF assms(1) t]
  have "trusted \<and> slugProblem s \<noteq> Some slug_invalid"
    using assms(2) Some slugFromHost_iff [of lower_case _ baseDomain s] by (auto simp: slugOf_def split: option.splits if_splits)
  then show ?thesis using assms(3) sound t Some by (auto simp: assertTokenMatchesAddress_def split: if_splits)
qed

theorem token_matches_address_witness:
  "fst (assertTokenMatchesAddress [(Some [98, 97, 121], 1)] (slugOf (\<lambda>t. t) [120, 46, 97] (Some [98, 97, 121, 46, 120, 46, 97]) True) 2 (\<lambda>_. None))
    = Inl (Forbidden ''tenant_mismatch'')"
proof -
  let ?s = "slugOf (\<lambda>t. t) [120, 46, 97] (Some [98, 97, 121, 46, 120, 46, 97]) True"
  let ?rows = "[(Some [98, 97, 121], 1)]"
  obtain r m where run: "assertTokenMatchesAddress ?rows ?s 2 (\<lambda>_. None) = (r, m)" by fastforce
  have s: "?s = Some [98, 97, 121]" by (simp add: slugOf_def slugFromHost_def slugProblem_def SLUG_PATTERN_def slug_char_def
      alnum_unit_def js_ends_with_def strip_port_def js_trim_def js_space_def is_digit_def Let_def)
  have "address_ok ?rows (\<lambda>_. None)" by (simp add: address_ok_def)
  from token_matches_address [OF this refl run] s have "r = Inl (Forbidden ''tenant_mismatch'')" by auto
  then show ?thesis by (simp only: run fst_conv)
qed

end
