(* ===== verification/Progress.thy ===== *)
theory Progress
  imports Bills
begin










end
