(* ===== verification/Staff.thy ===== *)
theory Staff
  imports MenuImport Platform
begin

text \<open>
  The owner's staff list, \<^verbatim>\<open>src/src/admin/staff/staff.service.ts\<close>: adding and editing staff, issuing and revoking the PIN
  they sign in with at the till. A change that takes rights away moves the row's \<open>sessionVersion\<close> on, which is what ends the
  sessions opened before it (the till's side is in \<open>TillAccess\<close>). The PIN drawn by \<open>randomInt\<close> and the hash \<open>argon2\<close>
  makes of it are arguments; the collation that sorts role names is one as well.
\<close>

section \<open>Views and checks\<close>

datatype pin_status = pin_none | pin_active | pin_revoked

definition pinStatus :: "staff_user \<Rightarrow> pin_status" where
  "pinStatus row = (if nullish (su_pinHash row) [] = [] then pin_none
     else if su_pinRevokedAt row \<noteq> None then pin_revoked else pin_active)"

record role_view =
  rw_id :: uuid
  rw_name :: string
  rw_isSystem :: bool
  rw_permissions :: "permission list"

record staff_view =
  sf_id :: uuid
  sf_tenantId :: uuid
  sf_name :: string
  sf_email :: "string option"
  sf_roleId :: uuid
  sf_roleName :: string
  sf_outletIds :: "uuid list"
  sf_pinStatus :: pin_status
  sf_createdAt :: date

definition staff_role_name :: "db \<Rightarrow> staff_user \<Rightarrow> string" where
  "staff_role_name d u = nullish (map_option ro_name (find_row ro_id (su_roleId u) (roles d))) []"

definition toStaffView :: "db \<Rightarrow> staff_user \<Rightarrow> staff_view" where
  "toStaffView d row =
     \<lparr>sf_id = su_id row, sf_tenantId = su_tenantId row, sf_name = su_name row, sf_email = su_email row, sf_roleId = su_roleId row,
      sf_roleName = staff_role_name d row, sf_outletIds = su_outletIds row, sf_pinStatus = pinStatus row, sf_createdAt = su_createdAt row\<rparr>"

definition PIN_LENGTH :: nat where
  "PIN_LENGTH = 4"

definition generateStaffPin :: "nat \<Rightarrow> string" where
  "generateStaffPin rnd = (let digits = show_int (int rnd) in replicate (PIN_LENGTH - length digits) CHR ''0'' @ digits)"

definition listRoles :: "(string \<Rightarrow> string \<Rightarrow> bool) \<Rightarrow> uuid \<Rightarrow> db \<Rightarrow> role_view list" where
  "listRoles le tenantId d =
     map (\<lambda>r. \<lparr>rw_id = ro_id r, rw_name = ro_name r, rw_isSystem = ro_isSystem r, rw_permissions = permissionsFor (ro_name r)\<rparr>)
       (sort_by_le (\<lambda>r r'. le (ro_name r) (ro_name r')) (filter (\<lambda>r. ro_tenantId r = tenantId) (roles d)))"

definition listStaff :: "admin_principal \<Rightarrow> db \<Rightarrow> staff_view list" where
  "listStaff owner d = map (toStaffView d) (filter (\<lambda>u. su_tenantId u = ad_tenantId owner) (staffUsers d))"

definition assertSeededRole :: "db \<Rightarrow> uuid \<Rightarrow> uuid \<Rightarrow> unit result" where
  "assertSeededRole d tenantId roleId =
    (case find_row ro_id roleId (roles d) of
       None \<Rightarrow> Inl (BadRequest ''validation_failed'')
     | Some r \<Rightarrow> if ro_tenantId r \<noteq> tenantId \<or> \<not> ro_isSystem r then Inl (BadRequest ''validation_failed'') else Inr ())"

text \<open>A JavaScript \<open>Set\<close> keeps the first of equal elements.\<close>

definition first_of_each :: "'a list \<Rightarrow> 'a list" where
  "first_of_each xs = rev (remdups (rev xs))"

definition assertOwnOutlets :: "db \<Rightarrow> uuid \<Rightarrow> uuid list \<Rightarrow> uuid list result" where
  "assertOwnOutlets d tenantId outletIds =
    (let ids = first_of_each outletIds;
         found = count_rows (\<lambda>x. ou_id x \<in> set ids \<and> ou_tenantId x = tenantId \<and> ou_deletedAt x = None) (outlets d)
     in if found \<noteq> length ids then Inl (BadRequest ''validation_failed'') else Inr ids)"

definition findOwnedStaff :: "db \<Rightarrow> uuid \<Rightarrow> uuid \<Rightarrow> staff_user result" where
  "findOwnedStaff d tenantId staffId =
    (case find_row su_id staffId (staffUsers d) of
       None \<Rightarrow> Inl (NotFound ''not_found'')
     | Some u \<Rightarrow> if su_tenantId u \<noteq> tenantId then Inl (NotFound ''not_found'') else Inr u)"

section \<open>Operations\<close>

record create_staff_dto =
  cd_name :: string
  cd_email :: "string option"
  cd_roleId :: uuid
  cd_outletIds :: "uuid list option"

record update_staff_dto =
  ud_name :: "string option"
  ud_roleId :: "uuid option"
  ud_outletIds :: "uuid list option"
  ud_reason :: "string option"

definition set_staff :: "uuid \<Rightarrow> (staff_user \<Rightarrow> staff_user) \<Rightarrow> console_db \<Rightarrow> console_db" where
  "set_staff staffId f s = s\<lparr>sd_db := (sd_db s)\<lparr>staffUsers := update_rows (\<lambda>u. su_id u = staffId) f (staffUsers (sd_db s))\<rparr>\<rparr>"

definition createStaff :: "setup_env \<Rightarrow> admin_principal \<Rightarrow> create_staff_dto \<Rightarrow> console_db \<Rightarrow> (staff_view \<times> console_db) result" where
  "createStaff e owner dto s =
    r_bind (assertSeededRole (sd_db s) (ad_tenantId owner) (cd_roleId dto)) (\<lambda>_.
    r_bind (assertOwnOutlets (sd_db s) (ad_tenantId owner) (nullish (cd_outletIds dto) [])) (\<lambda>outletIds.
      let isFirst = (count_rows (\<lambda>u. su_tenantId u = ad_tenantId owner) (staffUsers (sd_db s)) = 0);
          (i, s1) = fresh s;
          created = \<lparr>su_id = i, su_tenantId = ad_tenantId owner, su_name = str_trim (cd_name dto), su_email = cd_email dto,
             su_roleId = cd_roleId dto, su_pinHash = None, su_pinIssuedAt = None, su_pinRevokedAt = None, su_outletIds = outletIds,
             su_sessionVersion = 0, su_createdAt = now (se_env e)\<rparr>;
          s2 = s1\<lparr>sd_db := (sd_db s1)\<lparr>staffUsers := staffUsers (sd_db s1) @ [created]\<rparr>\<rparr>;
          s3 = (if isFirst
                then snd (upsert_progress (ad_tenantId owner) (\<lambda>r. r\<lparr>cp_completedAt := (cp_completedAt r)(ck_staff := Some (now (se_env e)))\<rparr>) s2)
                else s2)
      in if su_email created \<noteq> None \<and> list_ex (\<lambda>u. su_tenantId u = ad_tenantId owner \<and> su_email u = su_email created) (staffUsers (sd_db s))
         then Inl (InternalError ''P2002'')
         else Inr (toStaffView (sd_db s3) created, s3)))"

definition edit_row :: "update_staff_dto \<Rightarrow> uuid list option \<Rightarrow> bool \<Rightarrow> staff_user \<Rightarrow> staff_user" where
  "edit_row dto outletIds ends u =
     u\<lparr>su_name := (case ud_name dto of None \<Rightarrow> su_name u | Some n \<Rightarrow> str_trim n), su_roleId := nullish (ud_roleId dto) (su_roleId u),
       su_outletIds := nullish outletIds (su_outletIds u), su_sessionVersion := (if ends then su_sessionVersion u + 1 else su_sessionVersion u)\<rparr>"

definition roleChanging :: "update_staff_dto \<Rightarrow> staff_user \<Rightarrow> bool" where
  "roleChanging dto existing = (ud_roleId dto \<noteq> None \<and> ud_roleId dto \<noteq> Some (su_roleId existing))"

definition outletsChanging :: "uuid list option \<Rightarrow> staff_user \<Rightarrow> bool" where
  "outletsChanging outletIds existing = (case outletIds of None \<Rightarrow> False | Some ids \<Rightarrow> sort ids \<noteq> sort (su_outletIds existing))"

definition updateStaff :: "setup_env \<Rightarrow> admin_principal \<Rightarrow> uuid \<Rightarrow> update_staff_dto \<Rightarrow> console_db \<Rightarrow> (staff_view \<times> console_db) result" where
  "updateStaff e owner staffId dto s =
    r_bind (findOwnedStaff (sd_db s) (ad_tenantId owner) staffId) (\<lambda>existing.
    r_bind (if roleChanging dto existing
            then r_bind (assertSeededRole (sd_db s) (ad_tenantId owner) (nullish (ud_roleId dto) 0)) (\<lambda>_.
                   if nullish (ud_reason dto) [] = [] then Inl (BadRequest ''validation_failed'') else Inr ())
            else Inr ()) (\<lambda>_.
    r_bind (case ud_outletIds dto of None \<Rightarrow> Inr None
            | Some ids \<Rightarrow> r_bind (assertOwnOutlets (sd_db s) (ad_tenantId owner) ids) (\<lambda>own. Inr (Some own))) (\<lambda>outletIds.
      let ends = (roleChanging dto existing \<or> outletsChanging outletIds existing);
          s1 = set_staff staffId (edit_row dto outletIds ends) s;
          s2 = (if roleChanging dto existing then write_audit e owner ''staff.role_changed'' (nullish (ud_reason dto) []) s1 else s1)
      in Inr (toStaffView (sd_db s2) (edit_row dto outletIds ends existing), s2))))"

definition issuePin :: "setup_env \<Rightarrow> (string \<Rightarrow> string) \<Rightarrow> nat \<Rightarrow> admin_principal \<Rightarrow> uuid \<Rightarrow> console_db \<Rightarrow> (string \<times> console_db) result" where
  "issuePin e argon2_hash rnd owner staffId s =
    (let pin = generateStaffPin rnd in
     r_bind (findOwnedStaff (sd_db s) (ad_tenantId owner) staffId) (\<lambda>_.
       Inr (pin, set_staff staffId (\<lambda>u. u\<lparr>su_pinHash := Some (argon2_hash pin), su_pinIssuedAt := Some (now (se_env e)), su_pinRevokedAt := None,
          su_sessionVersion := su_sessionVersion u + 1\<rparr>) s)))"

definition revoke_row :: "setup_env \<Rightarrow> staff_user \<Rightarrow> staff_user" where
  "revoke_row e u = u\<lparr>su_pinRevokedAt := Some (now (se_env e)), su_sessionVersion := su_sessionVersion u + 1\<rparr>"

definition revokePin :: "setup_env \<Rightarrow> admin_principal \<Rightarrow> uuid \<Rightarrow> string \<Rightarrow> console_db \<Rightarrow> (staff_view \<times> console_db) result" where
  "revokePin e owner staffId reason s =
    r_bind (findOwnedStaff (sd_db s) (ad_tenantId owner) staffId) (\<lambda>staff.
      if nullish (su_pinHash staff) [] = [] then Inl (Conflict ''conflict'')
      else if su_pinRevokedAt staff \<noteq> None then Inl (Conflict ''conflict'')
      else let s1 = write_audit e owner ''staff.pin_revoked'' reason (set_staff staffId (revoke_row e) s)
           in Inr (toStaffView (sd_db s1) (revoke_row e staff), s1))"

end
