(* ===== verification/TillAccess.thy ===== *)
theory TillAccess
  imports Staff
begin

text \<open>
  Who may use the till: signing in with a PIN (\<^verbatim>\<open>src/src/pos/auth/auth.service.ts\<close>), the guard in front of every request
  (\<^verbatim>\<open>src/src/platform/pos-auth.guard.ts\<close>), and the clock that sign-in starts (\<^verbatim>\<open>src/src/pos/clock\<close>). A token is
  represented by the claims that verifying it gives; signature and expiry are checked by \<open>jsonwebtoken\<close>, so a request carries
  the claims of its token or none. \<open>sha256\<close> of a device secret and \<open>randomUUID\<close> are arguments; \<open>argon2\<close> and the
  calendar day of a time zone are fields of the environment. The limiter's counters are returned beside the result, as they
  outlive a refusal. The dummy hash verified when no PIN matches only costs time.
\<close>

section \<open>The clock\<close>

definition localDateKey :: "env \<Rightarrow> date \<Rightarrow> string \<Rightarrow> string" where
  "localDateKey e at' timezone = date_key e at' timezone"

definition recordClockInIfNeeded :: "env \<Rightarrow> uuid \<Rightarrow> uuid \<Rightarrow> uuid \<Rightarrow> string \<Rightarrow> db \<Rightarrow> db" where
  "recordClockInIfNeeded e tenantId staffId outletId timezone d =
    (let add = (case take_id d of (i, d1) \<Rightarrow>
           d1\<lparr>clockEvents := clockEvents d1 @ [\<lparr>ce_id = i, ce_tenantId = tenantId, ce_staffId = staffId, ce_outletId = outletId,
                ce_type = clock_in, ce_occurredAt = now e\<rparr>]\<rparr>)
     in case latest_by ce_occurredAt (filter (\<lambda>x. ce_staffId x = staffId) (clockEvents d)) of
          None \<Rightarrow> add
        | Some latest \<Rightarrow>
            if ce_type latest = clock_in \<and> localDateKey e (ce_occurredAt latest) timezone = localDateKey e (now e) timezone then d else add)"

record clock_event_view =
  cw_id :: uuid
  cw_type :: clock_event_type
  cw_occurredAt :: date

definition clockOut :: "env \<Rightarrow> pos_principal \<Rightarrow> db \<Rightarrow> (clock_event_view \<times> db) result" where
  "clockOut e staff d =
    (case latest_by ce_occurredAt (filter (\<lambda>x. ce_staffId x = pp_id staff) (clockEvents d)) of
       None \<Rightarrow> Inl (Conflict ''not_clocked_in'')
     | Some latest \<Rightarrow>
         if ce_type latest \<noteq> clock_in then Inl (Conflict ''not_clocked_in'')
         else (case take_id d of (i, d1) \<Rightarrow>
           let created = \<lparr>ce_id = i, ce_tenantId = pp_tenantId staff, ce_staffId = pp_id staff, ce_outletId = pp_outletId staff,
                 ce_type = clock_out, ce_occurredAt = now e\<rparr>
           in Inr (\<lparr>cw_id = i, cw_type = clock_out, cw_occurredAt = now e\<rparr>, d1\<lparr>clockEvents := clockEvents d1 @ [created]\<rparr>)))"

record attendance_entry =
  an_staffId :: uuid
  an_name :: string
  an_clockedInAt :: date

record attendance_view =
  av_outletId :: uuid
  av_asOf :: date
  av_staff :: "attendance_entry list"

definition LOOKBACK_HOURS :: int where
  "LOOKBACK_HOURS = 48"

text \<open>The loop over the events, newest first, with the staff seen so far.\<close>

fun attendance_loop :: "(clock_event \<Rightarrow> bool) \<Rightarrow> uuid list \<Rightarrow> clock_event list \<Rightarrow> clock_event list" where
  "attendance_loop counts seenStaff [] = []"
| "attendance_loop counts seenStaff (x # xs) =
    (if ce_staffId x \<in> set seenStaff then attendance_loop counts seenStaff xs
     else (if counts x then [x] else []) @ attendance_loop counts (ce_staffId x # seenStaff) xs)"

definition newest_events :: "clock_event list \<Rightarrow> clock_event list" where
  "newest_events xs = rev (sort_key ce_occurredAt xs)"

definition getAttendance :: "env \<Rightarrow> (string \<Rightarrow> string \<Rightarrow> bool) \<Rightarrow> pos_principal \<Rightarrow> uuid \<Rightarrow> db \<Rightarrow> attendance_view result" where
  "getAttendance e le staff outletId d =
    (case find_row ou_id outletId (outlets d) of
       None \<Rightarrow> Inl (NotFound ''not_found'')
     | Some out \<Rightarrow>
         if ou_tenantId out \<noteq> pp_tenantId staff then Inl (NotFound ''not_found'')
         else let since = now e - LOOKBACK_HOURS * 60 * 60 * 1000;
                  events = newest_events (filter (\<lambda>x. ce_tenantId x = pp_tenantId staff \<and> ce_outletId x = outletId \<and> since \<le> ce_occurredAt x) (clockEvents d));
                  todayKey = localDateKey e (now e) (ou_timezone out);
                  counts = (\<lambda>x. ce_type x = clock_in \<and> localDateKey e (ce_occurredAt x) (ou_timezone out) = todayKey);
                  clockedIn = map (\<lambda>x. \<lparr>an_staffId = ce_staffId x,
                       an_name = nullish (map_option su_name (find_row su_id (ce_staffId x) (staffUsers d))) [],
                       an_clockedInAt = ce_occurredAt x\<rparr>) (attendance_loop counts [] events)
              in Inr \<lparr>av_outletId = outletId, av_asOf = now e, av_staff = sort_by_le (\<lambda>a b. le (an_name a) (an_name b)) clockedIn\<rparr>)"

section \<open>Signing in\<close>

record pos_claims =
  tok_id :: uuid
  tok_tenantId :: uuid
  tok_outletId :: uuid
  tok_name :: string
  tok_sessionVersion :: int
  tok_token :: "(string \<times> int) option"
  tok_deviceId :: "uuid option"

definition POS_SESSION_TTL_SECONDS :: int where
  "POS_SESSION_TTL_SECONDS = 12 * 60 * 60"

record pos_login_dto =
  pl_tenantId :: uuid
  pl_pin :: string
  pl_deviceId :: "uuid option"
  pl_deviceSecret :: "string option"

datatype login_result =
    authenticated pos_claims "uuid \<times> string" "uuid \<times> string"
  | select_outlet "uuid \<times> uuid" "uuid \<times> string" "(uuid \<times> string) list"

definition DEVICE_RULE :: "attempt_key \<Rightarrow> attempt_rule" where
  "DEVICE_RULE k = \<lparr>ar_key = k, ar_max = 10, ar_windowSeconds = 15 * 60\<rparr>"

definition IP_RULE :: "attempt_key \<Rightarrow> attempt_rule" where
  "IP_RULE k = \<lparr>ar_key = k, ar_max = 10, ar_windowSeconds = 15 * 60\<rparr>"

definition UNTRUSTED_TENANT_RULE :: "attempt_key \<Rightarrow> attempt_rule" where
  "UNTRUSTED_TENANT_RULE k = \<lparr>ar_key = k, ar_max = 30, ar_windowSeconds = 60 * 60\<rparr>"

definition throttleRules :: "uuid \<Rightarrow> string \<Rightarrow> uuid option \<Rightarrow> attempt_rule list" where
  "throttleRules tenantId ip trustedDeviceId =
    (case trustedDeviceId of
       Some i \<Rightarrow> [DEVICE_RULE (PosPinDeviceKey tenantId i)]
     | None \<Rightarrow> [IP_RULE (PosPinIpKey tenantId ip), UNTRUSTED_TENANT_RULE (PosPinUntrustedKey tenantId)])"

definition deviceSecretMatches :: "(string \<Rightarrow> string) \<Rightarrow> string option \<Rightarrow> string option \<Rightarrow> bool" where
  "deviceSecretMatches sha256 secret storedHash =
    (nullish secret [] \<noteq> [] \<and> nullish storedHash [] \<noteq> [] \<and> sha256 (nullish secret []) = nullish storedHash [])"

definition findDevice :: "db \<Rightarrow> uuid \<Rightarrow> uuid \<Rightarrow> device option" where
  "findDevice d tenantId deviceId = find (\<lambda>v. dv_id v = deviceId \<and> dv_tenantId v = tenantId) (devices d)"

definition device_active :: "device \<Rightarrow> bool" where
  "device_active v = (dv_status v = d_active \<and> dv_revokedAt v = None)"

definition findStaffByPin :: "env \<Rightarrow> db \<Rightarrow> uuid \<Rightarrow> string \<Rightarrow> staff_user option" where
  "findStaffByPin e d tenantId pin =
     find (\<lambda>u. pinStatus u = pin_active \<and> argon2_verify e (nullish (su_pinHash u) []) pin)
       (filter (\<lambda>u. su_tenantId u = tenantId \<and> su_pinHash u \<noteq> None) (staffUsers d))"

definition listOutlets :: "db \<Rightarrow> uuid \<Rightarrow> uuid list \<Rightarrow> outlet list" where
  "listOutlets d tenantId staffOutletIds =
     filter (\<lambda>x. ou_tenantId x = tenantId \<and> ou_deletedAt x = None \<and> (staffOutletIds \<noteq> [] \<longrightarrow> ou_id x \<in> set staffOutletIds)) (outlets d)"

definition staff_summary :: "staff_user \<Rightarrow> uuid \<times> string" where
  "staff_summary u = (su_id u, su_name u)"

definition outlet_summary :: "outlet \<Rightarrow> uuid \<times> string" where
  "outlet_summary x = (ou_id x, ou_name x)"

definition login_finalize :: "env \<Rightarrow> string \<Rightarrow> staff_user \<Rightarrow> outlet \<Rightarrow> uuid option \<Rightarrow> db \<Rightarrow> login_result \<times> db" where
  "login_finalize e jti staff out deviceId d =
    (authenticated \<lparr>tok_id = su_id staff, tok_tenantId = su_tenantId staff, tok_outletId = ou_id out, tok_name = su_name staff,
        tok_sessionVersion = su_sessionVersion staff, tok_token = Some (jti, now e div 1000 + POS_SESSION_TTL_SECONDS), tok_deviceId = deviceId\<rparr>
       (staff_summary staff) (outlet_summary out),
     recordClockInIfNeeded e (su_tenantId staff) (su_id staff) (ou_id out) (ou_timezone out) d)"

definition login_outlet :: "env \<Rightarrow> string \<Rightarrow> staff_user \<Rightarrow> device option \<Rightarrow> db \<Rightarrow> (login_result \<times> db) result" where
  "login_outlet e jti staff active d =
    (let outs = listOutlets d (su_tenantId staff) (su_outletIds staff) in
     case Option.bind active dv_outletId of
       Some k \<Rightarrow> (case find (\<lambda>x. ou_id x = k) outs of
           None \<Rightarrow> Inl (Forbidden ''outlet_not_assigned'')
         | Some x \<Rightarrow> Inr (login_finalize e jti staff x (map_option dv_id active) d))
     | None \<Rightarrow> (case outs of
           [] \<Rightarrow> Inl (Conflict ''no_outlets'')
         | [x] \<Rightarrow> Inr (login_finalize e jti staff x None d)
         | _ \<Rightarrow> Inr (select_outlet (su_id staff, su_tenantId staff) (staff_summary staff) (map outlet_summary outs), d)))"

definition login ::
  "env \<Rightarrow> (string \<Rightarrow> string) \<Rightarrow> string \<Rightarrow> pos_login_dto \<Rightarrow> string \<Rightarrow> db \<Rightarrow> attempts \<Rightarrow> (login_result \<times> db) result \<times> attempts" where
  "login e sha256 jti dto ip d a =
    (let tenantId = pl_tenantId dto;
         device = Option.bind (pl_deviceId dto) (findDevice d tenantId);
         active = (case device of None \<Rightarrow> None | Some v \<Rightarrow> if device_active v then Some v else None);
         trusted = (case active of None \<Rightarrow> None
           | Some v \<Rightarrow> if deviceSecretMatches sha256 (pl_deviceSecret dto) (dv_secretHash v) then Some (dv_id v) else None);
         rules = throttleRules tenantId ip trusted
     in case consume (now e) rules a of
          (Inl err, a1) \<Rightarrow> (Inl err, a1)
        | (Inr _, a1) \<Rightarrow>
            if device \<noteq> None \<and> active = None then (Inl (Forbidden ''device_revoked''), a1)
            else (case findStaffByPin e d tenantId (pl_pin dto) of
              None \<Rightarrow> (Inl (Unauthorized ''invalid_pin''), a1)
            | Some staff \<Rightarrow> (login_outlet e jti staff active d, refund_attempts (now e) rules a1)))"

text \<open>The hand-off token of an outlet choice is the pair it carries, or none when it does not verify.\<close>

definition selectOutlet :: "env \<Rightarrow> string \<Rightarrow> (uuid \<times> uuid) option \<Rightarrow> uuid \<Rightarrow> db \<Rightarrow> (login_result \<times> db) result" where
  "selectOutlet e jti pending outletId d =
    (case pending of
       None \<Rightarrow> Inl (Unauthorized ''unauthorized'')
     | Some (k, tenantId) \<Rightarrow>
         (case find_row su_id k (staffUsers d) of
            None \<Rightarrow> Inl (Unauthorized ''unauthorized'')
          | Some u \<Rightarrow>
              if su_tenantId u \<noteq> tenantId then Inl (Unauthorized ''unauthorized'')
              else (case find_row ou_id outletId (outlets d) of
                 None \<Rightarrow> Inl (BadRequest ''invalid_outlet'')
               | Some x \<Rightarrow>
                   if ou_tenantId x \<noteq> tenantId \<or> ou_deletedAt x \<noteq> None then Inl (BadRequest ''invalid_outlet'')
                   else if su_outletIds u \<noteq> [] \<and> ou_id x \<notin> set (su_outletIds u) then Inl (Forbidden ''outlet_not_assigned'')
                   else Inr (login_finalize e jti u x None d))))"

text \<open>Signing out ends the presented token; a token without identity ends every session of its holder.\<close>

definition logout :: "pos_principal \<Rightarrow> (string \<times> int) option \<Rightarrow> db \<Rightarrow> db result" where
  "logout staff token d =
    (case token of
       Some (jti, expiresAt) \<Rightarrow> Inr (if find_row rv_jti jti (revokedTokens d) \<noteq> None then d
          else d\<lparr>revokedTokens := revokedTokens d @ [\<lparr>rv_jti = jti, rv_tenantId = pp_tenantId staff, rv_expiresAt = expiresAt * 1000\<rparr>]\<rparr>)
     | None \<Rightarrow> if find_row su_id (pp_id staff) (staffUsers d) = None then Inl (InternalError ''P2025'')
         else Inr (d\<lparr>staffUsers := update_rows (\<lambda>u. su_id u = pp_id staff) (\<lambda>u. u\<lparr>su_sessionVersion := su_sessionVersion u + 1\<rparr>) (staffUsers d)\<rparr>))"

section \<open>The guard\<close>

text \<open>
  What the guard reads of a request on \<^verbatim>\<open>/pos\<close> or \<^verbatim>\<open>/kitchen\<close>: the claims of its bearer token, the outlets and rows it names
  (\<open>None\<close> for a parameter that is absent or no UUID) and the policy of its handler. The address check is the service of
  \<open>TenantSlug\<close>, a parameter here.
\<close>

datatype route_policy = any_staff | needs permission

record pos_request =
  rq_claims :: "pos_claims option"
  rq_paramOutletId :: "uuid option"
  rq_queryOutletId :: "uuid option"
  rq_bodyOutletId :: "uuid option"
  rq_route :: string
  rq_id :: "uuid option"
  rq_orderId :: "uuid option"
  rq_ticketId :: "uuid option"
  rq_policy :: "route_policy option"

definition outletsReached :: "db \<Rightarrow> pos_request \<Rightarrow> uuid list" where
  "outletsReached d rq =
    (let look = (\<lambda>enabled k f. if enabled then Option.bind k f else None);
         on = (\<lambda>path. str_includes (rq_route rq) path)
     in List.map_filter (\<lambda>x. x)
          [rq_paramOutletId rq, rq_queryOutletId rq, rq_bodyOutletId rq,
           Option.bind (rq_orderId rq) (\<lambda>k. map_option o_outletId (find_row o_id k (orders d))),
           Option.bind (rq_ticketId rq) (\<lambda>k. map_option tk_outletId (find_row tk_id k (tickets d))),
           look (on ''/bills/:id'') (rq_id rq) (\<lambda>k. map_option b_outletId (find_row b_id k (bills d))),
           look (on ''/shifts/:id'') (rq_id rq) (\<lambda>k. map_option sh_outletId (find_row sh_id k (shifts d))),
           look (on ''/payment-intents/:id'') (rq_id rq) (\<lambda>k. map_option pi_outletId (find_row pi_id k (intents d))),
           look (on ''/print-jobs/:id'') (rq_id rq) (\<lambda>k. map_option pj_outletId (find_row pj_id k (printJobs d)))])"

definition token_revoked :: "db \<Rightarrow> pos_claims \<Rightarrow> bool" where
  "token_revoked d c = (case tok_token c of None \<Rightarrow> False | Some (jti, _) \<Rightarrow> find_row rv_jti jti (revokedTokens d) \<noteq> None)"

definition till_still_active :: "db \<Rightarrow> pos_claims \<Rightarrow> bool" where
  "till_still_active d c = (case tok_deviceId c of None \<Rightarrow> True
     | Some k \<Rightarrow> count_rows (\<lambda>v. dv_id v = k \<and> dv_tenantId v = tok_tenantId c \<and> device_active v) (devices d) > 0)"

definition canActivate :: "(uuid \<Rightarrow> unit result) \<Rightarrow> pos_request \<Rightarrow> db \<Rightarrow> pos_principal result" where
  "canActivate assertAddress rq d =
    (case rq_claims rq of
       None \<Rightarrow> Inl (Unauthorized ''unauthorized'')
     | Some c \<Rightarrow>
         if isTenantBlocked d (tok_tenantId c) then Inl (Forbidden ''tenant_inactive'')
         else r_bind (assertAddress (tok_tenantId c)) (\<lambda>_.
           case find_row su_id (tok_id c) (staffUsers d) of
             None \<Rightarrow> Inl (Unauthorized ''session_revoked'')
           | Some u \<Rightarrow>
               let roleName = staff_role_name d u;
                   outside = (su_outletIds u \<noteq> [] \<and> list_ex (\<lambda>k. k \<notin> set (su_outletIds u)) (outletsReached d rq))
               in if token_revoked d c \<or> su_tenantId u \<noteq> tok_tenantId c \<or> su_pinRevokedAt u \<noteq> None \<or>
                     su_sessionVersion u \<noteq> tok_sessionVersion c then Inl (Unauthorized ''session_revoked'')
                  else if \<not> till_still_active d c then Inl (Unauthorized ''device_revoked'')
                  else if outside then Inl (Forbidden ''outlet_mismatch'')
                  else (case rq_policy rq of
                      None \<Rightarrow> Inl (Forbidden ''forbidden'')
                    | Some p \<Rightarrow>
                        if (case p of any_staff \<Rightarrow> False | needs q \<Rightarrow> \<not> roleHasPermission roleName q) then Inl (Forbidden ''forbidden'')
                        else Inr \<lparr>pp_id = tok_id c, pp_name = su_name u, pp_role = roleName, pp_tenantId = tok_tenantId c, pp_outletId = tok_outletId c\<rparr>)))"

section \<open>A session that ended stays ended\<close>

definition ended :: "pos_claims \<Rightarrow> db \<Rightarrow> bool" where
  "ended c d \<longleftrightarrow> token_revoked d c \<or>
     (\<exists>u. find_row su_id (tok_id c) (staffUsers d) = Some u \<and> tok_sessionVersion c < su_sessionVersion u)"

text \<open>
  What may happen between two requests: the operations above, by anyone, in any order, and any other request of the
  service, none of which writes the staff or the list of revoked tokens.
\<close>

inductive access_step :: "console_db \<Rightarrow> console_db \<Rightarrow> bool" where
  ac_create: "createStaff e owner cd s = Inr (v, s') \<Longrightarrow> access_step s s'"
| ac_update: "updateStaff e owner k ud s = Inr (v, s') \<Longrightarrow> access_step s s'"
| ac_issue: "issuePin e h rnd owner k s = Inr (pin, s') \<Longrightarrow> access_step s s'"
| ac_revoke: "revokePin e owner k reason s = Inr (v, s') \<Longrightarrow> access_step s s'"
| ac_login: "login te h jti dto ip (sd_db s) a = (Inr (r, d'), a') \<Longrightarrow> access_step s (s\<lparr>sd_db := d'\<rparr>)"
| ac_select: "selectOutlet te jti pending out (sd_db s) = Inr (r, d') \<Longrightarrow> access_step s (s\<lparr>sd_db := d'\<rparr>)"
| ac_logout: "logout p token (sd_db s) = Inr d' \<Longrightarrow> access_step s (s\<lparr>sd_db := d'\<rparr>)"
| ac_clock_out: "clockOut te p (sd_db s) = Inr (cv, d') \<Longrightarrow> access_step s (s\<lparr>sd_db := d'\<rparr>)"
| ac_other: "staffUsers (sd_db s') = staffUsers (sd_db s) \<Longrightarrow> revokedTokens (sd_db s') = revokedTokens (sd_db s) \<Longrightarrow> access_step s s'"

text \<open>What ends the session of a token: its holder's PIN is revoked or issued anew, the holder gets another role or other outlets,
  or the holder signs out with it.\<close>

inductive sessions_end :: "pos_claims \<Rightarrow> console_db \<Rightarrow> console_db \<Rightarrow> bool" where
  en_revoke: "revokePin e owner (tok_id c) reason s = Inr (v, s') \<Longrightarrow> sessions_end c s s'"
| en_issue: "issuePin e h rnd owner (tok_id c) s = Inr (pin, s') \<Longrightarrow> sessions_end c s s'"
| en_role: "updateStaff e owner (tok_id c) ud s = Inr (v, s') \<Longrightarrow> find_row su_id (tok_id c) (staffUsers (sd_db s)) = Some u \<Longrightarrow>
    ud_roleId ud = Some r \<Longrightarrow> r \<noteq> su_roleId u \<Longrightarrow> sessions_end c s s'"
| en_outlets: "updateStaff e owner (tok_id c) ud s = Inr (v, s') \<Longrightarrow> find_row su_id (tok_id c) (staffUsers (sd_db s)) = Some u \<Longrightarrow>
    ud_outletIds ud = Some ids \<Longrightarrow> set ids \<noteq> set (su_outletIds u) \<Longrightarrow> sessions_end c s s'"
| en_logout: "logout p (tok_token c) (sd_db s) = Inr d' \<Longrightarrow> pp_id p = tok_id c \<Longrightarrow> sessions_end c s (s\<lparr>sd_db := d'\<rparr>)"

lemma ended_refused:
  assumes "ended c d" and "rq_claims rq = Some c"
  shows "\<exists>err. canActivate chk rq d = Inl err"
  using assms by (auto simp: ended_def canActivate_def r_bind_def Let_def split: option.splits sum.splits)

lemma findOwnedStaff_Inr: "findOwnedStaff d t k = Inr u \<longleftrightarrow> find_row su_id k (staffUsers d) = Some u \<and> su_tenantId u = t"
  by (auto simp: findOwnedStaff_def split: option.splits)

lemma write_audit_staff [simp]:
  "staffUsers (sd_db (write_audit e owner action reason s)) = staffUsers (sd_db s)"
  "revokedTokens (sd_db (write_audit e owner action reason s)) = revokedTokens (sd_db s)"
  by (simp_all add: write_audit_def)

lemma set_staff_staff [simp]:
  "staffUsers (sd_db (set_staff k f s)) = update_rows (\<lambda>u. su_id u = k) f (staffUsers (sd_db s))"
  "revokedTokens (sd_db (set_staff k f s)) = revokedTokens (sd_db s)"
  by (simp_all add: set_staff_def)

lemma upsert_progress_db [simp]: "sd_db (snd (upsert_progress t f s)) = sd_db s"
  by (auto simp: upsert_progress_def Let_def split: option.splits)

lemma recordClockIn_staff [simp]:
  "staffUsers (recordClockInIfNeeded e t k out tz d) = staffUsers d" "revokedTokens (recordClockInIfNeeded e t k out tz d) = revokedTokens d"
  "outlets (recordClockInIfNeeded e t k out tz d) = outlets d" "devices (recordClockInIfNeeded e t k out tz d) = devices d"
  "tenants (recordClockInIfNeeded e t k out tz d) = tenants d" "roles (recordClockInIfNeeded e t k out tz d) = roles d"
  by (auto simp: recordClockInIfNeeded_def take_id_def Let_def split: option.splits)

text \<open>How an operation changes the rows that decide.\<close>

definition staff_forward :: "db \<Rightarrow> db \<Rightarrow> bool" where
  "staff_forward d d' \<longleftrightarrow> (\<forall>k u. find_row su_id k (staffUsers d) = Some u \<longrightarrow>
     (\<exists>u'. find_row su_id k (staffUsers d') = Some u' \<and> su_sessionVersion u \<le> su_sessionVersion u')) \<and>
   (\<forall>j. find_row rv_jti j (revokedTokens d) \<noteq> None \<longrightarrow> find_row rv_jti j (revokedTokens d') \<noteq> None)"

lemma staff_forward_same: "staffUsers d' = staffUsers d \<Longrightarrow> revokedTokens d' = revokedTokens d \<Longrightarrow> staff_forward d d'"
  by (simp add: staff_forward_def)

lemma staff_forward_update:
  assumes "staffUsers d' = update_rows (\<lambda>u. su_id u = k) f (staffUsers d)" and "revokedTokens d' = revokedTokens d"
    and "\<And>u. su_id (f u) = su_id u" and "\<And>u. su_sessionVersion u \<le> su_sessionVersion (f u)"
  shows "staff_forward d d'"
  using assms by (auto simp: staff_forward_def find_row_update)

lemma staff_forward_create:
  assumes "createStaff e owner dto s = Inr (v, s')"
  shows "staff_forward (sd_db s) (sd_db s')"
proof -
  obtain x where "staffUsers (sd_db s') = staffUsers (sd_db s) @ [x]" "revokedTokens (sd_db s') = revokedTokens (sd_db s)"
    using assms by (auto simp: createStaff_def r_bind_eq_Inr Let_def fresh_def take_id_def split: if_splits)
  then show ?thesis by (auto simp: staff_forward_def find_row_append)
qed

lemma edit_row_fields [simp]: "su_id (edit_row dto outs ends u) = su_id u"
  by (simp add: edit_row_def)

lemma updateStaff_effect:
  assumes "updateStaff e owner k dto s = Inr (v, s')"
  obtains u outs where "find_row su_id k (staffUsers (sd_db s)) = Some u" "revokedTokens (sd_db s') = revokedTokens (sd_db s)"
    "staffUsers (sd_db s') = update_rows (\<lambda>u. su_id u = k) (edit_row dto outs (roleChanging dto u \<or> outletsChanging outs u)) (staffUsers (sd_db s))"
    "ud_outletIds dto = None \<longrightarrow> outs = None" "\<And>ids. ud_outletIds dto = Some ids \<Longrightarrow> \<exists>own. outs = Some own \<and> set own = set ids"
proof -
  obtain u outs where u: "findOwnedStaff (sd_db s) (ad_tenantId owner) k = Inr u"
    and o: "(case ud_outletIds dto of None \<Rightarrow> Inr None
            | Some ids \<Rightarrow> r_bind (assertOwnOutlets (sd_db s) (ad_tenantId owner) ids) (\<lambda>own. Inr (Some own))) = Inr outs"
    and s': "staffUsers (sd_db s') = update_rows (\<lambda>u. su_id u = k) (edit_row dto outs (roleChanging dto u \<or> outletsChanging outs u)) (staffUsers (sd_db s))"
      "revokedTokens (sd_db s') = revokedTokens (sd_db s)"
    using assms unfolding updateStaff_def r_bind_eq_Inr Let_def by (force split: if_splits)
  from o have "ud_outletIds dto = None \<longrightarrow> outs = None" "\<And>ids. ud_outletIds dto = Some ids \<Longrightarrow> \<exists>own. outs = Some own \<and> set own = set ids"
    by (auto simp: r_bind_eq_Inr assertOwnOutlets_def first_of_each_def Let_def split: if_splits)
  with u s' show thesis by (intro that) (auto simp: findOwnedStaff_Inr)
qed

lemma issuePin_effect:
  assumes "issuePin e h rnd owner k s = Inr (pin, s')"
  obtains f where "staffUsers (sd_db s') = update_rows (\<lambda>u. su_id u = k) f (staffUsers (sd_db s))" "revokedTokens (sd_db s') = revokedTokens (sd_db s)"
    "\<And>u. su_id (f u) = su_id u" "\<And>u. su_sessionVersion (f u) = su_sessionVersion u + 1"
  using assms by (intro that [of "\<lambda>u. u\<lparr>su_pinHash := Some (h (generateStaffPin rnd)), su_pinIssuedAt := Some (now (se_env e)), su_pinRevokedAt := None,
      su_sessionVersion := su_sessionVersion u + 1\<rparr>"]) (auto simp: issuePin_def r_bind_eq_Inr Let_def)

lemma revokePin_effect:
  assumes "revokePin e owner k reason s = Inr (v, s')"
  shows "staffUsers (sd_db s') = update_rows (\<lambda>u. su_id u = k) (revoke_row e) (staffUsers (sd_db s))" "revokedTokens (sd_db s') = revokedTokens (sd_db s)"
  using assms by (auto simp: revokePin_def r_bind_eq_Inr Let_def split: if_splits)

lemma login_keeps:
  assumes "login e h jti dto ip d a = (Inr (r, d'), a')"
  shows "staffUsers d' = staffUsers d" "revokedTokens d' = revokedTokens d"
  using assms by (auto simp: login_def login_outlet_def login_finalize_def Let_def split: prod.splits sum.splits option.splits if_splits list.splits)

lemma selectOutlet_keeps:
  assumes "selectOutlet e jti pending out d = Inr (r, d')"
  shows "staffUsers d' = staffUsers d" "revokedTokens d' = revokedTokens d"
  using assms by (auto simp: selectOutlet_def login_finalize_def split: option.splits if_splits)

lemma clockOut_keeps:
  assumes "clockOut e p d = Inr (cv, d')"
  shows "staffUsers d' = staffUsers d" "revokedTokens d' = revokedTokens d"
  using assms by (auto simp: clockOut_def take_id_def Let_def split: option.splits if_splits)

lemma logout_forward:
  assumes "logout p token d = Inr d'"
  shows "staff_forward d d'"
proof (cases token)
  case None
  with assms show ?thesis
    by (intro staff_forward_update [where k = "pp_id p" and f = "\<lambda>u. u\<lparr>su_sessionVersion := su_sessionVersion u + 1\<rparr>"])
      (auto simp: logout_def split: if_splits)
next
  case (Some t)
  with assms show ?thesis by (cases t) (auto simp: logout_def staff_forward_def find_row_append split: if_splits option.splits)
qed

lemma access_step_forward: "access_step s s' \<Longrightarrow> staff_forward (sd_db s) (sd_db s')"
proof (induction rule: access_step.induct)
  case (ac_update e owner k ud s v s')
  then show ?case
    by (rule updateStaff_effect) (rule staff_forward_update, assumption+, auto simp: edit_row_def)
next
  case (ac_issue e h rnd owner k s pin s')
  then show ?case by (rule issuePin_effect) (rule staff_forward_update, assumption+, auto)
next
  case (ac_revoke e owner k reason s v s')
  show ?case by (rule staff_forward_update [OF revokePin_effect [OF ac_revoke]]) (auto simp: revoke_row_def)
qed (auto intro: staff_forward_same staff_forward_create logout_forward dest: login_keeps selectOutlet_keeps clockOut_keeps)

lemma ended_forward: "ended c d \<Longrightarrow> staff_forward d d' \<Longrightarrow> ended c d'"
  unfolding ended_def staff_forward_def token_revoked_def by (fastforce split: option.splits prod.splits)

lemma sessions_end_ends:
  assumes "sessions_end c s s'" and u: "find_row su_id (tok_id c) (staffUsers (sd_db s)) = Some u" and "tok_sessionVersion c \<le> su_sessionVersion u"
  shows "ended c (sd_db s')"
proof -
  note id = find_row_Some [OF u, THEN conjunct2]
  from assms(1) show ?thesis
  proof cases
    case (en_revoke e owner reason v)
    show ?thesis using u id assms(3) by (simp add: ended_def revokePin_effect [OF en_revoke] find_row_update revoke_row_def)
  next
    case (en_issue e h rnd owner pin)
    then show ?thesis by (rule issuePin_effect) (use u assms(3) in \<open>auto simp: ended_def find_row_update id\<close>)
  next
    case (en_role e owner ud v u' r)
    from en_role(1) show ?thesis
      by (rule updateStaff_effect) (use en_role find_row_Some [OF en_role(2)] u assms(3) in \<open>auto simp: ended_def find_row_update id edit_row_def roleChanging_def\<close>)
  next
    case (en_outlets e owner ud v u' ids)
    from en_outlets(1) show ?thesis
    proof (rule updateStaff_effect)
      fix w outs
      assume w: "find_row su_id (tok_id c) (staffUsers (sd_db s)) = Some w"
        and s': "staffUsers (sd_db s') = update_rows (\<lambda>u. su_id u = tok_id c) (edit_row ud outs (roleChanging ud w \<or> outletsChanging outs w)) (staffUsers (sd_db s))"
        and outs: "\<And>ids. ud_outletIds ud = Some ids \<Longrightarrow> \<exists>own. outs = Some own \<and> set own = set ids"
      obtain own where own: "outs = Some own" "set own = set ids" using outs [OF en_outlets(3)] by blast
      have same: "w = u" "u' = u" using w u en_outlets(2) by simp_all
      have "sort own \<noteq> sort (su_outletIds u)" using own(2) en_outlets(4) same(2) by (metis set_sort)
      then have ch: "outletsChanging outs w" by (simp add: outletsChanging_def own(1) same(1))
      show ?thesis using u assms(3) unfolding ended_def s' by (simp add: ch find_row_update id edit_row_def)
    qed
  next
    case (en_logout p d')
    then show ?thesis using u assms(3)
      by (cases "tok_token c") (auto simp: ended_def logout_def token_revoked_def find_row_update id find_row_append find_row_Cons split: if_splits option.splits)
  qed
qed

text \<open>C28: Taking access away takes effect at once and for good. Once the PIN of a staff member is revoked or issued anew, the
  role or the outlets of a staff member change, or the holder signs out, no request with a token issued before is ever let through
  again, whatever happens in between: not by signing in again, nor by any other edit of the staff.\<close>

theorem ended_session_stays_ended:
  assumes "sessions_end c s s1" and "find_row su_id (tok_id c) (staffUsers (sd_db s)) = Some u" and "tok_sessionVersion c \<le> su_sessionVersion u"
    and "access_step\<^sup>*\<^sup>* s1 s2" and "rq_claims rq = Some c"
  shows "\<exists>err. canActivate chk rq (sd_db s2) = Inl err"
proof -
  have "ended c (sd_db s2)" using assms(4)
    by (induction rule: rtranclp_induct) (use sessions_end_ends [OF assms(1-3)] ended_forward access_step_forward in blast)+
  then show ?thesis using ended_refused assms(5) by blast
qed

section \<open>What signing in gives\<close>

lemma findStaffByPin_sound:
  "findStaffByPin e d t pin = Some u \<Longrightarrow> u \<in> set (staffUsers d) \<and> su_tenantId u = t \<and> su_pinRevokedAt u = None \<and>
     (\<exists>h. su_pinHash u = Some h \<and> argon2_verify e h pin)"
  by (auto simp: findStaffByPin_def find_Some_iff pinStatus_def split: if_splits dest!: nth_mem)

lemma login_authenticated:
  assumes "login e h jti dto ip d a = (Inr (authenticated c who where_at, d'), a')"
  obtains u x dev where "findStaffByPin e d (pl_tenantId dto) (pl_pin dto) = Some u" "x \<in> set (listOutlets d (su_tenantId u) (su_outletIds u))"
    "login_finalize e jti u x dev d = (authenticated c who where_at, d')"
    "\<forall>v. Option.bind (pl_deviceId dto) (findDevice d (pl_tenantId dto)) = Some v \<longrightarrow> device_active v"
    "\<forall>k. dev = Some k \<longrightarrow> (\<exists>v \<in> set (devices d). dv_id v = k \<and> dv_tenantId v = pl_tenantId dto \<and> device_active v)"
proof -
  let ?device = "Option.bind (pl_deviceId dto) (findDevice d (pl_tenantId dto))"
  define active where "active = (case ?device of None \<Rightarrow> None | Some v \<Rightarrow> if device_active v then Some v else None)"
  obtain u where u: "findStaffByPin e d (pl_tenantId dto) (pl_pin dto) = Some u" and l: "login_outlet e jti u active d = Inr (authenticated c who where_at, d')"
    and nd: "\<not> (?device \<noteq> None \<and> active = None)"
    using assms unfolding login_def Let_def active_def [symmetric] by (auto split: prod.splits sum.splits if_splits option.splits)
  have act: "\<forall>v. ?device = Some v \<longrightarrow> device_active v" using nd by (auto simp: active_def split: if_splits)
  have dev: "\<exists>v \<in> set (devices d). dv_id v = k \<and> dv_tenantId v = pl_tenantId dto \<and> device_active v" if "map_option dv_id active = Some k" for k
  proof -
    from that obtain v where k: "active = Some v" "dv_id v = k" by (cases active) auto
    then have v: "?device = Some v" "device_active v" by (cases ?device; simp add: active_def split: if_splits)+
    then obtain i where "findDevice d (pl_tenantId dto) i = Some v" by (cases "pl_deviceId dto") auto
    then have "v \<in> set (devices d) \<and> dv_tenantId v = pl_tenantId dto" by (auto simp: findDevice_def find_Some_iff)
    with v k show ?thesis by blast
  qed
  let ?outs = "listOutlets d (su_tenantId u) (su_outletIds u)"
  show thesis
  proof (cases "Option.bind active dv_outletId")
    case (Some k)
    with l obtain x where "find (\<lambda>x. ou_id x = k) ?outs = Some x" "login_finalize e jti u x (map_option dv_id active) d = (authenticated c who where_at, d')"
      by (auto simp: login_outlet_def Let_def split: option.splits)
    then show thesis using u act dev by (intro that [of u x "map_option dv_id active"]) (auto simp: find_Some_iff)
  next
    case None
    with l obtain x where "?outs = [x]" "login_finalize e jti u x None d = (authenticated c who where_at, d')"
      by (auto simp: login_outlet_def Let_def split: list.splits)
    then show thesis using u act by (intro that [of u x None]) auto
  qed
qed

text \<open>C29: Signing in is sound, and what it gives out works. A session is only given for the PIN of an active staff member of the
  tenant, at a live outlet of the tenant where that person may work, on no device that was removed; and the guard lets its
  holder through to any handler open to all staff that stays within that outlet.\<close>

theorem login_opens_session:
  assumes "login e h jti dto ip d a = (Inr (authenticated c who where_at, d'), a')"
    and "distinct (map su_id (staffUsers d))" and "find_row rv_jti jti (revokedTokens d) = None"
    and "\<not> isTenantBlocked d (pl_tenantId dto)" and "chk (pl_tenantId dto) = Inr ()"
    and "rq_claims rq = Some c" and "rq_policy rq = Some any_staff" and "set (outletsReached d' rq) \<subseteq> {tok_outletId c}"
  shows "(\<exists>u \<in> set (staffUsers d). su_id u = tok_id c \<and> su_tenantId u = pl_tenantId dto \<and> su_pinRevokedAt u = None \<and>
       (\<exists>hash. su_pinHash u = Some hash \<and> argon2_verify e hash (pl_pin dto)) \<and>
       (\<exists>x \<in> set (outlets d). ou_id x = tok_outletId c \<and> ou_tenantId x = pl_tenantId dto \<and> ou_deletedAt x = None \<and>
          (su_outletIds u \<noteq> [] \<longrightarrow> ou_id x \<in> set (su_outletIds u))) \<and>
       (\<forall>v. Option.bind (pl_deviceId dto) (findDevice d (pl_tenantId dto)) = Some v \<longrightarrow> device_active v) \<and>
       canActivate chk rq d' = Inr \<lparr>pp_id = su_id u, pp_name = su_name u, pp_role = staff_role_name d u, pp_tenantId = su_tenantId u,
         pp_outletId = tok_outletId c\<rparr>)"
proof -
  let ?t = "pl_tenantId dto"
  obtain u x dev where u: "findStaffByPin e d ?t (pl_pin dto) = Some u" and x: "x \<in> set (listOutlets d (su_tenantId u) (su_outletIds u))"
    and fin: "login_finalize e jti u x dev d = (authenticated c who where_at, d')"
    and act: "\<forall>v. Option.bind (pl_deviceId dto) (findDevice d ?t) = Some v \<longrightarrow> device_active v"
    and dev: "\<forall>k. dev = Some k \<longrightarrow> (\<exists>v \<in> set (devices d). dv_id v = k \<and> dv_tenantId v = ?t \<and> device_active v)"
    using assms(1) by (rule login_authenticated)
  note us = findStaffByPin_sound [OF u]
  have c: "c = \<lparr>tok_id = su_id u, tok_tenantId = ?t, tok_outletId = ou_id x, tok_name = su_name u, tok_sessionVersion = su_sessionVersion u,
      tok_token = Some (jti, now e div 1000 + POS_SESSION_TTL_SECONDS), tok_deviceId = dev\<rparr>"
    and d': "d' = recordClockInIfNeeded e (su_tenantId u) (su_id u) (ou_id x) (ou_timezone x) d"
    using fin us by (auto simp: login_finalize_def)
  have row: "find_row su_id (su_id u) (staffUsers d) = Some u" using find_row_distinct [OF assms(2)] us by blast
  have x': "x \<in> set (outlets d)" "ou_tenantId x = ?t" "ou_deletedAt x = None" "su_outletIds u \<noteq> [] \<longrightarrow> ou_id x \<in> set (su_outletIds u)"
    using x us by (auto simp: listOutlets_def)
  have "\<not> isTenantBlocked d' ?t" using assms(4) by (simp add: isTenantBlocked_def d')
  moreover have "\<not> token_revoked d' c" using assms(3) by (simp add: token_revoked_def c d')
  moreover have "till_still_active d' c"
  proof (cases dev)
    case (Some k)
    then show ?thesis using dev Some by (auto simp: till_still_active_def c d' count_rows_def filter_empty_conv)
  qed (simp add: till_still_active_def c)
  moreover have "\<not> (su_outletIds u \<noteq> [] \<and> list_ex (\<lambda>k. k \<notin> set (su_outletIds u)) (outletsReached d' rq))"
    using assms(8) x'(4) by (auto simp: list_ex_iff c)
  moreover have "staff_role_name d' u = staff_role_name d u" by (simp add: staff_role_name_def d')
  ultimately have "canActivate chk rq d' = Inr \<lparr>pp_id = su_id u, pp_name = su_name u, pp_role = staff_role_name d u, pp_tenantId = su_tenantId u,
      pp_outletId = tok_outletId c\<rparr>"
    using assms(5,6,7) row us by (simp add: canActivate_def Let_def c d')
  with us x' act show ?thesis by (intro bexI [of _ u]) (auto simp: c)
qed

text \<open>
  The clock starts once a day: signing in again at the same moment of the same day adds nothing, wherever it is. Hence a
  second sign-in at another outlet leaves no event there, and that outlet's attendance does not show it.
\<close>

lemma latest_by_last: "\<forall>r \<in> set rs. f r \<le> f x \<Longrightarrow> latest_by f (rs @ [x]) = Some x"
  by (induction rs) auto

lemma clock_in_once:
  assumes "latest_by ce_occurredAt (filter (\<lambda>x. ce_staffId x = k) (clockEvents d)) = Some x" and "ce_type x = clock_in"
    and "localDateKey e (ce_occurredAt x) tz = localDateKey e (now e) tz"
  shows "recordClockInIfNeeded e t k out tz d = d"
  using assms by (simp add: recordClockInIfNeeded_def)

lemma recordClockIn_idempotent:
  assumes "\<forall>x \<in> set (clockEvents d). ce_occurredAt x \<le> now e"
  shows "recordClockInIfNeeded e t k out' tz (recordClockInIfNeeded e t k out tz d) = recordClockInIfNeeded e t k out tz d"
proof (cases "recordClockInIfNeeded e t k out tz d = d")
  case False
  then obtain x where x: "clockEvents (recordClockInIfNeeded e t k out tz d) = clockEvents d @ [x]" "ce_staffId x = k" "ce_type x = clock_in"
    "ce_occurredAt x = now e"
    by (auto simp: recordClockInIfNeeded_def take_id_def Let_def split: option.splits if_splits)
  have "latest_by ce_occurredAt (filter (\<lambda>x. ce_staffId x = k) (clockEvents d) @ [x]) = Some x"
    by (rule latest_by_last) (use assms x(4) in auto)
  then show ?thesis by (intro clock_in_once [where x = x]) (simp_all add: x)
next
  case True
  show ?thesis
  proof (cases "latest_by ce_occurredAt (filter (\<lambda>x. ce_staffId x = k) (clockEvents d))")
    case None
    with True show ?thesis by (auto simp: recordClockInIfNeeded_def take_id_def Let_def dest: arg_cong [where f = nextId])
  next
    case (Some x)
    have "ce_type x = clock_in \<and> localDateKey e (ce_occurredAt x) tz = localDateKey e (now e) tz"
      using True Some by (auto simp: recordClockInIfNeeded_def take_id_def Let_def split: if_splits dest: arg_cong [where f = nextId])
    with Some True show ?thesis by (simp add: clock_in_once)
  qed
qed

lemma attendance_each_once: "distinct (map ce_staffId (attendance_loop counts seen xs)) \<and> ce_staffId ` set (attendance_loop counts seen xs) \<inter> set seen = {}"
  by (induction counts seen xs rule: attendance_loop.induct) auto

text \<open>
  A gap: choosing the outlet needs only the hand-off token of the first step, which knows nothing of the PIN. A choice started
  with a PIN that has been replaced in the meantime still ends in a session of the new version.
\<close>

lemma pending_survives_reissue:
  assumes "issuePin e h rnd owner k s = Inr (pin, s1)" and "find_row su_id k (staffUsers (sd_db s)) = Some u" and "su_tenantId u = t"
    and "su_outletIds u = []" and "find_row ou_id out (outlets (sd_db s)) = Some x" and "ou_tenantId x = t" and "ou_deletedAt x = None"
  shows "\<exists>c who where_at d'. selectOutlet te jti (Some (k, t)) out (sd_db s1) = Inr (authenticated c who where_at, d') \<and>
    tok_sessionVersion c = su_sessionVersion u + 1"
  using assms find_row_Some [OF assms(2)]
  by (auto simp: issuePin_def r_bind_eq_Inr Let_def selectOutlet_def set_staff_def find_row_update login_finalize_def)

section \<open>Instances\<close>

definition s_till_session :: pos_claims where
  "s_till_session = \<lparr>tok_id = 21, tok_tenantId = 1, tok_outletId = 2, tok_name = ''Asha'', tok_sessionVersion = 0,
     tok_token = Some (''j'', 1043200), tok_deviceId = None\<rparr>"

definition s_request :: pos_request where
  "s_request = \<lparr>rq_claims = Some s_till_session, rq_paramOutletId = Some 2, rq_queryOutletId = None, rq_bodyOutletId = None,
     rq_route = ''/pos/v1/outlets/:outletId'', rq_id = None, rq_orderId = None, rq_ticketId = None, rq_policy = Some any_staff\<rparr>"

lemmas access_eval = canActivate_def isTenantBlocked_def token_revoked_def till_still_active_def staff_role_name_def outletsReached_def
  find_row_def s_till_session_def s_request_def Let_def

lemma guard_admits: "canActivate (\<lambda>_. Inr ()) s_request s_db = Inr s_cashier"
  by (simp add: access_eval List.map_filter_def sample_defs)

lemma revoke_sample: "\<exists>v s'. revokePin s_setup_env s_owner 21 ''Left'' s_console = Inr (v, s')"
  by (simp add: revokePin_def findOwnedStaff_def find_row_def s_console_def s_owner_def Let_def sample_defs)

theorem ended_session_stays_ended_witness:
  "canActivate (\<lambda>_. Inr ()) s_request (sd_db s_console) = Inr s_cashier \<and>
   (\<exists>v s' err. revokePin s_setup_env s_owner 21 ''Left'' s_console = Inr (v, s') \<and> canActivate (\<lambda>_. Inr ()) s_request (sd_db s') = Inl err)"
proof -
  have db: "staffUsers (sd_db s_console) = s_staff" "sd_db s_console = s_db" by (simp_all add: s_console_def s_db_def)
  obtain v s' where r: "revokePin s_setup_env s_owner 21 ''Left'' s_console = Inr (v, s')" using revoke_sample by blast
  then have ends: "sessions_end s_till_session s_console s'" by (intro en_revoke) (simp add: s_till_session_def)
  obtain u where u: "find_row su_id (tok_id s_till_session) (staffUsers (sd_db s_console)) = Some u" "tok_sessionVersion s_till_session \<le> su_sessionVersion u"
    by (simp add: s_console_def s_db_def find_row_def s_till_session_def s_staff_def)
  have "rq_claims s_request = Some s_till_session" by (simp add: s_request_def)
  from ended_session_stays_ended [OF ends u rtranclp.rtrancl_refl this, of "\<lambda>_. Inr ()"] r guard_admits show ?thesis by (auto simp: db)
qed

definition s_login :: pos_login_dto where
  "s_login = \<lparr>pl_tenantId = 1, pl_pin = ''1111'', pl_deviceId = None, pl_deviceSecret = None\<rparr>"

lemma login_sample:
  "\<exists>d' a'. login s_env (\<lambda>t. t) ''j'' s_login ''10.0.0.1'' s_db (\<lambda>_. None) = (Inr (authenticated s_till_session (21, ''Asha'') (2, ''Fort''), d'), a')"
  by (simp add: login_def throttleRules_def IP_RULE_def UNTRUSTED_TENANT_RULE_def count_attempt_def findStaffByPin_def pinStatus_def login_outlet_def
      listOutlets_def login_finalize_def staff_summary_def outlet_summary_def POS_SESSION_TTL_SECONDS_def s_login_def s_till_session_def Let_def sample_defs)

theorem login_opens_session_witness:
  "\<exists>d' a'. login s_env (\<lambda>t. t) ''j'' s_login ''10.0.0.1'' s_db (\<lambda>_. None) = (Inr (authenticated s_till_session (21, ''Asha'') (2, ''Fort''), d'), a') \<and>
     (\<exists>p. canActivate (\<lambda>_. Inr ()) s_request d' = Inr p)"
proof -
  obtain d' a' where r: "login s_env (\<lambda>t. t) ''j'' s_login ''10.0.0.1'' s_db (\<lambda>_. None) = (Inr (authenticated s_till_session (21, ''Asha'') (2, ''Fort''), d'), a')"
    using login_sample by blast
  have "distinct (map su_id (staffUsers s_db))" "find_row rv_jti ''j'' (revokedTokens s_db) = None" "\<not> isTenantBlocked s_db (pl_tenantId s_login)"
    "rq_claims s_request = Some s_till_session" "rq_policy s_request = Some any_staff" "set (outletsReached d' s_request) \<subseteq> {tok_outletId s_till_session}"
    by (simp_all add: find_row_def isTenantBlocked_def outletsReached_def List.map_filter_def s_login_def s_request_def s_till_session_def sample_defs)
  from login_opens_session [OF r this(1,2,3) refl this(4,5,6)] r show ?thesis by blast
qed

end
