(* ===== verification/Fleet.thy ===== *)
theory Fleet
  imports TillAccess Payments
begin

text \<open>
  The device fleet: one-time enrolment codes, the enrolment itself from the console and from the device's own page, the hub of
  an outlet, linking a printer or card terminal to one till, revocation and heartbeats. The sources are
  \<^verbatim>\<open>src/src/ops/devices/devices.service.ts\<close>, its wrappers \<^verbatim>\<open>src/src/admin/devices/devices.service.ts\<close>,
  \<^verbatim>\<open>src/src/pos/devices/devices.service.ts\<close> and \<^verbatim>\<open>src/src/device/enroll\<close>. The random bytes and the \<open>sha256\<close> of
  \<open>node:crypto\<close> are arguments. Two devices that redeem one code at the same time both read it unused: the second half of an
  enrolment is a step of its own, run on whatever row the first half saw.
\<close>

section \<open>Codes and labels\<close>

definition CODE_TTL_MS :: int where
  "CODE_TTL_MS = 15 * 60 * 1000"

definition CODE_ALPHABET :: string where
  "CODE_ALPHABET = ''ABCDEFGHJKLMNPQRSTUVWXYZ23456789''"

definition generateRawCode :: "nat list \<Rightarrow> string" where
  "generateRawCode bytes =
    (let chars = map (\<lambda>b. CODE_ALPHABET ! (b mod length CODE_ALPHABET)) bytes in take 3 chars @ ''-'' @ take 3 (drop 3 chars))"

text \<open>\<open>toUpperCase\<close> on the characters of a byte: the sharp s is the one that becomes two letters of the code's range.\<close>

definition to_upper_text :: "string \<Rightarrow> string" where
  "to_upper_text s = concat (map (\<lambda>c. if of_char c = (223 :: nat) then ''SS''
     else if 97 \<le> (of_char c :: nat) \<and> of_char c \<le> (122 :: nat) then [char_of (of_char c - (32 :: nat))] else [c]) s)"

definition code_char :: "char \<Rightarrow> bool" where
  "code_char c \<longleftrightarrow> (65 \<le> (of_char c :: nat) \<and> of_char c \<le> (90 :: nat)) \<or> (48 \<le> (of_char c :: nat) \<and> of_char c \<le> (57 :: nat))"

definition normalizeCode :: "string \<Rightarrow> string" where
  "normalizeCode input = filter code_char (to_upper_text (str_trim input))"

definition hashCode :: "(string \<Rightarrow> string) \<Rightarrow> string \<Rightarrow> string" where
  "hashCode sha256 normalized = sha256 normalized"

definition DEVICE_TYPE_NAMES :: "device_type \<Rightarrow> string" where
  "DEVICE_TYPE_NAMES t = (case t of d_pos \<Rightarrow> ''Till'' | d_kds \<Rightarrow> ''Kitchen screen'' | d_kiosk \<Rightarrow> ''Kiosk'' | d_cds \<Rightarrow> ''Customer display''
     | d_printer \<Rightarrow> ''Printer'' | d_terminal \<Rightarrow> ''Card terminal'')"

definition defaultLabel :: "device_type \<Rightarrow> nat \<Rightarrow> string" where
  "defaultLabel type sameTypeCount = DEVICE_TYPE_NAMES type @ '' '' @ show_int (int sameTypeCount + 1)"

section \<open>Requests and views\<close>

record ops_principal =
  op_id :: uuid
  op_email :: string

record generate_code_dto =
  gc_tenantId :: uuid
  gc_outletId :: uuid
  gc_deviceType :: device_type
  gc_reason :: "string option"

record enroll_device_dto =
  ed_code :: string
  ed_hardwareKeyFingerprint :: string
  ed_label :: "string option"
  ed_reason :: "string option"

record enroll_actor =
  ea_actorId :: "uuid option"
  ea_actorEmail :: string
  ea_reason :: "string option"

record heartbeat_dto =
  hb_outboxDepth :: int
  hb_appVersion :: string
  hb_clockSkewSeconds :: int
  hb_recentRejectionCount :: int

record device_view =
  vd_id :: uuid
  vd_tenantId :: uuid
  vd_outletId :: "uuid option"
  vd_label :: string
  vd_type :: device_type
  vd_role :: device_role
  vd_status :: device_status
  vd_enrolledAt :: date
  vd_revokedAt :: "date option"
  vd_pairedPosId :: "uuid option"

record device_list_item =
  vl_device :: device_view
  vl_tenantName :: string
  vl_outletName :: "string option"
  vl_lastContactAt :: "date option"
  vl_appVersion :: "string option"

record enroll_result =
  er_device :: device_view
  er_tenantName :: "string option"
  er_outletName :: "string option"
  er_deviceSecret :: string

definition toDeviceView :: "device \<Rightarrow> device_view" where
  "toDeviceView v = \<lparr>vd_id = dv_id v, vd_tenantId = dv_tenantId v, vd_outletId = dv_outletId v, vd_label = dv_label v, vd_type = dv_type v,
     vd_role = dv_role v, vd_status = dv_status v, vd_enrolledAt = dv_enrolledAt v, vd_revokedAt = dv_revokedAt v,
     vd_pairedPosId = dv_pairedPosId v\<rparr>"

section \<open>Listing the fleet\<close>

text \<open>
  Query parameters: the outer option is their presence, the inner one \<open>None\<close> when the text is no identifier, choice or number.
  A cursor is the text \<open>encodeCursor\<close> made, something that does not decode, or one whose date or identifier the database refuses.
\<close>

definition parseChoice :: "'a option option \<Rightarrow> 'a option result" where
  "parseChoice value = (case value of None \<Rightarrow> Inr None | Some None \<Rightarrow> Inl (BadRequest ''validation_failed'') | Some (Some x) \<Rightarrow> Inr (Some x))"

datatype device_cursor = bad_cursor | refused_cursor | device_cursor date uuid

record device_query =
  dq_tenantId :: "uuid option option"
  dq_outletId :: "uuid option option"
  dq_type :: "device_type option option"
  dq_status :: "device_status option option"
  dq_limit :: "rat option option"
  dq_cursor :: "device_cursor option"

record device_list_result =
  dl_devices :: "device_list_item list"
  dl_nextCursor :: "(date \<times> uuid) option"
  dl_total :: nat

definition LIMIT_DEFAULT :: nat where
  "LIMIT_DEFAULT = 25"

definition LIMIT_MAX :: int where
  "LIMIT_MAX = 100"

definition parseLimit :: "rat option option \<Rightarrow> nat result" where
  "parseLimit raw = (case raw of
     None \<Rightarrow> Inr LIMIT_DEFAULT
   | Some None \<Rightarrow> Inl (BadRequest ''validation_failed'')
   | Some (Some v) \<Rightarrow> if of_int \<lfloor>v\<rfloor> \<noteq> v \<or> v < 1 \<or> of_int LIMIT_MAX < v then Inl (BadRequest ''validation_failed'') else Inr (nat \<lfloor>v\<rfloor>))"

definition decodeCursor :: "device_cursor option \<Rightarrow> (date \<times> uuid) option result" where
  "decodeCursor raw = (case raw of None \<Rightarrow> Inr None | Some bad_cursor \<Rightarrow> Inl (BadRequest ''validation_failed'')
     | Some refused_cursor \<Rightarrow> Inl (InternalError ''validation'') | Some (device_cursor t k) \<Rightarrow> Inr (Some (t, k)))"

definition toListItem :: "db \<Rightarrow> device \<Rightarrow> device_list_item" where
  "toListItem d v = \<lparr>vl_device = toDeviceView v, vl_tenantName = nullish (map_option tn_name (find_row tn_id (dv_tenantId v) (tenants d))) [],
     vl_outletName = Option.bind (dv_outletId v) (\<lambda>k. map_option ou_name (find_row ou_id k (outlets d))),
     vl_lastContactAt = dv_lastContactAt v, vl_appVersion = dv_appVersion v\<rparr>"

definition matches :: "'a option \<Rightarrow> 'a \<Rightarrow> bool" where
  "matches wanted x = (case wanted of None \<Rightarrow> True | Some w \<Rightarrow> x = w)"

definition listDevices :: "device_query \<Rightarrow> db \<Rightarrow> device_list_result result" where
  "listDevices query d =
    r_bind (parseChoice (dq_tenantId query)) (\<lambda>tenantId.
    r_bind (parseChoice (dq_outletId query)) (\<lambda>outletId.
    r_bind (parseChoice (dq_type query)) (\<lambda>type.
    r_bind (parseChoice (dq_status query)) (\<lambda>status.
    r_bind (parseLimit (dq_limit query)) (\<lambda>limit.
    r_bind (decodeCursor (dq_cursor query)) (\<lambda>cursor.
      let wh = (\<lambda>v. matches tenantId (dv_tenantId v) \<and> matches (map_option Some outletId) (dv_outletId v) \<and> matches type (dv_type v) \<and>
             matches status (dv_status v));
          before = (\<lambda>v. case cursor of None \<Rightarrow> True | Some (t, k) \<Rightarrow> dv_enrolledAt v < t \<or> (dv_enrolledAt v = t \<and> dv_id v < k));
          rows = take (limit + 1) (rev (sort_key dv_enrolledAt (sort_key dv_id (filter (\<lambda>v. wh v \<and> before v) (devices d)))));
          page = take limit rows;
          nextCursor = (if length rows > limit \<and> page \<noteq> [] then Some (dv_enrolledAt (last page), dv_id (last page)) else None)
      in Inr \<lparr>dl_devices = map (toListItem d) page, dl_nextCursor = nextCursor, dl_total = count_rows wh (devices d)\<rparr>))))))"

section \<open>Enrolment\<close>

definition fleet_audit :: "env \<Rightarrow> uuid \<Rightarrow> uuid option \<Rightarrow> string \<Rightarrow> string \<Rightarrow> string \<Rightarrow> console_db \<Rightarrow> console_db" where
  "fleet_audit e tenantId actorId actorEmail action reason s =
     s\<lparr>sd_db := (sd_db s)\<lparr>auditEvents := auditEvents (sd_db s) @
       [\<lparr>ae_tenantId = tenantId, ae_actorId = actorId, ae_actorEmail = actorEmail, ae_approverId = None, ae_approverName = None,
         ae_action = action, ae_reason = reason, ae_occurredAt = now e\<rparr>]\<rparr>\<rparr>"

definition set_device :: "uuid \<Rightarrow> (device \<Rightarrow> device) \<Rightarrow> console_db \<Rightarrow> console_db" where
  "set_device k f s = s\<lparr>sd_db := (sd_db s)\<lparr>devices := update_rows (\<lambda>v. dv_id v = k) f (devices (sd_db s))\<rparr>\<rparr>"

definition generateCode ::
  "env \<Rightarrow> (string \<Rightarrow> string) \<Rightarrow> nat list \<Rightarrow> ops_principal \<Rightarrow> generate_code_dto \<Rightarrow> console_db \<Rightarrow> ((string \<times> device_type \<times> date) \<times> console_db) result" where
  "generateCode e sha256 bytes operator dto s =
    (let reason = nullish (gc_reason dto) ''Enrolment code generated for device provisioning'' in
     if find (\<lambda>t. tn_id t = gc_tenantId dto \<and> tn_deletedAt t = None) (tenants (sd_db s)) = None then Inl (NotFound ''not_found'')
     else if find (\<lambda>x. ou_id x = gc_outletId dto \<and> ou_tenantId x = gc_tenantId dto \<and> ou_deletedAt x = None) (outlets (sd_db s)) = None
     then Inl (NotFound ''not_found'')
     else let rawCode = generateRawCode bytes;
              expiresAt = now e + CODE_TTL_MS;
              h = hashCode sha256 (normalizeCode rawCode);
              (i, s1) = fresh s;
              s2 = s1\<lparr>sd_db := (sd_db s1)\<lparr>enrolmentCodes := enrolmentCodes (sd_db s1) @
                [\<lparr>ec_id = i, ec_tenantId = gc_tenantId dto, ec_outletId = gc_outletId dto, ec_codeHash = h, ec_deviceType = gc_deviceType dto,
                  ec_expiresAt = expiresAt, ec_usedAt = None\<rparr>]\<rparr>\<rparr>
          in if find_row ec_codeHash h (enrolmentCodes (sd_db s)) \<noteq> None then Inl (InternalError ''P2002'')
             else Inr ((rawCode, gc_deviceType dto, expiresAt),
               fleet_audit e (gc_tenantId dto) (Some (op_id operator)) (op_email operator) ''device.enrolment_code_generated'' reason s2))"

text \<open>The half of an enrolment after its checks: \<open>code\<close> is the row those checks read.\<close>

definition consume_code :: "env \<Rightarrow> uuid \<Rightarrow> console_db \<Rightarrow> nat \<times> console_db" where
  "consume_code e k s =
    (let p = (\<lambda>c. ec_id c = k \<and> ec_usedAt c = None) in
     (count_rows p (enrolmentCodes (sd_db s)),
      s\<lparr>sd_db := (sd_db s)\<lparr>enrolmentCodes := update_rows p (\<lambda>c. c\<lparr>ec_usedAt := Some (now e)\<rparr>) (enrolmentCodes (sd_db s))\<rparr>\<rparr>))"

definition enrolled_device :: "env \<Rightarrow> (string \<Rightarrow> string) \<Rightarrow> string \<Rightarrow> enroll_device_dto \<Rightarrow> enrolment_code \<Rightarrow> uuid \<Rightarrow> nat \<Rightarrow> device" where
  "enrolled_device e sha256 deviceSecret dto code i sameType =
     \<lparr>dv_id = i, dv_tenantId = ec_tenantId code, dv_outletId = Some (ec_outletId code),
      dv_label = (let given = str_trim (nullish (ed_label dto) []) in if given = [] then defaultLabel (ec_deviceType code) sameType else given),
      dv_type = ec_deviceType code, dv_role = dr_terminal, dv_status = d_active, dv_hardwareKeyFingerprint = ed_hardwareKeyFingerprint dto,
      dv_secretHash = Some (sha256 deviceSecret), dv_enrolledAt = now e, dv_revokedAt = None, dv_pairedPosId = None, dv_lastContactAt = None,
      dv_outboxDepth = None, dv_appVersion = None, dv_clockSkewSeconds = None, dv_recentRejectionCount = None\<rparr>"

text \<open>The checklist of the tenant: its first device completes a step.\<close>

definition complete_devices_step :: "env \<Rightarrow> uuid \<Rightarrow> bool \<Rightarrow> console_db \<Rightarrow> console_db" where
  "complete_devices_step e tenantId isFirst s =
    (if isFirst then snd (upsert_progress tenantId (\<lambda>r. r\<lparr>cp_completedAt := (cp_completedAt r)(ck_devices := Some (now e))\<rparr>) s) else s)"

definition enroll_record ::
  "env \<Rightarrow> (string \<Rightarrow> string) \<Rightarrow> string \<Rightarrow> enroll_actor \<Rightarrow> enroll_device_dto \<Rightarrow> enrolment_code \<Rightarrow> console_db \<Rightarrow> (enroll_result \<times> console_db) result" where
  "enroll_record e sha256 rnd actor dto code s =
    (let reason = nullish (ea_reason actor) ''Device enrolled via one-time enrolment code'';
         (consumed, s1) = consume_code e (ec_id code) s
     in if consumed = 0 then Inl (Conflict ''code_already_used'')
        else let isFirst = (count_rows (\<lambda>v. dv_tenantId v = ec_tenantId code) (devices (sd_db s1)) = 0);
                 (i, s2) = fresh s1;
                 deviceSecret = ''dvs_'' @ rnd;
                 sameType = count_rows (\<lambda>v. dv_tenantId v = ec_tenantId code \<and> dv_outletId v = Some (ec_outletId code) \<and>
                    dv_type v = ec_deviceType code) (devices (sd_db s2));
                 device = enrolled_device e sha256 deviceSecret dto code i sameType;
                 s3 = s2\<lparr>sd_db := (sd_db s2)\<lparr>devices := devices (sd_db s2) @ [device]\<rparr>\<rparr>;
                 s4 = fleet_audit e (ec_tenantId code) (ea_actorId actor) (ea_actorEmail actor) ''device.enrolled'' reason s3;
                 s5 = complete_devices_step e (ec_tenantId code) isFirst s4
             in Inr (\<lparr>er_device = toDeviceView device, er_tenantName = map_option tn_name (find_row tn_id (ec_tenantId code) (tenants (sd_db s5))),
                      er_outletName = map_option ou_name (find_row ou_id (ec_outletId code) (outlets (sd_db s5))),
                      er_deviceSecret = deviceSecret\<rparr>, s5))"

definition readCode :: "env \<Rightarrow> (string \<Rightarrow> string) \<Rightarrow> string \<Rightarrow> db \<Rightarrow> enrolment_code result" where
  "readCode e sha256 code d =
    (case find_row ec_codeHash (hashCode sha256 (normalizeCode code)) (enrolmentCodes d) of
       None \<Rightarrow> Inl (BadRequest ''code_invalid'')
     | Some c \<Rightarrow> if ec_usedAt c \<noteq> None then Inl (Conflict ''code_already_used'')
         else if ec_expiresAt c \<le> now e then Inl (BadRequest ''code_expired'') else Inr c)"

definition enrollWithActor ::
  "env \<Rightarrow> (string \<Rightarrow> string) \<Rightarrow> string \<Rightarrow> enroll_actor \<Rightarrow> enroll_device_dto \<Rightarrow> console_db \<Rightarrow> (enroll_result \<times> console_db) result" where
  "enrollWithActor e sha256 rnd actor dto s =
     r_bind (readCode e sha256 (ed_code dto) (sd_db s)) (\<lambda>code. enroll_record e sha256 rnd actor dto code s)"

definition enroll ::
  "env \<Rightarrow> (string \<Rightarrow> string) \<Rightarrow> string \<Rightarrow> ops_principal \<Rightarrow> enroll_device_dto \<Rightarrow> console_db \<Rightarrow> (enroll_result \<times> console_db) result" where
  "enroll e sha256 rnd operator dto s =
     enrollWithActor e sha256 rnd \<lparr>ea_actorId = Some (op_id operator), ea_actorEmail = op_email operator, ea_reason = ed_reason dto\<rparr> dto s"

text \<open>The device's own page: a limit per address in front, which answers 429 when it says no, and no operator.\<close>

definition ENROLL_RULE :: "string \<Rightarrow> attempt_rule" where
  "ENROLL_RULE ip = \<lparr>ar_key = DeviceEnrollIpKey ip, ar_max = 10, ar_windowSeconds = 5 * 60\<rparr>"

definition enrollRateLimit :: "env \<Rightarrow> string \<Rightarrow> attempts \<Rightarrow> bool \<times> attempts" where
  "enrollRateLimit e ip a = (case consume (now e) [ENROLL_RULE ip] a of (r, a1) \<Rightarrow> (r = Inr (), a1))"

definition deviceEnroll ::
  "env \<Rightarrow> (string \<Rightarrow> string) \<Rightarrow> string \<Rightarrow> enroll_device_dto \<Rightarrow> console_db \<Rightarrow> (enroll_result \<times> console_db) result" where
  "deviceEnroll e sha256 rnd dto s =
     enrollWithActor e sha256 rnd \<lparr>ea_actorId = None, ea_actorEmail = ''device:'' @ take 12 (ed_hardwareKeyFingerprint dto), ea_reason = None\<rparr> dto s"

section \<open>Hub, revocation, heartbeat\<close>

definition displace_hub :: "device option \<Rightarrow> console_db \<Rightarrow> console_db" where
  "displace_hub priorHub s = (case priorHub of None \<Rightarrow> s | Some v \<Rightarrow> set_device (dv_id v) (\<lambda>v. v\<lparr>dv_role := dr_terminal\<rparr>) s)"

definition make_hub :: "device \<Rightarrow> console_db \<Rightarrow> device \<times> console_db" where
  "make_hub device s = (if dv_role device = dr_hub then (device, s)
     else (device\<lparr>dv_role := dr_hub\<rparr>, set_device (dv_id device) (\<lambda>v. v\<lparr>dv_role := dr_hub\<rparr>) s))"

definition designateHub ::
  "env \<Rightarrow> ops_principal \<Rightarrow> uuid \<Rightarrow> string \<Rightarrow> console_db \<Rightarrow> ((device_view \<times> uuid option) \<times> console_db) result" where
  "designateHub e operator deviceId reason s =
    (case find_row dv_id deviceId (devices (sd_db s)) of
       None \<Rightarrow> Inl (NotFound ''not_found'')
     | Some device \<Rightarrow>
         if dv_status device \<noteq> d_active then Inl (Conflict ''conflict'')
         else if dv_outletId device = None then Inl (BadRequest ''validation_failed'')
         else let priorHub = find (\<lambda>v. dv_outletId v = dv_outletId device \<and> dv_role v = dr_hub \<and> dv_status v = d_active \<and> dv_id v \<noteq> deviceId)
                    (devices (sd_db s));
                  (updated, s1) = make_hub device (displace_hub priorHub s)
              in Inr ((toDeviceView updated, map_option dv_id priorHub),
                   fleet_audit e (dv_tenantId device) (Some (op_id operator)) (op_email operator) ''device.hub_designated'' reason s1))"

definition revokeDevice :: "env \<Rightarrow> ops_principal \<Rightarrow> uuid \<Rightarrow> string \<Rightarrow> console_db \<Rightarrow> (device_view \<times> console_db) result" where
  "revokeDevice e operator deviceId reason s =
    (case find_row dv_id deviceId (devices (sd_db s)) of
       None \<Rightarrow> Inl (NotFound ''not_found'')
     | Some device \<Rightarrow>
         if dv_status device = d_revoked then Inl (Conflict ''conflict'')
         else let f = (\<lambda>v. v\<lparr>dv_status := d_revoked, dv_revokedAt := Some (now e)\<rparr>)
              in Inr (toDeviceView (f device),
                   fleet_audit e (dv_tenantId device) (Some (op_id operator)) (op_email operator) ''device.revoked'' reason (set_device deviceId f s)))"

definition heartbeat :: "env \<Rightarrow> uuid \<Rightarrow> heartbeat_dto \<Rightarrow> console_db \<Rightarrow> (device_view \<times> console_db) result" where
  "heartbeat e deviceId dto s =
    (case find_row dv_id deviceId (devices (sd_db s)) of
       None \<Rightarrow> Inl (NotFound ''not_found'')
     | Some device \<Rightarrow>
         if dv_status device = d_revoked then Inl (Conflict ''conflict'')
         else let f = (\<lambda>v. v\<lparr>dv_lastContactAt := Some (now e), dv_outboxDepth := Some (hb_outboxDepth dto), dv_appVersion := Some (hb_appVersion dto),
                    dv_clockSkewSeconds := Some (hb_clockSkewSeconds dto), dv_recentRejectionCount := Some (hb_recentRejectionCount dto)\<rparr>)
              in Inr (toDeviceView (f device), set_device deviceId f s))"

definition posHeartbeat :: "env \<Rightarrow> pos_principal \<Rightarrow> uuid \<Rightarrow> console_db \<Rightarrow> console_db result" where
  "posHeartbeat e staff deviceId s =
    (let p = (\<lambda>v. dv_id v = deviceId \<and> dv_tenantId v = pp_tenantId staff \<and> dv_outletId v = Some (pp_outletId staff) \<and> dv_status v = d_active) in
     if count_rows p (devices (sd_db s)) = 0 then Inl (NotFound ''not_found'')
     else Inr (s\<lparr>sd_db := (sd_db s)\<lparr>devices := update_rows p (\<lambda>v. v\<lparr>dv_lastContactAt := Some (now e)\<rparr>) (devices (sd_db s))\<rparr>\<rparr>))"

section \<open>The owner's side\<close>

definition adminAssertOutlet :: "db \<Rightarrow> uuid \<Rightarrow> uuid \<Rightarrow> unit result" where
  "adminAssertOutlet d tenantId outletId =
    (case find_row ou_id outletId (outlets d) of
       None \<Rightarrow> Inl (NotFound ''not_found'')
     | Some x \<Rightarrow> if ou_tenantId x \<noteq> tenantId then Inl (NotFound ''not_found'') else Inr ())"

definition adminListDevices :: "admin_principal \<Rightarrow> uuid \<Rightarrow> db \<Rightarrow> device_list_result result" where
  "adminListDevices owner outletId d =
     r_bind (adminAssertOutlet d (ad_tenantId owner) outletId) (\<lambda>_.
       listDevices \<lparr>dq_tenantId = Some (Some (ad_tenantId owner)), dq_outletId = Some (Some outletId), dq_type = None, dq_status = None,
         dq_limit = None, dq_cursor = None\<rparr> d)"

definition adminGenerateCode ::
  "env \<Rightarrow> (string \<Rightarrow> string) \<Rightarrow> nat list \<Rightarrow> admin_principal \<Rightarrow> uuid \<Rightarrow> device_type \<Rightarrow> string option \<Rightarrow> console_db \<Rightarrow>
   ((string \<times> device_type \<times> date) \<times> console_db) result" where
  "adminGenerateCode e sha256 bytes owner outletId type reason s =
     generateCode e sha256 bytes \<lparr>op_id = ad_id owner, op_email = ad_email owner\<rparr>
       \<lparr>gc_tenantId = ad_tenantId owner, gc_outletId = outletId, gc_deviceType = type, gc_reason = reason\<rparr> s"

text \<open>Work queued for a device goes back to the queue of the outlet.\<close>

definition release_work :: "uuid \<Rightarrow> uuid \<Rightarrow> console_db \<Rightarrow> console_db" where
  "release_work tenantId deviceId s =
     s\<lparr>sd_db := (sd_db s)\<lparr>
       printJobs := update_rows (\<lambda>j. pj_tenantId j = tenantId \<and> pj_targetDeviceId j = Some deviceId \<and> pj_printedAt j = None)
         (\<lambda>j. j\<lparr>pj_targetDeviceId := None\<rparr>) (printJobs (sd_db s)),
       intents := update_rows (\<lambda>i. pi_tenantId i = tenantId \<and> pi_targetDeviceId i = Some deviceId \<and> pi_status i \<in> {i_created, i_pending})
         (\<lambda>i. i\<lparr>pi_targetDeviceId := None\<rparr>) (intents (sd_db s))\<rparr>\<rparr>"

definition check_pairing :: "db \<Rightarrow> uuid \<Rightarrow> uuid \<Rightarrow> device \<Rightarrow> uuid option \<Rightarrow> unit result" where
  "check_pairing d tenantId outletId device posDeviceId = (case posDeviceId of
     None \<Rightarrow> Inr ()
   | Some pos \<Rightarrow>
       if find (\<lambda>v. dv_id v = pos \<and> dv_tenantId v = tenantId \<and> dv_outletId v = Some outletId \<and> dv_status v = d_active \<and> dv_type v = d_pos)
            (devices d) = None then Inl (NotFound ''not_found'')
       else if find (\<lambda>v. dv_tenantId v = tenantId \<and> dv_type v = dv_type device \<and> dv_status v = d_active \<and> dv_pairedPosId v = Some pos \<and>
            dv_id v \<noteq> dv_id device) (devices d) \<noteq> None then Inl (Conflict ''pos_already_linked'')
       else Inr ())"

definition setPairing ::
  "admin_principal \<Rightarrow> uuid \<Rightarrow> uuid \<Rightarrow> uuid option \<Rightarrow> console_db \<Rightarrow> ((uuid \<times> uuid option) \<times> console_db) result" where
  "setPairing owner outletId deviceId posDeviceId s =
    (case find (\<lambda>v. dv_id v = deviceId \<and> dv_tenantId v = ad_tenantId owner \<and> dv_outletId v = Some outletId \<and> dv_status v = d_active)
            (devices (sd_db s)) of
       None \<Rightarrow> Inl (NotFound ''not_found'')
     | Some device \<Rightarrow>
         if dv_type device \<noteq> d_printer \<and> dv_type device \<noteq> d_terminal then Inl (BadRequest ''validation_failed'')
         else r_bind (check_pairing (sd_db s) (ad_tenantId owner) outletId device posDeviceId) (\<lambda>_.
           Inr ((deviceId, posDeviceId),
             set_device deviceId (\<lambda>v. v\<lparr>dv_pairedPosId := posDeviceId\<rparr>) (release_work (ad_tenantId owner) deviceId s))))"

definition adminRevokeDevice ::
  "env \<Rightarrow> admin_principal \<Rightarrow> uuid \<Rightarrow> uuid \<Rightarrow> string \<Rightarrow> console_db \<Rightarrow> ((uuid \<times> date) \<times> console_db) result" where
  "adminRevokeDevice e owner outletId deviceId reason s =
    (case find (\<lambda>v. dv_id v = deviceId \<and> dv_tenantId v = ad_tenantId owner \<and> dv_outletId v = Some outletId) (devices (sd_db s)) of
       None \<Rightarrow> Inl (NotFound ''not_found'')
     | Some device \<Rightarrow>
         if dv_status device = d_revoked then Inl (Conflict ''conflict'')
         else let s1 = s\<lparr>sd_db := (sd_db s)\<lparr>devices := update_rows (\<lambda>v. dv_tenantId v = ad_tenantId owner \<and> dv_pairedPosId v = Some deviceId)
                    (\<lambda>v. v\<lparr>dv_pairedPosId := None\<rparr>) (devices (sd_db s))\<rparr>\<rparr>;
                  s2 = release_work (ad_tenantId owner) deviceId s1;
                  s3 = set_device deviceId (\<lambda>v. v\<lparr>dv_status := d_revoked, dv_revokedAt := Some (now e), dv_pairedPosId := None\<rparr>) s2
              in Inr ((deviceId, now e), fleet_audit e (ad_tenantId owner) (Some (ad_id owner)) (ad_email owner) ''device.revoked'' reason s3))"

section \<open>What holds whatever happens to the fleet\<close>

definition active_hub :: "device \<Rightarrow> bool" where
  "active_hub v \<longleftrightarrow> dv_role v = dr_hub \<and> dv_status v = d_active"

definition apart :: "(device \<Rightarrow> device \<Rightarrow> bool) \<Rightarrow> device list \<Rightarrow> bool" where
  "apart rival ds \<longleftrightarrow> (\<forall>v \<in> set ds. \<forall>w \<in> set ds. rival v w \<longrightarrow> dv_id v = dv_id w)"

definition hub_rivals :: "device \<Rightarrow> device \<Rightarrow> bool" where
  "hub_rivals v w \<longleftrightarrow> active_hub v \<and> active_hub w \<and> dv_outletId v = dv_outletId w"

definition link_rivals :: "device \<Rightarrow> device \<Rightarrow> bool" where
  "link_rivals v w \<longleftrightarrow> dv_status v = d_active \<and> dv_status w = d_active \<and> dv_type v = dv_type w \<and> dv_pairedPosId v \<noteq> None \<and>
     dv_pairedPosId w = dv_pairedPosId v"

text \<open>A linked device is a printer or card terminal, linked to a till of its own outlet.\<close>

definition same_outlet :: "device \<Rightarrow> device \<Rightarrow> bool" where
  "same_outlet v w \<longleftrightarrow> dv_tenantId w = dv_tenantId v \<and> dv_outletId w = dv_outletId v"

definition links_ok :: "device list \<Rightarrow> bool" where
  "links_ok ds \<longleftrightarrow> (\<forall>v \<in> set ds. \<forall>p. dv_pairedPosId v = Some p \<longrightarrow> dv_type v \<in> {d_printer, d_terminal} \<and>
     (\<exists>w \<in> set ds. dv_id w = p \<and> dv_type w = d_pos \<and> same_outlet v w))"

definition status_ok :: "device list \<Rightarrow> bool" where
  "status_ok ds \<longleftrightarrow> (\<forall>v \<in> set ds. dv_status v = d_active \<longleftrightarrow> dv_revokedAt v = None)"

definition fleet_ok :: "uuid \<Rightarrow> device list \<Rightarrow> bool" where
  "fleet_ok n ds \<longleftrightarrow> keys_ok n (map dv_id ds) \<and> apart hub_rivals ds \<and> apart link_rivals ds \<and> links_ok ds \<and> status_ok ds"

text \<open>The columns no handler changes after enrolment, and what a later state of a device may be.\<close>

definition same_device :: "device \<Rightarrow> device \<Rightarrow> bool" where
  "same_device v w \<longleftrightarrow> dv_id w = dv_id v \<and> dv_type w = dv_type v \<and> same_outlet v w \<and>
     dv_secretHash w = dv_secretHash v \<and> dv_enrolledAt w = dv_enrolledAt v \<and> dv_label w = dv_label v \<and>
     (dv_status w = d_active \<longrightarrow> dv_status v = d_active) \<and> (dv_revokedAt v \<noteq> None \<longrightarrow> dv_revokedAt w \<noteq> None)"

lemma same_device_refl [simp]: "same_device v v"
  by (simp add: same_device_def same_outlet_def)

lemma same_device_trans: "same_device u v \<Longrightarrow> same_device v w \<Longrightarrow> same_device u w"
  by (auto simp: same_device_def same_outlet_def)

lemma apart_map:
  assumes "apart P ds" and "\<And>v. v \<in> set ds \<Longrightarrow> dv_id (g v) = dv_id v"
    and "\<And>v w. v \<in> set ds \<Longrightarrow> w \<in> set ds \<Longrightarrow> Q (g v) (g w) \<Longrightarrow> P v w \<or> dv_id v = dv_id w"
  shows "apart Q (map g ds)"
  unfolding apart_def
proof (intro ballI impI)
  fix a b assume "a \<in> set (map g ds)" "b \<in> set (map g ds)" "Q a b"
  then obtain v w where "v \<in> set ds" "w \<in> set ds" "a = g v" "b = g w" by auto
  with assms \<open>Q a b\<close> show "dv_id a = dv_id b" by (metis apart_def)
qed

lemma apart_insert:
  assumes "apart P ds" and "\<And>v. \<not> P v x" "\<And>v. \<not> P x v"
  shows "apart P (ds @ [x])"
  using assms by (auto simp: apart_def)

lemma links_ok_map:
  assumes "links_ok ds" and "\<And>v. v \<in> set ds \<Longrightarrow> dv_id (g v) = dv_id v \<and> dv_type (g v) = dv_type v \<and> same_outlet v (g v)"
    and "\<And>v p. v \<in> set ds \<Longrightarrow> dv_pairedPosId (g v) = Some p \<Longrightarrow> dv_pairedPosId v = Some p \<or>
      dv_type v \<in> {d_printer, d_terminal} \<and> (\<exists>w \<in> set ds. dv_id w = p \<and> dv_type w = d_pos \<and> same_outlet v w)"
  shows "links_ok (map g ds)"
  unfolding links_ok_def
proof (intro ballI allI impI)
  fix a p assume "a \<in> set (map g ds)" "dv_pairedPosId a = Some p"
  then obtain v where v: "v \<in> set ds" "a = g v" "dv_pairedPosId (g v) = Some p" by auto
  from v(1) assms(1) assms(3) [OF v(1,3)] obtain w where w: "dv_type v \<in> {d_printer, d_terminal}" "w \<in> set ds" "dv_id w = p" "dv_type w = d_pos" "same_outlet v w"
    by (auto simp: links_ok_def)
  have "same_outlet a (g w)" using w(5) assms(2) [OF v(1)] assms(2) [OF w(2)] v(2) by (simp add: same_outlet_def)
  moreover have "g w \<in> set (map g ds)" "dv_id (g w) = p" "dv_type (g w) = d_pos" using w assms(2) [OF w(2)] by auto
  moreover have "dv_type a \<in> {d_printer, d_terminal}" using w(1) assms(2) [OF v(1)] v(2) by simp
  ultimately show "dv_type a \<in> {d_printer, d_terminal} \<and> (\<exists>w \<in> set (map g ds). dv_id w = p \<and> dv_type w = d_pos \<and> same_outlet a w)" by blast
qed

text \<open>An update that neither makes a hub nor links anything.\<close>

definition tame :: "(device \<Rightarrow> device) \<Rightarrow> device \<Rightarrow> bool" where
  "tame f v \<longleftrightarrow> same_device v (f v) \<and> (dv_role (f v) = dr_hub \<longrightarrow> dv_role v = dr_hub) \<and>
     (dv_pairedPosId (f v) = dv_pairedPosId v \<or> dv_pairedPosId (f v) = None) \<and> (dv_status (f v) = d_active \<longleftrightarrow> dv_revokedAt (f v) = None)"

lemma fleet_ok_map:
  assumes "fleet_ok n ds" and f: "\<And>v. v \<in> set ds \<Longrightarrow> tame g v"
  shows "fleet_ok n (map g ds)"
proof -
  have same: "dv_id (g v) = dv_id v \<and> dv_type (g v) = dv_type v \<and> same_outlet v (g v)" if "v \<in> set ds" for v
    using f [OF that] by (simp add: tame_def same_device_def)
  have "apart hub_rivals (map g ds)"
  proof (rule apart_map [of hub_rivals])
    fix v w assume m: "v \<in> set ds" "w \<in> set ds" and r: "hub_rivals (g v) (g w)"
    have "active_hub x" if "x \<in> set ds" "active_hub (g x)" for x using f [OF that(1)] that(2) by (auto simp: tame_def same_device_def active_hub_def)
    then show "hub_rivals v w \<or> dv_id v = dv_id w" using r m same [OF m(1)] same [OF m(2)] by (simp add: hub_rivals_def same_outlet_def)
  qed (use assms same in \<open>auto simp: fleet_ok_def\<close>)
  moreover have "apart link_rivals (map g ds)"
  proof (rule apart_map [of link_rivals])
    fix v w assume m: "v \<in> set ds" "w \<in> set ds" and r: "link_rivals (g v) (g w)"
    have "dv_status x = d_active" if "x \<in> set ds" "dv_status (g x) = d_active" for x using f [OF that(1)] that(2) by (auto simp: tame_def same_device_def)
    moreover have "dv_pairedPosId (g x) = dv_pairedPosId x" if "x \<in> set ds" "dv_pairedPosId (g x) \<noteq> None" for x
      using f [OF that(1)] that(2) by (auto simp: tame_def)
    moreover have "dv_pairedPosId (g v) \<noteq> None" "dv_pairedPosId (g w) \<noteq> None" using r by (simp_all add: link_rivals_def)
    ultimately have "dv_status v = d_active" "dv_status w = d_active" "dv_pairedPosId (g v) = dv_pairedPosId v" "dv_pairedPosId (g w) = dv_pairedPosId w"
      using r m by (simp_all add: link_rivals_def)
    then show "link_rivals v w \<or> dv_id v = dv_id w" using r same [OF m(1)] same [OF m(2)] by (simp add: link_rivals_def)
  qed (use assms same in \<open>auto simp: fleet_ok_def\<close>)
  moreover have "links_ok (map g ds)" using assms(1) same f by (intro links_ok_map) (force simp: fleet_ok_def tame_def)+
  moreover have "status_ok (map g ds)" using f by (auto simp: status_ok_def tame_def)
  moreover have k: "map dv_id (map g ds) = map dv_id ds" using same by simp
  ultimately show ?thesis using assms(1) unfolding fleet_ok_def k by blast
qed

lemma fleet_ok_update:
  assumes "fleet_ok n ds" and "\<And>v. v \<in> set ds \<Longrightarrow> p v \<Longrightarrow> tame f v"
  shows "fleet_ok n (update_rows p f ds)"
proof -
  have "tame (\<lambda>v. if p v then f v else v) v" if "v \<in> set ds" for v
    using assms that by (cases "p v") (auto simp: tame_def fleet_ok_def status_ok_def)
  then show ?thesis unfolding update_rows_def using assms(1) by (rule fleet_ok_map [rotated])
qed

lemma fleet_ok_mono: "fleet_ok n ds \<Longrightarrow> n \<le> m \<Longrightarrow> fleet_ok m ds"
  by (auto simp: fleet_ok_def keys_ok_def)

lemma fleet_ok_insert:
  assumes "fleet_ok n ds" and "dv_id v = n" "dv_role v = dr_terminal" "dv_pairedPosId v = None" "dv_status v = d_active" "dv_revokedAt v = None"
  shows "fleet_ok (Suc n) (ds @ [v])"
proof -
  have "keys_ok (Suc n) (map dv_id ds @ [n])" using assms(1) keys_ok_append by (simp add: fleet_ok_def)
  moreover have "apart hub_rivals (ds @ [v])" "apart link_rivals (ds @ [v])"
    using assms by (intro apart_insert; auto simp: fleet_ok_def hub_rivals_def link_rivals_def active_hub_def)+
  moreover have "links_ok (ds @ [v])" using assms(1,4) by (auto simp: fleet_ok_def links_ok_def)
  ultimately show ?thesis using assms by (simp add: fleet_ok_def status_ok_def)
qed

lemma keys_unique: "fleet_ok n ds \<Longrightarrow> v \<in> set ds \<Longrightarrow> w \<in> set ds \<Longrightarrow> dv_id v = dv_id w \<Longrightarrow> v = w"
  by (auto simp: fleet_ok_def keys_ok_def distinct_map inj_on_def)

lemma fleet_ok_promote:
  assumes "fleet_ok n ds" and "v \<in> set ds" and "\<And>w. w \<in> set ds \<Longrightarrow> active_hub w \<Longrightarrow> dv_outletId w = dv_outletId v \<Longrightarrow> dv_id w = dv_id v"
  shows "fleet_ok n (update_rows (\<lambda>x. dv_id x = dv_id v) (\<lambda>x. x\<lparr>dv_role := dr_hub\<rparr>) ds)"
proof -
  define g where "g = (\<lambda>x :: device. if dv_id x = dv_id v then x\<lparr>dv_role := dr_hub\<rparr> else x)"
  have eq: "update_rows (\<lambda>x. dv_id x = dv_id v) (\<lambda>x. x\<lparr>dv_role := dr_hub\<rparr>) ds = map g ds" by (simp add: update_rows_def g_def)
  have keep: "dv_id (g x) = dv_id x" "dv_type (g x) = dv_type x" "same_outlet x (g x)" "dv_outletId (g x) = dv_outletId x" "dv_status (g x) = dv_status x"
    "dv_pairedPosId (g x) = dv_pairedPosId x" "dv_revokedAt (g x) = dv_revokedAt x" for x by (auto simp: g_def same_outlet_def)
  have other: "active_hub (g x) \<longleftrightarrow> active_hub x" if "dv_id x \<noteq> dv_id v" for x using that by (simp add: g_def)
  have "apart hub_rivals (map g ds)"
  proof (rule apart_map [of hub_rivals])
    fix x y assume m: "x \<in> set ds" "y \<in> set ds" and r: "hub_rivals (g x) (g y)"
    have o: "dv_outletId x = dv_outletId y" "active_hub (g x)" "active_hub (g y)" using r by (simp_all add: hub_rivals_def keep)
    consider "dv_id x = dv_id v" | "dv_id y = dv_id v" | "dv_id x \<noteq> dv_id v" "dv_id y \<noteq> dv_id v" by blast
    then show "hub_rivals x y \<or> dv_id x = dv_id y"
    proof cases
      case 1
      then have "x = v" using keys_unique assms(1,2) m by blast
      then show ?thesis using assms(3) [OF m(2)] o other [of y] by auto
    next
      case 2
      then have "y = v" using keys_unique assms(1,2) m by blast
      then show ?thesis using assms(3) [OF m(1)] o other [of x] by auto
    next
      case 3
      then show ?thesis using o other by (simp add: hub_rivals_def)
    qed
  qed (use assms(1) keep in \<open>auto simp: fleet_ok_def\<close>)
  moreover have "apart link_rivals (map g ds)"
    by (rule apart_map [of link_rivals]) (use assms(1) keep in \<open>auto simp: fleet_ok_def link_rivals_def\<close>)
  moreover have "links_ok (map g ds)" by (rule links_ok_map) (use assms(1) keep in \<open>auto simp: fleet_ok_def\<close>)
  moreover have "status_ok (map g ds)" using assms(1) keep by (auto simp: fleet_ok_def status_ok_def)
  moreover have k: "map dv_id (map g ds) = map dv_id ds" using keep by simp
  ultimately show ?thesis using assms(1) unfolding eq fleet_ok_def k by blast
qed

lemma fleet_ok_pair:
  assumes "fleet_ok n ds" and "v \<in> set ds" "dv_type v \<in> {d_printer, d_terminal}" "w \<in> set ds" "dv_type w = d_pos" "same_outlet v w"
    and free: "\<And>x. x \<in> set ds \<Longrightarrow> dv_tenantId x = dv_tenantId v \<Longrightarrow> dv_type x = dv_type v \<Longrightarrow> dv_status x = d_active \<Longrightarrow>
      dv_pairedPosId x = Some (dv_id w) \<Longrightarrow> dv_id x = dv_id v"
  shows "fleet_ok n (update_rows (\<lambda>x. dv_id x = dv_id v) (\<lambda>x. x\<lparr>dv_pairedPosId := Some (dv_id w)\<rparr>) ds)"
proof -
  define g where "g = (\<lambda>x :: device. if dv_id x = dv_id v then x\<lparr>dv_pairedPosId := Some (dv_id w)\<rparr> else x)"
  have eq: "update_rows (\<lambda>x. dv_id x = dv_id v) (\<lambda>x. x\<lparr>dv_pairedPosId := Some (dv_id w)\<rparr>) ds = map g ds" by (simp add: update_rows_def g_def)
  have keep: "dv_id (g x) = dv_id x" "dv_type (g x) = dv_type x" "same_outlet x (g x)" "dv_outletId (g x) = dv_outletId x" "dv_status (g x) = dv_status x"
    "active_hub (g x) = active_hub x" "dv_revokedAt (g x) = dv_revokedAt x" for x by (auto simp: g_def same_outlet_def active_hub_def)
  have other: "g x = x" if "dv_id x \<noteq> dv_id v" for x using that by (simp add: g_def)
  have free2: "dv_id x = dv_id v" if x: "x \<in> set ds" "dv_type x = dv_type v" "dv_status x = d_active" "dv_pairedPosId x = Some (dv_id w)" for x
  proof -
    obtain w' where "w' \<in> set ds" "dv_id w' = dv_id w" "same_outlet x w'" using x assms(1) by (auto simp: fleet_ok_def links_ok_def)
    then have "same_outlet x w" using keys_unique [OF assms(1) _ assms(4)] by blast
    then have "dv_tenantId x = dv_tenantId v" using assms(6) by (simp add: same_outlet_def)
    with x free show ?thesis by blast
  qed
  have "apart link_rivals (map g ds)"
  proof (rule apart_map [of link_rivals])
    fix x y assume m: "x \<in> set ds" "y \<in> set ds" and r: "link_rivals (g x) (g y)"
    have o: "dv_type x = dv_type y" "dv_status x = d_active" "dv_status y = d_active" "dv_pairedPosId (g y) = dv_pairedPosId (g x)"
      using r by (simp_all add: link_rivals_def keep)
    consider "dv_id x = dv_id v" | "dv_id y = dv_id v" "dv_id x \<noteq> dv_id v" | "dv_id x \<noteq> dv_id v" "dv_id y \<noteq> dv_id v" by blast
    then show "link_rivals x y \<or> dv_id x = dv_id y"
    proof cases
      case 1
      then have x: "x = v" "dv_pairedPosId (g y) = Some (dv_id w)" using keys_unique assms(1,2) m o(4) by (auto simp: g_def split: if_splits)
      show ?thesis using free2 [OF m(2)] o other [of y] x by (cases "dv_id y = dv_id v") auto
    next
      case 2
      then have y: "y = v" "dv_pairedPosId (g x) = Some (dv_id w)" using keys_unique assms(1,2) m o(4) by (auto simp: g_def split: if_splits)
      show ?thesis using free2 [OF m(1)] o other [of x] y 2 by auto
    next
      case 3
      then show ?thesis using r other by simp
    qed
  qed (use assms(1) keep in \<open>auto simp: fleet_ok_def\<close>)
  moreover have "apart hub_rivals (map g ds)"
    by (rule apart_map [of hub_rivals]) (use assms(1) keep in \<open>auto simp: fleet_ok_def hub_rivals_def\<close>)
  moreover have "links_ok (map g ds)"
  proof (rule links_ok_map)
    fix x p assume x: "x \<in> set ds" "dv_pairedPosId (g x) = Some p"
    show "dv_pairedPosId x = Some p \<or> dv_type x \<in> {d_printer, d_terminal} \<and> (\<exists>w \<in> set ds. dv_id w = p \<and> dv_type w = d_pos \<and> same_outlet x w)"
    proof (cases "dv_id x = dv_id v")
      case True
      then have "x = v" "p = dv_id w" using keys_unique assms(1,2) x by (auto simp: g_def)
      then show ?thesis using assms(3-6) by blast
    next
      case False
      then show ?thesis using x other by simp
    qed
  qed (use assms(1) keep in \<open>auto simp: fleet_ok_def\<close>)
  moreover have "status_ok (map g ds)" using assms(1) keep by (auto simp: fleet_ok_def status_ok_def)
  moreover have k: "map dv_id (map g ds) = map dv_id ds" using keep by simp
  ultimately show ?thesis using assms(1) unfolding eq fleet_ok_def k by blast
qed

section \<open>Runs of the fleet\<close>

text \<open>
  Any operation above, by anyone, in any order; the second half of an enrolment also on a row of the code that was read before
  other enrolments; and everything else the service does, none of which writes devices or codes.
\<close>

inductive fleet_step :: "(string \<Rightarrow> string) \<Rightarrow> console_db \<Rightarrow> console_db \<Rightarrow> bool" for H where
  fl_code: "generateCode e H bytes operator gdto s = Inr (gv, s') \<Longrightarrow> fleet_step H s s'"
| fl_enroll: "c \<in> set (enrolmentCodes (sd_db s)) \<Longrightarrow> enroll_record e H rnd actor dto (c\<lparr>ec_usedAt := u\<rparr>) s = Inr (er, s') \<Longrightarrow> fleet_step H s s'"
| fl_hub: "designateHub e operator k reason s = Inr (hv, s') \<Longrightarrow> fleet_step H s s'"
| fl_revoke: "revokeDevice e operator k reason s = Inr (rv, s') \<Longrightarrow> fleet_step H s s'"
| fl_heartbeat: "heartbeat e k hdto s = Inr (rv, s') \<Longrightarrow> fleet_step H s s'"
| fl_pos_heartbeat: "posHeartbeat e staff k s = Inr s' \<Longrightarrow> fleet_step H s s'"
| fl_pair: "setPairing owner out k pos s = Inr (pv, s') \<Longrightarrow> fleet_step H s s'"
| fl_admin_revoke: "adminRevokeDevice e owner out k reason s = Inr (av, s') \<Longrightarrow> fleet_step H s s'"
| fl_other: "devices (sd_db s') = devices (sd_db s) \<Longrightarrow> enrolmentCodes (sd_db s') = enrolmentCodes (sd_db s) \<Longrightarrow>
    nextId (sd_db s) \<le> nextId (sd_db s') \<Longrightarrow> fleet_step H s s'"

abbreviation fleet_run :: "(string \<Rightarrow> string) \<Rightarrow> console_db \<Rightarrow> console_db \<Rightarrow> bool" where
  "fleet_run H \<equiv> (fleet_step H)\<^sup>*\<^sup>*"

definition codes_ok :: "uuid \<Rightarrow> enrolment_code list \<Rightarrow> bool" where
  "codes_ok n cs \<longleftrightarrow> keys_ok n (map ec_id cs) \<and> distinct (map ec_codeHash cs)"

definition fleet_db_ok :: "db \<Rightarrow> bool" where
  "fleet_db_ok d \<longleftrightarrow> fleet_ok (nextId d) (devices d) \<and> codes_ok (nextId d) (enrolmentCodes d)"

definition used_codes :: "db \<Rightarrow> nat" where
  "used_codes d = count_rows (\<lambda>c. ec_usedAt c \<noteq> None) (enrolmentCodes d)"

text \<open>What time does to devices and codes.\<close>

definition evolves :: "db \<Rightarrow> db \<Rightarrow> bool" where
  "evolves d d' \<longleftrightarrow> (\<forall>v \<in> set (devices d). \<exists>w \<in> set (devices d'). same_device v w) \<and>
     (\<forall>c \<in> set (enrolmentCodes d). \<exists>c' \<in> set (enrolmentCodes d'). ec_id c' = ec_id c \<and> ec_codeHash c' = ec_codeHash c \<and>
        (ec_usedAt c \<noteq> None \<longrightarrow> ec_usedAt c' = ec_usedAt c))"

lemma evolves_refl: "evolves d d"
  by (force simp: evolves_def)

lemma evolves_trans:
  assumes "evolves d d1" and "evolves d1 d2"
  shows "evolves d d2"
  unfolding evolves_def
proof (intro conjI ballI)
  fix v assume "v \<in> set (devices d)"
  then show "\<exists>w \<in> set (devices d2). same_device v w" using assms same_device_trans unfolding evolves_def by meson
next
  fix c assume "c \<in> set (enrolmentCodes d)"
  then obtain c1 where c1: "c1 \<in> set (enrolmentCodes d1)" "ec_id c1 = ec_id c" "ec_codeHash c1 = ec_codeHash c" "ec_usedAt c \<noteq> None \<longrightarrow> ec_usedAt c1 = ec_usedAt c"
    using assms(1) by (auto simp: evolves_def)
  then obtain c2 where "c2 \<in> set (enrolmentCodes d2)" "ec_id c2 = ec_id c1" "ec_codeHash c2 = ec_codeHash c1" "ec_usedAt c1 \<noteq> None \<longrightarrow> ec_usedAt c2 = ec_usedAt c1"
    using assms(2) by (auto simp: evolves_def)
  with c1 show "\<exists>c' \<in> set (enrolmentCodes d2). ec_id c' = ec_id c \<and> ec_codeHash c' = ec_codeHash c \<and> (ec_usedAt c \<noteq> None \<longrightarrow> ec_usedAt c' = ec_usedAt c)"
    by (intro bexI [of _ c2]) auto
qed

lemma evolvesI:
  assumes "devices d' = map g (devices d) @ ds" and "\<And>v. same_device v (g v)"
    and "enrolmentCodes d' = map h (enrolmentCodes d) @ cs"
    and "\<And>c. ec_id (h c) = ec_id c \<and> ec_codeHash (h c) = ec_codeHash c \<and> (ec_usedAt c \<noteq> None \<longrightarrow> ec_usedAt (h c) = ec_usedAt c)"
  shows "evolves d d'"
  unfolding evolves_def assms(1,3)
proof (intro conjI ballI)
  fix v assume "v \<in> set (devices d)"
  then show "\<exists>w \<in> set (map g (devices d) @ ds). same_device v w" using assms(2) by (intro bexI [of _ "g v"]) auto
next
  fix c assume "c \<in> set (enrolmentCodes d)"
  then show "\<exists>c' \<in> set (map h (enrolmentCodes d) @ cs). ec_id c' = ec_id c \<and> ec_codeHash c' = ec_codeHash c \<and> (ec_usedAt c \<noteq> None \<longrightarrow> ec_usedAt c' = ec_usedAt c)"
    using assms(4) by (intro bexI [of _ "h c"]) auto
qed

lemma fleet_writers [simp]:
  "devices (sd_db (fleet_audit e t k m a r s)) = devices (sd_db s)" "enrolmentCodes (sd_db (fleet_audit e t k m a r s)) = enrolmentCodes (sd_db s)"
  "nextId (sd_db (fleet_audit e t k m a r s)) = nextId (sd_db s)"
  "devices (sd_db (set_device j f s)) = update_rows (\<lambda>v. dv_id v = j) f (devices (sd_db s))" "enrolmentCodes (sd_db (set_device j f s)) = enrolmentCodes (sd_db s)"
  "nextId (sd_db (set_device j f s)) = nextId (sd_db s)"
  "devices (sd_db (release_work t j s)) = devices (sd_db s)" "enrolmentCodes (sd_db (release_work t j s)) = enrolmentCodes (sd_db s)"
  "nextId (sd_db (release_work t j s)) = nextId (sd_db s)"
  "sd_db (complete_devices_step e t b s) = sd_db s"
  by (simp_all add: fleet_audit_def set_device_def release_work_def complete_devices_step_def)

text \<open>One step keeps the order, moves devices and codes on together, and forgets neither.\<close>

definition good_step :: "db \<Rightarrow> db \<Rightarrow> bool" where
  "good_step d d' \<longleftrightarrow> fleet_db_ok d' \<and> evolves d d' \<and> length (devices d') + used_codes d = length (devices d) + used_codes d'"

lemma good_step_devices:
  assumes "fleet_db_ok d" and "fleet_ok (nextId d) (devices d')" and "enrolmentCodes d' = enrolmentCodes d" "nextId d' = nextId d"
    and "devices d' = map g (devices d)" and "\<And>v. v \<in> set (devices d) \<Longrightarrow> same_device v (g v)"
  shows "good_step d d'"
  using assms by (force simp: good_step_def fleet_db_ok_def evolves_def used_codes_def)

lemma good_step_tame:
  assumes "fleet_db_ok d" and "devices d' = update_rows p f (devices d)" and "enrolmentCodes d' = enrolmentCodes d" "nextId d' = nextId d"
    and tame: "\<And>v. v \<in> set (devices d) \<Longrightarrow> p v \<Longrightarrow> tame f v"
  shows "good_step d d'"
proof (rule good_step_devices)
  show "fleet_ok (nextId d) (devices d')" unfolding assms(2) using assms(1) tame by (intro fleet_ok_update) (auto simp: fleet_db_ok_def)
  show "devices d' = map (\<lambda>v. if p v then f v else v) (devices d)" by (simp add: assms(2) update_rows_def)
  show "same_device v (if p v then f v else v)" if "v \<in> set (devices d)" for v using tame [OF that] by (simp add: tame_def)
qed (use assms in auto)

lemma good_step_trans: "good_step d d1 \<Longrightarrow> good_step d1 d2 \<Longrightarrow> good_step d d2"
  by (auto simp: good_step_def intro: evolves_trans)

lemma consume_counts:
  "distinct (map ec_id cs) \<Longrightarrow> c \<in> set cs \<Longrightarrow> ec_id c = k \<Longrightarrow> ec_usedAt c = None \<Longrightarrow>
   count_rows (\<lambda>c. ec_usedAt c \<noteq> None) (update_rows (\<lambda>c. ec_id c = k \<and> ec_usedAt c = None) (\<lambda>c. c\<lparr>ec_usedAt := Some t\<rparr>) cs) =
   Suc (count_rows (\<lambda>c. ec_usedAt c \<noteq> None) cs)"
proof (induction cs)
  case (Cons x xs)
  show ?case
  proof (cases "x = c")
    case True
    then have "update_rows (\<lambda>c. ec_id c = k \<and> ec_usedAt c = None) (\<lambda>c. c\<lparr>ec_usedAt := Some t\<rparr>) xs = xs"
      using Cons.prems by (intro update_rows_none) (auto simp: image_iff)
    with True Cons.prems show ?thesis by (simp add: update_rows_def count_rows_def)
  next
    case False
    with Cons have "ec_id x \<noteq> k" by (auto simp: image_iff)
    with False Cons show ?thesis by (auto simp: update_rows_def count_rows_def)
  qed
qed simp

lemma enroll_record_effect:
  assumes "enroll_record e H rnd actor dto code s = Inr (er, s')"
  obtains n where
    "count_rows (\<lambda>c. ec_id c = ec_id code \<and> ec_usedAt c = None) (enrolmentCodes (sd_db s)) \<noteq> 0"
    "devices (sd_db s') = devices (sd_db s) @ [enrolled_device e H (''dvs_'' @ rnd) dto code (nextId (sd_db s)) n]"
    "enrolmentCodes (sd_db s') = update_rows (\<lambda>c. ec_id c = ec_id code \<and> ec_usedAt c = None) (\<lambda>c. c\<lparr>ec_usedAt := Some (now e)\<rparr>) (enrolmentCodes (sd_db s))"
    "nextId (sd_db s') = Suc (nextId (sd_db s))"
    "er_device er = toDeviceView (enrolled_device e H (''dvs_'' @ rnd) dto code (nextId (sd_db s)) n)" "er_deviceSecret er = ''dvs_'' @ rnd"
proof -
  let ?n = "count_rows (\<lambda>v. dv_tenantId v = ec_tenantId code \<and> dv_outletId v = Some (ec_outletId code) \<and> dv_type v = ec_deviceType code)
    (devices (sd_db s))"
  note r = assms [unfolded enroll_record_def consume_code_def fresh_def take_id_def Let_def prod.case]
  have n: "count_rows (\<lambda>c. ec_id c = ec_id code \<and> ec_usedAt c = None) (enrolmentCodes (sd_db s)) \<noteq> 0" using r by (simp split: if_splits)
  show thesis
    by (rule that [of ?n]; use r n in clarsimp)
qed

lemma good_step_enroll:
  assumes "fleet_db_ok (sd_db s)" and "enroll_record e H rnd actor dto code s = Inr (er, s')"
  shows "good_step (sd_db s) (sd_db s')"
proof -
  let ?d = "sd_db s" and ?p = "\<lambda>c. ec_id c = ec_id code \<and> ec_usedAt c = None"
  obtain n where n: "count_rows ?p (enrolmentCodes ?d) \<noteq> 0" "devices (sd_db s') = devices ?d @ [enrolled_device e H (''dvs_'' @ rnd) dto code (nextId ?d) n]"
    and same: "enrolmentCodes (sd_db s') = update_rows ?p (\<lambda>c. c\<lparr>ec_usedAt := Some (now e)\<rparr>) (enrolmentCodes ?d)" "nextId (sd_db s') = Suc (nextId ?d)"
    and "er_device er = toDeviceView (enrolled_device e H (''dvs_'' @ rnd) dto code (nextId ?d) n)" "er_deviceSecret er = ''dvs_'' @ rnd"
    by (rule enroll_record_effect [OF assms(2)])
  obtain c where c: "c \<in> set (enrolmentCodes ?d)" "ec_id c = ec_id code" "ec_usedAt c = None" using n(1) by (auto simp: count_rows_zero)
  have "distinct (map ec_id (enrolmentCodes ?d))" using assms(1) by (simp add: fleet_db_ok_def codes_ok_def keys_ok_def)
  then have "used_codes (sd_db s') = Suc (used_codes ?d)" unfolding used_codes_def same(1) using c by (intro consume_counts)
  moreover have "fleet_db_ok (sd_db s')"
    unfolding fleet_db_ok_def n(2) same
    using assms(1) by (auto simp: fleet_db_ok_def codes_ok_def enrolled_device_def intro!: fleet_ok_insert intro: keys_ok_mono)
  moreover have "evolves ?d (sd_db s')"
    by (rule evolvesI [where g = "\<lambda>v. v" and cs = "[]" and h = "\<lambda>c. if ?p c then c\<lparr>ec_usedAt := Some (now e)\<rparr> else c"])
      (simp_all add: n(2) same(1) update_rows_def)
  ultimately show ?thesis using n(2) by (simp add: good_step_def)
qed

lemma good_step_code:
  assumes "fleet_db_ok (sd_db s)" and "generateCode e H bytes operator gdto s = Inr (gv, s')"
  shows "good_step (sd_db s) (sd_db s')"
proof -
  let ?h = "hashCode H (normalizeCode (generateRawCode bytes))"
  define c where "c = \<lparr>ec_id = nextId (sd_db s), ec_tenantId = gc_tenantId gdto, ec_outletId = gc_outletId gdto, ec_codeHash = ?h,
     ec_deviceType = gc_deviceType gdto, ec_expiresAt = now e + CODE_TTL_MS, ec_usedAt = None\<rparr>"
  have c: "ec_id c = nextId (sd_db s)" "ec_codeHash c = ?h" "ec_usedAt c = None" by (simp_all add: c_def)
  have same: "enrolmentCodes (sd_db s') = enrolmentCodes (sd_db s) @ [c]" "devices (sd_db s') = devices (sd_db s)" "nextId (sd_db s') = Suc (nextId (sd_db s))" "find_row ec_codeHash ?h (enrolmentCodes (sd_db s)) = None"
    using assms(2) by (auto simp: generateCode_def fresh_def take_id_def Let_def c_def split: if_splits)
  have "?h \<notin> set (map ec_codeHash (enrolmentCodes (sd_db s)))" using same(4) by (auto simp: find_row_None)
  then have "fleet_db_ok (sd_db s')"
    using assms(1) c keys_ok_append [of "nextId (sd_db s)"] by (auto simp: fleet_db_ok_def same codes_ok_def intro: fleet_ok_mono)
  moreover have "evolves (sd_db s) (sd_db s')"
    by (rule evolvesI [where g = "\<lambda>v. v" and h = "\<lambda>c. c" and ds = "[]"]) (simp_all add: same c)
  ultimately show ?thesis using c by (simp add: good_step_def same used_codes_def count_rows_def)
qed

lemma designateHub_guard:
  assumes "designateHub e operator k reason s = Inr (hv, s')"
  obtains v where "find_row dv_id k (devices (sd_db s)) = Some v" "dv_status v = d_active" "dv_outletId v \<noteq> None"
proof (cases "find_row dv_id k (devices (sd_db s))")
  case None
  with assms show thesis by (simp add: designateHub_def)
next
  case (Some v)
  have a: "dv_status v = d_active" using assms Some by (cases "dv_status v = d_active") (simp_all add: designateHub_def)
  moreover have "dv_outletId v \<noteq> None" using assms Some a by (cases "dv_outletId v = None") (simp_all add: designateHub_def)
  ultimately show thesis using that Some by blast
qed

lemma good_step_hub:
  assumes "fleet_db_ok (sd_db s)" and "designateHub e operator k reason s = Inr (hv, s')"
  shows "good_step (sd_db s) (sd_db s')"
proof -
  let ?ds = "devices (sd_db s)"
  obtain v where v: "find_row dv_id k ?ds = Some v" "dv_status v = d_active" "dv_outletId v \<noteq> None"
    by (rule designateHub_guard [OF assms(2)])
  have m: "v \<in> set ?ds" "dv_id v = k" using find_row_Some [OF v(1)] by auto
  let ?prior = "find (\<lambda>w. dv_outletId w = dv_outletId v \<and> dv_role w = dr_hub \<and> dv_status w = d_active \<and> dv_id w \<noteq> k) ?ds"
  let ?s1 = "displace_hub ?prior s"
  have "sd_db s' = sd_db (fleet_audit e (dv_tenantId v) (Some (op_id operator)) (op_email operator) ''device.hub_designated'' reason (snd (make_hub v ?s1)))"
    using assms(2) v by (auto simp: designateHub_def Let_def case_prod_beta)
  then have s': "devices (sd_db s') = (if dv_role v = dr_hub then devices (sd_db ?s1) else update_rows (\<lambda>x. dv_id x = k) (\<lambda>x. x\<lparr>dv_role := dr_hub\<rparr>) (devices (sd_db ?s1)))"
    "enrolmentCodes (sd_db s') = enrolmentCodes (sd_db ?s1)" "nextId (sd_db s') = nextId (sd_db ?s1)"
    by (simp_all add: make_hub_def m(2))
  have ok: "fleet_ok (nextId (sd_db s)) ?ds" using assms(1) by (simp add: fleet_db_ok_def)
  have s1: "good_step (sd_db s) (sd_db ?s1)"
  proof (cases ?prior)
    case None
    then show ?thesis using assms(1) by (simp add: good_step_def evolves_refl displace_hub_def)
  next
    case (Some w)
    have "tame (\<lambda>x. x\<lparr>dv_role := dr_terminal\<rparr>) x" if "x \<in> set ?ds" for x
      using that ok by (auto simp: tame_def same_device_def same_outlet_def fleet_ok_def status_ok_def)
    with Some show ?thesis using assms(1) by (intro good_step_tame [where p = "\<lambda>x. dv_id x = dv_id w"]) (simp_all add: displace_hub_def)
  qed
  have only: "dv_id x = dv_id v" if x: "x \<in> set (devices (sd_db ?s1))" "active_hub x" "dv_outletId x = dv_outletId v" for x
  proof (cases ?prior)
    case None
    with x m show ?thesis by (auto simp: find_None_iff active_hub_def displace_hub_def)
  next
    case (Some w)
    then have w: "w \<in> set ?ds" "dv_outletId w = dv_outletId v" "active_hub w" by (auto dest: find_SomeD simp: active_hub_def)
    have "devices (sd_db ?s1) = update_rows (\<lambda>x. dv_id x = dv_id w) (\<lambda>x. x\<lparr>dv_role := dr_terminal\<rparr>) ?ds" using Some by (simp add: displace_hub_def)
    then have o: "x \<in> set ?ds" "dv_id x \<noteq> dv_id w" using x(1,2) by (auto simp: set_update_rows active_hub_def split: if_splits)
    have "hub_rivals x w" "apart hub_rivals ?ds" using x(2,3) w(2,3) ok by (simp_all add: hub_rivals_def fleet_ok_def)
    then show ?thesis using o w(1) unfolding apart_def by blast
  qed
  have s1_devices: "\<exists>u \<in> set (devices (sd_db ?s1)). dv_id u = k \<and> dv_outletId u = dv_outletId v"
    using s1 m by (auto simp: good_step_def evolves_def same_device_def same_outlet_def)
  then obtain u where u: "u \<in> set (devices (sd_db ?s1))" "dv_id u = k" "dv_outletId u = dv_outletId v" by blast
  have "good_step (sd_db ?s1) (sd_db s')"
  proof (rule good_step_devices [where g = "\<lambda>x. if dv_role v \<noteq> dr_hub \<and> dv_id x = k then x\<lparr>dv_role := dr_hub\<rparr> else x"])
    show ok1: "fleet_db_ok (sd_db ?s1)" using s1 by (simp add: good_step_def)
    have "fleet_ok (nextId (sd_db ?s1)) (update_rows (\<lambda>x. dv_id x = dv_id u) (\<lambda>x. x\<lparr>dv_role := dr_hub\<rparr>) (devices (sd_db ?s1)))"
      using ok1 u only m(2) by (intro fleet_ok_promote) (auto simp: fleet_db_ok_def)
    then show "fleet_ok (nextId (sd_db ?s1)) (devices (sd_db s'))" using ok1 u(2) by (simp add: s' fleet_db_ok_def)
  qed (auto simp: s' update_rows_def same_device_def same_outlet_def)
  with s1 show ?thesis by (rule good_step_trans)
qed

lemma good_step_pair:
  assumes "fleet_db_ok (sd_db s)" and "setPairing owner out k pos s = Inr (pv, s')"
  shows "good_step (sd_db s) (sd_db s')"
proof -
  let ?ds = "devices (sd_db s)"
  obtain v where v: "find (\<lambda>v. dv_id v = k \<and> dv_tenantId v = ad_tenantId owner \<and> dv_outletId v = Some out \<and> dv_status v = d_active) ?ds = Some v"
    "dv_type v \<in> {d_printer, d_terminal}" "check_pairing (sd_db s) (ad_tenantId owner) out v pos = Inr ()"
    "devices (sd_db s') = update_rows (\<lambda>x. dv_id x = k) (\<lambda>x. x\<lparr>dv_pairedPosId := pos\<rparr>) ?ds"
    and same: "enrolmentCodes (sd_db s') = enrolmentCodes (sd_db s)" "nextId (sd_db s') = nextId (sd_db s)"
    using assms(2) by (auto simp: setPairing_def result_simps split: option.splits if_splits)
  have m: "v \<in> set ?ds" "dv_id v = k" "dv_tenantId v = ad_tenantId owner" "dv_outletId v = Some out" using find_SomeD [OF v(1)] by auto
  have ok: "fleet_ok (nextId (sd_db s)) ?ds" using assms(1) by (simp add: fleet_db_ok_def)
  have "fleet_ok (nextId (sd_db s)) (devices (sd_db s'))"
  proof (cases pos)
    case None
    have "tame (\<lambda>x. x\<lparr>dv_pairedPosId := None\<rparr>) x" if "x \<in> set ?ds" for x
      using that ok by (auto simp: tame_def same_device_def same_outlet_def fleet_ok_def status_ok_def)
    then show ?thesis unfolding v(4) None by (intro fleet_ok_update [OF ok])
  next
    case (Some p)
    then obtain w where w: "w \<in> set ?ds" "dv_id w = p" "dv_type w = d_pos" "dv_tenantId w = dv_tenantId v" "dv_outletId w = dv_outletId v"
      using v(3) m by (auto simp: check_pairing_def find_None_iff split: if_splits)
    have "fleet_ok (nextId (sd_db s)) (update_rows (\<lambda>x. dv_id x = dv_id v) (\<lambda>x. x\<lparr>dv_pairedPosId := Some (dv_id w)\<rparr>) ?ds)"
      using ok m(1) v(2) w(1,3)
    proof (rule fleet_ok_pair)
      show "same_outlet v w" using w by (simp add: same_outlet_def)
      show "dv_id x = dv_id v" if "x \<in> set ?ds" "dv_tenantId x = dv_tenantId v" "dv_type x = dv_type v" "dv_status x = d_active"
        "dv_pairedPosId x = Some (dv_id w)" for x
        using that v(3) m w(2) Some by (auto simp: check_pairing_def find_None_iff split: if_splits)
    qed
    then show ?thesis unfolding v(4) Some by (simp add: m(2) w(2))
  qed
  then show ?thesis using assms(1) same v(4)
    by (intro good_step_devices [where g = "\<lambda>x. if dv_id x = k then x\<lparr>dv_pairedPosId := pos\<rparr> else x"])
      (auto simp: update_rows_def same_device_def same_outlet_def)
qed

lemma tame_columns:
  assumes "status_ok ds" and "v \<in> set ds"
  shows "tame (\<lambda>v. v\<lparr>dv_status := d_revoked, dv_revokedAt := Some t\<rparr>) v"
    and "tame (\<lambda>v. v\<lparr>dv_status := d_revoked, dv_revokedAt := Some t, dv_pairedPosId := None\<rparr>) v"
    and "tame (\<lambda>v. v\<lparr>dv_pairedPosId := None\<rparr>) v" and "tame (\<lambda>v. v\<lparr>dv_lastContactAt := l\<rparr>) v"
    and "tame (\<lambda>v. v\<lparr>dv_lastContactAt := l, dv_outboxDepth := x, dv_appVersion := a, dv_clockSkewSeconds := c, dv_recentRejectionCount := r\<rparr>) v"
  using assms by (auto simp: tame_def same_device_def same_outlet_def status_ok_def)

lemma revokeDevice_effect:
  assumes "revokeDevice e operator k reason s = Inr (rv, s')"
  shows "devices (sd_db s') = update_rows (\<lambda>v. dv_id v = k) (\<lambda>v. v\<lparr>dv_status := d_revoked, dv_revokedAt := Some (now e)\<rparr>) (devices (sd_db s)) \<and>
    enrolmentCodes (sd_db s') = enrolmentCodes (sd_db s) \<and> nextId (sd_db s') = nextId (sd_db s) \<and> find_row dv_id k (devices (sd_db s)) \<noteq> None"
  using assms by (auto simp: revokeDevice_def Let_def split: option.splits if_splits)

lemma adminRevoke_effect:
  assumes "adminRevokeDevice e owner out k reason s = Inr (av, s')"
  shows "devices (sd_db s') = update_rows (\<lambda>v. dv_id v = k) (\<lambda>v. v\<lparr>dv_status := d_revoked, dv_revokedAt := Some (now e), dv_pairedPosId := None\<rparr>)
      (update_rows (\<lambda>v. dv_tenantId v = ad_tenantId owner \<and> dv_pairedPosId v = Some k) (\<lambda>v. v\<lparr>dv_pairedPosId := None\<rparr>) (devices (sd_db s))) \<and>
    enrolmentCodes (sd_db s') = enrolmentCodes (sd_db s) \<and> nextId (sd_db s') = nextId (sd_db s)"
  using assms by (auto simp: adminRevokeDevice_def Let_def split: option.splits if_splits)

lemma fleet_status: "fleet_db_ok d \<Longrightarrow> status_ok (devices d)"
  by (simp add: fleet_db_ok_def fleet_ok_def)

lemma good_step_revoke:
  assumes "fleet_db_ok (sd_db s)" and "revokeDevice e operator k reason s = Inr (rv, s')"
  shows "good_step (sd_db s) (sd_db s')"
proof -
  note r = revokeDevice_effect [OF assms(2)]
  show ?thesis by (rule good_step_tame [OF assms(1) r [THEN conjunct1]]) (use r tame_columns fleet_status [OF assms(1)] in auto)
qed

lemma good_step_heartbeat:
  assumes "fleet_db_ok (sd_db s)" and "heartbeat e k hdto s = Inr (rv, s')"
  shows "good_step (sd_db s) (sd_db s')"
proof -
  let ?f = "\<lambda>v. v\<lparr>dv_lastContactAt := Some (now e), dv_outboxDepth := Some (hb_outboxDepth hdto), dv_appVersion := Some (hb_appVersion hdto),
    dv_clockSkewSeconds := Some (hb_clockSkewSeconds hdto), dv_recentRejectionCount := Some (hb_recentRejectionCount hdto)\<rparr>"
  have r: "devices (sd_db s') = update_rows (\<lambda>v. dv_id v = k) ?f (devices (sd_db s))" "enrolmentCodes (sd_db s') = enrolmentCodes (sd_db s)"
    "nextId (sd_db s') = nextId (sd_db s)"
    using assms(2) by (auto simp: heartbeat_def Let_def split: option.splits if_splits)
  show ?thesis by (rule good_step_tame [OF assms(1) r]) (rule tame_columns [OF fleet_status [OF assms(1)]])
qed

lemma good_step_pos_heartbeat:
  assumes "fleet_db_ok (sd_db s)" and "posHeartbeat e staff k s = Inr s'"
  shows "good_step (sd_db s) (sd_db s')"
proof -
  let ?p = "\<lambda>v. dv_id v = k \<and> dv_tenantId v = pp_tenantId staff \<and> dv_outletId v = Some (pp_outletId staff) \<and> dv_status v = d_active"
  have r: "devices (sd_db s') = update_rows ?p (\<lambda>v. v\<lparr>dv_lastContactAt := Some (now e)\<rparr>) (devices (sd_db s))"
    "enrolmentCodes (sd_db s') = enrolmentCodes (sd_db s)" "nextId (sd_db s') = nextId (sd_db s)"
    using assms(2) by (auto simp: posHeartbeat_def Let_def split: if_splits)
  show ?thesis by (rule good_step_tame [OF assms(1) r]) (rule tame_columns [OF fleet_status [OF assms(1)]])
qed

lemma good_step_admin_revoke:
  assumes "fleet_db_ok (sd_db s)" and "adminRevokeDevice e owner out k reason s = Inr (av, s')"
  shows "good_step (sd_db s) (sd_db s')"
proof -
  let ?ds = "update_rows (\<lambda>v. dv_tenantId v = ad_tenantId owner \<and> dv_pairedPosId v = Some k) (\<lambda>v. v\<lparr>dv_pairedPosId := None\<rparr>) (devices (sd_db s))"
  let ?d = "(sd_db s)\<lparr>devices := ?ds\<rparr>"
  note r = adminRevoke_effect [OF assms(2)]
  have one: "good_step (sd_db s) ?d"
    by (rule good_step_tame [OF assms(1), of ?d "\<lambda>v. dv_tenantId v = ad_tenantId owner \<and> dv_pairedPosId v = Some k" "\<lambda>v. v\<lparr>dv_pairedPosId := None\<rparr>"])
      (simp_all add: tame_columns(3) [OF fleet_status [OF assms(1)]])
  then have ok: "fleet_db_ok ?d" by (simp add: good_step_def)
  have "good_step ?d (sd_db s')"
    by (rule good_step_tame [OF ok, of _ "\<lambda>v. dv_id v = k" "\<lambda>v. v\<lparr>dv_status := d_revoked, dv_revokedAt := Some (now e), dv_pairedPosId := None\<rparr>"])
      (use r tame_columns(2) [OF fleet_status [OF ok]] in simp_all)
  with one show ?thesis by (rule good_step_trans)
qed

lemma fleet_step_good:
  assumes "fleet_step H s s'" and "fleet_db_ok (sd_db s)"
  shows "good_step (sd_db s) (sd_db s')"
  using assms(1)
proof cases
  case fl_other
  then have "evolves (sd_db s) (sd_db s')" by (intro evolvesI [where g = "\<lambda>v. v" and h = "\<lambda>c. c" and ds = "[]" and cs = "[]"]) simp_all
  with fl_other assms(2) show ?thesis by (auto simp: good_step_def fleet_db_ok_def used_codes_def codes_ok_def intro: fleet_ok_mono keys_ok_mono)
qed (use assms(2) in \<open>blast intro: good_step_code good_step_enroll good_step_hub good_step_pair good_step_revoke good_step_heartbeat
  good_step_pos_heartbeat good_step_admin_revoke\<close>)+

lemma fleet_run_good:
  assumes "fleet_run H s s'" and "fleet_db_ok (sd_db s)"
  shows "good_step (sd_db s) (sd_db s')"
  using assms(1)
proof induction
  case base
  show ?case using assms(2) by (simp add: good_step_def evolves_refl)
next
  case (step t u)
  then show ?case using fleet_step_good good_step_trans by (metis good_step_def)
qed

lemma readCode_Inr:
  "readCode e H t d = Inr c \<longleftrightarrow> find_row ec_codeHash (hashCode H (normalizeCode t)) (enrolmentCodes d) = Some c \<and> ec_usedAt c = None \<and> now e < ec_expiresAt c"
  by (auto simp: readCode_def split: option.splits)

text \<open>Redeeming a code is a step of the fleet.\<close>

lemma enroll_step:
  assumes "enrollWithActor e H rnd actor dto s = Inr (er, s')"
  shows "fleet_step H s s'"
proof -
  obtain c where c: "find_row ec_codeHash (hashCode H (normalizeCode (ed_code dto))) (enrolmentCodes (sd_db s)) = Some c"
    "enroll_record e H rnd actor dto c s = Inr (er, s')"
    using assms by (auto simp: enrollWithActor_def result_simps readCode_Inr)
  show ?thesis by (rule fl_enroll [of c _ e H rnd actor dto "ec_usedAt c" er]) (use c find_row_Some [OF c(1)] in auto)
qed

section \<open>Properties\<close>

text \<open>
  C31: Whatever happens to the fleet, an outlet never has two active hubs, no two active printers (or card terminals) share a till,
  a linked device is linked to a till of its own outlet, a device is active exactly while it is not revoked, and as many devices
  are enrolled as codes are used up.
\<close>

theorem fleet_stays_in_order:
  assumes "fleet_run H s s'" and "fleet_db_ok (sd_db s)"
  shows "(\<forall>v \<in> set (devices (sd_db s')). \<forall>w \<in> set (devices (sd_db s')). active_hub v \<and> active_hub w \<and> dv_outletId v = dv_outletId w \<longrightarrow> v = w) \<and>
    (\<forall>v \<in> set (devices (sd_db s')). \<forall>w \<in> set (devices (sd_db s')). link_rivals v w \<longrightarrow> v = w) \<and>
    links_ok (devices (sd_db s')) \<and> status_ok (devices (sd_db s')) \<and>
    length (devices (sd_db s')) + used_codes (sd_db s) = length (devices (sd_db s)) + used_codes (sd_db s')"
proof -
  have g: "good_step (sd_db s) (sd_db s')" by (rule fleet_run_good [OF assms])
  then have ok: "fleet_ok (nextId (sd_db s')) (devices (sd_db s'))" by (simp add: good_step_def fleet_db_ok_def)
  then have a: "apart hub_rivals (devices (sd_db s'))" "apart link_rivals (devices (sd_db s'))" by (simp_all add: fleet_ok_def)
  have "v = w" if "v \<in> set (devices (sd_db s'))" "w \<in> set (devices (sd_db s'))" "hub_rivals v w \<or> link_rivals v w" for v w
    using a that keys_unique [OF ok] unfolding apart_def by blast
  moreover have "links_ok (devices (sd_db s'))" "status_ok (devices (sd_db s'))" using ok by (simp_all add: fleet_ok_def)
  ultimately show ?thesis using g by (simp add: good_step_def hub_rivals_def)
qed

text \<open>
  C32: A code enrols one device: once it was redeemed, any later attempt with it, however it is typed, is refused, and so is one
  that read the code while it was still unused.
\<close>

theorem code_enrols_once:
  assumes "enrollWithActor e H rnd actor dto s = Inr (er, s1)" and "fleet_db_ok (sd_db s)" and "fleet_run H s1 s2"
    and "normalizeCode (ed_code dto') = normalizeCode (ed_code dto)"
  shows "enrollWithActor e' H rnd' actor' dto' s2 = Inl (Conflict ''code_already_used'') \<and>
    (\<forall>c. readCode e0 H (ed_code dto) (sd_db s) = Inr c \<longrightarrow> enroll_record e' H rnd' actor' dto' c s2 = Inl (Conflict ''code_already_used''))"
proof -
  let ?h = "hashCode H (normalizeCode (ed_code dto))"
  obtain c where c: "find_row ec_codeHash ?h (enrolmentCodes (sd_db s)) = Some c" "enroll_record e H rnd actor dto c s = Inr (er, s1)" "ec_usedAt c = None"
    using assms(1) by (auto simp: enrollWithActor_def result_simps readCode_Inr)
  have m: "c \<in> set (enrolmentCodes (sd_db s))" "ec_codeHash c = ?h" using find_row_Some [OF c(1)] by auto
  have g1: "good_step (sd_db s) (sd_db s1)" by (rule good_step_enroll [OF assms(2) c(2)])
  then have g2: "good_step (sd_db s1) (sd_db s2)" using assms(3) by (intro fleet_run_good) (simp_all add: good_step_def)
  have "enrolmentCodes (sd_db s1) = update_rows (\<lambda>x. ec_id x = ec_id c \<and> ec_usedAt x = None) (\<lambda>x. x\<lparr>ec_usedAt := Some (now e)\<rparr>) (enrolmentCodes (sd_db s))"
    by (rule enroll_record_effect [OF c(2)])
  then have "c\<lparr>ec_usedAt := Some (now e)\<rparr> \<in> set (enrolmentCodes (sd_db s1))" using m(1) c(3) by (auto simp: set_update_rows image_iff intro!: bexI [of _ c])
  with g2 obtain c2 where c2: "c2 \<in> set (enrolmentCodes (sd_db s2))" "ec_id c2 = ec_id c" "ec_codeHash c2 = ?h" "ec_usedAt c2 = Some (now e)"
    unfolding good_step_def evolves_def by (force simp: m(2))
  have ok: "codes_ok (nextId (sd_db s2)) (enrolmentCodes (sd_db s2))" using g2 by (simp add: good_step_def fleet_db_ok_def)
  have "find_row ec_codeHash ?h (enrolmentCodes (sd_db s2)) = Some c2"
    using ok c2(1) find_row_distinct [of ec_codeHash "enrolmentCodes (sd_db s2)" c2] by (simp add: codes_ok_def c2(3))
  then have "enrollWithActor e' H rnd' actor' dto' s2 = Inl (Conflict ''code_already_used'')"
    by (simp add: enrollWithActor_def readCode_def assms(4) c2(4))
  moreover have "x = c2" if "x \<in> set (enrolmentCodes (sd_db s2))" "ec_id x = ec_id c" for x
    using that c2(1,2) ok by (auto simp: codes_ok_def keys_ok_def distinct_map inj_on_def)
  then have "count_rows (\<lambda>x. ec_id x = ec_id c \<and> ec_usedAt x = None) (enrolmentCodes (sd_db s2)) = 0" using c2(4) by (auto simp: count_rows_zero)
  then have "enroll_record e' H rnd' actor' dto' c s2 = Inl (Conflict ''code_already_used'')"
    by (simp add: enroll_record_def consume_code_def)
  ultimately show ?thesis using c(1) by (auto simp: readCode_Inr)
qed

text \<open>What takes a device out of service, from either console.\<close>

inductive revokes_device :: "uuid \<Rightarrow> console_db \<Rightarrow> console_db \<Rightarrow> bool" where
  rd_console: "revokeDevice e operator k reason s = Inr (rv, s') \<Longrightarrow> revokes_device k s s'"
| rd_owner: "adminRevokeDevice e owner out k reason s = Inr (av, s') \<Longrightarrow> revokes_device k s s'"

lemma revokes_step: "revokes_device k s s' \<Longrightarrow> fleet_step H s s'"
  by (erule revokes_device.cases) (auto intro: fl_revoke fl_admin_revoke)

lemma updated_row: "v \<in> set (update_rows (\<lambda>x. key x = k) f rs) \<Longrightarrow> key v = k \<Longrightarrow> \<exists>x \<in> set rs. v = f x"
  by (auto simp: set_update_rows split: if_splits)

lemma revoked_row:
  assumes "revokes_device k s s'" and "v \<in> set (devices (sd_db s'))" and "dv_id v = k"
  shows "\<not> device_active v"
  using assms(1)
proof cases
  case (rd_console e operator reason rv)
  have "\<exists>x. v = x\<lparr>dv_status := d_revoked, dv_revokedAt := Some (now e)\<rparr>"
    using updated_row [OF assms(2) [unfolded revokeDevice_effect [OF rd_console, THEN conjunct1]] assms(3)] by blast
  then show ?thesis by (auto simp: device_active_def)
next
  case (rd_owner e owner out reason av)
  have "\<exists>x. v = x\<lparr>dv_status := d_revoked, dv_revokedAt := Some (now e), dv_pairedPosId := None\<rparr>"
    using updated_row [OF assms(2) [unfolded adminRevoke_effect [OF rd_owner, THEN conjunct1]] assms(3)] by blast
  then show ?thesis by (auto simp: device_active_def)
qed

lemma inactive_stays:
  assumes "same_device v w" and "\<not> device_active v"
  shows "\<not> device_active w"
  using assms by (auto simp: same_device_def device_active_def)

text \<open>
  C33: A device revoked from either console stays out: whatever happens afterwards, signing in from it fails, the guard refuses
  every session that was opened on it, and its heartbeats are refused.
\<close>

theorem revoked_device_stays_out:
  assumes "revokes_device k s s1" and "fleet_db_ok (sd_db s)" and "fleet_run H s1 s2"
    and "find_row dv_id k (devices (sd_db s)) = Some v"
  shows "(pl_tenantId dto = dv_tenantId v \<and> pl_deviceId dto = Some k \<longrightarrow> (\<exists>err. fst (login te h jti dto ip (sd_db s2) a) = Inl err)) \<and>
    (rq_claims rq = Some c \<and> tok_deviceId c = Some k \<longrightarrow> (\<exists>err. canActivate chk rq (sd_db s2) = Inl err)) \<and>
    (\<exists>err. posHeartbeat te staff k s2 = Inl err)"
proof -
  have g1: "good_step (sd_db s) (sd_db s1)" by (rule fleet_step_good [OF revokes_step [OF assms(1)] assms(2)])
  then have g2: "good_step (sd_db s1) (sd_db s2)" using assms(3) by (intro fleet_run_good) (simp_all add: good_step_def)
  have v: "v \<in> set (devices (sd_db s))" "dv_id v = k" using find_row_Some [OF assms(4)] by auto
  obtain v1 where v1: "v1 \<in> set (devices (sd_db s1))" "same_device v v1" using g1 v(1) by (auto simp: good_step_def evolves_def)
  obtain w where w: "w \<in> set (devices (sd_db s2))" "same_device v1 w" using g2 v1(1) by (auto simp: good_step_def evolves_def)
  have ok: "fleet_ok (nextId (sd_db s2)) (devices (sd_db s2))" using g2 by (simp add: good_step_def fleet_db_ok_def)
  have "\<not> device_active v1" using revoked_row [OF assms(1) v1(1)] v1(2) v(2) by (simp add: same_device_def)
  then have out: "\<not> device_active w" by (rule inactive_stays [OF w(2)])
  have id: "dv_id w = k" "dv_tenantId w = dv_tenantId v" using v1(2) w(2) v(2) by (simp_all add: same_device_def same_outlet_def)
  have only: "x = w" if "x \<in> set (devices (sd_db s2))" "dv_id x = k" for x using keys_unique [OF ok that(1) w(1)] that(2) id(1) by simp
  have "\<exists>err. fst (login te h jti dto ip (sd_db s2) a) = Inl err" if "pl_tenantId dto = dv_tenantId v" "pl_deviceId dto = Some k"
  proof -
    have "findDevice (sd_db s2) (dv_tenantId v) k \<noteq> None" using w(1) id by (auto simp: findDevice_def find_None_iff)
    then obtain x where "findDevice (sd_db s2) (dv_tenantId v) k = Some x" by blast
    moreover from this have "x = w" using only by (auto simp: findDevice_def dest: find_SomeD)
    ultimately show ?thesis using out that by (auto simp: login_def Let_def split: prod.splits sum.splits)
  qed
  moreover have "\<exists>err. canActivate chk rq (sd_db s2) = Inl err" if "rq_claims rq = Some c" "tok_deviceId c = Some k"
  proof -
    have "\<not> till_still_active (sd_db s2) c" using that(2) only out by (auto simp: till_still_active_def count_rows_zero)
    then show ?thesis using that(1) by (auto simp: canActivate_def r_bind_def Let_def split: option.splits sum.splits)
  qed
  moreover have "\<exists>err. posHeartbeat te staff k s2 = Inl err"
  proof -
    have "dv_status w \<noteq> d_active" using out ok w(1) by (auto simp: fleet_ok_def status_ok_def device_active_def)
    then show ?thesis using only by (auto simp: posHeartbeat_def Let_def count_rows_zero)
  qed
  ultimately show ?thesis by blast
qed

text \<open>
  The secret of an enrolment is what earns a device its own allowance: as long as it is not revoked, guesses made elsewhere
  never lock it out. The digest of \<open>sha256\<close> is never empty.
\<close>

lemma enrolled_device_not_locked_out:
  assumes "enrollWithActor e H rnd actor edto s = Inr (er, s1)" and "fleet_db_ok (sd_db s)" and "fleet_run H s1 s2"
    and "find_row dv_id (vd_id (er_device er)) (devices (sd_db s2)) = Some v" and "device_active v" and "H (er_deviceSecret er) \<noteq> []"
    and "pl_tenantId dto = vd_tenantId (er_device er)" "pl_deviceId dto = Some (vd_id (er_device er))" "pl_deviceSecret dto = Some (er_deviceSecret er)"
    and "a (PosPinDeviceKey (pl_tenantId dto) (vd_id (er_device er))) = None"
  shows "fst (login te H jti dto ip (sd_db s2) a) \<noteq> Inl (LockedOut n)"
proof -
  obtain c where c: "enroll_record e H rnd actor edto c s = Inr (er, s1)" using assms(1) by (auto simp: enrollWithActor_def result_simps)
  obtain m where m: "count_rows (\<lambda>x. ec_id x = ec_id c \<and> ec_usedAt x = None) (enrolmentCodes (sd_db s)) \<noteq> 0"
    "devices (sd_db s1) = devices (sd_db s) @ [enrolled_device e H (''dvs_'' @ rnd) edto c (nextId (sd_db s)) m]"
    "enrolmentCodes (sd_db s1) = update_rows (\<lambda>x. ec_id x = ec_id c \<and> ec_usedAt x = None) (\<lambda>c. c\<lparr>ec_usedAt := Some (now e)\<rparr>) (enrolmentCodes (sd_db s))"
    "nextId (sd_db s1) = Suc (nextId (sd_db s))"
    "er_device er = toDeviceView (enrolled_device e H (''dvs_'' @ rnd) edto c (nextId (sd_db s)) m)" "er_deviceSecret er = ''dvs_'' @ rnd"
    by (rule enroll_record_effect [OF c])
  have g1: "good_step (sd_db s) (sd_db s1)" by (rule good_step_enroll [OF assms(2) c])
  then have g2: "good_step (sd_db s1) (sd_db s2)" using assms(3) by (intro fleet_run_good) (simp_all add: good_step_def)
  let ?v = "enrolled_device e H (''dvs_'' @ rnd) edto c (nextId (sd_db s)) m"
  have "?v \<in> set (devices (sd_db s1))" by (simp add: m(2))
  then obtain w where w: "w \<in> set (devices (sd_db s2))" "same_device ?v w" using g2 unfolding good_step_def evolves_def by blast
  have ok: "fleet_ok (nextId (sd_db s2)) (devices (sd_db s2))" using g2 by (simp add: good_step_def fleet_db_ok_def)
  have view: "vd_id (er_device er) = dv_id ?v" "vd_tenantId (er_device er) = dv_tenantId ?v" by (simp_all add: m(5) toDeviceView_def)
  have "v = w" using find_row_Some [OF assms(4)] w keys_unique [OF ok] view(1) by (simp add: same_device_def)
  then have v: "v \<in> set (devices (sd_db s2))" "dv_id v = dv_id ?v" "dv_tenantId v = dv_tenantId ?v" "dv_secretHash v = Some (H (er_deviceSecret er))"
    using w by (simp_all add: same_device_def same_outlet_def m(6) enrolled_device_def)
  have "findDevice (sd_db s2) (pl_tenantId dto) (dv_id ?v) \<noteq> None"
    unfolding findDevice_def find_None_iff using v(1-3) assms(7) view(2) by auto
  then obtain x where x: "findDevice (sd_db s2) (pl_tenantId dto) (dv_id ?v) = Some x" by blast
  from find_SomeD [OF this [unfolded findDevice_def]] have "x = v" using v(2) by (intro keys_unique [OF ok _ v(1)]) simp_all
  then have "findDevice (sd_db s2) (pl_tenantId dto) (vd_id (er_device er)) = Some v" using x view(1) by simp
  moreover have "deviceSecretMatches H (pl_deviceSecret dto) (dv_secretHash v)"
    using v(4) assms(6,9) m(6) by (simp add: deviceSecretMatches_def)
  ultimately show ?thesis
    using assms(5,8,10) view(1) v(2)
    by (auto simp: login_def Let_def throttleRules_def DEVICE_RULE_def count_attempt_def login_outlet_def split: option.splits list.splits prod.splits)
qed

text \<open>
  Revocation from the operator's console leaves the links of the device and the work queued for it as they are; the owner's
  revocation clears both.
\<close>

lemma console_revoke_keeps_work:
  assumes "revokeDevice e operator k reason s = Inr (rv, s')"
  shows "printJobs (sd_db s') = printJobs (sd_db s) \<and> intents (sd_db s') = intents (sd_db s) \<and>
    map dv_pairedPosId (devices (sd_db s')) = map dv_pairedPosId (devices (sd_db s))"
  using assms by (auto simp: revokeDevice_def Let_def fleet_audit_def set_device_def update_rows_def split: option.splits if_splits)

lemma owner_revoke_releases_work:
  assumes "adminRevokeDevice e owner out k reason s = Inr (av, s')"
  shows "\<forall>j \<in> set (printJobs (sd_db s')). pj_tenantId j = ad_tenantId owner \<and> pj_printedAt j = None \<longrightarrow> pj_targetDeviceId j \<noteq> Some k"
  using assms by (auto simp: adminRevokeDevice_def Let_def fleet_audit_def set_device_def release_work_def set_update_rows split: option.splits if_splits)

section \<open>Instances\<close>

definition s_till :: "uuid \<Rightarrow> device_role \<Rightarrow> device" where
  "s_till k r = \<lparr>dv_id = k, dv_tenantId = 1, dv_outletId = Some 2, dv_label = ''Till'', dv_type = d_pos, dv_role = r, dv_status = d_active,
     dv_hardwareKeyFingerprint = ''f'', dv_secretHash = None, dv_enrolledAt = 0, dv_revokedAt = None, dv_pairedPosId = None, dv_lastContactAt = None,
     dv_outboxDepth = None, dv_appVersion = None, dv_clockSkewSeconds = None, dv_recentRejectionCount = None\<rparr>"

definition s_code :: enrolment_code where
  "s_code = \<lparr>ec_id = 61, ec_tenantId = 1, ec_outletId = 2, ec_codeHash = ''ABC234'', ec_deviceType = d_pos, ec_expiresAt = 2000000000, ec_usedAt = None\<rparr>"

definition s_fleet :: console_db where
  "s_fleet = s_console\<lparr>sd_db := s_db\<lparr>devices := [s_till 45 dr_hub, s_till 46 dr_terminal], enrolmentCodes := [s_code]\<rparr>\<rparr>"

definition s_operator :: ops_principal where
  "s_operator = \<lparr>op_id = 7, op_email = ''ops''\<rparr>"

definition s_actor :: enroll_actor where
  "s_actor = \<lparr>ea_actorId = None, ea_actorEmail = ''device:f'', ea_reason = None\<rparr>"

definition s_redeem :: "string \<Rightarrow> enroll_device_dto" where
  "s_redeem t = \<lparr>ed_code = t, ed_hardwareKeyFingerprint = ''f'', ed_label = Some ''Bar till'', ed_reason = None\<rparr>"

lemma s_fleet_ok: "fleet_db_ok (sd_db s_fleet)"
  by (simp add: fleet_db_ok_def fleet_ok_def codes_ok_def keys_ok_def apart_def hub_rivals_def link_rivals_def active_hub_def links_ok_def status_ok_def
      s_fleet_def s_till_def s_code_def s_db_def)

lemma s_codes: "normalizeCode '' abc-234'' = ''ABC234''" "normalizeCode ''ABC234'' = ''ABC234''"
  by code_simp+

lemma hub_sample: "\<exists>r s'. designateHub s_env s_operator 46 ''Faster'' s_fleet = Inr (r, s')"
  by (simp add: designateHub_def s_fleet_def find_row_def s_till_def Let_def make_hub_def)

theorem fleet_stays_in_order_witness:
  "\<exists>r s'. designateHub s_env s_operator 46 ''Faster'' s_fleet = Inr (r, s') \<and>
    (\<forall>v \<in> set (devices (sd_db s')). \<forall>w \<in> set (devices (sd_db s')). active_hub v \<and> active_hub w \<and> dv_outletId v = dv_outletId w \<longrightarrow> v = w)"
proof -
  obtain r s' where r: "designateHub s_env s_operator 46 ''Faster'' s_fleet = Inr (r, s')" using hub_sample by blast
  have "fleet_run (\<lambda>x. x) s_fleet s'" using fl_hub [OF r] by blast
  from fleet_stays_in_order [OF this s_fleet_ok] r show ?thesis by blast
qed

lemma enroll_sample: "\<exists>er s'. enrollWithActor s_env (\<lambda>x. x) ''k'' s_actor (s_redeem '' abc-234'') s_fleet = Inr (er, s')"
  by (simp add: enrollWithActor_def readCode_def hashCode_def s_redeem_def s_codes s_fleet_def find_row_def s_code_def s_env_def enroll_record_def
      consume_code_def count_rows_def fresh_def take_id_def Let_def)

theorem code_enrols_once_witness:
  "\<exists>er s'. enrollWithActor s_env (\<lambda>x. x) ''k'' s_actor (s_redeem '' abc-234'') s_fleet = Inr (er, s') \<and>
     enrollWithActor s_env (\<lambda>x. x) ''m'' s_actor (s_redeem ''ABC234'') s' = Inl (Conflict ''code_already_used'')"
proof -
  obtain er s' where r: "enrollWithActor s_env (\<lambda>x. x) ''k'' s_actor (s_redeem '' abc-234'') s_fleet = Inr (er, s')" using enroll_sample by blast
  have "normalizeCode (ed_code (s_redeem ''ABC234'')) = normalizeCode (ed_code (s_redeem '' abc-234''))" by (simp add: s_redeem_def s_codes)
  from code_enrols_once [OF r s_fleet_ok rtranclp.rtrancl_refl this] r show ?thesis by blast
qed

definition s_cashier_there :: pos_principal where
  "s_cashier_there = \<lparr>pp_id = 21, pp_name = ''Asha'', pp_role = ''Cashier'', pp_tenantId = 1, pp_outletId = 2\<rparr>"

lemma revoke_device_sample:
  "\<exists>rv s'. revokeDevice s_env s_operator 46 ''Stolen'' s_fleet = Inr (rv, s')" "\<exists>s'. posHeartbeat s_env s_cashier_there 46 s_fleet = Inr s'"
  by (simp_all add: revokeDevice_def posHeartbeat_def s_fleet_def find_row_def s_till_def Let_def count_rows_def s_cashier_there_def)

theorem revoked_device_stays_out_witness:
  "(\<exists>s'. posHeartbeat s_env s_cashier_there 46 s_fleet = Inr s') \<and>
   (\<exists>rv s' err. revokeDevice s_env s_operator 46 ''Stolen'' s_fleet = Inr (rv, s') \<and> posHeartbeat s_env s_cashier_there 46 s' = Inl err \<and>
      (\<exists>err. canActivate (\<lambda>_. Inr ()) (s_request\<lparr>rq_claims := Some (s_till_session\<lparr>tok_deviceId := Some 46\<rparr>)\<rparr>) (sd_db s') = Inl err))"
proof -
  obtain rv s' where r: "revokeDevice s_env s_operator 46 ''Stolen'' s_fleet = Inr (rv, s')" using revoke_device_sample by blast
  obtain v where v: "find_row dv_id 46 (devices (sd_db s_fleet)) = Some v" by (simp add: s_fleet_def s_till_def find_row_def)
  let ?c = "s_till_session\<lparr>tok_deviceId := Some 46\<rparr>" and ?rq = "s_request\<lparr>rq_claims := Some (s_till_session\<lparr>tok_deviceId := Some 46\<rparr>)\<rparr>"
  from revoked_device_stays_out [OF rd_console [OF r] s_fleet_ok rtranclp.rtrancl_refl v,
      where rq = ?rq and c = ?c and chk = "\<lambda>_. Inr ()" and te = s_env and staff = s_cashier_there]
    r revoke_device_sample(2)
  show ?thesis by auto
qed

end
