(* ===== verification/FloorPlan.thy ===== *)
theory FloorPlan
  imports MenuImport Platform
begin

text \<open>
  The floor plan, \<^verbatim>\<open>src/src/admin/floor-plan/floor-plan.service.ts\<close>: floors with their tables on a grid, printers, and the kitchen
  stations that print on them. A table row carries its floor's outlet and name, which the service reads by a join; renaming a
  floor therefore rewrites the name in its tables. Columns of type \<open>Int\<close> hold 32 bits and the driver refuses what does not
  fit. The last six characters of a station's id, which a removed station's name ends in, are a parameter.
\<close>

section \<open>Views and checks\<close>




record plan_table_view =
  vt_id :: uuid
  vt_floorId :: uuid
  vt_label :: string
  vt_x :: int
  vt_y :: int
  vt_width :: int
  vt_height :: int
  vt_shape :: table_shape
  vt_seatCapacity :: int

definition plan_toTableView :: "dining_table \<Rightarrow> plan_table_view" where
  "plan_toTableView t = \<lparr>vt_id = dt_id t, vt_floorId = dt_floorId t, vt_label = dt_label t, vt_x = dt_x t, vt_y = dt_y t, vt_width = dt_width t,
     vt_height = dt_height t, vt_shape = dt_shape t, vt_seatCapacity = dt_seatCapacity t\<rparr>"

record plan_printer_view =
  vp_id :: uuid
  vp_outletId :: uuid
  vp_name :: string
  vp_renderMode :: render_mode

definition toPrinterView :: "printer \<Rightarrow> plan_printer_view" where
  "toPrinterView p = \<lparr>vp_id = pn_id p, vp_outletId = pn_outletId p, vp_name = pn_name p, vp_renderMode = pn_renderMode p\<rparr>"

record plan_station_view =
  vs_id :: uuid
  vs_outletId :: uuid
  vs_name :: string
  vs_ageingThresholdMinutes :: int
  vs_primaryPrinterId :: "uuid option"
  vs_fallbackPrinterId :: "uuid option"

definition plan_toStationView :: "station \<Rightarrow> plan_station_view" where
  "plan_toStationView s = \<lparr>vs_id = st_id s, vs_outletId = st_outletId s, vs_name = st_name s,
     vs_ageingThresholdMinutes = st_ageingThresholdMinutes s, vs_primaryPrinterId = st_primaryPrinterId s, vs_fallbackPrinterId = st_fallbackPrinterId s\<rparr>"

record plan_floor_view =
  vf_id :: uuid
  vf_outletId :: uuid
  vf_name :: string
  vf_sortOrder :: int
  vf_tables :: "plan_table_view list"

record floor_plan_view =
  vl_floors :: "plan_floor_view list"
  vl_stations :: "plan_station_view list"
  vl_printers :: "plan_printer_view list"

definition plan_loadOutlet :: "db \<Rightarrow> uuid \<Rightarrow> uuid \<Rightarrow> unit result" where
  "plan_loadOutlet d tenantId outletId =
    (case find_row ou_id outletId (outlets d) of
       None \<Rightarrow> Inl (NotFound ''not_found'')
     | Some x \<Rightarrow> if ou_tenantId x \<noteq> tenantId then Inl (NotFound ''not_found'') else Inr ())"








section \<open>Floors\<close>

definition getFloorPlan :: "admin_principal \<Rightarrow> uuid \<Rightarrow> db \<Rightarrow> floor_plan_view result" where
  "getFloorPlan owner outletId d =
    r_bind (plan_loadOutlet d (ad_tenantId owner) outletId) (\<lambda>_. Inr
      \<lparr>vl_floors = map (\<lambda>f. \<lparr>vf_id = fp_id f, vf_outletId = fp_outletId f, vf_name = fp_name f, vf_sortOrder = fp_sortOrder f,
           vf_tables = map plan_toTableView (filter (\<lambda>t. dt_floorId t = fp_id f) (diningTables d))\<rparr>)
         (sort_key fp_sortOrder (filter (\<lambda>f. fp_outletId f = outletId \<and> fp_deletedAt f = None) (floors d))),
       vl_stations = map plan_toStationView (filter (\<lambda>s. st_outletId s = outletId \<and> st_deletedAt s = None) (stations d)),
       vl_printers = map toPrinterView (filter (\<lambda>p. pn_outletId p = outletId \<and> pn_deletedAt p = None) (printers d))\<rparr>)"




section \<open>Tables\<close>









section \<open>Printers and stations\<close>


definition listPrinters :: "admin_principal \<Rightarrow> uuid \<Rightarrow> db \<Rightarrow> plan_printer_view list result" where
  "listPrinters owner outletId d =
    r_bind (plan_loadOutlet d (ad_tenantId owner) outletId) (\<lambda>_.
      Inr (map toPrinterView (filter (\<lambda>p. pn_outletId p = outletId \<and> pn_deletedAt p = None) (printers d))))"







section \<open>No grid cell under two tables\<close>




























section \<open>Instances\<close>






end
