(* ===== verification/MenuEditor.thy ===== *)
theory MenuEditor
  imports Staff
begin

text \<open>
  The owner's menu editor: \<^verbatim>\<open>src/src/admin/menu/prices.service.ts\<close>, the one place a price is written, and
  \<^verbatim>\<open>src/src/admin/menu/items.service.ts\<close>, the items with their variants, modifier groups, allergens, kitchen station and
  availability. A price row is never changed: a new price is a new row, and which row counts is \<open>pickCurrentPrice\<close>. The
  variants, groups and allergens of an item are embedded in its row; deleting a variant does to the rows that name it what their
  foreign keys say.
\<close>

section \<open>Rows and requests\<close>

record create_variant_dto =
  cx_name :: string
  cx_sortOrder :: "int option"
  cx_priceMinor :: "int option"
  cx_currency :: "string option"
  cx_basePortionName :: "string option"

record create_item_dto =
  nx_categoryId :: uuid
  nx_name :: string
  nx_shortName :: string
  nx_photoUrl :: "string option"
  nx_nameHindi :: "string option"
  nx_vegMarker :: "veg_marker option"
  nx_variants :: "create_variant_dto list"
  nx_modifierGroupIds :: "uuid list"
  nx_allergenIds :: "uuid list"
  nx_stationId :: "uuid option"

text \<open>In an update the outer option of a nullable column is whether the request names it.\<close>

record update_item_dto =
  ux_name :: "string option"
  ux_shortName :: "string option"
  ux_categoryId :: "uuid option"
  ux_photoUrl :: "string option option"
  ux_nameHindi :: "string option option"
  ux_vegMarker :: "veg_marker option option"

record create_price_dto =
  dx_variantId :: "uuid option"
  dx_channel :: "price_channel option"
  dx_outletId :: "uuid option"
  dx_priceMinor :: int
  dx_currency :: string
  dx_effectiveAt :: "date option"
  dx_reason :: string

record price_input =
  px_variantId :: "uuid option"
  px_outletId :: "uuid option"
  px_channel :: "price_channel option"
  px_priceMinor :: int
  px_currency :: string
  px_effectiveAt :: "date option"
  px_reason :: string

record variant_view =
  vv_id :: uuid
  vv_name :: string
  vv_sortOrder :: int
  vv_priceMinor :: "int option"

record modifier_group_view =
  gv_id :: uuid
  gv_name :: string
  gv_minSelections :: int
  gv_maxSelections :: int
  gv_modifiers :: "(uuid \<times> string \<times> int) list"

record item_view =
  xv_id :: uuid
  xv_categoryId :: uuid
  xv_name :: string
  xv_shortName :: string
  xv_photoUrl :: "string option"
  xv_nameHindi :: "string option"
  xv_vegMarker :: "veg_marker option"
  xv_available :: bool
  xv_stationId :: "uuid option"
  xv_priceMinor :: "int option"
  xv_currency :: "string option"
  xv_variants :: "variant_view list"
  xv_modifierGroups :: "modifier_group_view list"
  xv_allergens :: "(uuid \<times> string) list"

record current_price_view =
  wv_itemId :: uuid
  wv_variantId :: "uuid option"
  wv_channel :: price_channel
  wv_outletId :: "uuid option"
  wv_priceMinor :: int
  wv_currency :: string
  wv_effectiveAt :: date

definition on_db :: "(db \<Rightarrow> db) \<Rightarrow> console_db \<Rightarrow> console_db" where
  "on_db f s = s\<lparr>sd_db := f (sd_db s)\<rparr>"

definition set_item :: "uuid \<Rightarrow> (menu_item \<Rightarrow> menu_item) \<Rightarrow> console_db \<Rightarrow> console_db" where
  "set_item k f = on_db (\<lambda>d. d\<lparr>menuItems := update_rows (\<lambda>i. mi_id i = k) f (menuItems d)\<rparr>)"

text \<open>A variant by its own identifier, with the item that has it.\<close>

definition find_variant :: "db \<Rightarrow> uuid \<Rightarrow> (uuid \<times> item_variant) option" where
  "find_variant d k = find (\<lambda>(i, v). iv_id v = k) (concat (map (\<lambda>i. map (Pair (mi_id i)) (mi_variants i)) (menuItems d)))"

section \<open>Prices\<close>

definition price_scope :: "uuid \<Rightarrow> uuid \<Rightarrow> uuid option \<Rightarrow> item_price \<Rightarrow> bool" where
  "price_scope tenantId itemId variantId p \<longleftrightarrow> ip_tenantId p = tenantId \<and> ip_itemId p = itemId \<and> ip_variantId p = variantId"

definition price_channels :: "uuid \<Rightarrow> uuid \<Rightarrow> price_input \<Rightarrow> db \<Rightarrow> price_channel option list" where
  "price_channels tenantId itemId input d =
    (case px_channel input of
       Some c \<Rightarrow> [Some c]
     | None \<Rightarrow> None # map Some (first_of_each (List.map_filter ip_channel
         (filter (\<lambda>p. price_scope tenantId itemId (px_variantId input) p \<and> ip_outletId p = px_outletId input) (itemPrices d)))))"

definition new_price :: "env \<Rightarrow> uuid \<Rightarrow> uuid \<Rightarrow> price_input \<Rightarrow> price_channel option \<Rightarrow> uuid \<Rightarrow> item_price" where
  "new_price e tenantId itemId input channel i =
     \<lparr>ip_id = i, ip_tenantId = tenantId, ip_itemId = itemId, ip_variantId = px_variantId input, ip_outletId = px_outletId input, ip_channel = channel,
      ip_priceMinor = px_priceMinor input, ip_currency = px_currency input, ip_effectiveAt = nullish (px_effectiveAt input) (now e), ip_createdAt = now e\<rparr>"

definition add_price :: "(uuid \<Rightarrow> item_price) \<Rightarrow> console_db \<Rightarrow> console_db" where
  "add_price row s = (case fresh s of (i, s1) \<Rightarrow> on_db (\<lambda>d. d\<lparr>itemPrices := itemPrices d @ [row i]\<rparr>) s1)"

definition insertPrice :: "setup_env \<Rightarrow> admin_principal \<Rightarrow> uuid \<Rightarrow> price_input \<Rightarrow> console_db \<Rightarrow> item_price \<times> console_db" where
  "insertPrice e owner itemId input s =
    (let channels = price_channels (ad_tenantId owner) itemId input (sd_db s);
         row = new_price (se_env e) (ad_tenantId owner) itemId input;
         s1 = foldl (\<lambda>s c. add_price (row c) s) s channels
     in (row (hd channels) (nextId (sd_db s)), write_audit e owner ''menu.item.price_changed'' (px_reason input) s1))"

definition copyBasePricesToVariant :: "setup_env \<Rightarrow> admin_principal \<Rightarrow> uuid \<Rightarrow> uuid \<Rightarrow> string \<Rightarrow> console_db \<Rightarrow> console_db" where
  "copyBasePricesToVariant e owner itemId variantId variantName s =
    (let rows = filter (price_scope (ad_tenantId owner) itemId None) (itemPrices (sd_db s));
         s1 = foldl (\<lambda>s p. add_price (\<lambda>i. p\<lparr>ip_id := i, ip_variantId := Some variantId\<rparr>) s) s rows
     in write_audit e owner ''menu.item.price_changed'' (''Existing price kept as the '' @ variantName @ '' portion'') s1)"

definition owned_item :: "db \<Rightarrow> uuid \<Rightarrow> uuid \<Rightarrow> menu_item result" where
  "owned_item d tenantId itemId =
    (case find_row mi_id itemId (menuItems d) of
       None \<Rightarrow> Inl (NotFound ''not_found'')
     | Some i \<Rightarrow> if mi_tenantId i \<noteq> tenantId then Inl (NotFound ''not_found'') else Inr i)"

definition check_price_variant :: "db \<Rightarrow> uuid \<Rightarrow> uuid \<Rightarrow> uuid option \<Rightarrow> unit result" where
  "check_price_variant d tenantId itemId variantId = (case variantId of
     None \<Rightarrow> Inr ()
   | Some k \<Rightarrow> (case find_variant d k of
       None \<Rightarrow> Inl (BadRequest ''validation_failed'')
     | Some (i, v) \<Rightarrow> if iv_tenantId v \<noteq> tenantId \<or> i \<noteq> itemId then Inl (BadRequest ''validation_failed'') else Inr ()))"

definition check_price_outlet :: "db \<Rightarrow> uuid \<Rightarrow> uuid option \<Rightarrow> unit result" where
  "check_price_outlet d tenantId outletId = (case outletId of
     None \<Rightarrow> Inr ()
   | Some k \<Rightarrow> (case find_row ou_id k (outlets d) of
       None \<Rightarrow> Inl (BadRequest ''validation_failed'')
     | Some x \<Rightarrow> if ou_tenantId x \<noteq> tenantId then Inl (BadRequest ''validation_failed'') else Inr ()))"

definition menuCurrencyForCountry :: "tax_country \<Rightarrow> string" where
  "menuCurrencyForCountry country = (if country = IN then ''INR'' else ''AUD'')"

definition createPrice :: "setup_env \<Rightarrow> admin_principal \<Rightarrow> uuid \<Rightarrow> create_price_dto \<Rightarrow> console_db \<Rightarrow> (item_price \<times> console_db) result" where
  "createPrice e owner itemId dto s =
    r_bind (owned_item (sd_db s) (ad_tenantId owner) itemId) (\<lambda>_.
      case find_row tn_id (ad_tenantId owner) (tenants (sd_db s)) of
        None \<Rightarrow> Inl (InternalError ''P2025'')
      | Some tenant \<Rightarrow>
          if dx_currency dto \<noteq> menuCurrencyForCountry (tn_country tenant) then Inl (BadRequest ''validation_failed'')
          else r_bind (check_price_variant (sd_db s) (ad_tenantId owner) itemId (dx_variantId dto)) (\<lambda>_.
               r_bind (check_price_outlet (sd_db s) (ad_tenantId owner) (dx_outletId dto)) (\<lambda>_.
                 Inr (insertPrice e owner itemId \<lparr>px_variantId = dx_variantId dto, px_outletId = dx_outletId dto, px_channel = dx_channel dto,
                   px_priceMinor = dx_priceMinor dto, px_currency = dx_currency dto, px_effectiveAt = dx_effectiveAt dto, px_reason = dx_reason dto\<rparr> s))))"

definition currentPrice :: "env \<Rightarrow> admin_principal \<Rightarrow> uuid \<Rightarrow> price_channel \<Rightarrow> uuid option \<Rightarrow> uuid option \<Rightarrow> db \<Rightarrow> current_price_view result" where
  "currentPrice e owner itemId channel variantId outletId d =
    r_bind (owned_item d (ad_tenantId owner) itemId) (\<lambda>_.
      case resolveCurrentPrice e d (ad_tenantId owner) itemId variantId channel outletId of
        None \<Rightarrow> Inl (NotFound ''no_current_price'')
      | Some p \<Rightarrow> Inr \<lparr>wv_itemId = itemId, wv_variantId = variantId, wv_channel = channel, wv_outletId = outletId, wv_priceMinor = ip_priceMinor p,
          wv_currency = ip_currency p, wv_effectiveAt = ip_effectiveAt p\<rparr>)"

section \<open>The view of an item\<close>

text \<open>
  \<open>currentPrices\<close> groups the tenant-wide rows by item and variant and picks from each group; a group is the rows of one key, in
  the order they were read.
\<close>

definition listed_price :: "env \<Rightarrow> uuid \<Rightarrow> uuid \<Rightarrow> uuid option \<Rightarrow> db \<Rightarrow> item_price option" where
  "listed_price e tenantId itemId variantId d =
     pickCurrentPrice (filter (\<lambda>p. price_scope tenantId itemId variantId p \<and> ip_outletId p = None \<and> ip_effectiveAt p \<le> now e) (itemPrices d))
       \<lparr>pt_channel = dine_in, pt_outletId = None\<rparr> (now e)"

definition group_view :: "db \<Rightarrow> modifier_group \<Rightarrow> modifier_group_view" where
  "group_view d g = \<lparr>gv_id = mg_id g, gv_name = mg_name g, gv_minSelections = mg_minSelections g, gv_maxSelections = mg_maxSelections g,
     gv_modifiers = List.map_filter (\<lambda>k. map_option (\<lambda>m. (mo_id m, mo_name m, mo_priceMinor m)) (find_row mo_id k (modifiers d))) (mg_modifiers g)\<rparr>"

definition toItemView :: "env \<Rightarrow> uuid \<Rightarrow> db \<Rightarrow> menu_item \<Rightarrow> item_view" where
  "toItemView e tenantId d item =
    (let base = listed_price e tenantId (mi_id item) None d
     in \<lparr>xv_id = mi_id item, xv_categoryId = mi_categoryId item, xv_name = mi_name item, xv_shortName = mi_shortName item,
         xv_photoUrl = mi_photoUrl item, xv_nameHindi = mi_nameHindi item, xv_vegMarker = mi_vegMarker item, xv_available = mi_available item,
         xv_stationId = mi_stationId item, xv_priceMinor = map_option ip_priceMinor base, xv_currency = map_option ip_currency base,
         xv_variants = map (\<lambda>v. \<lparr>vv_id = iv_id v, vv_name = iv_name v, vv_sortOrder = iv_sortOrder v,
             vv_priceMinor = map_option ip_priceMinor (listed_price e tenantId (mi_id item) (Some (iv_id v)) d)\<rparr>) (sort_key iv_sortOrder (mi_variants item)),
         xv_modifierGroups = map (group_view d) (mi_modifierGroups item),
         xv_allergens = map (\<lambda>a. (al_id a, al_name a)) (mi_allergens item)\<rparr>)"

definition loadItem :: "db \<Rightarrow> uuid \<Rightarrow> uuid \<Rightarrow> menu_item result" where
  "loadItem d tenantId itemId =
    (case find_row mi_id itemId (menuItems d) of
       None \<Rightarrow> Inl (NotFound ''not_found'')
     | Some i \<Rightarrow> if mi_tenantId i \<noteq> tenantId \<or> mi_archivedAt i \<noteq> None then Inl (NotFound ''not_found'') else Inr i)"

definition viewOf :: "env \<Rightarrow> uuid \<Rightarrow> uuid \<Rightarrow> db \<Rightarrow> item_view result" where
  "viewOf e tenantId itemId d = r_bind (loadItem d tenantId itemId) (\<lambda>item. Inr (toItemView e tenantId d item))"

definition listItems :: "env \<Rightarrow> admin_principal \<Rightarrow> uuid option \<Rightarrow> db \<Rightarrow> item_view list" where
  "listItems e owner categoryId d =
     map (toItemView e (ad_tenantId owner) d)
       (filter (\<lambda>i. mi_tenantId i = ad_tenantId owner \<and> mi_archivedAt i = None \<and> (case categoryId of None \<Rightarrow> True | Some k \<Rightarrow> mi_categoryId i = k))
         (menuItems d))"

definition getItem :: "env \<Rightarrow> admin_principal \<Rightarrow> uuid \<Rightarrow> db \<Rightarrow> item_view result" where
  "getItem e owner itemId d = viewOf e (ad_tenantId owner) itemId d"

definition with_view :: "setup_env \<Rightarrow> admin_principal \<Rightarrow> uuid \<Rightarrow> console_db \<Rightarrow> (item_view \<times> console_db) result" where
  "with_view e owner itemId s = r_bind (viewOf (se_env e) (ad_tenantId owner) itemId (sd_db s)) (\<lambda>v. Inr (v, s))"

section \<open>Variants\<close>

definition insert_variant :: "uuid \<Rightarrow> uuid \<Rightarrow> string \<Rightarrow> int \<Rightarrow> console_db \<Rightarrow> (uuid \<times> console_db) result" where
  "insert_variant tenantId itemId name sortOrder s =
    (case find_row mi_id itemId (menuItems (sd_db s)) of
       None \<Rightarrow> Inl (InternalError ''P2003'')
     | Some item \<Rightarrow>
         if list_ex (\<lambda>v. iv_name v = name) (mi_variants item) then Inl (InternalError ''P2002'')
         else (case fresh s of (i, s1) \<Rightarrow> Inr (i, set_item itemId (\<lambda>x. x\<lparr>mi_variants := mi_variants x @
            [\<lparr>iv_id = i, iv_tenantId = tenantId, iv_name = name, iv_sortOrder = sortOrder\<rparr>]\<rparr>) s1)))"

definition createVariant :: "setup_env \<Rightarrow> admin_principal \<Rightarrow> uuid \<Rightarrow> create_variant_dto \<Rightarrow> int \<Rightarrow> console_db \<Rightarrow> console_db result" where
  "createVariant e owner itemId v sortOrder s =
    r_bind (insert_variant (ad_tenantId owner) itemId (cx_name v) (nullish (cx_sortOrder v) sortOrder) s) (\<lambda>(i, s1).
      case cx_priceMinor v of
        None \<Rightarrow> Inr s1
      | Some minor \<Rightarrow>
          if nullish (cx_currency v) [] = [] then Inr s1
          else Inr (snd (insertPrice e owner itemId \<lparr>px_variantId = Some i, px_outletId = None, px_channel = None, px_priceMinor = minor,
            px_currency = nullish (cx_currency v) [], px_effectiveAt = None, px_reason = ''Price for new variant '' @ cx_name v\<rparr> s1)))"

definition as_conflict :: "'a result \<Rightarrow> 'a result" where
  "as_conflict r = (if r = Inl (InternalError ''P2002'') then Inl (Conflict ''conflict'') else r)"

text \<open>The portion an item was sold as before it had variants becomes the first of them.\<close>

definition keep_base_portion :: "setup_env \<Rightarrow> admin_principal \<Rightarrow> menu_item \<Rightarrow> create_variant_dto \<Rightarrow> console_db \<Rightarrow> (int \<times> console_db) result" where
  "keep_base_portion e owner existing dto s =
    (if mi_variants existing = [] \<and> count_rows (price_scope (ad_tenantId owner) (mi_id existing) None) (itemPrices (sd_db s)) > 0
     then let given = str_trim (nullish (cx_basePortionName dto) []);
              baseName = (if given = [] then ''Regular'' else given)
          in r_bind (insert_variant (ad_tenantId owner) (mi_id existing) baseName 0 s) (\<lambda>(i, s1).
               Inr (1, copyBasePricesToVariant e owner (mi_id existing) i baseName s1))
     else Inr (int (length (mi_variants existing)), s))"

definition addVariant :: "setup_env \<Rightarrow> admin_principal \<Rightarrow> uuid \<Rightarrow> create_variant_dto \<Rightarrow> console_db \<Rightarrow> (item_view \<times> console_db) result" where
  "addVariant e owner itemId dto s = as_conflict
    (r_bind (loadItem (sd_db s) (ad_tenantId owner) itemId) (\<lambda>existing.
     r_bind (keep_base_portion e owner existing dto s) (\<lambda>(sortOrder, s1).
     r_bind (createVariant e owner itemId dto sortOrder s1) (\<lambda>s2. with_view e owner itemId s2))))"

text \<open>
  Deleting a variant: an option of a combo that names it forbids it, and the price rows, order lines and cart lines that name it
  have the reference set to null (\<open>ON DELETE SET NULL\<close> of the migrations).
\<close>

definition delete_variant :: "uuid \<Rightarrow> uuid \<Rightarrow> console_db \<Rightarrow> console_db result" where
  "delete_variant itemId k s =
    (if list_ex (\<lambda>c. list_ex (\<lambda>sl. list_ex (\<lambda>opt. co_variantId opt = Some k) (cs_options sl)) (cb_slots c)) (combos (sd_db s))
     then Inl (InternalError ''P2003'')
     else Inr (on_db (\<lambda>d. d\<lparr>
       menuItems := update_rows (\<lambda>i. mi_id i = itemId) (\<lambda>i. i\<lparr>mi_variants := filter (\<lambda>v. iv_id v \<noteq> k) (mi_variants i)\<rparr>) (menuItems d),
       itemPrices := update_rows (\<lambda>p. ip_variantId p = Some k) (\<lambda>p. p\<lparr>ip_variantId := None\<rparr>) (itemPrices d),
       orderLines := update_rows (\<lambda>l. ol_variantId l = Some k) (\<lambda>l. l\<lparr>ol_variantId := None\<rparr>) (orderLines d),
       cartLines := update_rows (\<lambda>l. ca_variantId l = Some k) (\<lambda>l. l\<lparr>ca_variantId := None\<rparr>) (cartLines d)\<rparr>) s))"

definition removeVariant :: "setup_env \<Rightarrow> admin_principal \<Rightarrow> uuid \<Rightarrow> uuid \<Rightarrow> console_db \<Rightarrow> (item_view \<times> console_db) result" where
  "removeVariant e owner itemId variantId s =
    r_bind (loadItem (sd_db s) (ad_tenantId owner) itemId) (\<lambda>_.
      case find_variant (sd_db s) variantId of
        None \<Rightarrow> Inl (NotFound ''not_found'')
      | Some (i, v) \<Rightarrow>
          if iv_tenantId v \<noteq> ad_tenantId owner \<or> i \<noteq> itemId then Inl (NotFound ''not_found'')
          else r_bind (delete_variant itemId variantId s) (\<lambda>s1. with_view e owner itemId s1))"

section \<open>Items\<close>

fun assertOwnedByTenant :: "(uuid \<Rightarrow> uuid option) \<Rightarrow> uuid \<Rightarrow> uuid list \<Rightarrow> unit result" where
  "assertOwnedByTenant tenant_of tenantId [] = Inr ()"
| "assertOwnedByTenant tenant_of tenantId (i # is) =
    (if tenant_of i \<noteq> Some tenantId then Inl (BadRequest ''validation_failed'') else assertOwnedByTenant tenant_of tenantId is)"

definition group_tenant :: "db \<Rightarrow> uuid \<Rightarrow> uuid option" where
  "group_tenant d k = map_option mg_tenantId (find_row mg_id k (modifierGroups d))"

definition allergen_tenant :: "db \<Rightarrow> uuid \<Rightarrow> uuid option" where
  "allergen_tenant d k = map_option al_tenantId (find_row al_id k (allergens d))"

definition station_tenant :: "db \<Rightarrow> uuid \<Rightarrow> uuid option" where
  "station_tenant d k = map_option st_tenantId (find_row st_id k (stations d))"

definition check_category :: "uuid \<Rightarrow> uuid \<Rightarrow> console_db \<Rightarrow> unit result" where
  "check_category tenantId k s =
    (case find_row mc_id k (categories s) of
       None \<Rightarrow> Inl (BadRequest ''validation_failed'')
     | Some c \<Rightarrow> if mc_tenantId c \<noteq> tenantId then Inl (BadRequest ''validation_failed'') else Inr ())"

definition live_item_named :: "db \<Rightarrow> uuid \<Rightarrow> uuid \<Rightarrow> string \<Rightarrow> uuid \<Rightarrow> bool" where
  "live_item_named d tenantId categoryId name other \<longleftrightarrow> list_ex (\<lambda>i. mi_tenantId i = tenantId \<and> mi_categoryId i = categoryId \<and> mi_name i = name \<and>
     mi_archivedAt i = None \<and> mi_id i \<noteq> other) (menuItems d)"

fun create_variants :: "setup_env \<Rightarrow> admin_principal \<Rightarrow> uuid \<Rightarrow> int \<Rightarrow> create_variant_dto list \<Rightarrow> console_db \<Rightarrow> console_db result" where
  "create_variants e owner itemId n [] s = Inr s"
| "create_variants e owner itemId n (v # vs) s =
    r_bind (createVariant e owner itemId v n s) (create_variants e owner itemId (n + 1) vs)"

text \<open>A group or allergen named twice violates the unique index of its link.\<close>

definition link_groups :: "uuid \<Rightarrow> uuid list \<Rightarrow> console_db \<Rightarrow> console_db result" where
  "link_groups itemId groupIds s =
    (if \<not> distinct groupIds then Inl (InternalError ''P2002'')
     else Inr (set_item itemId (\<lambda>i. i\<lparr>mi_modifierGroups := List.map_filter (\<lambda>k. find_row mg_id k (modifierGroups (sd_db s))) groupIds\<rparr>) s))"

definition link_allergens :: "uuid \<Rightarrow> uuid list \<Rightarrow> console_db \<Rightarrow> console_db result" where
  "link_allergens itemId allergenIds s =
    (if \<not> distinct allergenIds then Inl (InternalError ''P2002'')
     else Inr (set_item itemId (\<lambda>i. i\<lparr>mi_allergens := List.map_filter (\<lambda>k. find_row al_id k (allergens (sd_db s))) allergenIds\<rparr>) s))"

definition createItem :: "setup_env \<Rightarrow> admin_principal \<Rightarrow> create_item_dto \<Rightarrow> console_db \<Rightarrow> (item_view \<times> console_db) result" where
  "createItem e owner dto s = as_conflict
    (let t = ad_tenantId owner; d = sd_db s in
     r_bind (check_category t (nx_categoryId dto) s) (\<lambda>_.
     r_bind (assertOwnedByTenant (group_tenant d) t (nx_modifierGroupIds dto)) (\<lambda>_.
     r_bind (assertOwnedByTenant (allergen_tenant d) t (nx_allergenIds dto)) (\<lambda>_.
     r_bind (assertOwnedByTenant (station_tenant d) t (case nx_stationId dto of None \<Rightarrow> [] | Some k \<Rightarrow> [k])) (\<lambda>_.
       if live_item_named d t (nx_categoryId dto) (nx_name dto) (nextId d) then Inl (InternalError ''P2002'')
       else let (i, s1) = fresh s;
                item = \<lparr>mi_id = i, mi_tenantId = t, mi_categoryId = nx_categoryId dto, mi_name = nx_name dto, mi_shortName = nx_shortName dto,
                  mi_photoUrl = nx_photoUrl dto, mi_nameHindi = nx_nameHindi dto, mi_vegMarker = nx_vegMarker dto, mi_available = True,
                  mi_archivedAt = None, mi_stationId = nx_stationId dto, mi_variants = [], mi_modifierGroups = [], mi_allergens = []\<rparr>;
                s2 = on_db (\<lambda>d. d\<lparr>menuItems := menuItems d @ [item]\<rparr>) s1
            in r_bind (create_variants e owner i 0 (nx_variants dto) s2) (\<lambda>s3.
               r_bind (link_groups i (nx_modifierGroupIds dto) s3) (\<lambda>s4.
               r_bind (link_allergens i (nx_allergenIds dto) s4) (\<lambda>s5. with_view e owner i s5))))))))"

definition edit_item :: "update_item_dto \<Rightarrow> menu_item \<Rightarrow> menu_item" where
  "edit_item dto i = i\<lparr>mi_name := nullish (ux_name dto) (mi_name i), mi_shortName := nullish (ux_shortName dto) (mi_shortName i),
     mi_categoryId := nullish (ux_categoryId dto) (mi_categoryId i), mi_photoUrl := nullish (ux_photoUrl dto) (mi_photoUrl i),
     mi_nameHindi := nullish (ux_nameHindi dto) (mi_nameHindi i), mi_vegMarker := nullish (ux_vegMarker dto) (mi_vegMarker i)\<rparr>"

definition updateItem :: "setup_env \<Rightarrow> admin_principal \<Rightarrow> uuid \<Rightarrow> update_item_dto \<Rightarrow> console_db \<Rightarrow> (item_view \<times> console_db) result" where
  "updateItem e owner itemId dto s =
    r_bind (loadItem (sd_db s) (ad_tenantId owner) itemId) (\<lambda>existing.
    r_bind (case ux_categoryId dto of None \<Rightarrow> Inr () | Some k \<Rightarrow> check_category (ad_tenantId owner) k s) (\<lambda>_.
      let row = edit_item dto existing in
      if live_item_named (sd_db s) (ad_tenantId owner) (mi_categoryId row) (mi_name row) itemId then Inl (InternalError ''P2002'')
      else with_view e owner itemId (set_item itemId (edit_item dto) s)))"

definition archiveItem :: "setup_env \<Rightarrow> admin_principal \<Rightarrow> uuid \<Rightarrow> console_db \<Rightarrow> console_db result" where
  "archiveItem e owner itemId s =
    r_bind (loadItem (sd_db s) (ad_tenantId owner) itemId) (\<lambda>item.
      Inr (write_audit e owner ''menu.item_archived'' (''Deleted menu item '' @ mi_name item)
        (set_item itemId (\<lambda>i. i\<lparr>mi_archivedAt := Some (now (se_env e))\<rparr>) s)))"

definition setAvailability :: "setup_env \<Rightarrow> admin_principal \<Rightarrow> uuid \<Rightarrow> bool \<Rightarrow> console_db \<Rightarrow> (item_view \<times> console_db) result" where
  "setAvailability e owner itemId available s =
    r_bind (loadItem (sd_db s) (ad_tenantId owner) itemId) (\<lambda>_.
      with_view e owner itemId (set_item itemId (\<lambda>i. i\<lparr>mi_available := available\<rparr>) s))"

definition setStation :: "setup_env \<Rightarrow> admin_principal \<Rightarrow> uuid \<Rightarrow> uuid option \<Rightarrow> console_db \<Rightarrow> (item_view \<times> console_db) result" where
  "setStation e owner itemId stationId s =
    r_bind (loadItem (sd_db s) (ad_tenantId owner) itemId) (\<lambda>_.
    r_bind (assertOwnedByTenant (station_tenant (sd_db s)) (ad_tenantId owner) (case stationId of None \<Rightarrow> [] | Some k \<Rightarrow> [k])) (\<lambda>_.
      with_view e owner itemId (set_item itemId (\<lambda>i. i\<lparr>mi_stationId := stationId\<rparr>) s)))"

definition replaceModifierGroups :: "setup_env \<Rightarrow> admin_principal \<Rightarrow> uuid \<Rightarrow> uuid list \<Rightarrow> console_db \<Rightarrow> (item_view \<times> console_db) result" where
  "replaceModifierGroups e owner itemId groupIds s =
    r_bind (loadItem (sd_db s) (ad_tenantId owner) itemId) (\<lambda>_.
    r_bind (assertOwnedByTenant (group_tenant (sd_db s)) (ad_tenantId owner) groupIds) (\<lambda>_.
    r_bind (link_groups itemId groupIds s) (\<lambda>s1. with_view e owner itemId s1)))"

definition replaceAllergens :: "setup_env \<Rightarrow> admin_principal \<Rightarrow> uuid \<Rightarrow> uuid list \<Rightarrow> console_db \<Rightarrow> (item_view \<times> console_db) result" where
  "replaceAllergens e owner itemId allergenIds s =
    r_bind (loadItem (sd_db s) (ad_tenantId owner) itemId) (\<lambda>_.
    r_bind (assertOwnedByTenant (allergen_tenant (sd_db s)) (ad_tenantId owner) allergenIds) (\<lambda>_.
    r_bind (link_allergens itemId allergenIds s) (\<lambda>s1. with_view e owner itemId s1)))"

definition setOutletAvailability ::
  "admin_principal \<Rightarrow> uuid \<Rightarrow> uuid \<Rightarrow> bool \<Rightarrow> console_db \<Rightarrow> ((uuid \<times> uuid \<times> bool) \<times> console_db) result" where
  "setOutletAvailability owner itemId outletId available s =
    r_bind (loadItem (sd_db s) (ad_tenantId owner) itemId) (\<lambda>_.
    r_bind (check_price_outlet (sd_db s) (ad_tenantId owner) (Some outletId)) (\<lambda>_.
      Inr ((itemId, outletId, available), on_db (\<lambda>d. d\<lparr>itemOverrides :=
        (if list_ex (\<lambda>ov. io_itemId ov = itemId \<and> io_outletId ov = outletId) (itemOverrides d)
         then update_rows (\<lambda>ov. io_itemId ov = itemId \<and> io_outletId ov = outletId) (\<lambda>ov. ov\<lparr>io_available := available\<rparr>) (itemOverrides d)
         else itemOverrides d @ [\<lparr>io_tenantId = ad_tenantId owner, io_itemId = itemId, io_outletId = outletId, io_available = available\<rparr>])\<rparr>) s)))"

definition clearOutletAvailability :: "admin_principal \<Rightarrow> uuid \<Rightarrow> uuid \<Rightarrow> console_db \<Rightarrow> console_db result" where
  "clearOutletAvailability owner itemId outletId s =
    r_bind (loadItem (sd_db s) (ad_tenantId owner) itemId) (\<lambda>_.
      Inr (on_db (\<lambda>d. d\<lparr>itemOverrides := filter (\<lambda>ov. \<not> (io_itemId ov = itemId \<and> io_outletId ov = outletId)) (itemOverrides d)\<rparr>) s))"

section \<open>A new price takes effect\<close>

lemma add_price_db [simp]:
  "itemPrices (sd_db (add_price row s)) = itemPrices (sd_db s) @ [row (nextId (sd_db s))]" "nextId (sd_db (add_price row s)) = Suc (nextId (sd_db s))"
  "menuItems (sd_db (add_price row s)) = menuItems (sd_db s)"
  by (simp_all add: add_price_def fresh_def take_id_def on_db_def)

lemma add_prices:
  "itemPrices (sd_db (foldl (\<lambda>s c. add_price (row c) s) s cs)) =
     itemPrices (sd_db s) @ map2 row cs [nextId (sd_db s) ..< nextId (sd_db s) + length cs]"
  "menuItems (sd_db (foldl (\<lambda>s c. add_price (row c) s) s cs)) = menuItems (sd_db s)"
  "nextId (sd_db (foldl (\<lambda>s c. add_price (row c) s) s cs)) = nextId (sd_db s) + length cs"
  by (induction cs arbitrary: s) (simp_all add: upt_conv_Cons del: upt_Suc)

lemma write_audit_prices [simp]:
  "itemPrices (sd_db (write_audit e owner action reason s)) = itemPrices (sd_db s)"
  "menuItems (sd_db (write_audit e owner action reason s)) = menuItems (sd_db s)"
  "nextId (sd_db (write_audit e owner action reason s)) = nextId (sd_db s)"
  by (simp_all add: write_audit_def)

lemma insertPrice_rows:
  assumes "insertPrice e owner itemId input s = (row, s')"
  shows "\<exists>new. itemPrices (sd_db s') = itemPrices (sd_db s) @ new \<and>
    (\<forall>c \<in> set (price_channels (ad_tenantId owner) itemId input (sd_db s)). \<exists>i. new_price (se_env e) (ad_tenantId owner) itemId input c i \<in> set new) \<and>
    (\<forall>p \<in> set new. \<exists>c i. p = new_price (se_env e) (ad_tenantId owner) itemId input c i)"
proof -
  let ?cs = "price_channels (ad_tenantId owner) itemId input (sd_db s)" and ?n = "nextId (sd_db s)"
  let ?new = "map2 (new_price (se_env e) (ad_tenantId owner) itemId input) ?cs [?n ..< ?n + length ?cs]"
  have "itemPrices (sd_db s') = itemPrices (sd_db s) @ ?new" using assms by (auto simp: insertPrice_def Let_def add_prices)
  moreover have "\<exists>i. new_price (se_env e) (ad_tenantId owner) itemId input c i \<in> set ?new" if m: "c \<in> set ?cs" for c
  proof -
    have len: "length ?cs = length [?n ..< ?n + length ?cs]" by simp
    obtain i where "(c, i) \<in> set (zip ?cs [?n ..< ?n + length ?cs])" by (rule in_set_impl_in_set_zip1 [OF len m])
    then show ?thesis by force
  qed
  moreover have "\<exists>c i. p = new_price (se_env e) (ad_tenantId owner) itemId input c i" if "p \<in> set ?new" for p
    using that by (auto simp: in_set_zip)
  ultimately show ?thesis by blast
qed





section \<open>The first variant keeps the price\<close>

text \<open>Rows that price alike: everything \<open>pickCurrentPrice\<close> and the till read of them.\<close>

definition prices_alike :: "item_price \<Rightarrow> item_price \<Rightarrow> bool" where
  "prices_alike p q \<longleftrightarrow> ip_outletId p = ip_outletId q \<and> ip_channel p = ip_channel q \<and> ip_effectiveAt p = ip_effectiveAt q \<and>
     ip_createdAt p = ip_createdAt q \<and> ip_priceMinor p = ip_priceMinor q \<and> ip_currency p = ip_currency q"

lemma pick_loop_alike:
  assumes "list_all2 prices_alike ps qs" and "rel_option prices_alike (fst a) (fst b)" and "snd a = snd b"
  shows "rel_option prices_alike (fst (foldl (pick_step target asOf) a ps)) (fst (foldl (pick_step target asOf) b qs))"
  using assms
proof (induction ps qs arbitrary: a b rule: list_all2_induct)
  case (Cons p ps q qs)
  obtain x n where a: "a = (x, n)" by (cases a)
  obtain y m where b: "b = (y, m)" by (cases b)
  have same: "price_eligible target asOf p = price_eligible target asOf q" "price_score p = price_score q" "ip_effectiveAt p = ip_effectiveAt q" "ip_createdAt p = ip_createdAt q"
    using Cons.hyps(1) by (simp_all add: prices_alike_def price_eligible_def price_score_def)
  have "m = n" "rel_option prices_alike x y" using Cons.prems by (simp_all add: a b)
  then have "rel_option prices_alike (fst (pick_step target asOf a p)) (fst (pick_step target asOf b q)) \<and> snd (pick_step target asOf a p) = snd (pick_step target asOf b q)"
    using Cons.hyps(1) same by (cases x; cases y) (auto simp: a b Let_def prices_alike_def)
  then show ?case using Cons.IH by simp
qed simp

lemma pick_alike: "list_all2 prices_alike ps qs \<Longrightarrow> rel_option prices_alike (pickCurrentPrice ps target asOf) (pickCurrentPrice qs target asOf)"
  unfolding pickCurrentPrice_def by (rule pick_loop_alike) simp_all

lemma list_all2_filter_alike:
  "list_all2 R xs ys \<Longrightarrow> (\<And>x y. x \<in> set xs \<Longrightarrow> y \<in> set ys \<Longrightarrow> R x y \<Longrightarrow> P x = Q y) \<Longrightarrow> list_all2 R (filter P xs) (filter Q ys)"
  by (induction rule: list_all2_induct) auto

lemma list_all2_map2: "length xs = length is \<Longrightarrow> (\<And>x i. R x (f x i)) \<Longrightarrow> list_all2 R xs (map2 f xs is)"
  by (induction xs "is" rule: list_induct2) auto

lemma set_item_db [simp]:
  "itemPrices (sd_db (set_item k f s)) = itemPrices (sd_db s)" "nextId (sd_db (set_item k f s)) = nextId (sd_db s)"
  "menuItems (sd_db (set_item k f s)) = update_rows (\<lambda>i. mi_id i = k) f (menuItems (sd_db s))"
  by (simp_all add: set_item_def on_db_def)

lemma as_conflict_Inr [simp]: "as_conflict r = Inr x \<longleftrightarrow> r = Inr x"
  by (auto simp: as_conflict_def)

lemma with_view_Inr: "with_view e owner itemId s = Inr (v, s') \<Longrightarrow> s' = s"
  by (auto simp: with_view_def result_simps)

lemma insert_variant_Inr:
  assumes "insert_variant t itemId name so s = Inr (k, s1)"
  shows "k = nextId (sd_db s) \<and> itemPrices (sd_db s1) = itemPrices (sd_db s) \<and> nextId (sd_db s1) = Suc (nextId (sd_db s)) \<and>
    menuItems (sd_db s1) = update_rows (\<lambda>i. mi_id i = itemId)
      (\<lambda>x. x\<lparr>mi_variants := mi_variants x @ [\<lparr>iv_id = k, iv_tenantId = t, iv_name = name, iv_sortOrder = so\<rparr>]\<rparr>) (menuItems (sd_db s))"
  using assms by (auto simp: insert_variant_def fresh_def take_id_def split: option.splits if_splits)

lemma createVariant_rows:
  assumes "createVariant e owner itemId v so s = Inr s'"
  shows "\<exists>new. itemPrices (sd_db s') = itemPrices (sd_db s) @ new \<and> (\<forall>p \<in> set new. ip_variantId p = Some (nextId (sd_db s))) \<and>
    menuItems (sd_db s') = update_rows (\<lambda>i. mi_id i = itemId) (\<lambda>x. x\<lparr>mi_variants := mi_variants x @
      [\<lparr>iv_id = nextId (sd_db s), iv_tenantId = ad_tenantId owner, iv_name = cx_name v, iv_sortOrder = nullish (cx_sortOrder v) so\<rparr>]\<rparr>) (menuItems (sd_db s))"
proof -
  obtain k s1 where k0: "insert_variant (ad_tenantId owner) itemId (cx_name v) (nullish (cx_sortOrder v) so) s = Inr (k, s1)"
    using assms by (auto simp: createVariant_def result_simps)
  note ins = insert_variant_Inr [OF k0]
  have k: "s' = s1 \<or> (\<exists>input. px_variantId input = Some k \<and> s' = snd (insertPrice e owner itemId input s1))"
  proof (cases "cx_priceMinor v")
    case None
    then show ?thesis using assms k0 by (simp add: createVariant_def)
  next
    case (Some minor)
    let ?input = "\<lparr>px_variantId = Some k, px_outletId = None, px_channel = None, px_priceMinor = minor, px_currency = nullish (cx_currency v) [],
      px_effectiveAt = None, px_reason = ''Price for new variant '' @ cx_name v\<rparr>"
    have "s' = s1 \<or> s' = snd (insertPrice e owner itemId ?input s1)"
      using assms k0 Some by (cases "nullish (cx_currency v) [] = []") (simp_all add: createVariant_def)
    moreover have "px_variantId ?input = Some k" by simp
    ultimately show ?thesis by blast
  qed
  show ?thesis
  proof (cases "s' = s1")
    case True
    with ins show ?thesis by simp
  next
    case False
    then obtain input row where i: "px_variantId input = Some k" "insertPrice e owner itemId input s1 = (row, s')" using k by (metis prod.collapse)
    have "menuItems (sd_db s') = menuItems (sd_db s1)" using i(2) by (auto simp: insertPrice_def Let_def add_prices)
    moreover obtain new where "itemPrices (sd_db s') = itemPrices (sd_db s1) @ new"
      "\<forall>p \<in> set new. \<exists>c j. p = new_price (se_env e) (ad_tenantId owner) itemId input c j"
      using insertPrice_rows [OF i(2)] by blast
    ultimately show ?thesis using ins i(1) by (intro exI [of _ new]) (force simp: new_price_def)
  qed
qed

text \<open>
  C35: Giving an item its first variant changes no price: the portion it was sold as becomes a variant of its own that costs, on
  every channel, at every outlet and at any later moment, what the item cost, scheduled changes included.
\<close>

theorem addVariant_keeps_price:
  assumes "addVariant e owner itemId dto s = Inr (v, s')" and item: "find_row mi_id itemId (menuItems (sd_db s)) = Some item"
    and "mi_variants item = []" and "\<exists>p \<in> set (itemPrices (sd_db s)). price_scope (ad_tenantId owner) itemId None p"
    and ids: "\<forall>p \<in> set (itemPrices (sd_db s)). \<forall>k. ip_variantId p = Some k \<longrightarrow> k < nextId (sd_db s)"
  shows "\<exists>base added item'. find_row mi_id itemId (menuItems (sd_db s')) = Some item' \<and> mi_variants item' = [base, added] \<and>
    (\<forall>te channel out. rel_option prices_alike (resolveCurrentPrice te (sd_db s) (ad_tenantId owner) itemId None channel out)
       (resolveCurrentPrice te (sd_db s') (ad_tenantId owner) itemId (Some (iv_id base)) channel out)) \<and>
    prefix (itemPrices (sd_db s)) (itemPrices (sd_db s'))"
proof -
  let ?t = "ad_tenantId owner" and ?k = "nextId (sd_db s)"
  let ?base = "filter (price_scope ?t itemId None) (itemPrices (sd_db s))"
  have id: "mi_id item = itemId" using find_row_Some [OF item] by simp
  have some: "count_rows (price_scope ?t itemId None) (itemPrices (sd_db s)) > 0"
    using assms(4) by (auto simp: count_rows_def length_greater_0_conv filter_empty_conv)
  obtain s1 where s1: "keep_base_portion e owner item dto s = Inr (1, s1)" "createVariant e owner itemId dto 1 s1 = Inr s'"
  proof -
    from assms(1) obtain so s1 where "keep_base_portion e owner item dto s = Inr (so, s1)" "createVariant e owner itemId dto so s1 = Inr s'"
      using item by (auto simp: addVariant_def result_simps loadItem_def dest: with_view_Inr split: if_splits)
    moreover from this have "so = 1" using assms(3) some by (auto simp: keep_base_portion_def id Let_def result_simps)
    ultimately show thesis using that by simp
  qed
  define name where "name = (let given = str_trim (nullish (cx_basePortionName dto) []) in if given = [] then ''Regular'' else given)"
  have "r_bind (insert_variant ?t itemId name 0 s) (\<lambda>(i, s1). Inr (1 :: int, copyBasePricesToVariant e owner itemId i name s1)) = Inr (1, s1)"
    using s1(1) assms(3) some by (simp add: keep_base_portion_def id name_def Let_def)
  then obtain k0 s0 where "insert_variant ?t itemId name 0 s = Inr (k0, s0)" "s1 = copyBasePricesToVariant e owner itemId k0 name s0"
    by (auto simp: result_simps)
  moreover from this have "k0 = ?k" using insert_variant_Inr by blast
  ultimately have s0: "insert_variant ?t itemId name 0 s = Inr (?k, s0)" "s1 = copyBasePricesToVariant e owner itemId ?k name s0" by simp_all
  note ins = insert_variant_Inr [OF s0(1)]
  let ?copies = "map2 (\<lambda>p i. p\<lparr>ip_id := i, ip_variantId := Some ?k\<rparr>) ?base [Suc ?k ..< Suc ?k + length ?base]"
  have c: "itemPrices (sd_db s1) = itemPrices (sd_db s) @ ?copies" "menuItems (sd_db s1) = menuItems (sd_db s0)" "nextId (sd_db s1) = Suc ?k + length ?base"
    unfolding s0(2) using ins by (simp_all add: copyBasePricesToVariant_def Let_def add_prices del: upt_Suc)
  obtain new where new: "itemPrices (sd_db s') = itemPrices (sd_db s1) @ new" "\<forall>p \<in> set new. ip_variantId p = Some (nextId (sd_db s1))"
    "menuItems (sd_db s') = update_rows (\<lambda>i. mi_id i = itemId) (\<lambda>x. x\<lparr>mi_variants := mi_variants x @
      [\<lparr>iv_id = nextId (sd_db s1), iv_tenantId = ?t, iv_name = cx_name dto, iv_sortOrder = nullish (cx_sortOrder dto) 1\<rparr>]\<rparr>) (menuItems (sd_db s1))"
    using createVariant_rows [OF s1(2)] by blast
  let ?b = "\<lparr>iv_id = ?k, iv_tenantId = ?t, iv_name = name, iv_sortOrder = 0\<rparr>"
  let ?a = "\<lparr>iv_id = nextId (sd_db s1), iv_tenantId = ?t, iv_name = cx_name dto, iv_sortOrder = nullish (cx_sortOrder dto) 1\<rparr>"
  have row: "find_row mi_id itemId (menuItems (sd_db s')) = Some (item\<lparr>mi_variants := [?b, ?a]\<rparr>)"
    unfolding new(3) c(2) using ins item assms(3) id by (simp add: find_row_update)
  have "rel_option prices_alike (resolveCurrentPrice te (sd_db s) ?t itemId None channel out) (resolveCurrentPrice te (sd_db s') ?t itemId (Some ?k) channel out)"
    for te channel out
  proof -
    let ?P = "\<lambda>v p. ip_tenantId p = ?t \<and> ip_itemId p = itemId \<and> ip_variantId p = v \<and> ip_effectiveAt p \<le> now te"
    have "filter (?P (Some ?k)) (itemPrices (sd_db s)) = []" using ids by (force simp: filter_empty_conv)
    moreover have "filter (?P (Some ?k)) new = []" using new(2) c(3) by (auto simp: filter_empty_conv)
    ultimately have after: "filter (?P (Some ?k)) (itemPrices (sd_db s')) = filter (?P (Some ?k)) ?copies" by (simp add: new(1) c(1) del: upt_Suc)
    have before: "filter (?P None) (itemPrices (sd_db s)) = filter (\<lambda>p. ip_effectiveAt p \<le> now te) ?base"
      by (auto simp: price_scope_def intro: filter_cong)
    have "list_all2 prices_alike ?base ?copies" by (rule list_all2_map2) (simp_all add: prices_alike_def del: upt_Suc)
    moreover have "ip_tenantId q = ?t \<and> ip_itemId q = itemId \<and> ip_variantId q = Some ?k" if "q \<in> set ?copies" for q
      using that by (auto simp: price_scope_def simp del: upt_Suc dest: set_zip_leftD)
    ultimately have "list_all2 prices_alike (filter (\<lambda>p. ip_effectiveAt p \<le> now te) ?base) (filter (?P (Some ?k)) ?copies)"
      by (intro list_all2_filter_alike) (auto simp: prices_alike_def simp del: upt_Suc)
    then show ?thesis unfolding resolveCurrentPrice_def after before by (rule pick_alike)
  qed
  with row show ?thesis by (intro exI [of _ ?b] exI [of _ ?a] exI [of _ "item\<lparr>mi_variants := [?b, ?a]\<rparr>"]) (simp add: new(1) c(1) del: upt_Suc)
qed

section \<open>Two gaps\<close>

text \<open>
  A deleted variant leaves its price rows behind, and their foreign key turns them into rows of the item itself: what the item
  costs without a variant is from then on chosen among its own prices and those of every variant it ever lost.
\<close>

lemma removeVariant_prices:
  assumes "removeVariant e owner itemId k s = Inr (v, s')"
  shows "itemPrices (sd_db s') = update_rows (\<lambda>p. ip_variantId p = Some k) (\<lambda>p. p\<lparr>ip_variantId := None\<rparr>) (itemPrices (sd_db s))"
  using assms by (auto simp: removeVariant_def delete_variant_def on_db_def result_simps dest!: with_view_Inr split: option.splits if_splits)

section \<open>Instances\<close>

definition s_new_price :: create_price_dto where
  "s_new_price = \<lparr>dx_variantId = None, dx_channel = None, dx_outletId = None, dx_priceMinor = 25000, dx_currency = ''INR'', dx_effectiveAt = None,
     dx_reason = ''New season''\<rparr>"



definition s_large :: create_variant_dto where
  "s_large = \<lparr>cx_name = ''Large'', cx_sortOrder = None, cx_priceMinor = Some 40000, cx_currency = Some ''INR'', cx_basePortionName = None\<rparr>"

lemmas editor_eval = addVariant_def as_conflict_def loadItem_def keep_base_portion_def insert_variant_def createVariant_def insertPrice_def
  copyBasePricesToVariant_def with_view_def viewOf_def find_row_def fresh_def take_id_def on_db_def set_item_def write_audit_def add_price_def
  price_channels_def count_rows_def update_rows_def Let_def str_trim_def first_of_each_def List.map_filter_def

lemma variant_sample: "\<exists>v s'. addVariant s_setup_env s_owner 50 s_large s_console = Inr (v, s')"
  by (simp add: editor_eval price_scope_def s_large_def s_console_def s_owner_def s_setup_env_def sample_defs)

theorem addVariant_keeps_price_witness:
  "\<exists>v s' base added item'. addVariant s_setup_env s_owner 50 s_large s_console = Inr (v, s') \<and>
     find_row mi_id 50 (menuItems (sd_db s')) = Some item' \<and> mi_variants item' = [base, added] \<and>
     rel_option prices_alike (resolveCurrentPrice s_env s_db 1 50 None takeaway (Some 2)) (resolveCurrentPrice s_env (sd_db s') 1 50 (Some (iv_id base)) takeaway (Some 2)) \<and>
     resolveCurrentPrice s_env s_db 1 50 None takeaway (Some 2) \<noteq> None"
proof -
  obtain v s' where r: "addVariant s_setup_env s_owner 50 s_large s_console = Inr (v, s')" using variant_sample by blast
  obtain item where i: "find_row mi_id 50 (menuItems (sd_db s_console)) = Some item" "mi_variants item = []"
    by (simp add: find_row_def s_console_def sample_defs)
  have "\<exists>p \<in> set (itemPrices (sd_db s_console)). price_scope (ad_tenantId s_owner) 50 None p"
    "\<forall>p \<in> set (itemPrices (sd_db s_console)). \<forall>k. ip_variantId p = Some k \<longrightarrow> k < nextId (sd_db s_console)"
    by (simp_all add: price_scope_def s_console_def s_owner_def sample_defs)
  from addVariant_keeps_price [OF r i this] obtain base added item' where x: "find_row mi_id 50 (menuItems (sd_db s')) = Some item'" "mi_variants item' = [base, added]"
    "rel_option prices_alike (resolveCurrentPrice s_env (sd_db s_console) (ad_tenantId s_owner) 50 None takeaway (Some 2))
       (resolveCurrentPrice s_env (sd_db s') (ad_tenantId s_owner) 50 (Some (iv_id base)) takeaway (Some 2))" by blast
  have "resolveCurrentPrice s_env s_db 1 50 None takeaway (Some 2) \<noteq> None"
    by (simp add: resolveCurrentPrice_def pickCurrentPrice_def price_eligible_def price_score_def Let_def sample_defs)
  with r x show ?thesis by (auto simp: s_console_def s_owner_def)
qed

text \<open>The dish with a second portion at 320.00: once that portion is deleted, the dish itself costs 320.00 instead of 200.00.\<close>

definition s_two_portions :: console_db where
  "s_two_portions = s_console\<lparr>sd_db := s_db\<lparr>
     menuItems := [(s_item 50 ''Dal'' None)\<lparr>mi_variants := [\<lparr>iv_id = 55, iv_tenantId = 1, iv_name = ''Family'', iv_sortOrder = 0\<rparr>]\<rparr>],
     itemPrices := [s_price 70 50 20000, (s_price 71 50 32000)\<lparr>ip_variantId := Some 55, ip_effectiveAt := 10\<rparr>]\<rparr>\<rparr>"

lemma deleted_variant_reprices_item:
  "map_option ip_priceMinor (resolveCurrentPrice s_env (sd_db s_two_portions) 1 50 None dine_in None) = Some 20000 \<and>
   (\<exists>v s'. removeVariant s_setup_env s_owner 50 55 s_two_portions = Inr (v, s') \<and>
      map_option ip_priceMinor (resolveCurrentPrice s_env (sd_db s') 1 50 None dine_in None) = Some 32000)"
  by (simp add: s_two_portions_def removeVariant_def loadItem_def find_variant_def delete_variant_def on_db_def with_view_def viewOf_def find_row_def
      update_rows_def resolveCurrentPrice_def pickCurrentPrice_def price_eligible_def price_score_def s_console_def s_owner_def Let_def sample_defs)

text \<open>A variant may be created at a price in a foreign currency, which \<open>createPrice\<close> refuses.\<close>

lemma variant_in_foreign_currency:
  "(\<exists>v s'. addVariant s_setup_env s_owner 50 (s_large\<lparr>cx_currency := Some ''AUD''\<rparr>) s_console = Inr (v, s') \<and> last (map ip_currency (itemPrices (sd_db s'))) = ''AUD'') \<and>
   createPrice s_setup_env s_owner 50 (s_new_price\<lparr>dx_currency := ''AUD''\<rparr>) s_console = Inl (BadRequest ''validation_failed'')"
  by (simp add: editor_eval createPrice_def owned_item_def menuCurrencyForCountry_def price_scope_def new_price_def s_new_price_def s_large_def s_console_def
      s_owner_def s_setup_env_def sample_defs)

end
