(* ===== verification/Spec2Isabelle.thy ===== *)
theory Spec2Isabelle
  imports Reports TenantSlug Progress Fleet FloorPlan MenuEditor
begin

text \<open>
  A verification development for the Restiq backend, a restaurant service with a till, a kitchen display,
  guest ordering from a phone and an administration console, written in TypeScript on NestJS and Prisma.
  The development models the money path: how an order is opened, filled, fired to the kitchen, billed, paid,
  refunded and reconciled against the drawer, from the till and from the guest's phone. Beside it stand the parts
  of the console the money path rests on: the menu files and the price editor, the staff and their sessions at the till, the
  floor plan, the device fleet, the payments report and the subdomain of a tenant.

  The program and its parts. Each endpoint is a method of a service class that runs in one database transaction
  under the tenant's scope. The till (\<^verbatim>\<open>src/src/pos\<close>) opens orders on tables or at the counter, edits their lines,
  bills them, takes payment and refunds. The guest realm (\<^verbatim>\<open>src/src/guest\<close>) opens a table session, collects a shared
  cart, places it as an order and pays the bill by shares. Both call the kitchen (\<^verbatim>\<open>src/src/kitchen\<close>) inside their
  own transaction to fire lines, the bill core (\<^verbatim>\<open>src/src/pos/bills/bill-core.ts\<close>) to bill and finalise, the intent core
  (\<^verbatim>\<open>src/src/pos/payments/intent-core.ts\<close>) for electronic tenders, and the menu rules
  (\<^verbatim>\<open>src/src/admin/menu/pricing.ts\<close>, \<^verbatim>\<open>src/src/admin/menu/combo-menu.ts\<close>) for prices and combos. A manager's PIN (\<^verbatim>\<open>src/src/platform/manager-auth.service.ts\<close>)
  stands in front of voids, discounts and refunds.

  How the code is read.
  \<^item> A handler is a function from the environment (clock, date key, hash check), the caller's principal, the
    request and the database to \<open>api_error + (view \<times> database)\<close>. An exception is \<open>Inl\<close>, without a database, since the
    transaction rolls back. The attempt limiter writes outside that transaction, so the handlers behind the manager
    gate return its counters separately, also with an error.
  \<^item> A table is a list of rows in insertion order, which is the order of \<open>createdAt\<close>. Rows only ever read with their
    parent are embedded in it (modifiers of a line, lines of a credit note). Unique and CHECK constraints of the
    schema are checked where a row is written and give the driver's code as an internal error.
  \<^item> Transactions are serial, so \<open>lockBill\<close> (\<open>SELECT FOR UPDATE\<close>) changes nothing; compare-and-swap updates
    keep their condition, and \<open>commitFinalize\<close> receives the bill its caller read earlier, so the race it guards against
    can be stated.
  \<^item> Amounts are bigints in minor units and therefore \<open>int\<close>; bigint division truncates and is \<open>sdiv\<close>. Quantities that
    the source computes with number division are rationals until a conversion to bigint, which rejects a fraction.
  \<^item> The strings whose characters matter (menu files, slugs, host names) are lists of 16-bit words, the UTF-16 units of
    the language (\<open>js_string\<close>); other strings are HOL strings. A price in a file goes through binary64 numbers:
    \<open>fl\<close> rounds a rational to the nearest double, ties to even, subnormals included, and every multiplication and
    division of the source is an \<open>fl\<close>. Overflow to infinity makes a price absent, as \<open>Number.isFinite\<close> does.
    The round trip of prices holds for amounts below \<open>2 ^ 50\<close> minor units, which the double format can tell apart.
  \<^item> Recursion is structural over finite lists, so every handler is total and no fuel is needed; the one loop
    that might not end, a client reading page after page, is a \<open>partial_function\<close> and proved to return.
  \<^item> Third-party code is a parameter: \<open>Intl\<close> (the date key of a time zone) and \<open>argon2\<close> (the hash check) are fields of
    the environment; \<open>randomInt\<close> is an argument of the handlers that draw a PIN; a signed token is represented by the
    principal it carries; \<open>toLowerCase\<close>, \<open>normalize\<close>, the collation of the database, the xlsx reader and UTF-8
    decoding are fields of \<open>setup_env\<close>. The request decorators of class-validator (a quantity is at least 1, a list is not
    empty) are library behaviour and appear as hypotheses of the theorems that rely on them.

  The theories.
  \<^item> \<open>Prelude\<close>: errors and results, row operations, the locales \<open>row_table\<close> and \<open>step_invariant\<close>, list and sum lemmas.
  \<^item> \<open>Tax\<close>: \<^verbatim>\<open>src/src/pos/bills/tax.ts\<close> and the place-of-supply rule; the locale \<open>rounding\<close> with both rounding functions of
    the source as interpretations. The split of the GST, the exact total and the distance of the inclusive price.
  \<^item> \<open>Schema\<close>, \<open>Database\<close>, \<open>Samples\<close>: the tables of \<^verbatim>\<open>src/prisma/schema.prisma\<close> as records, the database, the
    interpretations of \<open>row_table\<close> for it, and a concrete restaurant the witnesses compute in.
  \<^item> \<open>Platform\<close>: \<^verbatim>\<open>src/src/platform\<close>, the attempt limiter, manager approval, permissions, live window, tokens.
  \<^item> \<open>Pricing\<close>: current prices and combo selections. The price picked is the best eligible row, and a resolved combo
    fills every slot exactly.
  \<^item> \<open>Kitchen\<close>: \<^verbatim>\<open>src/src/kitchen/tickets.service.ts\<close>. Its state machine is the inductive relation \<open>kitchen_step\<close>; firing is
    idempotent and fires each line once, and the recall counter is the number of logged recalls.
  \<^item> \<open>BillCore\<close>, \<open>Bills\<close>, \<open>Refunds\<close>: totals, tenders, finalisation, numbering, discounts and credit notes. A finalised
    bill is settled exactly, is numbered without a gap, and is never refunded beyond what was paid.
  \<^item> \<open>Orders\<close>, \<open>OrderLines\<close>: one unclosed order per table, ownership, the status machine, and what may still happen to a
    line once it is fired or paid for.
  \<^item> \<open>Payments\<close>: the life of a payment intent, its tender written once, and requests within the amount due.
  \<^item> \<open>Shifts\<close>: the blind close and its reconciliation of cash sales, refunds and movements.
  \<^item> \<open>GuestSessions\<close>, \<open>GuestCart\<close>, \<open>GuestOrders\<close>, \<open>GuestBills\<close>: the guest realm, from the QR code to the last share.
    A session is never taken from its guests while it is live, a cart line belongs to who added it, the placed order
    costs what its cart showed, and the shares of a bill sum to its total.
  \<^item> \<open>Footprint\<close>: which tables each handler may write, the frame of every invariant proof.
  \<^item> \<open>System\<close>: all handlers as one step relation, the invariant they keep together, and the refinement of the
    whole service to an append-only journal of issued invoices.
  \<^item> \<open>JsNumbers\<close>, \<open>Csv\<close>: strings of UTF-16 units, binary64 rounding and \<^verbatim>\<open>toFixed\<close>, and
    \<^verbatim>\<open>src/src/admin/reports/csv.ts\<close>. What the writer writes the parser reads back.
  \<^item> \<open>MenuExtraction\<close>, \<open>MenuImport\<close>: \<^verbatim>\<open>src/src/admin/menu-import\<close>, \<^verbatim>\<open>src/src/admin/menu/commit-items.ts\<close>, the go-live
    checklist and the menu export. A committed draft lands exactly its rows, once, and an exported menu imports
    to the same dishes at the same prices.
  \<^item> \<open>Reports\<close>: \<^verbatim>\<open>src/src/admin/reports/reports.service.ts\<close>, the owner's payments report. Following its cursors ends and
    shows every bill once, and its totals balance. A client that reads all pages is \<open>followPages\<close>, a partial function
    whose value is \<open>None\<close> if it runs forever; it never is.
  \<^item> \<open>Progress\<close>: a bill the till can show can always be paid.
  \<^item> \<open>Staff\<close>, \<open>TillAccess\<close>: \<^verbatim>\<open>src/src/admin/staff\<close>, \<^verbatim>\<open>src/src/pos/auth\<close>, \<^verbatim>\<open>src/src/pos/clock\<close> and the guard
    \<^verbatim>\<open>src/src/platform/pos-auth.guard.ts\<close>. What signing in gives out the guard admits, and a session that was ended by
    the owner or its holder is never admitted again.
  \<^item> \<open>FloorPlan\<close>: \<^verbatim>\<open>src/src/admin/floor-plan\<close>. Tables never overlap and stations print in their own outlet.
  \<^item> \<open>Fleet\<close>: \<^verbatim>\<open>src/src/ops/devices\<close>, \<^verbatim>\<open>src/src/admin/devices\<close>, \<^verbatim>\<open>src/src/device/enroll\<close>. Codes enrol one device each, an outlet
    has at most one hub, and a revoked device stays out of the till.
  \<^item> \<open>MenuEditor\<close>: \<^verbatim>\<open>src/src/admin/menu/prices.service.ts\<close>, \<^verbatim>\<open>src/src/admin/menu/items.service.ts\<close>. A price takes effect
    when it is set, and the first variant of an item keeps its price. The rows \<open>menu_item\<close> are those the till reads; the
    theory \<open>MenuImport\<close> reads the same table as \<open>catalogue_item\<close>, with the texts of its files as UTF-16 units.
  \<^item> \<open>TenantSlug\<close>: \<^verbatim>\<open>src/src/platform/tenant-slug.ts\<close> and \<^verbatim>\<open>src/src/platform/tenant-address.service.ts\<close>. A derived slug is
    well formed, free and not reserved; an address leads back to its slug and admits only tokens of its tenant.

  Not modelled, because it is outside the money path or is only glue: token signing, the guards of the other realms, controllers and
  modules, mail, the setup forms of the console (categories, modifier groups, combos, branding, outlets) and the operator's back
  office apart from the device fleet. Row-level security is enforced by the
  database, not by this code, and is no part of the model: what the theorems say of tenants and outlets
  rests on the checks the code makes itself. \<open>updatedAt\<close> columns are left out.
\<close>

end
